(* ===== verification/Prelude.thy ===== *)
theory Prelude
  imports Complex_Main "HOL-Library.Multiset"
begin

text \<open>
  Shared vocabulary of the development: the exceptions of the Python services as values of
  one datatype, the result type and its sequencing (\<open>bind_r\<close>, \<open>mapM\<close>, \<open>foldM\<close>), the
  collections of facts the component theories extend, and generic lemmas about lists.

  A function of the source that can raise is modelled as a function into \<open>py_error + 'a\<close>:
  \<open>Inl e\<close> is the exception, \<open>Inr x\<close> the returned value.  Of an HTTP error the model keeps
  the status and the stable code; of a human sentence it keeps the code only.
\<close>

named_theorems result_simps "evaluation of the result type"
named_theorems result_dests "inversion of a successful result"

datatype py_error =
    ValueError string
  | TypeError string
  | InvalidOperation
  | KeyError
  | OwnershipError string
  | IntegrityError string
  | PolicyError string
  | HttpError nat string

type_synonym 'a result = "py_error + 'a"

text \<open>A \<open>datetime.date\<close> is its proleptic Gregorian ordinal (\<open>date.toordinal()\<close>).\<close>

type_synonym date = int

section \<open>Sequencing\<close>

definition bind_r :: "'e + 'a \<Rightarrow> ('a \<Rightarrow> 'e + 'b) \<Rightarrow> 'e + 'b" where
  "bind_r m f = (case m of Inl e \<Rightarrow> Inl e | Inr x \<Rightarrow> f x)"

definition map_r :: "('a \<Rightarrow> 'b) \<Rightarrow> 'e + 'a \<Rightarrow> 'e + 'b" where
  "map_r f m = (case m of Inl e \<Rightarrow> Inl e | Inr x \<Rightarrow> Inr (f x))"

definition guard_r :: "bool \<Rightarrow> 'e \<Rightarrow> 'e + unit" where
  "guard_r b e = (if b then Inr () else Inl e)"

fun mapM :: "('a \<Rightarrow> 'e + 'b) \<Rightarrow> 'a list \<Rightarrow> 'e + 'b list" where
  "mapM f [] = Inr []"
| "mapM f (x # xs) = bind_r (f x) (\<lambda>y. bind_r (mapM f xs) (\<lambda>ys. Inr (y # ys)))"

fun foldM :: "('s \<Rightarrow> 'a \<Rightarrow> 'e + 's) \<Rightarrow> 's \<Rightarrow> 'a list \<Rightarrow> 'e + 's" where
  "foldM f s [] = Inr s"
| "foldM f s (x # xs) = bind_r (f s x) (\<lambda>s'. foldM f s' xs)"

lemma bind_r_simps [simp, result_simps]:
  "bind_r (Inl e) f = Inl e" "bind_r (Inr x) f = f x"
  by (simp_all add: bind_r_def)

lemma map_r_simps [simp, result_simps]:
  "map_r g (Inl e) = Inl e" "map_r g (Inr x) = Inr (g x)"
  by (simp_all add: map_r_def)

lemma guard_r_Inr [simp, result_simps]: "guard_r b e = Inr u \<longleftrightarrow> b"
  by (simp add: guard_r_def)

lemma guard_r_Inl [simp, result_simps]: "guard_r b e = Inl e' \<longleftrightarrow> \<not> b \<and> e' = e"
  by (auto simp: guard_r_def)

lemma bind_r_Inr_iff [result_simps]:
  "bind_r m f = Inr y \<longleftrightarrow> (\<exists>x. m = Inr x \<and> f x = Inr y)"
  by (cases m) auto

lemma bind_r_Inl_iff [result_simps]:
  "bind_r m f = Inl e \<longleftrightarrow> m = Inl e \<or> (\<exists>x. m = Inr x \<and> f x = Inl e)"
  by (cases m) auto

lemma bind_r_InrE [elim]:
  assumes "bind_r m f = Inr y"
  obtains x where "m = Inr x" and "f x = Inr y"
  using assms by (auto simp: bind_r_Inr_iff)

lemma map_r_Inr_iff [result_simps]: "map_r g m = Inr y \<longleftrightarrow> (\<exists>x. m = Inr x \<and> y = g x)"
  by (cases m) auto

lemma mapM_Inr_iff [result_simps]:
  "mapM f xs = Inr ys \<longleftrightarrow> list_all2 (\<lambda>x y. f x = Inr y) xs ys"
  by (induction xs arbitrary: ys) (auto simp: bind_r_Inr_iff list_all2_Cons1)

lemma mapM_length: "mapM f xs = Inr ys \<Longrightarrow> length ys = length xs"
  by (simp add: mapM_Inr_iff list_all2_lengthD)

lemma mapM_total:
  "(\<And>x. x \<in> set xs \<Longrightarrow> f x = Inr (g x)) \<Longrightarrow> mapM f xs = Inr (map g xs)"
  by (induction xs) auto

lemma mapM_Inr_nth: "mapM f xs = Inr ys \<Longrightarrow> i < length xs \<Longrightarrow> f (xs ! i) = Inr (ys ! i)"
  by (auto simp: mapM_Inr_iff dest: list_all2_nthD)

lemma mapM_Inr_set:
  assumes "mapM f xs = Inr ys" and "y \<in> set ys"
  obtains x where "x \<in> set xs" and "f x = Inr y"
proof -
  from assms have *: "list_all2 (\<lambda>x y. f x = Inr y) xs ys" by (simp add: mapM_Inr_iff)
  from assms(2) obtain i where "i < length ys" "ys ! i = y" by (auto simp: in_set_conv_nth)
  with * have "xs ! i \<in> set xs" "f (xs ! i) = Inr y"
    by (auto simp: list_all2_lengthD dest: list_all2_nthD2)
  then show thesis by (rule that)
qed

lemma mapM_Inl:
  "mapM f xs = Inl e \<Longrightarrow> \<exists>x\<in>set xs. f x = Inl e"
  by (induction xs) (auto simp: bind_r_Inl_iff)

lemma foldM_total:
  "(\<And>s x. x \<in> set xs \<Longrightarrow> f s x = Inr (g s x)) \<Longrightarrow> foldM f s xs = Inr (foldl g s xs)"
  by (induction xs arbitrary: s) auto

section \<open>Lists as ordered reads\<close>

lemma list_all2_memberE:
  assumes "list_all2 R xs ys" "y \<in> set ys"
  obtains x where "x \<in> set xs" "R x y"
  using assms by (induction rule: list_all2_induct) auto

lemma list_all2_member_leftE:
  assumes "list_all2 R xs ys" "x \<in> set xs"
  obtains y where "y \<in> set ys" "R x y"
  using assms by (induction rule: list_all2_induct) auto

lemma list_all2_map_eq: "list_all2 (\<lambda>x y. g y = f x) xs ys \<Longrightarrow> map g ys = map f xs"
  by (induction rule: list_all2_induct) auto

text \<open>First element that satisfies a predicate: Python's \<open>next((x for x in xs if p x), None)\<close>.\<close>

fun find_first :: "('a \<Rightarrow> bool) \<Rightarrow> 'a list \<Rightarrow> 'a option" where
  "find_first p [] = None"
| "find_first p (x # xs) = (if p x then Some x else find_first p xs)"

lemma find_first_SomeD: "find_first p xs = Some x \<Longrightarrow> x \<in> set xs \<and> p x"
  by (induction xs) (auto split: if_splits)

lemma find_first_None_iff: "find_first p xs = None \<longleftrightarrow> (\<forall>x\<in>set xs. \<not> p x)"
  by (induction xs) auto

text \<open>The set-and-sort idiom \<open>sorted(set(xs))\<close>.\<close>

definition sorted_set :: "'a::linorder list \<Rightarrow> 'a list" where
  "sorted_set xs = sort (remdups xs)"

lemma set_sorted_set [simp]: "set (sorted_set xs) = set xs"
  by (simp add: sorted_set_def)

lemma sorted_sorted_set [simp]: "sorted (sorted_set xs)"
  by (simp add: sorted_set_def)

lemma distinct_sorted_set [simp]: "distinct (sorted_set xs)"
  by (simp add: sorted_set_def)

lemma length_sorted_set: "length (sorted_set xs) = card (set xs)"
  by (simp add: sorted_set_def length_remdups_card_conv)

lemma sorted_set_cong: "set xs = set ys \<Longrightarrow> sorted_set xs = sorted_set ys"
  by (metis set_sorted_set sorted_sorted_set distinct_sorted_set sorted_distinct_set_unique)

end
