(* ===== verification/Decimals.thy ===== *)
theory Decimals
  imports Prelude
begin

text \<open>
  Python's \<open>decimal.Decimal\<close> as the source uses it.  A finite Decimal is represented by its
  numerical value, a rational: every comparison the code makes is by value, and rounding to a
  context's precision or to a quantum depends on the value only (a coefficient with trailing
  zeros rounds to the same value).  What this representation does not keep is the exponent
  and the sign of a zero, which only printing can show.  The exponent limits of the contexts
  (about one million) are never met and are left out.  Infinities and NaNs are the
  constructor \<open>NonFinite\<close> at the functions that test \<open>is_finite()\<close>.

  \<open>rhe\<close> is ROUND_HALF_EVEN to an integer, \<open>ctx_round p\<close> rounds a result to the \<open>p\<close>
  significant digits of a context, \<open>quantize p k\<close> is \<open>quantize(Decimal(1).scaleb(-k))\<close> in a
  context of precision \<open>p\<close>, which raises \<open>InvalidOperation\<close> when the result needs more
  than \<open>p\<close> digits.  The ambient context of the program has 28 digits.
\<close>

type_synonym decimal = rat

datatype py_decimal = Finite decimal | NonFinite

named_theorems exact_simps "operations that are exact on scaled amounts"

section \<open>Rounding half to even\<close>

definition rhe :: "rat \<Rightarrow> int" where
  "rhe x = (let f = \<lfloor>x\<rfloor>; r = x - of_int f
    in if r < 1 / 2 then f else if 1 / 2 < r then f + 1
       else if even f then f else f + 1)"

lemma rhe_of_int [simp]: "rhe (of_int n) = n"
  by (simp add: rhe_def)

lemma rhe_0 [simp]: "rhe 0 = 0"
  using rhe_of_int [of 0] by simp

lemma rhe_error: "\<bar>of_int (rhe x) - x\<bar> \<le> 1 / 2"
proof -
  have "of_int \<lfloor>x\<rfloor> \<le> x" "x < of_int \<lfloor>x\<rfloor> + 1" by linarith+
  then show ?thesis by (auto simp: rhe_def Let_def)
qed

lemma rhe_unique:
  assumes "\<bar>of_int n - x\<bar> < 1 / 2"
  shows "rhe x = n"
proof -
  have "\<bar>of_int (rhe x) - of_int n :: rat\<bar> < 1"
    using rhe_error [of x] assms by linarith
  then have "\<bar>rhe x - n\<bar> < 1" by linarith
  then show ?thesis by simp
qed

lemma rhe_tie:
  assumes "x = of_int n + 1 / 2"
  shows "rhe x = (if even n then n else n + 1)"
proof -
  have "\<lfloor>x\<rfloor> = n" unfolding assms by linarith
  then show ?thesis by (simp add: rhe_def Let_def assms)
qed

lemma rhe_cases [case_names near tie]:
  obtains "\<bar>of_int (rhe x) - x\<bar> < 1 / 2"
  | n where "x = of_int n + 1 / 2"
proof (cases "x - of_int \<lfloor>x\<rfloor> = 1 / 2")
  case True
  then have "x = of_int \<lfloor>x\<rfloor> + 1 / 2" by simp
  then show thesis by (rule that(2))
next
  case False
  have "of_int \<lfloor>x\<rfloor> \<le> x" "x < of_int \<lfloor>x\<rfloor> + 1" by linarith+
  with False have "\<bar>of_int (rhe x) - x\<bar> < 1 / 2"
    by (auto simp: rhe_def Let_def)
  then show thesis by (rule that(1))
qed

lemma rhe_minus [simp]: "rhe (- x) = - rhe x"
proof (cases x rule: rhe_cases)
  case near
  then have "\<bar>of_int (- rhe x) - (- x)\<bar> < 1 / 2" by linarith
  then show ?thesis by (rule rhe_unique)
next
  case (tie n)
  have "- x = of_int (- n - 1) + 1 / 2" by (simp add: tie)
  then have "rhe (- x) = (if even (- n - 1) then - n - 1 else - n - 1 + 1)" by (rule rhe_tie)
  also have "\<dots> = - rhe x" by (simp add: rhe_tie [OF tie])
  finally show ?thesis .
qed

lemma rhe_mono: "x \<le> y \<Longrightarrow> rhe x \<le> rhe y"
proof (rule ccontr)
  assume le: "x \<le> y" and not: "\<not> rhe x \<le> rhe y"
  then have "rhe y + 1 \<le> rhe x" by simp
  then have gap: "of_int (rhe y) + 1 \<le> (of_int (rhe x) :: rat)" by linarith
  have "x = y"
    using rhe_error [of x] rhe_error [of y] gap le by linarith
  with not show False by simp
qed

lemma rhe_nonneg: "0 \<le> x \<Longrightarrow> 0 \<le> rhe x"
  using rhe_mono [of 0 x] by simp

lemma rhe_add_int: "even n \<Longrightarrow> rhe (x + of_int n) = rhe x + n"
proof -
  assume n: "even n"
  have "\<lfloor>x + of_int n\<rfloor> = \<lfloor>x\<rfloor> + n" by simp
  with n show ?thesis by (simp add: rhe_def Let_def)
qed

lemma rhe_abs_le: "\<bar>x\<bar> \<le> of_int n \<Longrightarrow> \<bar>rhe x\<bar> \<le> n"
  using rhe_mono [of x "of_int n"] rhe_mono [of "- of_int n" x] by (simp add: abs_le_iff)

lemma rhe_abs_less: "\<bar>x\<bar> \<le> of_int n - 1 / 2 - e \<Longrightarrow> 0 < e \<Longrightarrow> \<bar>rhe x\<bar> < n"
proof -
  assume "\<bar>x\<bar> \<le> of_int n - 1 / 2 - e" "0 < e"
  with rhe_error [of x] have "\<bar>of_int (rhe x) :: rat\<bar> < of_int n" by linarith
  then show ?thesis by linarith
qed

section \<open>Scaled values\<close>

text \<open>\<open>has_scale k x\<close>: \<open>x\<close> has at most \<open>k\<close> decimal places.\<close>

definition has_scale :: "nat \<Rightarrow> decimal \<Rightarrow> bool" where
  "has_scale k x \<longleftrightarrow> of_int \<lfloor>x * 10 ^ k\<rfloor> = x * 10 ^ k"

definition scaled :: "nat \<Rightarrow> int \<Rightarrow> decimal" where
  "scaled k n = of_int n / 10 ^ k"

lemma has_scale_iff: "has_scale k x \<longleftrightarrow> (\<exists>n. x = scaled k n)"
proof
  assume "has_scale k x"
  then have "of_int \<lfloor>x * 10 ^ k\<rfloor> = x * 10 ^ k" by (simp only: has_scale_def)
  then have "x = scaled k \<lfloor>x * 10 ^ k\<rfloor>"
    unfolding scaled_def by (simp only:) simp
  then show "\<exists>n. x = scaled k n" ..
qed (auto simp: has_scale_def scaled_def)

lemma has_scaleE [elim]:
  assumes "has_scale k x"
  obtains n where "x = scaled k n"
  using assms by (auto simp: has_scale_iff)

lemma has_scale_scaled [simp, intro]: "has_scale k (scaled k n)"
  by (auto simp: has_scale_iff)

lemma has_scale_0 [simp, intro]: "has_scale k 0"
  by (simp add: has_scale_def)

lemma scaled_add: "scaled k m + scaled k n = scaled k (m + n)"
  by (simp add: scaled_def add_divide_distrib)

lemma has_scale_add [intro]: "has_scale k x \<Longrightarrow> has_scale k y \<Longrightarrow> has_scale k (x + y)"
  by (metis has_scale_iff scaled_add)

lemma has_scale_minus [intro]: "has_scale k x \<Longrightarrow> has_scale k (- x)"
proof -
  assume "has_scale k x"
  then obtain n where "x = scaled k n" by blast
  then have "- x = scaled k (- n)" by (simp add: scaled_def)
  then show ?thesis by simp
qed

lemma has_scale_diff [intro]: "has_scale k x \<Longrightarrow> has_scale k y \<Longrightarrow> has_scale k (x - y)"
  using has_scale_add [of k x "- y"] has_scale_minus by simp

lemma has_scale_mult: "has_scale j x \<Longrightarrow> has_scale k y \<Longrightarrow> has_scale (j + k) (x * y)"
proof -
  assume "has_scale j x" "has_scale k y"
  then obtain m n where "x = scaled j m" "y = scaled k n" by blast
  then have "x * y = scaled (j + k) (m * n)" by (simp add: scaled_def power_add)
  then show ?thesis by simp
qed

lemma has_scale_mono: "has_scale j x \<Longrightarrow> j \<le> k \<Longrightarrow> has_scale k x"
proof -
  assume "has_scale j x" "j \<le> k"
  then obtain n where n: "x = scaled j n" by blast
  have "x = scaled k (n * 10 ^ (k - j))"
  proof -
    have "(10::rat) ^ k = 10 ^ j * 10 ^ (k - j)"
      using \<open>j \<le> k\<close> by (simp flip: power_add)
    then show ?thesis by (simp add: n scaled_def)
  qed
  then show ?thesis by simp
qed

lemma has_scale_sum_list: "(\<And>x. x \<in> set xs \<Longrightarrow> has_scale k x) \<Longrightarrow> has_scale k (sum_list xs)"
  by (induction xs) (auto intro!: has_scale_add)

lemma has_scale_of_int [simp, intro]: "has_scale k (of_int n)"
proof -
  have "(of_int n :: rat) = scaled k (n * 10 ^ k)" by (simp add: scaled_def)
  then show ?thesis by (simp only: has_scale_scaled)
qed

lemma has_scale_numeral [simp, intro]: "has_scale k (numeral n)"
  using has_scale_of_int [of k "numeral n"] by simp

lemma has_scale_1 [simp, intro]: "has_scale k 1"
  using has_scale_of_int [of k 1] by simp

section \<open>Quantize\<close>

definition quantize :: "nat \<Rightarrow> nat \<Rightarrow> decimal \<Rightarrow> decimal result" where
  "quantize p k x = (let c = rhe (x * 10 ^ k)
    in if 10 ^ p \<le> \<bar>c\<bar> then Inl InvalidOperation else Inr (scaled k c))"

text \<open>The value of a quantization that does not overflow the precision.\<close>

definition rounded :: "nat \<Rightarrow> decimal \<Rightarrow> decimal" where
  "rounded k x = scaled k (rhe (x * 10 ^ k))"

lemma quantize_Inr: "quantize p k x = Inr y \<Longrightarrow> y = rounded k x"
  by (auto simp: quantize_def rounded_def Let_def split: if_splits)

lemma quantize_ok: "\<bar>x * 10 ^ k\<bar> < 10 ^ p - 1 \<Longrightarrow> quantize p k x = Inr (rounded k x)"
proof -
  assume "\<bar>x * 10 ^ k\<bar> < 10 ^ p - 1"
  with rhe_error [of "x * 10 ^ k"] have "\<bar>of_int (rhe (x * 10 ^ k)) :: rat\<bar> < 10 ^ p"
    by linarith
  then have "of_int \<bar>rhe (x * 10 ^ k)\<bar> < (of_int (10 ^ p) :: rat)" by simp
  then have "\<bar>rhe (x * 10 ^ k)\<bar> < 10 ^ p" by (simp only: of_int_less_iff)
  then show ?thesis by (simp add: quantize_def rounded_def Let_def)
qed

lemma has_scale_rounded [simp, intro]: "has_scale k (rounded k x)"
  by (simp add: rounded_def)

lemma rounded_0 [simp]: "rounded k 0 = 0"
  by (simp add: rounded_def scaled_def)

lemma rounded_exact [exact_simps]: "has_scale k x \<Longrightarrow> rounded k x = x"
  by (auto simp: rounded_def scaled_def)

lemma rounded_idem [simp]: "rounded k (rounded k x) = rounded k x"
  by (simp add: rounded_exact)

lemma rounded_fix_iff: "rounded k x = x \<longleftrightarrow> has_scale k x"
  by (metis has_scale_rounded rounded_exact)

lemma rounded_minus [simp]: "rounded k (- x) = - rounded k x"
  by (simp add: rounded_def scaled_def)

lemma rounded_mono: "x \<le> y \<Longrightarrow> rounded k x \<le> rounded k y"
  by (simp add: rounded_def scaled_def divide_right_mono mult_right_mono rhe_mono)

lemma rounded_nonneg: "0 \<le> x \<Longrightarrow> 0 \<le> rounded k x"
  using rounded_mono [of 0 x k] by simp

lemma rounded_nonpos: "x \<le> 0 \<Longrightarrow> rounded k x \<le> 0"
  using rounded_mono [of x 0 k] by simp

lemma rounded_error: "\<bar>rounded k x - x\<bar> \<le> 1 / (2 * 10 ^ k)"
proof -
  have "rounded k x - x = (of_int (rhe (x * 10 ^ k)) - x * 10 ^ k) / 10 ^ k"
    by (simp add: rounded_def scaled_def diff_divide_distrib)
  then have "\<bar>rounded k x - x\<bar> = \<bar>of_int (rhe (x * 10 ^ k)) - x * 10 ^ k\<bar> / 10 ^ k"
    by simp
  also have "\<dots> \<le> (1 / 2) / 10 ^ k"
    using rhe_error [of "x * 10 ^ k"] by (intro divide_right_mono) auto
  finally show ?thesis by simp
qed

text \<open>No value on the grid is nearer than the rounded one.\<close>

lemma rounded_nearest:
  assumes "has_scale k y"
  shows "\<bar>rounded k x - x\<bar> \<le> \<bar>y - x\<bar>"
proof -
  obtain n where y: "y = scaled k n" using assms by blast
  let ?z = "x * 10 ^ k"
  have "\<bar>of_int (rhe ?z) - ?z\<bar> \<le> \<bar>of_int n - ?z\<bar>"
  proof (cases "n = rhe ?z")
    case False
    then have "1 \<le> \<bar>of_int n - of_int (rhe ?z) :: rat\<bar>"
      by (metis abs_of_nonneg abs_ge_zero of_int_1_le_iff of_int_abs of_int_diff zero_less_abs_iff
          int_one_le_iff_zero_less right_minus_eq)
    with rhe_error [of ?z] show ?thesis by linarith
  qed simp
  moreover have "rounded k x - x = (of_int (rhe ?z) - ?z) / 10 ^ k"
    by (simp add: rounded_def scaled_def diff_divide_distrib)
  moreover have "y - x = (of_int n - ?z) / 10 ^ k"
    by (simp add: y scaled_def diff_divide_distrib)
  ultimately show ?thesis by (simp add: divide_right_mono)
qed

section \<open>Context precision\<close>

text \<open>
  The result of an operation in a context of precision \<open>p\<close> is the exact result rounded half
  to even to \<open>p\<close> significant digits.  \<open>adjusted x\<close> is Python's \<open>Decimal.adjusted()\<close>: the
  exponent of the leading digit.
\<close>

fun ndigits :: "nat \<Rightarrow> nat" where
  "ndigits n = (if n < 10 then 1 else Suc (ndigits (n div 10)))"

declare ndigits.simps [simp del]

lemma ndigits_pos: "0 < ndigits n"
  by (subst ndigits.simps) simp

lemma ndigits_upper: "n < 10 ^ ndigits n"
proof (induction n rule: ndigits.induct)
  case (1 n)
  show ?case
  proof (cases "n < 10")
    case False
    with 1 have "n div 10 < 10 ^ ndigits (n div 10)" by simp
    then have "n < 10 * 10 ^ ndigits (n div 10)" by linarith
    with False show ?thesis by (simp add: ndigits.simps [of n])
  qed (simp add: ndigits.simps [of n])
qed

lemma ndigits_lower: "0 < n \<Longrightarrow> 10 ^ (ndigits n - 1) \<le> n"
proof (induction n rule: ndigits.induct)
  case (1 n)
  show ?case
  proof (cases "n < 10")
    case False
    with 1 have IH: "10 ^ (ndigits (n div 10) - 1) \<le> n div 10" by simp
    obtain d where d: "ndigits (n div 10) = Suc d"
      using ndigits_pos [of "n div 10"] by (cases "ndigits (n div 10)") auto
    from IH d have "10 * 10 ^ d \<le> n" by simp
    with False d show ?thesis by (simp add: ndigits.simps [of n])
  qed (use 1 in \<open>simp add: ndigits.simps [of n]\<close>)
qed

definition adjusted :: "rat \<Rightarrow> int" where
  "adjusted x = (case quotient_of \<bar>x\<bar> of (n, d) \<Rightarrow>
     let k = int (ndigits (nat n)) - int (ndigits (nat d))
     in if 10 powi k \<le> \<bar>x\<bar> then k else k - 1)"

text \<open>Counting digits on binary integers keeps evaluation fast.\<close>

function int_digits :: "int \<Rightarrow> int" where
  "int_digits n = (if n < 10 then 1 else 1 + int_digits (n div 10))"
  by pat_completeness auto
termination by (relation "measure nat") auto

declare int_digits.simps [simp del]

lemma int_digits_ndigits: "int_digits n = int (ndigits (nat n))"
proof (induction n rule: int_digits.induct)
  case (1 n)
  show ?case
  proof (cases "n < 10")
    case True
    then have "nat n < 10" by simp
    with True show ?thesis by (simp add: int_digits.simps [of n] ndigits.simps [of "nat n"])
  next
    case False
    then have "nat (n div 10) = nat n div 10" "\<not> nat n < 10" by (auto simp: nat_div_distrib)
    with False 1 show ?thesis
      by (simp add: int_digits.simps [of n] ndigits.simps [of "nat n"])
  qed
qed

lemma adjusted_code [code]:
  "adjusted x = (case quotient_of \<bar>x\<bar> of (n, d) \<Rightarrow>
     let k = int_digits n - int_digits d in if 10 powi k \<le> \<bar>x\<bar> then k else k - 1)"
  by (simp add: adjusted_def int_digits_ndigits)

definition ctx_round :: "nat \<Rightarrow> rat \<Rightarrow> decimal" where
  "ctx_round p x =
     (if x = 0 then 0
      else let e = adjusted x - (int p - 1) in of_int (rhe (x / 10 powi e)) * 10 powi e)"

lemma adjusted_bounds:
  assumes "x \<noteq> 0"
  shows "10 powi adjusted x \<le> \<bar>x\<bar> \<and> \<bar>x\<bar> < 10 powi (adjusted x + 1)"
proof -
  obtain n d where q: "quotient_of \<bar>x\<bar> = (n, d)" by fastforce
  have d: "0 < d" and x: "\<bar>x\<bar> = of_int n / of_int d"
    using q by (auto dest: quotient_of_denom_pos quotient_of_div)
  have n: "0 < n"
    using assms d x by (metis abs_of_pos divide_less_0_iff linorder_neqE_linordered_idom
        of_int_0 of_int_less_0_iff of_int_pos zero_less_abs_iff abs_not_less_zero div_0)
  let ?a = "ndigits (nat n)" and ?b = "ndigits (nat d)"
  let ?k = "int ?a - int ?b"
  have nu: "of_int n < (10::rat) ^ ?a"
  proof -
    have "of_nat (nat n) < (of_nat (10 ^ ?a) :: rat)" by (simp only: of_nat_less_iff ndigits_upper)
    with n show ?thesis by simp
  qed
  have du: "of_int d < (10::rat) ^ ?b"
  proof -
    have "of_nat (nat d) < (of_nat (10 ^ ?b) :: rat)" by (simp only: of_nat_less_iff ndigits_upper)
    with d show ?thesis by simp
  qed
  have nl: "(10::rat) ^ ?a \<le> 10 * of_int n"
  proof -
    have "10 ^ (?a - 1) \<le> nat n" using n by (intro ndigits_lower) simp
    then have "of_nat (10 ^ (?a - 1)) \<le> (of_nat (nat n) :: rat)" by (simp only: of_nat_le_iff)
    then have "(10::rat) ^ (?a - 1) \<le> of_int n" using n by simp
    moreover have "(10::rat) ^ ?a = 10 * 10 ^ (?a - 1)"
      using ndigits_pos [of "nat n"] by (cases ?a) auto
    ultimately show ?thesis by simp
  qed
  have dl: "(10::rat) ^ ?b \<le> 10 * of_int d"
  proof -
    have "10 ^ (?b - 1) \<le> nat d" using d by (intro ndigits_lower) simp
    then have "of_nat (10 ^ (?b - 1)) \<le> (of_nat (nat d) :: rat)" by (simp only: of_nat_le_iff)
    then have "(10::rat) ^ (?b - 1) \<le> of_int d" using d by simp
    moreover have "(10::rat) ^ ?b = 10 * 10 ^ (?b - 1)"
      using ndigits_pos [of "nat d"] by (cases ?b) auto
    ultimately show ?thesis by simp
  qed
  have pk: "(10::rat) powi ?k = 10 ^ ?a / 10 ^ ?b"
    by (simp add: power_int_diff)
  have dpos: "(0::rat) < of_int d" using d by simp
  have upper: "\<bar>x\<bar> < 10 powi (?k + 1)"
  proof -
    have "of_int n * (10::rat) ^ ?b < 10 ^ ?a * (10 * of_int d)"
      using nu dl dpos n by (intro mult_less_le_imp_less) auto
    then have "of_int n / of_int d < 10 * ((10::rat) ^ ?a / 10 ^ ?b)"
      using dpos by (simp add: field_simps)
    then show ?thesis using x pk by (simp add: power_int_add mult.commute)
  qed
  have lower: "10 powi (?k - 1) < \<bar>x\<bar>"
  proof -
    have "(10::rat) ^ ?a * of_int d < 10 * of_int n * 10 ^ ?b"
      using nl du dpos n by (intro mult_le_less_imp_less) auto
    then have "((10::rat) ^ ?a / 10 ^ ?b) / 10 < of_int n / of_int d"
      using dpos by (simp add: field_simps)
    then show ?thesis using x pk by (simp add: power_int_diff)
  qed
  show ?thesis
    using upper lower by (simp add: adjusted_def q Let_def)
qed

lemma ctx_round_0 [simp]: "ctx_round p 0 = 0"
  by (simp add: ctx_round_def)

text \<open>A value with \<open>s\<close> decimals whose coefficient has at most \<open>p\<close> digits is kept.\<close>

lemma ctx_round_exact [exact_simps]:
  assumes sc: "has_scale s x" and bound: "\<bar>x\<bar> * 10 ^ s < 10 ^ p"
  shows "ctx_round p x = x"
proof (cases "x = 0")
  case False
  define e where "e = adjusted x - (int p - 1)"
  obtain m where m: "x = scaled s m" using sc by blast
  have "10 powi adjusted x * 10 ^ s < (10::rat) ^ p"
    using adjusted_bounds [OF False] bound
    by (meson le_less_trans mult_right_mono zero_le_numeral zero_le_power)
  then have "(10::rat) powi (adjusted x + int s) < 10 powi int p"
    by (simp add: power_int_add)
  then have "adjusted x + int s < int p"
    by (rule power_int_le_imp_less_exp [rotated]) simp_all
  then have le: "e + int s \<le> 0" by (simp add: e_def)
  define j where "j = nat (- (e + int s))"
  have "x / 10 powi e = of_int (m * 10 ^ j)"
  proof -
    have "(10::rat) ^ j = 10 powi (- (e + int s))" using le by (simp add: j_def power_int_def)
    also have "\<dots> = inverse (10 powi (e + int s))" by (rule power_int_minus)
    also have "\<dots> = inverse (10 powi e * 10 ^ s)" by (simp add: power_int_add)
    finally show ?thesis by (simp add: m scaled_def field_simps)
  qed
  then have "of_int (rhe (x / 10 powi e)) * 10 powi e = x"
    by (metis rhe_of_int nonzero_eq_divide_eq power_int_not_zero zero_neq_numeral)
  with False show ?thesis by (simp add: ctx_round_def e_def Let_def)
qed simp

text \<open>Otherwise the relative error is at most half a unit of the last digit.\<close>

lemma ctx_round_error:
  assumes "0 < p"
  shows "\<bar>ctx_round p x - x\<bar> \<le> \<bar>x\<bar> / (2 * 10 ^ (p - 1))"
proof (cases "x = 0")
  case False
  define e where "e = adjusted x - (int p - 1)"
  have pos: "(0::rat) < 10 powi e" by simp
  have "ctx_round p x - x = (of_int (rhe (x / 10 powi e)) - x / 10 powi e) * 10 powi e"
    using False by (simp add: ctx_round_def e_def Let_def left_diff_distrib)
  then have "\<bar>ctx_round p x - x\<bar> = \<bar>of_int (rhe (x / 10 powi e)) - x / 10 powi e\<bar> * 10 powi e"
    by (simp add: abs_mult)
  also have "\<dots> \<le> (1 / 2) * 10 powi e"
    using rhe_error [of "x / 10 powi e"] pos by (intro mult_right_mono) auto
  also have "\<dots> = 10 powi adjusted x / (2 * 10 ^ (p - 1))"
  proof -
    have "(10::rat) powi adjusted x = 10 powi e * 10 ^ (p - 1)"
      using assms by (simp add: e_def power_int_diff flip: power_int_of_nat)
    then show ?thesis by simp
  qed
  also have "\<dots> \<le> \<bar>x\<bar> / (2 * 10 ^ (p - 1))"
    using adjusted_bounds [OF False] by (intro divide_right_mono) auto
  finally show ?thesis .
qed simp

lemma ctx_round_sign:
  assumes "0 < p" shows "0 \<le> x \<Longrightarrow> 0 \<le> ctx_round p x"
  by (auto simp: ctx_round_def Let_def intro!: mult_nonneg_nonneg rhe_nonneg)

section \<open>The ambient context\<close>

definition ambient_prec :: nat where "ambient_prec = 28"

definition dec_add :: "decimal \<Rightarrow> decimal \<Rightarrow> decimal" where
  "dec_add a b = ctx_round ambient_prec (a + b)"

definition dec_sub :: "decimal \<Rightarrow> decimal \<Rightarrow> decimal" where
  "dec_sub a b = ctx_round ambient_prec (a - b)"

definition dec_mul :: "decimal \<Rightarrow> decimal \<Rightarrow> decimal" where
  "dec_mul a b = ctx_round ambient_prec (a * b)"

text \<open>\<open>sum(xs, Decimal("0"))\<close> and the running totals of the services.\<close>

definition dec_sum :: "decimal list \<Rightarrow> decimal" where
  "dec_sum xs = foldl dec_add 0 xs"

text \<open>\<open>money m x\<close>: four decimals and magnitude below \<open>m\<close>; such values add exactly.\<close>

definition money :: "decimal \<Rightarrow> decimal \<Rightarrow> bool" where
  "money m x \<longleftrightarrow> has_scale 4 x \<and> \<bar>x\<bar> \<le> m"

lemma dec_add_exact [exact_simps]:
  assumes "has_scale 4 a" "has_scale 4 b" "\<bar>a + b\<bar> < 10 ^ 24"
  shows "dec_add a b = a + b"
  unfolding dec_add_def ambient_prec_def
  using assms by (intro ctx_round_exact [where s = 4]) auto

lemma dec_sub_exact [exact_simps]:
  assumes "has_scale 4 a" "has_scale 4 b" "\<bar>a - b\<bar> < 10 ^ 24"
  shows "dec_sub a b = a - b"
  unfolding dec_sub_def ambient_prec_def
  using assms by (intro ctx_round_exact [where s = 4]) auto

lemma foldl_dec_add_exact:
  assumes "\<And>x. x \<in> set xs \<Longrightarrow> money m x" and "has_scale 4 a"
    and "\<bar>a\<bar> + of_nat (length xs) * m < 10 ^ 24"
  shows "foldl dec_add a xs = a + sum_list xs"
  using assms
proof (induction xs arbitrary: a)
  case (Cons x xs)
  have x: "has_scale 4 x" "\<bar>x\<bar> \<le> m" using Cons.prems(1) [of x] by (auto simp: money_def)
  have len: "of_nat (length (x # xs)) * m = m + of_nat (length xs) * m"
    by (simp add: algebra_simps)
  have m: "0 \<le> of_nat (length xs) * m" using x(2) by auto
  have "dec_add a x = a + x"
    using Cons.prems(2,3) x len m by (intro dec_add_exact) linarith+
  moreover have "foldl dec_add (a + x) xs = (a + x) + sum_list xs"
    using Cons.prems x len by (intro Cons.IH) (auto intro!: has_scale_add)
  ultimately show ?case by (simp add: add.assoc)
qed simp

lemma dec_sum_exact:
  assumes "\<And>x. x \<in> set xs \<Longrightarrow> money m x" and "of_nat (length xs) * m < 10 ^ 24"
  shows "dec_sum xs = sum_list xs"
  using foldl_dec_add_exact [of xs m 0] assms by (simp add: dec_sum_def)

end
