(* ===== verification/Payable_Rounding.thy ===== *)
theory Payable_Rounding
  imports Decimals
begin

text \<open>
  The payable-rounding authority (\<open>payroll/calculation/payable_rounding.py\<close>), the entry-time
  normalization of typed amounts (\<open>payroll/typed_amount.py\<close>) and the Company currency reads
  (\<open>company_currency.py\<close>).  The locale \<open>rounding_law\<close> states what every client needs of a
  rounding function; it is interpreted on the quantization of any scale.
\<close>

section \<open>Laws of a rounding function\<close>

locale rounding_law =
  fixes rnd :: "decimal \<Rightarrow> decimal"
    and quantum :: decimal
  assumes rnd_idem: "rnd (rnd x) = rnd x"
    and rnd_mono: "x \<le> y \<Longrightarrow> rnd x \<le> rnd y"
    and rnd_minus: "rnd (- x) = - rnd x"
    and rnd_error: "\<bar>rnd x - x\<bar> \<le> quantum / 2"
begin

lemma rnd_zero: "rnd 0 = 0"
  using rnd_minus [of 0] by simp

lemma rnd_nonneg: "0 \<le> x \<Longrightarrow> 0 \<le> rnd x"
  using rnd_mono [of 0 x] by (simp add: rnd_zero)

lemma rnd_nonpos: "x \<le> 0 \<Longrightarrow> rnd x \<le> 0"
  using rnd_mono [of x 0] by (simp add: rnd_zero)

lemma rnd_below: "rnd b = b \<Longrightarrow> x \<le> b \<Longrightarrow> rnd x \<le> b"
  using rnd_mono [of x b] by simp

lemma rnd_above: "rnd b = b \<Longrightarrow> b \<le> x \<Longrightarrow> b \<le> rnd x"
  using rnd_mono [of b x] by simp

lemma rnd_sum_error:
  "\<bar>sum_list (map rnd xs) - sum_list xs\<bar> \<le> of_nat (length xs) * (quantum / 2)"
proof (induction xs)
  case (Cons x xs)
  have "\<bar>sum_list (map rnd (x # xs)) - sum_list (x # xs)\<bar>
      \<le> \<bar>rnd x - x\<bar> + \<bar>sum_list (map rnd xs) - sum_list xs\<bar>" by simp
  also have "\<dots> \<le> quantum / 2 + of_nat (length xs) * (quantum / 2)"
    using Cons.IH rnd_error [of x] by (rule add_mono [rotated])
  finally show ?case by (simp add: algebra_simps)
qed simp

text \<open>Topping a base up to a floor with a rounded adjustment lands within half a quantum.\<close>

lemma rnd_adjust_error: "\<bar>(base + rnd (target - base)) - target\<bar> \<le> quantum / 2"
  using rnd_error [of "target - base"] by (simp add: algebra_simps)

end

interpretation grid: rounding_law "rounded k" "1 / 10 ^ k" for k :: nat
proof unfold_locales
  fix x show "\<bar>rounded k x - x\<bar> \<le> 1 / 10 ^ k / 2"
    using rounded_error [of k x] by simp
qed (auto intro: rounded_mono)

section \<open>The one payable rounding\<close>

definition internal_digits :: nat where "internal_digits = 4"
definition max_minor_unit_digits :: int where "max_minor_unit_digits = 4"
definition rounding_prec :: nat where "rounding_prec = 60"

definition validated_digits :: "int \<Rightarrow> nat result" where
  "validated_digits d =
     (if 0 \<le> d \<and> d \<le> max_minor_unit_digits then Inr (nat d)
      else Inl (ValueError ''minor_unit_digits''))"

definition round_payable :: "py_decimal \<Rightarrow> int \<Rightarrow> decimal result" where
  "round_payable amount minor_unit_digits =
     (case amount of
        NonFinite \<Rightarrow> Inl (ValueError ''amount must be a finite Decimal'')
      | Finite a \<Rightarrow> bind_r (validated_digits minor_unit_digits)
          (\<lambda>digits. quantize rounding_prec digits a))"

definition is_payable_precision :: "decimal \<Rightarrow> int \<Rightarrow> bool result" where
  "is_payable_precision amount minor_unit_digits =
     map_r (\<lambda>r. r = amount) (round_payable (Finite amount) minor_unit_digits)"

lemma validated_digits_Inr [simp, result_simps]:
  "validated_digits d = Inr k \<longleftrightarrow> 0 \<le> d \<and> d \<le> 4 \<and> k = nat d"
  by (auto simp: validated_digits_def max_minor_unit_digits_def)

text \<open>Amounts the rounding context can hold at four digits: far above any stored amount.\<close>

definition roundable :: "decimal \<Rightarrow> bool" where
  "roundable a \<longleftrightarrow> \<bar>a\<bar> < 10 ^ 50"

lemma quantize_roundable:
  assumes "roundable a" "d \<le> 4"
  shows "quantize rounding_prec d a = Inr (rounded d a)"
proof (rule quantize_ok)
  have "(10::rat) ^ d \<le> 10 ^ 4" using assms(2) by (intro power_increasing) auto
  then have "\<bar>a\<bar> * 10 ^ d \<le> 10 ^ 50 * 10 ^ 4"
    using assms(1) by (intro mult_mono) (auto simp: roundable_def)
  then show "\<bar>a * 10 ^ d\<bar> < 10 ^ rounding_prec - 1"
    by (simp add: abs_mult rounding_prec_def)
qed

lemma round_payable_Finite:
  assumes "0 \<le> d" "d \<le> 4" "roundable a"
  shows "round_payable (Finite a) d = Inr (rounded (nat d) a)"
  using assms quantize_roundable [of a "nat d"]
  by (simp add: round_payable_def validated_digits_def max_minor_unit_digits_def)

lemma round_payable_InrD:
  assumes "round_payable amount d = Inr r"
  obtains a where "amount = Finite a" "0 \<le> d" "d \<le> 4" "r = rounded (nat d) a"
  using assms by (auto simp: round_payable_def bind_r_Inr_iff split: py_decimal.splits
      dest: quantize_Inr)

lemma is_payable_precision_iff:
  assumes "0 \<le> d" "d \<le> 4" "roundable a"
  shows "is_payable_precision a d = Inr (has_scale (nat d) a)"
  using assms by (simp add: is_payable_precision_def round_payable_Finite rounded_fix_iff)

lemma round_payable_idem:
  assumes "0 \<le> d" "d \<le> 4" "roundable a"
  shows "round_payable (Finite (rounded (nat d) a)) d = Inr (rounded (nat d) a)"
proof -
  let ?B = "(10::rat) ^ 50"
  have "rounded (nat d) a \<le> ?B" "- ?B \<le> rounded (nat d) a"
    using rounded_mono [of a ?B "nat d"] rounded_mono [of "- ?B" a "nat d"] assms(3)
    by (simp_all add: roundable_def rounded_exact abs_less_iff)
  moreover have "(10::rat) ^ nat d \<le> 10 ^ 4" using assms(2) by (intro power_increasing) auto
  ultimately have "\<bar>rounded (nat d) a * 10 ^ nat d\<bar> \<le> 10 ^ 50 * 10 ^ 4"
    unfolding abs_mult by (intro mult_mono) auto
  then have "quantize rounding_prec (nat d) (rounded (nat d) a) = Inr (rounded (nat d) (rounded (nat d) a))"
    by (intro quantize_ok) (simp add: rounding_prec_def)
  with assms show ?thesis
    by (simp add: round_payable_def validated_digits_def max_minor_unit_digits_def)
qed

section \<open>Company currency\<close>

record company_currency =
  cur_code :: string
  minor_unit_digits :: int

text \<open>The row of the currency read: \<open>None\<close> if the Company does not exist.\<close>

record currency_row =
  row_currency_code :: "string option"
  row_minor_unit_digits :: "int option"

definition currency_invariant_violation :: py_error where
  "currency_invariant_violation = HttpError 409 ''COMPANY_CURRENCY_INVARIANT_VIOLATION''"

definition get_company_currency ::
  "currency_row option \<Rightarrow> bool \<Rightarrow> company_currency option result" where
  "get_company_currency row has_durable_monetary_state =
     (case row of
        None \<Rightarrow> Inl currency_invariant_violation
      | Some r \<Rightarrow>
          (case row_currency_code r of
             None \<Rightarrow> if has_durable_monetary_state then Inl currency_invariant_violation
                     else Inr None
           | Some code \<Rightarrow>
               (case row_minor_unit_digits r of
                  None \<Rightarrow> Inl currency_invariant_violation
                | Some digits \<Rightarrow> Inr (Some \<lparr>cur_code = code, minor_unit_digits = digits\<rparr>))))"

definition require_company_currency ::
  "currency_row option \<Rightarrow> bool \<Rightarrow> company_currency result" where
  "require_company_currency row durable =
     bind_r (get_company_currency row durable) (\<lambda>currency.
       case currency of None \<Rightarrow> Inl (HttpError 422 ''COMPANY_CURRENCY_REQUIRED'')
       | Some c \<Rightarrow> Inr c)"

definition require_matching_snapshot_currency ::
  "company_currency \<Rightarrow> string option \<Rightarrow> int option \<Rightarrow> company_currency result" where
  "require_matching_snapshot_currency current snapshot_code snapshot_minor =
     (case (snapshot_code, snapshot_minor) of
        (Some code, Some minor) \<Rightarrow>
          if code \<noteq> cur_code current \<or> minor \<noteq> minor_unit_digits current
          then Inl (HttpError 409 ''SNAPSHOT_CURRENCY_MISMATCH'')
          else Inr \<lparr>cur_code = code, minor_unit_digits = minor\<rparr>
      | _ \<Rightarrow> Inl (HttpError 409 ''SNAPSHOT_CURRENCY_REQUIRED''))"

definition frozen_currency :: "string option \<Rightarrow> int option \<Rightarrow> company_currency result" where
  "frozen_currency code digits =
     (case (code, digits) of
        (Some c, Some d) \<Rightarrow> Inr \<lparr>cur_code = c, minor_unit_digits = d\<rparr>
      | _ \<Rightarrow> Inl (HttpError 409 ''SNAPSHOT_CURRENCY_REQUIRED''))"

section \<open>Typed amounts\<close>

definition numeric_18_4_max_exclusive :: decimal where
  "numeric_18_4_max_exclusive = 10 ^ 14"

definition normalize_typed_amount ::
  "py_decimal \<Rightarrow> company_currency \<Rightarrow> decimal result" where
  "normalize_typed_amount amount currency =
     bind_r (round_payable amount (minor_unit_digits currency)) (\<lambda>normalized.
       if normalized \<le> 0 then Inl (HttpError 422 ''AMOUNT_ROUNDS_TO_ZERO'')
       else if numeric_18_4_max_exclusive \<le> normalized
       then Inl (HttpError 422 ''AMOUNT_TOO_LARGE'')
       else Inr normalized)"

text \<open>A currency of the supported catalog stores between zero and four digits.\<close>

definition supported_currency :: "company_currency \<Rightarrow> bool" where
  "supported_currency c \<longleftrightarrow> 0 \<le> minor_unit_digits c \<and> minor_unit_digits c \<le> 4"

lemma normalize_typed_amount_Inr_iff:
  assumes "supported_currency c" "roundable a"
  shows "normalize_typed_amount (Finite a) c = Inr r \<longleftrightarrow>
    r = rounded (nat (minor_unit_digits c)) a \<and> 0 < r \<and> r < 10 ^ 14"
  using assms by (auto simp: normalize_typed_amount_def round_payable_Finite
      supported_currency_def numeric_18_4_max_exclusive_def not_le)

lemma rounded_pos_iff: "0 < rounded k a \<longleftrightarrow> 1 / (2 * 10 ^ k) < a"
proof
  let ?z = "a * 10 ^ k"
  assume "0 < rounded k a"
  then have "0 < rhe ?z" by (auto simp: rounded_def scaled_def zero_less_divide_iff)
  then have z1: "1 \<le> rhe ?z" by simp
  have "1 / 2 < ?z"
  proof (rule ccontr)
    assume "\<not> 1 / 2 < ?z"
    then have "?z \<le> 1 / 2" by simp
    then have "rhe ?z \<le> rhe (1 / 2)" by (rule rhe_mono)
    also have "rhe (1 / 2) = 0" using rhe_tie [of "1 / 2" 0] by simp
    finally show False using z1 by simp
  qed
  then show "1 / (2 * 10 ^ k) < a" by (simp add: field_simps)
next
  assume "1 / (2 * 10 ^ k) < a"
  then have z: "1 / 2 < a * 10 ^ k" by (simp add: field_simps)
  have "0 < rhe (a * 10 ^ k)"
  proof (rule ccontr)
    assume "\<not> 0 < rhe (a * 10 ^ k)"
    then have "(of_int (rhe (a * 10 ^ k)) :: rat) \<le> 0" by simp
    with rhe_error [of "a * 10 ^ k"] z show False by linarith
  qed
  then show "0 < rounded k a" by (simp add: rounded_def scaled_def)
qed

end
