(* ===== verification/Ordinal_Tiers.thy ===== *)
theory Ordinal_Tiers
  imports Payable_Rounding
begin

text \<open>
  The two calculation kernels: \<open>payroll/calculation/per_unit.py\<close> and
  \<open>payroll/calculation/ordinal_tier.py\<close>, with the topology check they share with the
  governance writers (\<open>compensation/ordinal_topology.py\<close>).  Every Decimal operation is
  rounded to the ambient context as the interpreter does it.  The abstract specification of
  the tier kernel is \<open>ordinal_pay\<close>: the Nth unit earns the value of the tier covering N.
\<close>

section \<open>PerUnit\<close>

definition calculate_per_unit :: "decimal \<Rightarrow> decimal \<Rightarrow> decimal result" where
  "calculate_per_unit quantity rate_amount =
     quantize ambient_prec internal_digits (dec_mul quantity rate_amount)"

lemma dec_mul_exact:
  assumes "has_scale j a" "has_scale k b" "\<bar>a * b\<bar> * 10 ^ (j + k) < 10 ^ 28"
  shows "dec_mul a b = a * b"
  unfolding dec_mul_def ambient_prec_def
  using assms by (intro ctx_round_exact [where s = "j + k"]) (auto intro: has_scale_mult)

lemma quantize_ambient:
  assumes "\<bar>x\<bar> < 10 ^ 23"
  shows "quantize ambient_prec internal_digits x = Inr (rounded 4 x)"
  unfolding ambient_prec_def internal_digits_def
  using assms by (intro quantize_ok) (simp add: abs_mult)

lemma calculate_per_unit_exact:
  assumes "has_scale 4 q" "has_scale 4 r" "\<bar>q * r\<bar> < 10 ^ 20"
  shows "calculate_per_unit q r = Inr (rounded 4 (q * r))"
proof -
  have "dec_mul q r = q * r"
    using assms by (intro dec_mul_exact [where j = 4 and k = 4]) auto
  moreover have "\<bar>q * r\<bar> < 10 ^ 23" using assms(3) by simp
  ultimately show ?thesis by (simp add: calculate_per_unit_def quantize_ambient)
qed

section \<open>The topology of ordinal tiers\<close>

type_synonym tier_bounds = "int \<times> int option"

fun topology_loop :: "bool \<Rightarrow> int \<Rightarrow> tier_bounds list \<Rightarrow> string option" where
  "topology_loop first expected_from [] = None"
| "topology_loop first expected_from ((ordinal_from, ordinal_to) # rest) =
     (if ordinal_from < 1 \<or> (case ordinal_to of None \<Rightarrow> False | Some t \<Rightarrow> t < 1)
      then Some ''Tier bounds must be positive.''
      else if ordinal_from \<noteq> expected_from
      then Some (if first then ''The first tier must start at 1.''
        else ''Tiers must not leave a gap or overlap: each tier starts right after the previous one ends.'')
      else case ordinal_to of
        None \<Rightarrow>
          if rest \<noteq> [] then Some ''Only the last tier can be open-ended.''
          else topology_loop False expected_from rest
      | Some t \<Rightarrow>
          if t < ordinal_from then Some ''A tier cannot end before it starts.''
          else if rest = [] then Some ''The last tier must be open-ended.''
          else topology_loop False (t + 1) rest)"

definition topology_error :: "tier_bounds list \<Rightarrow> string option" where
  "topology_error tiers =
     (if tiers = [] then Some ''At least one tier is required.''
      else topology_loop True 1 tiers)"

text \<open>What a valid topology is: a chain of adjacent ranges from \<open>s\<close>, the last one open.\<close>

fun tier_chain :: "int \<Rightarrow> tier_bounds list \<Rightarrow> bool" where
  "tier_chain s [] \<longleftrightarrow> False"
| "tier_chain s [(f, t)] \<longleftrightarrow> f = s \<and> t = None"
| "tier_chain s ((f, t) # rest) \<longleftrightarrow>
     f = s \<and> (\<exists>e. t = Some e \<and> s \<le> e \<and> tier_chain (e + 1) rest)"

definition covers_ordinal :: "tier_bounds \<Rightarrow> int \<Rightarrow> bool" where
  "covers_ordinal b n \<longleftrightarrow> fst b \<le> n \<and> (case snd b of None \<Rightarrow> True | Some t \<Rightarrow> n \<le> t)"

lemma topology_loop_None_iff:
  "1 \<le> s \<Longrightarrow> tiers \<noteq> [] \<Longrightarrow> topology_loop first s tiers = None \<longleftrightarrow> tier_chain s tiers"
proof (induction first s tiers rule: topology_loop.induct)
  case (2 first s f t rest)
  show ?case
  proof (cases rest)
    case Nil
    with 2 show ?thesis by (cases t) auto
  next
    case (Cons b bs)
    with 2 show ?thesis by (cases t) auto
  qed
qed simp

lemma topology_error_None_iff: "topology_error tiers = None \<longleftrightarrow> tier_chain 1 tiers"
  by (cases "tiers = []") (auto simp: topology_error_def topology_loop_None_iff)

lemma tier_chain_bounds: "tier_chain s tiers \<Longrightarrow> b \<in> set tiers \<Longrightarrow> s \<le> fst b"
  by (induction s tiers rule: tier_chain.induct) fastforce+

lemma tier_chain_unique:
  assumes "tier_chain s tiers" "s \<le> n"
  shows "\<exists>!b. b \<in> set tiers \<and> covers_ordinal b n"
  using assms
proof (induction s tiers rule: tier_chain.induct)
  case (2 s f t)
  then show ?case by (auto simp: covers_ordinal_def)
next
  case (3 s f t b bs)
  then obtain e where e: "f = s" "t = Some e" "s \<le> e" "tier_chain (e + 1) (b # bs)" by auto
  show ?case
  proof (cases "n \<le> e")
    case True
    have out: "\<not> covers_ordinal c n" if "c \<in> set (b # bs)" for c
      using tier_chain_bounds [OF e(4) that] True by (auto simp: covers_ordinal_def)
    have "covers_ordinal (f, t) n"
      using True e "3.prems" by (simp add: covers_ordinal_def)
    moreover have "c = (f, t)" if "c \<in> set ((f, t) # b # bs)" "covers_ordinal c n" for c
      using that out by (metis set_ConsD)
    ultimately show ?thesis by (intro ex1I [of _ "(f, t)"]) auto
  next
    case False
    with "3.IH" [of e] e have "\<exists>!c. c \<in> set (b # bs) \<and> covers_ordinal c n" by auto
    moreover have "\<not> covers_ordinal (f, t) n" using False e by (auto simp: covers_ordinal_def)
    ultimately show ?thesis by (auto simp: Ex1_def)
  qed
qed simp

text \<open>The same without reference to a chain: ranges in ascending order that cover every unit once.\<close>

definition covers_every_unit :: "tier_bounds list \<Rightarrow> bool" where
  "covers_every_unit tiers \<longleftrightarrow> sorted_wrt (\<lambda>b c. fst b < fst c) tiers \<and>
     (\<forall>b\<in>set tiers. 1 \<le> fst b \<and> covers_ordinal b (fst b)) \<and>
     (\<forall>n\<ge>1. \<exists>!b. b \<in> set tiers \<and> covers_ordinal b n)"

lemma tier_chain_sorted:
  "tier_chain s tiers \<Longrightarrow> sorted_wrt (\<lambda>b c. fst b < fst c) tiers \<and> (\<forall>b\<in>set tiers. s \<le> fst b \<and> covers_ordinal b (fst b))"
proof (induction s tiers rule: tier_chain.induct)
  case (3 s f t b bs)
  then obtain e where e: "f = s" "t = Some e" "s \<le> e" "tier_chain (e + 1) (b # bs)" by auto
  with "3.IH" [of e] show ?case by (fastforce simp: covers_ordinal_def)
qed (auto simp: covers_ordinal_def)

lemma tier_chainI:
  assumes "tiers \<noteq> []" "sorted_wrt (\<lambda>b c. fst b < fst c) tiers"
    and "\<And>b. b \<in> set tiers \<Longrightarrow> s \<le> fst b \<and> covers_ordinal b (fst b)"
    and "\<And>n. s \<le> n \<Longrightarrow> \<exists>!b. b \<in> set tiers \<and> covers_ordinal b n"
  shows "tier_chain s tiers"
  using assms
proof (induction tiers arbitrary: s)
  case (Cons c rest)
  obtain f t where c: "c = (f, t)" by (cases c)
  have first: "f = s"
  proof -
    from Cons.prems(4) [of s] obtain b where b: "b \<in> set (c # rest)" "covers_ordinal b s" by auto
    with Cons.prems(2) Cons.prems(3) [of c] show ?thesis by (fastforce simp: c covers_ordinal_def)
  qed
  show ?case
  proof (cases rest)
    case Nil
    have "t = None"
    proof (cases t)
      case (Some e)
      from Cons.prems(3) [of c] have "s \<le> e + 1" by (simp add: c Some first covers_ordinal_def)
      with Cons.prems(4) [of "e + 1"] show ?thesis by (auto simp: Nil c Some covers_ordinal_def)
    qed
    then show ?thesis by (simp add: Nil c first)
  next
    case (Cons b bs)
    have alone: "\<not> covers_ordinal c (fst x)" if x: "x \<in> set rest" for x
    proof
      assume cov: "covers_ordinal c (fst x)"
      have lt: "f < fst x" using Cons.prems(2) x by (auto simp: c)
      then have "s \<le> fst x" using first by simp
      from Cons.prems(4) [OF this] have "c = x" using cov x Cons.prems(3) [of x] by auto
      then have "f = fst x" by (auto simp: c)
      with lt show False by simp
    qed
    from alone [of b] Cons.prems(2) obtain e where e: "t = Some e"
      by (cases t) (auto simp: c Cons covers_ordinal_def)
    have from_e: "s \<le> e" using Cons.prems(3) [of c] by (simp add: c e first covers_ordinal_def)
    have "tier_chain (e + 1) rest"
    proof (rule Cons.IH)
      show "rest \<noteq> []" by (simp add: Cons)
      show "sorted_wrt (\<lambda>b c. fst b < fst c) rest" using Cons.prems(2) by simp
      fix x assume x: "x \<in> set rest"
      with alone [OF x] Cons.prems(2) have "e < fst x" by (auto simp: c e covers_ordinal_def not_le)
      with Cons.prems(3) [of x] x show "e + 1 \<le> fst x \<and> covers_ordinal x (fst x)" by simp
    next
      fix n assume n: "e + 1 \<le> n"
      then have "\<not> covers_ordinal c n" by (simp add: c e covers_ordinal_def)
      moreover have "s \<le> n" using n from_e by simp
      ultimately show "\<exists>!b. b \<in> set rest \<and> covers_ordinal b n" using Cons.prems(4) [of n] by (metis set_ConsD list.set_intros(2))
    qed
    then show ?thesis using from_e by (simp add: Cons c e first)
  qed
qed simp

lemma tier_chain_iff_covers: "tier_chain 1 tiers \<longleftrightarrow> covers_every_unit tiers"
proof
  assume "tier_chain 1 tiers"
  with tier_chain_sorted [OF this] tier_chain_unique [OF this] show "covers_every_unit tiers"
    by (simp add: covers_every_unit_def)
next
  assume covers: "covers_every_unit tiers"
  then have "\<exists>!b. b \<in> set tiers \<and> covers_ordinal b 1" by (simp add: covers_every_unit_def)
  then have "tiers \<noteq> []" by auto
  with covers show "tier_chain 1 tiers" by (intro tier_chainI) (simp_all add: covers_every_unit_def)
qed

section \<open>The OrdinalTier kernel\<close>

record ordinal_tier =
  sequence_no :: int
  ordinal_from :: int
  ordinal_to :: "int option"
  rate_amount :: py_decimal

record tier_contribution =
  tc_sequence_no :: int
  tc_ordinal_from :: int
  tc_ordinal_to :: "int option"
  tc_units :: int
  tc_rate_amount :: decimal
  tc_amount :: decimal

definition is_whole :: "decimal \<Rightarrow> bool" where
  "is_whole q \<longleftrightarrow> of_int \<lfloor>q\<rfloor> = q"

definition tier_bounds_of :: "ordinal_tier \<Rightarrow> tier_bounds" where
  "tier_bounds_of t = (ordinal_from t, ordinal_to t)"

definition valid_tier_rate :: "ordinal_tier \<Rightarrow> decimal result" where
  "valid_tier_rate t =
     (case rate_amount t of
        NonFinite \<Rightarrow> Inl (ValueError ''Every tier needs a non-negative Decimal value.'')
      | Finite r \<Rightarrow> if r < 0 then Inl (ValueError ''Every tier needs a non-negative Decimal value.'')
                   else Inr r)"

definition tier_units :: "int \<Rightarrow> ordinal_tier \<Rightarrow> int" where
  "tier_units units_total t =
     (let last_ordinal = (case ordinal_to t of None \<Rightarrow> units_total | Some e \<Rightarrow> min units_total e)
      in max 0 (last_ordinal - ordinal_from t + 1))"

definition contribution :: "int \<Rightarrow> ordinal_tier \<times> decimal \<Rightarrow> tier_contribution result" where
  "contribution units_total = (\<lambda>(t, r).
     let units = tier_units units_total t in
     map_r (\<lambda>a. \<lparr>tc_sequence_no = sequence_no t, tc_ordinal_from = ordinal_from t,
                  tc_ordinal_to = ordinal_to t, tc_units = units,
                  tc_rate_amount = r, tc_amount = a\<rparr>)
       (quantize ambient_prec internal_digits (dec_mul (of_int units) r)))"

definition calculate_ordinal_tier ::
  "py_decimal \<Rightarrow> ordinal_tier list \<Rightarrow> (decimal \<times> tier_contribution list) result" where
  "calculate_ordinal_tier quantity tiers =
     (case quantity of
        NonFinite \<Rightarrow> Inl (ValueError ''OrdinalTier needs a non-negative whole-number quantity.'')
      | Finite q \<Rightarrow>
          if q < 0 \<or> \<not> is_whole q
          then Inl (ValueError ''OrdinalTier needs a non-negative whole-number quantity.'')
          else
            let ordered = sort_key sequence_no tiers in
            if map sequence_no ordered \<noteq> map sequence_no tiers
            then Inl (ValueError ''Tiers must be given in sequence order.'')
            else case topology_error (map tier_bounds_of ordered) of
              Some problem \<Rightarrow> Inl (ValueError problem)
            | None \<Rightarrow>
                bind_r (mapM valid_tier_rate ordered) (\<lambda>rates.
                bind_r (mapM (contribution \<lfloor>q\<rfloor>) (zip ordered rates)) (\<lambda>contributions.
                bind_r (quantize ambient_prec internal_digits (dec_sum (map tc_amount contributions)))
                  (\<lambda>total. Inr (total, contributions)))))"

subsection \<open>Its specification\<close>

text \<open>The value of the tier that covers the ordinal \<open>n\<close>.\<close>

fun value_at :: "(ordinal_tier \<times> decimal) list \<Rightarrow> int \<Rightarrow> decimal" where
  "value_at [] n = 0"
| "value_at ((t, r) # rest) n =
     (if covers_ordinal (tier_bounds_of t) n then r else value_at rest n)"

definition ordinal_pay :: "(ordinal_tier \<times> decimal) list \<Rightarrow> int \<Rightarrow> decimal" where
  "ordinal_pay tiers q = (\<Sum>n = 1..q. value_at tiers n)"

lemma sum_const_int: "(\<Sum>n = a..b. r) = of_int (max 0 (b - a + 1)) * (r::rat)" for a b :: int
proof -
  have "(of_nat (nat (b - a + 1)) :: rat) = of_int (max 0 (b - a + 1))"
    by (metis of_int_of_nat_eq int_nat_eq max.commute max_def)
  then show ?thesis by simp
qed

lemma value_at_head:
  "(\<Sum>n = a..b. value_at ((t, r) # rest) n) = (\<Sum>n = a..b. r)"
  if "\<And>n. a \<le> n \<Longrightarrow> n \<le> b \<Longrightarrow> covers_ordinal (tier_bounds_of t) n" for a b :: int
  using that by (intro sum.cong) auto


lemma value_at_tail:
  "(\<Sum>n = a..b. value_at ((t, r) # rest) n) = (\<Sum>n = a..b. value_at rest n)"
  if "\<And>n. a \<le> n \<Longrightarrow> n \<le> b \<Longrightarrow> \<not> covers_ordinal (tier_bounds_of t) n" for a b :: int
  using that by (intro sum.cong) auto

lemma tier_units_sum:
  assumes "tier_chain s (map (tier_bounds_of \<circ> fst) tiers)" "1 \<le> s"
  shows "(\<Sum>(t, r)\<leftarrow>tiers. of_int (tier_units q t) * r) = (\<Sum>n = s..q. value_at tiers n)"
  using assms
proof (induction tiers arbitrary: s)
  case (Cons p rest)
  obtain t r where p: "p = (t, r)" by (cases p)
  show ?case
  proof (cases rest)
    case Nil
    with Cons.prems p have b: "ordinal_from t = s" "ordinal_to t = None"
      by (auto simp: tier_bounds_of_def)
    have "(\<Sum>n = s..q. value_at [(t, r)] n) = (\<Sum>n = s..q. r)"
      using b by (intro value_at_head) (auto simp: tier_bounds_of_def covers_ordinal_def)
    also have "\<dots> = of_int (tier_units q t) * r"
      using b by (simp only: sum_const_int tier_units_def Let_def option.case)
    finally show ?thesis by (simp add: p Nil)
  next
    case (Cons p' rest')
    with Cons.prems p obtain e where b: "ordinal_from t = s" "ordinal_to t = Some e" "s \<le> e"
      and chain: "tier_chain (e + 1) (map (tier_bounds_of \<circ> fst) rest)"
      by (cases p') (auto simp: tier_bounds_of_def comp_def)
    have IH: "(\<Sum>(t, r)\<leftarrow>rest. of_int (tier_units q t) * r) = (\<Sum>n = e + 1..q. value_at rest n)"
      using Cons.IH [OF chain] b Cons.prems by simp
    have head: "(\<Sum>n = s..min q e. value_at ((t, r) # rest) n) = of_int (tier_units q t) * r"
    proof -
      have "(\<Sum>n = s..min q e. value_at ((t, r) # rest) n) = (\<Sum>n = s..min q e. r)"
        using b by (intro value_at_head) (auto simp: tier_bounds_of_def covers_ordinal_def)
      also have "\<dots> = of_int (tier_units q t) * r"
        using b by (simp only: sum_const_int tier_units_def Let_def option.case)
      finally show ?thesis .
    qed
    have tail: "(\<Sum>n = e + 1..q. value_at ((t, r) # rest) n) = (\<Sum>n = e + 1..q. value_at rest n)"
      using b by (intro value_at_tail) (auto simp: tier_bounds_of_def covers_ordinal_def)
    have "{s..q} = {s..min q e} \<union> {e + 1..q}" using b by auto
    then have "(\<Sum>n = s..q. value_at ((t, r) # rest) n) =
        (\<Sum>n = s..min q e. value_at ((t, r) # rest) n) + (\<Sum>n = e + 1..q. value_at ((t, r) # rest) n)"
      by (simp only:) (rule sum.union_disjoint, auto)
    with head tail IH show ?thesis by (simp add: p)
  qed
qed simp

lemma tier_units_nonneg: "0 \<le> tier_units q t"
  by (simp add: tier_units_def Let_def)

lemma tier_units_le: "1 \<le> ordinal_from t \<Longrightarrow> 0 \<le> q \<Longrightarrow> tier_units q t \<le> q"
  by (auto simp: tier_units_def Let_def split: option.splits)

subsection \<open>The kernel computes the specification\<close>

text \<open>
  Filled tiers: sorted by sequence number, a valid topology, and non-negative values with
  four decimals bounded by \<open>m\<close>.
\<close>

definition filled_tiers :: "decimal \<Rightarrow> ordinal_tier list \<Rightarrow> decimal list \<Rightarrow> bool" where
  "filled_tiers m tiers rates \<longleftrightarrow>
     sorted (map sequence_no tiers) \<and> topology_error (map tier_bounds_of tiers) = None \<and>
     list_all2 (\<lambda>t r. rate_amount t = Finite r \<and> 0 \<le> r \<and> r \<le> m \<and> has_scale 4 r) tiers rates"

definition exact_contribution :: "int \<Rightarrow> ordinal_tier \<times> decimal \<Rightarrow> tier_contribution" where
  "exact_contribution q = (\<lambda>(t, r).
     \<lparr>tc_sequence_no = sequence_no t, tc_ordinal_from = ordinal_from t,
      tc_ordinal_to = ordinal_to t, tc_units = tier_units q t,
      tc_rate_amount = r, tc_amount = of_int (tier_units q t) * r\<rparr>)"

lemma filled_tiers_rates: "filled_tiers m tiers rates \<Longrightarrow> mapM valid_tier_rate tiers = Inr rates"
  by (auto simp: filled_tiers_def mapM_Inr_iff valid_tier_rate_def elim!: list_all2_mono)

lemma filled_tiers_zip:
  assumes "filled_tiers m tiers rates" "(t, r) \<in> set (zip tiers rates)"
  shows "0 \<le> r" "r \<le> m" "has_scale 4 r" "1 \<le> ordinal_from t"
proof -
  from assms obtain i where i: "i < length tiers" "t = tiers ! i" "r = rates ! i"
    by (auto simp: in_set_zip)
  have "rate_amount t = Finite r \<and> 0 \<le> r \<and> r \<le> m \<and> has_scale 4 r"
    using assms(1) i by (auto simp: filled_tiers_def dest: list_all2_nthD)
  then show "0 \<le> r" "r \<le> m" "has_scale 4 r" by auto
  have "tier_chain 1 (map tier_bounds_of tiers)"
    using assms(1) by (simp add: filled_tiers_def topology_error_None_iff)
  then have "1 \<le> fst (tier_bounds_of t)"
    using i by (intro tier_chain_bounds) auto
  then show "1 \<le> ordinal_from t" by (simp add: tier_bounds_of_def)
qed

lemma sorted_sort_key_id: "sorted (map f xs) \<Longrightarrow> sort_key f xs = xs"
  by (induction xs) (auto simp: insort_key.simps neq_Nil_conv insort_is_Cons)

lemma exact_contribution_bound:
  assumes "filled_tiers m tiers rates" "p \<in> set (zip tiers rates)" "0 \<le> q"
  shows "money (of_int q * m) (tc_amount (exact_contribution q p))"
    and "0 \<le> tc_amount (exact_contribution q p)"
proof -
  obtain t r where p: "p = (t, r)" by (cases p)
  note f = filled_tiers_zip [OF assms(1) assms(2) [unfolded p]]
  have u: "0 \<le> tier_units q t" "tier_units q t \<le> q"
    using tier_units_nonneg tier_units_le [OF f(4) assms(3)] by auto
  then have "of_int (tier_units q t) * r \<le> of_int q * m"
    using f by (intro mult_mono) auto
  moreover have "has_scale (0 + 4) (of_int (tier_units q t) * r)"
    using f(3) by (intro has_scale_mult) auto
  moreover have "0 \<le> of_int (tier_units q t) * r" using u f by simp
  ultimately show "money (of_int q * m) (tc_amount (exact_contribution q p))"
    "0 \<le> tc_amount (exact_contribution q p)"
    by (auto simp: p exact_contribution_def money_def)
qed

lemma contribution_exact:
  assumes "filled_tiers m tiers rates" "p \<in> set (zip tiers rates)" "0 \<le> q"
    and "of_int q * m < 10 ^ 23"
  shows "contribution q p = Inr (exact_contribution q p)"
proof -
  obtain t r where p: "p = (t, r)" by (cases p)
  note f = filled_tiers_zip [OF assms(1) assms(2) [unfolded p]]
  from exact_contribution_bound [OF assms(1-3)]
  have b: "has_scale 4 (of_int (tier_units q t) * r)" "\<bar>of_int (tier_units q t) * r\<bar> < 10 ^ 23"
    using assms(4) by (auto simp: p exact_contribution_def money_def)
  have "dec_mul (of_int (tier_units q t)) r = of_int (tier_units q t) * r"
    using f(3) b(2) by (intro dec_mul_exact [where j = 0 and k = 4]) auto
  with b show ?thesis
    by (simp add: p contribution_def exact_contribution_def Let_def quantize_ambient rounded_exact)
qed

lemma calculate_ordinal_tier_eval:
  assumes f: "filled_tiers m tiers rates" and q: "0 \<le> q"
    and bound: "of_nat (length tiers) * (of_int q * m) < 10 ^ 23"
  shows "calculate_ordinal_tier (Finite (of_int q)) tiers =
    Inr (ordinal_pay (zip tiers rates) q, map (exact_contribution q) (zip tiers rates))"
proof -
  let ?z = "zip tiers rates" and ?cs = "map (exact_contribution q) (zip tiers rates)"
  have len: "length tiers = length rates" and topo: "topology_error (map tier_bounds_of tiers) = None"
    using f by (auto simp: filled_tiers_def list_all2_lengthD)
  have ne: "tiers \<noteq> []" using topo by (auto simp: topology_error_def)
  obtain p where p: "p \<in> set ?z" using ne len by (cases tiers; cases rates) auto
  from exact_contribution_bound [OF f p q] have m: "0 \<le> of_int q * m" by (auto simp: money_def)
  have one: "of_int q * m < 10 ^ 23"
  proof -
    have "1 * (of_int q * m) \<le> of_nat (length tiers) * (of_int q * m)"
      using ne m by (intro mult_right_mono) (auto simp: Suc_le_eq)
    with bound show ?thesis by linarith
  qed
  have cs: "mapM (contribution q) ?z = Inr ?cs"
    using contribution_exact [OF f _ q one] by (intro mapM_total) auto
  have money: "money (of_int q * m) x" if "x \<in> set (map tc_amount ?cs)" for x
    using that exact_contribution_bound [OF f _ q] by auto
  have exact: "dec_sum (map tc_amount ?cs) = sum_list (map tc_amount ?cs)"
    using money bound len by (intro dec_sum_exact) auto
  have amounts: "map tc_amount ?cs = map (\<lambda>(t, r). of_int (tier_units q t) * r) ?z"
    by (auto simp: exact_contribution_def)
  have "map (tier_bounds_of \<circ> fst) ?z = map tier_bounds_of tiers"
    using len by (metis map_map map_fst_zip)
  then have "tier_chain 1 (map (tier_bounds_of \<circ> fst) ?z)"
    using topo by (simp add: topology_error_None_iff)
  then have spec: "sum_list (map tc_amount ?cs) = ordinal_pay ?z q"
    unfolding amounts ordinal_pay_def by (rule tier_units_sum) simp
  have total: "dec_sum (map tc_amount ?cs) = ordinal_pay ?z q"
    using exact spec by (rule trans)
  have "has_scale 4 (ordinal_pay ?z q)"
    unfolding total [symmetric] using money bound len
    by (subst dec_sum_exact) (auto intro!: has_scale_sum_list simp: money_def)
  moreover have "\<bar>ordinal_pay ?z q\<bar> < 10 ^ 23"
  proof -
    have "\<bar>sum_list xs\<bar> \<le> of_nat (length xs) * (of_int q * m)"
      if "\<And>x. x \<in> set xs \<Longrightarrow> money (of_int q * m) x" for xs
      using that
    proof (induction xs)
      case (Cons x xs)
      then have "\<bar>x\<bar> \<le> of_int q * m" "\<bar>sum_list xs\<bar> \<le> of_nat (length xs) * (of_int q * m)"
        by (auto simp: money_def)
      then show ?case by (simp add: algebra_simps)
    qed simp
    from this [of "map tc_amount ?cs"] money
    have "\<bar>sum_list (map tc_amount ?cs)\<bar> \<le> of_nat (length ?cs) * (of_int q * m)" by simp
    with spec bound len show ?thesis by simp
  qed
  ultimately have "quantize ambient_prec internal_digits (dec_sum (map tc_amount ?cs))
      = Inr (ordinal_pay ?z q)"
    unfolding total by (simp add: quantize_ambient rounded_exact)
  moreover have "sort_key sequence_no tiers = tiers"
    using f by (simp add: filled_tiers_def sorted_sort_key_id)
  ultimately show ?thesis
    using q topo cs filled_tiers_rates [OF f]
    by (simp add: calculate_ordinal_tier_def is_whole_def Let_def)
qed

lemma ordinal_pay_mono:
  assumes "filled_tiers m tiers rates" "0 \<le> q" "q \<le> q'"
  shows "ordinal_pay (zip tiers rates) q \<le> ordinal_pay (zip tiers rates) q'"
  unfolding ordinal_pay_def
proof (rule sum_mono2)
  have "0 \<le> value_at z n" if "\<forall>(t, r)\<in>set z. 0 \<le> r" for z n
    using that by (induction z) auto
  then show "0 \<le> value_at (zip tiers rates) n" for n
    using filled_tiers_zip(1) [OF assms(1)] by (metis (no_types, lifting) case_prodI2)
qed (use assms in auto)

end
