(* ===== verification/Definition_Calculation.thy ===== *)
theory Definition_Calculation
  imports Ordinal_Tiers
begin

text \<open>
  The method-owned calculation boundary (\<open>payroll/definition_calculation.py\<close>): a period
  definition, the whole resolved compensation schedule and a quantity give one outcome.  The
  locale \<open>method_calculator\<close> is the contract a registered method has with its consumers; it
  is interpreted on the two methods of the source.
\<close>

section \<open>Data\<close>

datatype calculation_status =
  CALCULATED | MISSING_RATE | INCOMPLETE_RATE | INVALID_QUANTITY | METHOD_NOT_READY

record resolved_component =
  rc_component_id :: int
  rc_sequence_no :: int
  rc_ordinal_from :: "int option"
  rc_ordinal_to :: "int option"
  rc_amount :: "decimal option"

record resolved_compensation =
  res_driver_id :: int
  res_pay_definition_id :: "int option"
  res_rate_definition_id :: int
  res_rate_shape :: string
  res_calculation_method :: "string option"
  res_schedule_id :: int
  res_schedule_status :: string
  res_effective_from :: date
  res_effective_to :: "date option"
  res_components :: "resolved_component list"

record period_definition =
  pd_period_definition_id :: int
  pd_pay_definition_id :: int
  pd_rate_definition_id :: int
  pd_code :: string
  pd_name :: string
  pd_input_type :: string
  pd_unit :: "string option"
  pd_calculation_method :: string
  pd_calculation_method_version :: int
  pd_rate_shape :: string
  pd_is_active :: bool

record used_rate_value =
  ur_sequence_no :: int
  ur_component_id :: int
  ur_ordinal_from :: "int option"
  ur_ordinal_to :: "int option"
  ur_amount :: decimal

record definition_calculation =
  dc_status :: calculation_status
  dc_amount :: "decimal option"
  dc_version :: "string option"
  dc_schedule_id :: "int option"
  dc_rate_amount :: "decimal option"
  dc_component_id :: "int option"
  dc_schedule_status :: "string option"
  dc_effective_from :: "date option"
  dc_effective_to :: "date option"
  dc_rate_values :: "used_rate_value list"
  dc_tier_contributions :: "tier_contribution list"

definition needs_attention :: "definition_calculation \<Rightarrow> bool" where
  "needs_attention c \<longleftrightarrow> dc_status c \<noteq> CALCULATED"

text \<open>A \<open>DefinitionCalculation\<close> with every optional field at its default.\<close>

definition outcome :: "calculation_status \<Rightarrow> int option \<Rightarrow> definition_calculation" where
  "outcome status schedule_id =
     \<lparr>dc_status = status, dc_amount = None, dc_version = None, dc_schedule_id = schedule_id,
      dc_rate_amount = None, dc_component_id = None, dc_schedule_status = None,
      dc_effective_from = None, dc_effective_to = None, dc_rate_values = [],
      dc_tier_contributions = []\<rparr>"

section \<open>The methods\<close>

definition calculate_per_unit_method ::
  "resolved_compensation option \<Rightarrow> decimal \<Rightarrow> definition_calculation result" where
  "calculate_per_unit_method resolved quantity =
     (case resolved of
        None \<Rightarrow> Inr (outcome MISSING_RATE None)
      | Some r \<Rightarrow>
          let incomplete = outcome INCOMPLETE_RATE (Some (res_schedule_id r)) in
          if res_rate_shape r \<noteq> ''Scalar'' then Inr incomplete
          else case res_components r of
            [component] \<Rightarrow>
              (case rc_amount component of
                 None \<Rightarrow> Inr incomplete
               | Some amount \<Rightarrow>
                   if amount < 0 then Inr incomplete
                   else map_r (\<lambda>result.
                     (outcome CALCULATED (Some (res_schedule_id r)))
                       \<lparr>dc_amount := Some result,
                        dc_version := Some ''cp4a-per-unit-v1'',
                        dc_rate_amount := Some amount,
                        dc_component_id := Some (rc_component_id component),
                        dc_schedule_status := Some (res_schedule_status r),
                        dc_effective_from := Some (res_effective_from r),
                        dc_effective_to := res_effective_to r\<rparr>)
                     (calculate_per_unit quantity amount))
          | _ \<Rightarrow> Inr incomplete)"

text \<open>One filled tier of a component that passed the completeness check.\<close>

definition tier_of_component :: "resolved_component \<Rightarrow> (ordinal_tier \<times> used_rate_value) option" where
  "tier_of_component c =
     (case (rc_amount c, rc_ordinal_from c) of
        (Some a, Some f) \<Rightarrow>
          if a < 0 then None
          else Some (\<lparr>sequence_no = rc_sequence_no c, ordinal_from = f,
                       ordinal_to = rc_ordinal_to c, rate_amount = Finite a\<rparr>,
                     \<lparr>ur_sequence_no = rc_sequence_no c, ur_component_id = rc_component_id c,
                       ur_ordinal_from = Some f, ur_ordinal_to = rc_ordinal_to c, ur_amount = a\<rparr>)
      | _ \<Rightarrow> None)"

fun filled_components ::
  "resolved_component list \<Rightarrow> (ordinal_tier \<times> used_rate_value) list option" where
  "filled_components [] = Some []"
| "filled_components (c # cs) =
     (case tier_of_component c of None \<Rightarrow> None
      | Some p \<Rightarrow> map_option ((#) p) (filled_components cs))"

definition calculate_ordinal_tier_method ::
  "resolved_compensation option \<Rightarrow> decimal \<Rightarrow> definition_calculation result" where
  "calculate_ordinal_tier_method resolved quantity =
     (case resolved of
        None \<Rightarrow> Inr (outcome MISSING_RATE None)
      | Some r \<Rightarrow>
          let schedule_id = Some (res_schedule_id r);
              incomplete = outcome INCOMPLETE_RATE schedule_id in
          if res_rate_shape r \<noteq> ''OrdinalTierSchedule'' \<or> res_components r = []
          then Inr incomplete
          else case filled_components (res_components r) of
            None \<Rightarrow> Inr incomplete
          | Some filled \<Rightarrow>
              let tiers = map fst filled in
              if topology_error (map tier_bounds_of tiers) \<noteq> None then Inr incomplete
              else if quantity < 0 \<or> \<not> is_whole quantity
              then Inr (outcome INVALID_QUANTITY schedule_id)
              else map_r (\<lambda>(amount, contributions).
                (outcome CALCULATED schedule_id)
                  \<lparr>dc_amount := Some amount,
                   dc_version := Some ''ordinal-tier-v1'',
                   dc_schedule_status := Some (res_schedule_status r),
                   dc_effective_from := Some (res_effective_from r),
                   dc_effective_to := res_effective_to r,
                   dc_rate_values := map snd filled,
                   dc_tier_contributions := contributions\<rparr>)
                (calculate_ordinal_tier (Finite quantity) tiers))"

definition calculate_scalar_rate ::
  "resolved_compensation option \<Rightarrow> decimal \<Rightarrow> definition_calculation result" where
  "calculate_scalar_rate = calculate_per_unit_method"

section \<open>Dispatch on the frozen method and version\<close>

definition calculators ::
  "(string \<times> int) \<Rightarrow> (resolved_compensation option \<Rightarrow> decimal \<Rightarrow> definition_calculation result) option" where
  "calculators key =
     (if key = (''PerUnit'', 1) then Some calculate_per_unit_method
      else if key = (''OrdinalTier'', 1) then Some calculate_ordinal_tier_method
      else None)"

definition is_method_operational :: "string \<Rightarrow> int \<Rightarrow> bool" where
  "is_method_operational calculation_method version \<longleftrightarrow>
     calculators (calculation_method, version) \<noteq> None"

definition calculate_definition_input ::
  "period_definition \<Rightarrow> resolved_compensation option \<Rightarrow> decimal \<Rightarrow> definition_calculation result" where
  "calculate_definition_input d resolved quantity =
     (case calculators (pd_calculation_method d, pd_calculation_method_version d) of
        None \<Rightarrow> Inr (outcome METHOD_NOT_READY None)
      | Some calculator \<Rightarrow> calculator resolved quantity)"

definition quantity_limit :: decimal where "quantity_limit = 100000000000000"

definition quantity_error :: "string \<Rightarrow> py_decimal \<Rightarrow> string option" where
  "quantity_error input_type quantity =
     (case quantity of
        NonFinite \<Rightarrow> Some ''Quantity must be a finite number.''
      | Finite q \<Rightarrow>
          if q < 0 then Some ''Quantity must not be negative.''
          else if quantity_limit \<le> q then Some ''Quantity is too large.''
          else if input_type = ''WholeNumber'' \<and> \<not> is_whole q
          then Some ''This item requires a whole number quantity.''
          else None)"

section \<open>The contract of a method\<close>

locale method_calculator =
  fixes calc :: "resolved_compensation option \<Rightarrow> decimal \<Rightarrow> definition_calculation result"
  assumes missing: "calc None q = Inr (outcome MISSING_RATE None)"
    and amount_calculated: "calc r q = Inr c \<Longrightarrow> dc_status c = CALCULATED \<longleftrightarrow> dc_amount c \<noteq> None"
    and schedule_named: "calc (Some s) q = Inr c \<Longrightarrow> dc_schedule_id c = Some (res_schedule_id s)"
    and calculated_window: "calc (Some s) q = Inr c \<Longrightarrow> dc_status c = CALCULATED \<Longrightarrow>
      dc_effective_from c = Some (res_effective_from s) \<and> dc_effective_to c = res_effective_to s"
    and one_shape: "calc r q = Inr c \<Longrightarrow> dc_status c = CALCULATED \<Longrightarrow>
      (dc_rate_amount c = None) = (dc_rate_values c \<noteq> [])"
    and unresolved_blank: "calc r q = Inr c \<Longrightarrow> dc_status c \<noteq> CALCULATED \<Longrightarrow>
      c = outcome (dc_status c) (dc_schedule_id c)"
    and schedule_not_missing: "calc (Some s) q = Inr c \<Longrightarrow> dc_status c \<noteq> MISSING_RATE"
begin

lemma missing_iff: "calc r q = Inr c \<Longrightarrow> dc_status c = MISSING_RATE \<longleftrightarrow> r = None"
  using missing schedule_not_missing by (cases r) (auto simp: outcome_def)

lemma unresolved_amount: "calc r q = Inr c \<Longrightarrow> needs_attention c \<longleftrightarrow> dc_amount c = None"
  by (simp add: needs_attention_def amount_calculated)

lemma amount_has_schedule:
  "calc r q = Inr c \<Longrightarrow> dc_amount c = Some a \<Longrightarrow> \<exists>s. r = Some s \<and> dc_schedule_id c = Some (res_schedule_id s)"
  using missing schedule_named amount_calculated
  by (cases r) (auto simp: outcome_def)

end

lemmas outcome_simps = outcome_def needs_attention_def

lemma methods_without_schedule [simp]:
  "calculate_per_unit_method None q = Inr (outcome MISSING_RATE None)"
  "calculate_ordinal_tier_method None q = Inr (outcome MISSING_RATE None)"
  by (simp_all add: calculate_per_unit_method_def calculate_ordinal_tier_method_def)

lemma per_unit_method_cases:
  assumes "calculate_per_unit_method (Some r) q = Inr c"
  obtains (incomplete) "c = outcome INCOMPLETE_RATE (Some (res_schedule_id r))"
  | (calculated) x a where "res_rate_shape r = ''Scalar''" "res_components r = [x]"
      "rc_amount x = Some a" "0 \<le> a" "dc_status c = CALCULATED"
      "calculate_per_unit q a = Inr (the (dc_amount c))" "dc_amount c \<noteq> None"
      "dc_rate_amount c = Some a" "dc_rate_values c = []"
      "dc_schedule_id c = Some (res_schedule_id r)"
      "dc_effective_from c = Some (res_effective_from r)" "dc_effective_to c = res_effective_to r"
  using assms
  by (auto simp: calculate_per_unit_method_def Let_def map_r_Inr_iff outcome_def not_less
      split: if_splits list.splits option.splits)

lemma filled_components_Some_iff:
  "filled_components cs = Some ps \<longleftrightarrow> list_all2 (\<lambda>c p. tier_of_component c = Some p) cs ps"
  by (induction cs arbitrary: ps) (auto simp: list_all2_Cons1 split: option.splits)

lemma filled_components_length: "filled_components cs = Some ps \<Longrightarrow> length ps = length cs"
  by (simp add: filled_components_Some_iff list_all2_lengthD)

lemma ordinal_tier_method_cases:
  assumes "calculate_ordinal_tier_method (Some r) q = Inr c"
  obtains (incomplete) "c = outcome INCOMPLETE_RATE (Some (res_schedule_id r))"
  | (invalid) "c = outcome INVALID_QUANTITY (Some (res_schedule_id r))" "q < 0 \<or> \<not> is_whole q"
  | (calculated) ps where "res_rate_shape r = ''OrdinalTierSchedule''"
      "filled_components (res_components r) = Some ps" "ps \<noteq> []"
      "topology_error (map tier_bounds_of (map fst ps)) = None" "0 \<le> q" "is_whole q"
      "dc_status c = CALCULATED" "dc_amount c \<noteq> None"
      "calculate_ordinal_tier (Finite q) (map fst ps) = Inr (the (dc_amount c), dc_tier_contributions c)"
      "dc_rate_amount c = None" "dc_rate_values c = map snd ps"
      "dc_schedule_id c = Some (res_schedule_id r)"
      "dc_effective_from c = Some (res_effective_from r)" "dc_effective_to c = res_effective_to r"
proof -
  from assms consider
    "c = outcome INCOMPLETE_RATE (Some (res_schedule_id r))"
  | "c = outcome INVALID_QUANTITY (Some (res_schedule_id r))" "q < 0 \<or> \<not> is_whole q"
  | ps amount cs where "res_rate_shape r = ''OrdinalTierSchedule''"
      "filled_components (res_components r) = Some ps" "res_components r \<noteq> []"
      "topology_error (map tier_bounds_of (map fst ps)) = None" "\<not> q < 0" "is_whole q"
      "calculate_ordinal_tier (Finite q) (map fst ps) = Inr (amount, cs)"
      "c = (outcome CALCULATED (Some (res_schedule_id r)))
                  \<lparr>dc_amount := Some amount,
                   dc_version := Some ''ordinal-tier-v1'',
                   dc_schedule_status := Some (res_schedule_status r),
                   dc_effective_from := Some (res_effective_from r),
                   dc_effective_to := res_effective_to r,
                   dc_rate_values := map snd ps,
                   dc_tier_contributions := cs\<rparr>"
    by (auto simp: calculate_ordinal_tier_method_def Let_def map_r_Inr_iff
        split: if_splits option.splits)
  then show thesis
  proof cases
    case 3
    then have "ps \<noteq> []" using filled_components_length by fastforce
    with 3 show thesis by (intro calculated [of ps]) (auto simp: outcome_def)
  qed (auto intro: that)
qed

interpretation per_unit: method_calculator calculate_per_unit_method
proof unfold_locales
  fix r q c assume "calculate_per_unit_method r q = Inr c"
  then show "(dc_status c = CALCULATED) = (dc_amount c \<noteq> None)"
    by (cases r) (auto simp: outcome_def elim!: per_unit_method_cases)
next
  fix r q c assume "calculate_per_unit_method r q = Inr c" "dc_status c = CALCULATED"
  then show "(dc_rate_amount c = None) = (dc_rate_values c \<noteq> [])"
    by (cases r) (auto simp: outcome_def elim!: per_unit_method_cases)
next
  fix r q c assume "calculate_per_unit_method r q = Inr c" "dc_status c \<noteq> CALCULATED"
  then show "c = outcome (dc_status c) (dc_schedule_id c)"
    by (cases r) (auto simp: outcome_def elim!: per_unit_method_cases)
qed (auto simp: outcome_def elim!: per_unit_method_cases)

interpretation ordinal_tiers: method_calculator calculate_ordinal_tier_method
proof unfold_locales
  fix r q c assume "calculate_ordinal_tier_method r q = Inr c"
  then show "(dc_status c = CALCULATED) = (dc_amount c \<noteq> None)"
    by (cases r) (auto simp: outcome_def elim!: ordinal_tier_method_cases)
next
  fix r q c assume "calculate_ordinal_tier_method r q = Inr c" "dc_status c = CALCULATED"
  then show "(dc_rate_amount c = None) = (dc_rate_values c \<noteq> [])"
    by (cases r) (auto simp: outcome_def elim!: ordinal_tier_method_cases)
next
  fix r q c assume "calculate_ordinal_tier_method r q = Inr c" "dc_status c \<noteq> CALCULATED"
  then show "c = outcome (dc_status c) (dc_schedule_id c)"
    by (cases r) (auto simp: outcome_def elim!: ordinal_tier_method_cases)
qed (auto simp: outcome_def elim!: ordinal_tier_method_cases)

section \<open>Schedules a method can price\<close>

text \<open>
  When a resolved schedule prices a method: every component has a non-negative amount, and
  there is one scalar, or tiers whose ranges cover every unit once.  It mentions neither method.
\<close>

definition component_range :: "resolved_component \<Rightarrow> tier_bounds" where
  "component_range x = (the (rc_ordinal_from x), rc_ordinal_to x)"

definition priced_for :: "string \<Rightarrow> resolved_compensation \<Rightarrow> bool" where
  "priced_for method r \<longleftrightarrow> (\<forall>x\<in>set (res_components r). \<exists>a\<ge>0. rc_amount x = Some a) \<and>
     (if method = ''OrdinalTier''
      then res_rate_shape r = ''OrdinalTierSchedule'' \<and>
        (\<forall>x\<in>set (res_components r). rc_ordinal_from x \<noteq> None) \<and>
        covers_every_unit (map component_range (res_components r))
      else res_rate_shape r = ''Scalar'' \<and> length (res_components r) = 1)"

lemma tier_of_component_None_iff:
  "tier_of_component x \<noteq> None \<longleftrightarrow> (\<exists>a\<ge>0. rc_amount x = Some a) \<and> rc_ordinal_from x \<noteq> None"
  by (auto simp: tier_of_component_def not_less split: option.splits)

lemma filled_components_filled_iff:
  "filled_components xs \<noteq> None \<longleftrightarrow> (\<forall>x\<in>set xs. \<exists>a\<ge>0. rc_amount x = Some a) \<and>
     (\<forall>x\<in>set xs. rc_ordinal_from x \<noteq> None)"
proof (induction xs)
  case (Cons x xs)
  then show ?case using tier_of_component_None_iff [of x] by (auto split: option.splits)
qed simp

lemma filled_components_ranges:
  "filled_components xs = Some ps \<Longrightarrow> map (tier_bounds_of \<circ> fst) ps = map component_range xs"
proof (induction xs arbitrary: ps)
  case (Cons x xs)
  then obtain p qs where "tier_of_component x = Some p" "filled_components xs = Some qs" "ps = p # qs"
    by (auto split: option.splits)
  moreover from this have "tier_bounds_of (fst p) = component_range x"
    by (auto simp: tier_of_component_def tier_bounds_of_def component_range_def
        split: option.splits if_splits)
  ultimately show ?case using Cons.IH [of qs] by simp
qed simp

lemma covers_every_unit_not_Nil: "\<not> covers_every_unit []"
proof
  assume "covers_every_unit []"
  then have "\<exists>!b. b \<in> set [] \<and> covers_ordinal b 1" unfolding covers_every_unit_def by (simp only: order_refl)
  then show False by auto
qed

lemma priced_for_per_unit_iff:
  "priced_for ''PerUnit'' r \<longleftrightarrow> res_rate_shape r = ''Scalar'' \<and>
     (\<exists>x a. res_components r = [x] \<and> rc_amount x = Some a \<and> 0 \<le> a)"
  by (auto simp: priced_for_def length_Suc_conv)

lemma priced_for_ordinal_iff:
  "priced_for ''OrdinalTier'' r \<longleftrightarrow> res_rate_shape r = ''OrdinalTierSchedule'' \<and>
     (\<exists>ps. filled_components (res_components r) = Some ps \<and>
       topology_error (map tier_bounds_of (map fst ps)) = None)"
  using filled_components_filled_iff [of "res_components r"]
    filled_components_ranges [of "res_components r"]
  by (auto simp: priced_for_def topology_error_None_iff tier_chain_iff_covers)

lemma per_unit_status:
  assumes "calculate_per_unit_method (Some s) q = Inr c"
  shows "dc_status c = (if \<not> priced_for ''PerUnit'' s then INCOMPLETE_RATE else CALCULATED)"
  using assms by (auto simp: priced_for_per_unit_iff calculate_per_unit_method_def Let_def
      map_r_Inr_iff outcome_def split: if_splits list.splits option.splits)

lemma ordinal_tier_status:
  assumes "calculate_ordinal_tier_method (Some s) q = Inr c"
  shows "dc_status c = (if \<not> priced_for ''OrdinalTier'' s then INCOMPLETE_RATE
     else if q < 0 \<or> \<not> is_whole q then INVALID_QUANTITY else CALCULATED)"
proof -
  have "res_components s \<noteq> []" if "priced_for ''OrdinalTier'' s"
    using that covers_every_unit_not_Nil by (auto simp: priced_for_def)
  with assms show ?thesis
    by (auto simp: priced_for_ordinal_iff calculate_ordinal_tier_method_def Let_def
        map_r_Inr_iff outcome_def split: if_splits option.splits)
qed

text \<open>What the dispatch passes on from the two contracts.\<close>

definition outcome_status :: "period_definition \<Rightarrow> resolved_compensation option \<Rightarrow> decimal \<Rightarrow> calculation_status" where
  "outcome_status d r q =
     (if \<not> is_method_operational (pd_calculation_method d) (pd_calculation_method_version d)
      then METHOD_NOT_READY
      else case r of None \<Rightarrow> MISSING_RATE
        | Some s \<Rightarrow>
            if \<not> priced_for (pd_calculation_method d) s then INCOMPLETE_RATE
            else if pd_calculation_method d = ''OrdinalTier'' \<and> (q < 0 \<or> \<not> is_whole q)
            then INVALID_QUANTITY else CALCULATED)"

lemma definition_outcome_facts:
  assumes "calculate_definition_input d r q = Inr c"
  shows "dc_status c = outcome_status d r q"
    and "dc_amount c \<noteq> None \<longleftrightarrow> dc_status c = CALCULATED"
    and "dc_status c = CALCULATED \<Longrightarrow> r = Some s \<Longrightarrow> dc_schedule_id c = Some (res_schedule_id s) \<and>
       dc_effective_from c = Some (res_effective_from s) \<and> dc_effective_to c = res_effective_to s"
proof -
  consider (none) "calculators (pd_calculation_method d, pd_calculation_method_version d) = None"
      "c = outcome METHOD_NOT_READY None"
    | (unit) "pd_calculation_method d = ''PerUnit''" "pd_calculation_method_version d = 1"
        "calculate_per_unit_method r q = Inr c"
    | (tier) "pd_calculation_method d = ''OrdinalTier''" "pd_calculation_method_version d = 1"
        "calculate_ordinal_tier_method r q = Inr c"
    using assms by (auto simp: calculate_definition_input_def calculators_def split: if_splits)
  note cases = this
  show "dc_status c = outcome_status d r q"
    using cases
  proof cases
    case none
    then show ?thesis by (simp add: outcome_status_def is_method_operational_def outcome_def)
  next
    case unit
    then show ?thesis using per_unit_status [of _ q c]
      by (cases r) (auto simp: outcome_status_def is_method_operational_def calculators_def outcome_def)
  next
    case tier
    then show ?thesis using ordinal_tier_status [of _ q c]
      by (cases r) (auto simp: outcome_status_def is_method_operational_def calculators_def outcome_def)
  qed
  show "dc_amount c \<noteq> None \<longleftrightarrow> dc_status c = CALCULATED"
    using cases per_unit.amount_calculated ordinal_tiers.amount_calculated
    by cases (auto simp: outcome_def)
  show "dc_schedule_id c = Some (res_schedule_id s) \<and>
      dc_effective_from c = Some (res_effective_from s) \<and> dc_effective_to c = res_effective_to s"
    if "dc_status c = CALCULATED" "r = Some s"
    using cases that per_unit.schedule_named per_unit.calculated_window
      ordinal_tiers.schedule_named ordinal_tiers.calculated_window
    by cases (auto simp: outcome_def)
qed

end
