(* ===== verification/Rate_Resolver.thy ===== *)
theory Rate_Resolver
  imports Definition_Calculation "HOL-Library.Product_Lexorder"
begin

text \<open>
  The compensation schedule resolver (\<open>compensation/resolver.py\<close>) over the tables it reads.
  A table is the list of its rows; a SELECT is the list of the rows its WHERE keeps, in the
  order of its ORDER BY.  The locale \<open>rate_authority\<close> is what the live lines rely on: the
  schedule returned for a key is the Driver's, of the asked RateDefinition, and in force on
  the WorkDate.
\<close>

section \<open>Tables\<close>

record driver_row =
  dr_driver_id :: int
  dr_company_id :: int
  dr_status :: string
  dr_number :: string

record rate_definition_row =
  rd_id :: int
  rd_company_id :: int
  rd_shape :: string
  rd_pay_definition_id :: "int option"
  rd_calculation_method :: "string option"
  rd_status_rate_column_id :: "int option"

record schedule_row =
  sch_id :: int
  sch_company_id :: int
  sch_driver_id :: int
  sch_rate_definition_id :: int
  sch_status :: string
  sch_effective_from :: date
  sch_effective_to :: "date option"

record component_row =
  cmp_id :: int
  cmp_rate_definition_id :: int
  cmp_sequence_no :: int
  cmp_ordinal_from :: "int option"
  cmp_ordinal_to :: "int option"

record schedule_value_row =
  val_schedule_id :: int
  val_component_id :: int
  val_amount :: decimal

record rate_db =
  drivers :: "driver_row list"
  rate_definitions :: "rate_definition_row list"
  rate_schedules :: "schedule_row list"
  rate_components :: "component_row list"
  schedule_values :: "schedule_value_row list"

text \<open>A \<open>ResolutionKey\<close>: Driver, RateDefinition, WorkDate.\<close>

type_synonym resolution_key = "int \<times> int \<times> date"

section \<open>Resolution\<close>

definition in_window :: "date \<Rightarrow> date option \<Rightarrow> date \<Rightarrow> bool" where
  "in_window f t d \<longleftrightarrow> f \<le> d \<and> (case t of None \<Rightarrow> True | Some e \<Rightarrow> d \<le> e)"

definition authoritative :: "int \<Rightarrow> resolution_key \<Rightarrow> schedule_row \<Rightarrow> bool" where
  "authoritative company_id = (\<lambda>(driver, rate_def, work_date) s.
     sch_company_id s = company_id \<and> sch_driver_id s = driver \<and>
     sch_rate_definition_id s = rate_def \<and> sch_status s \<in> {''Approved'', ''Superseded''} \<and>
     in_window (sch_effective_from s) (sch_effective_to s) work_date)"

text \<open>The rows of the key-to-schedule join, key by key.\<close>

definition schedule_matches ::
  "int \<Rightarrow> 'a rate_db_scheme \<Rightarrow> resolution_key list \<Rightarrow> (resolution_key \<times> schedule_row) list" where
  "schedule_matches company_id db keys =
     concat (map (\<lambda>k. map (Pair k) (filter (authoritative company_id k) (rate_schedules db))) keys)"

fun select_schedules ::
  "(resolution_key \<rightharpoonup> schedule_row) \<Rightarrow> (resolution_key \<times> schedule_row) list
   \<Rightarrow> (resolution_key \<rightharpoonup> schedule_row) result" where
  "select_schedules selected [] = Inr selected"
| "select_schedules selected ((k, s) # rows) =
     (if selected k \<noteq> None
      then Inl (IntegrityError ''More than one authoritative schedule applies on the requested date.'')
      else select_schedules (selected(k \<mapsto> s)) rows)"

definition component_value :: "'a rate_db_scheme \<Rightarrow> int \<Rightarrow> component_row \<Rightarrow> resolved_component" where
  "component_value db schedule_id c =
     \<lparr>rc_component_id = cmp_id c, rc_sequence_no = cmp_sequence_no c,
      rc_ordinal_from = cmp_ordinal_from c, rc_ordinal_to = cmp_ordinal_to c,
      rc_amount = map_option val_amount
        (find_first (\<lambda>v. val_component_id v = cmp_id c \<and> val_schedule_id v = schedule_id)
          (schedule_values db))\<rparr>"

definition components_of_schedule :: "'a rate_db_scheme \<Rightarrow> schedule_row \<Rightarrow> resolved_component list" where
  "components_of_schedule db s =
     map (component_value db (sch_id s))
       (sort_key cmp_sequence_no
         (filter (\<lambda>c. cmp_rate_definition_id c = sch_rate_definition_id s) (rate_components db)))"

definition resolved_of ::
  "'a rate_db_scheme \<Rightarrow> resolution_key \<Rightarrow> rate_definition_row \<Rightarrow> schedule_row \<Rightarrow> resolved_compensation" where
  "resolved_of db = (\<lambda>(driver, rate_def, work_date) d s.
     \<lparr>res_driver_id = driver, res_pay_definition_id = rd_pay_definition_id d,
      res_rate_definition_id = rate_def, res_rate_shape = rd_shape d,
      res_calculation_method = rd_calculation_method d, res_schedule_id = sch_id s,
      res_schedule_status = sch_status s, res_effective_from = sch_effective_from s,
      res_effective_to = sch_effective_to s, res_components = components_of_schedule db s\<rparr>)"

definition find_rate_definition :: "int \<Rightarrow> 'a rate_db_scheme \<Rightarrow> int \<Rightarrow> rate_definition_row option" where
  "find_rate_definition company_id db rid =
     find_first (\<lambda>d. rd_company_id d = company_id \<and> rd_id d = rid) (rate_definitions db)"

definition resolve_many ::
  "int \<Rightarrow> 'a rate_db_scheme \<Rightarrow> resolution_key list
   \<Rightarrow> (resolution_key \<rightharpoonup> resolved_compensation option) result" where
  "resolve_many company_id db keys =
     (let distinct_keys = sorted_set keys in
      if distinct_keys = [] then Inr Map.empty
      else if \<exists>k\<in>set distinct_keys.
           \<not> (\<exists>r\<in>set (drivers db). dr_company_id r = company_id \<and> dr_driver_id r = fst k)
      then Inl (OwnershipError ''Driver does not belong to the Company.'')
      else if \<exists>k\<in>set distinct_keys. find_rate_definition company_id db (fst (snd k)) = None
      then Inl (OwnershipError ''RateDefinition does not belong to the Company.'')
      else bind_r (select_schedules Map.empty (schedule_matches company_id db distinct_keys))
        (\<lambda>selected. Inr (\<lambda>k.
          if k \<in> set distinct_keys
          then Some (case (selected k, find_rate_definition company_id db (fst (snd k))) of
              (Some s, Some d) \<Rightarrow> Some (resolved_of db k d s)
            | _ \<Rightarrow> None)
          else None)))"

definition resolve :: "int \<Rightarrow> 'a rate_db_scheme \<Rightarrow> resolution_key \<Rightarrow> resolved_compensation option result" where
  "resolve company_id db k =
     bind_r (resolve_many company_id db [k]) (\<lambda>m.
       case m k of Some r \<Rightarrow> Inr r | None \<Rightarrow> Inr None)"

section \<open>What a resolution returns\<close>

text \<open>The one schedule of a key, if the schedules of the key do not overlap.\<close>

definition the_schedule :: "int \<Rightarrow> 'a rate_db_scheme \<Rightarrow> resolution_key \<Rightarrow> schedule_row option" where
  "the_schedule company_id db k = find_first (authoritative company_id k) (rate_schedules db)"

definition resolve_key ::
  "int \<Rightarrow> 'a rate_db_scheme \<Rightarrow> resolution_key \<Rightarrow> resolved_compensation option" where
  "resolve_key company_id db k =
     (case (the_schedule company_id db k, find_rate_definition company_id db (fst (snd k))) of
        (Some s, Some d) \<Rightarrow> Some (resolved_of db k d s)
      | _ \<Rightarrow> None)"

lemma select_schedules_block:
  assumes "selected k = None"
  shows "select_schedules selected (map (Pair k) ss @ rows) =
    (case ss of [] \<Rightarrow> select_schedules selected rows
     | [s] \<Rightarrow> select_schedules (selected(k \<mapsto> s)) rows
     | _ \<Rightarrow> Inl (IntegrityError ''More than one authoritative schedule applies on the requested date.''))"
  using assms by (auto split: list.splits)

lemma find_first_filter: "find_first p xs = (case filter p xs of [] \<Rightarrow> None | x # _ \<Rightarrow> Some x)"
  by (induction xs) (auto split: list.splits)

text \<open>Selection fails exactly when some key has two authoritative schedules.\<close>

lemma select_schedules_matches:
  assumes "distinct keys" "\<forall>k\<in>set keys. selected k = None"
  shows "select_schedules selected (schedule_matches c db keys) =
    (if \<forall>k\<in>set keys. length (filter (authoritative c k) (rate_schedules db)) \<le> 1
     then Inr (\<lambda>k. if k \<in> set keys then the_schedule c db k else selected k)
     else Inl (IntegrityError ''More than one authoritative schedule applies on the requested date.''))"
  using assms
proof (induction keys arbitrary: selected)
  case Nil
  then show ?case by (simp add: schedule_matches_def)
next
  case (Cons k keys)
  let ?ss = "filter (authoritative c k) (rate_schedules db)"
  have unfold: "schedule_matches c db (k # keys) = map (Pair k) ?ss @ schedule_matches c db keys"
    by (simp add: schedule_matches_def)
  have k: "selected k = None" "k \<notin> set keys" using Cons.prems by auto
  consider "?ss = []" | s where "?ss = [s]" | s t ts where "?ss = s # t # ts"
    by (metis list.exhaust)
  then show ?case
  proof cases
    case 1
    then have "the_schedule c db k = None" by (simp add: the_schedule_def find_first_filter)
    with 1 Cons.IH [of selected] Cons.prems k show ?thesis
      unfolding unfold select_schedules_block [where selected = selected, OF k(1)]
      by (auto simp: fun_eq_iff)
  next
    case (2 s)
    then have "the_schedule c db k = Some s" by (simp add: the_schedule_def find_first_filter)
    note the_s = this
    have "\<forall>k'\<in>set keys. (selected(k \<mapsto> s)) k' = None"
      using Cons.prems k by auto
    then have IH: "select_schedules (selected(k \<mapsto> s)) (schedule_matches c db keys) =
      (if \<forall>k\<in>set keys. length (filter (authoritative c k) (rate_schedules db)) \<le> 1
       then Inr (\<lambda>k'. if k' \<in> set keys then the_schedule c db k' else (selected(k \<mapsto> s)) k')
       else Inl (IntegrityError ''More than one authoritative schedule applies on the requested date.''))"
      using Cons.IH Cons.prems(1) by (simp del: fun_upd_apply)
    have merge: "(\<lambda>k'. if k' \<in> set keys then the_schedule c db k' else (selected(k \<mapsto> s)) k') =
      (\<lambda>k'. if k' \<in> set (k # keys) then the_schedule c db k' else selected k')"
      using the_s k by (auto simp: fun_eq_iff)
    show ?thesis
      unfolding unfold select_schedules_block [where selected = selected, OF k(1)] 2 list.case IH merge
      by (simp add: 2)
  next
    case 3
    then show ?thesis
      unfolding unfold select_schedules_block [where selected = selected, OF k(1)] by simp
  qed
qed

definition owned_keys :: "int \<Rightarrow> 'a rate_db_scheme \<Rightarrow> resolution_key list \<Rightarrow> bool" where
  "owned_keys c db keys \<longleftrightarrow> (\<forall>k\<in>set keys.
     (\<exists>r\<in>set (drivers db). dr_company_id r = c \<and> dr_driver_id r = fst k) \<and>
     find_rate_definition c db (fst (snd k)) \<noteq> None)"

definition no_overlap :: "int \<Rightarrow> 'a rate_db_scheme \<Rightarrow> resolution_key list \<Rightarrow> bool" where
  "no_overlap c db keys \<longleftrightarrow>
     (\<forall>k\<in>set keys. length (filter (authoritative c k) (rate_schedules db)) \<le> 1)"

lemma resolve_many_eval:
  "resolve_many c db keys =
    (if keys = [] then Inr Map.empty
     else if \<exists>k\<in>set keys. \<not> (\<exists>r\<in>set (drivers db). dr_company_id r = c \<and> dr_driver_id r = fst k)
     then Inl (OwnershipError ''Driver does not belong to the Company.'')
     else if \<exists>k\<in>set keys. find_rate_definition c db (fst (snd k)) = None
     then Inl (OwnershipError ''RateDefinition does not belong to the Company.'')
     else if no_overlap c db keys
     then Inr (\<lambda>k. if k \<in> set keys then Some (resolve_key c db k) else None)
     else Inl (IntegrityError ''More than one authoritative schedule applies on the requested date.''))"
proof -
  have nil: "sorted_set keys = [] \<longleftrightarrow> keys = []" by (metis set_empty set_sorted_set)
  have sel: "select_schedules Map.empty (schedule_matches c db (sorted_set keys)) =
    (if no_overlap c db keys
     then Inr (\<lambda>k. if k \<in> set keys then the_schedule c db k else None)
     else Inl (IntegrityError ''More than one authoritative schedule applies on the requested date.''))"
    using select_schedules_matches [of "sorted_set keys" Map.empty c db]
    by (simp add: no_overlap_def)
  show ?thesis
    unfolding resolve_many_def Let_def nil set_sorted_set sel
    by (intro if_cong refl) (simp add: resolve_key_def fun_eq_iff)
qed

lemma resolve_many_ok:
  "owned_keys c db keys \<Longrightarrow> no_overlap c db keys \<Longrightarrow>
   resolve_many c db keys = Inr (\<lambda>k. if k \<in> set keys then Some (resolve_key c db k) else None)"
  by (auto simp: resolve_many_eval owned_keys_def fun_eq_iff)

lemma resolve_many_InrD:
  "resolve_many c db keys = Inr m \<Longrightarrow> k \<in> set keys \<Longrightarrow> m k = Some (resolve_key c db k)"
  by (auto simp: resolve_many_eval split: if_splits)

lemma resolve_single: "resolve c db k = map_r (\<lambda>m. the (m k)) (resolve_many c db [k])"
  by (auto simp: resolve_def resolve_many_eval)

section \<open>The interface to the live lines\<close>

locale rate_authority =
  fixes lookup :: "resolution_key \<Rightarrow> resolved_compensation option"
  assumes lookup_driver: "lookup k = Some r \<Longrightarrow> res_driver_id r = fst k"
    and lookup_definition: "lookup k = Some r \<Longrightarrow> res_rate_definition_id r = fst (snd k)"
    and lookup_window: "lookup k = Some r \<Longrightarrow>
      in_window (res_effective_from r) (res_effective_to r) (snd (snd k))"
    and lookup_status: "lookup k = Some r \<Longrightarrow> res_schedule_status r \<in> {''Approved'', ''Superseded''}"
begin

text \<open>A calculation made by a method from the looked-up schedule carries a covering window.\<close>

lemma calculated_in_window:
  assumes "method_calculator calc" "calc (lookup k) q = Inr c" "dc_status c = CALCULATED"
  obtains f where "dc_effective_from c = Some f" "in_window f (dc_effective_to c) (snd (snd k))"
proof -
  from assms method_calculator.missing_iff [OF assms(1)] obtain r where r: "lookup k = Some r"
    by (cases "lookup k") force+
  with assms method_calculator.calculated_window [OF assms(1), of r q c] have
    "dc_effective_from c = Some (res_effective_from r)" "dc_effective_to c = res_effective_to r"
    by auto
  with lookup_window [OF r] show thesis by (intro that) auto
qed

end

interpretation resolver: rate_authority "resolve_key c db" for c db
  by unfold_locales
    (auto simp: resolve_key_def resolved_of_def the_schedule_def authoritative_def
      split: option.splits dest!: find_first_SomeD)

end
