(* ===== verification/Live_Lines.thy ===== *)
theory Live_Lines
  imports Rate_Resolver
begin

text \<open>
  The live, derived money of a period's source rows: ordinary lines
  (\<open>payroll/live_source_calculation.py\<close>), Status selections (\<open>payroll/status_calculation.py\<close>)
  and active Bonus events (\<open>payroll/bonus.py\<close>), with the period's frozen definition layout
  (\<open>payroll/period_definitions.py\<close>).  A JOIN is the list comprehension over the joined tables
  with the ON and WHERE conditions as its guard; ORDER BY is a stable sort by its columns.
\<close>

section \<open>Source tables\<close>

record assignment_row =
  asg_id :: int
  asg_company_id :: int
  asg_branch_id :: int
  asg_driver_id :: int
  asg_employee_id :: int
  asg_effective_from_at :: int
  asg_effective_to_at :: "int option"
  asg_end_reason :: "string option"

record definition_row =
  ppd_id :: int
  ppd_period_id :: int
  ppd_company_id :: int
  ppd_branch_id :: int
  ppd_pay_definition_id :: int
  ppd_rate_definition_id :: int
  ppd_code :: string
  ppd_name :: string
  ppd_input_type :: string
  ppd_unit :: "string option"
  ppd_calculation_method :: string
  ppd_calculation_method_version :: int
  ppd_rate_shape :: string
  ppd_is_active :: bool
  ppd_sort_order :: int

record draft_line_row =
  dl_id :: int
  dl_period_id :: int
  dl_company_id :: int
  dl_branch_id :: int
  dl_assignment_id :: int
  dl_work_date :: date
  dl_definition_id :: int
  dl_quantity :: decimal
  dl_source_type :: string
  dl_notes :: "string option"
  dl_status :: string

record status_key_row =
  sk_id :: int
  sk_company_id :: int
  sk_code :: string
  sk_name :: string
  sk_hours_value :: decimal
  sk_rate_column_id :: "int option"
  sk_is_off_reason :: bool
  sk_category :: string

record status_column_row =
  col_id :: int
  col_company_id :: int
  col_name :: string

record entry_state_row =
  es_id :: int
  es_period_id :: int
  es_company_id :: int
  es_branch_id :: int
  es_assignment_id :: int
  es_work_date :: date
  es_status_key_id :: "int option"
  es_is_voided :: bool
  es_finalized_at :: "int option"
  es_off_reason_snapshot :: "bool option"

record bonus_row =
  be_id :: int
  be_period_id :: int
  be_company_id :: int
  be_assignment_id :: int
  be_amount :: decimal
  be_reason :: string
  be_notes :: "string option"
  be_data_revision :: int
  be_created_by :: "int option"
  be_created_at :: int
  be_status :: string

record user_row =
  us_id :: int
  us_display_name :: string
  us_company_id :: int
  us_is_active :: bool
  us_can_login :: bool
  us_is_staged :: bool

record source_db = rate_db +
  assignments :: "assignment_row list"
  period_definitions :: "definition_row list"
  draft_lines :: "draft_line_row list"
  status_keys :: "status_key_row list"
  status_columns :: "status_column_row list"
  entry_states :: "entry_state_row list"
  bonus_events :: "bonus_row list"
  users :: "user_row list"

section \<open>The frozen definition layout\<close>

definition definition_from_row :: "definition_row \<Rightarrow> period_definition" where
  "definition_from_row row =
     \<lparr>pd_period_definition_id = ppd_id row, pd_pay_definition_id = ppd_pay_definition_id row,
      pd_rate_definition_id = ppd_rate_definition_id row, pd_code = ppd_code row,
      pd_name = ppd_name row, pd_input_type = ppd_input_type row, pd_unit = ppd_unit row,
      pd_calculation_method = ppd_calculation_method row,
      pd_calculation_method_version = ppd_calculation_method_version row,
      pd_rate_shape = ppd_rate_shape row, pd_is_active = ppd_is_active row\<rparr>"

definition list_period_definition_rows ::
  "int \<Rightarrow> int \<Rightarrow> 'a source_db_scheme \<Rightarrow> bool \<Rightarrow> definition_row list" where
  "list_period_definition_rows period_id company_id db active_only =
     sort_key (\<lambda>p. (ppd_sort_order p, ppd_id p))
       (filter (\<lambda>p. ppd_period_id p = period_id \<and> ppd_company_id p = company_id \<and>
                    (active_only \<longrightarrow> ppd_is_active p))
         (period_definitions db))"

definition list_period_definitions ::
  "int \<Rightarrow> int \<Rightarrow> 'a source_db_scheme \<Rightarrow> bool \<Rightarrow> period_definition list" where
  "list_period_definitions period_id company_id db active_only =
     map definition_from_row (list_period_definition_rows period_id company_id db active_only)"

definition get_period_definition ::
  "int \<Rightarrow> int \<Rightarrow> int \<Rightarrow> 'a source_db_scheme \<Rightarrow> period_definition option" where
  "get_period_definition period_id company_id ppd db =
     map_option definition_from_row
       (find_first (\<lambda>p. ppd_id p = ppd \<and> ppd_period_id p = period_id \<and> ppd_company_id p = company_id)
         (period_definitions db))"

section \<open>Ordinary source lines\<close>

record live_source_line =
  ls_draft_line_id :: int
  ls_assignment_id :: int
  ls_driver_id :: int
  ls_branch_id :: int
  ls_work_date :: date
  ls_quantity :: decimal
  ls_source_type :: string
  ls_notes :: "string option"
  ls_definition :: period_definition
  ls_calculation :: definition_calculation

type_synonym source_row = "draft_line_row \<times> assignment_row \<times> definition_row"

definition source_rows ::
  "int \<Rightarrow> int \<Rightarrow> 'a source_db_scheme \<Rightarrow> int list option \<Rightarrow> date option \<Rightarrow> source_row list" where
  "source_rows period_id company_id db assignment_ids work_date =
     sort_key (\<lambda>(dl, da, ppd). (dl_assignment_id dl, dl_work_date dl, ppd_sort_order ppd, dl_id dl))
       [(dl, da, ppd). dl \<leftarrow> draft_lines db, da \<leftarrow> assignments db, ppd \<leftarrow> period_definitions db,
          asg_id da = dl_assignment_id dl \<and> ppd_id ppd = dl_definition_id dl \<and>
          ppd_period_id ppd = dl_period_id dl \<and>
          dl_period_id dl = period_id \<and> dl_company_id dl = company_id \<and> dl_status dl \<noteq> ''Void'' \<and>
          (case assignment_ids of None \<Rightarrow> True | Some ids \<Rightarrow> dl_assignment_id dl \<in> set ids) \<and>
          (case work_date of None \<Rightarrow> True | Some d \<Rightarrow> dl_work_date dl = d)]"

definition source_key :: "source_row \<Rightarrow> resolution_key" where
  "source_key = (\<lambda>(dl, da, ppd). (asg_driver_id da, ppd_rate_definition_id ppd, dl_work_date dl))"

definition live_source_line_of ::
  "(resolution_key \<Rightarrow> resolved_compensation option) \<Rightarrow> source_row \<Rightarrow> live_source_line result" where
  "live_source_line_of resolved row = (case row of (dl, da, ppd) \<Rightarrow>
     let d = definition_from_row ppd in
     map_r (\<lambda>calculation.
       \<lparr>ls_draft_line_id = dl_id dl, ls_assignment_id = dl_assignment_id dl,
        ls_driver_id = asg_driver_id da, ls_branch_id = dl_branch_id dl,
        ls_work_date = dl_work_date dl, ls_quantity = dl_quantity dl,
        ls_source_type = dl_source_type dl, ls_notes = dl_notes dl,
        ls_definition = d, ls_calculation = calculation\<rparr>)
       (calculate_definition_input d (resolved (source_key row)) (dl_quantity dl)))"

definition load_live_source_lines ::
  "int \<Rightarrow> int \<Rightarrow> 'a source_db_scheme \<Rightarrow> int list option \<Rightarrow> date option
   \<Rightarrow> live_source_line list result" where
  "load_live_source_lines period_id company_id db assignment_ids work_date =
     (if assignment_ids = Some [] then Inr []
      else let rows = source_rows period_id company_id db assignment_ids work_date in
        if rows = [] then Inr []
        else bind_r (resolve_many company_id db (map source_key rows)) (\<lambda>resolved.
          mapM (live_source_line_of (\<lambda>k. the (resolved k))) rows))"

section \<open>Status selections\<close>

record live_status_line =
  st_assignment_id :: int
  st_driver_id :: int
  st_entry_state_id :: int
  st_work_date :: date
  st_status_key_id :: int
  st_status_code :: string
  st_status_label :: string
  st_rate_column_id :: int
  st_rate_column_name :: string
  st_rate_definition_id :: int
  st_hours :: decimal
  st_calculation :: definition_calculation

type_synonym status_row =
  "entry_state_row \<times> status_key_row \<times> assignment_row \<times> status_column_row \<times> rate_definition_row"

definition status_rows :: "int \<Rightarrow> int \<Rightarrow> int \<Rightarrow> 'a source_db_scheme \<Rightarrow> status_row list" where
  "status_rows period_id company_id branch_id db =
     sort_key (\<lambda>(es, _). (es_assignment_id es, es_work_date es))
       [(es, sk, a, c, rd). es \<leftarrow> entry_states db, sk \<leftarrow> status_keys db, a \<leftarrow> assignments db,
          c \<leftarrow> status_columns db, rd \<leftarrow> rate_definitions db,
          es_status_key_id es = Some (sk_id sk) \<and> sk_company_id sk = es_company_id es \<and>
          asg_id a = es_assignment_id es \<and> asg_company_id a = es_company_id es \<and>
          sk_rate_column_id sk = Some (col_id c) \<and> col_company_id c = sk_company_id sk \<and>
          rd_status_rate_column_id rd = Some (col_id c) \<and> rd_company_id rd = col_company_id c \<and>
          es_period_id es = period_id \<and> es_company_id es = company_id \<and>
          es_branch_id es = branch_id \<and> \<not> es_is_voided es]"

definition status_key_of :: "status_row \<Rightarrow> resolution_key" where
  "status_key_of = (\<lambda>(es, sk, a, c, rd). (asg_driver_id a, rd_id rd, es_work_date es))"

definition live_status_line_of ::
  "(resolution_key \<Rightarrow> resolved_compensation option) \<Rightarrow> status_row \<Rightarrow> live_status_line result" where
  "live_status_line_of resolved row = (case row of (es, sk, a, c, rd) \<Rightarrow>
     map_r (\<lambda>calculation.
       \<lparr>st_assignment_id = es_assignment_id es, st_driver_id = asg_driver_id a,
        st_entry_state_id = es_id es, st_work_date = es_work_date es,
        st_status_key_id = sk_id sk, st_status_code = sk_code sk, st_status_label = sk_name sk,
        st_rate_column_id = col_id c, st_rate_column_name = col_name c,
        st_rate_definition_id = rd_id rd, st_hours = sk_hours_value sk,
        st_calculation = calculation\<rparr>)
       (calculate_scalar_rate (resolved (status_key_of row)) (sk_hours_value sk)))"

definition load_live_status_lines ::
  "int \<Rightarrow> int \<Rightarrow> int \<Rightarrow> 'a source_db_scheme \<Rightarrow> live_status_line list result" where
  "load_live_status_lines period_id company_id branch_id db =
     (let rows = status_rows period_id company_id branch_id db in
      if rows = [] then Inr []
      else bind_r (resolve_many company_id db (map status_key_of rows)) (\<lambda>resolved.
        mapM (live_status_line_of (\<lambda>k. the (resolved k))) rows))"

section \<open>Bonus events\<close>

text \<open>The LEFT JOINs only add labels; \<open>driverid\<close> is the assignment's, or NULL without one.\<close>

definition load_active_bonus_events ::
  "int \<Rightarrow> int \<Rightarrow> 'a source_db_scheme \<Rightarrow> (bonus_row \<times> int option) list" where
  "load_active_bonus_events period_id company_id db =
     map (\<lambda>be. (be, map_option asg_driver_id
           (find_first (\<lambda>a. asg_id a = be_assignment_id be) (assignments db))))
       (sort_key (\<lambda>be. (be_assignment_id be, be_id be))
         (filter (\<lambda>be. be_period_id be = period_id \<and> be_company_id be = company_id \<and>
                       be_status be = ''Active'') (bonus_events db)))"

section \<open>Loads in terms of the resolver's specification\<close>

lemma load_source_InrD:
  assumes "load_live_source_lines pid cid db ids wd = Inr ls"
  shows "list_all2 (\<lambda>row l. live_source_line_of (resolve_key cid db) row = Inr l)
    (if ids = Some [] then [] else source_rows pid cid db ids wd) ls"
proof (cases "ids = Some [] \<or> source_rows pid cid db ids wd = []")
  case True
  with assms show ?thesis by (auto simp: load_live_source_lines_def)
next
  case False
  let ?rows = "source_rows pid cid db ids wd"
  from False assms obtain m where m: "resolve_many cid db (map source_key ?rows) = Inr m"
    and ls: "mapM (live_source_line_of (\<lambda>k. the (m k))) ?rows = Inr ls"
    by (auto simp: load_live_source_lines_def Let_def)
  have "live_source_line_of (\<lambda>k. the (m k)) row = live_source_line_of (resolve_key cid db) row"
    if "row \<in> set ?rows" for row
    using resolve_many_InrD [OF m, of "source_key row"] that by (simp add: live_source_line_of_def)
  with ls False show ?thesis
    by (auto simp: mapM_Inr_iff intro: list_all2_mono elim: list.rel_mono_strong)
qed

lemma load_status_InrD:
  assumes "load_live_status_lines pid cid bid db = Inr ls"
  shows "list_all2 (\<lambda>row l. live_status_line_of (resolve_key cid db) row = Inr l)
    (status_rows pid cid bid db) ls"
proof (cases "status_rows pid cid bid db = []")
  case True
  with assms show ?thesis by (auto simp: load_live_status_lines_def)
next
  case False
  let ?rows = "status_rows pid cid bid db"
  from False assms obtain m where m: "resolve_many cid db (map status_key_of ?rows) = Inr m"
    and ls: "mapM (live_status_line_of (\<lambda>k. the (m k))) ?rows = Inr ls"
    by (auto simp: load_live_status_lines_def Let_def)
  have "live_status_line_of (\<lambda>k. the (m k)) row = live_status_line_of (resolve_key cid db) row"
    if "row \<in> set ?rows" for row
    using resolve_many_InrD [OF m, of "status_key_of row"] that by (simp add: live_status_line_of_def)
  with ls False show ?thesis
    by (auto simp: mapM_Inr_iff elim: list.rel_mono_strong)
qed

text \<open>Loading for a selection of assignments or a WorkDate selects from the whole load.\<close>

definition line_selected :: "int list option \<Rightarrow> date option \<Rightarrow> live_source_line \<Rightarrow> bool" where
  "line_selected ids wd l \<longleftrightarrow>
     (case ids of None \<Rightarrow> True | Some xs \<Rightarrow> ls_assignment_id l \<in> set xs) \<and>
     (case wd of None \<Rightarrow> True | Some d \<Rightarrow> ls_work_date l = d)"

lemma source_rows_filter:
  "source_rows pid cid db ids wd =
     filter (\<lambda>(dl, _). (case ids of None \<Rightarrow> True | Some xs \<Rightarrow> dl_assignment_id dl \<in> set xs) \<and>
                       (case wd of None \<Rightarrow> True | Some d \<Rightarrow> dl_work_date dl = d))
       (source_rows pid cid db None None)"
  unfolding source_rows_def filter_sort
  by (simp add: filter_concat comp_def if_distrib [of "filter _"] cong: if_cong,
      intro arg_cong [where f = "sort_key _"] arg_cong [where f = concat] map_cong refl, simp)

lemma live_source_line_of_InrD:
  assumes "live_source_line_of r (dl, da, ppd) = Inr l"
  shows "ls_draft_line_id l = dl_id dl" "ls_assignment_id l = dl_assignment_id dl"
    "ls_driver_id l = asg_driver_id da" "ls_work_date l = dl_work_date dl"
    "ls_quantity l = dl_quantity dl" "ls_branch_id l = dl_branch_id dl"
    "ls_definition l = definition_from_row ppd"
    "calculate_definition_input (definition_from_row ppd)
       (r (asg_driver_id da, ppd_rate_definition_id ppd, dl_work_date dl)) (dl_quantity dl)
     = Inr (ls_calculation l)"
  using assms
  by (auto simp: live_source_line_of_def source_key_def Let_def map_r_Inr_iff)

lemma live_source_line_of_selected:
  "live_source_line_of r (dl, x) = Inr l \<Longrightarrow>
   line_selected ids wd l \<longleftrightarrow>
     (case ids of None \<Rightarrow> True | Some xs \<Rightarrow> dl_assignment_id dl \<in> set xs) \<and>
     (case wd of None \<Rightarrow> True | Some d \<Rightarrow> dl_work_date dl = d)"
proof -
  assume l: "live_source_line_of r (dl, x) = Inr l"
  obtain da ppd where "x = (da, ppd)" by (cases x)
  with l live_source_line_of_InrD(2,4) [of r dl da ppd l] show ?thesis
    by (simp add: line_selected_def split: option.splits)
qed

lemma list_all2_filter:
  "list_all2 R xs ys \<Longrightarrow> (\<And>x y. R x y \<Longrightarrow> P x = Q y) \<Longrightarrow> list_all2 R (filter P xs) (filter Q ys)"
  by (induction rule: list_all2_induct) auto

lemma list_all2_right_unique:
  "list_all2 R xs ys \<Longrightarrow> list_all2 R xs zs \<Longrightarrow> (\<And>x y z. R x y \<Longrightarrow> R x z \<Longrightarrow> y = z) \<Longrightarrow> ys = zs"
  by (rule nth_equalityI) (auto simp: list_all2_conv_all_nth)

lemma load_source_selected:
  assumes all: "load_live_source_lines pid cid db None None = Inr ls"
    and sel: "load_live_source_lines pid cid db ids wd = Inr ls'"
  shows "ls' = filter (line_selected ids wd) ls"
proof -
  let ?R = "\<lambda>row l. live_source_line_of (resolve_key cid db) row = Inr l"
  let ?P = "\<lambda>(dl, _::assignment_row \<times> definition_row).
    (case ids of None \<Rightarrow> True | Some xs \<Rightarrow> dl_assignment_id dl \<in> set xs) \<and>
    (case wd of None \<Rightarrow> True | Some d \<Rightarrow> dl_work_date dl = d)"
  from load_source_InrD [OF all]
  have "list_all2 ?R (source_rows pid cid db None None) ls" by simp
  from list_all2_filter [OF this, of ?P "line_selected ids wd"]
  have 1: "list_all2 ?R (filter ?P (source_rows pid cid db None None)) (filter (line_selected ids wd) ls)"
    by (auto simp: live_source_line_of_selected)
  have "(if ids = Some [] then [] else source_rows pid cid db ids wd)
    = filter ?P (source_rows pid cid db None None)"
    by (auto simp: source_rows_filter [of pid cid db ids wd] filter_empty_conv)
  with load_source_InrD [OF sel]
  have 2: "list_all2 ?R (filter ?P (source_rows pid cid db None None)) ls'" by simp
  show ?thesis by (rule list_all2_right_unique [OF 2 1]) auto
qed

text \<open>Every loaded line is one stored row with the calculation of the schedule in force.\<close>

lemma load_source_member:
  assumes "load_live_source_lines pid cid db ids wd = Inr ls" and "l \<in> set ls"
  obtains dl da ppd where "dl \<in> set (draft_lines db)" "dl_status dl \<noteq> ''Void''" "dl_id dl = ls_draft_line_id l"
    "dl_period_id dl = pid" "dl_company_id dl = cid" "ls_work_date l = dl_work_date dl"
    "ls_assignment_id l = dl_assignment_id dl"
    "da \<in> set (assignments db)" "asg_id da = dl_assignment_id dl" "ls_driver_id l = asg_driver_id da"
    "ppd \<in> set (period_definitions db)" "ppd_period_id ppd = pid"
    "ls_definition l = definition_from_row ppd"
    "calculate_definition_input (ls_definition l)
       (resolve_key cid db (ls_driver_id l, pd_rate_definition_id (ls_definition l), ls_work_date l))
       (ls_quantity l) = Inr (ls_calculation l)"
proof -
  let ?rows = "if ids = Some [] then [] else source_rows pid cid db ids wd"
  from load_source_InrD [OF assms(1)]
  have all: "list_all2 (\<lambda>row l. live_source_line_of (resolve_key cid db) row = Inr l) ?rows ls" .
  from assms(2) obtain i where "i < length ls" "ls ! i = l" by (auto simp: in_set_conv_nth)
  with list_all2_nthD2 [OF all] list_all2_lengthD [OF all] obtain row where
    row: "row \<in> set ?rows" and l: "live_source_line_of (resolve_key cid db) row = Inr l"
    by (metis nth_mem)
  obtain dl da ppd where [simp]: "row = (dl, da, ppd)" by (cases row)
  from row have "row \<in> set (source_rows pid cid db ids wd)" by (auto split: if_splits)
  then have joined: "dl \<in> set (draft_lines db)" "da \<in> set (assignments db)"
    "ppd \<in> set (period_definitions db)" "asg_id da = dl_assignment_id dl"
    "ppd_period_id ppd = dl_period_id dl" "dl_period_id dl = pid" "dl_company_id dl = cid"
    "dl_status dl \<noteq> ''Void''"
    by (auto simp: source_rows_def split: if_splits)
  from l have "live_source_line_of (resolve_key cid db) (dl, da, ppd) = Inr l" by simp
  note fields = live_source_line_of_InrD [OF this]
  show thesis
    using joined fields by (intro that [of dl da ppd]) (simp_all add: definition_from_row_def)
qed

end
