(* ===== verification/Eligibility.thy ===== *)
theory Eligibility
  imports Live_Lines
begin

text \<open>
  The frozen period roster (\<open>payroll/eligibility.py\<close>): which DriverAssignments a period's
  source rows may name, and on which WorkDates.  The instant at which a local date begins in
  a time zone (\<open>core.fn_LocalDateBoundary\<close>, which reads the time-zone database) is the
  parameter \<open>boundary\<close>; instants are integers.  Of a captured row the model keeps the
  identity, the snapshot columns the code reads back, the dates and the freeze mark; the user
  and audit columns are left out.
\<close>

section \<open>Tables\<close>

record employee_row =
  em_id :: int
  em_full_name :: string
  em_status :: string
  em_hire_date :: "date option"
  em_termination_date :: "date option"

record branch_row =
  br_id :: int
  br_company_id :: int
  br_time_zone :: string

record period_row =
  pp_id :: int
  pp_company_id :: int
  pp_branch_id :: int
  pp_start :: date
  pp_end :: date
  pp_status :: string

record eligibility_row =
  el_company_id :: int
  el_branch_id :: int
  el_period_id :: int
  el_assignment_id :: int
  el_employee_id :: int
  el_driver_number :: string
  el_driver_name :: string
  el_driver_status :: string
  el_end_reason :: "string option"
  el_employment_status :: string
  el_hire_date :: "date option"
  el_termination_date :: "date option"
  el_effective_from_at :: int
  el_effective_to_at :: "int option"
  el_time_zone :: string
  el_dates :: "date list"
  el_is_eligible :: bool
  el_reason :: string
  el_source :: string
  el_frozen_at :: "int option"

record marker_row =
  mk_period_id :: int
  mk_company_id :: int
  mk_branch_id :: int
  mk_source :: string
  mk_frozen_at :: "int option"

record roster_db = source_db +
  employees :: "employee_row list"
  branches :: "branch_row list"
  periods :: "period_row list"
  eligibility :: "eligibility_row list"
  markers :: "marker_row list"

section \<open>Instant ranges\<close>

text \<open>\<open>[f, t) && [s, e)\<close> of PostgreSQL ranges, the first with an open end.\<close>

definition ranges_overlap :: "int \<Rightarrow> int option \<Rightarrow> int \<Rightarrow> int \<Rightarrow> bool" where
  "ranges_overlap f t s e \<longleftrightarrow>
     s < e \<and> f < e \<and> (case t of None \<Rightarrow> True | Some u \<Rightarrow> f < u \<and> s < u)"

text \<open>\<open>fn_DriverEffectiveRange(from, to) && fn_WorkDateRange(zone, d, d)\<close>.\<close>

definition covers_work_date ::
  "(string \<Rightarrow> date \<Rightarrow> int) \<Rightarrow> string \<Rightarrow> int \<Rightarrow> int option \<Rightarrow> date \<Rightarrow> bool" where
  "covers_work_date boundary zone f t d \<longleftrightarrow>
     ranges_overlap f t (boundary zone d) (boundary zone (d + 1))"

lemma ranges_overlap_iff:
  "ranges_overlap f t s e \<longleftrightarrow> (\<exists>x. f \<le> x \<and> (case t of None \<Rightarrow> True | Some u \<Rightarrow> x < u) \<and> s \<le> x \<and> x < e)"
proof (cases t)
  case None
  then show ?thesis by (auto simp: ranges_overlap_def intro: exI [of _ "max f s"])
next
  case (Some u)
  then show ?thesis by (auto simp: ranges_overlap_def intro: exI [of _ "max f s"])
qed

section \<open>Live eligibility\<close>

definition employed_on :: "employee_row \<Rightarrow> date \<Rightarrow> bool" where
  "employed_on e d \<longleftrightarrow>
     (case em_hire_date e of None \<Rightarrow> True | Some h \<Rightarrow> h \<le> d) \<and>
     (case em_termination_date e of None \<Rightarrow> True | Some t \<Rightarrow> d \<le> t)"

definition eligible_days ::
  "int \<Rightarrow> int \<Rightarrow> int \<Rightarrow> date option \<Rightarrow> 'a roster_db_scheme \<Rightarrow> (int \<times> string \<times> date) list" where
  "eligible_days period_id company_id branch_id work_date db =
     [(el_assignment_id el, el_time_zone el, d). el \<leftarrow> eligibility db,
        el_period_id el = period_id \<and> el_company_id el = company_id \<and> el_branch_id el = branch_id,
        d \<leftarrow> (case work_date of None \<Rightarrow> el_dates el
            | Some wd \<Rightarrow> if wd \<in> set (el_dates el) then [wd] else [])]"

definition lifecycle_eligible_assignment_days ::
  "(string \<Rightarrow> date \<Rightarrow> int) \<Rightarrow> int \<Rightarrow> int \<Rightarrow> int \<Rightarrow> date option \<Rightarrow> int list
   \<Rightarrow> 'a roster_db_scheme \<Rightarrow> (int \<times> date) set" where
  "lifecycle_eligible_assignment_days boundary period_id company_id branch_id work_date ids db =
     (if ids = [] then {}
      else set [(asg_id a, d). a \<leftarrow> assignments db, dr \<leftarrow> drivers db, e \<leftarrow> employees db,
        pde \<leftarrow> eligibility db, (aid, zone, d) \<leftarrow> eligible_days period_id company_id branch_id work_date db,
        dr_driver_id dr = asg_driver_id a \<and> em_id e = asg_employee_id a \<and>
        el_period_id pde = period_id \<and> el_company_id pde = asg_company_id a \<and>
        el_branch_id pde = asg_branch_id a \<and> el_assignment_id pde = asg_id a \<and>
        aid = el_assignment_id pde \<and>
        asg_company_id a = company_id \<and> asg_branch_id a = branch_id \<and> asg_id a \<in> set ids \<and>
        covers_work_date boundary zone (asg_effective_from_at a) (asg_effective_to_at a) d \<and>
        (asg_end_reason a \<noteq> None \<or> dr_status dr = ''Active'') \<and>
        (em_status e = ''Active'' \<or>
          em_status e = ''Terminated'' \<and>
          (case em_termination_date e of None \<Rightarrow> False | Some t \<Rightarrow> d \<le> t)) \<and>
        employed_on e d])"

definition lifecycle_eligible_assignment_ids ::
  "(string \<Rightarrow> date \<Rightarrow> int) \<Rightarrow> int \<Rightarrow> int \<Rightarrow> int \<Rightarrow> date option \<Rightarrow> int list
   \<Rightarrow> 'a roster_db_scheme \<Rightarrow> int set" where
  "lifecycle_eligible_assignment_ids boundary period_id company_id branch_id work_date ids db =
     fst ` lifecycle_eligible_assignment_days boundary period_id company_id branch_id work_date ids db"

section \<open>The frozen roster\<close>

definition require_period_eligibility_snapshot ::
  "int \<Rightarrow> int \<Rightarrow> int \<Rightarrow> 'a roster_db_scheme \<Rightarrow> unit result" where
  "require_period_eligibility_snapshot period_id company_id branch_id db =
     guard_r (\<exists>m\<in>set (markers db). mk_period_id m = period_id \<and> mk_company_id m = company_id \<and>
                mk_branch_id m = branch_id)
       (HttpError 409 ''ELIGIBILITY_SNAPSHOT_MISSING'')"

definition get_driver_eligibility_row ::
  "int \<Rightarrow> int \<Rightarrow> int \<Rightarrow> int \<Rightarrow> 'a roster_db_scheme \<Rightarrow> eligibility_row option" where
  "get_driver_eligibility_row period_id assignment_id company_id branch_id db =
     find_first (\<lambda>el. el_period_id el = period_id \<and> el_assignment_id el = assignment_id \<and>
        el_company_id el = company_id \<and> el_branch_id el = branch_id) (eligibility db)"

definition is_snapshot_row_eligible_for_workdate :: "eligibility_row option \<Rightarrow> date \<Rightarrow> bool" where
  "is_snapshot_row_eligible_for_workdate row work_date =
     (case row of None \<Rightarrow> False
      | Some el \<Rightarrow>
          if \<not> el_is_eligible el then False
          else if el_reason el = ''IncludedByExistingData'' then False
          else work_date \<in> set (el_dates el))"

definition driver_has_existing_daily_source_on_date ::
  "int \<Rightarrow> int \<Rightarrow> date \<Rightarrow> 'a source_db_scheme \<Rightarrow> bool" where
  "driver_has_existing_daily_source_on_date period_id assignment_id work_date db \<longleftrightarrow>
     (\<exists>dl\<in>set (draft_lines db). dl_period_id dl = period_id \<and> dl_assignment_id dl = assignment_id \<and>
        dl_work_date dl = work_date \<and> dl_status dl \<noteq> ''Void'') \<or>
     (\<exists>es\<in>set (entry_states db). es_period_id es = period_id \<and> es_assignment_id es = assignment_id \<and>
        es_work_date es = work_date \<and> \<not> es_is_voided es)"

definition assert_driver_eligible_for_workdate ::
  "(string \<Rightarrow> date \<Rightarrow> int) \<Rightarrow> int \<Rightarrow> int \<Rightarrow> int \<Rightarrow> int \<Rightarrow> date \<Rightarrow> bool
   \<Rightarrow> 'a roster_db_scheme \<Rightarrow> unit result" where
  "assert_driver_eligible_for_workdate boundary company_id branch_id period_id assignment_id work_date
       allow_rescue db =
     bind_r (require_period_eligibility_snapshot period_id company_id branch_id db) (\<lambda>_.
       case get_driver_eligibility_row period_id assignment_id company_id branch_id db of
         None \<Rightarrow> Inl (HttpError 422 ''Driver has no eligibility snapshot for this period.'')
       | Some row \<Rightarrow>
           let lifecycle_eligible = assignment_id \<in> lifecycle_eligible_assignment_ids boundary
                 period_id company_id branch_id (Some work_date) [assignment_id] db in
           if is_snapshot_row_eligible_for_workdate (Some row) work_date \<and> lifecycle_eligible
           then Inr ()
           else if allow_rescue \<and>
             driver_has_existing_daily_source_on_date period_id assignment_id work_date db
           then Inr ()
           else if el_reason row = ''IncludedByExistingData''
           then Inl (HttpError 422 ''Driver is only eligible for existing saved dates. New entries on new work dates are not permitted.'')
           else Inl (HttpError 422 ''Driver is not eligible for this work date.''))"

definition assert_driver_eligible_for_period ::
  "(string \<Rightarrow> date \<Rightarrow> int) \<Rightarrow> int \<Rightarrow> int \<Rightarrow> int \<Rightarrow> int \<Rightarrow> 'a roster_db_scheme \<Rightarrow> unit result" where
  "assert_driver_eligible_for_period boundary company_id branch_id period_id assignment_id db =
     bind_r (require_period_eligibility_snapshot period_id company_id branch_id db) (\<lambda>_.
       case get_driver_eligibility_row period_id assignment_id company_id branch_id db of
         None \<Rightarrow> Inl (HttpError 422 ''Driver has no eligibility snapshot for this period.'')
       | Some row \<Rightarrow>
           if \<not> el_is_eligible row
           then Inl (HttpError 422 ''Driver is not eligible for this period.'')
           else if el_reason row = ''IncludedByExistingData''
           then Inl (HttpError 422 ''Driver is not eligible for new Bonus entries in this period.'')
           else if assignment_id \<notin> lifecycle_eligible_assignment_ids boundary
             period_id company_id branch_id None [assignment_id] db
           then Inl (HttpError 422 ''Driver is not eligible for new Bonus entries in this period.'')
           else Inr ())"

section \<open>Capture\<close>

definition roster_key :: "eligibility_row \<Rightarrow> int \<times> int" where
  "roster_key el = (el_period_id el, el_assignment_id el)"

text \<open>\<open>INSERT ... ON CONFLICT (payrollperiodid, driverassignmentid) DO NOTHING\<close>, row by row.\<close>

fun insert_missing :: "eligibility_row list \<Rightarrow> eligibility_row list \<Rightarrow> eligibility_row list" where
  "insert_missing rows [] = rows"
| "insert_missing rows (r # rs) =
     insert_missing (if roster_key r \<in> roster_key ` set rows then rows else rows @ [r]) rs"

definition captured_row ::
  "int \<Rightarrow> int \<Rightarrow> int \<Rightarrow> assignment_row \<Rightarrow> driver_row \<Rightarrow> employee_row \<Rightarrow> string \<Rightarrow> date list
   \<Rightarrow> string \<Rightarrow> string \<Rightarrow> int option \<Rightarrow> eligibility_row" where
  "captured_row company_id branch_id period_id a dr e zone dates reason src frozen_at =
     \<lparr>el_company_id = company_id, el_branch_id = branch_id, el_period_id = period_id,
      el_assignment_id = asg_id a, el_employee_id = em_id e, el_driver_number = dr_number dr,
      el_driver_name = em_full_name e, el_driver_status = dr_status dr,
      el_end_reason = asg_end_reason a, el_employment_status = em_status e,
      el_hire_date = em_hire_date e, el_termination_date = em_termination_date e,
      el_effective_from_at = asg_effective_from_at a, el_effective_to_at = asg_effective_to_at a,
      el_time_zone = zone, el_dates = dates, el_is_eligible = True, el_reason = reason,
      el_source = src, el_frozen_at = frozen_at\<rparr>"

definition reason_of_end :: "string option \<Rightarrow> string" where
  "reason_of_end end_reason =
     (if end_reason = Some ''Terminated'' then ''TerminatedHistorical''
      else if end_reason = Some ''Transferred'' then ''Transferred''
      else ''Active'')"

definition window_dates ::
  "(string \<Rightarrow> date \<Rightarrow> int) \<Rightarrow> string \<Rightarrow> period_row \<Rightarrow> assignment_row \<Rightarrow> employee_row \<Rightarrow> date list" where
  "window_dates boundary zone pp a e =
     filter (\<lambda>d. employed_on e d \<and>
         covers_work_date boundary zone (asg_effective_from_at a) (asg_effective_to_at a) d)
       [pp_start pp .. pp_end pp]"

definition period_contexts ::
  "int \<Rightarrow> int \<Rightarrow> int \<Rightarrow> string option \<Rightarrow> 'a roster_db_scheme \<Rightarrow> (period_row \<times> string) list" where
  "period_contexts period_id company_id branch_id zone_override db =
     [(pp, case zone_override of Some z \<Rightarrow> z | None \<Rightarrow> br_time_zone b).
        pp \<leftarrow> periods db, b \<leftarrow> branches db,
        br_company_id b = pp_company_id pp \<and> br_id b = pp_branch_id pp \<and>
        pp_id pp = period_id \<and> pp_company_id pp = company_id \<and> pp_branch_id pp = branch_id]"

definition generated_rows ::
  "(string \<Rightarrow> date \<Rightarrow> int) \<Rightarrow> int \<Rightarrow> int \<Rightarrow> int \<Rightarrow> string \<Rightarrow> int option \<Rightarrow> int option
   \<Rightarrow> string option \<Rightarrow> 'a roster_db_scheme \<Rightarrow> eligibility_row list" where
  "generated_rows boundary period_id company_id branch_id src frozen_at only_assignment zone_override db =
     [captured_row company_id branch_id period_id a dr e zone (window_dates boundary zone pp a e)
        (reason_of_end (asg_end_reason a)) src frozen_at.
        (pp, zone) \<leftarrow> period_contexts period_id company_id branch_id zone_override db,
        a \<leftarrow> assignments db, dr \<leftarrow> drivers db, e \<leftarrow> employees db,
        asg_company_id a = pp_company_id pp \<and> asg_branch_id a = pp_branch_id pp \<and>
        dr_driver_id dr = asg_driver_id a \<and> em_id e = asg_employee_id a \<and>
        (case only_assignment of None \<Rightarrow> True | Some i \<Rightarrow> asg_id a = i) \<and>
        (asg_end_reason a \<noteq> None \<or> dr_status dr = ''Active'') \<and>
        (em_status e = ''Active'' \<or> em_status e = ''Terminated'' \<and> em_termination_date e \<noteq> None) \<and>
        window_dates boundary zone pp a e \<noteq> []]"

definition has_daily_source :: "'a source_db_scheme \<Rightarrow> int \<Rightarrow> int \<Rightarrow> int \<Rightarrow> bool" where
  "has_daily_source db period_id company_id assignment_id \<longleftrightarrow>
     (\<exists>dl\<in>set (draft_lines db). dl_period_id dl = period_id \<and> dl_company_id dl = company_id \<and>
        dl_assignment_id dl = assignment_id \<and> dl_status dl \<noteq> ''Void'') \<or>
     (\<exists>es\<in>set (entry_states db). es_period_id es = period_id \<and> es_company_id es = company_id \<and>
        es_assignment_id es = assignment_id \<and> \<not> es_is_voided es)"

definition existing_data_rows ::
  "int \<Rightarrow> int \<Rightarrow> int \<Rightarrow> string \<Rightarrow> int option \<Rightarrow> int option \<Rightarrow> string option
   \<Rightarrow> 'a roster_db_scheme \<Rightarrow> eligibility_row list" where
  "existing_data_rows period_id company_id branch_id src frozen_at only_assignment zone_override db =
     [captured_row company_id branch_id period_id a dr e zone [] ''IncludedByExistingData'' src frozen_at.
        (pp, zone) \<leftarrow> period_contexts period_id company_id branch_id zone_override db,
        a \<leftarrow> assignments db, dr \<leftarrow> drivers db, e \<leftarrow> employees db,
        has_daily_source db (pp_id pp) (pp_company_id pp) (asg_id a) \<and>
        asg_company_id a = pp_company_id pp \<and> asg_branch_id a = pp_branch_id pp \<and>
        dr_driver_id dr = asg_driver_id a \<and> em_id e = asg_employee_id a \<and>
        (case only_assignment of None \<Rightarrow> True | Some i \<Rightarrow> asg_id a = i)]"

definition upsert_marker ::
  "int \<Rightarrow> int \<Rightarrow> int \<Rightarrow> string \<Rightarrow> int option \<Rightarrow> 'a roster_db_scheme \<Rightarrow> marker_row list" where
  "upsert_marker period_id company_id branch_id src frozen_at db =
     (if \<exists>m\<in>set (markers db). mk_period_id m = period_id then markers db
      else markers db @
        map (\<lambda>pp. \<lparr>mk_period_id = pp_id pp, mk_company_id = pp_company_id pp,
                  mk_branch_id = pp_branch_id pp, mk_source = src, mk_frozen_at = frozen_at\<rparr>)
          (filter (\<lambda>pp. pp_id pp = period_id \<and> pp_company_id pp = company_id \<and> pp_branch_id pp = branch_id)
            (periods db)))"

definition create_period_driver_eligibility_rows ::
  "(string \<Rightarrow> date \<Rightarrow> int) \<Rightarrow> int \<Rightarrow> int \<Rightarrow> int \<Rightarrow> int \<Rightarrow> string \<Rightarrow> bool \<Rightarrow> int option
   \<Rightarrow> string option \<Rightarrow> 'a roster_db_scheme \<Rightarrow> 'a roster_db_scheme" where
  "create_period_driver_eligibility_rows boundary period_id company_id branch_id now src freeze
       only_assignment zone_override db =
     (let frozen_at = (if freeze then Some now else None);
          rows1 = insert_missing (eligibility db)
            (generated_rows boundary period_id company_id branch_id src frozen_at only_assignment
              zone_override db);
          rows2 = insert_missing rows1
            (existing_data_rows period_id company_id branch_id src frozen_at only_assignment
              zone_override db)
      in db\<lparr>eligibility := rows2,
            markers := upsert_marker period_id company_id branch_id src frozen_at db\<rparr>)"

text \<open>Promotion of a Draft period: its provisional rows are dropped and captured again, frozen.\<close>

definition freeze_period_driver_eligibility_snapshot ::
  "int \<Rightarrow> int \<Rightarrow> 'a roster_db_scheme \<Rightarrow> 'a roster_db_scheme" where
  "freeze_period_driver_eligibility_snapshot period_id now db =
     db\<lparr>eligibility := map (\<lambda>el. if el_period_id el = period_id \<and> el_frozen_at el = None
            then el\<lparr>el_frozen_at := Some now\<rparr> else el) (eligibility db),
        markers := map (\<lambda>m. if mk_period_id m = period_id \<and> mk_frozen_at m = None
            then m\<lparr>mk_frozen_at := Some now\<rparr> else m) (markers db)\<rparr>"

definition regenerate_period_driver_eligibility_rows ::
  "(string \<Rightarrow> date \<Rightarrow> int) \<Rightarrow> int \<Rightarrow> int \<Rightarrow> int \<Rightarrow> int \<Rightarrow> 'a roster_db_scheme \<Rightarrow> 'a roster_db_scheme" where
  "regenerate_period_driver_eligibility_rows boundary period_id company_id branch_id now db =
     freeze_period_driver_eligibility_snapshot period_id now
       (create_period_driver_eligibility_rows boundary period_id company_id branch_id now ''Generated'' True
          None None (db\<lparr>eligibility := filter (\<lambda>el. el_period_id el \<noteq> period_id) (eligibility db)\<rparr>))"

definition source_entry_statuses :: "string list" where
  "source_entry_statuses = [''Draft'', ''Open'', ''Returned'']"

definition append_driver_assignment_to_editable_periods ::
  "(string \<Rightarrow> date \<Rightarrow> int) \<Rightarrow> int \<Rightarrow> int \<Rightarrow> int \<Rightarrow> int \<Rightarrow> 'a roster_db_scheme \<Rightarrow> 'a roster_db_scheme" where
  "append_driver_assignment_to_editable_periods boundary company_id branch_id assignment_id now db =
     foldl (\<lambda>s pp. create_period_driver_eligibility_rows boundary (pp_id pp) company_id branch_id now
          ''Generated'' (pp_status pp \<in> {''Open'', ''Returned''}) (Some assignment_id) None s)
       db
       (sort_key pp_id
         [pp. pp \<leftarrow> periods db, m \<leftarrow> markers db,
            mk_period_id m = pp_id pp \<and> pp_company_id pp = company_id \<and>
            pp_branch_id pp = branch_id \<and> pp_status pp \<in> set source_entry_statuses])"

section \<open>Boundary changes\<close>

record boundary_window =
  bw_branch_id :: int
  bw_start :: int
  bw_end :: "int option"

definition governing_zones :: "'a roster_db_scheme \<Rightarrow> period_row \<Rightarrow> branch_row \<Rightarrow> string list" where
  "governing_zones db pp br =
     br_time_zone br # map el_time_zone (filter (\<lambda>el. el_period_id el = pp_id pp) (eligibility db))"

definition touched_periods ::
  "(string \<Rightarrow> date \<Rightarrow> int) \<Rightarrow> int \<Rightarrow> boundary_window list \<Rightarrow> 'a roster_db_scheme \<Rightarrow> period_row list" where
  "touched_periods boundary company_id windows db =
     sort_key pp_id
       [pp. pp \<leftarrow> periods db, br \<leftarrow> branches db, m \<leftarrow> markers db,
          br_company_id br = pp_company_id pp \<and> br_id br = pp_branch_id pp \<and>
          mk_period_id m = pp_id pp \<and> pp_company_id pp = company_id \<and>
          (\<exists>w\<in>set windows. pp_branch_id pp = bw_branch_id w \<and>
             (\<exists>z\<in>set (governing_zones db pp br).
                ranges_overlap (bw_start w) (bw_end w) (boundary z (pp_start pp))
                  (boundary z (pp_end pp + 1))))]"

definition lock_boundary_periods ::
  "(string \<Rightarrow> date \<Rightarrow> int) \<Rightarrow> int \<Rightarrow> boundary_window list \<Rightarrow> bool \<Rightarrow> 'a roster_db_scheme
   \<Rightarrow> period_row list result" where
  "lock_boundary_periods boundary company_id windows lock_only db =
     (let touched = touched_periods boundary company_id windows db in
      if lock_only then Inr touched
      else let live = filter (\<lambda>pp. pp_status pp \<noteq> ''Cancelled'') touched;
               blocking = filter (\<lambda>pp. pp_status pp \<notin> set source_entry_statuses) live
           in if blocking \<noteq> [] then Inl (HttpError 409 ''DRIVER_ASSIGNMENT_PERIOD_NOT_EDITABLE'')
              else Inr live)"

section \<open>The roster is append-only\<close>

lemma insert_missing_append: "\<exists>new. insert_missing rows rs = rows @ new \<and> set new \<subseteq> set rs"
proof (induction rs arbitrary: rows)
  case (Cons r rs)
  show ?case
  proof (cases "roster_key r \<in> roster_key ` set rows")
    case True
    with Cons [of rows] show ?thesis by auto
  next
    case False
    from Cons [of "rows @ [r]"] obtain new where
      "insert_missing (rows @ [r]) rs = (rows @ [r]) @ new" "set new \<subseteq> set rs" by blast
    with False show ?thesis by (intro exI [of _ "r # new"]) auto
  qed
qed simp

lemma insert_missing_keys:
  "roster_key ` set (insert_missing rows rs) = roster_key ` set rows \<union> roster_key ` set rs"
  by (induction rs arbitrary: rows) auto

lemma insert_missing_distinct:
  "distinct (map roster_key rows) \<Longrightarrow> distinct (map roster_key (insert_missing rows rs))"
  by (induction rs arbitrary: rows) auto

lemma insert_missing_noop:
  "roster_key ` set rs \<subseteq> roster_key ` set rows \<Longrightarrow> insert_missing rows rs = rows"
  by (induction rs) auto

lemmas capture_defs = create_period_driver_eligibility_rows_def Let_def

lemma capture_appends:
  "\<exists>new. eligibility (create_period_driver_eligibility_rows b p c br now src fr only z db)
      = eligibility db @ new \<and>
    set new \<subseteq> set (generated_rows b p c br src (if fr then Some now else None) only z db) \<union>
      set (existing_data_rows p c br src (if fr then Some now else None) only z db)"
proof -
  let ?f = "if fr then Some now else None"
  obtain n1 where n1: "insert_missing (eligibility db) (generated_rows b p c br src ?f only z db)
      = eligibility db @ n1" "set n1 \<subseteq> set (generated_rows b p c br src ?f only z db)"
    using insert_missing_append by blast
  obtain n2 where "insert_missing (eligibility db @ n1) (existing_data_rows p c br src ?f only z db)
      = (eligibility db @ n1) @ n2" "set n2 \<subseteq> set (existing_data_rows p c br src ?f only z db)"
    using insert_missing_append by blast
  with n1 show ?thesis by (intro exI [of _ "n1 @ n2"]) (auto simp: capture_defs)
qed

lemma capture_distinct:
  "distinct (map roster_key (eligibility db)) \<Longrightarrow>
   distinct (map roster_key (eligibility (create_period_driver_eligibility_rows b p c br now src fr only z db)))"
  by (simp add: capture_defs insert_missing_distinct)

text \<open>The keys a capture writes do not depend on its label or its time.\<close>

lemma existing_data_keys:
  "roster_key ` set (existing_data_rows p c br src f only z db) =
   roster_key ` set (existing_data_rows p c br src' f' only z db)"
proof -
  have "map roster_key (existing_data_rows p c br src f only z db) =
    map roster_key (existing_data_rows p c br src' f' only z db)"
    by (simp add: existing_data_rows_def map_concat comp_def split_def if_distrib [of "map _"]
        roster_key_def captured_row_def cong: if_cong)
  then show ?thesis by (metis list.set_map)
qed

lemma generated_keys:
  "roster_key ` set (generated_rows b p c br src f only z db) =
   roster_key ` set (generated_rows b p c br src' f' only z db)"
proof -
  have "map roster_key (generated_rows b p c br src f only z db) =
    map roster_key (generated_rows b p c br src' f' only z db)"
    by (simp add: generated_rows_def map_concat comp_def split_def if_distrib [of "map _"]
        roster_key_def captured_row_def cong: if_cong)
  then show ?thesis by (metis list.set_map)
qed

lemma capture_inputs [simp]:
  "generated_rows b p c br src f only z (db\<lparr>eligibility := x, markers := m\<rparr>)
     = generated_rows b p c br src f only z db"
  "existing_data_rows p c br src f only z (db\<lparr>eligibility := x, markers := m\<rparr>)
     = existing_data_rows p c br src f only z db"
  by (simp_all add: generated_rows_def existing_data_rows_def period_contexts_def has_daily_source_def)

lemma upsert_marker_twice:
  "upsert_marker p c br src f (db\<lparr>eligibility := x, markers := upsert_marker p c br src' f' db\<rparr>)
   = upsert_marker p c br src' f' db"
proof (cases "\<exists>pp\<in>set (periods db). pp_id pp = p \<and> pp_company_id pp = c \<and> pp_branch_id pp = br")
  case True
  then show ?thesis by (auto simp: upsert_marker_def ball_Un bex_Un)
next
  case False
  then have "filter (\<lambda>pp. pp_id pp = p \<and> pp_company_id pp = c \<and> pp_branch_id pp = br) (periods db) = []"
    by (auto simp: filter_empty_conv)
  then show ?thesis by (auto simp: upsert_marker_def)
qed

text \<open>A second capture of the same roster changes nothing, whatever its source label or time.\<close>

lemma capture_idempotent:
  "create_period_driver_eligibility_rows b p c br now' src' fr' only z
     (create_period_driver_eligibility_rows b p c br now src fr only z db)
   = create_period_driver_eligibility_rows b p c br now src fr only z db"
proof -
  let ?db' = "create_period_driver_eligibility_rows b p c br now src fr only z db"
  let ?f = "if fr then Some now else None" and ?f' = "if fr' then Some now' else None"
  let ?g = "generated_rows b p c br src ?f only z db" and ?g' = "generated_rows b p c br src' ?f' only z db"
  let ?e = "existing_data_rows p c br src ?f only z db" and ?e' = "existing_data_rows p c br src' ?f' only z db"
  have rows: "eligibility ?db' = insert_missing (insert_missing (eligibility db) ?g) ?e"
    by (simp add: capture_defs)
  have g: "insert_missing (eligibility ?db') ?g' = eligibility ?db'"
    unfolding rows by (rule insert_missing_noop)
      (auto simp: insert_missing_keys generated_keys [of b p c br src' ?f' only z db src ?f])
  have e: "insert_missing (eligibility ?db') ?e' = eligibility ?db'"
    unfolding rows by (rule insert_missing_noop)
      (auto simp: insert_missing_keys existing_data_keys [of p c br src' ?f' only z db src ?f])
  show ?thesis
    using g e by (simp add: capture_defs upsert_marker_twice)
qed

text \<open>What a generated row claims.\<close>

lemma generated_row_dates:
  assumes "el \<in> set (generated_rows b p c br src f only z db)"
  obtains pp a e where "pp \<in> set (periods db)" "pp_id pp = p" "a \<in> set (assignments db)"
    "asg_id a = el_assignment_id el" "asg_company_id a = c" "asg_branch_id a = br"
    "e \<in> set (employees db)" "em_id e = asg_employee_id a"
    "set (el_dates el) = {d. pp_start pp \<le> d \<and> d \<le> pp_end pp \<and> employed_on e d \<and>
       covers_work_date b (el_time_zone el) (asg_effective_from_at a) (asg_effective_to_at a) d}"
    "sorted (el_dates el)" "distinct (el_dates el)" "el_dates el \<noteq> []"
proof -
  from assms obtain pp a dr e where *: "pp \<in> set (periods db)" "pp_id pp = p" "a \<in> set (assignments db)"
    "asg_company_id a = c" "asg_branch_id a = br" "e \<in> set (employees db)" "em_id e = asg_employee_id a"
    and el: "el_assignment_id el = asg_id a"
      "el_dates el = window_dates b (el_time_zone el) pp a e" "el_dates el \<noteq> []"
    by (auto simp: generated_rows_def period_contexts_def captured_row_def)
  have "sorted (el_dates el)" "distinct (el_dates el)"
    by (simp_all add: el(2) window_dates_def sorted_filter [of id, simplified])
  with * el show thesis
    by (intro that [of pp a e]) (auto simp: window_dates_def)
qed

section \<open>The eligibility gate\<close>

lemma assert_workdate_Inr_iff:
  "assert_driver_eligible_for_workdate bd c br p a d rescue db = Inr () \<longleftrightarrow>
   (\<exists>m\<in>set (markers db). mk_period_id m = p \<and> mk_company_id m = c \<and> mk_branch_id m = br) \<and>
   (\<exists>row. get_driver_eligibility_row p a c br db = Some row \<and>
     (el_is_eligible row \<and> el_reason row \<noteq> ''IncludedByExistingData'' \<and> d \<in> set (el_dates row) \<and>
        a \<in> lifecycle_eligible_assignment_ids bd p c br (Some d) [a] db
      \<or> rescue \<and> driver_has_existing_daily_source_on_date p a d db))"
  by (auto simp: assert_driver_eligible_for_workdate_def require_period_eligibility_snapshot_def
      is_snapshot_row_eligible_for_workdate_def bind_r_Inr_iff Let_def
      split: option.splits if_splits)

text \<open>An assignment that is lifecycle-eligible on a day covers that day and its Driver works.\<close>

lemma lifecycle_eligible_daysD:
  assumes "(i, d) \<in> lifecycle_eligible_assignment_days bd p c br wd ids db"
  obtains a el dr e where "a \<in> set (assignments db)" "asg_id a = i" "i \<in> set ids"
    "asg_company_id a = c" "asg_branch_id a = br"
    "el \<in> set (eligibility db)" "el_period_id el = p" "el_assignment_id el = i" "d \<in> set (el_dates el)"
    "covers_work_date bd (el_time_zone el) (asg_effective_from_at a) (asg_effective_to_at a) d"
    "dr \<in> set (drivers db)" "dr_driver_id dr = asg_driver_id a"
    "asg_end_reason a \<noteq> None \<or> dr_status dr = ''Active''"
    "e \<in> set (employees db)" "em_id e = asg_employee_id a" "employed_on e d"
    "\<forall>x. wd = Some x \<longrightarrow> d = x"
  using assms
  by (auto simp: lifecycle_eligible_assignment_days_def eligible_days_def
      split: if_splits option.splits; blast)

end
