(* ===== verification/Minmax_Proration.thy ===== *)
theory Minmax_Proration
  imports Payable_Rounding
begin

text \<open>
  Whole-day proration of the Minimum and Maximum pay rules
  (\<open>payroll/calculation/minmax_proration.py\<close>).  The division runs in a context of 60 digits
  and is then rounded to four decimals; \<open>prorate_exact\<close> shows that the two roundings give
  the correctly rounded quotient.  Days are elements of any linear order.
\<close>

datatype minmax_status =
    APPLIED | NO_RULE | NO_SCHEDULED_DAYS | NO_ELIGIBLE_SCHEDULED_DAYS | CALENDAR_MISMATCH
  | MIN_EXCEEDS_MAX | SOURCE_AMOUNT_PRECISION | MINMAX_PERIOD_DAYS_MISSING

definition counted_days :: "'d::linorder list \<Rightarrow> 'd list \<Rightarrow> 'd list \<Rightarrow> 'd list" where
  "counted_days scheduled_days eligible_days off_reason_days =
     sorted_set (filter (\<lambda>d. d \<in> set eligible_days \<and> d \<notin> set off_reason_days) scheduled_days)"

definition coverage :: "'d::linorder list \<Rightarrow> 'd list \<Rightarrow> 'd list \<Rightarrow> int \<times> int" where
  "coverage scheduled_days eligible_days off_reason_days =
     (int (length (counted_days scheduled_days eligible_days off_reason_days)),
      int (length (remdups scheduled_days)))"

definition prorate :: "decimal \<Rightarrow> int \<Rightarrow> int \<Rightarrow> decimal result" where
  "prorate amount numerator denominator =
     (if denominator \<le> 0 \<or> \<not> (0 \<le> numerator \<and> numerator \<le> denominator)
      then Inl (ValueError ''a proration needs 0 <= numerator <= denominator and denominator > 0'')
      else if numerator = denominator then Inr amount
      else let exact = ctx_round 60 (ctx_round 60 (amount * of_int numerator) / of_int denominator)
           in quantize 60 internal_digits exact)"

definition raw_minimum_adjustment :: "decimal \<Rightarrow> decimal option \<Rightarrow> decimal" where
  "raw_minimum_adjustment base prorated_minimum =
     (case prorated_minimum of
        Some m \<Rightarrow> if base < m then dec_sub m base else 0
      | None \<Rightarrow> 0)"

definition raw_maximum_adjustment :: "decimal \<Rightarrow> decimal option \<Rightarrow> decimal" where
  "raw_maximum_adjustment base prorated_maximum =
     (case prorated_maximum of
        Some m \<Rightarrow> if m < base then dec_sub m base else 0
      | None \<Rightarrow> 0)"

section \<open>The days that count\<close>

lemma set_counted_days [simp]:
  "set (counted_days s e off) = set s \<inter> set e - set off"
  by (auto simp: counted_days_def)

lemma counted_days_sorted [simp]: "sorted (counted_days s e off)" "distinct (counted_days s e off)"
  by (simp_all add: counted_days_def)

lemma length_counted_days: "length (counted_days s e off) = card (set s \<inter> set e - set off)"
  by (metis distinct_card counted_days_sorted(2) set_counted_days)

lemma counted_le_scheduled: "length (counted_days s e off) \<le> length (remdups s)"
  unfolding length_counted_days length_remdups_card_conv
  by (intro card_mono) auto

lemma counted_mono:
  "set e \<subseteq> set e' \<Longrightarrow> set off' \<subseteq> set off \<Longrightarrow>
   length (counted_days s e off) \<le> length (counted_days s e' off')"
  unfolding length_counted_days by (intro card_mono) auto

section \<open>The prorated amount\<close>

lemma non_tie_gap:
  assumes d: "0 < d" and z: "z = of_int K / of_int d" and near: "\<bar>of_int (rhe z) - z\<bar> < 1 / 2"
  shows "\<bar>of_int (rhe z) - z\<bar> \<le> 1 / 2 - 1 / (2 * of_int d)"
proof -
  have dq: "(0::rat) < of_int d" using d by simp
  define w where "w = \<bar>2 * d * rhe z - 2 * K\<bar>"
  have w: "of_int w = 2 * of_int d * \<bar>of_int (rhe z) - z\<bar>"
  proof -
    have "of_int (2 * d * rhe z - 2 * K) = 2 * of_int d * (of_int (rhe z) - z)"
      using dq by (simp add: z field_simps)
    then have "\<bar>of_int (2 * d * rhe z - 2 * K)\<bar> = 2 * of_int d * \<bar>of_int (rhe z) - z\<bar>"
      using dq by (simp add: abs_mult)
    then show ?thesis by (simp add: w_def)
  qed
  have "(of_int w :: rat) < of_int d"
    using near dq mult_strict_left_mono [OF near, of "2 * of_int d"] by (simp add: w)
  then have "w \<le> d - 1" by simp
  then have "(of_int w :: rat) \<le> of_int d - 1" by linarith
  with w dq show ?thesis by (simp add: field_simps)
qed

lemma rhe_stable:
  assumes d: "0 < d" "d \<le> 10 ^ 6" and z: "z = of_int K / of_int d"
    and zb: "\<bar>z\<bar> \<le> 10 ^ 20"
  shows "rhe (ctx_round 60 (z / 10 ^ 4) * 10 ^ 4) = rhe z"
proof (cases z rule: rhe_cases)
  case (tie n)
  have "has_scale (0 + 1) ((of_int (2 * n + 1) :: rat) * scaled 1 5)"
    by (intro has_scale_mult has_scale_of_int has_scale_scaled)
  moreover have "(of_int (2 * n + 1) :: rat) * scaled 1 5 = z"
    by (simp add: tie scaled_def)
  ultimately have "has_scale 1 z" by simp
  then have "has_scale (1 + 4) (z * scaled 4 1)" by (intro has_scale_mult) auto
  then have "has_scale 5 (z / 10 ^ 4)" by (simp add: scaled_def)
  moreover have "\<bar>z / 10 ^ 4\<bar> * 10 ^ 5 < 10 ^ 60" using zb by simp
  ultimately have "ctx_round 60 (z / 10 ^ 4) = z / 10 ^ 4" by (rule ctx_round_exact)
  then show ?thesis by simp
next
  case near
  let ?y = "ctx_round 60 (z / 10 ^ 4) * 10 ^ 4"
  have "\<bar>ctx_round 60 (z / 10 ^ 4) - z / 10 ^ 4\<bar> \<le> \<bar>z / 10 ^ 4\<bar> / (2 * 10 ^ (60 - 1))"
    by (rule ctx_round_error) simp
  also have "\<dots> \<le> 1 / 10 ^ 40" using zb by simp
  finally have "\<bar>?y - z\<bar> \<le> 10 ^ 4 / 10 ^ 40" by (simp add: abs_if split: if_splits)
  moreover have "(10::rat) ^ 4 / 10 ^ 40 < 1 / (2 * of_int d)"
  proof -
    have "(of_int d :: rat) \<le> of_int (10 ^ 6)" using d(2) by (simp only: of_int_le_iff)
    with d(1) show ?thesis by (simp add: field_simps)
  qed
  moreover note non_tie_gap [OF d(1) z near]
  ultimately have "\<bar>of_int (rhe z) - ?y\<bar> < 1 / 2" by linarith
  then show ?thesis by (rule rhe_unique)
qed

lemma prorate_exact:
  assumes a: "has_scale 4 a" "\<bar>a\<bar> < 10 ^ 14" and n: "0 \<le> n" "n \<le> d" and d: "0 < d" "d \<le> 10 ^ 6"
  shows "prorate a n d = Inr (rounded 4 (a * of_int n / of_int d))"
proof (cases "n = d")
  case True
  with a d show ?thesis by (simp add: prorate_def rounded_exact)
next
  case False
  obtain A where A: "a = scaled 4 A" using a(1) by blast
  have dq: "(0::rat) < of_int d" and nq: "(0::rat) \<le> of_int n" "(of_int n::rat) \<le> of_int d"
    using d n by auto
  have frac: "\<bar>a * of_int n / of_int d\<bar> \<le> 10 ^ 14"
  proof -
    have "\<bar>a\<bar> * (of_int n / of_int d) \<le> 10 ^ 14 * 1"
      using a(2) nq dq by (intro mult_mono) auto
    then show ?thesis using nq dq by (simp add: abs_mult)
  qed
  have mul: "ctx_round 60 (a * of_int n) = a * of_int n"
  proof (rule ctx_round_exact)
    show "has_scale (4 + 0) (a * of_int n)" using a(1) by (intro has_scale_mult) auto
    have "\<bar>a\<bar> * of_int n \<le> 10 ^ 14 * 10 ^ 6"
    proof (rule mult_mono)
      have "(of_int n::rat) \<le> of_int (10 ^ 6)" using n d by (simp only: of_int_le_iff)
      then show "(of_int n::rat) \<le> 10 ^ 6" by simp
    qed (use a nq in auto)
    then show "\<bar>a * of_int n\<bar> * 10 ^ (4 + 0) < 10 ^ 60"
      using nq by (simp add: abs_mult)
  qed
  define z where "z = a * of_int n / of_int d * 10 ^ 4"
  have z: "z = of_int (A * n) / of_int d" by (simp add: z_def A scaled_def)
  have "\<bar>z\<bar> = \<bar>a * of_int n / of_int d\<bar> * 10 ^ 4" by (simp add: z_def abs_mult)
  also have "\<dots> \<le> 10 ^ 14 * 10 ^ 4" using frac by (rule mult_right_mono) simp
  finally have zb: "\<bar>z\<bar> \<le> 10 ^ 20" by simp
  have zq: "a * of_int n / of_int d = z / 10 ^ 4" by (simp add: z_def)
  let ?e = "ctx_round 60 (z / 10 ^ 4)"
  have "rounded 4 ?e = rounded 4 (z / 10 ^ 4)"
    using rhe_stable [OF d z zb] by (simp add: rounded_def)
  moreover have "quantize 60 internal_digits ?e = Inr (rounded 4 ?e)"
  proof -
    have "\<bar>?e - z / 10 ^ 4\<bar> \<le> \<bar>z / 10 ^ 4\<bar> / (2 * 10 ^ (60 - 1))"
      by (rule ctx_round_error) simp
    also have "\<dots> \<le> 1" using zb by simp
    finally have "\<bar>?e\<bar> \<le> \<bar>z / 10 ^ 4\<bar> + 1" by linarith
    then have "\<bar>?e * 10 ^ 4\<bar> < 10 ^ 60 - 1" using zb by (simp add: abs_mult)
    then show ?thesis unfolding internal_digits_def by (rule quantize_ok)
  qed
  ultimately show ?thesis
    using False d n by (simp add: prorate_def mul zq Let_def)
qed

lemma prorate_value_bounds:
  assumes a: "has_scale 4 a" "0 \<le> a" and n: "0 \<le> n" "n \<le> d" and d: "0 < d"
  shows "0 \<le> rounded 4 (a * of_int n / of_int d)" "rounded 4 (a * of_int n / of_int d) \<le> a"
proof -
  have dq: "(0::rat) < of_int d" and nq: "(0::rat) \<le> of_int n" "(of_int n::rat) \<le> of_int d"
    using d n by auto
  show "0 \<le> rounded 4 (a * of_int n / of_int d)"
    using a nq dq by (intro grid.rnd_nonneg) simp
  have "a * (of_int n / of_int d) \<le> a * 1"
    using a nq dq by (intro mult_left_mono) auto
  then show "rounded 4 (a * of_int n / of_int d) \<le> a"
    using a by (intro grid.rnd_below) (simp_all add: rounded_exact)
qed

lemma prorate_value_mono:
  assumes "a \<le> b" "0 \<le> n" "0 < d"
  shows "rounded 4 (a * of_int n / of_int d) \<le> rounded 4 (b * of_int n / of_int d)"
  using assms by (intro rounded_mono divide_right_mono mult_right_mono) auto

section \<open>The adjustments\<close>

lemma raw_adjustments_clamp:
  assumes "money (10 ^ 20) base"
    and "\<And>m. mn = Some m \<Longrightarrow> money (10 ^ 20) m" and "\<And>m. mx = Some m \<Longrightarrow> money (10 ^ 20) m"
    and "case (mn, mx) of (Some a, Some b) \<Rightarrow> a \<le> b | _ \<Rightarrow> True"
  shows "base + raw_minimum_adjustment base mn + raw_maximum_adjustment base mx =
    (case mn of None \<Rightarrow> (case mx of None \<Rightarrow> base | Some b \<Rightarrow> min base b)
     | Some a \<Rightarrow> (case mx of None \<Rightarrow> max base a | Some b \<Rightarrow> max a (min base b)))"
proof -
  have sub: "dec_sub m base = m - base" if "money (10 ^ 20) m" for m
    using that assms(1) by (intro dec_sub_exact) (auto simp: money_def)
  show ?thesis
    using assms sub
    by (cases mn; cases mx)
      (auto simp: raw_minimum_adjustment_def raw_maximum_adjustment_def max_def min_def)
qed

lemma raw_minimum_adjustment_sign: "0 \<le> raw_minimum_adjustment base mn"
  by (auto simp: raw_minimum_adjustment_def dec_sub_def ambient_prec_def
      intro!: ctx_round_sign split: option.splits)

end
