(* ===== verification/Calendar.thy ===== *)
theory Calendar
  imports Prelude
begin

text \<open>
  The part of \<open>datetime.date\<close> and \<open>calendar\<close> that the schedule arithmetic uses: the
  proleptic Gregorian calendar between ordinals and (year, month, day), and the same day of
  the next month with the day clipped to the month's length.  The range check of Python's
  dates (years 1 to 9999, \<open>OverflowError\<close> outside) is not modelled: a date is any ordinal.
\<close>

type_synonym ymd = "int \<times> int \<times> int"

definition is_leap :: "int \<Rightarrow> bool" where
  "is_leap y \<longleftrightarrow> 4 dvd y \<and> (\<not> 100 dvd y \<or> 400 dvd y)"

definition days_in_month :: "int \<Rightarrow> int \<Rightarrow> int" where
  "days_in_month y m =
     (if m = 2 then (if is_leap y then 29 else 28)
      else if m \<in> {4, 6, 9, 11} then 30 else 31)"

definition days_before_year :: "int \<Rightarrow> int" where
  "days_before_year y = (y - 1) * 365 + (y - 1) div 4 - (y - 1) div 100 + (y - 1) div 400"

function days_before_month :: "int \<Rightarrow> int \<Rightarrow> int" where
  "days_before_month y m =
     (if m \<le> 1 then 0 else days_before_month y (m - 1) + days_in_month y (m - 1))"
  by pat_completeness auto
termination by (relation "measure (\<lambda>(y, m). nat m)") auto

declare days_before_month.simps [simp del]

fun ymd_to_ord :: "ymd \<Rightarrow> date" where
  "ymd_to_ord (y, m, d) = days_before_year y + days_before_month y m + d"

text \<open>Month and day of the \<open>r\<close>-th day (from 0) counted from the first of month \<open>m\<close>.\<close>

function month_walk :: "int \<Rightarrow> int \<Rightarrow> int \<Rightarrow> int \<times> int" where
  "month_walk y m r =
     (if m \<ge> 12 \<or> r < days_in_month y m then (m, r + 1)
      else month_walk y (m + 1) (r - days_in_month y m))"
  by pat_completeness auto
termination by (relation "measure (\<lambda>(y, m, r). nat (12 - m))") auto

declare month_walk.simps [simp del]

definition ord_year :: "date \<Rightarrow> int \<times> int" where
  "ord_year n =
     (let n0 = n - 1;
          a = n0 div 146097; r = n0 mod 146097;
          b = min 3 (r div 36524); r1 = r - b * 36524;
          c = r1 div 1461; r2 = r1 mod 1461;
          d = min 3 (r2 div 365); r3 = r2 - d * 365
      in (400 * a + 100 * b + 4 * c + d + 1, r3))"

definition ord_to_ymd :: "date \<Rightarrow> ymd" where
  "ord_to_ymd n = (case ord_year n of (y, r) \<Rightarrow> case month_walk y 1 r of (m, d) \<Rightarrow> (y, m, d))"

definition valid_ymd :: "ymd \<Rightarrow> bool" where
  "valid_ymd = (\<lambda>(y, m, d). 1 \<le> m \<and> m \<le> 12 \<and> 1 \<le> d \<and> d \<le> days_in_month y m)"

section \<open>Ordinals and calendar days\<close>

lemma days_in_month_bounds: "28 \<le> days_in_month y m" "days_in_month y m \<le> 31"
  by (auto simp: days_in_month_def)

lemma days_before_month_1 [simp]: "days_before_month y 1 = 0"
  by (simp add: days_before_month.simps)

lemma days_before_month_Suc:
  "1 \<le> m \<Longrightarrow> days_before_month y (m + 1) = days_before_month y m + days_in_month y m"
  by (subst days_before_month.simps) simp

lemma days_before_month_12: "days_before_month y 12 = 334 + (if is_leap y then 1 else 0)"
  by (simp add: days_before_month.simps days_in_month_def)

lemma div_step: "(y::int) div k - (y - 1) div k = (if k dvd y then 1 else 0)" if "1 < k"
proof -
  have *: "y = k * (y div k) + y mod k" by simp
  show ?thesis
  proof (cases "k dvd y")
    case True
    then obtain q where q: "y = k * q" ..
    have "(k * q - 1) div k = q - 1"
      using that by (intro int_div_pos_eq [where r = "k - 1"]) (auto simp: algebra_simps)
    with q that show ?thesis by simp
  next
    case False
    then have r: "0 < y mod k" "y mod k < k"
      using that pos_mod_sign [of k y] pos_mod_bound [of k y]
      by (auto simp: dvd_eq_mod_eq_0 order_less_le)
    then have "(y - 1) div k = y div k"
      using * by (intro int_div_pos_eq [where r = "y mod k - 1"]) linarith+
    with False show ?thesis by simp
  qed
qed

lemma days_before_year_Suc:
  "days_before_year (y + 1) = days_before_year y + 365 + (if is_leap y then 1 else 0)"
proof -
  have "days_before_year (y + 1) - days_before_year y =
      365 + (y div 4 - (y - 1) div 4) - (y div 100 - (y - 1) div 100) + (y div 400 - (y - 1) div 400)"
    by (simp add: days_before_year_def algebra_simps)
  also have "\<dots> = 365 + (if is_leap y then 1 else 0)"
  proof -
    have "400 dvd y \<Longrightarrow> 100 dvd y" "100 dvd y \<Longrightarrow> 4 dvd y" by presburger+
    then show ?thesis by (auto simp: div_step is_leap_def)
  qed
  finally show ?thesis by simp
qed

lemma days_before_year_parts:
  assumes "0 \<le> b" "b \<le> 3" "0 \<le> c" "c \<le> 24" "0 \<le> d" "d \<le> 3"
  shows "days_before_year (400 * a + 100 * b + 4 * c + d + 1) = 146097 * a + 36524 * b + 1461 * c + 365 * d"
proof -
  let ?y = "400 * a + 100 * b + 4 * c + d"
  have "?y div 4 = 100 * a + 25 * b + c"
    using assms by (intro int_div_pos_eq [where r = d]) auto
  moreover have "?y div 100 = 4 * a + b"
    using assms by (intro int_div_pos_eq [where r = "4 * c + d"]) auto
  moreover have "?y div 400 = a"
    using assms by (intro int_div_pos_eq [where r = "100 * b + 4 * c + d"]) auto
  ultimately show ?thesis by (simp add: days_before_year_def)
qed

lemma dvd_offset:
  assumes "0 < s" "s \<le> k"
  shows "k dvd (k * q + s) \<longleftrightarrow> s = (k::int)"
  using assms zdvd_imp_le [of k s] dvd_add_right_iff [of k "k * q" s] by auto

lemma is_leap_parts:
  assumes "0 \<le> b" "b \<le> 3" "0 \<le> c" "c \<le> 24" "0 \<le> d" "d \<le> 3"
  shows "is_leap (400 * a + 100 * b + 4 * c + d + 1) \<longleftrightarrow> d = 3 \<and> (c < 24 \<or> b = 3)"
proof -
  have 4: "4 dvd (400 * a + 100 * b + 4 * c + d + 1) \<longleftrightarrow> d = 3"
    using dvd_offset [of "d + 1" 4 "100 * a + 25 * b + c"] assms by (simp add: algebra_simps)
  have "4 * c + d + 1 = 100 \<longleftrightarrow> c = 24 \<and> d = 3" using assms by presburger
  then have 100: "100 dvd (400 * a + 100 * b + 4 * c + d + 1) \<longleftrightarrow> c = 24 \<and> d = 3"
    using dvd_offset [of "4 * c + d + 1" 100 "4 * a + b"] assms by (simp add: algebra_simps)
  have "100 * b + 4 * c + d + 1 = 400 \<longleftrightarrow> b = 3 \<and> c = 24 \<and> d = 3" using assms by presburger
  then have 400: "400 dvd (400 * a + 100 * b + 4 * c + d + 1) \<longleftrightarrow> b = 3 \<and> c = 24 \<and> d = 3"
    using dvd_offset [of "100 * b + 4 * c + d + 1" 400 a] assms by (simp add: algebra_simps)
  show ?thesis unfolding is_leap_def 4 100 400 using assms by auto
qed

lemma ord_year_correct:
  assumes "ord_year n = (y, r)"
  shows "n = days_before_year y + r + 1" "0 \<le> r" "r < 365 + (if is_leap y then 1 else 0)"
proof -
  define n0 a r0 b r1 c r2 d where defs: "n0 = n - 1" "a = n0 div 146097" "r0 = n0 mod 146097"
    "b = min 3 (r0 div 36524)" "r1 = r0 - b * 36524" "c = r1 div 1461" "r2 = r1 mod 1461"
    "d = min 3 (r2 div 365)"
  have y: "y = 400 * a + 100 * b + 4 * c + d + 1" and r: "r = r2 - d * 365"
    using assms by (simp_all add: ord_year_def Let_def defs)
  have r0: "0 \<le> r0" "r0 < 146097" by (simp_all add: defs)
  have b: "0 \<le> b" "b \<le> 3" using r0 by (simp_all add: defs pos_imp_zdiv_nonneg_iff)
  have b': "b * 36524 \<le> r0" "r0 < (b + 1) * 36524 \<or> b = 3 \<and> r0 < 146097"
    using r0 unfolding defs(4) min_def by (auto split: if_splits)
  have r1: "0 \<le> r1" "r1 < 36524 \<or> b = 3 \<and> r1 < 36525" using b' by (auto simp: defs(5))
  have c: "0 \<le> c" "c \<le> 24" using r1 unfolding defs(6) by linarith+
  have r2: "0 \<le> r2" "r2 < 1461" "r1 = 1461 * c + r2" by (simp_all add: defs(6,7))
  have c24: "c = 24 \<Longrightarrow> b < 3 \<Longrightarrow> r2 < 1460" using r1 r2 by auto
  have d: "0 \<le> d" "d \<le> 3" using r2 by (simp_all add: defs pos_imp_zdiv_nonneg_iff)
  have d': "d * 365 \<le> r2" "r2 < (d + 1) * 365 \<or> d = 3 \<and> r2 < 1461"
    using r2 unfolding defs(8) min_def by (auto split: if_splits)
  have "n - 1 = 146097 * a + r0" by (simp add: defs)
  then show "n = days_before_year y + r + 1"
    unfolding y days_before_year_parts [OF b c d] using r2(3) by (simp add: r defs(5))
  show "0 \<le> r" using d' by (simp add: r)
  show "r < 365 + (if is_leap y then 1 else 0)"
    unfolding y is_leap_parts [OF b c d] using d' c24 b c r2 by (auto simp: r)
qed

lemma month_walk_correct:
  assumes "1 \<le> m" "m \<le> 12" "0 \<le> r" "days_before_month y m + r < 365 + (if is_leap y then 1 else 0)"
    and "month_walk y m r = (m', d)"
  shows "1 \<le> m' \<and> m' \<le> 12 \<and> 1 \<le> d \<and> d \<le> days_in_month y m' \<and>
    days_before_month y m' + d = days_before_month y m + r + 1"
  using assms
proof (induction y m r rule: month_walk.induct)
  case (1 y m r)
  show ?case
  proof (cases "m \<ge> 12 \<or> r < days_in_month y m")
    case True
    with 1 have "m' = m" "d = r + 1" by (auto simp: month_walk.simps [of y m r])
    moreover have "m = 12 \<Longrightarrow> r < 31"
      using 1 by (auto simp: days_before_month_12 split: if_splits)
    ultimately show ?thesis using True 1 by (auto simp: days_in_month_def)
  next
    case False
    with 1 have "month_walk y (m + 1) (r - days_in_month y m) = (m', d)"
      by (simp add: month_walk.simps [of y m r])
    with False 1 show ?thesis
      using days_before_month_Suc [of m y] by auto
  qed
qed

lemma ord_to_ymd_correct: "valid_ymd (ord_to_ymd n) \<and> ymd_to_ord (ord_to_ymd n) = n"
proof -
  obtain y r where yr: "ord_year n = (y, r)" by (cases "ord_year n")
  obtain m d where md: "month_walk y 1 r = (m, d)" by (cases "month_walk y 1 r")
  note oy = ord_year_correct [OF yr]
  with month_walk_correct [of 1 r y m d] md
  have mw: "1 \<le> m \<and> m \<le> 12 \<and> 1 \<le> d \<and> d \<le> days_in_month y m \<and> days_before_month y m + d = r + 1"
    by auto
  have "ord_to_ymd n = (y, m, d)" by (simp add: ord_to_ymd_def yr md)
  then show ?thesis using mw oy(1) by (simp add: valid_ymd_def)
qed

lemmas ord_to_ymd_valid = ord_to_ymd_correct [THEN conjunct1]
lemmas ymd_to_ord_to_ymd [simp] = ord_to_ymd_correct [THEN conjunct2]

section \<open>One month later\<close>

fun next_month :: "ymd \<Rightarrow> ymd" where
  "next_month (y, m, d) =
     (let month = m + 1;
          year = y + (if month > 12 then 1 else 0);
          month = (if month > 12 then 1 else month)
      in (year, month, min d (days_in_month year month)))"

lemma next_month_valid: "valid_ymd x \<Longrightarrow> valid_ymd (next_month x)"
proof (cases x)
  case (fields y m d)
  assume "valid_ymd x"
  then show ?thesis
    using days_in_month_bounds(1) [of y "m + 1"] days_in_month_bounds(1) [of "y + 1" 1]
    by (auto simp: fields valid_ymd_def Let_def)
qed

text \<open>The gap is a month's length, more or less: at least 28 days and at most 31.\<close>

lemma next_month_gap:
  assumes "valid_ymd x"
  shows "ymd_to_ord x + 28 \<le> ymd_to_ord (next_month x)" "ymd_to_ord (next_month x) \<le> ymd_to_ord x + 31"
proof -
  obtain y m d where x: "x = (y, m, d)" by (cases x)
  have v: "1 \<le> m" "m \<le> 12" "1 \<le> d" "d \<le> days_in_month y m"
    using assms by (auto simp: x valid_ymd_def)
  let ?y = "if m = 12 then y + 1 else y" and ?m = "if m = 12 then 1 else m + 1"
  have nm: "next_month x = (?y, ?m, min d (days_in_month ?y ?m))"
    using v by (auto simp: x Let_def)
  have "days_before_year ?y + days_before_month ?y ?m
      = days_before_year y + days_before_month y m + days_in_month y m"
  proof (cases "m = 12")
    case True
    then show ?thesis
      by (simp add: days_before_year_Suc days_before_month_12 days_in_month_def)
  next
    case False
    with v show ?thesis by (simp add: days_before_month_Suc)
  qed
  then have "ymd_to_ord (next_month x) - ymd_to_ord x
      = days_in_month y m + min d (days_in_month ?y ?m) - d"
    unfolding nm by (simp add: x)
  moreover have "28 \<le> days_in_month ?y ?m" "days_in_month y m \<le> 31" "28 \<le> days_in_month y m"
    using days_in_month_bounds by auto
  ultimately show "ymd_to_ord x + 28 \<le> ymd_to_ord (next_month x)"
    "ymd_to_ord (next_month x) \<le> ymd_to_ord x + 31"
    using v by (auto simp: min_def split: if_splits)
qed

definition add_month :: "date \<Rightarrow> date" where
  "add_month n = ymd_to_ord (next_month (ord_to_ymd n))"

lemma add_month_gap: "n + 28 \<le> add_month n" "add_month n \<le> n + 31"
  using next_month_gap [OF ord_to_ymd_valid [of n]] by (simp_all add: add_month_def)

lemma add_month_advance [simp]: "n < add_month n"
  using add_month_gap(1) [of n] by linarith

end
