(* ===== verification/Chronology.thy ===== *)
theory Chronology
  imports Calendar
begin

text \<open>
  Payroll schedule arithmetic (\<open>payroll_setup/chronology.py\<close>).  The abstract view of a
  schedule is its grid: the dates reached from an origin by going, again and again, to the
  day after the current period's end.  The locale \<open>period_grid\<close> proves what any such grid
  satisfies from the one fact that a period is not empty; the closed formulas and loops of
  the source are then shown to compute membership, the next and the previous start of the grid.
\<close>

section \<open>Schedules\<close>

record schedule =
  frequency :: string
  anchor_start_date :: date
  custom_interval_days :: "int option"
  normal_days_off_mask :: int

definition max_normal_days_off :: nat where "max_normal_days_off = 3"

fun bit_count :: "nat \<Rightarrow> nat" where
  "bit_count n = (if n = 0 then 0 else n mod 2 + bit_count (n div 2))"

declare bit_count.simps [simp del]

definition validate_normal_days_off_mask :: "int \<Rightarrow> unit result" where
  "validate_normal_days_off_mask days_off =
     (if \<not> (0 \<le> days_off \<and> days_off \<le> 127) then Inl (ValueError ''Invalid normal days-off mask'')
      else if max_normal_days_off < bit_count (nat days_off)
      then Inl (ValueError ''Normal days off may include at most three days'')
      else Inr ())"

definition make_schedule :: "string \<Rightarrow> date \<Rightarrow> int option \<Rightarrow> int \<Rightarrow> schedule result" where
  "make_schedule freq anchor interval days_off =
     (if freq \<notin> {''Week'', ''Biweek'', ''Month'', ''Custom''}
      then Inl (ValueError ''Unknown payroll frequency'')
      else if freq = ''Custom'' \<and> (case interval of None \<Rightarrow> True | Some n \<Rightarrow> n \<le> 0)
      then Inl (ValueError ''Custom frequency requires a positive interval'')
      else if freq \<noteq> ''Custom'' \<and> interval \<noteq> None
      then Inl (ValueError ''Non-Custom frequency must not carry a custom interval'')
      else bind_r (validate_normal_days_off_mask days_off) (\<lambda>_.
        Inr \<lparr>frequency = freq, anchor_start_date = anchor,
             custom_interval_days = interval, normal_days_off_mask = days_off\<rparr>))"

text \<open>The schedules the constructor accepts, as far as the cadence is concerned.\<close>

definition schedule_ok :: "schedule \<Rightarrow> bool" where
  "schedule_ok s \<longleftrightarrow>
     frequency s \<in> {''Week'', ''Biweek'', ''Month''} \<and> custom_interval_days s = None \<or>
     frequency s = ''Custom'' \<and> (\<exists>n > 0. custom_interval_days s = Some n)"

lemma make_schedule_ok: "make_schedule f a i m = Inr s \<Longrightarrow> schedule_ok s"
  by (auto simp: make_schedule_def schedule_ok_def bind_r_Inr_iff split: if_splits option.splits)

definition interval_days :: "schedule \<Rightarrow> int" where
  "interval_days s = (case custom_interval_days s of None \<Rightarrow> 0 | Some n \<Rightarrow> n)"

definition period_end :: "schedule \<Rightarrow> date \<Rightarrow> date" where
  "period_end s start =
     (if frequency s = ''Week'' then start + 6
      else if frequency s = ''Biweek'' then start + 13
      else if frequency s = ''Custom'' then start + (interval_days s - 1)
      else add_month start - 1)"

definition fixed_step :: "schedule \<Rightarrow> int option" where
  "fixed_step s =
     (if frequency s = ''Week'' then Some 7
      else if frequency s = ''Biweek'' then Some 14
      else custom_interval_days s)"

text \<open>\<open>while start < candidate: start = period_end(start) + 1 day\<close> of the monthly cadence.\<close>

function month_walk_to :: "date \<Rightarrow> date \<Rightarrow> date" where
  "month_walk_to start candidate =
     (if start < candidate then month_walk_to (add_month start) candidate else start)"
  by pat_completeness auto
termination
  by (relation "measure (\<lambda>(start, candidate). nat (candidate - start))")
    auto

declare month_walk_to.simps [simp del]

definition is_period_start :: "schedule \<Rightarrow> date \<Rightarrow> date option \<Rightarrow> bool" where
  "is_period_start s candidate origin =
     (let start = (case origin of Some d \<Rightarrow> d | None \<Rightarrow> anchor_start_date s) in
      if candidate < start then False
      else if frequency s \<noteq> ''Month'' then
        (let days = (if frequency s = ''Week'' then 7
                     else if frequency s = ''Biweek'' then 14 else interval_days s)
         in (candidate - start) mod days = 0)
      else month_walk_to start candidate = candidate)"

definition period_matches_schedule :: "schedule \<Rightarrow> date \<Rightarrow> date \<Rightarrow> bool" where
  "period_matches_schedule s start stop \<longleftrightarrow>
     is_period_start s start None \<and> period_end s start = stop"

text \<open>The two loops of the monthly neighbours.\<close>

function month_next_after :: "date \<Rightarrow> date \<Rightarrow> date" where
  "month_next_after start after =
     (if start \<le> after then month_next_after (add_month start) after else start)"
  by pat_completeness auto
termination
  by (relation "measure (\<lambda>(start, after). nat (after + 1 - start))")
    auto

function month_last_before :: "date option \<Rightarrow> date \<Rightarrow> date \<Rightarrow> date option" where
  "month_last_before prev start before =
     (if start < before then month_last_before (Some start) (add_month start) before else prev)"
  by pat_completeness auto
termination
  by (relation "measure (\<lambda>(prev, start, before). nat (before - start))")
    auto

declare month_next_after.simps [simp del] month_last_before.simps [simp del]

definition next_period_start :: "schedule \<Rightarrow> date \<Rightarrow> date" where
  "next_period_start s after =
     (let anchor = anchor_start_date s in
      if after < anchor then anchor
      else case fixed_step s of
        Some step \<Rightarrow> anchor + ((after - anchor) div step + 1) * step
      | None \<Rightarrow> month_next_after anchor after)"

definition previous_period_start :: "schedule \<Rightarrow> date \<Rightarrow> date option" where
  "previous_period_start s before =
     (let anchor = anchor_start_date s in
      if before \<le> anchor then None
      else case fixed_step s of
        Some step \<Rightarrow> Some (anchor + (before - anchor - 1) div step * step)
      | None \<Rightarrow> month_last_before None anchor before)"

section \<open>Grids\<close>

definition on_grid :: "(date \<Rightarrow> date) \<Rightarrow> date \<Rightarrow> date \<Rightarrow> bool" where
  "on_grid step origin d \<longleftrightarrow> (\<exists>k. d = (step ^^ k) origin)"

locale period_grid =
  fixes step :: "date \<Rightarrow> date"
  assumes advance: "x < step x"
begin

lemma iterate_grows: "x + int k \<le> (step ^^ k) x"
proof (induction k)
  case (Suc k)
  then show ?case using advance [of "(step ^^ k) x"] by simp
qed simp

lemma iterate_less: "j < k \<Longrightarrow> (step ^^ j) x < (step ^^ k) x"
proof (induction k)
  case (Suc k)
  then show ?case
    using advance [of "(step ^^ k) x"] by (cases "j = k") auto
qed simp

lemma iterate_less_iff: "(step ^^ j) x < (step ^^ k) x \<longleftrightarrow> j < k"
  using iterate_less [of j k x] iterate_less [of k j x] by (cases j k rule: linorder_cases) auto

lemma on_grid_origin [simp]: "on_grid step orig orig"
  by (auto simp: on_grid_def intro: exI [of _ 0])

lemma on_grid_step: "on_grid step orig x \<Longrightarrow> on_grid step orig (step x)"
  by (auto simp: on_grid_def intro: exI [of _ "Suc k" for k])

lemma on_grid_ge: "on_grid step orig x \<Longrightarrow> orig \<le> x"
proof -
  assume "on_grid step orig x"
  then obtain k where "x = (step ^^ k) orig" by (auto simp: on_grid_def)
  then show ?thesis using iterate_grows [of orig k] by simp
qed

lemma on_grid_shift: "on_grid step (step orig) y \<longleftrightarrow> on_grid step orig y \<and> y \<noteq> orig"
proof
  assume "on_grid step (step orig) y"
  then obtain k where "y = (step ^^ Suc k) orig" by (auto simp: on_grid_def funpow_swap1)
  then show "on_grid step orig y \<and> y \<noteq> orig"
    using iterate_less [of 0 "Suc k" orig] unfolding on_grid_def
    by (metis funpow_0 order_less_irrefl zero_less_Suc)
next
  assume "on_grid step orig y \<and> y \<noteq> orig"
  then obtain k where k: "y = (step ^^ k) orig" "k \<noteq> 0"
    by (metis on_grid_def funpow_0)
  then obtain j where "k = Suc j" by (cases k) auto
  with k have "y = (step ^^ j) (step orig)" by (simp add: funpow_swap1)
  then show "on_grid step (step orig) y" by (auto simp: on_grid_def)
qed

text \<open>Consecutive grid dates: nothing of the grid lies strictly between a date and its step.\<close>

lemma on_grid_gap:
  assumes "on_grid step orig x" "on_grid step orig y" "x < y"
  shows "step x \<le> y"
proof -
  obtain j k where x: "x = (step ^^ j) orig" and y: "y = (step ^^ k) orig"
    using assms by (auto simp: on_grid_def)
  with assms(3) have "Suc j \<le> k" using iterate_less_iff by force
  then show ?thesis
    using iterate_less [of "Suc j" k orig] x y by (cases "Suc j = k") auto
qed

text \<open>Every date from the origin on lies in exactly one period of the grid.\<close>

lemma partition:
  assumes "orig \<le> d"
  shows "\<exists>!x. on_grid step orig x \<and> x \<le> d \<and> d < step x"
proof -
  define P where "P k \<longleftrightarrow> (step ^^ k) orig \<le> d" for k
  have bound: "P k \<Longrightarrow> k \<le> nat (d - orig)" for k
    using iterate_grows [of orig k] by (simp add: P_def)
  have "P 0" using assms by (simp add: P_def)
  then obtain k where k: "P k" and max: "\<And>j. P j \<Longrightarrow> j \<le> k"
    using bound by (metis (no_types, lifting) GreatestI_nat Greatest_le_nat)
  have "\<not> P (Suc k)" using max by force
  with k have ex: "on_grid step orig ((step ^^ k) orig) \<and> (step ^^ k) orig \<le> d \<and> d < step ((step ^^ k) orig)"
    by (auto simp: P_def on_grid_def)
  show ?thesis
  proof (rule ex1I [where a = "(step ^^ k) orig"])
    show "on_grid step orig ((step ^^ k) orig) \<and> (step ^^ k) orig \<le> d \<and> d < step ((step ^^ k) orig)"
      by (rule ex)
  next
    fix x assume x: "on_grid step orig x \<and> x \<le> d \<and> d < step x"
    show "x = (step ^^ k) orig"
      using ex x on_grid_gap [of orig x "(step ^^ k) orig"] on_grid_gap [of orig "(step ^^ k) orig" x]
      by (cases x "(step ^^ k) orig" rule: linorder_cases) force+
  qed
qed

text \<open>A date is the next one after \<open>a\<close> when its predecessor is at or before \<open>a\<close>.\<close>

lemma next_unique:
  assumes "on_grid step orig x" "x \<le> a" "a < step x"
  shows "on_grid step orig (step x) \<and> a < step x \<and> (\<forall>y. on_grid step orig y \<and> a < y \<longrightarrow> step x \<le> y)"
  using assms on_grid_step on_grid_gap by force

end

text \<open>The step of a schedule: the day after the period that starts here.\<close>

definition period_step :: "schedule \<Rightarrow> date \<Rightarrow> date" where
  "period_step s x = period_end s x + 1"

interpretation month_grid: period_grid add_month
  by unfold_locales simp

interpretation fixed_grid: period_grid "\<lambda>x. x + int (Suc n)" for n
  by unfold_locales simp

lemma period_step_month: "frequency s = ''Month'' \<Longrightarrow> period_step s = add_month"
  by (auto simp: period_step_def period_end_def)

lemma period_step_fixed:
  assumes "schedule_ok s" "frequency s \<noteq> ''Month''"
  obtains n where "period_step s = (\<lambda>x. x + int (Suc n))" "fixed_step s = Some (int (Suc n))"
    "(if frequency s = ''Week'' then 7 else if frequency s = ''Biweek'' then 14
      else interval_days s) = int (Suc n)"
proof -
  from assms consider "frequency s = ''Week''" | "frequency s = ''Biweek''"
    | n where "frequency s = ''Custom''" "custom_interval_days s = Some n" "0 < n"
    by (auto simp: schedule_ok_def)
  then show thesis
  proof cases
    case 1 then show thesis
      by (intro that [of 6]) (auto simp: period_step_def period_end_def fixed_step_def)
  next
    case 2 then show thesis
      by (intro that [of 13]) (auto simp: period_step_def period_end_def fixed_step_def)
  next
    case 3 then show thesis
      by (intro that [of "nat n - 1"])
        (auto simp: period_step_def period_end_def fixed_step_def interval_days_def)
  qed
qed

lemma schedule_grid: "schedule_ok s \<Longrightarrow> period_grid (period_step s)"
proof (cases "frequency s = ''Month''")
  case True
  then show ?thesis by (simp add: period_step_month month_grid.period_grid_axioms)
next
  case False
  assume "schedule_ok s"
  then obtain n where "period_step s = (\<lambda>x. x + int (Suc n))"
    using False by (rule period_step_fixed)
  then show ?thesis by (simp only: fixed_grid.period_grid_axioms)
qed

lemma iterate_fixed: "((\<lambda>x. x + d) ^^ k) orig = orig + int k * d"
  by (induction k) (auto simp: algebra_simps)

lemma on_grid_fixed:
  assumes "orig \<le> c"
  shows "on_grid (\<lambda>x. x + int (Suc n)) orig c \<longleftrightarrow> (c - orig) mod int (Suc n) = 0"
proof
  assume "on_grid (\<lambda>x. x + int (Suc n)) orig c"
  then show "(c - orig) mod int (Suc n) = 0" by (auto simp: on_grid_def iterate_fixed)
next
  assume "(c - orig) mod int (Suc n) = 0"
  then obtain q where q: "c - orig = int (Suc n) * q" by (auto simp: mod_eq_0_iff_dvd dvd_def)
  with assms have "0 \<le> q" by (metis diff_ge_0_iff_ge of_nat_0_less_iff zero_le_mult_iff
        zero_less_Suc linorder_not_le)
  with q have "c = orig + int (nat q) * int (Suc n)" by (simp add: algebra_simps)
  then show "on_grid (\<lambda>x. x + int (Suc n)) orig c" unfolding on_grid_def iterate_fixed by blast
qed

lemma month_walk_to_grid:
  "on_grid add_month start (month_walk_to start c) \<and> c \<le> month_walk_to start c \<and>
   (start \<le> c \<longrightarrow> (\<forall>y. on_grid add_month start y \<and> c \<le> y \<longrightarrow> month_walk_to start c \<le> y))"
proof (induction start c rule: month_walk_to.induct)
  case (1 start c)
  show ?case
  proof (cases "start < c")
    case False
    then have "month_walk_to start c = start" by (simp add: month_walk_to.simps [of start c])
    with False show ?thesis by (auto dest: month_grid.on_grid_ge)
  next
    case True
    show ?thesis
    proof (cases "add_month start \<le> c")
      case ge: True
      with 1 True show ?thesis
        unfolding month_grid.on_grid_shift by (auto simp: month_walk_to.simps [of start c])
    next
      case past: False
      with True have "month_walk_to start c = add_month start"
        by (simp add: month_walk_to.simps [of start c] month_walk_to.simps [of "add_month start" c])
      with past True show ?thesis
        by (auto intro: month_grid.on_grid_step dest: month_grid.on_grid_gap [OF month_grid.on_grid_origin])
    qed
  qed
qed

section \<open>The source computes the grid\<close>

lemma is_period_start_grid:
  assumes "schedule_ok s"
  shows "is_period_start s c origin \<longleftrightarrow>
    on_grid (period_step s) (case origin of Some d \<Rightarrow> d | None \<Rightarrow> anchor_start_date s) c"
proof -
  let ?start = "case origin of Some d \<Rightarrow> d | None \<Rightarrow> anchor_start_date s"
  show ?thesis
  proof (cases "c < ?start")
    case True
    then have "\<not> on_grid (period_step s) ?start c"
      using period_grid.on_grid_ge [OF schedule_grid [OF assms]] by force
    with True show ?thesis by (simp add: is_period_start_def Let_def)
  next
    case False
    show ?thesis
    proof (cases "frequency s = ''Month''")
      case True
      have "month_walk_to ?start c = c \<longleftrightarrow> on_grid add_month ?start c"
        using month_walk_to_grid [of ?start c] False by (metis linorder_not_less order_antisym order_refl)
      with True False show ?thesis
        by (simp add: is_period_start_def Let_def period_step_month)
    next
      case fixed: False
      obtain n where n: "period_step s = (\<lambda>x. x + int (Suc n))"
        "(if frequency s = ''Week'' then 7 else if frequency s = ''Biweek'' then 14
          else interval_days s) = int (Suc n)"
        using period_step_fixed [OF assms fixed] by metis
      have "is_period_start s c origin \<longleftrightarrow> (c - ?start) mod int (Suc n) = 0"
        using False fixed unfolding is_period_start_def Let_def n(2) by simp
      also have "\<dots> \<longleftrightarrow> on_grid (period_step s) ?start c"
        using False unfolding n(1) by (intro on_grid_fixed [symmetric]) simp
      finally show ?thesis .
    qed
  qed
qed

lemma month_next_after_grid:
  "start \<le> a \<Longrightarrow> on_grid add_month start (month_next_after start a) \<and> a < month_next_after start a \<and>
   (\<forall>y. on_grid add_month start y \<and> a < y \<longrightarrow> month_next_after start a \<le> y)"
proof (induction start a rule: month_next_after.induct)
  case (1 start a)
  show ?case
  proof (cases "add_month start \<le> a")
    case True
    with 1 show ?thesis
      unfolding month_grid.on_grid_shift by (auto simp: month_next_after.simps [of start a])
  next
    case False
    with 1 have "month_next_after start a = add_month start"
      by (simp add: month_next_after.simps [of start a] month_next_after.simps [of "add_month start" a])
    with month_grid.next_unique [OF month_grid.on_grid_origin, of start a] False 1
    show ?thesis by simp
  qed
qed

lemma month_last_before_grid:
  "start < b \<Longrightarrow> \<exists>x. month_last_before prev start b = Some x \<and> on_grid add_month start x \<and> x < b \<and>
   b \<le> add_month x"
proof (induction prev start b rule: month_last_before.induct)
  case (1 prev start b)
  show ?case
  proof (cases "add_month start < b")
    case True
    with 1 show ?thesis
      unfolding month_grid.on_grid_shift by (auto simp: month_last_before.simps [of prev start b])
  next
    case False
    with 1 have "month_last_before prev start b = Some start"
      by (simp add: month_last_before.simps [of prev start b]
          month_last_before.simps [of "Some start" "add_month start" b])
    with False 1 show ?thesis by auto
  qed
qed

definition is_next_start :: "schedule \<Rightarrow> date \<Rightarrow> date \<Rightarrow> bool" where
  "is_next_start s a x \<longleftrightarrow> is_period_start s x None \<and> a < x \<and>
     (\<forall>y. is_period_start s y None \<and> a < y \<longrightarrow> x \<le> y)"

definition is_previous_start :: "schedule \<Rightarrow> date \<Rightarrow> date \<Rightarrow> bool" where
  "is_previous_start s b x \<longleftrightarrow> is_period_start s x None \<and> x < b \<and>
     (\<forall>y. is_period_start s y None \<and> y < b \<longrightarrow> y \<le> x)"

lemma next_start_from_cell:
  assumes ok: "schedule_ok s" and x: "is_period_start s x None" "x \<le> a" "a < period_step s x"
  shows "is_next_start s a (period_step s x)"
  using period_grid.next_unique [OF schedule_grid [OF ok], of "anchor_start_date s" x a] x
  unfolding is_next_start_def is_period_start_grid [OF ok] by simp

lemma previous_start_from_cell:
  assumes ok: "schedule_ok s" and x: "is_period_start s x None" "x < b" "b \<le> period_step s x"
  shows "is_previous_start s b x"
proof -
  note gap = period_grid.on_grid_gap [OF schedule_grid [OF ok], of "anchor_start_date s" x]
  show ?thesis
    using x gap unfolding is_previous_start_def is_period_start_grid [OF ok]
    by (metis linorder_not_less option.simps(4) order_less_le_trans)
qed

lemma fixed_cell:
  fixes anchor a :: int and n :: nat
  assumes "anchor \<le> a"
  defines "x \<equiv> anchor + (a - anchor) div int (Suc n) * int (Suc n)"
  shows "on_grid (\<lambda>x. x + int (Suc n)) anchor x \<and> x \<le> a \<and> a < x + int (Suc n)"
proof -
  let ?d = "int (Suc n)" and ?q = "(a - anchor) div int (Suc n)"
  have "(a - anchor) mod ?d \<ge> 0" "(a - anchor) mod ?d < ?d" by simp_all
  moreover have "a - anchor = ?q * ?d + (a - anchor) mod ?d"
    by (rule div_mult_mod_eq [symmetric])
  ultimately have "x \<le> a" "a < x + ?d" unfolding x_def by linarith+
  moreover have "0 \<le> ?q" using assms by (intro div_int_pos_iff [THEN iffD2]) auto
  then have "anchor \<le> x" by (simp add: x_def)
  then have "on_grid (\<lambda>x. x + ?d) anchor x"
    by (subst on_grid_fixed) (simp_all add: x_def)
  ultimately show ?thesis by simp
qed

lemma next_period_start_correct:
  assumes ok: "schedule_ok s"
  shows "is_next_start s a (next_period_start s a)"
proof (cases "a < anchor_start_date s")
  case True
  then show ?thesis
    using period_grid.on_grid_ge [OF schedule_grid [OF ok], of "anchor_start_date s"]
      period_grid.on_grid_origin [OF schedule_grid [OF ok], of "anchor_start_date s"]
    by (auto simp: is_next_start_def is_period_start_grid [OF ok] next_period_start_def)
next
  case False
  show ?thesis
  proof (cases "frequency s = ''Month''")
    case True
    then have "fixed_step s = None" using ok by (auto simp: schedule_ok_def fixed_step_def)
    with False month_next_after_grid [of "anchor_start_date s" a] True show ?thesis
      by (simp add: is_next_start_def is_period_start_grid [OF ok] next_period_start_def
          period_step_month)
  next
    case fixed: False
    obtain n where n: "period_step s = (\<lambda>x. x + int (Suc n))" "fixed_step s = Some (int (Suc n))"
      using period_step_fixed [OF ok fixed] by metis
    let ?x = "anchor_start_date s + (a - anchor_start_date s) div int (Suc n) * int (Suc n)"
    have "next_period_start s a = period_step s ?x"
      using False by (simp add: next_period_start_def n Let_def distrib_right del: of_nat_Suc)
    moreover have "is_next_start s a (period_step s ?x)"
      using fixed_cell [of "anchor_start_date s" a n] False
      by (intro next_start_from_cell [OF ok])
        (simp_all add: is_period_start_grid [OF ok] n del: of_nat_Suc)
    ultimately show ?thesis by simp
  qed
qed

lemma previous_period_start_correct:
  assumes ok: "schedule_ok s"
  shows "previous_period_start s b = None \<longleftrightarrow> b \<le> anchor_start_date s"
    and "previous_period_start s b = Some x \<Longrightarrow> is_previous_start s b x"
proof -
  have *: "\<exists>x. previous_period_start s b = Some x \<and> is_previous_start s b x"
    if gt: "\<not> b \<le> anchor_start_date s"
  proof (cases "frequency s = ''Month''")
    case True
    then have "fixed_step s = None" using ok by (auto simp: schedule_ok_def fixed_step_def)
    moreover obtain x where "month_last_before None (anchor_start_date s) b = Some x"
      "on_grid add_month (anchor_start_date s) x" "x < b" "b \<le> add_month x"
      using month_last_before_grid [of "anchor_start_date s" b None] gt by auto
    moreover have "is_previous_start s b x"
      using calculation True
      by (intro previous_start_from_cell [OF ok])
        (simp_all add: is_period_start_grid [OF ok] period_step_month)
    ultimately show ?thesis using gt by (simp add: previous_period_start_def)
  next
    case False
    obtain n where n: "period_step s = (\<lambda>x. x + int (Suc n))" "fixed_step s = Some (int (Suc n))"
      using period_step_fixed [OF ok False] by metis
    let ?x = "anchor_start_date s + (b - 1 - anchor_start_date s) div int (Suc n) * int (Suc n)"
    have "previous_period_start s b = Some ?x"
      using gt by (simp add: previous_period_start_def n Let_def diff_diff_eq add.commute del: of_nat_Suc)
    moreover have "is_previous_start s b ?x"
      using fixed_cell [of "anchor_start_date s" "b - 1" n] gt
      by (intro previous_start_from_cell [OF ok])
        (simp_all add: is_period_start_grid [OF ok] n del: of_nat_Suc)
    ultimately show ?thesis by simp
  qed
  show "previous_period_start s b = None \<longleftrightarrow> b \<le> anchor_start_date s"
    using * by (cases "b \<le> anchor_start_date s") (auto simp: previous_period_start_def [where before = b])
  assume "previous_period_start s b = Some x"
  then show "is_previous_start s b x"
    using * by (cases "b \<le> anchor_start_date s") (auto simp: previous_period_start_def)
qed

end
