(* ===== verification/Minmax_Evaluation.thy ===== *)
theory Minmax_Evaluation
  imports Eligibility Minmax_Proration Chronology Payable_Rounding
begin

text \<open>
  The Minimum/Maximum evaluation of a period (\<open>payroll/period_calculation.py\<close>,
  \<open>_load_effective_rules\<close>, \<open>_load_coverage_inputs\<close>, \<open>_evaluate_minmax\<close>): which rule of the
  permanent Driver applies, which days the DriverAssignment owns (a date belongs to exactly
  one tenure of a Driver, rule D1), and the raw adjustment.  Blockers and warnings are
  constructors that carry the values their sentences print.
\<close>

section \<open>Data\<close>

record pay_rule_row =
  pr_id :: int
  pr_company_id :: int
  pr_driver_id :: int
  pr_rule_type :: string
  pr_amount :: decimal
  pr_status :: string
  pr_effective_from :: date
  pr_effective_to :: "date option"
  pr_calendar_frequency :: string
  pr_calendar_anchor :: date
  pr_calendar_interval :: "int option"
  pr_calendar_branch_id :: int
  pr_calendar_version_id :: int

record period_day_row =
  pday_period_id :: int
  pday_company_id :: int
  pday_work_date :: date
  pday_is_default :: bool
  pday_is_added :: bool

record payroll_db = roster_db +
  pay_rules :: "pay_rule_row list"
  period_days :: "period_day_row list"
  company_currencies :: "(int \<times> currency_row) list"
  monetary_companies :: "int list"

record minmax_rule =
  mr_id :: int
  mr_rule_type :: string
  mr_amount :: decimal
  mr_status :: string
  mr_effective_from :: date
  mr_effective_to :: "date option"
  mr_calendar_frequency :: string
  mr_calendar_anchor :: date
  mr_calendar_interval :: "int option"
  mr_calendar_branch_id :: int
  mr_calendar_version_id :: int
  mr_prorated :: "decimal option"

datatype blocker =
    DuplicateSourceLines "(int \<times> date \<times> int \<times> nat) list"
  | IneligibleSourceLines "(int \<times> date) list"
  | CompanyCurrencyRequired
  | CalendarMismatch string int string date date
  | RuleAmountPrecision string int decimal int
  | MinimumExceedsMaximum decimal decimal
  | PeriodDaysMissing "int list"
  | BonusAmountPrecision int decimal int
  | ManagerReviewRequired
  | DriverBlocker int blocker

datatype warning = NoFinancialSources | NoScheduledDays int int "(string \<times> int) list"

record minmax_proration =
  mp_assignment_id :: int
  mp_driver_id :: int
  mp_period_id :: int
  mp_branch_id :: int
  mp_status :: minmax_status
  mp_base_amount :: decimal
  mp_numerator :: "int option"
  mp_denominator :: "int option"
  mp_minimum_rule :: "minmax_rule option"
  mp_maximum_rule :: "minmax_rule option"
  mp_scheduled_dates :: "date list"
  mp_counted_dates :: "date list"

record minmax_outcome =
  mo_proration :: minmax_proration
  mo_raw_minimum :: decimal
  mo_raw_maximum :: decimal
  mo_blockers :: "blocker list"
  mo_warnings :: "warning list"

section \<open>Effective rules\<close>

definition minmax_rule_from_row :: "pay_rule_row \<Rightarrow> minmax_rule" where
  "minmax_rule_from_row row =
     \<lparr>mr_id = pr_id row, mr_rule_type = pr_rule_type row, mr_amount = pr_amount row,
      mr_status = pr_status row, mr_effective_from = pr_effective_from row,
      mr_effective_to = pr_effective_to row, mr_calendar_frequency = pr_calendar_frequency row,
      mr_calendar_anchor = pr_calendar_anchor row, mr_calendar_interval = pr_calendar_interval row,
      mr_calendar_branch_id = pr_calendar_branch_id row,
      mr_calendar_version_id = pr_calendar_version_id row, mr_prorated = None\<rparr>"

definition rule_in_effect :: "int \<Rightarrow> int list \<Rightarrow> date \<Rightarrow> pay_rule_row \<Rightarrow> bool" where
  "rule_in_effect company_id driver_ids as_of r \<longleftrightarrow>
     pr_company_id r = company_id \<and> pr_driver_id r \<in> set driver_ids \<and>
     pr_rule_type r \<in> {''MinimumPay'', ''MaximumPay''} \<and> pr_status r \<in> {''Active'', ''Ended''} \<and>
     in_window (pr_effective_from r) (pr_effective_to r) as_of"

text \<open>\<open>DISTINCT ON (driverid, ruletype) ... ORDER BY driverid, ruletype, effectivefrom DESC\<close>.\<close>

definition load_effective_rules ::
  "int \<Rightarrow> int list \<Rightarrow> date \<Rightarrow> 'a payroll_db_scheme \<Rightarrow> int \<times> string \<Rightarrow> minmax_rule option" where
  "load_effective_rules company_id driver_ids as_of db =
     (\<lambda>(driver, rule_type). map_option minmax_rule_from_row
        (find_first (\<lambda>r. pr_driver_id r = driver \<and> pr_rule_type r = rule_type)
          (sort_key (\<lambda>r. - pr_effective_from r)
            (filter (rule_in_effect company_id driver_ids as_of) (pay_rules db)))))"

section \<open>Owned, eligible and off days\<close>

definition later_tenure :: "assignment_row \<Rightarrow> assignment_row \<Rightarrow> bool" where
  "later_tenure y x \<longleftrightarrow>
     asg_company_id y = asg_company_id x \<and> asg_driver_id y = asg_driver_id x \<and> asg_id y \<noteq> asg_id x \<and>
     (asg_effective_from_at x < asg_effective_from_at y \<or>
      asg_effective_from_at y = asg_effective_from_at x \<and> asg_id x < asg_id y)"

definition claims_frozen :: "'a roster_db_scheme \<Rightarrow> assignment_row \<Rightarrow> date \<Rightarrow> bool" where
  "claims_frozen db y d \<longleftrightarrow>
     (\<exists>e\<in>set (eligibility db). \<exists>p\<in>set (periods db).
        pp_id p = el_period_id e \<and> el_assignment_id e = asg_id y \<and> pp_status p \<noteq> ''Cancelled'' \<and>
        el_is_eligible e \<and> el_reason e \<noteq> ''IncludedByExistingData'' \<and> d \<in> set (el_dates e))"

definition captured_on :: "'a roster_db_scheme \<Rightarrow> assignment_row \<Rightarrow> date \<Rightarrow> bool" where
  "captured_on db y d \<longleftrightarrow>
     (\<exists>p\<in>set (periods db). \<exists>m\<in>set (markers db).
        mk_period_id m = pp_id p \<and> mk_company_id m = pp_company_id p \<and> mk_branch_id m = pp_branch_id p \<and>
        pp_company_id p = asg_company_id y \<and> pp_branch_id p = asg_branch_id y \<and>
        pp_status p \<noteq> ''Cancelled'' \<and> pp_start p \<le> d \<and> d \<le> pp_end p)"

definition claims_live ::
  "(string \<Rightarrow> date \<Rightarrow> int) \<Rightarrow> 'a roster_db_scheme \<Rightarrow> assignment_row \<Rightarrow> date \<Rightarrow> bool" where
  "claims_live boundary db y d \<longleftrightarrow>
     (\<exists>b\<in>set (branches db). br_company_id b = asg_company_id y \<and> br_id b = asg_branch_id y \<and>
        covers_work_date boundary (br_time_zone b) (asg_effective_from_at y) (asg_effective_to_at y) d)"

definition owns_date ::
  "(string \<Rightarrow> date \<Rightarrow> int) \<Rightarrow> 'a roster_db_scheme \<Rightarrow> assignment_row \<Rightarrow> date \<Rightarrow> bool" where
  "owns_date boundary db x d \<longleftrightarrow>
     \<not> (\<exists>y\<in>set (assignments db). later_tenure y x \<and>
          (claims_frozen db y d \<or> \<not> captured_on db y d \<and> claims_live boundary db y d))"

definition day_rows_of :: "int \<Rightarrow> int \<Rightarrow> 'a payroll_db_scheme \<Rightarrow> period_day_row list" where
  "day_rows_of period_id company_id db =
     filter (\<lambda>p. pday_period_id p = period_id \<and> pday_company_id p = company_id) (period_days db)"

definition scheduled_days_of :: "period_day_row list \<Rightarrow> date list" where
  "scheduled_days_of rows =
     remdups (map pday_work_date (filter (\<lambda>p. pday_is_default p \<or> pday_is_added p) rows))"

definition owned_days ::
  "(string \<Rightarrow> date \<Rightarrow> int) \<Rightarrow> int \<Rightarrow> date list \<Rightarrow> 'a payroll_db_scheme \<Rightarrow> int \<Rightarrow> date list" where
  "owned_days boundary company_id days db assignment_id =
     [d. x \<leftarrow> assignments db, asg_company_id x = company_id \<and> asg_id x = assignment_id,
         d \<leftarrow> days, owns_date boundary db x d]"

definition snapshot_row_of ::
  "int \<Rightarrow> int \<Rightarrow> 'a payroll_db_scheme \<Rightarrow> int \<Rightarrow> eligibility_row option" where
  "snapshot_row_of period_id company_id db assignment_id =
     find_first (\<lambda>el. el_period_id el = period_id \<and> el_company_id el = company_id \<and>
        el_assignment_id el = assignment_id) (eligibility db)"

definition eligible_days_of ::
  "(string \<Rightarrow> date \<Rightarrow> int) \<Rightarrow> int \<Rightarrow> int \<Rightarrow> date list \<Rightarrow> 'a payroll_db_scheme \<Rightarrow> int \<Rightarrow> date list" where
  "eligible_days_of boundary period_id company_id scheduled db assignment_id =
     filter (is_snapshot_row_eligible_for_workdate (snapshot_row_of period_id company_id db assignment_id))
       (owned_days boundary company_id scheduled db assignment_id)"

definition off_days_of :: "int \<Rightarrow> int \<Rightarrow> 'a payroll_db_scheme \<Rightarrow> int \<Rightarrow> date list" where
  "off_days_of period_id company_id db assignment_id =
     [es_work_date es. es \<leftarrow> entry_states db, sk \<leftarrow> status_keys db,
        es_status_key_id es = Some (sk_id sk) \<and>
        es_period_id es = period_id \<and> es_company_id es = company_id \<and>
        es_assignment_id es = assignment_id \<and> \<not> es_is_voided es \<and>
        (if es_finalized_at es \<noteq> None then es_off_reason_snapshot es = Some True
         else sk_is_off_reason sk)]"

definition load_coverage_inputs ::
  "(string \<Rightarrow> date \<Rightarrow> int) \<Rightarrow> period_row \<Rightarrow> int \<Rightarrow> int list \<Rightarrow> 'a payroll_db_scheme
   \<Rightarrow> bool \<times> date list \<times> (int \<Rightarrow> date list) \<times> (int \<Rightarrow> date list)" where
  "load_coverage_inputs boundary period company_id ids db =
     (let rows = day_rows_of (pp_id period) company_id db;
          scheduled = scheduled_days_of rows
      in if scheduled = [] then (rows \<noteq> [], scheduled, (\<lambda>_. []), (\<lambda>_. []))
         else (True, scheduled,
           (\<lambda>a. if a \<in> set ids
                then eligible_days_of boundary (pp_id period) company_id scheduled db a else []),
           (\<lambda>a. if a \<in> set ids then off_days_of (pp_id period) company_id db a else [])))"

section \<open>Evaluation of one DriverAssignment\<close>

definition proration_of ::
  "period_row \<Rightarrow> int \<Rightarrow> int \<Rightarrow> decimal \<Rightarrow> minmax_status \<Rightarrow> minmax_proration" where
  "proration_of period assignment_id driver_id base status =
     \<lparr>mp_assignment_id = assignment_id, mp_driver_id = driver_id, mp_period_id = pp_id period,
      mp_branch_id = pp_branch_id period, mp_status = status, mp_base_amount = base,
      mp_numerator = None, mp_denominator = None, mp_minimum_rule = None, mp_maximum_rule = None,
      mp_scheduled_dates = [], mp_counted_dates = []\<rparr>"

definition outcome_of :: "minmax_proration \<Rightarrow> minmax_outcome" where
  "outcome_of p = \<lparr>mo_proration = p, mo_raw_minimum = 0, mo_raw_maximum = 0,
     mo_blockers = [], mo_warnings = []\<rparr>"

definition labelled_rules :: "minmax_rule option \<Rightarrow> minmax_rule option \<Rightarrow> (string \<times> minmax_rule) list" where
  "labelled_rules minimum maximum =
     (case minimum of None \<Rightarrow> [] | Some r \<Rightarrow> [(''Minimum'', r)]) @
     (case maximum of None \<Rightarrow> [] | Some r \<Rightarrow> [(''Maximum'', r)])"

definition rule_matches_period :: "period_row \<Rightarrow> minmax_rule \<Rightarrow> bool result" where
  "rule_matches_period period r =
     map_r (\<lambda>s. period_matches_schedule s (pp_start period) (pp_end period))
       (make_schedule (mr_calendar_frequency r) (mr_calendar_anchor r) (mr_calendar_interval r) 0)"

fun mismatched_rules ::
  "period_row \<Rightarrow> (string \<times> minmax_rule) list \<Rightarrow> (string \<times> minmax_rule) list result" where
  "mismatched_rules period [] = Inr []"
| "mismatched_rules period ((label, r) # rs) =
     bind_r (rule_matches_period period r) (\<lambda>ok.
       map_r (\<lambda>rest. if ok then rest else (label, r) # rest) (mismatched_rules period rs))"

fun precision_blockers :: "int option \<Rightarrow> (string \<times> minmax_rule) list \<Rightarrow> blocker list result" where
  "precision_blockers digits [] = Inr []"
| "precision_blockers digits ((label, r) # rs) =
     (case digits of None \<Rightarrow> Inr []
      | Some k \<Rightarrow> bind_r (is_payable_precision (mr_amount r) k) (\<lambda>ok.
          map_r (\<lambda>rest. if ok then rest else RuleAmountPrecision label (mr_id r) (mr_amount r) k # rest)
            (precision_blockers digits rs)))"

definition order_blockers :: "minmax_rule option \<Rightarrow> minmax_rule option \<Rightarrow> blocker list" where
  "order_blockers minimum maximum =
     (case (minimum, maximum) of
        (Some mn, Some mx) \<Rightarrow>
          if mr_amount mx < mr_amount mn
          then [MinimumExceedsMaximum (mr_amount mn) (mr_amount mx)] else []
      | _ \<Rightarrow> [])"

definition prorate_rule :: "int \<Rightarrow> int \<Rightarrow> minmax_rule option \<Rightarrow> minmax_rule option result" where
  "prorate_rule numerator denominator rule =
     (case rule of None \<Rightarrow> Inr None
      | Some r \<Rightarrow> map_r (\<lambda>p. Some (r\<lparr>mr_prorated := Some p\<rparr>))
                    (prorate (mr_amount r) numerator denominator))"

definition apply_counted_days ::
  "minmax_proration \<Rightarrow> decimal \<Rightarrow> minmax_rule option \<Rightarrow> minmax_rule option
   \<Rightarrow> date list \<Rightarrow> date list \<Rightarrow> date list \<Rightarrow> minmax_outcome result" where
  "apply_counted_days p base minimum maximum scheduled eligible off =
     (let counted = counted_days scheduled eligible off;
          numerator = int (length counted);
          denominator = int (length scheduled);
          days = p\<lparr>mp_numerator := Some numerator, mp_denominator := Some denominator,
                   mp_scheduled_dates := sorted_set scheduled, mp_counted_dates := counted\<rparr>
      in if denominator = 0 \<or> numerator = 0
         then Inr (outcome_of (days
             \<lparr>mp_status := if denominator = 0 then NO_SCHEDULED_DAYS else NO_ELIGIBLE_SCHEDULED_DAYS,
              mp_minimum_rule := minimum, mp_maximum_rule := maximum\<rparr>)
           \<lparr>mo_warnings :=
              if denominator = 0
              then [NoScheduledDays (mp_assignment_id p) (mp_driver_id p)
                     (map (\<lambda>(label, r). (label, mr_id r)) (labelled_rules minimum maximum))]
              else []\<rparr>)
         else bind_r (prorate_rule numerator denominator minimum) (\<lambda>mn.
              bind_r (prorate_rule numerator denominator maximum) (\<lambda>mx.
                Inr (outcome_of (days\<lparr>mp_status := APPLIED, mp_minimum_rule := mn, mp_maximum_rule := mx\<rparr>)
                  \<lparr>mo_raw_minimum := raw_minimum_adjustment base (Option.bind mn mr_prorated),
                   mo_raw_maximum := raw_maximum_adjustment base (Option.bind mx mr_prorated)\<rparr>))))"

definition evaluate_assignment ::
  "period_row \<Rightarrow> int option \<Rightarrow> bool \<Rightarrow> date list \<Rightarrow> date list \<Rightarrow> date list \<Rightarrow> int \<Rightarrow> int \<Rightarrow> decimal
   \<Rightarrow> minmax_rule option \<Rightarrow> minmax_rule option \<Rightarrow> minmax_outcome result" where
  "evaluate_assignment period digits has_days scheduled eligible off assignment_id driver_id base
       minimum maximum =
     (let p = proration_of period assignment_id driver_id base NO_RULE;
          ruled = (\<lambda>st. p\<lparr>mp_status := st, mp_minimum_rule := minimum, mp_maximum_rule := maximum\<rparr>);
          rules = labelled_rules minimum maximum
      in if minimum = None \<and> maximum = None then Inr (outcome_of p)
         else bind_r (mismatched_rules period rules) (\<lambda>mismatched.
           if mismatched \<noteq> []
           then Inr (outcome_of (ruled CALENDAR_MISMATCH)
             \<lparr>mo_blockers := map (\<lambda>(label, r). CalendarMismatch label (mr_id r) (mr_calendar_frequency r)
                (pp_start period) (pp_end period)) mismatched\<rparr>)
           else bind_r (precision_blockers digits rules) (\<lambda>imprecise.
             let blockers = imprecise @ order_blockers minimum maximum in
             if blockers \<noteq> []
             then Inr (outcome_of (ruled
                 (if imprecise \<noteq> [] then SOURCE_AMOUNT_PRECISION else MIN_EXCEEDS_MAX))
               \<lparr>mo_blockers := blockers\<rparr>)
             else if \<not> has_days
             then Inr (outcome_of (ruled MINMAX_PERIOD_DAYS_MISSING)
               \<lparr>mo_blockers := [PeriodDaysMissing (map (mr_id \<circ> snd) rules)]\<rparr>)
             else apply_counted_days p base minimum maximum scheduled eligible off)))"

section \<open>Evaluation of the period\<close>

type_synonym coverage_inputs = "bool \<times> date list \<times> (int \<Rightarrow> date list) \<times> (int \<Rightarrow> date list)"

definition minmax_coverage ::
  "(string \<Rightarrow> date \<Rightarrow> int) \<Rightarrow> period_row \<Rightarrow> int \<Rightarrow> (int \<times> int) list \<Rightarrow> 'a payroll_db_scheme
   \<Rightarrow> coverage_inputs" where
  "minmax_coverage boundary period company_id ruled db =
     (if ruled = [] then (False, [], (\<lambda>_. []), (\<lambda>_. []))
      else load_coverage_inputs boundary period company_id (map fst ruled) db)"

definition evaluate_owner ::
  "period_row \<Rightarrow> int option \<Rightarrow> coverage_inputs \<Rightarrow> (int \<Rightarrow> decimal)
   \<Rightarrow> (int \<times> string \<Rightarrow> minmax_rule option) \<Rightarrow> int \<times> int \<Rightarrow> (int \<times> minmax_outcome) result" where
  "evaluate_owner period digits cov bases rules = (\<lambda>(a, driver).
     case cov of (has_days, scheduled, eligible, off) \<Rightarrow>
       map_r (Pair a) (evaluate_assignment period digits has_days scheduled (eligible a) (off a)
         a driver (bases a) (rules (driver, ''MinimumPay'')) (rules (driver, ''MaximumPay''))))"

definition evaluate_minmax ::
  "(string \<Rightarrow> date \<Rightarrow> int) \<Rightarrow> period_row \<Rightarrow> int \<Rightarrow> (int \<times> int) list \<Rightarrow> (int \<Rightarrow> decimal)
   \<Rightarrow> company_currency option \<Rightarrow> 'a payroll_db_scheme \<Rightarrow> (int \<times> minmax_outcome) list result" where
  "evaluate_minmax boundary period company_id assignment_driver bases currency db =
     (let digits = map_option minor_unit_digits currency;
          owners = sort_key fst assignment_driver;
          rules = load_effective_rules company_id (map snd assignment_driver) (pp_start period) db;
          ruled = filter (\<lambda>(a, driver). rules (driver, ''MinimumPay'') \<noteq> None \<or>
                                        rules (driver, ''MaximumPay'') \<noteq> None) owners
      in mapM (evaluate_owner period digits (minmax_coverage boundary period company_id ruled db)
           bases rules) owners)"

section \<open>Rule D1: one owner per date\<close>

lemma later_tenure_total:
  "asg_company_id x = asg_company_id y \<Longrightarrow> asg_driver_id x = asg_driver_id y \<Longrightarrow>
   asg_id x \<noteq> asg_id y \<Longrightarrow> later_tenure x y \<or> later_tenure y x"
  by (auto simp: later_tenure_def)

lemma eligible_days_claim:
  assumes "d \<in> set (eligible_days_of bd (pp_id period) c days db (asg_id y))"
    and "period \<in> set (periods db)" "pp_status period \<noteq> ''Cancelled''"
  shows "claims_frozen db y d"
proof -
  from assms(1) obtain el where "el \<in> set (eligibility db)" "el_period_id el = pp_id period"
    "el_assignment_id el = asg_id y" "el_is_eligible el" "el_reason el \<noteq> ''IncludedByExistingData''"
    "d \<in> set (el_dates el)"
    by (auto simp: eligible_days_of_def is_snapshot_row_eligible_for_workdate_def snapshot_row_of_def
        split: option.splits if_splits dest!: find_first_SomeD)
  with assms(2,3) show ?thesis unfolding claims_frozen_def by metis
qed

lemma eligible_days_owned:
  assumes "d \<in> set (eligible_days_of bd pid c days db (asg_id x))"
    and "distinct (map asg_id (assignments db))" "x \<in> set (assignments db)"
  shows "owns_date bd db x d" "d \<in> set days"
proof -
  from assms(1) obtain x' where "x' \<in> set (assignments db)" "asg_id x' = asg_id x"
    "d \<in> set days" "owns_date bd db x' d"
    by (auto simp: eligible_days_of_def owned_days_def split: if_splits)
  with assms(2,3) show "owns_date bd db x d" "d \<in> set days"
    by (auto dest: inj_onD simp: distinct_map)
qed

lemma eligible_days_disjoint:
  assumes ids: "distinct (map asg_id (assignments db))"
    and xy: "x \<in> set (assignments db)" "y \<in> set (assignments db)"
      "asg_company_id x = asg_company_id y" "asg_driver_id x = asg_driver_id y" "asg_id x \<noteq> asg_id y"
    and period: "period \<in> set (periods db)" "pp_status period \<noteq> ''Cancelled''"
  shows "set (eligible_days_of bd (pp_id period) c days db (asg_id x)) \<inter>
         set (eligible_days_of bd (pp_id period) c days db (asg_id y)) = {}"
proof -
  have no: False
    if "d \<in> set (eligible_days_of bd (pp_id period) c days db (asg_id u))"
       "d \<in> set (eligible_days_of bd (pp_id period) c days db (asg_id v))"
       "later_tenure v u" "u \<in> set (assignments db)" "v \<in> set (assignments db)" for d u v
    using eligible_days_owned(1) [OF that(1) ids that(4)] eligible_days_claim [OF that(2) period] that(3,5)
    by (auto simp: owns_date_def)
  from later_tenure_total [OF xy(3-5)] xy(1,2) show ?thesis by (auto dest: no)
qed

section \<open>What an evaluation says\<close>

lemma precision_blockers_total:
  assumes "\<And>k. digits = Some k \<Longrightarrow> 0 \<le> k \<and> k \<le> 4" and "\<And>r. r \<in> snd ` set rs \<Longrightarrow> roundable (mr_amount r)"
  shows "\<exists>bs. precision_blockers digits rs = Inr bs"
  using assms
proof (induction rs)
  case (Cons x rs)
  obtain label r where [simp]: "x = (label, r)" by (cases x)
  from Cons obtain bs where bs: "precision_blockers digits rs = Inr bs" by auto
  show ?case
  proof (cases digits)
    case (Some k)
    with Cons.prems have "0 \<le> k" "k \<le> 4" "roundable (mr_amount r)" by auto
    then have "\<exists>ok. is_payable_precision (mr_amount r) k = Inr ok"
      by (auto simp: is_payable_precision_def round_payable_Finite)
    with Some bs show ?thesis by auto
  qed simp
qed simp

lemma evaluate_assignment_cases:
  assumes "evaluate_assignment period digits has_days scheduled eligible off a driver base mn mx = Inr out"
  obtains (no_rule) "mn = None" "mx = None" "out = outcome_of (proration_of period a driver base NO_RULE)"
  | (blocked) "mo_blockers out \<noteq> []" "mo_raw_minimum out = 0" "mo_raw_maximum out = 0"
      "mp_status (mo_proration out) \<in>
         {CALENDAR_MISMATCH, SOURCE_AMOUNT_PRECISION, MIN_EXCEEDS_MAX, MINMAX_PERIOD_DAYS_MISSING}"
      "mo_warnings out = []"
  | (counted) "mn \<noteq> None \<or> mx \<noteq> None" "has_days"
      "mismatched_rules period (labelled_rules mn mx) = Inr []"
      "precision_blockers digits (labelled_rules mn mx) = Inr []" "order_blockers mn mx = []"
      "apply_counted_days (proration_of period a driver base NO_RULE) base mn mx scheduled eligible off
         = Inr out"
proof (cases "mn = None \<and> mx = None")
  case True
  with assms show thesis by (intro no_rule) (auto simp: evaluate_assignment_def)
next
  case False
  with assms obtain mism where mism: "mismatched_rules period (labelled_rules mn mx) = Inr mism"
    by (auto simp: evaluate_assignment_def Let_def bind_r_Inr_iff split: if_splits)
  show thesis
  proof (cases "mism = []")
    case no_mism: False
    with False mism assms show thesis
      by (intro blocked) (auto simp: evaluate_assignment_def Let_def outcome_of_def)
  next
    case True
    with False mism assms obtain im where im: "precision_blockers digits (labelled_rules mn mx) = Inr im"
      by (auto simp: evaluate_assignment_def Let_def bind_r_Inr_iff split: if_splits)
    show thesis
    proof (cases "im @ order_blockers mn mx = [] \<and> has_days")
      case nb: True
      with False mism True im assms show thesis
        by (intro counted) (auto simp: evaluate_assignment_def Let_def)
    next
      case False
      with \<open>\<not> (mn = None \<and> mx = None)\<close> mism True im assms show thesis
        by (intro blocked)
          (auto simp: evaluate_assignment_def Let_def outcome_of_def split: if_splits)
    qed
  qed
qed

lemma outcome_of_sel [simp]:
  "mo_proration (outcome_of p) = p" "mo_raw_minimum (outcome_of p) = 0"
  "mo_raw_maximum (outcome_of p) = 0" "mo_blockers (outcome_of p) = []" "mo_warnings (outcome_of p) = []"
  by (simp_all add: outcome_of_def)

lemma apply_counted_days_cases:
  assumes "apply_counted_days p base mn mx scheduled eligible off = Inr out"
  obtains (not_counted) "mo_raw_minimum out = 0" "mo_raw_maximum out = 0" "mo_blockers out = []"
      "counted_days scheduled eligible off = []"
      "mp_status (mo_proration out) \<in> {NO_SCHEDULED_DAYS, NO_ELIGIBLE_SCHEDULED_DAYS}"
      "mp_counted_dates (mo_proration out) = []"
  | (applied) mn' mx' where "mo_blockers out = []" "mp_status (mo_proration out) = APPLIED"
      "mp_counted_dates (mo_proration out) = counted_days scheduled eligible off"
      "counted_days scheduled eligible off \<noteq> []"
      "prorate_rule (int (length (counted_days scheduled eligible off))) (int (length scheduled)) mn = Inr mn'"
      "prorate_rule (int (length (counted_days scheduled eligible off))) (int (length scheduled)) mx = Inr mx'"
      "mo_raw_minimum out = raw_minimum_adjustment base (Option.bind mn' mr_prorated)"
      "mo_raw_maximum out = raw_maximum_adjustment base (Option.bind mx' mr_prorated)"
      "mp_minimum_rule (mo_proration out) = mn'" "mp_maximum_rule (mo_proration out) = mx'"
      "mp_numerator (mo_proration out) = Some (int (length (counted_days scheduled eligible off)))"
      "mp_denominator (mo_proration out) = Some (int (length scheduled))" "scheduled \<noteq> []"
proof (cases "scheduled = [] \<or> counted_days scheduled eligible off = []")
  case True
  moreover have "scheduled = [] \<Longrightarrow> counted_days scheduled eligible off = []"
    by (simp add: counted_days_def sorted_set_def)
  ultimately show thesis using assms
    by (intro not_counted) (auto simp: apply_counted_days_def Let_def split: if_splits)
next
  case False
  with assms show thesis
    by (intro applied) (auto simp: apply_counted_days_def Let_def bind_r_Inr_iff split: if_splits)
qed

text \<open>Outside APPLIED neither rule moves any money.\<close>

lemma raw_zero_unless_applied:
  assumes "evaluate_assignment period digits has_days scheduled eligible off a driver base mn mx = Inr out"
    and "mp_status (mo_proration out) \<noteq> APPLIED"
  shows "mo_raw_minimum out = 0 \<and> mo_raw_maximum out = 0"
  using assms(1)
proof (cases rule: evaluate_assignment_cases)
  case counted
  from counted(6) show ?thesis
    by (cases rule: apply_counted_days_cases) (use assms(2) in auto)
qed (auto simp: outcome_of_def)

text \<open>Every counted day is scheduled, eligible and not off.\<close>

lemma counted_dates_subset:
  assumes "evaluate_assignment period digits has_days scheduled eligible off a driver base mn mx = Inr out"
  shows "set (mp_counted_dates (mo_proration out)) \<subseteq> set scheduled \<inter> set eligible - set off"
  using assms
proof (cases rule: evaluate_assignment_cases)
  case no_rule
  then show ?thesis by (simp add: proration_of_def)
next
  case blocked
  with assms show ?thesis
    by (auto simp: evaluate_assignment_def Let_def bind_r_Inr_iff proration_of_def outcome_of_def
        apply_counted_days_def split: if_splits)
next
  case counted
  from counted(6) show ?thesis
    by (cases rule: apply_counted_days_cases) auto
qed

lemma prorate_rule_exact:
  assumes "prorate_rule n d rule = Inr r'" "rule = Some r" "has_scale 4 (mr_amount r)"
    "\<bar>mr_amount r\<bar> < 10 ^ 14" "0 \<le> n" "n \<le> d" "0 < d" "d \<le> 10 ^ 6"
  shows "Option.bind r' mr_prorated = Some (rounded 4 (mr_amount r * of_int n / of_int d))"
  using assms prorate_exact [of "mr_amount r" n d]
  by (auto simp: prorate_rule_def)

end
