(* ===== verification/Period_Calculation.thy ===== *)
theory Period_Calculation
  imports Minmax_Evaluation
begin

text \<open>
  The live calculation packet of a period (\<open>payroll/period_calculation.py\<close>): the structural
  source blockers, the packet lines, the official components (each raw sum rounded once), the
  Minimum/Maximum adjustments and the driver totals.  A source id that the code formats as a
  string is a constructor over the values it prints; the identity of a component is a
  constructor with the fields its kind carries.
\<close>

section \<open>Packet data\<close>

datatype source_ref =
  DraftLineRef int | StatusLiveRef int date int | EntryStateRef int | BonusRef int | RuleRef int

record minmax_evidence =
  me_rule :: minmax_rule
  me_proration :: minmax_proration
  me_raw :: decimal
  me_official :: decimal

datatype evidence =
    TierEvidence "tier_contribution list"
  | StatusEvidence int string
  | BonusEvidence string "string option" int
  | MinMaxEvidence minmax_evidence

record packet_line =
  pl_source_type :: string
  pl_source_id :: source_ref
  pl_line_type :: "string option"
  pl_line_scope :: string
  pl_work_date :: "date option"
  pl_assignment_id :: int
  pl_quantity :: "decimal option"
  pl_resolved_rate :: "decimal option"
  pl_calculated_amount :: "decimal option"
  pl_needs_review :: bool
  pl_blocker_reason :: "string option"
  pl_period_definition_id :: "int option"
  pl_pay_definition_id :: "int option"
  pl_definition_name :: "string option"
  pl_calculation_status :: "calculation_status option"
  pl_rate_column_id :: "int option"
  pl_bonus_event_id :: "int option"
  pl_evidence :: "evidence option"
  pl_snapshot_source_type :: "string option"
  pl_snapshot_source_id :: "source_ref option"
  pl_snapshot_amount :: "decimal option"
  pl_rate_definition_id :: "int option"
  pl_schedule_id :: "int option"
  pl_component_id :: "int option"
  pl_schedule_status :: "string option"
  pl_effective_from :: "date option"
  pl_effective_to :: "date option"
  pl_version :: "string option"
  pl_rate_values :: "used_rate_value list"
  pl_tier_contributions :: "tier_contribution list"

record definition_identity =
  di_period_definition_id :: int
  di_pay_definition_id :: int
  di_rate_definition_id :: int
  di_method :: string
  di_method_version :: int
  di_code :: string
  di_name :: string

datatype component_identity =
    ORDINARY definition_identity
  | STATUS int string
  | BONUS
  | MINIMUM_ADJUSTMENT int
  | MAXIMUM_ADJUSTMENT int

record official_component =
  oc_identity :: component_identity
  oc_assignment_id :: int
  oc_raw :: decimal
  oc_official :: decimal
  oc_sources :: "source_ref list"
  oc_unresolved :: nat

record accumulator =
  ac_identity :: component_identity
  ac_assignment_id :: int
  ac_raw :: decimal
  ac_sources :: "source_ref list"
  ac_unresolved :: nat

record driver_total =
  dt_assignment_id :: int
  dt_driver_id :: int
  dt_employee_id :: int
  dt_driver_number :: string
  dt_driver_name :: string
  dt_daily_pay :: decimal
  dt_status_pay :: decimal
  dt_minimum_adjustment :: decimal
  dt_maximum_adjustment :: decimal
  dt_bonus_total :: decimal
  dt_expected_pay :: decimal
  dt_needs_review :: bool
  dt_blockers :: "blocker list"
  dt_lines :: "packet_line list"
  dt_components :: "official_component list"
  dt_minmax :: minmax_proration

record live_packet =
  pk_period_id :: int
  pk_company_id :: int
  pk_branch_id :: int
  pk_status :: string
  pk_blockers :: "blocker list"
  pk_warnings :: "warning list"
  pk_drivers :: "driver_total list"
  pk_total :: decimal
  pk_currency :: "company_currency option"
  pk_scheduled_dates :: "date list"

section \<open>Structural source blockers\<close>

definition active_lines :: "int \<Rightarrow> int \<Rightarrow> 'a source_db_scheme \<Rightarrow> draft_line_row list" where
  "active_lines period_id company_id db =
     filter (\<lambda>dl. dl_period_id dl = period_id \<and> dl_company_id dl = company_id \<and> dl_status dl \<noteq> ''Void'')
       (draft_lines db)"

definition line_slot :: "draft_line_row \<Rightarrow> int \<times> date \<times> int" where
  "line_slot dl = (dl_assignment_id dl, dl_work_date dl, dl_definition_id dl)"

definition duplicate_slots :: "draft_line_row list \<Rightarrow> (int \<times> date \<times> int \<times> nat) list" where
  "duplicate_slots lines =
     [(a, d, p, n). (a, d, p) \<leftarrow> remdups (map line_slot lines),
        n \<leftarrow> [length (filter (\<lambda>dl. line_slot dl = (a, d, p)) lines)], 1 < n]"

definition ineligible_lines :: "draft_line_row list \<Rightarrow> 'a roster_db_scheme \<Rightarrow> (int \<times> date) list" where
  "ineligible_lines lines db =
     map (\<lambda>dl. (dl_assignment_id dl, dl_work_date dl))
       (filter (\<lambda>dl. \<not> (\<exists>el\<in>set (eligibility db). el_period_id el = dl_period_id dl \<and>
                 el_assignment_id el = dl_assignment_id dl \<and> el_is_eligible el)) lines)"

definition validate_period_can_finalize ::
  "int \<Rightarrow> int \<Rightarrow> int \<Rightarrow> 'a roster_db_scheme \<Rightarrow> blocker list result" where
  "validate_period_can_finalize period_id company_id branch_id db =
     (let lines = active_lines period_id company_id db;
          dup = take 5 (duplicate_slots lines);
          blockers1 = (if dup \<noteq> [] then [DuplicateSourceLines dup] else [])
      in bind_r (require_period_eligibility_snapshot period_id company_id branch_id db) (\<lambda>_.
           let inel = take 5 (ineligible_lines lines db)
           in Inr (blockers1 @ (if inel \<noteq> [] then [IneligibleSourceLines inel] else []))))"

section \<open>Lines\<close>

definition calculation_blocker_reason :: "calculation_status \<Rightarrow> string option" where
  "calculation_blocker_reason status =
     (case status of
        CALCULATED \<Rightarrow> None
      | MISSING_RATE \<Rightarrow> Some ''No effective rate is assigned to this driver for this pay definition on the work date.''
      | INCOMPLETE_RATE \<Rightarrow> Some ''The effective rate assignment is missing a required value.''
      | INVALID_QUANTITY \<Rightarrow> Some ''The quantity is not valid for this pay definition's calculation method.''
      | METHOD_NOT_READY \<Rightarrow> Some ''This pay definition uses a calculation method that is not operational yet.'')"

definition status_blocker_reason :: "calculation_status \<Rightarrow> string option" where
  "status_blocker_reason status =
     (case status of
        MISSING_RATE \<Rightarrow> Some ''No effective Status rate is assigned to this driver for this Status's rate column on the work date.''
      | INCOMPLETE_RATE \<Rightarrow> Some ''The effective Status rate schedule is missing its value.''
      | _ \<Rightarrow> None)"

definition ordinary_packet_line :: "live_source_line \<Rightarrow> packet_line" where
  "ordinary_packet_line l =
     (let calc = ls_calculation l; d = ls_definition l in
      \<lparr>pl_source_type = ''DraftLine'', pl_source_id = DraftLineRef (ls_draft_line_id l),
       pl_line_type = None, pl_line_scope = ''Daily'', pl_work_date = Some (ls_work_date l),
       pl_assignment_id = ls_assignment_id l, pl_quantity = Some (ls_quantity l),
       pl_resolved_rate = dc_rate_amount calc, pl_calculated_amount = dc_amount calc,
       pl_needs_review = needs_attention calc,
       pl_blocker_reason = calculation_blocker_reason (dc_status calc),
       pl_period_definition_id = Some (pd_period_definition_id d),
       pl_pay_definition_id = Some (pd_pay_definition_id d), pl_definition_name = Some (pd_name d),
       pl_calculation_status = Some (dc_status calc), pl_rate_column_id = None,
       pl_bonus_event_id = None,
       pl_evidence = (if dc_tier_contributions calc = [] then None
                      else Some (TierEvidence (dc_tier_contributions calc))),
       pl_snapshot_source_type = Some ''DraftLine'',
       pl_snapshot_source_id = Some (DraftLineRef (ls_draft_line_id l)),
       pl_snapshot_amount = Some (case dc_amount calc of None \<Rightarrow> 0 | Some a \<Rightarrow> a),
       pl_rate_definition_id = Some (pd_rate_definition_id d),
       pl_schedule_id = dc_schedule_id calc, pl_component_id = dc_component_id calc,
       pl_schedule_status = dc_schedule_status calc, pl_effective_from = dc_effective_from calc,
       pl_effective_to = dc_effective_to calc, pl_version = dc_version calc,
       pl_rate_values = dc_rate_values calc, pl_tier_contributions = dc_tier_contributions calc\<rparr>)"

definition status_ref :: "live_status_line \<Rightarrow> source_ref" where
  "status_ref l = StatusLiveRef (st_assignment_id l) (st_work_date l) (st_status_key_id l)"

definition status_packet_line :: "live_status_line \<Rightarrow> packet_line" where
  "status_packet_line l =
     (let calc = st_calculation l in
      \<lparr>pl_source_type = ''StatusEntryState'', pl_source_id = status_ref l,
       pl_line_type = Some ''STATUS_PAY'', pl_line_scope = ''Daily'',
       pl_work_date = Some (st_work_date l), pl_assignment_id = st_assignment_id l,
       pl_quantity = Some (st_hours l), pl_resolved_rate = dc_rate_amount calc,
       pl_calculated_amount = dc_amount calc, pl_needs_review = needs_attention calc,
       pl_blocker_reason = status_blocker_reason (dc_status calc),
       pl_period_definition_id = None, pl_pay_definition_id = None, pl_definition_name = None,
       pl_calculation_status = Some (dc_status calc), pl_rate_column_id = Some (st_rate_column_id l),
       pl_bonus_event_id = None,
       pl_evidence = Some (StatusEvidence (st_status_key_id l) (st_status_code l)),
       pl_snapshot_source_type = Some ''StatusEntryState'',
       pl_snapshot_source_id = Some (EntryStateRef (st_entry_state_id l)),
       pl_snapshot_amount = dc_amount calc,
       pl_rate_definition_id = Some (st_rate_definition_id l),
       pl_schedule_id = dc_schedule_id calc, pl_component_id = dc_component_id calc,
       pl_schedule_status = dc_schedule_status calc, pl_effective_from = dc_effective_from calc,
       pl_effective_to = dc_effective_to calc, pl_version = dc_version calc,
       pl_rate_values = [], pl_tier_contributions = []\<rparr>)"

text \<open>A line with no calculation behind it: a Bonus event or a Min/Max adjustment.\<close>

definition plain_packet_line ::
  "string \<Rightarrow> source_ref \<Rightarrow> string \<Rightarrow> int \<Rightarrow> decimal option \<Rightarrow> decimal \<Rightarrow> int option \<Rightarrow> evidence \<Rightarrow> packet_line" where
  "plain_packet_line source_type source line_type assignment quantity amount bonus_event ev =
     \<lparr>pl_source_type = source_type, pl_source_id = source, pl_line_type = Some line_type,
      pl_line_scope = ''Period'', pl_work_date = None, pl_assignment_id = assignment,
      pl_quantity = quantity, pl_resolved_rate = None, pl_calculated_amount = Some amount,
      pl_needs_review = False, pl_blocker_reason = None, pl_period_definition_id = None,
      pl_pay_definition_id = None, pl_definition_name = None, pl_calculation_status = None,
      pl_rate_column_id = None, pl_bonus_event_id = bonus_event, pl_evidence = Some ev,
      pl_snapshot_source_type = None, pl_snapshot_source_id = None, pl_snapshot_amount = None,
      pl_rate_definition_id = None, pl_schedule_id = None, pl_component_id = None,
      pl_schedule_status = None, pl_effective_from = None, pl_effective_to = None,
      pl_version = None, pl_rate_values = [], pl_tier_contributions = []\<rparr>"

definition bonus_packet_line :: "bonus_row \<Rightarrow> packet_line" where
  "bonus_packet_line b =
     plain_packet_line ''BonusEvent'' (BonusRef (be_id b)) ''BONUS'' (be_assignment_id b) None
       (be_amount b) (Some (be_id b)) (BonusEvidence (be_reason b) (be_notes b) (be_data_revision b))"

definition minmax_line ::
  "string \<Rightarrow> minmax_rule \<Rightarrow> minmax_proration \<Rightarrow> decimal \<Rightarrow> decimal \<Rightarrow> packet_line" where
  "minmax_line line_type rule proration raw official =
     plain_packet_line ''System'' (RuleRef (mr_id rule)) line_type (mp_assignment_id proration)
       (Some 1) official None
       (MinMaxEvidence \<lparr>me_rule = rule, me_proration = proration, me_raw = raw, me_official = official\<rparr>)"

section \<open>Accumulation\<close>

text \<open>\<open>d.setdefault(key, new)\<close> followed by an update of the entry.\<close>

fun setdefault_update :: "'k \<Rightarrow> 'v \<Rightarrow> ('v \<Rightarrow> 'v) \<Rightarrow> ('k \<times> 'v) list \<Rightarrow> ('k \<times> 'v) list" where
  "setdefault_update k new f [] = [(k, f new)]"
| "setdefault_update k new f ((k', v) # d) =
     (if k' = k then (k', f v) # d else (k', v) # setdefault_update k new f d)"

definition new_accumulator :: "component_identity \<Rightarrow> int \<Rightarrow> accumulator" where
  "new_accumulator identity assignment =
     \<lparr>ac_identity = identity, ac_assignment_id = assignment, ac_raw = 0, ac_sources = [],
      ac_unresolved = 0\<rparr>"

definition acc_add :: "decimal option \<Rightarrow> source_ref \<Rightarrow> bool \<Rightarrow> accumulator \<Rightarrow> accumulator" where
  "acc_add amount source unresolved acc =
     acc\<lparr>ac_raw := dec_add (ac_raw acc) (case amount of None \<Rightarrow> 0 | Some a \<Rightarrow> a),
         ac_sources := ac_sources acc @ [source],
         ac_unresolved := (if unresolved then ac_unresolved acc + 1 else ac_unresolved acc)\<rparr>"

definition acc_official :: "(decimal \<Rightarrow> decimal result) \<Rightarrow> accumulator \<Rightarrow> official_component result" where
  "acc_official round_amount acc =
     map_r (\<lambda>official.
       \<lparr>oc_identity = ac_identity acc, oc_assignment_id = ac_assignment_id acc, oc_raw = ac_raw acc,
        oc_official = official, oc_sources = ac_sources acc, oc_unresolved = ac_unresolved acc\<rparr>)
       (round_amount (ac_raw acc))"

definition identity_of_definition :: "period_definition \<Rightarrow> definition_identity" where
  "identity_of_definition d =
     \<lparr>di_period_definition_id = pd_period_definition_id d, di_pay_definition_id = pd_pay_definition_id d,
      di_rate_definition_id = pd_rate_definition_id d, di_method = pd_calculation_method d,
      di_method_version = pd_calculation_method_version d, di_code = pd_code d, di_name = pd_name d\<rparr>"

definition ordinary_key :: "live_source_line \<Rightarrow> int \<times> int" where
  "ordinary_key l = (ls_assignment_id l, pd_period_definition_id (ls_definition l))"

definition accumulate_ordinary ::
  "live_source_line list \<Rightarrow> ((int \<times> int) \<times> accumulator) list" where
  "accumulate_ordinary ls =
     foldl (\<lambda>acc l. setdefault_update (ordinary_key l)
         (new_accumulator (ORDINARY (identity_of_definition (ls_definition l))) (ls_assignment_id l))
         (acc_add (dc_amount (ls_calculation l)) (DraftLineRef (ls_draft_line_id l))
           (needs_attention (ls_calculation l))) acc) [] ls"

definition status_key :: "live_status_line \<Rightarrow> int \<times> int" where
  "status_key l = (st_assignment_id l, st_rate_column_id l)"

definition accumulate_status :: "live_status_line list \<Rightarrow> ((int \<times> int) \<times> accumulator) list" where
  "accumulate_status ls =
     foldl (\<lambda>acc l. setdefault_update (status_key l)
         (new_accumulator (STATUS (st_rate_column_id l) (st_rate_column_name l)) (st_assignment_id l))
         (acc_add (dc_amount (st_calculation l)) (status_ref l) (needs_attention (st_calculation l))) acc)
       [] ls"

definition accumulate_bonus :: "bonus_row list \<Rightarrow> (int \<times> accumulator) list" where
  "accumulate_bonus bs =
     foldl (\<lambda>acc b. setdefault_update (be_assignment_id b) (new_accumulator BONUS (be_assignment_id b))
         (acc_add (Some (be_amount b)) (BonusRef (be_id b)) False) acc) [] bs"

text \<open>The one payable rounding; without a currency only zero can be official.\<close>

definition official_amount :: "int option \<Rightarrow> decimal \<Rightarrow> decimal result" where
  "official_amount digits amount =
     (case digits of
        None \<Rightarrow> if amount \<noteq> 0 then Inl currency_invariant_violation else Inr 0
      | Some k \<Rightarrow> round_payable (Finite amount) k)"

definition official_components ::
  "int option \<Rightarrow> ('k::linorder \<times> accumulator) list \<Rightarrow> official_component list result" where
  "official_components digits accs =
     mapM (acc_official (official_amount digits)) (map snd (sort_key fst accs))"

section \<open>Identities\<close>

record driver_identity =
  id_driver_id :: int
  id_employee_id :: int
  id_number :: string
  id_name :: string

definition driver_identity_of :: "int \<Rightarrow> 'a payroll_db_scheme \<Rightarrow> int \<Rightarrow> driver_identity option" where
  "driver_identity_of company_id db assignment_id =
     (case [\<lparr>id_driver_id = asg_driver_id a, id_employee_id = asg_employee_id a,
             id_number = dr_number d, id_name = em_full_name e\<rparr>.
             a \<leftarrow> assignments db, d \<leftarrow> drivers db, e \<leftarrow> employees db,
             dr_driver_id d = asg_driver_id a \<and> em_id e = asg_employee_id a \<and>
             asg_company_id a = company_id \<and> asg_id a = assignment_id] of
        [] \<Rightarrow> None
      | x # _ \<Rightarrow> Some x)"

definition get_currency_of :: "int \<Rightarrow> 'a payroll_db_scheme \<Rightarrow> company_currency option result" where
  "get_currency_of company_id db =
     get_company_currency (map_of (company_currencies db) company_id)
       (company_id \<in> set (monetary_companies db))"

section \<open>Driver totals\<close>

definition components_of :: "int \<Rightarrow> official_component list \<Rightarrow> official_component list" where
  "components_of drv cs = filter (\<lambda>c. oc_assignment_id c = drv) cs"

definition pay_of :: "int \<Rightarrow> official_component list \<Rightarrow> decimal" where
  "pay_of drv cs = dec_sum (map oc_official (components_of drv cs))"

fun bonus_precision_blockers :: "int option \<Rightarrow> bonus_row list \<Rightarrow> blocker list result" where
  "bonus_precision_blockers digits [] = Inr []"
| "bonus_precision_blockers digits (b # bs) =
     (case digits of None \<Rightarrow> Inr []
      | Some k \<Rightarrow> bind_r (is_payable_precision (be_amount b) k) (\<lambda>ok.
          map_r (\<lambda>rest. if ok then rest else BonusAmountPrecision (be_id b) (be_amount b) k # rest)
            (bonus_precision_blockers digits bs)))"

text \<open>One adjustment: the component and the line it adds, and its official amount.\<close>

definition adjustment ::
  "int option \<Rightarrow> int \<Rightarrow> minmax_proration \<Rightarrow> decimal \<Rightarrow> minmax_rule option \<Rightarrow> (int \<Rightarrow> component_identity)
   \<Rightarrow> string \<Rightarrow> (official_component list \<times> packet_line list \<times> decimal) result" where
  "adjustment digits drv proration raw rule identity line_type =
     (case rule of
        None \<Rightarrow> Inr ([], [], 0)
      | Some r \<Rightarrow>
          if raw = 0 then Inr ([], [], 0)
          else map_r (\<lambda>official.
            ([\<lparr>oc_identity = identity (mr_id r), oc_assignment_id = drv, oc_raw = raw,
               oc_official = official, oc_sources = [], oc_unresolved = 0\<rparr>],
             if official \<noteq> 0 then [minmax_line line_type r proration raw official] else [],
             official))
            (official_amount digits raw))"

record period_sources =
  so_lines :: "live_source_line list"
  so_status :: "live_status_line list"
  so_bonus :: "(bonus_row \<times> int option) list"

definition driver_lines :: "int \<Rightarrow> period_sources \<Rightarrow> packet_line list" where
  "driver_lines drv so =
     map ordinary_packet_line (filter (\<lambda>l. ls_assignment_id l = drv) (so_lines so)) @
     map status_packet_line (filter (\<lambda>l. st_assignment_id l = drv) (so_status so)) @
     map (bonus_packet_line \<circ> fst) (filter (\<lambda>(b, _). be_assignment_id b = drv) (so_bonus so))"

definition driver_needs_review :: "int \<Rightarrow> period_sources \<Rightarrow> bool" where
  "driver_needs_review drv so \<longleftrightarrow>
     (\<exists>l\<in>set (so_lines so). ls_assignment_id l = drv \<and> needs_attention (ls_calculation l)) \<or>
     (\<exists>l\<in>set (so_status so). st_assignment_id l = drv \<and> needs_attention (st_calculation l))"

definition assemble_driver ::
  "int option \<Rightarrow> (int \<Rightarrow> driver_identity option) \<Rightarrow> period_sources
   \<Rightarrow> official_component list \<Rightarrow> official_component list \<Rightarrow> official_component list
   \<Rightarrow> int \<Rightarrow> minmax_outcome \<Rightarrow> driver_total result" where
  "assemble_driver digits identities so ordinary status bonus drv evaluated =
     (let proration = mo_proration evaluated;
          bonus_rows = map fst (filter (\<lambda>(b, _). be_assignment_id b = drv) (so_bonus so))
      in bind_r (bonus_precision_blockers digits bonus_rows) (\<lambda>imprecise.
         bind_r (adjustment digits drv proration (mo_raw_minimum evaluated) (mp_minimum_rule proration)
             MINIMUM_ADJUSTMENT ''SYS_MIN_TOPUP'') (\<lambda>(mn_comps, mn_lines, mn).
         bind_r (adjustment digits drv proration (mo_raw_maximum evaluated) (mp_maximum_rule proration)
             MAXIMUM_ADJUSTMENT ''SYS_MAX_CAP'') (\<lambda>(mx_comps, mx_lines, mx).
           case identities drv of
             None \<Rightarrow> Inl KeyError
           | Some i \<Rightarrow>
             let components = components_of drv ordinary @ components_of drv status @
                   components_of drv bonus @ mn_comps @ mx_comps
             in Inr
               \<lparr>dt_assignment_id = drv, dt_driver_id = id_driver_id i, dt_employee_id = id_employee_id i,
                dt_driver_number = id_number i, dt_driver_name = id_name i,
                dt_daily_pay = pay_of drv ordinary, dt_status_pay = pay_of drv status,
                dt_minimum_adjustment = mn, dt_maximum_adjustment = mx,
                dt_bonus_total = pay_of drv bonus,
                dt_expected_pay = dec_sum (map oc_official components),
                dt_needs_review = driver_needs_review drv so,
                dt_blockers = imprecise @ mo_blockers evaluated,
                dt_lines = driver_lines drv so @ mn_lines @ mx_lines,
                dt_components = components, dt_minmax = proration\<rparr>))))"

definition driver_blockers :: "driver_total \<Rightarrow> blocker list" where
  "driver_blockers dt =
     map (DriverBlocker (dt_assignment_id dt)) (dt_blockers dt) @
     (if dt_needs_review dt then [DriverBlocker (dt_assignment_id dt) ManagerReviewRequired] else [])"

section \<open>The packet\<close>

definition load_sources :: "period_row \<Rightarrow> int \<Rightarrow> 'a payroll_db_scheme \<Rightarrow> period_sources result" where
  "load_sources period company_id db =
     bind_r (load_live_source_lines (pp_id period) company_id db None None) (\<lambda>ls.
     bind_r (load_live_status_lines (pp_id period) company_id (pp_branch_id period) db) (\<lambda>st.
     let bs = load_active_bonus_events (pp_id period) company_id db in
     if \<exists>(_, driver)\<in>set bs. driver = None then Inl (TypeError ''int(None)'')
     else Inr \<lparr>so_lines = ls, so_status = st, so_bonus = bs\<rparr>))"

definition packet_drivers :: "period_sources \<Rightarrow> int list" where
  "packet_drivers so =
     sorted_set (map ls_assignment_id (so_lines so) @ map st_assignment_id (so_status so) @
       map (be_assignment_id \<circ> fst) (so_bonus so))"

definition permanent_driver ::
  "(int \<Rightarrow> driver_identity option) \<Rightarrow> period_sources \<Rightarrow> int \<Rightarrow> int result" where
  "permanent_driver identities so drv =
     (case identities drv of
        Some i \<Rightarrow> Inr (id_driver_id i)
      | None \<Rightarrow>
          (case find_first (\<lambda>(b, _). be_assignment_id b = drv) (so_bonus so) of
             Some (_, Some driver) \<Rightarrow> Inr driver
           | _ \<Rightarrow> Inl KeyError))"

definition assemble_packet ::
  "(string \<Rightarrow> date \<Rightarrow> int) \<Rightarrow> period_row \<Rightarrow> int \<Rightarrow> 'a payroll_db_scheme \<Rightarrow> blocker list
   \<Rightarrow> company_currency option \<Rightarrow> period_sources \<Rightarrow> live_packet result" where
  "assemble_packet boundary period company_id db structural currency so =
     (let digits = map_option minor_unit_digits currency;
          drvs = packet_drivers so;
          identities = driver_identity_of company_id db
      in bind_r (official_components digits (accumulate_ordinary (so_lines so))) (\<lambda>ordinary.
         bind_r (official_components digits (accumulate_status (so_status so))) (\<lambda>status.
         bind_r (official_components digits (accumulate_bonus (map fst (so_bonus so)))) (\<lambda>bonus.
         bind_r (mapM (\<lambda>drv. map_r (Pair drv) (permanent_driver identities so drv)) drvs) (\<lambda>owners.
         bind_r (evaluate_minmax boundary period company_id owners
             (\<lambda>drv. dec_add (pay_of drv ordinary) (pay_of drv status)) currency db) (\<lambda>outcomes.
         bind_r (mapM (\<lambda>(drv, evaluated).
             assemble_driver digits identities so ordinary status bonus drv evaluated) outcomes) (\<lambda>totals.
         Inr
           \<lparr>pk_period_id = pp_id period, pk_company_id = company_id, pk_branch_id = pp_branch_id period,
            pk_status = pp_status period,
            pk_blockers = structural @
              (if drvs \<noteq> [] \<and> currency = None then [CompanyCurrencyRequired] else []) @
              concat (map driver_blockers totals),
            pk_warnings = (if drvs = [] then [NoFinancialSources] else []) @
              concat (map (mo_warnings \<circ> snd) outcomes),
            pk_drivers = totals,
            pk_total = dec_sum (map dt_expected_pay totals),
            pk_currency = currency,
            pk_scheduled_dates = sorted_set (concat (map (mp_scheduled_dates \<circ> mo_proration \<circ> snd) outcomes))\<rparr>)))))))"

definition build_live_calculation_packet ::
  "(string \<Rightarrow> date \<Rightarrow> int) \<Rightarrow> period_row \<Rightarrow> int \<Rightarrow> 'a payroll_db_scheme \<Rightarrow> live_packet result" where
  "build_live_calculation_packet boundary period company_id db =
     bind_r (validate_period_can_finalize (pp_id period) company_id (pp_branch_id period) db) (\<lambda>structural.
     bind_r (get_currency_of company_id db) (\<lambda>currency.
     bind_r (load_sources period company_id db) (\<lambda>so.
       assemble_packet boundary period company_id db structural currency so)))"

end
