(* ===== verification/Packet_Facts.thy ===== *)
theory Packet_Facts
  imports Period_Calculation
begin

text \<open>
  The library of the calculation packet: what the accumulators hold, how the official
  components relate to them, and inversion rules for a driver total and for a packet.
\<close>

section \<open>Accumulators as grouped sums\<close>

lemma map_of_setdefault_update:
  "map_of (setdefault_update k new f d) =
     (map_of d)(k \<mapsto> f (case map_of d k of None \<Rightarrow> new | Some v \<Rightarrow> v))"
  by (induction k new f d rule: setdefault_update.induct) (auto simp: fun_eq_iff)

lemma keys_setdefault_update: "fst ` set (setdefault_update k new f d) = insert k (fst ` set d)"
  by (induction k new f d rule: setdefault_update.induct) auto

lemma distinct_setdefault_update:
  "distinct (map fst d) \<Longrightarrow> distinct (map fst (setdefault_update k new f d))"
proof (induction k new f d rule: setdefault_update.induct)
  case (2 k new f k' v d)
  then show ?case using keys_setdefault_update [of k new f d] by (auto simp: image_iff)
qed simp

definition group_by :: "('x \<Rightarrow> 'k) \<Rightarrow> ('x \<Rightarrow> 'v) \<Rightarrow> ('x \<Rightarrow> 'v \<Rightarrow> 'v) \<Rightarrow> 'x list \<Rightarrow> ('k \<times> 'v) list" where
  "group_by key new upd xs = foldl (\<lambda>d x. setdefault_update (key x) (new x) (upd x) d) [] xs"

lemma group_by_snoc:
  "group_by key new upd (xs @ [x]) = setdefault_update (key x) (new x) (upd x) (group_by key new upd xs)"
  by (simp add: group_by_def)

lemma group_by_keys [simp]: "fst ` set (group_by key new upd xs) = key ` set xs"
proof (induction xs rule: rev_induct)
  case Nil
  then show ?case by (simp add: group_by_def)
next
  case (snoc x xs)
  then show ?case by (simp add: group_by_snoc keys_setdefault_update)
qed

lemma group_by_distinct [simp]: "distinct (map fst (group_by key new upd xs))"
proof (induction xs rule: rev_induct)
  case Nil
  then show ?case by (simp add: group_by_def)
next
  case (snoc x xs)
  then show ?case by (simp add: group_by_snoc distinct_setdefault_update)
qed

text \<open>The entry of a key is the fold of the items of that key, from the first one's default.\<close>

lemma group_by_lookup:
  "map_of (group_by key new upd xs) k =
     (case filter (\<lambda>x. key x = k) xs of
        [] \<Rightarrow> None
      | x # r \<Rightarrow> Some (foldl (\<lambda>v y. upd y v) (new x) (x # r)))"
proof (induction xs rule: rev_induct)
  case Nil
  then show ?case by (simp add: group_by_def)
next
  case (snoc x xs)
  then show ?case
    by (cases "filter (\<lambda>x. key x = k) xs")
      (auto simp: group_by_snoc map_of_setdefault_update split: list.splits)
qed

lemmas accumulate_group_by =
  accumulate_ordinary_def [folded group_by_def] accumulate_status_def [folded group_by_def]
  accumulate_bonus_def [folded group_by_def]

definition amount_or_zero :: "decimal option \<Rightarrow> decimal" where
  "amount_or_zero a = (case a of None \<Rightarrow> 0 | Some x \<Rightarrow> x)"

lemma foldl_acc_add:
  "foldl (\<lambda>v y. acc_add (amt y) (src y) (unr y) v) a ys =
     a\<lparr>ac_raw := foldl dec_add (ac_raw a) (map (amount_or_zero \<circ> amt) ys),
       ac_sources := ac_sources a @ map src ys,
       ac_unresolved := ac_unresolved a + length (filter unr ys)\<rparr>"
  by (induction ys arbitrary: a) (auto simp: acc_add_def amount_or_zero_def split: option.splits)

text \<open>One entry of a grouping by accumulation.\<close>

lemma group_by_acc:
  assumes "(k, acc) \<in> set (group_by key (\<lambda>x. new_accumulator (ident x) (asg x))
      (\<lambda>x. acc_add (amt x) (src x) (unr x)) xs)"
  obtains x where "x \<in> set xs" "key x = k" "ac_identity acc = ident x" "ac_assignment_id acc = asg x"
    "ac_raw acc = dec_sum (map (amount_or_zero \<circ> amt) (filter (\<lambda>x. key x = k) xs))"
    "ac_sources acc = map src (filter (\<lambda>x. key x = k) xs)"
    "ac_unresolved acc = length (filter (\<lambda>x. key x = k \<and> unr x) xs)"
proof -
  let ?g = "group_by key (\<lambda>x. new_accumulator (ident x) (asg x))
      (\<lambda>x. acc_add (amt x) (src x) (unr x)) xs"
  have "map_of ?g k = Some acc" using assms by simp
  then obtain x r where x: "filter (\<lambda>x. key x = k) xs = x # r"
    and acc: "acc = foldl (\<lambda>v y. acc_add (amt y) (src y) (unr y) v)
        (new_accumulator (ident x) (asg x)) (x # r)"
    unfolding group_by_lookup by (auto split: list.splits)
  have "x \<in> set (filter (\<lambda>x. key x = k) xs)" using x by simp
  moreover have "filter (\<lambda>x. key x = k \<and> unr x) xs = filter unr (x # r)"
    unfolding x [symmetric] by (simp add: conj_commute)
  ultimately show thesis
    using acc unfolding foldl_acc_add x [symmetric]
    by (intro that [of x]) (auto simp: new_accumulator_def dec_sum_def)
qed

section \<open>Official components\<close>

lemma official_components_InrD:
  assumes "official_components digits accs = Inr cs"
  shows "list_all2 (\<lambda>(k, acc) c. oc_identity c = ac_identity acc \<and>
      oc_assignment_id c = ac_assignment_id acc \<and> oc_raw c = ac_raw acc \<and>
      oc_sources c = ac_sources acc \<and> oc_unresolved c = ac_unresolved acc \<and>
      official_amount digits (oc_raw c) = Inr (oc_official c)) (sort_key fst accs) cs"
proof -
  from assms have "list_all2 (\<lambda>p c. acc_official (official_amount digits) (snd p) = Inr c)
      (sort_key fst accs) cs"
    by (simp add: official_components_def mapM_Inr_iff list_all2_map1)
  then show ?thesis
    by (rule list.rel_mono_strong) (auto simp: acc_official_def map_r_Inr_iff)
qed

lemma official_component_member:
  assumes "official_components digits accs = Inr cs" "c \<in> set cs"
  obtains k acc where "(k, acc) \<in> set accs" "oc_identity c = ac_identity acc"
    "oc_assignment_id c = ac_assignment_id acc" "oc_raw c = ac_raw acc"
    "oc_sources c = ac_sources acc" "oc_unresolved c = ac_unresolved acc"
    "official_amount digits (oc_raw c) = Inr (oc_official c)"
proof -
  from list_all2_memberE [OF official_components_InrD [OF assms(1)] assms(2)] obtain p where
    "p \<in> set (sort_key fst accs)"
    "(\<lambda>(k, acc) c. oc_identity c = ac_identity acc \<and>
      oc_assignment_id c = ac_assignment_id acc \<and> oc_raw c = ac_raw acc \<and>
      oc_sources c = ac_sources acc \<and> oc_unresolved c = ac_unresolved acc \<and>
      official_amount digits (oc_raw c) = Inr (oc_official c)) p c" .
  then show thesis using that [of "fst p" "snd p"] by (auto simp: case_prod_beta)
qed

lemma official_amount_scale: "official_amount digits x = Inr y \<Longrightarrow> has_scale 4 y"
proof (cases digits)
  case (Some k)
  moreover assume "official_amount digits x = Inr y"
  ultimately obtain a where "y = rounded (nat k) a" "nat k \<le> 4"
    by (auto simp: official_amount_def elim!: round_payable_InrD)
  then show ?thesis using has_scale_mono [of "nat k" y 4] by simp
qed (auto simp: official_amount_def split: if_splits)

lemma official_amount_error:
  "official_amount (Some k) x = Inr y \<Longrightarrow>
   y = rounded (nat k) x \<and> 0 \<le> k \<and> k \<le> 4 \<and> \<bar>y - x\<bar> \<le> 1 / (2 * 10 ^ nat k)"
  using rounded_error [of "nat k" x]
  by (auto simp: official_amount_def elim!: round_payable_InrD)

lemma official_amount_None [simp]: "official_amount None x = Inr y \<longleftrightarrow> x = 0 \<and> y = 0"
  by (auto simp: official_amount_def)

section \<open>Inversion of a driver total\<close>

lemma adjustment_InrD:
  assumes "adjustment digits drv p raw rule ident line_type = Inr (cs, ls, a)"
  shows "\<forall>c\<in>set cs. oc_assignment_id c = drv \<and> oc_raw c = raw \<and> oc_official c = a \<and>
      official_amount digits raw = Inr a"
    and "dec_sum (map oc_official cs) = dec_add 0 a \<or> cs = [] \<and> a = 0"
    and "length cs \<le> 1" and "sum_list (map oc_official cs) = a"
    and "rule = None \<or> raw = 0 \<longleftrightarrow> cs = []"
    and "has_scale 4 a" and "rule \<noteq> None \<Longrightarrow> raw \<noteq> 0 \<Longrightarrow> official_amount digits raw = Inr a"
  using assms official_amount_scale [of digits raw a]
  by (auto simp: adjustment_def map_r_Inr_iff dec_sum_def split: option.splits if_splits)

lemma assemble_driver_InrE:
  assumes "assemble_driver digits identities so ordinary status bonus drv ev = Inr dt"
  obtains imprecise mnc mnl mxc mxl i where
    "bonus_precision_blockers digits (map fst (filter (\<lambda>(b, _). be_assignment_id b = drv) (so_bonus so)))
       = Inr imprecise"
    "adjustment digits drv (mo_proration ev) (mo_raw_minimum ev) (mp_minimum_rule (mo_proration ev))
       MINIMUM_ADJUSTMENT ''SYS_MIN_TOPUP'' = Inr (mnc, mnl, dt_minimum_adjustment dt)"
    "adjustment digits drv (mo_proration ev) (mo_raw_maximum ev) (mp_maximum_rule (mo_proration ev))
       MAXIMUM_ADJUSTMENT ''SYS_MAX_CAP'' = Inr (mxc, mxl, dt_maximum_adjustment dt)"
    "identities drv = Some i" "dt_assignment_id dt = drv" "dt_driver_id dt = id_driver_id i"
    "dt_daily_pay dt = pay_of drv ordinary" "dt_status_pay dt = pay_of drv status"
    "dt_bonus_total dt = pay_of drv bonus"
    "dt_components dt = components_of drv ordinary @ components_of drv status @
       components_of drv bonus @ mnc @ mxc"
    "dt_expected_pay dt = dec_sum (map oc_official (dt_components dt))"
    "dt_needs_review dt = driver_needs_review drv so"
    "dt_blockers dt = imprecise @ mo_blockers ev"
    "dt_lines dt = driver_lines drv so @ mnl @ mxl" "dt_minmax dt = mo_proration ev"
proof -
  from assms obtain imprecise mnc mnl mn mxc mxl mx i where
    1: "bonus_precision_blockers digits
        (map fst (filter (\<lambda>(b, _). be_assignment_id b = drv) (so_bonus so))) = Inr imprecise"
      "adjustment digits drv (mo_proration ev) (mo_raw_minimum ev) (mp_minimum_rule (mo_proration ev))
         MINIMUM_ADJUSTMENT ''SYS_MIN_TOPUP'' = Inr (mnc, mnl, mn)"
      "adjustment digits drv (mo_proration ev) (mo_raw_maximum ev) (mp_maximum_rule (mo_proration ev))
         MAXIMUM_ADJUSTMENT ''SYS_MAX_CAP'' = Inr (mxc, mxl, mx)"
      "identities drv = Some i"
    by (auto simp: assemble_driver_def Let_def bind_r_Inr_iff split: option.splits)
  from assms 1 show thesis
    by (intro that [of imprecise mnc mnl mxc mxl i])
      (auto simp: assemble_driver_def Let_def)
qed

section \<open>Inversion of a packet\<close>

lemma assemble_packet_InrE:
  assumes "assemble_packet bd period cid db structural currency so = Inr pk"
  obtains ordinary status bonus owners outcomes where
    "official_components (map_option minor_unit_digits currency) (accumulate_ordinary (so_lines so)) = Inr ordinary"
    "official_components (map_option minor_unit_digits currency) (accumulate_status (so_status so)) = Inr status"
    "official_components (map_option minor_unit_digits currency)
       (accumulate_bonus (map fst (so_bonus so))) = Inr bonus"
    "mapM (\<lambda>drv. map_r (Pair drv) (permanent_driver (driver_identity_of cid db) so drv))
       (packet_drivers so) = Inr owners"
    "evaluate_minmax bd period cid owners
       (\<lambda>drv. dec_add (pay_of drv ordinary) (pay_of drv status)) currency db = Inr outcomes"
    "list_all2 (\<lambda>(drv, ev) dt. assemble_driver (map_option minor_unit_digits currency)
       (driver_identity_of cid db) so ordinary status bonus drv ev = Inr dt) outcomes (pk_drivers pk)"
    "pk_blockers pk = structural @
       (if packet_drivers so \<noteq> [] \<and> currency = None then [CompanyCurrencyRequired] else []) @
       concat (map driver_blockers (pk_drivers pk))"
    "pk_total pk = dec_sum (map dt_expected_pay (pk_drivers pk))" "pk_currency pk = currency"
    "pk_period_id pk = pp_id period" "pk_company_id pk = cid"
proof -
  let ?digits = "map_option minor_unit_digits currency"
  let ?ids = "driver_identity_of cid db"
  from assms obtain ordinary status bonus owners outcomes totals where
    1: "official_components ?digits (accumulate_ordinary (so_lines so)) = Inr ordinary"
      "official_components ?digits (accumulate_status (so_status so)) = Inr status"
      "official_components ?digits (accumulate_bonus (map fst (so_bonus so))) = Inr bonus"
      "mapM (\<lambda>drv. map_r (Pair drv) (permanent_driver ?ids so drv)) (packet_drivers so) = Inr owners"
      "evaluate_minmax bd period cid owners
         (\<lambda>drv. dec_add (pay_of drv ordinary) (pay_of drv status)) currency db = Inr outcomes"
    and totals: "mapM (\<lambda>(drv, evaluated).
        assemble_driver ?digits ?ids so ordinary status bonus drv evaluated) outcomes = Inr totals"
    unfolding assemble_packet_def Let_def by (elim bind_r_InrE) blast
  then have pk: "pk_drivers pk = totals"
      "pk_blockers pk = structural @
        (if packet_drivers so \<noteq> [] \<and> currency = None then [CompanyCurrencyRequired] else []) @
        concat (map driver_blockers totals)"
      "pk_total pk = dec_sum (map dt_expected_pay totals)" "pk_currency pk = currency"
      "pk_period_id pk = pp_id period" "pk_company_id pk = cid"
    using assms by (auto simp: assemble_packet_def Let_def)
  from totals have "list_all2 (\<lambda>(drv, ev) dt. assemble_driver ?digits ?ids so ordinary status bonus drv ev
      = Inr dt) outcomes totals"
    by (auto simp: mapM_Inr_iff elim!: list.rel_mono_strong)
  with 1 pk show thesis by (intro that) simp_all
qed

lemma build_packet_InrE:
  assumes "build_live_calculation_packet bd period cid db = Inr pk"
  obtains structural so where
    "validate_period_can_finalize (pp_id period) cid (pp_branch_id period) db = Inr structural"
    "get_currency_of cid db = Inr (pk_currency pk)"
    "load_sources period cid db = Inr so"
    "assemble_packet bd period cid db structural (pk_currency pk) so = Inr pk"
proof -
  from assms obtain structural currency so where
    "validate_period_can_finalize (pp_id period) cid (pp_branch_id period) db = Inr structural"
    "get_currency_of cid db = Inr currency" "load_sources period cid db = Inr so"
    "assemble_packet bd period cid db structural currency so = Inr pk"
    by (auto simp: build_live_calculation_packet_def bind_r_Inr_iff)
  moreover from this(4) have "pk_currency pk = currency" by (auto elim!: assemble_packet_InrE)
  ultimately show thesis by (intro that) auto
qed

lemma evaluate_minmax_drivers:
  assumes "evaluate_minmax bd period cid owners bases currency db = Inr outcomes"
  shows "map fst outcomes = map fst (sort_key fst owners)"
proof -
  from assms have "list_all2 (\<lambda>x y. fst y = fst x) (sort_key fst owners) outcomes"
    by (auto simp: evaluate_minmax_def Let_def evaluate_owner_def mapM_Inr_iff map_r_Inr_iff
        split: prod.splits elim!: list.rel_mono_strong)
  then show ?thesis by (rule list_all2_map_eq)
qed

text \<open>The packet's drivers are the packet's DriverAssignments, once each and in order.\<close>

lemma assemble_packet_drivers:
  assumes "assemble_packet bd period cid db structural currency so = Inr pk"
  shows "map dt_assignment_id (pk_drivers pk) = packet_drivers so"
  using assms
proof (rule assemble_packet_InrE)
  fix ordinary status bonus owners outcomes
  assume o: "mapM (\<lambda>drv. map_r (Pair drv) (permanent_driver (driver_identity_of cid db) so drv))
       (packet_drivers so) = Inr owners"
    and e: "evaluate_minmax bd period cid owners
       (\<lambda>drv. dec_add (pay_of drv ordinary) (pay_of drv status)) currency db = Inr outcomes"
    and t: "list_all2 (\<lambda>(drv, ev) dt. assemble_driver (map_option minor_unit_digits currency)
       (driver_identity_of cid db) so ordinary status bonus drv ev = Inr dt) outcomes (pk_drivers pk)"
  from o have "list_all2 (\<lambda>d p. fst p = id d) (packet_drivers so) owners"
    by (auto simp: mapM_Inr_iff map_r_Inr_iff elim!: list.rel_mono_strong)
  from list_all2_map_eq [OF this] have owners: "map fst owners = packet_drivers so" by simp
  have "sort_key fst owners = owners"
    by (rule sort_key_id_if_sorted) (simp add: owners packet_drivers_def)
  with evaluate_minmax_drivers [OF e] owners have "map fst outcomes = packet_drivers so" by simp
  moreover from t have "list_all2 (\<lambda>p dt. dt_assignment_id dt = fst p) outcomes (pk_drivers pk)"
    by (rule list.rel_mono_strong) (auto elim!: assemble_driver_InrE)
  then have "map dt_assignment_id (pk_drivers pk) = map fst outcomes"
    by (rule list_all2_map_eq)
  ultimately show ?thesis by simp
qed


lemma load_sources_InrD:
  assumes "load_sources period cid db = Inr so"
  shows "load_live_source_lines (pp_id period) cid db None None = Inr (so_lines so)"
    "load_live_status_lines (pp_id period) cid (pp_branch_id period) db = Inr (so_status so)"
    "so_bonus so = load_active_bonus_events (pp_id period) cid db"
  using assms by (auto simp: load_sources_def Let_def bind_r_Inr_iff split: if_splits)

text \<open>One driver total of a packet, with everything it was assembled from.\<close>

lemma packet_driverE:
  assumes "build_live_calculation_packet bd period cid db = Inr pk" "dt \<in> set (pk_drivers pk)"
  obtains so ordinary status bonus owners outcomes ev where
    "load_sources period cid db = Inr so"
    "official_components (map_option minor_unit_digits (pk_currency pk)) (accumulate_ordinary (so_lines so))
       = Inr ordinary"
    "official_components (map_option minor_unit_digits (pk_currency pk)) (accumulate_status (so_status so))
       = Inr status"
    "official_components (map_option minor_unit_digits (pk_currency pk))
       (accumulate_bonus (map fst (so_bonus so))) = Inr bonus"
    "mapM (\<lambda>drv. map_r (Pair drv) (permanent_driver (driver_identity_of cid db) so drv))
       (packet_drivers so) = Inr owners"
    "evaluate_minmax bd period cid owners
       (\<lambda>drv. dec_add (pay_of drv ordinary) (pay_of drv status)) (pk_currency pk) db = Inr outcomes"
    "(dt_assignment_id dt, ev) \<in> set outcomes"
    "assemble_driver (map_option minor_unit_digits (pk_currency pk))
       (driver_identity_of cid db) so ordinary status bonus (dt_assignment_id dt) ev = Inr dt"
    "dt_assignment_id dt \<in> set (packet_drivers so)"
proof -
  from build_packet_InrE [OF assms(1)] obtain structural so where
    so: "load_sources period cid db = Inr so"
    and pk: "assemble_packet bd period cid db structural (pk_currency pk) so = Inr pk" by metis
  have mem: "dt_assignment_id dt \<in> set (packet_drivers so)"
    using assemble_packet_drivers [OF pk] assms(2) by (metis image_eqI set_map)
  from pk show thesis
  proof (rule assemble_packet_InrE)
    fix ordinary status bonus owners outcomes
    assume a: "official_components (map_option minor_unit_digits (pk_currency pk))
        (accumulate_ordinary (so_lines so)) = Inr ordinary"
      "official_components (map_option minor_unit_digits (pk_currency pk))
        (accumulate_status (so_status so)) = Inr status"
      "official_components (map_option minor_unit_digits (pk_currency pk))
        (accumulate_bonus (map fst (so_bonus so))) = Inr bonus"
      "mapM (\<lambda>drv. map_r (Pair drv) (permanent_driver (driver_identity_of cid db) so drv))
        (packet_drivers so) = Inr owners"
      "evaluate_minmax bd period cid owners
        (\<lambda>drv. dec_add (pay_of drv ordinary) (pay_of drv status)) (pk_currency pk) db = Inr outcomes"
      and t: "list_all2 (\<lambda>(drv, ev) dt. assemble_driver (map_option minor_unit_digits (pk_currency pk))
        (driver_identity_of cid db) so ordinary status bonus drv ev = Inr dt) outcomes (pk_drivers pk)"
    from list_all2_memberE [OF t assms(2)] obtain p where p: "p \<in> set outcomes"
      "assemble_driver (map_option minor_unit_digits (pk_currency pk))
        (driver_identity_of cid db) so ordinary status bonus (fst p) (snd p) = Inr dt"
      by (auto simp: case_prod_beta)
    then have "dt_assignment_id dt = fst p" by (auto elim!: assemble_driver_InrE)
    with p a so mem show thesis by (intro that [of so ordinary status bonus owners outcomes "snd p"]) auto
  qed
qed

section \<open>Exact sums\<close>

lemma money_mono: "money m x \<Longrightarrow> m \<le> n \<Longrightarrow> money n x"
  by (auto simp: money_def)

lemma sum_list_money:
  assumes "\<And>x. x \<in> set xs \<Longrightarrow> money m x" and "length xs \<le> n" and "0 \<le> m"
  shows "money (of_nat n * m) (sum_list xs)"
proof -
  have "\<bar>sum_list xs\<bar> \<le> of_nat (length xs) * m"
    using assms(1)
  proof (induction xs)
    case (Cons x xs)
    have "\<bar>x\<bar> \<le> m" using Cons.prems [of x] by (simp add: money_def)
    moreover have "\<bar>sum_list xs\<bar> \<le> of_nat (length xs) * m"
      by (rule Cons.IH) (use Cons.prems in auto)
    moreover have "of_nat (length (x # xs)) * m = m + of_nat (length xs) * m"
      by (simp add: algebra_simps)
    ultimately show ?case using abs_triangle_ineq [of x "sum_list xs"] by simp
  qed simp
  moreover have "of_nat (length xs) * m \<le> of_nat n * m"
    using assms(2,3) by (intro mult_right_mono) auto
  ultimately show ?thesis
    using assms(1) by (auto simp: money_def intro!: has_scale_sum_list)
qed

lemma dec_sum_money:
  assumes "\<And>x. x \<in> set xs \<Longrightarrow> money m x" and "length xs \<le> n" and "0 \<le> m" "of_nat n * m < 10 ^ 24"
  shows "dec_sum xs = sum_list xs" "money (of_nat n * m) (dec_sum xs)"
proof -
  have "of_nat (length xs) * m \<le> of_nat n * m"
    using assms(2,3) by (intro mult_right_mono) auto
  with assms show "dec_sum xs = sum_list xs" by (intro dec_sum_exact) auto
  with sum_list_money [OF assms(1-3)] show "money (of_nat n * m) (dec_sum xs)" by simp
qed

section \<open>Components of a driver\<close>

lemma components_of_member: "c \<in> set (components_of drv cs) \<longleftrightarrow> c \<in> set cs \<and> oc_assignment_id c = drv"
  by (auto simp: components_of_def)

text \<open>Every official amount of a packet is its raw amount rounded once.\<close>

lemma packet_component_official:
  assumes "build_live_calculation_packet bd period cid db = Inr pk" "dt \<in> set (pk_drivers pk)"
    "c \<in> set (dt_components dt)"
  shows "official_amount (map_option minor_unit_digits (pk_currency pk)) (oc_raw c) = Inr (oc_official c)"
    and "oc_assignment_id c = dt_assignment_id dt"
proof -
  let ?d = "map_option minor_unit_digits (pk_currency pk)"
  from assms(1,2) obtain so ordinary status bonus ev where
    cs: "official_components ?d (accumulate_ordinary (so_lines so)) = Inr ordinary"
      "official_components ?d (accumulate_status (so_status so)) = Inr status"
      "official_components ?d (accumulate_bonus (map fst (so_bonus so))) = Inr bonus"
    and dt: "assemble_driver ?d (driver_identity_of cid db) so ordinary status bonus
      (dt_assignment_id dt) ev = Inr dt"
    by (rule packet_driverE) blast
  from dt obtain mnc mnl mxc mxl where
    mn: "adjustment ?d (dt_assignment_id dt) (mo_proration ev) (mo_raw_minimum ev)
      (mp_minimum_rule (mo_proration ev)) MINIMUM_ADJUSTMENT ''SYS_MIN_TOPUP''
      = Inr (mnc, mnl, dt_minimum_adjustment dt)"
    and mx: "adjustment ?d (dt_assignment_id dt) (mo_proration ev) (mo_raw_maximum ev)
      (mp_maximum_rule (mo_proration ev)) MAXIMUM_ADJUSTMENT ''SYS_MAX_CAP''
      = Inr (mxc, mxl, dt_maximum_adjustment dt)"
    and comps: "dt_components dt = components_of (dt_assignment_id dt) ordinary @
       components_of (dt_assignment_id dt) status @ components_of (dt_assignment_id dt) bonus @ mnc @ mxc"
    by (rule assemble_driver_InrE) blast
  from assms(3) consider "c \<in> set ordinary \<or> c \<in> set status \<or> c \<in> set bonus"
      "oc_assignment_id c = dt_assignment_id dt"
    | "c \<in> set mnc" | "c \<in> set mxc"
    by (auto simp: comps components_of_member)
  then have "official_amount ?d (oc_raw c) = Inr (oc_official c) \<and> oc_assignment_id c = dt_assignment_id dt"
  proof cases
    case 1
    then show ?thesis using cs by (auto elim!: official_component_member)
  next
    case 2
    then show ?thesis using adjustment_InrD(1) [OF mn] by auto
  next
    case 3
    then show ?thesis using adjustment_InrD(1) [OF mx] by auto
  qed
  then show "official_amount ?d (oc_raw c) = Inr (oc_official c)"
    "oc_assignment_id c = dt_assignment_id dt" by auto
qed

text \<open>The totals of a driver add up, under a bound on the components.\<close>

definition bounded_driver :: "driver_total \<Rightarrow> bool" where
  "bounded_driver dt \<longleftrightarrow>
     length (dt_components dt) \<le> 1000 \<and> (\<forall>c\<in>set (dt_components dt). \<bar>oc_official c\<bar> \<le> 10 ^ 14)"

lemma packet_driver_sums:
  assumes pk: "build_live_calculation_packet bd period cid db = Inr pk" "dt \<in> set (pk_drivers pk)"
    and bounded: "bounded_driver dt"
  shows "dt_expected_pay dt = sum_list (map oc_official (dt_components dt))"
    and "dt_expected_pay dt = dt_daily_pay dt + dt_status_pay dt + dt_minimum_adjustment dt +
      dt_maximum_adjustment dt + dt_bonus_total dt"
    and "money (10 ^ 17) (dt_expected_pay dt)"
    and "money (10 ^ 17) (dt_daily_pay dt)" "money (10 ^ 17) (dt_status_pay dt)"
proof -
  let ?d = "map_option minor_unit_digits (pk_currency pk)"
  from pk obtain so ordinary status bonus ev where
    dt: "assemble_driver ?d (driver_identity_of cid db) so ordinary status bonus
      (dt_assignment_id dt) ev = Inr dt"
    by (rule packet_driverE) blast
  then obtain mnc mnl mxc mxl where
    mn: "adjustment ?d (dt_assignment_id dt) (mo_proration ev) (mo_raw_minimum ev)
      (mp_minimum_rule (mo_proration ev)) MINIMUM_ADJUSTMENT ''SYS_MIN_TOPUP''
      = Inr (mnc, mnl, dt_minimum_adjustment dt)"
    and mx: "adjustment ?d (dt_assignment_id dt) (mo_proration ev) (mo_raw_maximum ev)
      (mp_maximum_rule (mo_proration ev)) MAXIMUM_ADJUSTMENT ''SYS_MAX_CAP''
      = Inr (mxc, mxl, dt_maximum_adjustment dt)"
    and comps: "dt_components dt = components_of (dt_assignment_id dt) ordinary @
       components_of (dt_assignment_id dt) status @ components_of (dt_assignment_id dt) bonus @ mnc @ mxc"
    and pays: "dt_daily_pay dt = pay_of (dt_assignment_id dt) ordinary"
      "dt_status_pay dt = pay_of (dt_assignment_id dt) status"
      "dt_bonus_total dt = pay_of (dt_assignment_id dt) bonus"
      "dt_expected_pay dt = dec_sum (map oc_official (dt_components dt))"
    by (rule assemble_driver_InrE) blast
  have money: "money (10 ^ 14) (oc_official c)" if "c \<in> set (dt_components dt)" for c
    using packet_component_official(1) [OF pk that] official_amount_scale bounded that
    by (auto simp: money_def bounded_driver_def)
  have part: "dec_sum (map oc_official cs) = sum_list (map oc_official cs)"
    "money (10 ^ 17) (dec_sum (map oc_official cs))"
    if "set cs \<subseteq> set (dt_components dt)" "length cs \<le> length (dt_components dt)" for cs
  proof -
    have "\<And>x. x \<in> set (map oc_official cs) \<Longrightarrow> money (10 ^ 14) x" using money that(1) by auto
    note m = this
    have n: "length (map oc_official cs) \<le> 1000" using that(2) bounded by (simp add: bounded_driver_def)
    from dec_sum_money [OF m n] show "dec_sum (map oc_official cs) = sum_list (map oc_official cs)"
      "money (10 ^ 17) (dec_sum (map oc_official cs))" by simp_all
  qed
  have o: "set (components_of (dt_assignment_id dt) ordinary) \<subseteq> set (dt_components dt)"
      "length (components_of (dt_assignment_id dt) ordinary) \<le> length (dt_components dt)"
    and s: "set (components_of (dt_assignment_id dt) status) \<subseteq> set (dt_components dt)"
      "length (components_of (dt_assignment_id dt) status) \<le> length (dt_components dt)"
    and b: "set (components_of (dt_assignment_id dt) bonus) \<subseteq> set (dt_components dt)"
      "length (components_of (dt_assignment_id dt) bonus) \<le> length (dt_components dt)"
    by (auto simp: comps)
  show e: "dt_expected_pay dt = sum_list (map oc_official (dt_components dt))"
    "money (10 ^ 17) (dt_expected_pay dt)"
    using part [of "dt_components dt"] pays(4) by auto
  show "money (10 ^ 17) (dt_daily_pay dt)" "money (10 ^ 17) (dt_status_pay dt)"
    using part(2) [OF o] part(2) [OF s] pays by (auto simp: pay_of_def)
  show "dt_expected_pay dt = dt_daily_pay dt + dt_status_pay dt + dt_minimum_adjustment dt +
      dt_maximum_adjustment dt + dt_bonus_total dt"
    using part(1) [OF o] part(1) [OF s] part(1) [OF b] adjustment_InrD(4) [OF mn]
      adjustment_InrD(4) [OF mx] pays
    by (simp add: e(1) comps pay_of_def)
qed


section \<open>The evaluation behind a driver total\<close>

lemma evaluate_minmax_memberE:
  assumes "evaluate_minmax bd period cid owners bases currency db = Inr outcomes"
    "(a, ev) \<in> set outcomes"
  obtains driver has_days scheduled eligible off ids where
    "(a, driver) \<in> set owners"
    "evaluate_assignment period (map_option minor_unit_digits currency) has_days scheduled
       (eligible a) (off a) a driver (bases a)
       (load_effective_rules cid (map snd owners) (pp_start period) db (driver, ''MinimumPay''))
       (load_effective_rules cid (map snd owners) (pp_start period) db (driver, ''MaximumPay'')) = Inr ev"
    "(has_days, scheduled, eligible, off) = (False, [], (\<lambda>_. []), (\<lambda>_. [])) \<or>
     (has_days, scheduled, eligible, off) = load_coverage_inputs bd period cid ids db"
proof -
  let ?rules = "load_effective_rules cid (map snd owners) (pp_start period) db"
  let ?digits = "map_option minor_unit_digits currency"
  from assms(1) obtain ruled where m: "mapM (evaluate_owner period ?digits
      (minmax_coverage bd period cid ruled db) bases ?rules) (sort_key fst owners) = Inr outcomes"
    by (auto simp: evaluate_minmax_def Let_def)
  from mapM_Inr_set [OF m assms(2)] obtain x where x: "x \<in> set owners"
    and e: "evaluate_owner period ?digits (minmax_coverage bd period cid ruled db) bases ?rules x = Inr (a, ev)"
    by (metis set_sort)
  obtain has_days scheduled eligible off where
    cov: "minmax_coverage bd period cid ruled db = (has_days, scheduled, eligible, off)"
    by (rule prod_cases4)
  from e cov have "fst x = a" "evaluate_assignment period ?digits has_days scheduled (eligible a) (off a)
      a (snd x) (bases a) (?rules (snd x, ''MinimumPay'')) (?rules (snd x, ''MaximumPay'')) = Inr ev"
    by (auto simp: evaluate_owner_def map_r_Inr_iff case_prod_beta)
  moreover from cov have "(has_days, scheduled, eligible, off) = (False, [], (\<lambda>_. []), (\<lambda>_. [])) \<or>
     (has_days, scheduled, eligible, off) = load_coverage_inputs bd period cid (map fst ruled) db"
    by (cases "ruled = []") (simp_all only: minmax_coverage_def if_True if_False simp_thms cov [symmetric])
  ultimately show thesis using x by (intro that [of "snd x"]) auto
qed

text \<open>Counted days come from the frozen schedule and the owned, eligible days.\<close>

lemma counted_dates_eligible:
  assumes "evaluate_minmax bd period cid owners bases currency db = Inr outcomes"
    "(a, ev) \<in> set outcomes"
  shows "set (mp_counted_dates (mo_proration ev)) \<subseteq>
    set (eligible_days_of bd (pp_id period) cid (scheduled_days_of (day_rows_of (pp_id period) cid db)) db a)"
  using assms
proof (rule evaluate_minmax_memberE)
  fix driver has_days scheduled eligible off ids mn mx
  assume e: "evaluate_assignment period (map_option minor_unit_digits currency) has_days scheduled
       (eligible a) (off a) a driver (bases a)
       (load_effective_rules cid (map snd owners) (pp_start period) db (driver, ''MinimumPay''))
       (load_effective_rules cid (map snd owners) (pp_start period) db (driver, ''MaximumPay'')) = Inr ev"
    and cov: "(has_days, scheduled, eligible, off) = (False, [], (\<lambda>_. []), (\<lambda>_. [])) \<or>
     (has_days, scheduled, eligible, off) = load_coverage_inputs bd period cid ids db"
  from counted_dates_subset [OF e] cov show ?thesis
    by (auto simp: load_coverage_inputs_def Let_def split: if_splits)
qed

text \<open>The clamp the two rules mean, and its proximity to the official pay before bonus.\<close>

definition clamp :: "decimal option \<Rightarrow> decimal option \<Rightarrow> decimal \<Rightarrow> decimal" where
  "clamp lo hi x =
     (let y = (case hi of None \<Rightarrow> x | Some h \<Rightarrow> min x h) in case lo of None \<Rightarrow> y | Some l \<Rightarrow> max l y)"

definition prorated_share :: "minmax_proration \<Rightarrow> minmax_rule option \<Rightarrow> decimal option" where
  "prorated_share p rule =
     map_option (\<lambda>r. rounded 4 (mr_amount r * of_int (the (mp_numerator p)) / of_int (the (mp_denominator p)))) rule"

lemma raw_adjustments_clamp':
  assumes "money (10 ^ 20) base"
    and "\<And>m. lo = Some m \<Longrightarrow> money (10 ^ 20) m" and "\<And>m. hi = Some m \<Longrightarrow> money (10 ^ 20) m"
    and "case (lo, hi) of (Some a, Some b) \<Rightarrow> a \<le> b | _ \<Rightarrow> True"
  shows "base + raw_minimum_adjustment base lo + raw_maximum_adjustment base hi = clamp lo hi base"
    and "raw_minimum_adjustment base lo = 0 \<or> raw_maximum_adjustment base hi = 0"
proof -
  show "base + raw_minimum_adjustment base lo + raw_maximum_adjustment base hi = clamp lo hi base"
    using raw_adjustments_clamp [of base lo hi] assms
    by (auto simp: clamp_def max_def min_def split: option.splits)
  show "raw_minimum_adjustment base lo = 0 \<or> raw_maximum_adjustment base hi = 0"
    using assms(4) by (auto simp: raw_minimum_adjustment_def raw_maximum_adjustment_def split: option.splits)
qed


section \<open>Ordinary components and their lines\<close>

lemma accumulate_ordinary_member:
  assumes "(k, acc) \<in> set (accumulate_ordinary ls)"
  obtains l where "l \<in> set ls" "ordinary_key l = k"
    "ac_identity acc = ORDINARY (identity_of_definition (ls_definition l))"
    "ac_assignment_id acc = ls_assignment_id l"
    "ac_raw acc = dec_sum (map (\<lambda>l. amount_or_zero (dc_amount (ls_calculation l)))
       (filter (\<lambda>l. ordinary_key l = k) ls))"
    "ac_sources acc = map (DraftLineRef \<circ> ls_draft_line_id) (filter (\<lambda>l. ordinary_key l = k) ls)"
    "ac_unresolved acc = length (filter (needs_attention \<circ> ls_calculation) (filter (\<lambda>l. ordinary_key l = k) ls))"
  using assms unfolding accumulate_group_by
  by (rule group_by_acc) (auto simp: comp_def conj_commute)

lemma components_kind:
  assumes "official_components digits (accumulate_status st) = Inr cs \<or>
    official_components digits (accumulate_bonus bs) = Inr cs" "c \<in> set cs"
  shows "oc_identity c \<noteq> ORDINARY d"
  using assms unfolding accumulate_group_by
  by (auto elim!: official_component_member group_by_acc)

lemma adjustment_kind:
  assumes "adjustment digits drv p raw rule ident lt = Inr (cs, ls, a)" "c \<in> set cs"
  shows "\<exists>i. oc_identity c = ident i"
  using assms by (auto simp: adjustment_def map_r_Inr_iff split: option.splits if_splits)

lemma driver_ordinary_components:
  assumes "assemble_driver digits ids so ordinary status bonus drv ev = Inr dt"
    "official_components digits (accumulate_status (so_status so)) = Inr status"
    "official_components digits (accumulate_bonus (map fst (so_bonus so))) = Inr bonus"
  shows "c \<in> set (dt_components dt) \<and> (\<exists>d. oc_identity c = ORDINARY d) \<longleftrightarrow>
    c \<in> set (components_of drv ordinary) \<and> (\<exists>d. oc_identity c = ORDINARY d)"
  using assms(1)
proof (rule assemble_driver_InrE)
  fix imprecise mnc mnl mxc mxl i
  assume mn: "adjustment digits drv (mo_proration ev) (mo_raw_minimum ev) (mp_minimum_rule (mo_proration ev))
       MINIMUM_ADJUSTMENT ''SYS_MIN_TOPUP'' = Inr (mnc, mnl, dt_minimum_adjustment dt)"
    and mx: "adjustment digits drv (mo_proration ev) (mo_raw_maximum ev) (mp_maximum_rule (mo_proration ev))
       MAXIMUM_ADJUSTMENT ''SYS_MAX_CAP'' = Inr (mxc, mxl, dt_maximum_adjustment dt)"
    and comps: "dt_components dt = components_of drv ordinary @ components_of drv status @
       components_of drv bonus @ mnc @ mxc"
  show ?thesis
    using adjustment_kind [OF mn] adjustment_kind [OF mx] components_kind [of digits _ status]
      components_kind [of digits _ bonus] assms(2,3)
    by (fastforce simp: comps components_of_member)
qed

lemma packet_ordinary_sources:
  assumes "build_live_calculation_packet bd period cid db = Inr pk" "dt \<in> set (pk_drivers pk)"
    and "load_live_source_lines (pp_id period) cid db None None = Inr ls"
    and "c \<in> set (dt_components dt)" "oc_identity c = ORDINARY d"
  shows "let mine = filter (\<lambda>l. ordinary_key l = (dt_assignment_id dt, di_period_definition_id d)) ls in
        oc_raw c = dec_sum (map (\<lambda>l. amount_or_zero (dc_amount (ls_calculation l))) mine) \<and>
        oc_sources c = map (DraftLineRef \<circ> ls_draft_line_id) mine \<and> mine \<noteq> [] \<and>
        oc_unresolved c = length (filter (needs_attention \<circ> ls_calculation) mine)"
proof -
  let ?d = "map_option minor_unit_digits (pk_currency pk)"
  from assms(1,2) obtain so ordinary status bonus ev where
    so: "load_sources period cid db = Inr so"
    and o: "official_components ?d (accumulate_ordinary (so_lines so)) = Inr ordinary"
    and sb: "official_components ?d (accumulate_status (so_status so)) = Inr status"
      "official_components ?d (accumulate_bonus (map fst (so_bonus so))) = Inr bonus"
    and dt: "assemble_driver ?d (driver_identity_of cid db) so ordinary status bonus
      (dt_assignment_id dt) ev = Inr dt"
    by (rule packet_driverE) blast
  from so assms(3) have ls: "so_lines so = ls" by (auto dest!: load_sources_InrD(1))
  from driver_ordinary_components [OF dt sb, of c] assms(4,5)
  have c: "c \<in> set ordinary" "oc_assignment_id c = dt_assignment_id dt"
    by (auto simp: components_of_member)
  from o c(1) obtain k acc where acc: "(k, acc) \<in> set (accumulate_ordinary ls)"
    "oc_identity c = ac_identity acc" "oc_assignment_id c = ac_assignment_id acc" "oc_raw c = ac_raw acc"
    "oc_sources c = ac_sources acc" "oc_unresolved c = ac_unresolved acc"
    unfolding ls by (rule official_component_member)
  from acc(1) obtain l where l: "l \<in> set ls" "ordinary_key l = k"
    "ac_identity acc = ORDINARY (identity_of_definition (ls_definition l))"
    "ac_assignment_id acc = ls_assignment_id l"
    "ac_raw acc = dec_sum (map (\<lambda>l. amount_or_zero (dc_amount (ls_calculation l)))
       (filter (\<lambda>l. ordinary_key l = k) ls))"
    "ac_sources acc = map (DraftLineRef \<circ> ls_draft_line_id) (filter (\<lambda>l. ordinary_key l = k) ls)"
    "ac_unresolved acc = length (filter (needs_attention \<circ> ls_calculation) (filter (\<lambda>l. ordinary_key l = k) ls))"
    by (rule accumulate_ordinary_member)
  have "k = (dt_assignment_id dt, di_period_definition_id d)"
    using l(2-4) acc(2,3) c(2) assms(5)
    by (auto simp: ordinary_key_def identity_of_definition_def)
  with l acc show ?thesis by (auto simp: Let_def filter_empty_conv)
qed

text \<open>The ordinary components of a list and their definitions, in order.\<close>

definition is_ordinary :: "official_component \<Rightarrow> bool" where
  "is_ordinary c \<longleftrightarrow> (case oc_identity c of ORDINARY _ \<Rightarrow> True | _ \<Rightarrow> False)"

definition ordinary_definitions :: "official_component list \<Rightarrow> definition_identity list" where
  "ordinary_definitions cs = concat (map (\<lambda>c. case oc_identity c of ORDINARY d \<Rightarrow> [d] | _ \<Rightarrow> []) cs)"

lemma is_ordinary_iff: "is_ordinary c \<longleftrightarrow> (\<exists>d. oc_identity c = ORDINARY d)"
  by (simp add: is_ordinary_def split: component_identity.split)

lemma ordinary_definitions_filter: "ordinary_definitions (filter is_ordinary cs) = ordinary_definitions cs"
  by (induction cs) (auto simp: ordinary_definitions_def is_ordinary_def split: component_identity.split)

lemma assembled_ordinary:
  assumes "assemble_driver digits ids so ordinary status bonus drv ev = Inr dt"
    "official_components digits (accumulate_ordinary ls) = Inr ordinary"
    "official_components digits (accumulate_status (so_status so)) = Inr status"
    "official_components digits (accumulate_bonus (map fst (so_bonus so))) = Inr bonus"
  shows "filter is_ordinary (dt_components dt) = components_of drv ordinary"
  using assms(1)
proof (rule assemble_driver_InrE)
  fix imprecise mnc mnl mxc mxl i
  assume mn: "adjustment digits drv (mo_proration ev) (mo_raw_minimum ev) (mp_minimum_rule (mo_proration ev))
       MINIMUM_ADJUSTMENT ''SYS_MIN_TOPUP'' = Inr (mnc, mnl, dt_minimum_adjustment dt)"
    and mx: "adjustment digits drv (mo_proration ev) (mo_raw_maximum ev) (mp_maximum_rule (mo_proration ev))
       MAXIMUM_ADJUSTMENT ''SYS_MAX_CAP'' = Inr (mxc, mxl, dt_maximum_adjustment dt)"
    and comps: "dt_components dt = components_of drv ordinary @ components_of drv status @
       components_of drv bonus @ mnc @ mxc"
  have "is_ordinary c" if "c \<in> set (components_of drv ordinary)" for c
    using that assms(2) unfolding is_ordinary_iff
    by (auto simp: components_of_member elim!: official_component_member accumulate_ordinary_member)
  moreover have "\<not> is_ordinary c" if "c \<in> set (components_of drv status @ components_of drv bonus @ mnc @ mxc)" for c
    using that adjustment_kind [OF mn] adjustment_kind [OF mx] components_kind [of digits _ status]
      components_kind [of digits _ bonus] assms(3,4) unfolding is_ordinary_iff
    by (fastforce simp: components_of_member)
  ultimately show ?thesis unfolding comps by (simp add: filter_id_conv filter_empty_conv)
qed

text \<open>One component per key, in the order of the keys.\<close>

definition component_of_key :: "live_source_line list \<Rightarrow> int \<times> int \<Rightarrow> official_component \<Rightarrow> bool" where
  "component_of_key ls k c \<longleftrightarrow> oc_assignment_id c = fst k \<and>
     (\<exists>d. oc_identity c = ORDINARY d \<and> di_period_definition_id d = snd k) \<and>
     oc_sources c = map (DraftLineRef \<circ> ls_draft_line_id) (filter (\<lambda>l. ordinary_key l = k) ls)"

lemma sort_key_keys: "distinct (map fst (sort_key fst xs)) \<longleftrightarrow> distinct (map fst xs)"
  by (rule mset_eq_imp_distinct_iff) simp

lemma ordinary_by_key:
  assumes "official_components digits (accumulate_ordinary ls) = Inr ordinary"
  shows "list_all2 (component_of_key ls) (sorted_list_of_set (ordinary_key ` set ls)) ordinary"
proof -
  let ?accs = "sort_key fst (accumulate_ordinary ls)"
  have "list_all2 (\<lambda>p c. component_of_key ls (fst p) c) ?accs ordinary"
    using official_components_InrD [OF assms]
  proof (rule list.rel_mono_strong)
    fix p c
    assume p: "p \<in> set ?accs" and "c \<in> set ordinary" and c: "(\<lambda>(k, acc) c. oc_identity c = ac_identity acc \<and>
      oc_assignment_id c = ac_assignment_id acc \<and> oc_raw c = ac_raw acc \<and>
      oc_sources c = ac_sources acc \<and> oc_unresolved c = ac_unresolved acc \<and>
      official_amount digits (oc_raw c) = Inr (oc_official c)) p c"
    obtain a i acc where pair: "p = ((a, i), acc)" by (cases p) auto
    with p have "((a, i), acc) \<in> set (accumulate_ordinary ls)" by simp
    then obtain l where "ordinary_key l = (a, i)" "ac_identity acc = ORDINARY (identity_of_definition (ls_definition l))"
      "ac_assignment_id acc = ls_assignment_id l"
      "ac_sources acc = map (DraftLineRef \<circ> ls_draft_line_id) (filter (\<lambda>l. ordinary_key l = (a, i)) ls)"
      by (rule accumulate_ordinary_member)
    with c show "component_of_key ls (fst p) c"
      unfolding pair component_of_key_def by (simp add: ordinary_key_def identity_of_definition_def)
  qed
  then have "list_all2 (component_of_key ls) (map fst ?accs) ordinary" by (simp add: list_all2_map1)
  moreover have "map fst ?accs = sorted_list_of_set (ordinary_key ` set ls)"
    by (rule sorted_distinct_set_unique)
      (simp_all add: accumulate_group_by sort_key_keys)
  ultimately show ?thesis by simp
qed

lemma concat_by_key:
  "distinct ks \<Longrightarrow> mset (concat (map (\<lambda>k. map f (filter (\<lambda>l. g l = k) ls)) ks)) = mset (map f (filter (\<lambda>l. g l \<in> set ks) ls))"
proof (induction ks)
  case (Cons k ks)
  have "mset (map f (filter (\<lambda>l. g l \<in> set (k # ks)) ls)) =
      mset (map f (filter (\<lambda>l. g l = k) ls)) + mset (map f (filter (\<lambda>l. g l \<in> set ks) ls))"
    using Cons.prems by (induction ls) auto
  with Cons show ?case by simp
qed simp

lemma packet_ordinary_partition:
  assumes "build_live_calculation_packet bd period cid db = Inr pk" "dt \<in> set (pk_drivers pk)"
    and "load_live_source_lines (pp_id period) cid db None None = Inr ls"
  defines "mine \<equiv> filter (\<lambda>l. ls_assignment_id l = dt_assignment_id dt) ls"
  shows "map di_period_definition_id (ordinary_definitions (dt_components dt)) =
      sorted_list_of_set ((pd_period_definition_id \<circ> ls_definition) ` set mine)"
    and "mset (concat (map oc_sources (filter is_ordinary (dt_components dt)))) =
      mset (map (DraftLineRef \<circ> ls_draft_line_id) mine)"
proof -
  let ?d = "map_option minor_unit_digits (pk_currency pk)" and ?drv = "dt_assignment_id dt"
  from assms(1,2) obtain so ordinary status bonus ev where
    so: "load_sources period cid db = Inr so"
    and o: "official_components ?d (accumulate_ordinary (so_lines so)) = Inr ordinary"
    and sb: "official_components ?d (accumulate_status (so_status so)) = Inr status"
      "official_components ?d (accumulate_bonus (map fst (so_bonus so))) = Inr bonus"
    and dt: "assemble_driver ?d (driver_identity_of cid db) so ordinary status bonus ?drv ev = Inr dt"
    by (rule packet_driverE) blast
  from so assms(3) have ls: "so_lines so = ls" by (auto dest!: load_sources_InrD(1))
  define ks where "ks = filter (\<lambda>k. fst k = ?drv) (sorted_list_of_set (ordinary_key ` set ls))"
  have comps: "filter is_ordinary (dt_components dt) = components_of ?drv ordinary"
    by (rule assembled_ordinary [OF dt o sb])
  have by_key: "list_all2 (component_of_key ls) ks (components_of ?drv ordinary)"
    unfolding ks_def components_of_def using ordinary_by_key [OF o [unfolded ls]]
    by (induction rule: list_all2_induct) (auto simp: component_of_key_def)
  have set_ks: "set ks = ordinary_key ` set mine" by (force simp: ks_def mine_def ordinary_key_def)
  have dist: "distinct ks" by (simp add: ks_def)
  have "map di_period_definition_id (ordinary_definitions (components_of ?drv ordinary)) = map snd ks"
    using by_key by (induction rule: list_all2_induct) (auto simp: component_of_key_def ordinary_definitions_def)
  moreover have "map snd ks = sorted_list_of_set ((pd_period_definition_id \<circ> ls_definition) ` set mine)"
  proof (rule sorted_distinct_set_unique)
    have "sorted ks" by (simp add: ks_def sorted_filter [of "\<lambda>x. x", simplified])
    moreover have drv: "\<forall>k\<in>set ks. fst k = ?drv" by (simp add: ks_def)
    ultimately show "sorted (map snd ks)"
      by (induction ks) (auto simp: less_eq_prod_def)
    from dist drv show "distinct (map snd ks)" by (auto simp: distinct_map inj_on_def prod_eq_iff)
    show "set (map snd ks) = set (sorted_list_of_set ((pd_period_definition_id \<circ> ls_definition) ` set mine))"
      using set_ks by (auto simp: ordinary_key_def image_image)
  qed simp_all
  ultimately show "map di_period_definition_id (ordinary_definitions (dt_components dt)) =
      sorted_list_of_set ((pd_period_definition_id \<circ> ls_definition) ` set mine)"
    using ordinary_definitions_filter [of "dt_components dt"] by (simp add: comps)
  have "map oc_sources (components_of ?drv ordinary) =
      map (\<lambda>k. map (DraftLineRef \<circ> ls_draft_line_id) (filter (\<lambda>l. ordinary_key l = k) ls)) ks"
    using by_key by (induction rule: list_all2_induct) (auto simp: component_of_key_def)
  moreover have "filter (\<lambda>l. ordinary_key l \<in> set ks) ls = mine"
    unfolding set_ks mine_def by (rule filter_cong) (auto simp: ordinary_key_def)
  ultimately show "mset (concat (map oc_sources (filter is_ordinary (dt_components dt)))) =
      mset (map (DraftLineRef \<circ> ls_draft_line_id) mine)"
    unfolding comps using concat_by_key [OF dist, of "DraftLineRef \<circ> ls_draft_line_id" ordinary_key ls] by simp
qed


section \<open>Packets without blockers\<close>

lemma calculation_amount:
  assumes "calculate_definition_input d r q = Inr c"
  shows "dc_amount c \<noteq> None \<longleftrightarrow> \<not> needs_attention c"
  using assms per_unit.amount_calculated [of r q c] ordinal_tiers.amount_calculated [of r q c]
  by (auto simp: calculate_definition_input_def calculators_def needs_attention_def outcome_def
      split: if_splits)

lemma status_amount:
  assumes "calculate_scalar_rate r q = Inr c"
  shows "dc_amount c \<noteq> None \<longleftrightarrow> \<not> needs_attention c"
  using assms per_unit.amount_calculated [of r q c]
  by (auto simp: calculate_scalar_rate_def needs_attention_def)

lemma loaded_line_amount:
  assumes "load_live_source_lines pid cid db ids wd = Inr ls" "l \<in> set ls"
  shows "dc_amount (ls_calculation l) \<noteq> None \<longleftrightarrow> \<not> needs_attention (ls_calculation l)"
  using assms by (rule load_source_member) (rule calculation_amount)

lemma loaded_status_amount:
  assumes "load_live_status_lines pid cid bid db = Inr ls" "l \<in> set ls"
  shows "dc_amount (st_calculation l) \<noteq> None \<longleftrightarrow> \<not> needs_attention (st_calculation l)"
proof -
  from list_all2_memberE [OF load_status_InrD [OF assms(1)] assms(2)] obtain row where
    "live_status_line_of (resolve_key cid db) row = Inr l" .
  then show ?thesis
    by (auto simp: live_status_line_of_def map_r_Inr_iff dest: status_amount split: prod.splits)
qed

lemma distinct_count_list: "distinct xs \<longleftrightarrow> (\<forall>y\<in>set xs. count_list xs y \<le> 1)"
proof (induction xs)
  case (Cons x xs)
  have "count_list xs x = 0 \<longleftrightarrow> x \<notin> set xs" by (rule count_list_0_iff)
  with Cons show ?case by (auto split: if_splits)
qed simp

lemma duplicate_slots_Nil:
  "duplicate_slots lines = [] \<longleftrightarrow>
     (\<forall>y\<in>set (map line_slot lines). length (filter (\<lambda>dl. line_slot dl = y) lines) \<le> 1)"
proof -
  have "(case y of (a, d, p) \<Rightarrow> concat (map (\<lambda>n. if 1 < n then [(a, d, p, n)] else [])
      [length (filter (\<lambda>dl. line_slot dl = (a, d, p)) lines)])) = [] \<longleftrightarrow>
      length (filter (\<lambda>dl. line_slot dl = y) lines) \<le> 1" for y
    by (cases y) (simp add: not_less)
  then show ?thesis
    unfolding duplicate_slots_def concat_eq_Nil_conv set_map set_remdups ball_simps by blast
qed

lemma duplicate_slots_empty: "duplicate_slots lines = [] \<longleftrightarrow> distinct (map line_slot lines)"
proof -
  have "length (filter (\<lambda>dl. line_slot dl = y) lines) = count_list (map line_slot lines) y" for y
    by (induction lines) auto
  then show ?thesis by (simp only: duplicate_slots_Nil distinct_count_list)
qed

lemma validate_no_blockers:
  assumes "validate_period_can_finalize p c br db = Inr []"
  shows "distinct (map line_slot (active_lines p c db))"
    and "\<forall>dl\<in>set (active_lines p c db). \<exists>el\<in>set (eligibility db). el_period_id el = p \<and>
      el_assignment_id el = dl_assignment_id dl \<and> el_is_eligible el"
proof -
  from assms have "take 5 (duplicate_slots (active_lines p c db)) = []"
    "take 5 (ineligible_lines (active_lines p c db) db) = []"
    by (auto simp: validate_period_can_finalize_def Let_def bind_r_Inr_iff split: if_splits)
  then show "distinct (map line_slot (active_lines p c db))"
    "\<forall>dl\<in>set (active_lines p c db). \<exists>el\<in>set (eligibility db). el_period_id el = p \<and>
      el_assignment_id el = dl_assignment_id dl \<and> el_is_eligible el"
    by (auto simp: duplicate_slots_empty ineligible_lines_def filter_empty_conv active_lines_def)
qed

lemma outcome_status:
  assumes "evaluate_assignment period digits has_days sch el off a driver base mn mx = Inr ev"
    and "mo_blockers ev = []"
  shows "mp_status (mo_proration ev) \<in> {APPLIED, NO_RULE, NO_SCHEDULED_DAYS, NO_ELIGIBLE_SCHEDULED_DAYS}"
  using assms(1)
proof (cases rule: evaluate_assignment_cases)
  case counted
  from counted(6) show ?thesis by (cases rule: apply_counted_days_cases) auto
qed (use assms(2) in \<open>auto simp: proration_of_def\<close>)

lemma packet_minmax_status:
  assumes "build_live_calculation_packet bd period cid db = Inr pk" "dt \<in> set (pk_drivers pk)"
    and "dt_blockers dt = []"
  shows "mp_status (dt_minmax dt) \<in> {APPLIED, NO_RULE, NO_SCHEDULED_DAYS, NO_ELIGIBLE_SCHEDULED_DAYS}"
proof -
  from assms(1,2) obtain so ordinary status bonus owners outcomes ev where
    e: "evaluate_minmax bd period cid owners
       (\<lambda>drv. dec_add (pay_of drv ordinary) (pay_of drv status)) (pk_currency pk) db = Inr outcomes"
      "(dt_assignment_id dt, ev) \<in> set outcomes"
    and dt: "assemble_driver (map_option minor_unit_digits (pk_currency pk))
       (driver_identity_of cid db) so ordinary status bonus (dt_assignment_id dt) ev = Inr dt"
    by (rule packet_driverE) blast
  from dt assms(3) have "mo_blockers ev = []" "dt_minmax dt = mo_proration ev"
    by (auto elim!: assemble_driver_InrE)
  with e show ?thesis by (auto elim!: evaluate_minmax_memberE dest!: outcome_status)
qed


section \<open>The DriverAssignment behind a driver total\<close>

lemma driver_identity_of_SomeD:
  assumes "driver_identity_of cid db drv = Some i"
  obtains x where "x \<in> set (assignments db)" "asg_id x = drv" "asg_company_id x = cid"
    "asg_driver_id x = id_driver_id i"
proof -
  let ?rows = "[\<lparr>id_driver_id = asg_driver_id a, id_employee_id = asg_employee_id a,
             id_number = dr_number d, id_name = em_full_name e\<rparr>.
             a \<leftarrow> assignments db, d \<leftarrow> drivers db, e \<leftarrow> employees db,
             dr_driver_id d = asg_driver_id a \<and> em_id e = asg_employee_id a \<and>
             asg_company_id a = cid \<and> asg_id a = drv]"
  from assms have "i \<in> set ?rows"
    unfolding driver_identity_of_def by (cases ?rows) simp_all
  then show thesis by (auto intro: that split: if_splits)
qed

lemma packet_driver_assignment:
  assumes "build_live_calculation_packet bd period cid db = Inr pk" "dt \<in> set (pk_drivers pk)"
  obtains x where "x \<in> set (assignments db)" "asg_id x = dt_assignment_id dt"
    "asg_driver_id x = dt_driver_id dt" "asg_company_id x = cid"
    "set (mp_counted_dates (dt_minmax dt)) \<subseteq> set (eligible_days_of bd (pp_id period) cid
       (scheduled_days_of (day_rows_of (pp_id period) cid db)) db (asg_id x))"
proof -
  from assms obtain so ordinary status bonus owners outcomes ev where
    e: "evaluate_minmax bd period cid owners
       (\<lambda>drv. dec_add (pay_of drv ordinary) (pay_of drv status)) (pk_currency pk) db = Inr outcomes"
      "(dt_assignment_id dt, ev) \<in> set outcomes"
    and dt: "assemble_driver (map_option minor_unit_digits (pk_currency pk))
       (driver_identity_of cid db) so ordinary status bonus (dt_assignment_id dt) ev = Inr dt"
    by (rule packet_driverE) blast
  from dt obtain i where i: "driver_identity_of cid db (dt_assignment_id dt) = Some i"
    "dt_driver_id dt = id_driver_id i" "dt_minmax dt = mo_proration ev"
    by (rule assemble_driver_InrE) blast
  from i(1) obtain x where "x \<in> set (assignments db)" "asg_id x = dt_assignment_id dt"
    "asg_company_id x = cid" "asg_driver_id x = id_driver_id i"
    by (rule driver_identity_of_SomeD)
  with i counted_dates_eligible [OF e] show thesis by (intro that [of x]) simp_all
qed

section \<open>The clamp\<close>

lemma load_effective_rules_SomeD:
  assumes "load_effective_rules cid ids as_of db (driver, t) = Some r"
  obtains row where "row \<in> set (pay_rules db)" "mr_amount r = pr_amount row" "pr_driver_id row = driver"
    "pr_rule_type row = t" "in_window (pr_effective_from row) (pr_effective_to row) as_of"
    "pr_status row \<in> {''Active'', ''Ended''}"
  using assms
  by (auto simp: load_effective_rules_def rule_in_effect_def minmax_rule_from_row_def
      dest!: find_first_SomeD)

lemma prorate_rule_share:
  assumes "prorate_rule n d rule = Inr rule'" "\<And>r. rule = Some r \<Longrightarrow> has_scale 4 (mr_amount r) \<and>
      0 \<le> mr_amount r \<and> mr_amount r < 10 ^ 14"
    and "0 \<le> n" "n \<le> d" "0 < d" "d \<le> 10 ^ 6"
  shows "Option.bind rule' mr_prorated =
      map_option (\<lambda>r. rounded 4 (mr_amount r * of_int n / of_int d)) rule'"
    and "map_option mr_amount rule' = map_option mr_amount rule"
    and "\<And>m. Option.bind rule' mr_prorated = Some m \<Longrightarrow> money (10 ^ 20) m"
proof -
  show eq: "Option.bind rule' mr_prorated =
      map_option (\<lambda>r. rounded 4 (mr_amount r * of_int n / of_int d)) rule'"
    using assms prorate_exact [of _ n d] by (auto simp: prorate_rule_def map_r_Inr_iff split: option.splits)
  show am: "map_option mr_amount rule' = map_option mr_amount rule"
    using assms(1) by (auto simp: prorate_rule_def map_r_Inr_iff split: option.splits)
  fix m assume "Option.bind rule' mr_prorated = Some m"
  then obtain r where r: "rule' = Some r" "m = rounded 4 (mr_amount r * of_int n / of_int d)"
    unfolding eq by auto
  with am obtain r0 where "rule = Some r0" "mr_amount r = mr_amount r0" by (cases rule) auto
  with assms(2) have a: "has_scale 4 (mr_amount r)" "0 \<le> mr_amount r" "mr_amount r < 10 ^ 14" by auto
  from prorate_value_bounds [OF a(1,2) assms(3-5)] a(3) r(2)
  show "money (10 ^ 20) m" by (auto simp: money_def)
qed

lemma rounded_small_adjustments:
  assumes "x = 0 \<or> y = (0::decimal)"
  shows "\<bar>(rounded k x + rounded k y) - (x + y)\<bar> \<le> 1 / (2 * 10 ^ k)"
  using assms rounded_error [of k x] rounded_error [of k y] by auto

lemma adjustment_amount:
  assumes "adjustment (Some k) drv p raw rule ident lt = Inr (cs, ls, a)" "rule = None \<Longrightarrow> raw = 0"
  shows "a = rounded (nat k) raw"
  using assms adjustment_InrD(7) [OF assms(1)]
  by (auto simp: adjustment_def dest!: official_amount_error split: option.splits if_splits)

lemma packet_clamp:
  assumes "build_live_calculation_packet bd period cid db = Inr pk" "dt \<in> set (pk_drivers pk)"
    and "bounded_driver dt" "pk_currency pk = Some cur"
    and "mp_status (dt_minmax dt) = APPLIED"
    and rows: "\<forall>r\<in>set (pay_rules db). has_scale 4 (pr_amount r) \<and> 0 \<le> pr_amount r \<and> pr_amount r < 10 ^ 14"
    and bound: "\<forall>d. mp_denominator (dt_minmax dt) = Some d \<longrightarrow> d \<le> 10 ^ 6"
  shows "\<bar>(dt_daily_pay dt + dt_status_pay dt + dt_minimum_adjustment dt + dt_maximum_adjustment dt) -
      clamp (prorated_share (dt_minmax dt) (mp_minimum_rule (dt_minmax dt)))
            (prorated_share (dt_minmax dt) (mp_maximum_rule (dt_minmax dt)))
            (dt_daily_pay dt + dt_status_pay dt)\<bar> \<le> 1 / (2 * 10 ^ nat (minor_unit_digits cur))"
proof -
  let ?k = "minor_unit_digits cur"
  let ?base = "dt_daily_pay dt + dt_status_pay dt"
  from assms(1,2) obtain so ordinary status bonus owners outcomes ev where
    e: "evaluate_minmax bd period cid owners
       (\<lambda>drv. dec_add (pay_of drv ordinary) (pay_of drv status)) (pk_currency pk) db = Inr outcomes"
      "(dt_assignment_id dt, ev) \<in> set outcomes"
    and dt: "assemble_driver (map_option minor_unit_digits (pk_currency pk))
       (driver_identity_of cid db) so ordinary status bonus (dt_assignment_id dt) ev = Inr dt"
    by (rule packet_driverE) blast
  from dt obtain mnc mnl mxc mxl where
    adj: "adjustment (Some ?k) (dt_assignment_id dt) (mo_proration ev) (mo_raw_minimum ev)
      (mp_minimum_rule (mo_proration ev)) MINIMUM_ADJUSTMENT ''SYS_MIN_TOPUP''
      = Inr (mnc, mnl, dt_minimum_adjustment dt)"
      "adjustment (Some ?k) (dt_assignment_id dt) (mo_proration ev) (mo_raw_maximum ev)
      (mp_maximum_rule (mo_proration ev)) MAXIMUM_ADJUSTMENT ''SYS_MAX_CAP''
      = Inr (mxc, mxl, dt_maximum_adjustment dt)"
    and mm: "dt_minmax dt = mo_proration ev"
    and pays: "dt_daily_pay dt = pay_of (dt_assignment_id dt) ordinary"
      "dt_status_pay dt = pay_of (dt_assignment_id dt) status"
    using assms(4) by (auto elim!: assemble_driver_InrE)
  note sums = packet_driver_sums [OF assms(1-3)]
  have base: "dec_add (pay_of (dt_assignment_id dt) ordinary) (pay_of (dt_assignment_id dt) status) = ?base"
    using sums(4,5) unfolding pays [symmetric] by (intro dec_add_exact) (auto simp: money_def)
  have mbase: "money (10 ^ 20) ?base"
    using sums(4,5) by (auto simp: money_def)
  from e obtain driver has_days scheduled eligible off where
    ea: "evaluate_assignment period (map_option minor_unit_digits (pk_currency pk)) has_days scheduled
       eligible off (dt_assignment_id dt) driver ?base
       (load_effective_rules cid (map snd owners) (pp_start period) db (driver, ''MinimumPay''))
       (load_effective_rules cid (map snd owners) (pp_start period) db (driver, ''MaximumPay'')) = Inr ev"
    (is "evaluate_assignment _ _ _ _ _ _ _ _ _ ?mn ?mx = _")
    by (rule evaluate_minmax_memberE) (use base in auto)
  have amounts: "has_scale 4 (mr_amount r) \<and> 0 \<le> mr_amount r \<and> mr_amount r < 10 ^ 14"
    if "?mn = Some r \<or> ?mx = Some r" for r
    using that rows by (auto elim!: load_effective_rules_SomeD)
  from ea show ?thesis
  proof (cases rule: evaluate_assignment_cases)
    case counted
    from counted(6) show ?thesis
    proof (cases rule: apply_counted_days_cases)
      case (applied mn' mx')
      let ?n = "int (length (counted_days scheduled eligible off))" and ?d = "int (length scheduled)"
      have "length (counted_days scheduled eligible off) \<le> length scheduled"
        by (rule order_trans [OF counted_le_scheduled length_remdups_leq])
      then have nd: "0 \<le> ?n" "?n \<le> ?d" "0 < ?d" "?d \<le> 10 ^ 6"
        using applied(12,13) bound by (auto simp: mm)
      note mn = prorate_rule_share [OF applied(5) _ nd] and mx = prorate_rule_share [OF applied(6) _ nd]
      let ?lo = "Option.bind mn' mr_prorated" and ?hi = "Option.bind mx' mr_prorated"
      have lo: "?lo = prorated_share (dt_minmax dt) (mp_minimum_rule (dt_minmax dt))"
        and hi: "?hi = prorated_share (dt_minmax dt) (mp_maximum_rule (dt_minmax dt))"
        using mn(1) mx(1) amounts applied by (auto simp: mm prorated_share_def)
      have ordered: "case (?lo, ?hi) of (Some a, Some b) \<Rightarrow> a \<le> b | _ \<Rightarrow> True"
        using mn(1,2) mx(1,2) amounts counted(5) nd
        by (auto simp: order_blockers_def not_less split: option.splits if_splits
            intro!: rounded_mono divide_right_mono mult_right_mono)
      note clamped = raw_adjustments_clamp' [OF mbase mn(3) mx(3) ordered]
      have mn_adj: "dt_minimum_adjustment dt = rounded (nat ?k) (mo_raw_minimum ev)"
        using applied(7,9) by (intro adjustment_amount [OF adj(1)]) (auto simp: raw_minimum_adjustment_def)
      have mx_adj: "dt_maximum_adjustment dt = rounded (nat ?k) (mo_raw_maximum ev)"
        using applied(8,10) by (intro adjustment_amount [OF adj(2)]) (auto simp: raw_maximum_adjustment_def)
      have one: "mo_raw_minimum ev = 0 \<or> mo_raw_maximum ev = 0"
        and total: "?base + mo_raw_minimum ev + mo_raw_maximum ev = clamp ?lo ?hi ?base"
        using clamped amounts applied(7,8) by simp_all
      have shift: "b + x + y - (b + u + v) = (x + y) - (u + v)" for b x y u v :: decimal by simp
      show ?thesis
        unfolding lo [symmetric] hi [symmetric] total [symmetric] mn_adj mx_adj shift
        by (rule rounded_small_adjustments [OF one])
    qed (use assms(5) mm in auto)
  qed (use assms(5) mm in \<open>auto simp: proration_of_def\<close>)
qed

end
