(* ===== verification/Packet_Properties.thy ===== *)
theory Packet_Properties
  imports Packet_Facts
begin

text \<open>
  Properties of the live calculation packet, and the concrete company, period and roster their
  witnesses evaluate: one Driver with two consecutive DriverAssignments in one Branch, an
  hourly line under each, a Bonus event and both pay rules.
\<close>

section \<open>A sample company\<close>

definition sample_boundary :: "string \<Rightarrow> date \<Rightarrow> int" where
  "sample_boundary zone d = 24 * d"

definition sample_line :: "int \<Rightarrow> int \<Rightarrow> date \<Rightarrow> decimal \<Rightarrow> draft_line_row" where
  "sample_line i a d q =
     \<lparr>dl_id = i, dl_period_id = 100, dl_company_id = 1, dl_branch_id = 2, dl_assignment_id = a,
      dl_work_date = d, dl_definition_id = 60, dl_quantity = q, dl_source_type = ''Manual'',
      dl_notes = None, dl_status = ''Draft''\<rparr>"

definition sample_assignment :: "int \<Rightarrow> int \<Rightarrow> int option \<Rightarrow> string option \<Rightarrow> assignment_row" where
  "sample_assignment i f t r =
     \<lparr>asg_id = i, asg_company_id = 1, asg_branch_id = 2, asg_driver_id = 7, asg_employee_id = 9,
      asg_effective_from_at = f, asg_effective_to_at = t, asg_end_reason = r\<rparr>"

definition sample_rule :: "int \<Rightarrow> string \<Rightarrow> decimal \<Rightarrow> pay_rule_row" where
  "sample_rule i t a =
     \<lparr>pr_id = i, pr_company_id = 1, pr_driver_id = 7, pr_rule_type = t, pr_amount = a,
      pr_status = ''Active'', pr_effective_from = 0, pr_effective_to = None,
      pr_calendar_frequency = ''Week'', pr_calendar_anchor = 1, pr_calendar_interval = None,
      pr_calendar_branch_id = 2, pr_calendar_version_id = 1\<rparr>"

definition sample_day :: "date \<Rightarrow> period_day_row" where
  "sample_day d = \<lparr>pday_period_id = 100, pday_company_id = 1, pday_work_date = d,
     pday_is_default = d \<le> 5, pday_is_added = False\<rparr>"

definition sample_period :: period_row where
  "sample_period = \<lparr>pp_id = 100, pp_company_id = 1, pp_branch_id = 2, pp_start = 1, pp_end = 7,
     pp_status = ''Open''\<rparr>"

definition sample_db :: payroll_db where
  "sample_db =
    \<lparr>drivers = [\<lparr>dr_driver_id = 7, dr_company_id = 1, dr_status = ''Active'', dr_number = ''D7''\<rparr>],
     rate_definitions = [\<lparr>rd_id = 30, rd_company_id = 1, rd_shape = ''Scalar'',
        rd_pay_definition_id = Some 20, rd_calculation_method = Some ''PerUnit'',
        rd_status_rate_column_id = None\<rparr>],
     rate_schedules = [\<lparr>sch_id = 40, sch_company_id = 1, sch_driver_id = 7,
        sch_rate_definition_id = 30, sch_status = ''Approved'', sch_effective_from = 0,
        sch_effective_to = None\<rparr>],
     rate_components = [\<lparr>cmp_id = 50, cmp_rate_definition_id = 30, cmp_sequence_no = 1,
        cmp_ordinal_from = None, cmp_ordinal_to = None\<rparr>],
     schedule_values = [\<lparr>val_schedule_id = 40, val_component_id = 50, val_amount = 1225 / 100\<rparr>],
     assignments = [sample_assignment 8 0 (Some 72) (Some ''Transferred''), sample_assignment 10 72 None None],
     period_definitions = [\<lparr>ppd_id = 60, ppd_period_id = 100, ppd_company_id = 1, ppd_branch_id = 2,
        ppd_pay_definition_id = 20, ppd_rate_definition_id = 30, ppd_code = ''H'', ppd_name = ''Hours'',
        ppd_input_type = ''Decimal'', ppd_unit = None, ppd_calculation_method = ''PerUnit'',
        ppd_calculation_method_version = 1, ppd_rate_shape = ''Scalar'', ppd_is_active = True,
        ppd_sort_order = 1\<rparr>],
     draft_lines = [sample_line 70 8 1 (33 / 10), sample_line 71 10 4 50],
     status_keys = [], status_columns = [], entry_states = [],
     bonus_events = [\<lparr>be_id = 80, be_period_id = 100, be_company_id = 1, be_assignment_id = 8,
        be_amount = 5, be_reason = ''B'', be_notes = None, be_data_revision = 1,
        be_created_by = Some 1, be_created_at = 0, be_status = ''Active''\<rparr>],
     users = [\<lparr>us_id = 1, us_display_name = ''U'', us_company_id = 1, us_is_active = True,
        us_can_login = True, us_is_staged = False\<rparr>],
     employees = [\<lparr>em_id = 9, em_full_name = ''N'', em_status = ''Active'', em_hire_date = None,
        em_termination_date = None\<rparr>],
     branches = [\<lparr>br_id = 2, br_company_id = 1, br_time_zone = ''UTC''\<rparr>],
     periods = [sample_period], eligibility = [], markers = [],
     pay_rules = [sample_rule 90 ''MinimumPay'' 150, sample_rule 91 ''MaximumPay'' 700],
     period_days = map sample_day [1..7],
     company_currencies = [(1, \<lparr>row_currency_code = Some ''EUR'', row_minor_unit_digits = Some 2\<rparr>)],
     monetary_companies = [1]\<rparr>"

definition sample_roster :: payroll_db where
  "sample_roster = create_period_driver_eligibility_rows sample_boundary 100 1 2 0 ''Generated'' True
     None None sample_db"

definition sample_packet :: live_packet where
  "sample_packet = (case build_live_calculation_packet sample_boundary sample_period 1 sample_roster of
     Inr pk \<Rightarrow> pk)"

text \<open>One evaluation of the packet: what the witnesses need to know of it.\<close>

definition driver_view ::
  "driver_total \<Rightarrow> int \<times> int \<times> decimal \<times> minmax_status \<times> int option \<times> bool \<times> bool" where
  "driver_view dt = (dt_assignment_id dt, dt_driver_id dt, dt_expected_pay dt, mp_status (dt_minmax dt),
     mp_denominator (dt_minmax dt), bounded_driver dt, dt_components dt = [])"

definition packet_view ::
  "live_packet \<Rightarrow> (int \<times> int \<times> decimal \<times> minmax_status \<times> int option \<times> bool \<times> bool) list \<times>
     company_currency option \<times> bool" where
  "packet_view pk = (map driver_view (pk_drivers pk), pk_currency pk, pk_blockers pk = [])"

lemma sample_packet_evaluated:
  "map_r packet_view (build_live_calculation_packet sample_boundary sample_period 1 sample_roster) =
   Inr ([(8, 7, 65, APPLIED, Some 5, True, False), (10, 7, 420, APPLIED, Some 5, True, False)],
     Some \<lparr>cur_code = ''EUR'', minor_unit_digits = 2\<rparr>, True)"
  by code_simp

lemma sample_packet_built:
  "build_live_calculation_packet sample_boundary sample_period 1 sample_roster = Inr sample_packet"
  and sample_packet_view: "packet_view sample_packet =
   ([(8, 7, 65, APPLIED, Some 5, True, False), (10, 7, 420, APPLIED, Some 5, True, False)],
     Some \<lparr>cur_code = ''EUR'', minor_unit_digits = 2\<rparr>, True)"
  using sample_packet_evaluated by (auto simp: sample_packet_def map_r_Inr_iff)

lemma sample_packet_drivers:
  obtains dt dt' where "pk_drivers sample_packet = [dt, dt']"
    "driver_view dt = (8, 7, 65, APPLIED, Some 5, True, False)"
    "driver_view dt' = (10, 7, 420, APPLIED, Some 5, True, False)"
  using sample_packet_view by (auto simp: packet_view_def)

lemma sample_packet_bounds:
  "\<forall>dt\<in>set (pk_drivers sample_packet). bounded_driver dt"
  "length (pk_drivers sample_packet) \<le> 10 ^ 6"
  by (rule sample_packet_drivers, simp add: driver_view_def)+

lemma sample_packet_first:
  "dt_assignment_id (hd (pk_drivers sample_packet)) = 8"
  "dt_assignment_id (last (pk_drivers sample_packet)) = 10"
  "dt_driver_id (hd (pk_drivers sample_packet)) = dt_driver_id (last (pk_drivers sample_packet))"
  "mp_status (dt_minmax (hd (pk_drivers sample_packet))) = APPLIED"
  "mp_denominator (dt_minmax (hd (pk_drivers sample_packet))) = Some 5"
  "dt_components (hd (pk_drivers sample_packet)) \<noteq> []"
  "hd (pk_drivers sample_packet) \<in> set (pk_drivers sample_packet)"
  "last (pk_drivers sample_packet) \<in> set (pk_drivers sample_packet)"
  by (rule sample_packet_drivers, simp add: driver_view_def)+

lemma sample_packet_rest:
  "pk_currency sample_packet = Some \<lparr>cur_code = ''EUR'', minor_unit_digits = 2\<rparr>"
  "pk_blockers sample_packet = []"
  using sample_packet_view by (simp_all add: packet_view_def)

lemmas sample_drivers_in = sample_packet_first(7,8)

section \<open>Reconciliation\<close>

text \<open>C3: the packet's total is, to the last digit, the sum of the official components
  of all its drivers, although every addition of the code goes through the ambient decimal
  context.\<close>

theorem packet_total_exact:
  assumes "build_live_calculation_packet bd period cid db = Inr pk"
    and "\<forall>dt\<in>set (pk_drivers pk). bounded_driver dt" and "length (pk_drivers pk) \<le> 10 ^ 6"
  shows "pk_total pk = (\<Sum>dt\<leftarrow>pk_drivers pk. \<Sum>c\<leftarrow>dt_components dt. oc_official c)"
proof -
  have m: "money (10 ^ 17) x" if "x \<in> set (map dt_expected_pay (pk_drivers pk))" for x
    using that packet_driver_sums(3) [OF assms(1)] assms(2) by auto
  have "pk_total pk = dec_sum (map dt_expected_pay (pk_drivers pk))"
    using assms(1) by (auto elim!: build_packet_InrE assemble_packet_InrE)
  also have "\<dots> = sum_list (map dt_expected_pay (pk_drivers pk))"
    by (rule dec_sum_money(1) [OF m, where n = "10 ^ 6"]) (use assms(3) in simp_all)
  also have "map dt_expected_pay (pk_drivers pk) =
      map (\<lambda>dt. \<Sum>c\<leftarrow>dt_components dt. oc_official c) (pk_drivers pk)"
    using packet_driver_sums(1) [OF assms(1)] assms(2) by (intro map_cong) auto
  finally show ?thesis .
qed

theorem packet_total_exact_witness:
  "pk_total sample_packet = (\<Sum>dt\<leftarrow>pk_drivers sample_packet. \<Sum>c\<leftarrow>dt_components dt. oc_official c)"
  by (rule packet_total_exact [OF sample_packet_built sample_packet_bounds])

text \<open>C20: a driver's expected pay is exactly daily pay plus Status pay plus the Minimum
  top-up plus the (non-positive) Maximum cut plus the Bonus, and is the sum of the driver's
  official components: nothing is rounded a second time.\<close>

theorem driver_pay_breakdown:
  assumes "build_live_calculation_packet bd period cid db = Inr pk" "dt \<in> set (pk_drivers pk)"
    and "bounded_driver dt"
  shows "dt_expected_pay dt = dt_daily_pay dt + dt_status_pay dt + dt_minimum_adjustment dt +
      dt_maximum_adjustment dt + dt_bonus_total dt \<and>
    dt_expected_pay dt = (\<Sum>c\<leftarrow>dt_components dt. oc_official c)"
  using packet_driver_sums(1,2) [OF assms] by simp

theorem driver_pay_breakdown_witness:
  "dt_expected_pay (hd (pk_drivers sample_packet)) =
   (\<Sum>c\<leftarrow>dt_components (hd (pk_drivers sample_packet)). oc_official c)"
  using driver_pay_breakdown [OF sample_packet_built sample_drivers_in(1)]
    sample_packet_bounds(1) sample_drivers_in(1) by blast

text \<open>C28: every official component of a packet is its exact raw amount rounded once, half
  to even, to the Company currency, hence within half a minor unit of it; without a currency
  every raw and official amount is zero.\<close>

theorem component_rounded_once:
  assumes "build_live_calculation_packet bd period cid db = Inr pk" "dt \<in> set (pk_drivers pk)"
    and "c \<in> set (dt_components dt)"
  shows "case pk_currency pk of
      None \<Rightarrow> oc_raw c = 0 \<and> oc_official c = 0
    | Some cur \<Rightarrow> supported_currency cur \<and> oc_official c = rounded (nat (minor_unit_digits cur)) (oc_raw c) \<and>
        \<bar>oc_official c - oc_raw c\<bar> \<le> 1 / (2 * 10 ^ nat (minor_unit_digits cur))"
  using packet_component_official(1) [OF assms]
  by (auto simp: supported_currency_def dest!: official_amount_error split: option.splits)

theorem component_rounded_once_witness:
  "case pk_currency sample_packet of
      None \<Rightarrow> False
    | Some cur \<Rightarrow> oc_official (hd (dt_components (hd (pk_drivers sample_packet)))) =
        rounded (nat (minor_unit_digits cur)) (oc_raw (hd (dt_components (hd (pk_drivers sample_packet)))))"
proof -
  show ?thesis
    using component_rounded_once [OF sample_packet_built sample_drivers_in(1)
        list.set_sel(1) [OF sample_packet_first(6)]]
    by (simp add: sample_packet_rest)
qed

section \<open>Completeness\<close>

text \<open>C21: the ordinary components of a driver partition the loaded lines of the DriverAssignment.  There
  is exactly one component per period definition with such a line, in the order of the definitions; its
  raw amount is the sum of the calculated amounts of exactly the lines of that definition, its sources
  are those lines in load order; and all sources together are the lines of the driver, each as often
  as it was loaded: no line is lost and none is counted twice.\<close>

theorem ordinary_components_complete:
  assumes "build_live_calculation_packet bd period cid db = Inr pk" "dt \<in> set (pk_drivers pk)"
    and "load_live_source_lines (pp_id period) cid db None None = Inr ls"
  shows "map di_period_definition_id (ordinary_definitions (dt_components dt)) = sorted_list_of_set
        {pd_period_definition_id (ls_definition l) | l. l \<in> set ls \<and> ls_assignment_id l = dt_assignment_id dt} \<and>
    (\<forall>c\<in>set (dt_components dt). \<forall>d. oc_identity c = ORDINARY d \<longrightarrow>
      (let mine = filter (\<lambda>l. ordinary_key l = (dt_assignment_id dt, di_period_definition_id d)) ls in
        oc_raw c = dec_sum (map (\<lambda>l. amount_or_zero (dc_amount (ls_calculation l))) mine) \<and>
        oc_sources c = map (DraftLineRef \<circ> ls_draft_line_id) mine \<and> mine \<noteq> [] \<and>
        oc_unresolved c = length (filter (needs_attention \<circ> ls_calculation) mine))) \<and>
    mset (concat (map oc_sources (filter is_ordinary (dt_components dt)))) =
      mset (map (DraftLineRef \<circ> ls_draft_line_id) (filter (\<lambda>l. ls_assignment_id l = dt_assignment_id dt) ls))"
proof -
  have "(pd_period_definition_id \<circ> ls_definition) ` set (filter (\<lambda>l. ls_assignment_id l = dt_assignment_id dt) ls) =
      {pd_period_definition_id (ls_definition l) | l. l \<in> set ls \<and> ls_assignment_id l = dt_assignment_id dt}"
    by auto
  with packet_ordinary_partition [OF assms] packet_ordinary_sources [OF assms] show ?thesis by simp
qed

theorem ordinary_components_complete_witness:
  "\<exists>ls. load_live_source_lines 100 1 sample_roster None None = Inr ls \<and>
     mset (concat (map oc_sources (filter is_ordinary (dt_components (hd (pk_drivers sample_packet)))))) =
       mset (map (DraftLineRef \<circ> ls_draft_line_id) (filter (\<lambda>l. ls_assignment_id l = 8) ls)) \<and>
     map ls_assignment_id ls \<noteq> []"
proof -
  have "case load_live_source_lines 100 1 sample_roster None None of Inr ls \<Rightarrow> length ls = 2 | Inl _ \<Rightarrow> False"
    by code_simp
  then obtain ls where ls: "load_live_source_lines 100 1 sample_roster None None = Inr ls" "length ls = 2"
    by (auto split: sum.splits)
  have "pp_id sample_period = 100" by (simp add: sample_period_def)
  with ls ordinary_components_complete [OF sample_packet_built sample_drivers_in(1), of ls] sample_packet_first
  show ?thesis by (intro exI [of _ ls]) auto
qed

text \<open>The packet has one total per DriverAssignment with an ordinary line, a monetary
  Status selection or an active Bonus of the period, in ascending order and without repetition.\<close>

theorem packet_driver_list:
  assumes "build_live_calculation_packet bd period cid db = Inr pk"
    and "load_sources period cid db = Inr so"
  shows "sorted (map dt_assignment_id (pk_drivers pk)) \<and> distinct (map dt_assignment_id (pk_drivers pk)) \<and>
    set (map dt_assignment_id (pk_drivers pk)) =
      ls_assignment_id ` set (so_lines so) \<union> st_assignment_id ` set (so_status so) \<union>
      (be_assignment_id \<circ> fst) ` set (so_bonus so)"
proof -
  from assms obtain structural where
    "assemble_packet bd period cid db structural (pk_currency pk) so = Inr pk"
    by (auto elim!: build_packet_InrE)
  from assemble_packet_drivers [OF this] show ?thesis
    by (simp only: packet_drivers_def) auto
qed

theorem packet_driver_list_witness:
  "\<exists>so. load_sources sample_period 1 sample_roster = Inr so \<and>
     set (map dt_assignment_id (pk_drivers sample_packet)) =
       ls_assignment_id ` set (so_lines so) \<union> st_assignment_id ` set (so_status so) \<union>
       (be_assignment_id \<circ> fst) ` set (so_bonus so)"
proof -
  from sample_packet_built obtain so where "load_sources sample_period 1 sample_roster = Inr so"
    by (rule build_packet_InrE)
  with packet_driver_list [OF sample_packet_built this] show ?thesis by auto
qed

text \<open>C22: a packet without blockers is complete: every ordinary line and every Status line has
  an amount, the Company has a currency if anything is paid, no two active lines share a
  (driver, date, definition) slot, every active line is on the frozen roster, and no pay rule
  was set aside because of a conflict.\<close>

theorem packet_without_blockers_complete:
  assumes "build_live_calculation_packet bd period cid db = Inr pk" "pk_blockers pk = []"
    and "load_sources period cid db = Inr so"
  shows "(\<forall>l\<in>set (so_lines so). dc_amount (ls_calculation l) \<noteq> None) \<and>
    (\<forall>l\<in>set (so_status so). dc_amount (st_calculation l) \<noteq> None) \<and>
    (pk_drivers pk \<noteq> [] \<longrightarrow> pk_currency pk \<noteq> None) \<and>
    distinct (map line_slot (active_lines (pp_id period) cid db)) \<and>
    (\<forall>dl\<in>set (active_lines (pp_id period) cid db). \<exists>el\<in>set (eligibility db).
       el_period_id el = pp_id period \<and> el_assignment_id el = dl_assignment_id dl \<and> el_is_eligible el) \<and>
    (\<forall>dt\<in>set (pk_drivers pk). mp_status (dt_minmax dt) \<in>
       {APPLIED, NO_RULE, NO_SCHEDULED_DAYS, NO_ELIGIBLE_SCHEDULED_DAYS})"
proof -
  from assms(1,3) obtain structural where
    v: "validate_period_can_finalize (pp_id period) cid (pp_branch_id period) db = Inr structural"
    and a: "assemble_packet bd period cid db structural (pk_currency pk) so = Inr pk"
    by (auto elim!: build_packet_InrE)
  from a assms(2) have b: "structural = []" "packet_drivers so = [] \<or> pk_currency pk \<noteq> None"
    "\<forall>dt\<in>set (pk_drivers pk). dt_blockers dt = [] \<and> \<not> dt_needs_review dt"
    by (auto elim!: assemble_packet_InrE simp: driver_blockers_def split: if_splits)
  have drvs: "map dt_assignment_id (pk_drivers pk) = packet_drivers so"
    by (rule assemble_packet_drivers [OF a])
  have review: "\<not> driver_needs_review drv so" if "drv \<in> set (packet_drivers so)" for drv
    using a
  proof (rule assemble_packet_InrE)
    fix ordinary status bonus owners outcomes
    assume t: "list_all2 (\<lambda>(drv, ev) dt. assemble_driver (map_option minor_unit_digits (pk_currency pk))
        (driver_identity_of cid db) so ordinary status bonus drv ev = Inr dt) outcomes (pk_drivers pk)"
    from that drvs obtain dt where dt: "dt \<in> set (pk_drivers pk)" "dt_assignment_id dt = drv"
      by (metis (no_types, lifting) image_iff list.set_map)
    obtain p where "p \<in> set outcomes"
      "(case p of (drv, ev) \<Rightarrow> \<lambda>dt. assemble_driver (map_option minor_unit_digits (pk_currency pk))
        (driver_identity_of cid db) so ordinary status bonus drv ev = Inr dt) dt"
      by (rule list_all2_memberE [OF t dt(1)])
    then have "dt_needs_review dt = driver_needs_review drv so"
      using dt(2) by (cases p) (auto elim!: assemble_driver_InrE)
    with b(3) dt(1) show ?thesis by simp
  qed
  have "\<not> needs_attention (ls_calculation l)" if "l \<in> set (so_lines so)" for l
    using review [of "ls_assignment_id l"] that by (auto simp: packet_drivers_def driver_needs_review_def)
  moreover have "\<not> needs_attention (st_calculation l)" if "l \<in> set (so_status so)" for l
    using review [of "st_assignment_id l"] that by (auto simp: packet_drivers_def driver_needs_review_def)
  moreover have "pk_drivers pk \<noteq> [] \<longrightarrow> pk_currency pk \<noteq> None"
    using b(2) drvs by auto
  ultimately show ?thesis
    using validate_no_blockers [OF v [unfolded b(1)]] b(3) packet_minmax_status [OF assms(1)]
      loaded_line_amount [OF load_sources_InrD(1) [OF assms(3)]]
      loaded_status_amount [OF load_sources_InrD(2) [OF assms(3)]]
    by blast
qed

theorem packet_without_blockers_complete_witness:
  "pk_blockers sample_packet = [] \<and> pk_currency sample_packet \<noteq> None \<and>
   distinct (map line_slot (active_lines 100 1 sample_roster))"
proof -
  from sample_packet_built obtain so where "load_sources sample_period 1 sample_roster = Inr so"
    by (rule build_packet_InrE)
  from packet_without_blockers_complete [OF sample_packet_built sample_packet_rest(2) this] sample_packet_rest
  show ?thesis by (auto simp: sample_period_def)
qed

section \<open>Minimum and Maximum\<close>

text \<open>C4: two DriverAssignments of one permanent Driver never count the same scheduled day in one
  live period: the fractions their pay rules are prorated by are taken over disjoint days, so
  a transfer inside a period cannot pay a guaranteed day twice.\<close>

theorem days_counted_once:
  assumes "build_live_calculation_packet bd period cid db = Inr pk"
    and "dt \<in> set (pk_drivers pk)" "dt' \<in> set (pk_drivers pk)"
    and "dt_assignment_id dt \<noteq> dt_assignment_id dt'" "dt_driver_id dt = dt_driver_id dt'"
    and "distinct (map asg_id (assignments db))"
    and "period \<in> set (periods db)" "pp_status period \<noteq> ''Cancelled''"
  shows "set (mp_counted_dates (dt_minmax dt)) \<inter> set (mp_counted_dates (dt_minmax dt')) = {}"
proof -
  let ?days = "scheduled_days_of (day_rows_of (pp_id period) cid db)"
  obtain x where x: "x \<in> set (assignments db)" "asg_id x = dt_assignment_id dt"
    "asg_driver_id x = dt_driver_id dt" "asg_company_id x = cid"
    "set (mp_counted_dates (dt_minmax dt)) \<subseteq> set (eligible_days_of bd (pp_id period) cid ?days db (asg_id x))"
    by (rule packet_driver_assignment [OF assms(1,2)])
  obtain y where y: "y \<in> set (assignments db)" "asg_id y = dt_assignment_id dt'"
    "asg_driver_id y = dt_driver_id dt'" "asg_company_id y = cid"
    "set (mp_counted_dates (dt_minmax dt')) \<subseteq> set (eligible_days_of bd (pp_id period) cid ?days db (asg_id y))"
    by (rule packet_driver_assignment [OF assms(1,3)])
  have "asg_company_id x = asg_company_id y" "asg_driver_id x = asg_driver_id y" "asg_id x \<noteq> asg_id y"
    using x y assms(4,5) by simp_all
  from eligible_days_disjoint [OF assms(6) x(1) y(1) this assms(7,8), of bd cid ?days] x(5) y(5)
  show ?thesis by blast
qed

theorem days_counted_once_witness:
  "set (mp_counted_dates (dt_minmax (hd (pk_drivers sample_packet)))) \<inter>
   set (mp_counted_dates (dt_minmax (last (pk_drivers sample_packet)))) = {}"
proof (rule days_counted_once [OF sample_packet_built sample_drivers_in])
  show "distinct (map asg_id (assignments sample_roster))" by code_simp
  show "sample_period \<in> set (periods sample_roster)"
    by (simp add: sample_roster_def create_period_driver_eligibility_rows_def Let_def sample_db_def)
qed (use sample_packet_first in \<open>auto simp: sample_period_def\<close>)

text \<open>C29: where the rules apply, pay before Bonus is the earned pay brought between the prorated
  Minimum and the prorated Maximum, exactly up to the one payable rounding of the adjustment.\<close>

theorem minmax_clamps_pay:
  assumes "build_live_calculation_packet bd period cid db = Inr pk" "dt \<in> set (pk_drivers pk)"
    and "bounded_driver dt" "pk_currency pk = Some cur"
    and "mp_status (dt_minmax dt) = APPLIED"
    and "\<forall>r\<in>set (pay_rules db). has_scale 4 (pr_amount r) \<and> 0 \<le> pr_amount r \<and> pr_amount r < 10 ^ 14"
    and "\<forall>d. mp_denominator (dt_minmax dt) = Some d \<longrightarrow> d \<le> 10 ^ 6"
  shows "\<bar>(dt_daily_pay dt + dt_status_pay dt + dt_minimum_adjustment dt + dt_maximum_adjustment dt) -
      clamp (prorated_share (dt_minmax dt) (mp_minimum_rule (dt_minmax dt)))
            (prorated_share (dt_minmax dt) (mp_maximum_rule (dt_minmax dt)))
            (dt_daily_pay dt + dt_status_pay dt)\<bar> \<le> 1 / (2 * 10 ^ nat (minor_unit_digits cur))"
  by (rule packet_clamp [OF assms])

theorem minmax_clamps_pay_witness:
  "\<bar>(dt_daily_pay (hd (pk_drivers sample_packet)) + dt_status_pay (hd (pk_drivers sample_packet)) +
       dt_minimum_adjustment (hd (pk_drivers sample_packet)) +
       dt_maximum_adjustment (hd (pk_drivers sample_packet))) -
     clamp (prorated_share (dt_minmax (hd (pk_drivers sample_packet)))
              (mp_minimum_rule (dt_minmax (hd (pk_drivers sample_packet)))))
           (prorated_share (dt_minmax (hd (pk_drivers sample_packet)))
              (mp_maximum_rule (dt_minmax (hd (pk_drivers sample_packet)))))
           (dt_daily_pay (hd (pk_drivers sample_packet)) + dt_status_pay (hd (pk_drivers sample_packet)))\<bar>
   \<le> 1 / (2 * 10 ^ nat 2)"
proof -
  note cur = sample_packet_rest(1)
  have rules: "\<forall>r\<in>set (pay_rules sample_roster). has_scale 4 (pr_amount r) \<and> 0 \<le> pr_amount r \<and>
      pr_amount r < 10 ^ 14"
    by code_simp
  have days: "\<forall>d. mp_denominator (dt_minmax (hd (pk_drivers sample_packet))) = Some d \<longrightarrow> d \<le> 10 ^ 6"
    by (simp add: sample_packet_first(5))
  have bd: "bounded_driver (hd (pk_drivers sample_packet))"
    using sample_packet_bounds(1) sample_drivers_in(1) by blast
  show ?thesis
    using minmax_clamps_pay [OF sample_packet_built sample_drivers_in(1) bd cur sample_packet_first(4) rules days]
    by (simp only: company_currency.simps)
qed

end
