(* ===== verification/Kernel_Properties.thy ===== *)
theory Kernel_Properties
  imports Definition_Calculation Minmax_Proration Payable_Rounding
begin

text \<open>
  Properties of the pure money kernels: payable rounding and typed amounts, the per-unit and
  ordinal-tier calculations, proration, quantity validation and the method boundary.
\<close>

section \<open>Rounding\<close>

text \<open>C31: payable rounding accepts every amount of ordinary size, returns a value on the grid of
  the currency's minor unit that no other grid value is nearer to, and leaves it alone when it
  is applied again.\<close>

theorem round_payable_nearest:
  assumes "0 \<le> d" "d \<le> 4" "roundable a"
  shows "\<exists>r. round_payable (Finite a) d = Inr r \<and> has_scale (nat d) r \<and>
    (\<forall>y. has_scale (nat d) y \<longrightarrow> \<bar>r - a\<bar> \<le> \<bar>y - a\<bar>) \<and> round_payable (Finite r) d = Inr r"
  using round_payable_Finite [OF assms] rounded_nearest [of "nat d"] round_payable_idem [OF assms]
  by (intro exI [of _ "rounded (nat d) a"]) auto

theorem round_payable_nearest_witness:
  "\<exists>r. round_payable (Finite (40425 / 1000)) 2 = Inr r \<and> has_scale 2 r \<and>
    round_payable (Finite r) 2 = Inr r"
  using round_payable_nearest [of 2 "40425 / 1000"] by (auto simp: roundable_def)

text \<open>A typed amount is accepted exactly when, rounded to the currency, it is positive and
  fits the NUMERIC(18,4) column; the accepted value is that rounded value.\<close>

theorem typed_amount_accepted_iff:
  assumes "supported_currency c" "roundable a"
  shows "normalize_typed_amount (Finite a) c = Inr r \<longleftrightarrow>
    r = rounded (nat (minor_unit_digits c)) a \<and> 1 / (2 * 10 ^ nat (minor_unit_digits c)) < a \<and> r < 10 ^ 14"
  unfolding normalize_typed_amount_Inr_iff [OF assms] rounded_pos_iff [symmetric] by blast

theorem typed_amount_accepted_iff_witness:
  "normalize_typed_amount (Finite (1 / 100)) \<lparr>cur_code = ''EUR'', minor_unit_digits = 2\<rparr> = Inr (1 / 100)"
proof -
  have "rounded 2 (1 / 100) = 1 / 100" by code_simp
  then show ?thesis
    using typed_amount_accepted_iff [of "\<lparr>cur_code = ''EUR'', minor_unit_digits = 2\<rparr>" "1 / 100" "1 / 100"]
    by (simp add: supported_currency_def roundable_def)
qed

section \<open>Per-unit and ordinal tiers\<close>

text \<open>A per-unit line is the exact product of quantity and rate, rounded once to four
  decimals, as long as the product stays below ten to the twenty.\<close>

theorem per_unit_single_rounding:
  assumes "has_scale 4 q" "has_scale 4 r" "\<bar>q * r\<bar> < 10 ^ 20"
  shows "calculate_per_unit q r = Inr (rounded 4 (q * r))"
  using assms by (rule calculate_per_unit_exact)

theorem per_unit_single_rounding_witness:
  "calculate_per_unit (33 / 10) (1225 / 100) = Inr (40425 / 1000)"
proof -
  have "has_scale 4 (33 / 10)" "has_scale 4 (1225 / 100)" "rounded 4 (33 / 10 * (1225 / 100)) = 40425 / 1000"
    by code_simp+
  then show ?thesis using per_unit_single_rounding [of "33 / 10" "1225 / 100"] by simp
qed

text \<open>Above that size the product is first rounded to the 28 digits of the ambient decimal
  context and then to four decimals: the stored amount can differ from the exact product
  rounded once (here by one unit of the last place).\<close>

theorem per_unit_rounds_twice:
  "calculate_per_unit (483764529036563 / 10 ^ 4) (144942772862492 / 10 ^ 4)
     = Inr (7011817225107696675043930 / 10 ^ 4) \<and>
   rounded 4 (483764529036563 / 10 ^ 4 * (144942772862492 / 10 ^ 4))
     = 7011817225107696675043929 / 10 ^ 4"
  by code_simp

text \<open>The topology check accepts a tier list exactly when it is a chain that starts at one,
  has no gap or overlap and ends open; then every unit number from one on falls in exactly one
  tier.\<close>

theorem topology_covers_each_unit:
  "(topology_error tiers = None \<longleftrightarrow> tier_chain 1 tiers) \<and>
   (topology_error tiers = None \<and> 1 \<le> n \<longrightarrow> (\<exists>!b. b \<in> set tiers \<and> covers_ordinal b n))"
  using tier_chain_unique [of 1 tiers n] by (auto simp: topology_error_None_iff)

theorem topology_covers_each_unit_witness:
  "topology_error [(1, Some 40), (41, None)] = None \<and>
   (\<exists>!b. b \<in> set [(1, Some 40), (41, None)] \<and> covers_ordinal b 45)"
proof -
  have "topology_error [(1, Some 40), (41, None)] = None" by code_simp
  then show ?thesis using topology_covers_each_unit [of "[(1, Some 40), (41, None)]" 45] by simp
qed

text \<open>C34: the ordinal-tier calculation equals its reference meaning: every unit from one to the
  quantity is paid the rate of the tier that covers it, and the contributions explain the
  amount tier by tier.\<close>

theorem ordinal_tiers_pay_each_unit:
  assumes "filled_tiers m tiers rates" "0 \<le> q"
    and "of_nat (length tiers) * (of_int q * m) < 10 ^ 23"
  shows "calculate_ordinal_tier (Finite (of_int q)) tiers =
    Inr ((\<Sum>n = 1..q. value_at (zip tiers rates) n), map (exact_contribution q) (zip tiers rates))"
  using calculate_ordinal_tier_eval [OF assms] by (simp add: ordinal_pay_def)

definition sample_tiers :: "ordinal_tier list" where
  "sample_tiers =
     [\<lparr>sequence_no = 1, ordinal_from = 1, ordinal_to = Some 40, rate_amount = Finite 10\<rparr>,
      \<lparr>sequence_no = 2, ordinal_from = 41, ordinal_to = None, rate_amount = Finite 15\<rparr>]"

lemma sample_tiers_filled: "filled_tiers 15 sample_tiers [10, 15]"
proof -
  have "topology_error (map tier_bounds_of sample_tiers) = None" by code_simp
  then show ?thesis by (simp add: filled_tiers_def sample_tiers_def)
qed

theorem ordinal_tiers_pay_each_unit_witness:
  "map_r fst (calculate_ordinal_tier (Finite 45) sample_tiers) =
   Inr (\<Sum>n = 1..45. value_at (zip sample_tiers [10, 15]) n)"
  using ordinal_tiers_pay_each_unit [OF sample_tiers_filled, of 45] by (simp add: sample_tiers_def)

text \<open>More units never pay less.\<close>

theorem ordinal_tiers_monotone:
  assumes "filled_tiers m tiers rates" "0 \<le> q" "q \<le> q'" "0 \<le> m"
    and "of_nat (length tiers) * (of_int q' * m) < 10 ^ 23"
  shows "\<exists>a a'. map_r fst (calculate_ordinal_tier (Finite (of_int q)) tiers) = Inr a \<and>
    map_r fst (calculate_ordinal_tier (Finite (of_int q')) tiers) = Inr a' \<and> a \<le> a'"
proof -
  have "of_nat (length tiers) * (of_int q * m) \<le> of_nat (length tiers) * (of_int q' * m)"
    using assms(2-4) by (intro mult_left_mono mult_right_mono) auto
  then show ?thesis
    using calculate_ordinal_tier_eval [of m tiers rates q] calculate_ordinal_tier_eval [of m tiers rates q']
      ordinal_pay_mono [of m tiers rates q q'] assms by auto
qed

theorem ordinal_tiers_monotone_witness:
  "\<exists>a a'. map_r fst (calculate_ordinal_tier (Finite (of_int 40)) sample_tiers) = Inr a \<and>
    map_r fst (calculate_ordinal_tier (Finite (of_int 45)) sample_tiers) = Inr a' \<and> a \<le> a'"
  by (rule ordinal_tiers_monotone [OF sample_tiers_filled]) (simp_all add: sample_tiers_def)

section \<open>Proration\<close>

text \<open>A prorated amount is the exact share of the scheduled days rounded once to four decimals,
  between zero and the full amount; the intermediate roundings of the sixty-digit context
  never show.  A fraction outside the scheduled days is an error.\<close>

theorem prorate_share:
  assumes "has_scale 4 a" "0 \<le> a" "a < 10 ^ 14" "d \<le> 10 ^ 6"
  shows "prorate a n d =
    (if 0 < d \<and> 0 \<le> n \<and> n \<le> d then Inr (rounded 4 (a * of_int n / of_int d))
     else Inl (ValueError ''a proration needs 0 <= numerator <= denominator and denominator > 0'')) \<and>
    (0 < d \<and> 0 \<le> n \<and> n \<le> d \<longrightarrow> (\<exists>x. prorate a n d = Inr x \<and> 0 \<le> x \<and> x \<le> a))"
proof -
  have eq: "prorate a n d =
    (if 0 < d \<and> 0 \<le> n \<and> n \<le> d then Inr (rounded 4 (a * of_int n / of_int d))
     else Inl (ValueError ''a proration needs 0 <= numerator <= denominator and denominator > 0''))"
  proof (cases "0 < d \<and> 0 \<le> n \<and> n \<le> d")
    case True
    then show ?thesis using prorate_exact [of a n d] assms by simp
  next
    case False
    then show ?thesis by (auto simp: prorate_def)
  qed
  show ?thesis
    using prorate_value_bounds [of a n d] assms by (auto simp: eq)
qed

theorem prorate_share_witness:
  "prorate 100 1 3 = Inr (rounded 4 (100 * 1 / 3)) \<and> (\<exists>x. prorate 100 1 3 = Inr x \<and> 0 \<le> x \<and> x \<le> 100)"
  using prorate_share [of 100 3 1] by (auto simp del: ex_simps)

section \<open>Quantities and methods\<close>

text \<open>A quantity is accepted exactly when it is finite, in the half-open range from zero to ten to
  the fourteen, and whole where the input type asks for whole numbers.\<close>

theorem quantity_accepted_iff:
  "quantity_error input_type q = None \<longleftrightarrow>
     (\<exists>x. q = Finite x \<and> 0 \<le> x \<and> x < 10 ^ 14 \<and> (input_type = ''WholeNumber'' \<longrightarrow> is_whole x))"
  by (cases q) (auto simp: quantity_error_def quantity_limit_def)

theorem quantity_accepted_iff_witness:
  "quantity_error ''WholeNumber'' (Finite 3) = None"
  unfolding quantity_accepted_iff by (simp add: is_whole_def exI [of _ "3::int"])

text \<open>C40: the outcome of the calculation boundary has an amount if and only if its status is
  CALCULATED, and each status is given exactly for its own reason: METHOD_NOT_READY when the
  frozen method and version are not registered; MISSING_RATE when there is no schedule;
  INCOMPLETE_RATE when the schedule does not price the method (one component with a
  non-negative amount for PerUnit; for OrdinalTier non-negative tiers whose ranges cover every
  unit exactly once); INVALID_QUANTITY when complete tiers meet a negative or fractional
  quantity; CALCULATED in every other case, naming the schedule used and its window.\<close>

theorem definition_outcome_contract:
  assumes "calculate_definition_input d r q = Inr c"
  shows "(dc_amount c \<noteq> None \<longleftrightarrow> dc_status c = CALCULATED) \<and>
    (dc_status c = METHOD_NOT_READY \<longleftrightarrow>
       \<not> is_method_operational (pd_calculation_method d) (pd_calculation_method_version d)) \<and>
    (dc_status c = MISSING_RATE \<longleftrightarrow>
       is_method_operational (pd_calculation_method d) (pd_calculation_method_version d) \<and> r = None) \<and>
    (dc_status c = INCOMPLETE_RATE \<longleftrightarrow>
       is_method_operational (pd_calculation_method d) (pd_calculation_method_version d) \<and>
       (\<exists>s. r = Some s \<and> \<not> priced_for (pd_calculation_method d) s)) \<and>
    (dc_status c = INVALID_QUANTITY \<longleftrightarrow>
       is_method_operational (pd_calculation_method d) (pd_calculation_method_version d) \<and>
       (\<exists>s. r = Some s \<and> priced_for (pd_calculation_method d) s) \<and>
       pd_calculation_method d = ''OrdinalTier'' \<and> (q < 0 \<or> \<not> is_whole q)) \<and>
    (dc_status c = CALCULATED \<longleftrightarrow>
       is_method_operational (pd_calculation_method d) (pd_calculation_method_version d) \<and>
       (\<exists>s. r = Some s \<and> priced_for (pd_calculation_method d) s) \<and>
       (pd_calculation_method d = ''OrdinalTier'' \<longrightarrow> 0 \<le> q \<and> is_whole q)) \<and>
    (dc_status c = CALCULATED \<longrightarrow> (\<exists>s. r = Some s \<and> dc_schedule_id c = Some (res_schedule_id s) \<and>
       dc_effective_from c = Some (res_effective_from s) \<and> dc_effective_to c = res_effective_to s))"
proof -
  note facts = definition_outcome_facts [OF assms]
  have schedule: "\<exists>s. r = Some s" if "dc_status c = CALCULATED"
    using facts(1) that by (cases r) (auto simp: outcome_status_def split: if_splits)
  have status: "dc_status c = k \<longleftrightarrow> outcome_status d r q = k" for k by (simp add: facts(1))
  have last: "dc_status c = CALCULATED \<longrightarrow> (\<exists>s. r = Some s \<and> dc_schedule_id c = Some (res_schedule_id s) \<and>
       dc_effective_from c = Some (res_effective_from s) \<and> dc_effective_to c = res_effective_to s)"
    using schedule facts(3) by blast
  show ?thesis
    by (intro conjI last facts(2); unfold status)
      (cases r; auto simp: outcome_status_def not_less split: if_splits)+
qed

text \<open>At tiers 1..10 and 12.. with a gap at unit 11: registered, resolved, and incomplete.\<close>

theorem definition_outcome_contract_witness:
  "\<exists>c. calculate_definition_input
      \<lparr>pd_period_definition_id = 1, pd_pay_definition_id = 1, pd_rate_definition_id = 1, pd_code = ''P'',
       pd_name = ''P'', pd_input_type = ''WholeNumber'', pd_unit = None, pd_calculation_method = ''OrdinalTier'',
       pd_calculation_method_version = 1, pd_rate_shape = ''OrdinalTierSchedule'', pd_is_active = True\<rparr>
      (Some \<lparr>res_driver_id = 7, res_pay_definition_id = Some 1, res_rate_definition_id = 1,
        res_rate_shape = ''OrdinalTierSchedule'', res_calculation_method = Some ''OrdinalTier'',
        res_schedule_id = 5, res_schedule_status = ''APPROVED'', res_effective_from = 738000,
        res_effective_to = None, res_components =
          [\<lparr>rc_component_id = 1, rc_sequence_no = 1, rc_ordinal_from = Some 1, rc_ordinal_to = Some 10,
             rc_amount = Some 2\<rparr>,
           \<lparr>rc_component_id = 2, rc_sequence_no = 2, rc_ordinal_from = Some 12, rc_ordinal_to = None,
             rc_amount = Some 3\<rparr>]\<rparr>) 20 = Inr c \<and>
    dc_status c = INCOMPLETE_RATE \<and> dc_amount c = None"
  (is "\<exists>c. calculate_definition_input ?d (Some ?s) 20 = Inr c \<and> _")
proof -
  have run: "calculate_definition_input ?d (Some ?s) 20 = Inr (outcome INCOMPLETE_RATE (Some 5))"
    by (simp add: calculate_definition_input_def calculators_def calculate_ordinal_tier_method_def
        tier_of_component_def tier_bounds_of_def topology_error_def)
  have "False" if "covers_every_unit (map component_range (res_components ?s))"
  proof -
    from that have "\<exists>b. b \<in> set (map component_range (res_components ?s)) \<and> covers_ordinal b 11"
      unfolding covers_every_unit_def by (elim conjE allE [of _ 11]) (auto dest: ex1_implies_ex)
    then show False by (auto simp: component_range_def covers_ordinal_def)
  qed
  then have "\<not> priced_for ''OrdinalTier'' ?s" by (auto simp: priced_for_def)
  then have unpriced: "\<exists>s. Some ?s = Some s \<and> \<not> priced_for (pd_calculation_method ?d) s" by simp
  have registered: "is_method_operational (pd_calculation_method ?d) (pd_calculation_method_version ?d)"
    by (simp add: is_method_operational_def calculators_def)
  note contract = definition_outcome_contract [OF run]
  have status: "dc_status (outcome INCOMPLETE_RATE (Some 5)) = INCOMPLETE_RATE"
    using contract [THEN conjunct2, THEN conjunct2, THEN conjunct2, THEN conjunct1] registered unpriced
    by (rule iffD2 [OF _ conjI])
  have "dc_amount (outcome INCOMPLETE_RATE (Some 5)) = None"
    using contract [THEN conjunct1] status by simp
  with run status show ?thesis by blast
qed

end
