(* ===== verification/Timeline.thy ===== *)
theory Timeline
  imports Chronology
begin

text \<open>
  The version timeline of a Payroll Setup (second half of \<open>payroll_setup/chronology.py\<close>):
  terminal Published Versions in ascending order of their effective date, each governing from
  its date to the next one's.  The abstract view is \<open>governs\<close> (the latest segment at or before
  a date); the forward and backward searches are shown to find the nearest legal start.
\<close>

record schedule_segment =
  effective_from :: date
  seg_schedule :: schedule

fun governing :: "date \<Rightarrow> schedule_segment option \<Rightarrow> schedule_segment list \<Rightarrow> schedule_segment option" where
  "governing d g [] = g"
| "governing d g (s # ss) = (if effective_from s \<le> d then governing d (Some s) ss else g)"

definition timeline_schedule_at :: "schedule_segment list \<Rightarrow> date \<Rightarrow> schedule option" where
  "timeline_schedule_at segments d = map_option seg_schedule (governing d None segments)"

definition is_timeline_start :: "schedule_segment list \<Rightarrow> date \<Rightarrow> bool" where
  "is_timeline_start segments candidate =
     (case timeline_schedule_at segments candidate of
        None \<Rightarrow> False
      | Some s \<Rightarrow> is_period_start s candidate None)"

text \<open>The suffix from \<open>start_index\<close>: the last leading segment already effective, else the first.\<close>

fun from_start_index :: "date \<Rightarrow> schedule_segment list \<Rightarrow> schedule_segment list" where
  "from_start_index after (s # t # ss) =
     (if effective_from s \<le> after \<and> effective_from t \<le> after
      then from_start_index after (t # ss) else s # t # ss)"
| "from_start_index after ss = ss"

fun next_start_loop :: "date \<Rightarrow> schedule_segment list \<Rightarrow> date option" where
  "next_start_loop after [] = None"
| "next_start_loop after (s # ss) =
     (let lower = max after (effective_from s - 1);
          candidate = next_period_start (seg_schedule s) lower
      in case ss of
           [] \<Rightarrow> Some candidate
         | t # _ \<Rightarrow> if candidate < effective_from t then Some candidate
                    else next_start_loop after ss)"

definition timeline_next_start :: "schedule_segment list \<Rightarrow> date \<Rightarrow> date option" where
  "timeline_next_start segments after = next_start_loop after (from_start_index after segments)"

lemma governing_cases: "governing d g ss = g \<or> (\<exists>s\<in>set ss. governing d g ss = Some s \<and> effective_from s \<le> d)"
  by (induction d g ss rule: governing.induct) auto

lemma governing_None_SomeD:
  "governing d None ss = Some s \<Longrightarrow> s \<in> set ss \<and> effective_from s \<le> d"
  using governing_cases [of d None ss] by auto

function timeline_previous_start :: "schedule_segment list \<Rightarrow> date \<Rightarrow> date option" where
  "timeline_previous_start segments before =
     (case governing (before - 1) None segments of
        None \<Rightarrow> None
      | Some g \<Rightarrow>
          (case previous_period_start (seg_schedule g) before of
             None \<Rightarrow> timeline_previous_start segments (effective_from g)
           | Some candidate \<Rightarrow>
               if effective_from g \<le> candidate then Some candidate
               else timeline_previous_start segments (effective_from g)))"
  by pat_completeness auto

lemma length_filter_less:
  "(\<And>x. P x \<Longrightarrow> Q x) \<Longrightarrow> x \<in> set xs \<Longrightarrow> Q x \<Longrightarrow> \<not> P x \<Longrightarrow> length (filter P xs) < length (filter Q xs)"
proof (induction xs)
  case (Cons y ys)
  have "length (filter P ys) \<le> length (filter Q ys)"
    using Cons.prems(1) by (induction ys) auto
  with Cons show ?case by (cases "x = y") auto
qed simp

lemma previous_measure:
  assumes "governing (before - 1) None segments = Some g"
  shows "length (filter (\<lambda>s. effective_from s < effective_from g) segments)
    < length (filter (\<lambda>s. effective_from s < before) segments)"
  using governing_None_SomeD [OF assms] by (intro length_filter_less [of _ _ g]) auto

termination timeline_previous_start
  by (relation "measure (\<lambda>(segments, before). length (filter (\<lambda>s. effective_from s < before) segments))")
    (auto intro: previous_measure)

declare timeline_previous_start.simps [simp del]

section \<open>The governing segment\<close>

definition timeline_ok :: "schedule_segment list \<Rightarrow> bool" where
  "timeline_ok ss \<longleftrightarrow> sorted_wrt (<) (map effective_from ss) \<and> (\<forall>s\<in>set ss. schedule_ok (seg_schedule s))"

definition governs :: "schedule_segment list \<Rightarrow> schedule_segment \<Rightarrow> date \<Rightarrow> bool" where
  "governs ss s d \<longleftrightarrow> s \<in> set ss \<and> effective_from s \<le> d \<and>
     (\<forall>t\<in>set ss. effective_from t \<le> d \<longrightarrow> effective_from t \<le> effective_from s)"

lemma timeline_ok_Cons:
  "timeline_ok (s # ss) \<longleftrightarrow> schedule_ok (seg_schedule s) \<and>
     (\<forall>t\<in>set ss. effective_from s < effective_from t) \<and> timeline_ok ss"
  by (auto simp: timeline_ok_def)

lemma governing_spec:
  assumes "timeline_ok ss" "\<And>g'. g = Some g' \<Longrightarrow> \<forall>t\<in>set ss. effective_from g' < effective_from t"
  shows "governing d g ss = (if \<exists>s\<in>set ss. effective_from s \<le> d
    then Some (THE s. governs ss s d) else g)"
  using assms
proof (induction ss arbitrary: g)
  case (Cons s ss)
  from Cons.prems(1) have s: "\<forall>t\<in>set ss. effective_from s < effective_from t" "timeline_ok ss"
    by (auto simp: timeline_ok_Cons)
  show ?case
  proof (cases "effective_from s \<le> d")
    case False
    then show ?thesis using s(1) by force
  next
    case True
    have IH: "governing d (Some s) ss = (if \<exists>t\<in>set ss. effective_from t \<le> d
        then Some (THE t. governs ss t d) else Some s)"
      using s by (intro Cons.IH) auto
    show ?thesis
    proof (cases "\<exists>t\<in>set ss. effective_from t \<le> d")
      case later: True
      then have "governs (s # ss) t d \<longleftrightarrow> governs ss t d" for t
        using s(1) by (fastforce simp: governs_def)
      with later True IH show ?thesis by auto
    next
      case none: False
      then have "governs (s # ss) t d \<longleftrightarrow> t = s" for t
        using True by (auto simp: governs_def)
      with none True IH show ?thesis by auto
    qed
  qed
qed simp

lemma governs_unique:
  "timeline_ok ss \<Longrightarrow> governs ss s d \<Longrightarrow> governs ss t d \<Longrightarrow> s = t"
proof (induction ss)
  case (Cons u ss)
  then have *: "\<forall>v\<in>set ss. effective_from u < effective_from v" "timeline_ok ss"
    by (auto simp: timeline_ok_Cons)
  from Cons.prems(2,3) have "effective_from s \<le> effective_from t" "effective_from t \<le> effective_from s"
    unfolding governs_def by blast+
  then have "effective_from s = effective_from t" by simp
  with * Cons show ?case by (fastforce simp: governs_def)
qed (simp add: governs_def)

lemma governs_suffix:
  assumes "\<forall>p\<in>set pre. \<forall>t\<in>set suf. effective_from p < effective_from t"
    and "\<exists>t\<in>set suf. effective_from t \<le> y"
  shows "governs (pre @ suf) s y \<longleftrightarrow> governs suf s y"
  using assms by (fastforce simp: governs_def)

lemma governs_exists:
  "\<exists>s\<in>set ss. effective_from s \<le> d \<Longrightarrow> \<exists>s. governs ss s d"
proof -
  assume "\<exists>s\<in>set ss. effective_from s \<le> d"
  then have ne: "{s \<in> set ss. effective_from s \<le> d} \<noteq> {}" by auto
  let ?M = "Max (effective_from ` {s \<in> set ss. effective_from s \<le> d})"
  have "?M \<in> effective_from ` {s \<in> set ss. effective_from s \<le> d}"
    using ne by (intro Max_in) auto
  then obtain s where "s \<in> set ss" "effective_from s \<le> d" "effective_from s = ?M" by auto
  then have "governs ss s d" by (auto simp: governs_def)
  then show ?thesis ..
qed

lemma governing_iff:
  assumes "timeline_ok ss"
  shows "governing d None ss = Some s \<longleftrightarrow> governs ss s d"
proof -
  have spec: "governing d None ss = (if \<exists>s\<in>set ss. effective_from s \<le> d
      then Some (THE s. governs ss s d) else None)"
    by (rule governing_spec [OF assms]) simp
  show ?thesis
proof
  assume *: "governing d None ss = Some s"
  from governing_None_SomeD [OF *] have "\<exists>s\<in>set ss. effective_from s \<le> d" by auto
  then obtain t where t: "governs ss t d" using governs_exists by blast
  then have "(THE s. governs ss s d) = t" using governs_unique [OF assms] by blast
  with * t \<open>\<exists>s\<in>set ss. effective_from s \<le> d\<close> show "governs ss s d"
    by (simp add: spec)
next
  assume s: "governs ss s d"
  then have "(THE s. governs ss s d) = s" using governs_unique [OF assms] by blast
  moreover have "\<exists>s\<in>set ss. effective_from s \<le> d" using s by (auto simp: governs_def)
  ultimately show "governing d None ss = Some s" by (simp add: spec)
qed
qed

lemma is_timeline_start_iff:
  "timeline_ok ss \<Longrightarrow> is_timeline_start ss d \<longleftrightarrow>
     (\<exists>s. governs ss s d \<and> is_period_start (seg_schedule s) d None)"
  by (auto simp: is_timeline_start_def timeline_schedule_at_def governing_iff [symmetric]
      split: option.splits)

section \<open>The searches\<close>

lemma from_start_index_split:
  "ss \<noteq> [] \<Longrightarrow> timeline_ok ss \<Longrightarrow> \<exists>pre. ss = pre @ from_start_index a ss \<and> from_start_index a ss \<noteq> [] \<and>
     (pre \<noteq> [] \<longrightarrow> effective_from (hd (from_start_index a ss)) \<le> a) \<and>
     (\<forall>t\<in>set (tl (from_start_index a ss)). a < effective_from t)"
proof (induction a ss rule: from_start_index.induct)
  case (1 a s t ss)
  show ?case
  proof (cases "effective_from s \<le> a \<and> effective_from t \<le> a")
    case True
    moreover have "timeline_ok (t # ss)" using "1.prems" by (simp add: timeline_ok_Cons)
    ultimately obtain pre where "t # ss = pre @ from_start_index a (t # ss)"
      "from_start_index a (t # ss) \<noteq> []"
      "pre \<noteq> [] \<longrightarrow> effective_from (hd (from_start_index a (t # ss))) \<le> a"
      "\<forall>u\<in>set (tl (from_start_index a (t # ss))). a < effective_from u"
      using "1.IH" by auto
    moreover have "pre = [] \<longrightarrow> hd (from_start_index a (t # ss)) = t"
      using calculation(1) by (metis append_Nil list.sel(1))
    ultimately show ?thesis using True by (intro exI [of _ "s # pre"]) auto
  next
    case False
    have "a < effective_from u" if "u \<in> set (t # ss)" for u
      using that False "1.prems" by (fastforce simp: timeline_ok_Cons)
    with False show ?thesis by (intro exI [of _ "[]"]) auto
  qed
qed auto

lemma next_start_loop_correct:
  assumes "timeline_ok ss" "ss \<noteq> []" "\<forall>t\<in>set (tl ss). a < effective_from t"
  shows "\<exists>x s. next_start_loop a ss = Some x \<and> a < x \<and> governs ss s x \<and>
    is_period_start (seg_schedule s) x None \<and>
    (\<forall>y t. a < y \<and> governs ss t y \<and> is_period_start (seg_schedule t) y None \<longrightarrow> x \<le> y)"
  using assms
proof (induction a ss rule: next_start_loop.induct)
  case (2 a s ss)
  from "2.prems" have ok: "schedule_ok (seg_schedule s)" "timeline_ok ss"
    and later: "\<forall>t\<in>set ss. effective_from s < effective_from t"
    by (auto simp: timeline_ok_Cons)
  let ?c = "next_period_start (seg_schedule s) (max a (effective_from s - 1))"
  from next_period_start_correct [OF ok(1), of "max a (effective_from s - 1)"]
  have c: "is_period_start (seg_schedule s) ?c None" "a < ?c" "effective_from s \<le> ?c"
    and least: "\<And>y. is_period_start (seg_schedule s) y None \<Longrightarrow> a < y \<Longrightarrow> effective_from s \<le> y \<Longrightarrow> ?c \<le> y"
    by (auto simp: is_next_start_def)
  show ?case
  proof (cases "\<forall>t\<in>set ss. ?c < effective_from t")
    case True
    have val: "next_start_loop a (s # ss) = Some ?c"
      using True by (cases ss) (auto simp: Let_def)
    have gov: "governs (s # ss) s ?c" using c True by (force simp: governs_def)
    have "?c \<le> y" if "a < y" "governs (s # ss) t y" "is_period_start (seg_schedule t) y None" for y t
    proof (cases "t = s")
      case True
      with that least show ?thesis by (auto simp: governs_def)
    next
      case False
      then have "t \<in> set ss" "effective_from t \<le> y" using that by (auto simp: governs_def)
      with \<open>\<forall>t\<in>set ss. ?c < effective_from t\<close> show ?thesis by force
    qed
    with val c gov show ?thesis by blast
  next
    case False
    then obtain t ts where ss: "ss = t # ts" by (cases ss) auto
    have min: "\<forall>u\<in>set ss. effective_from t \<le> effective_from u"
      using ok(2) by (auto simp: ss timeline_ok_Cons)
    with False have notc: "\<not> ?c < effective_from t" by force
    have "\<exists>x u. next_start_loop a ss = Some x \<and> a < x \<and> governs ss u x \<and>
        is_period_start (seg_schedule u) x None \<and>
        (\<forall>y v. a < y \<and> governs ss v y \<and> is_period_start (seg_schedule v) y None \<longrightarrow> x \<le> y)"
      using "2.IH" [OF refl refl ss notc ok(2)] "2.prems"(3) by (auto simp: ss)
    then obtain x u where IH: "next_start_loop a ss = Some x" "a < x" "governs ss u x"
      "is_period_start (seg_schedule u) x None"
      and IHleast: "\<And>y v. a < y \<Longrightarrow> governs ss v y \<Longrightarrow> is_period_start (seg_schedule v) y None \<Longrightarrow> x \<le> y"
      by blast
    have "next_start_loop a (s # ss) = Some x" using notc IH by (simp add: ss Let_def)
    moreover have "governs (s # ss) u x" using IH(3) later by (fastforce simp: governs_def)
    moreover have "x \<le> y"
      if y: "a < y" "governs (s # ss) v y" "is_period_start (seg_schedule v) y None" for y v
    proof (cases "effective_from t \<le> y")
      case True
      then have "governs ss v y" using y(2) later by (fastforce simp: governs_def ss)
      with y IHleast show ?thesis by blast
    next
      case before: False
      then have "v = s" using y(2) min by (fastforce simp: governs_def)
      with y least have "?c \<le> y" by (auto simp: governs_def)
      with notc before show ?thesis by simp
    qed
    ultimately show ?thesis using IH by blast
  qed
qed simp

lemma timeline_next_start_correct:
  assumes ok: "timeline_ok ss" and ne: "ss \<noteq> []"
  shows "\<exists>x. timeline_next_start ss a = Some x \<and> is_timeline_start ss x \<and> a < x \<and>
    (\<forall>y. is_timeline_start ss y \<and> a < y \<longrightarrow> x \<le> y)"
proof -
  let ?suf = "from_start_index a ss"
  obtain pre where pre: "ss = pre @ ?suf" "?suf \<noteq> []"
    "pre \<noteq> [] \<longrightarrow> effective_from (hd ?suf) \<le> a" "\<forall>t\<in>set (tl ?suf). a < effective_from t"
    using from_start_index_split [OF ne ok] by blast
  have okd: "timeline_ok ?suf" and lt: "\<forall>p\<in>set pre. \<forall>t\<in>set ?suf. effective_from p < effective_from t"
    using ok by (subst (asm) pre(1); auto simp: timeline_ok_def sorted_wrt_append)+
  have gov: "governs ss s y \<longleftrightarrow> governs ?suf s y" if "a < y" for s y
  proof (cases "pre = []")
    case True
    with pre(1) show ?thesis by simp
  next
    case False
    with pre have "\<exists>t\<in>set ?suf. effective_from t \<le> y"
      using that by (intro bexI [of _ "hd ?suf"]) auto
    with lt have "governs (pre @ ?suf) s y \<longleftrightarrow> governs ?suf s y" by (rule governs_suffix)
    with pre(1) show ?thesis by simp
  qed
  obtain x s where x: "next_start_loop a ?suf = Some x" "a < x" "governs ?suf s x"
    "is_period_start (seg_schedule s) x None"
    "\<forall>y t. a < y \<and> governs ?suf t y \<and> is_period_start (seg_schedule t) y None \<longrightarrow> x \<le> y"
    using next_start_loop_correct [OF okd pre(2,4)] by blast
  then show ?thesis
    unfolding timeline_next_start_def is_timeline_start_iff [OF ok] using gov by blast
qed

lemma timeline_previous_start_correct:
  assumes "timeline_ok ss"
  shows "(case timeline_previous_start ss b of
      None \<Rightarrow> \<forall>y. is_timeline_start ss y \<longrightarrow> b \<le> y
    | Some x \<Rightarrow> is_timeline_start ss x \<and> x < b \<and> (\<forall>y. is_timeline_start ss y \<and> y < b \<longrightarrow> y \<le> x))"
  using assms
proof (induction ss b rule: timeline_previous_start.induct)
  case (1 ss b)
  note iff = is_timeline_start_iff [OF "1.prems"]
  show ?case
  proof (cases "governing (b - 1) None ss")
    case None
    have "b \<le> y" if "governs ss s y" for s y
    proof (rule ccontr)
      assume "\<not> b \<le> y"
      with that have "\<exists>s\<in>set ss. effective_from s \<le> b - 1" by (force simp: governs_def)
      then obtain t where "governs ss t (b - 1)" using governs_exists by blast
      with None governing_iff [OF "1.prems"] show False by (metis option.distinct(1))
    qed
    with None show ?thesis
      unfolding iff by (auto simp: timeline_previous_start.simps [of ss b])
  next
    case (Some g)
    then have g: "governs ss g (b - 1)" using governing_iff [OF "1.prems"] by simp
    then have okg: "schedule_ok (seg_schedule g)" using "1.prems" by (auto simp: governs_def timeline_ok_def)
    have mid: "s = g" if "governs ss s y" "effective_from g \<le> y" "y < b" for s y
    proof -
      have "governs ss g y" using that g by (force simp: governs_def)
      with that governs_unique [OF "1.prems"] show ?thesis by blast
    qed
    have gb: "effective_from g < b" using g by (auto simp: governs_def)
    show ?thesis
    proof (cases "\<exists>c. previous_period_start (seg_schedule g) b = Some c \<and> effective_from g \<le> c")
      case True
      then obtain c where c: "previous_period_start (seg_schedule g) b = Some c" "effective_from g \<le> c"
        by blast
      from previous_period_start_correct(2) [OF okg c(1)]
      have p: "is_period_start (seg_schedule g) c None" "c < b"
        "\<And>y. is_period_start (seg_schedule g) y None \<Longrightarrow> y < b \<Longrightarrow> y \<le> c"
        by (auto simp: is_previous_start_def)
      have "governs ss g c" using g c(2) p(2) by (force simp: governs_def)
      moreover have "y \<le> c" if "governs ss s y" "is_period_start (seg_schedule s) y None" "y < b" for s y
        using that mid p(3) c(2) by (cases "effective_from g \<le> y") auto
      ultimately show ?thesis
        using Some c p unfolding iff by (auto simp: timeline_previous_start.simps [of ss b])
    next
      case False
      then have step: "timeline_previous_start ss b = timeline_previous_start ss (effective_from g)"
        using Some by (auto simp: timeline_previous_start.simps [of ss b] split: option.splits)
      have none: "y < effective_from g" if "is_timeline_start ss y" "y < b" for y
      proof (rule ccontr)
        assume ge: "\<not> y < effective_from g"
        from that(1) obtain s where s: "governs ss s y" "is_period_start (seg_schedule s) y None"
          unfolding iff by blast
        moreover have "s = g" using mid [OF s(1)] ge that(2) by simp
        ultimately have "is_period_start (seg_schedule g) y None" by simp
        moreover from this have "\<not> b \<le> anchor_start_date (seg_schedule g)"
          using that(2) by (auto simp: is_period_start_def Let_def)
        then obtain c where "previous_period_start (seg_schedule g) b = Some c"
          using previous_period_start_correct(1) [OF okg] by (metis not_None_eq)
        moreover from this have "is_previous_start (seg_schedule g) b c"
          by (rule previous_period_start_correct(2) [OF okg])
        ultimately show False using False that(2) ge by (force simp: is_previous_start_def)
      qed
      have "case timeline_previous_start ss (effective_from g) of
          None \<Rightarrow> \<forall>y. is_timeline_start ss y \<longrightarrow> effective_from g \<le> y
        | Some x \<Rightarrow> is_timeline_start ss x \<and> x < effective_from g \<and>
            (\<forall>y. is_timeline_start ss y \<and> y < effective_from g \<longrightarrow> y \<le> x)"
        using "1.IH" "1.prems" Some False
        by (cases "previous_period_start (seg_schedule g) b") auto
      with none gb show ?thesis
        unfolding step by (fastforce split: option.splits)
    qed
  qed
qed

end
