(* ===== verification/Calendar_Properties.thy ===== *)
theory Calendar_Properties
  imports Timeline
begin

text \<open>
  Properties of the payroll calendar: period starts form one grid, every day lies in exactly
  one period, and the neighbour searches, of one schedule and of a timeline of schedules,
  find the nearest start.
\<close>

section \<open>One schedule\<close>

text \<open>C35: the constructor accepts only schedules whose periods partition the calendar from the
  anchor on: every day lies in exactly one period, from its start to its end inclusive.\<close>

theorem periods_partition_days:
  assumes "make_schedule freq anchor interval off = Inr s" "anchor \<le> d"
  shows "\<exists>!x. is_period_start s x None \<and> x \<le> d \<and> d \<le> period_end s x"
proof -
  have ok: "schedule_ok s" using assms(1) by (rule make_schedule_ok)
  have a: "anchor_start_date s = anchor"
    using assms(1) by (auto simp: make_schedule_def bind_r_Inr_iff split: if_splits)
  from period_grid.partition [OF schedule_grid [OF ok], of anchor d] assms(2)
  have "\<exists>!x. on_grid (period_step s) anchor x \<and> x \<le> d \<and> d < period_step s x" by simp
  then show ?thesis
    using is_period_start_grid [OF ok, of _ None] a by (simp add: period_step_def zle_add1_eq_le)
qed

theorem periods_partition_days_witness:
  "\<exists>s. make_schedule ''Month'' 737425 None 65 = Inr s \<and>
     (\<exists>!x. is_period_start s x None \<and> x \<le> 737500 \<and> 737500 \<le> period_end s x)"
proof -
  have "\<not> isl (make_schedule ''Month'' 737425 None 65)" by code_simp
  then obtain s where "make_schedule ''Month'' 737425 None 65 = Inr s" by (cases "make_schedule ''Month'' 737425 None 65") auto
  with periods_partition_days [OF this, of 737500] show ?thesis by auto
qed

text \<open>The modular test for fixed cadences and the month walk for the monthly one decide the same
  thing: whether the candidate is reached from the origin by whole periods.\<close>

theorem period_start_is_grid_point:
  assumes "schedule_ok s"
  shows "is_period_start s c origin \<longleftrightarrow>
    (\<exists>k. c = (period_step s ^^ k) (case origin of Some d \<Rightarrow> d | None \<Rightarrow> anchor_start_date s))"
  using is_period_start_grid [OF assms] by (simp add: on_grid_def)

theorem period_start_is_grid_point_witness:
  "is_period_start \<lparr>frequency = ''Biweek'', anchor_start_date = 10, custom_interval_days = None,
     normal_days_off_mask = 0\<rparr> 38 None"
  by (subst period_start_is_grid_point)
     (auto simp: schedule_ok_def period_step_def period_end_def numeral_2_eq_2 intro!: exI [of _ "Suc (Suc 0)"])

text \<open>The next and the previous period start of a schedule are the nearest ones: nothing lies
  between, and there is no previous start exactly up to the anchor.\<close>

theorem nearest_period_starts:
  assumes "schedule_ok s"
  shows "is_next_start s d (next_period_start s d) \<and>
    (case previous_period_start s d of
       None \<Rightarrow> d \<le> anchor_start_date s | Some x \<Rightarrow> is_previous_start s d x)"
  using next_period_start_correct [OF assms] previous_period_start_correct [OF assms]
  by (auto split: option.splits)

theorem nearest_period_starts_witness:
  "is_next_start \<lparr>frequency = ''Week'', anchor_start_date = 10, custom_interval_days = None,
     normal_days_off_mask = 0\<rparr> 20
     (next_period_start \<lparr>frequency = ''Week'', anchor_start_date = 10, custom_interval_days = None,
     normal_days_off_mask = 0\<rparr> 20)"
  using nearest_period_starts [of "\<lparr>frequency = ''Week'', anchor_start_date = 10,
     custom_interval_days = None, normal_days_off_mask = 0\<rparr>" 20]
  by (simp add: schedule_ok_def)

section \<open>A timeline\<close>

text \<open>C36: the search for the next start of a timeline returns, and returns the least start after
  the date among the starts of whichever segment governs each day, also when the segment
  changes in between.\<close>

theorem timeline_next_is_least:
  assumes "timeline_ok ss" "ss \<noteq> []"
  shows "\<exists>x. timeline_next_start ss d = Some x \<and> is_timeline_start ss x \<and> d < x \<and>
    (\<forall>y. is_timeline_start ss y \<and> d < y \<longrightarrow> x \<le> y)"
  by (rule timeline_next_start_correct [OF assms])

definition sample_segments :: "schedule_segment list" where
  "sample_segments =
     [\<lparr>effective_from = 10, seg_schedule = \<lparr>frequency = ''Week'', anchor_start_date = 10,
        custom_interval_days = None, normal_days_off_mask = 0\<rparr>\<rparr>,
      \<lparr>effective_from = 24, seg_schedule = \<lparr>frequency = ''Month'', anchor_start_date = 24,
        custom_interval_days = None, normal_days_off_mask = 0\<rparr>\<rparr>]"

lemma sample_segments_ok: "timeline_ok sample_segments" "sample_segments \<noteq> []"
  by (auto simp: sample_segments_def timeline_ok_def schedule_ok_def)

theorem timeline_next_is_least_witness:
  "\<exists>x. timeline_next_start sample_segments 20 = Some x \<and> is_timeline_start sample_segments x \<and> 20 < x"
  using timeline_next_is_least [OF sample_segments_ok, of 20] by blast

text \<open>C37: the recursive search for the previous start terminates and finds the greatest start
  before the date, or none when there is none.\<close>

theorem timeline_previous_is_greatest:
  assumes "timeline_ok ss"
  shows "case timeline_previous_start ss d of
      None \<Rightarrow> \<forall>y. is_timeline_start ss y \<longrightarrow> d \<le> y
    | Some x \<Rightarrow> is_timeline_start ss x \<and> x < d \<and> (\<forall>y. is_timeline_start ss y \<and> y < d \<longrightarrow> y \<le> x)"
  by (rule timeline_previous_start_correct [OF assms])

theorem timeline_previous_is_greatest_witness:
  "case timeline_previous_start sample_segments 24 of
      None \<Rightarrow> \<forall>y. is_timeline_start sample_segments y \<longrightarrow> 24 \<le> y
    | Some x \<Rightarrow> is_timeline_start sample_segments x \<and> x < 24"
  using timeline_previous_is_greatest [OF sample_segments_ok(1), of 24] by (auto split: option.splits)

end
