(* ===== verification/Resolution_Properties.thy ===== *)
theory Resolution_Properties
  imports Eligibility
begin

text \<open>
  Properties of the compensation resolver, of the live loads over it and of the frozen roster.
\<close>

section \<open>Resolution\<close>

text \<open>C32: the set-wise resolution of owned keys either returns, for every requested key, the whole
  schedule in force on its WorkDate (or none), or refuses with an integrity error exactly when
  some key has two authoritative schedules.  Foreign Drivers and RateDefinitions are refused.\<close>

theorem resolution_total:
  "if owned_keys c db keys
   then resolve_many c db keys =
    (if no_overlap c db keys
     then Inr (\<lambda>k. if k \<in> set keys then Some (resolve_key c db k) else None)
     else Inl (IntegrityError ''More than one authoritative schedule applies on the requested date.''))
   else \<exists>m. resolve_many c db keys = Inl (OwnershipError m)"
  by (auto simp: resolve_many_eval owned_keys_def no_overlap_def fun_eq_iff)

definition small_rates :: rate_db where
  "small_rates =
    \<lparr>drivers = [\<lparr>dr_driver_id = 7, dr_company_id = 1, dr_status = ''Active'', dr_number = ''D7''\<rparr>],
     rate_definitions = [\<lparr>rd_id = 30, rd_company_id = 1, rd_shape = ''Scalar'',
        rd_pay_definition_id = Some 20, rd_calculation_method = Some ''PerUnit'',
        rd_status_rate_column_id = None\<rparr>],
     rate_schedules = [\<lparr>sch_id = 40, sch_company_id = 1, sch_driver_id = 7,
        sch_rate_definition_id = 30, sch_status = ''Superseded'', sch_effective_from = 0,
        sch_effective_to = Some 9\<rparr>,
       \<lparr>sch_id = 41, sch_company_id = 1, sch_driver_id = 7, sch_rate_definition_id = 30,
        sch_status = ''Approved'', sch_effective_from = 10, sch_effective_to = None\<rparr>],
     rate_components = [\<lparr>cmp_id = 50, cmp_rate_definition_id = 30, cmp_sequence_no = 1,
        cmp_ordinal_from = None, cmp_ordinal_to = None\<rparr>],
     schedule_values = [\<lparr>val_schedule_id = 40, val_component_id = 50, val_amount = 12\<rparr>,
       \<lparr>val_schedule_id = 41, val_component_id = 50, val_amount = 13\<rparr>]\<rparr>"

theorem resolution_total_witness:
  "\<exists>m. resolve_many 1 small_rates [(7, 30, 9), (7, 30, 10)] = Inr m \<and>
     m (7, 30, 10) = Some (resolve_key 1 small_rates (7, 30, 10)) \<and>
   (\<exists>e. resolve_many 1 small_rates [(8, 30, 9)] = Inl (OwnershipError e))"
proof -
  have o: "owned_keys 1 small_rates [(7, 30, 9), (7, 30, 10)]"
    and n: "no_overlap 1 small_rates [(7, 30, 9), (7, 30, 10)]"
    and f: "\<not> owned_keys 1 small_rates [(8, 30, 9)]"
    by code_simp+
  from resolution_total [of 1 small_rates "[(7, 30, 9), (7, 30, 10)]"] o n
  have "resolve_many 1 small_rates [(7, 30, 9), (7, 30, 10)] =
      Inr (\<lambda>k. if k \<in> set [(7, 30, 9), (7, 30, 10)] then Some (resolve_key 1 small_rates k) else None)"
    by presburger
  moreover from resolution_total [of 1 small_rates "[(8, 30, 9)]"] f
  have "\<exists>e. resolve_many 1 small_rates [(8, 30, 9)] = Inl (OwnershipError e)" by presburger
  ultimately show ?thesis by simp
qed

text \<open>A resolved schedule is the Driver's own, of the asked RateDefinition, Approved or
  Superseded, and in force on the WorkDate; a Pending or Voided schedule is never paid.\<close>

theorem resolved_schedule_authoritative:
  assumes "resolve_key c db (driver, rid, work_date) = Some r"
  shows "res_driver_id r = driver \<and> res_rate_definition_id r = rid \<and>
    res_schedule_status r \<in> {''Approved'', ''Superseded''} \<and>
    in_window (res_effective_from r) (res_effective_to r) work_date"
  using resolver.lookup_driver [OF assms] resolver.lookup_definition [OF assms]
    resolver.lookup_status [OF assms] resolver.lookup_window [OF assms] by simp

theorem resolved_schedule_authoritative_witness:
  "\<exists>r. resolve_key 1 small_rates (7, 30, 9) = Some r \<and> res_schedule_status r \<in> {''Approved'', ''Superseded''} \<and>
     in_window (res_effective_from r) (res_effective_to r) 9"
proof -
  have "resolve_key 1 small_rates (7, 30, 9) \<noteq> None" by code_simp
  then obtain r where "resolve_key 1 small_rates (7, 30, 9) = Some r" by auto
  with resolved_schedule_authoritative [OF this] show ?thesis by blast
qed

section \<open>Live lines\<close>

definition small_source :: source_db where
  "small_source = rate_db.extend small_rates
     \<lparr>assignments = [\<lparr>asg_id = 8, asg_company_id = 1, asg_branch_id = 2, asg_driver_id = 7,
        asg_employee_id = 9, asg_effective_from_at = 0, asg_effective_to_at = None, asg_end_reason = None\<rparr>],
      period_definitions = [\<lparr>ppd_id = 60, ppd_period_id = 100, ppd_company_id = 1, ppd_branch_id = 2,
        ppd_pay_definition_id = 20, ppd_rate_definition_id = 30, ppd_code = ''H'', ppd_name = ''Hours'',
        ppd_input_type = ''Decimal'', ppd_unit = None, ppd_calculation_method = ''PerUnit'',
        ppd_calculation_method_version = 1, ppd_rate_shape = ''Scalar'', ppd_is_active = True,
        ppd_sort_order = 1\<rparr>],
      draft_lines = map (\<lambda>(i, d). \<lparr>dl_id = i, dl_period_id = 100, dl_company_id = 1, dl_branch_id = 2,
        dl_assignment_id = 8, dl_work_date = d, dl_definition_id = 60, dl_quantity = 2,
        dl_source_type = ''Manual'', dl_notes = None, dl_status = ''Draft''\<rparr>) [(70, 9), (71, 10)],
      status_keys = [], status_columns = [], entry_states = [], bonus_events = [],
      users = []\<rparr>"

text \<open>Loading the lines of some DriverAssignments or of one WorkDate gives exactly those lines of
  the whole load, with the same amounts and in the same order.\<close>

theorem filtered_load_selects:
  assumes "load_live_source_lines pid cid db None None = Inr ls"
    and "load_live_source_lines pid cid db ids wd = Inr ls'"
  shows "ls' = filter (line_selected ids wd) ls"
  by (rule load_source_selected [OF assms])

lemma small_loads:
  "\<exists>ls. load_live_source_lines 100 1 small_source None None = Inr ls \<and> length ls = 2"
  "\<exists>ls. load_live_source_lines 100 1 small_source None (Some 10) = Inr ls \<and> length ls = 1"
proof -
  have "map_r length (load_live_source_lines 100 1 small_source None None) = Inr 2"
    "map_r length (load_live_source_lines 100 1 small_source None (Some 10)) = Inr 1"
    by code_simp+
  then show "\<exists>ls. load_live_source_lines 100 1 small_source None None = Inr ls \<and> length ls = 2"
    "\<exists>ls. load_live_source_lines 100 1 small_source None (Some 10) = Inr ls \<and> length ls = 1"
    by (auto simp: map_r_Inr_iff)
qed

theorem filtered_load_selects_witness:
  "\<exists>ls ls'. load_live_source_lines 100 1 small_source None None = Inr ls \<and>
     load_live_source_lines 100 1 small_source None (Some 10) = Inr ls' \<and>
     ls' = filter (line_selected None (Some 10)) ls"
proof -
  from small_loads obtain ls ls' where "load_live_source_lines 100 1 small_source None None = Inr ls"
    "load_live_source_lines 100 1 small_source None (Some 10) = Inr ls'" by blast
  with filtered_load_selects [OF this] show ?thesis by blast
qed

text \<open>C33: a loaded line is a stored, non-void row of the period, priced with the schedule of the
  permanent Driver in force on the row's own WorkDate, whatever DriverAssignment it was
  entered under.\<close>

theorem loaded_line_priced_by_workdate:
  assumes "load_live_source_lines pid cid db ids wd = Inr ls" "l \<in> set ls"
  shows "(\<exists>dl\<in>set (draft_lines db). dl_id dl = ls_draft_line_id l \<and> dl_status dl \<noteq> ''Void'' \<and>
      dl_period_id dl = pid \<and> dl_company_id dl = cid \<and> dl_work_date dl = ls_work_date l) \<and>
    (\<exists>a\<in>set (assignments db). asg_id a = ls_assignment_id l \<and> asg_driver_id a = ls_driver_id l) \<and>
    calculate_definition_input (ls_definition l)
      (resolve_key cid db (ls_driver_id l, pd_rate_definition_id (ls_definition l), ls_work_date l))
      (ls_quantity l) = Inr (ls_calculation l)"
  by (rule load_source_member [OF assms]) auto

theorem loaded_line_priced_by_workdate_witness:
  "\<exists>ls. load_live_source_lines 100 1 small_source None None = Inr ls \<and> ls \<noteq> [] \<and>
    calculate_definition_input (ls_definition (hd ls))
      (resolve_key 1 small_source (ls_driver_id (hd ls), pd_rate_definition_id (ls_definition (hd ls)),
         ls_work_date (hd ls))) (ls_quantity (hd ls)) = Inr (ls_calculation (hd ls))"
proof -
  from small_loads(1) obtain ls where ls: "load_live_source_lines 100 1 small_source None None = Inr ls"
    "length ls = 2" by blast
  then have "ls \<noteq> []" by auto
  with ls loaded_line_priced_by_workdate [OF ls(1), of "hd ls"] show ?thesis by auto
qed

section \<open>The frozen roster\<close>

definition small_boundary :: "string \<Rightarrow> date \<Rightarrow> int" where
  "small_boundary zone d = 24 * d"

definition small_roster :: roster_db where
  "small_roster = source_db.extend small_source
     \<lparr>employees = [\<lparr>em_id = 9, em_full_name = ''N'', em_status = ''Active'', em_hire_date = Some 8,
        em_termination_date = None\<rparr>],
      branches = [\<lparr>br_id = 2, br_company_id = 1, br_time_zone = ''UTC''\<rparr>],
      periods = [\<lparr>pp_id = 100, pp_company_id = 1, pp_branch_id = 2, pp_start = 7, pp_end = 13,
        pp_status = ''Open''\<rparr>],
      eligibility = [], markers = []\<rparr>"

definition small_captured :: roster_db where
  "small_captured = create_period_driver_eligibility_rows small_boundary 100 1 2 0 ''Generated'' True
     None None small_roster"

text \<open>C38: capturing a roster never rewrites a captured row: it appends rows, keeps one row per
  DriverAssignment and period, and a second capture, whatever its label or time, changes
  nothing.\<close>

theorem capture_append_only:
  "(\<exists>new. eligibility (create_period_driver_eligibility_rows b p c br now src fr only z db)
      = eligibility db @ new \<and>
      (distinct (map roster_key (eligibility db)) \<longrightarrow> distinct (map roster_key (eligibility db @ new)))) \<and>
   create_period_driver_eligibility_rows b p c br now' src' fr' only z
     (create_period_driver_eligibility_rows b p c br now src fr only z db)
   = create_period_driver_eligibility_rows b p c br now src fr only z db"
proof
  obtain new where new: "eligibility (create_period_driver_eligibility_rows b p c br now src fr only z db)
      = eligibility db @ new"
    using capture_appends by blast
  then show "\<exists>new. eligibility (create_period_driver_eligibility_rows b p c br now src fr only z db)
      = eligibility db @ new \<and>
      (distinct (map roster_key (eligibility db)) \<longrightarrow> distinct (map roster_key (eligibility db @ new)))"
    using capture_distinct [of db b p c br now src fr only z] by metis
qed (rule capture_idempotent)

theorem capture_append_only_witness:
  "distinct (map roster_key (eligibility small_captured)) \<and> length (eligibility small_captured) = 1"
proof -
  have "length (eligibility small_captured) = 1" by code_simp
  moreover have "eligibility small_roster = []" by code_simp
  ultimately show ?thesis
    using capture_append_only [of small_boundary 100 1 2 0 "''Generated''" True None None small_roster]
    by (auto simp: small_captured_def)
qed



text \<open>A new source row is admitted exactly for a DriverAssignment with a roster row that is
  eligible, not merely included for existing data, lists the WorkDate, and whose live
  lifecycle still covers it; only the rescue path also admits a date that already has source.\<close>

theorem workdate_gate:
  "assert_driver_eligible_for_workdate bd c br p a d rescue db = Inr () \<longleftrightarrow>
   (\<exists>m\<in>set (markers db). mk_period_id m = p \<and> mk_company_id m = c \<and> mk_branch_id m = br) \<and>
   (\<exists>row. get_driver_eligibility_row p a c br db = Some row \<and>
     (el_is_eligible row \<and> el_reason row \<noteq> ''IncludedByExistingData'' \<and> d \<in> set (el_dates row) \<and>
        a \<in> lifecycle_eligible_assignment_ids bd p c br (Some d) [a] db
      \<or> rescue \<and> driver_has_existing_daily_source_on_date p a d db))"
  by (rule assert_workdate_Inr_iff)

text \<open>In strict mode a boundary change is refused exactly when a touched period is past source
  entry; when it is allowed, it is handed back every touched period that is not Cancelled, and
  each of them is Draft, Open or Returned.\<close>

theorem boundary_change_editable:
  "lock_boundary_periods bd c windows False db =
     (if \<exists>pp\<in>set (touched_periods bd c windows db).
          pp_status pp \<notin> {''Draft'', ''Open'', ''Returned'', ''Cancelled''}
      then Inl (HttpError 409 ''DRIVER_ASSIGNMENT_PERIOD_NOT_EDITABLE'')
      else Inr (filter (\<lambda>pp. pp_status pp \<noteq> ''Cancelled'') (touched_periods bd c windows db)))"
  by (auto simp: lock_boundary_periods_def source_entry_statuses_def Let_def filter_empty_conv)

end
