(* ===== verification/Access.thy ===== *)
theory Access
  imports Eligibility
begin

text \<open>
  Access checks (\<open>access/policy.py\<close>, \<open>access/branch_access.py\<close>, \<open>access/permissions.py\<close>) over the
  role tables, with the SQL they call: the view \<open>app.vw_UserBranchAccess\<close> and the function
  \<open>sec.fn_UserHasPermission\<close> of \<open>migrations/sql/0092\<close>.
\<close>

section \<open>Tables\<close>

record company_row =
  cy_id :: int
  cy_status :: string
  cy_is_suspended :: bool
  cy_allows_self_approval :: "bool option"

record role_row =
  ro_id :: int
  ro_code :: string
  ro_name :: string

record user_branch_role =
  ur_user_id :: int
  ur_company_id :: int
  ur_role_id :: "int option"
  ur_scope :: string
  ur_branch_id :: "int option"
  ur_is_active :: bool

record permission_override =
  ov_user_id :: int
  ov_company_id :: int
  ov_permission :: string
  ov_effect :: string
  ov_is_active :: bool

record access_tables =
  companies :: "company_row list"
  company_roles :: "role_row list"
  role_permissions :: "(int \<times> string) list"
  user_branch_roles :: "user_branch_role list"
  permission_overrides :: "permission_override list"
  permissions :: "string list"

definition company_allows_self_approval :: "int \<Rightarrow> access_tables \<Rightarrow> bool" where
  "company_allows_self_approval company_id ac \<longleftrightarrow>
     Option.bind (find_first (\<lambda>c. cy_id c = company_id) (companies ac)) cy_allows_self_approval \<noteq> Some False"

section \<open>The DRIVER/Self ceiling\<close>

definition role_code_of :: "access_tables \<Rightarrow> user_branch_role \<Rightarrow> string option" where
  "role_code_of ac ur =
     Option.bind (ur_role_id ur) (\<lambda>i. map_option ro_code (find_first (\<lambda>r. ro_id r = i) (company_roles ac)))"

definition roles_of_user :: "int \<Rightarrow> int \<Rightarrow> access_tables \<Rightarrow> user_branch_role list" where
  "roles_of_user company_id user_id ac =
     filter (\<lambda>ur. ur_user_id ur = user_id \<and> ur_company_id ur = company_id \<and> ur_is_active ur)
       (user_branch_roles ac)"

definition is_driver_self_subject :: "int \<Rightarrow> int \<Rightarrow> access_tables \<Rightarrow> bool" where
  "is_driver_self_subject company_id user_id ac \<longleftrightarrow>
     (\<exists>ur\<in>set (roles_of_user company_id user_id ac).
        ur_scope ur = ''Self'' \<or> role_code_of ac ur = Some ''DRIVER'')"

definition require_non_driver_subject :: "int \<Rightarrow> int \<Rightarrow> access_tables \<Rightarrow> unit result" where
  "require_non_driver_subject company_id user_id ac =
     guard_r (\<not> is_driver_self_subject company_id user_id ac)
       (HttpError 403 ''This operation is not available to DRIVER Self accounts.'')"

section \<open>Branch access\<close>

text \<open>The rows of \<open>app.vw_UserBranchAccess\<close> the check selects.\<close>

definition branch_access_rows ::
  "int \<Rightarrow> int \<Rightarrow> user_row list \<Rightarrow> access_tables \<Rightarrow> user_branch_role list" where
  "branch_access_rows company_id user_id us ac =
     [ur. ur \<leftarrow> user_branch_roles ac, u \<leftarrow> us, c \<leftarrow> companies ac, r \<leftarrow> company_roles ac,
        us_id u = ur_user_id ur \<and> cy_id c = ur_company_id ur \<and> ur_role_id ur = Some (ro_id r) \<and>
        ur_scope ur \<in> {''AllCompanyBranches'', ''SpecificBranch''} \<and>
        ur_user_id ur = user_id \<and> ur_company_id ur = company_id \<and> us_is_active u \<and> us_can_login u \<and>
        ur_is_active ur \<and> cy_status c = ''Active'' \<and> \<not> cy_is_suspended c]"

definition check_branch_access ::
  "int \<Rightarrow> int \<Rightarrow> user_row list \<Rightarrow> access_tables \<Rightarrow> (bool \<times> int list) result" where
  "check_branch_access company_id user_id us ac =
     (let rows = branch_access_rows company_id user_id us ac;
          can_see_all = (\<exists>r\<in>set rows. ur_scope r = ''AllCompanyBranches'')
      in if rows = [] then Inl (HttpError 403 ''No branch access for this company.'')
         else Inr (can_see_all,
           if can_see_all then [] else [b. r \<leftarrow> rows, b \<leftarrow> (case ur_branch_id r of None \<Rightarrow> [] | Some i \<Rightarrow> [i])]))"

definition can_access_branch :: "bool \<times> int list \<Rightarrow> int \<Rightarrow> bool" where
  "can_access_branch access branch_id \<longleftrightarrow> fst access \<or> branch_id \<in> set (snd access)"

section \<open>Permissions\<close>

text \<open>Does an assignment reach the Branch?  Without a Branch only company-wide ones do.\<close>

definition in_role_scope :: "int option \<Rightarrow> user_branch_role \<Rightarrow> bool" where
  "in_role_scope branch_id ur \<longleftrightarrow>
     ur_scope ur = ''AllCompanyBranches'' \<and> ur_branch_id ur = None \<or>
     branch_id \<noteq> None \<and> ur_scope ur = ''SpecificBranch'' \<and> ur_branch_id ur = branch_id"

definition account_usable :: "int \<Rightarrow> int \<Rightarrow> user_row list \<Rightarrow> access_tables \<Rightarrow> bool" where
  "account_usable user_id company_id us ac \<longleftrightarrow>
     (\<exists>u\<in>set us. \<exists>c\<in>set (companies ac). cy_id c = us_company_id u \<and> us_id u = user_id \<and>
        us_company_id u = company_id \<and> us_is_active u \<and> us_can_login u \<and> \<not> us_is_staged u \<and>
        cy_status c = ''Active'' \<and> \<not> cy_is_suspended c)"

text \<open>\<open>sec.fn_UserHasPermission\<close>.\<close>

definition user_has_permission ::
  "int \<Rightarrow> int \<Rightarrow> int option \<Rightarrow> string \<Rightarrow> user_row list \<Rightarrow> access_tables \<Rightarrow> bool" where
  "user_has_permission user_id company_id branch_id permission us ac =
     (let roles = roles_of_user company_id user_id ac
      in if \<not> account_usable user_id company_id us ac then False
         else if \<exists>ur\<in>set roles. role_code_of ac ur \<noteq> None \<and>
                (ur_scope ur = ''Self'' \<or> role_code_of ac ur = Some ''DRIVER'') then False
         else if \<exists>ur\<in>set roles. role_code_of ac ur = Some ''COMPANY_OWNER'' \<and>
                ur_scope ur = ''AllCompanyBranches'' \<and> ur_branch_id ur = None
         then permission \<in> set (permissions ac)
         else if \<exists>ur\<in>set roles. \<exists>(role, p)\<in>set (role_permissions ac).
                ur_role_id ur = Some role \<and> p = permission \<and> in_role_scope branch_id ur then True
         else (\<exists>ov\<in>set (permission_overrides ac). ov_user_id ov = user_id \<and> ov_company_id ov = company_id \<and>
                ov_permission ov = permission \<and> ov_effect ov = ''ALLOW'' \<and> ov_is_active ov \<and>
                (\<exists>ur\<in>set roles. ur_role_id ur \<noteq> None \<and> in_role_scope branch_id ur)))"

definition permission_denied :: py_error where
  "permission_denied = HttpError 403 ''You do not have permission to perform this action''"

definition check_permission ::
  "int \<Rightarrow> int \<Rightarrow> int option \<Rightarrow> string \<Rightarrow> user_row list \<Rightarrow> access_tables \<Rightarrow> unit result" where
  "check_permission company_id user_id branch_id permission us ac =
     bind_r (require_non_driver_subject company_id user_id ac) (\<lambda>_.
     guard_r (user_has_permission user_id company_id branch_id permission us ac) permission_denied)"

definition check_any_permission ::
  "int \<Rightarrow> int \<Rightarrow> int option \<Rightarrow> string list \<Rightarrow> user_row list \<Rightarrow> access_tables \<Rightarrow> unit result" where
  "check_any_permission company_id user_id branch_id codes us ac =
     bind_r (require_non_driver_subject company_id user_id ac) (\<lambda>_.
     guard_r (\<exists>code\<in>set codes. user_has_permission user_id company_id branch_id code us ac) permission_denied)"

definition has_any_permission ::
  "int \<Rightarrow> int \<Rightarrow> int option \<Rightarrow> string list \<Rightarrow> user_row list \<Rightarrow> access_tables \<Rightarrow> bool" where
  "has_any_permission company_id user_id branch_id codes us ac \<longleftrightarrow>
     \<not> is_driver_self_subject company_id user_id ac \<and>
     (\<exists>code\<in>set codes. user_has_permission user_id company_id branch_id code us ac)"

section \<open>What a passed check means\<close>

definition reaches_branch :: "int \<Rightarrow> int \<Rightarrow> int option \<Rightarrow> access_tables \<Rightarrow> bool" where
  "reaches_branch company_id user_id branch_id ac \<longleftrightarrow>
     (\<exists>ur\<in>set (roles_of_user company_id user_id ac). in_role_scope branch_id ur)"

lemma user_has_permissionD:
  assumes "user_has_permission user_id company_id branch_id permission us ac"
  shows "account_usable user_id company_id us ac" "reaches_branch company_id user_id branch_id ac"
  using assms
  by (auto simp: user_has_permission_def Let_def reaches_branch_def in_role_scope_def split: if_splits)

lemma check_permissionD:
  assumes "check_permission company_id user_id branch_id permission us ac = Inr ()"
  shows "\<not> is_driver_self_subject company_id user_id ac"
    and "user_has_permission user_id company_id branch_id permission us ac"
  using assms by (auto simp: check_permission_def require_non_driver_subject_def bind_r_Inr_iff)

lemma check_any_permission_iff:
  "check_any_permission company_id user_id branch_id codes us ac = Inr () \<longleftrightarrow>
   has_any_permission company_id user_id branch_id codes us ac"
  by (simp add: check_any_permission_def has_any_permission_def require_non_driver_subject_def bind_r_Inr_iff)

end
