(* ===== verification/Canonical_Json.thy ===== *)
theory Canonical_Json
  imports Decimals Calendar "HOL-Library.Char_ord" "HOL-Library.List_Lexorder"
begin

text \<open>
  The canonical serialization of the snapshot evidence (\<open>payroll/snapshot_hash.py\<close>): the JSON
  documents the code hashes and stores, \<open>canonicalize\<close> on the Python values it accepts, and the
  strict comparison of two parsed documents.  A Decimal is written in fixed notation without
  trailing zeros, a date as \<open>YYYY-MM-DD\<close>, an object with its keys sorted.

  The printed form of a number with no finite decimal expansion (no Decimal is one) is its
  fraction, so that printing is injective on all rationals.  A float and a non-finite Decimal
  are constructors without a payload, since \<open>canonicalize\<close> rejects them whatever they hold.
\<close>

section \<open>Printing\<close>

definition digit_char :: "nat \<Rightarrow> char" where
  "digit_char d = char_of (48 + d)"

fun show_nat :: "nat \<Rightarrow> string" where
  "show_nat n = (if n < 10 then [digit_char n] else show_nat (n div 10) @ [digit_char (n mod 10)])"

declare show_nat.simps [simp del]

definition zero_pad :: "nat \<Rightarrow> string \<Rightarrow> string" where
  "zero_pad k s = replicate (k - length s) (CHR ''0'') @ s"

text \<open>The number of fractional digits of a fraction with denominator \<open>q\<close>, up to a bound of 100.\<close>

function decimal_places :: "int \<Rightarrow> nat \<Rightarrow> nat option" where
  "decimal_places q k =
     (if q dvd 10 ^ k then Some k else if 100 \<le> k then None else decimal_places q (k + 1))"
  by auto
termination by (relation "measure (\<lambda>(q, k). 100 - k)") auto

declare decimal_places.simps [simp del]

definition unsigned_decimal :: "decimal \<Rightarrow> string" where
  "unsigned_decimal x =
     (let (p, q) = quotient_of x in
      case decimal_places q 0 of
        None \<Rightarrow> show_nat (nat p) @ ''/'' @ show_nat (nat q)
      | Some 0 \<Rightarrow> show_nat (nat p)
      | Some k \<Rightarrow>
          let s = zero_pad (k + 1) (show_nat (nat (p * 10 ^ k div q)))
          in take (length s - k) s @ ''.'' @ drop (length s - k) s)"

definition canonical_decimal :: "decimal \<Rightarrow> string" where
  "canonical_decimal x =
     (if x < 0 then ''-'' @ unsigned_decimal (- x) else unsigned_decimal x)"

definition show_year :: "int \<Rightarrow> string" where
  "show_year y = (if y < 0 then ''-'' @ zero_pad 4 (show_nat (nat (- y))) else zero_pad 4 (show_nat (nat y)))"

definition iso_date :: "date \<Rightarrow> string" where
  "iso_date d =
     (case ord_to_ymd d of (y, m, dd) \<Rightarrow>
        show_year y @ ''-'' @ zero_pad 2 (show_nat (nat m)) @ ''-'' @ zero_pad 2 (show_nat (nat dd)))"

definition show_int :: "int \<Rightarrow> string" where
  "show_int n = (if n < 0 then ''-'' @ show_nat (nat (- n)) else show_nat (nat n))"

text \<open>The same printers on binary integers, for evaluation.\<close>

function show_digits :: "int \<Rightarrow> string" where
  "show_digits n = (if n < 10 then [digit_char (nat n)] else show_digits (n div 10) @ [digit_char (nat (n mod 10))])"
  by auto
termination by (relation "measure nat") auto

declare show_digits.simps [simp del]

lemma show_nat_digits_eq: "show_nat (nat n) = show_digits n"
proof (induction n rule: show_digits.induct)
  case (1 n)
  show ?case
  proof (cases "n < 10")
    case True
    then have "nat n < 10" by linarith
    with True show ?thesis by (subst show_nat.simps, subst show_digits.simps) simp
  next
    case False
    then have "\<not> nat n < 10" by linarith
    with 1 False show ?thesis
      by (subst show_nat.simps, subst show_digits.simps) (simp add: nat_div_distrib nat_mod_distrib)
  qed
qed

lemma printer_code [code]:
  "show_int n = (if n < 0 then ''-'' @ show_digits (- n) else show_digits n)"
  by (simp add: show_int_def show_nat_digits_eq)

lemma unsigned_decimal_code [code]:
  "unsigned_decimal x =
     (let (p, q) = quotient_of x in
      case decimal_places q 0 of
        None \<Rightarrow> show_digits p @ ''/'' @ show_digits q
      | Some 0 \<Rightarrow> show_digits p
      | Some k \<Rightarrow>
          let s = zero_pad (k + 1) (show_digits (p * 10 ^ k div q))
          in take (length s - k) s @ ''.'' @ drop (length s - k) s)"
  by (simp only: unsigned_decimal_def show_nat_digits_eq)

lemma date_printer_code [code]:
  "show_year y = (if y < 0 then ''-'' @ zero_pad 4 (show_digits (- y)) else zero_pad 4 (show_digits y))"
  "iso_date d =
     (case ord_to_ymd d of (y, m, dd) \<Rightarrow>
        show_year y @ ''-'' @ zero_pad 2 (show_digits m) @ ''-'' @ zero_pad 2 (show_digits dd))"
  by (simp_all only: show_year_def iso_date_def show_nat_digits_eq)

section \<open>Documents\<close>

datatype json =
    JNull
  | JBool bool
  | JInt int
  | JStr string
  | JList "json list"
  | JObj "(string \<times> json) list"

datatype py_value =
    PyNone
  | PyBool bool
  | PyInt int
  | PyStr string
  | PyDecimal decimal
  | PyDate date
  | PyInstant string
  | PyFloat
  | PyNonFinite
  | PyList "py_value list"
  | PyDict "(string \<times> py_value) list"
  | PyJson json

text \<open>\<open>PyJson\<close> is a document that is canonical already; canonicalizing it again changes nothing
  (see \<open>canonicalize_idem\<close>).\<close>

fun canonicalize :: "py_value \<Rightarrow> json result"
  and canonicalize_items :: "py_value list \<Rightarrow> json list result"
  and canonicalize_fields :: "(string \<times> py_value) list \<Rightarrow> (string \<times> json) list result" where
  "canonicalize PyNone = Inr JNull"
| "canonicalize (PyBool b) = Inr (JBool b)"
| "canonicalize (PyInt n) = Inr (JInt n)"
| "canonicalize (PyStr s) = Inr (JStr s)"
| "canonicalize (PyDecimal x) = Inr (JStr (canonical_decimal x))"
| "canonicalize (PyDate d) = Inr (JStr (iso_date d))"
| "canonicalize (PyInstant s) = Inr (JStr s)"
| "canonicalize PyFloat = Inl (TypeError ''canonical serialization rejects float values'')"
| "canonicalize PyNonFinite =
     Inl (ValueError ''canonical serialization does not support non-finite Decimal values'')"
| "canonicalize (PyList vs) = map_r JList (canonicalize_items vs)"
| "canonicalize (PyDict fs) = map_r (\<lambda>xs. JObj (sort_key fst xs)) (canonicalize_fields fs)"
| "canonicalize (PyJson j) = Inr j"
| "canonicalize_items [] = Inr []"
| "canonicalize_items (v # vs) =
     bind_r (canonicalize v) (\<lambda>x. map_r ((#) x) (canonicalize_items vs))"
| "canonicalize_fields [] = Inr []"
| "canonicalize_fields ((k, v) # fs) =
     bind_r (canonicalize v) (\<lambda>x. map_r ((#) (k, x)) (canonicalize_fields fs))"

text \<open>\<open>strict_json_equal\<close>: objects are compared key by key, whatever their order.\<close>

fun strict_json_equal :: "json \<Rightarrow> json \<Rightarrow> bool"
  and strict_items_equal :: "json list \<Rightarrow> json list \<Rightarrow> bool"
  and strict_fields_equal :: "(string \<times> json) list \<Rightarrow> (string \<times> json) list \<Rightarrow> bool" where
  "strict_json_equal JNull y \<longleftrightarrow> y = JNull"
| "strict_json_equal (JBool b) y \<longleftrightarrow> y = JBool b"
| "strict_json_equal (JInt n) y \<longleftrightarrow> y = JInt n"
| "strict_json_equal (JStr s) y \<longleftrightarrow> y = JStr s"
| "strict_json_equal (JList xs) y \<longleftrightarrow> (case y of JList ys \<Rightarrow> strict_items_equal xs ys | _ \<Rightarrow> False)"
| "strict_json_equal (JObj xs) y \<longleftrightarrow>
     (case y of JObj ys \<Rightarrow> set (map fst xs) = set (map fst ys) \<and> strict_fields_equal xs ys | _ \<Rightarrow> False)"
| "strict_items_equal [] ys \<longleftrightarrow> ys = []"
| "strict_items_equal (x # xs) ys \<longleftrightarrow>
     (case ys of [] \<Rightarrow> False | y # ys' \<Rightarrow> strict_json_equal x y \<and> strict_items_equal xs ys')"
| "strict_fields_equal [] ys \<longleftrightarrow> True"
| "strict_fields_equal ((k, x) # xs) ys \<longleftrightarrow>
     (case map_of ys k of None \<Rightarrow> False | Some y \<Rightarrow> strict_json_equal x y) \<and> strict_fields_equal xs ys"


section \<open>Reading back\<close>

definition read_nat :: "string \<Rightarrow> nat" where
  "read_nat s = foldl (\<lambda>n c. n * 10 + (of_char c - 48)) 0 s"

definition is_digit :: "char \<Rightarrow> bool" where
  "is_digit c \<longleftrightarrow> 48 \<le> (of_char c :: nat) \<and> of_char c \<le> (57 :: nat)"

lemma digit_char_facts: "d < 10 \<Longrightarrow> is_digit (digit_char d) \<and> of_char (digit_char d) - 48 = (d :: nat)"
  by (simp add: digit_char_def is_digit_def)

lemma show_nat_digits: "c \<in> set (show_nat n) \<Longrightarrow> is_digit c"
proof (induction n rule: show_nat.induct)
  case (1 n)
  then show ?case
    using digit_char_facts [of n] digit_char_facts [of "n mod 10"]
    by (subst (asm) (2) show_nat.simps) (auto split: if_splits)
qed

lemma show_nat_nonempty [simp]: "show_nat n \<noteq> []"
  by (subst show_nat.simps) auto

lemma read_show_nat [simp]: "read_nat (show_nat n) = n"
proof (induction n rule: show_nat.induct)
  case (1 n)
  then show ?case
    using digit_char_facts [of n] digit_char_facts [of "n mod 10"]
    by (subst show_nat.simps) (auto simp: read_nat_def)
qed

lemma read_zero_pad [simp]: "read_nat (zero_pad k s) = read_nat s"
proof -
  have "foldl (\<lambda>n c. n * 10 + (of_char c - 48)) 0 (replicate j (CHR ''0'')) = (0 :: nat)" for j
    by (induction j) auto
  then show ?thesis by (simp add: read_nat_def zero_pad_def)
qed

lemma zero_pad_digits: "c \<in> set (zero_pad k (show_nat n)) \<Longrightarrow> is_digit c"
  by (auto simp: zero_pad_def is_digit_def dest: show_nat_digits)

lemma length_zero_pad [simp]: "length (zero_pad k s) = max k (length s)"
  by (simp add: zero_pad_def)

lemma marks_not_digits: "\<not> is_digit (CHR ''-'')" "\<not> is_digit (CHR ''.'')" "\<not> is_digit (CHR ''/'')"
  by (simp_all add: is_digit_def)

text \<open>Two strings of digits around the same mark split in the same way.\<close>

lemma split_at_mark:
  assumes "a @ m # b = a' @ m # b'" "\<not> is_digit m"
    and "\<forall>c\<in>set a. is_digit c" "\<forall>c\<in>set a'. is_digit c"
  shows "a = a' \<and> b = b'"
proof -
  have "takeWhile is_digit (a @ m # b) = a" "takeWhile is_digit (a' @ m # b') = a'"
    using assms(2-4) by (auto simp: takeWhile_append)
  with assms(1) show ?thesis by (metis append_eq_append_conv list.inject)
qed

lemma decimal_places_dvd: "decimal_places q k = Some j \<Longrightarrow> q dvd 10 ^ j"
  by (induction q k rule: decimal_places.induct)
     (subst (asm) (2) decimal_places.simps, auto split: if_splits)

lemma unsigned_decimal_cases:
  assumes "0 \<le> x"
  obtains (fraction) p q where "unsigned_decimal x = show_nat p @ CHR ''/'' # show_nat q"
      "x = of_nat p / of_nat q"
    | (whole) p where "unsigned_decimal x = show_nat p" "x = of_nat p"
    | (fixed) a b where "unsigned_decimal x = a @ CHR ''.'' # b"
      "\<forall>c\<in>set a \<union> set b. is_digit c" "x = of_nat (read_nat (a @ b)) / 10 ^ length b"
proof -
  obtain p q where pq: "quotient_of x = (p, q)" by fastforce
  have x: "x = of_int p / of_int q" and q: "0 < q"
    using quotient_of_div [OF pq] quotient_of_denom_pos [OF pq] by auto
  with assms have p: "0 \<le> p" by (simp add: zero_le_divide_iff)
  show thesis
  proof (cases "decimal_places q 0")
    case None
    then show thesis using fraction [of "nat p" "nat q"] pq x p q by (simp add: unsigned_decimal_def)
  next
    case (Some k)
    from Some have dvd: "q dvd 10 ^ k" by (rule decimal_places_dvd)
    show thesis
    proof (cases k)
      case 0
      then have "q = 1" using dvd q by simp
      then show thesis using whole [of "nat p"] Some 0 pq x p by (simp add: unsigned_decimal_def)
    next
      case (Suc j)
      define s where "s = zero_pad (k + 1) (show_nat (nat (p * 10 ^ k div q)))"
      from dvd obtain r where r: "10 ^ k = q * r" by blast
      then have "p * 10 ^ k div q = p * r" using q by (simp add: mult.left_commute)
      moreover have "0 \<le> p * r" using p q r
        by (metis mult_nonneg_nonneg zero_le_mult_iff zero_less_numeral zero_less_power not_less order_less_imp_le)
      ultimately have "(of_nat (nat (p * 10 ^ k div q)) :: rat) = of_int p * of_int r" by simp
      moreover have "(10 :: rat) ^ k = of_int q * of_int r"
        using arg_cong [OF r, of "of_int :: int \<Rightarrow> rat"] by simp
      ultimately have n: "x = of_nat (nat (p * 10 ^ k div q)) / 10 ^ k"
        using x q r by (simp add: field_simps) (metis mult_zero_right of_int_0 power_eq_0_iff zero_neq_numeral)
      have len: "k < length s" and digits: "\<forall>c\<in>set s. is_digit c"
        by (auto simp: s_def intro: zero_pad_digits)
      have "unsigned_decimal x = take (length s - k) s @ CHR ''.'' # drop (length s - k) s"
        using Some Suc pq by (simp add: unsigned_decimal_def s_def Let_def)
      moreover have "x = of_nat (read_nat (take (length s - k) s @ drop (length s - k) s)) /
          10 ^ length (drop (length s - k) s)"
        using n len by (simp add: s_def)
      ultimately show thesis
        using digits by (intro fixed) (auto dest: in_set_takeD in_set_dropD)
    qed
  qed
qed

lemma unsigned_decimal_inj:
  assumes "0 \<le> x" "0 \<le> y" "unsigned_decimal x = unsigned_decimal y"
  shows "x = y"
proof -
  note digits = show_nat_digits marks_not_digits
  show ?thesis
    using assms(1)
  proof (cases rule: unsigned_decimal_cases)
    case (fraction p q)
    have mark: "CHR ''/'' \<in> set (unsigned_decimal y)"
      unfolding assms(3) [symmetric] fraction(1) by simp
    from assms(2) show ?thesis
    proof (cases rule: unsigned_decimal_cases)
      case (fraction p' q')
      with \<open>unsigned_decimal x = show_nat p @ CHR ''/'' # show_nat q\<close> assms(3)
      have "show_nat p = show_nat p' \<and> show_nat q = show_nat q'"
        by (intro split_at_mark [of _ "CHR ''/''"]) (auto simp: digits)
      then have "p = p' \<and> q = q'" by (metis read_show_nat)
      then show ?thesis using fraction \<open>x = of_nat p / of_nat q\<close> by simp
    qed (use mark digits in \<open>auto\<close>)
  next
    case (whole p)
    have only_digits: "\<forall>c\<in>set (unsigned_decimal y). is_digit c"
      unfolding assms(3) [symmetric] whole(1) using digits by auto
    from assms(2) show ?thesis
    proof (cases rule: unsigned_decimal_cases)
      case (whole p')
      then show ?thesis using \<open>unsigned_decimal x = show_nat p\<close> \<open>x = of_nat p\<close> assms(3) by (metis read_show_nat)
    qed (use only_digits digits in auto)
  next
    case (fixed a b)
    have mark: "CHR ''.'' \<in> set (unsigned_decimal y)" "CHR ''/'' \<notin> set (unsigned_decimal y)"
      unfolding assms(3) [symmetric] fixed(1) using digits fixed(2) by auto
    from assms(2) show ?thesis
    proof (cases rule: unsigned_decimal_cases)
      case (fixed a' b')
      with \<open>unsigned_decimal x = a @ CHR ''.'' # b\<close> \<open>\<forall>c\<in>set a \<union> set b. is_digit c\<close> assms(3)
      have "a = a' \<and> b = b'"
        by (intro split_at_mark [of _ "CHR ''.''"]) (auto simp: digits)
      then show ?thesis
        using fixed \<open>x = of_nat (read_nat (a @ b)) / 10 ^ length b\<close> by simp
    qed (use mark digits in auto)
  qed
qed

lemma unsigned_no_sign: "0 \<le> x \<Longrightarrow> unsigned_decimal x \<noteq> CHR ''-'' # s"
proof
  assume "0 \<le> x" "unsigned_decimal x = CHR ''-'' # s"
  then show False
  proof (cases rule: unsigned_decimal_cases)
    case (fraction p q)
    then show ?thesis using \<open>unsigned_decimal x = CHR ''-'' # s\<close> show_nat_digits [of _ p] marks_not_digits
      by (cases "show_nat p") auto
  next
    case (whole p)
    then show ?thesis using \<open>unsigned_decimal x = CHR ''-'' # s\<close> show_nat_digits [of _ p] marks_not_digits
      by (cases "show_nat p") auto
  next
    case (fixed a b)
    then show ?thesis using \<open>unsigned_decimal x = CHR ''-'' # s\<close> marks_not_digits
      by (cases a) auto
  qed
qed

lemma canonical_decimal_inj [simp]: "canonical_decimal x = canonical_decimal y \<longleftrightarrow> x = y"
proof
  assume eq: "canonical_decimal x = canonical_decimal y"
  consider "0 \<le> x" "0 \<le> y" | "x < 0" "y < 0" | "x < 0" "0 \<le> y" | "0 \<le> x" "y < 0" by fastforce
  then show "x = y"
  proof cases
    case 1
    then show ?thesis using eq unsigned_decimal_inj [of x y] by (simp add: canonical_decimal_def)
  next
    case 2
    then show ?thesis using eq unsigned_decimal_inj [of "- x" "- y"] by (simp add: canonical_decimal_def)
  next
    case 3
    then show ?thesis using eq unsigned_no_sign [of y] by (auto dest: sym simp: canonical_decimal_def)
  next
    case 4
    then show ?thesis using eq unsigned_no_sign [of x] by (auto simp: canonical_decimal_def)
  qed
qed simp

lemma show_nat_no_sign [simp]: "show_nat n \<noteq> CHR ''-'' # s" "CHR ''-'' # s \<noteq> show_nat n"
  using show_nat_digits [of "CHR ''-''" n] marks_not_digits by (metis list.set_intros(1))+

lemma show_nat_inj [simp]: "show_nat m = show_nat n \<longleftrightarrow> m = n"
  by (metis read_show_nat)

lemma show_int_inj [simp]: "show_int m = show_int n \<longleftrightarrow> m = n"
  by (auto simp: show_int_def split: if_splits)

lemma show_year_inj: "show_year y = show_year z \<Longrightarrow> y = z"
proof -
  have digits: "\<forall>c\<in>set (zero_pad 4 (show_nat n)). is_digit c" for n by (auto intro: zero_pad_digits)
  have no_sign: "zero_pad 4 (show_nat n) \<noteq> CHR ''-'' # s" for n s
    using digits [of n] marks_not_digits by force
  have same: "zero_pad 4 (show_nat m) = zero_pad 4 (show_nat n) \<Longrightarrow> m = n" for m n
    by (metis read_show_nat read_zero_pad)
  assume "show_year y = show_year z"
  then show "y = z"
    using no_sign no_sign [symmetric] same [of "nat y" "nat z"] same [of "nat (- y)" "nat (- z)"]
    by (auto simp: show_year_def split: if_splits)
qed

lemma iso_date_inj [simp]: "iso_date d = iso_date e \<longleftrightarrow> d = e"
proof
  assume eq: "iso_date d = iso_date e"
  obtain y m dd where d: "ord_to_ymd d = (y, m, dd)" by (cases "ord_to_ymd d") auto
  obtain y' m' dd' where e: "ord_to_ymd e = (y', m', dd')" by (cases "ord_to_ymd e") auto
  have v: "valid_ymd (y, m, dd)" "valid_ymd (y', m', dd')"
    using ord_to_ymd_valid [of d] ord_to_ymd_valid [of e] d e by simp_all
  have two: "length (zero_pad 2 (show_nat (nat k))) = 2" if "1 \<le> k" "k \<le> 31" for k :: int
  proof -
    have "length (show_nat (nat k)) \<le> 2"
      using that by (subst show_nat.simps, subst show_nat.simps) auto
    then show ?thesis by simp
  qed
  have same: "zero_pad 2 (show_nat (nat k)) = zero_pad 2 (show_nat (nat j)) \<Longrightarrow> 1 \<le> k \<Longrightarrow> 1 \<le> j \<Longrightarrow> k = j"
    for k j :: int by (metis read_show_nat read_zero_pad eq_nat_nat_iff order_trans zero_le_one)
  have "1 \<le> m" "m \<le> 31" "1 \<le> m'" "m' \<le> 31" "1 \<le> dd" "dd \<le> 31" "1 \<le> dd'" "dd' \<le> 31"
    using v days_in_month_bounds(2) [of y m] days_in_month_bounds(2) [of y' m']
    by (auto simp: valid_ymd_def)
  note bounds = this
  define M where "M = zero_pad 2 (show_nat (nat m))"
  define M' where "M' = zero_pad 2 (show_nat (nat m'))"
  define D where "D = zero_pad 2 (show_nat (nat dd))"
  define D' where "D' = zero_pad 2 (show_nat (nat dd'))"
  have len: "length M = 2" "length M' = 2" "length D = 2" "length D' = 2"
    unfolding M_def M'_def D_def D'_def using two bounds by blast+
  have "show_year y @ (''-'' @ M @ ''-'' @ D) = show_year y' @ (''-'' @ M' @ ''-'' @ D')"
    using eq d e by (simp add: iso_date_def M_def M'_def D_def D'_def)
  then have "show_year y = show_year y' \<and> ''-'' @ M @ ''-'' @ D = ''-'' @ M' @ ''-'' @ D'"
    using len by (intro append_eq_append_conv [THEN iffD1]) simp_all
  then have "show_year y = show_year y'" "M = M'" "D = D'" using len by auto
  then have "y = y' \<and> m = m' \<and> dd = dd'"
    using show_year_inj [of y y'] same bounds unfolding M_def M'_def D_def D'_def by blast
  then show "d = e" using d e by (metis ymd_to_ord_to_ymd)
qed simp

section \<open>Canonical documents\<close>

fun value_of_json :: "json \<Rightarrow> py_value" where
  "value_of_json JNull = PyNone"
| "value_of_json (JBool b) = PyBool b"
| "value_of_json (JInt n) = PyInt n"
| "value_of_json (JStr s) = PyStr s"
| "value_of_json (JList xs) = PyList (map value_of_json xs)"
| "value_of_json (JObj fs) = PyDict (map (\<lambda>(k, v). (k, value_of_json v)) fs)"

fun canonical :: "json \<Rightarrow> bool" where
  "canonical (JList xs) \<longleftrightarrow> (\<forall>x\<in>set xs. canonical x)"
| "canonical (JObj fs) \<longleftrightarrow> sorted (map fst fs) \<and> (\<forall>(k, v)\<in>set fs. canonical v)"
| "canonical _ \<longleftrightarrow> True"

lemma canonicalize_items_map:
  "(\<And>x. x \<in> set xs \<Longrightarrow> canonicalize (f x) = Inr x) \<Longrightarrow> canonicalize_items (map f xs) = Inr xs"
  by (induction xs) auto

lemma canonicalize_fields_map:
  "\<forall>p\<in>set fs. canonicalize (f (snd p)) = Inr (snd p) \<Longrightarrow>
   canonicalize_fields (map (\<lambda>(k, v). (k, f v)) fs) = Inr fs"
  by (induction fs) auto

lemma canonicalize_idem: "canonical j \<Longrightarrow> canonicalize (value_of_json j) = Inr j"
proof (induction j rule: canonical.induct)
  case (2 fs)
  then have "canonicalize_fields (map (\<lambda>(k, v). (k, value_of_json v)) fs) = Inr fs"
    by (intro canonicalize_fields_map) fastforce
  with 2 show ?case by (simp add: sort_key_id_if_sorted)
qed (auto simp: canonicalize_items_map)

section \<open>Canonical documents determine the values\<close>

text \<open>
  Two values of the same Python types up to missing ones: at every place either one of them is
  \<open>None\<close>, or both are of one type, and dictionaries have the same distinct keys.
\<close>

fun py_tag :: "py_value \<Rightarrow> nat" where
  "py_tag PyNone = 0" | "py_tag (PyBool _) = 1" | "py_tag (PyInt _) = 2" | "py_tag (PyStr _) = 3"
| "py_tag (PyDecimal _) = 4" | "py_tag (PyDate _) = 5" | "py_tag (PyInstant _) = 6"
| "py_tag PyFloat = 7" | "py_tag PyNonFinite = 8" | "py_tag (PyList _) = 9" | "py_tag (PyDict _) = 10"
| "py_tag (PyJson _) = 11"

fun same_shape :: "py_value \<Rightarrow> py_value \<Rightarrow> bool"
  and same_items :: "py_value list \<Rightarrow> py_value list \<Rightarrow> bool"
  and same_fields :: "(string \<times> py_value) list \<Rightarrow> (string \<times> py_value) list \<Rightarrow> bool" where
  "same_shape (PyList vs) w \<longleftrightarrow> w = PyNone \<or> (case w of PyList ws \<Rightarrow> same_items vs ws | _ \<Rightarrow> False)"
| "same_shape (PyDict fs) w \<longleftrightarrow> w = PyNone \<or>
     (case w of PyDict gs \<Rightarrow> map fst fs = map fst gs \<and> distinct (map fst fs) \<and> same_fields fs gs | _ \<Rightarrow> False)"
| "same_shape (PyJson j) w \<longleftrightarrow> (case w of PyJson _ \<Rightarrow> True | _ \<Rightarrow> False)"
| "same_shape v w \<longleftrightarrow> (v = PyNone \<or> w = PyNone \<or> py_tag v = py_tag w) \<and> py_tag w \<noteq> 11"
| "same_items [] ws \<longleftrightarrow> True"
| "same_items (v # vs) ws \<longleftrightarrow> (case ws of [] \<Rightarrow> True | w # ws' \<Rightarrow> same_shape v w \<and> same_items vs ws')"
| "same_fields [] gs \<longleftrightarrow> True"
| "same_fields ((k, v) # fs) gs \<longleftrightarrow> (case gs of [] \<Rightarrow> True | (_, w) # gs' \<Rightarrow> same_shape v w \<and> same_fields fs gs')"

lemma sort_key_fst_inj:
  assumes "sort_key fst xs = sort_key fst ys" "map fst xs = map fst ys" "distinct (map fst xs)"
  shows "xs = ys"
proof -
  have set: "set xs = set ys" using arg_cong [OF assms(1), of set] by simp
  have "map_of xs = map_of ys"
    using assms(2,3) set by (intro map_of_inject_set [THEN iffD2]) auto
  moreover have rebuild: "zs = map (\<lambda>k. (k, the (map_of zs k))) (map fst zs)" if "distinct (map fst zs)"
    for zs :: "('a \<times> 'b) list"
    using that by (auto simp: comp_def intro!: map_idI [symmetric])
  ultimately show ?thesis
    using rebuild [of xs] rebuild [of ys] assms(2,3) by simp
qed

lemma canonicalize_items_length: "canonicalize_items vs = Inr xs \<Longrightarrow> length xs = length vs"
  by (induction vs arbitrary: xs) (auto simp: bind_r_Inr_iff map_r_Inr_iff)

lemma canonicalize_fields_keys: "canonicalize_fields fs = Inr xs \<Longrightarrow> map fst xs = map fst fs"
  by (induction fs arbitrary: xs) (auto simp: bind_r_Inr_iff map_r_Inr_iff)

lemma atom_inj:
  "same_shape v w \<Longrightarrow> canonicalize v = Inr x \<Longrightarrow> canonicalize w = Inr x \<Longrightarrow> py_tag v < 9 \<Longrightarrow> v = w"
  by (cases v; cases w) (auto simp: map_r_Inr_iff)

lemma canonicalize_inj_aux:
  "same_shape v w \<Longrightarrow> canonicalize v = Inr x \<Longrightarrow> canonicalize w = Inr x \<Longrightarrow> v = w"
  "same_items vs ws \<Longrightarrow> canonicalize_items vs = Inr xs \<Longrightarrow> canonicalize_items ws = Inr xs \<Longrightarrow> vs = ws"
  "same_fields fs gs \<Longrightarrow> map fst fs = map fst gs \<Longrightarrow>
   canonicalize_fields fs = Inr ys \<Longrightarrow> canonicalize_fields gs = Inr ys \<Longrightarrow> fs = gs"
proof (induction v w and vs ws and fs gs arbitrary: x and xs and ys
    rule: same_shape_same_items_same_fields.induct)
  case (1 vs w)
  then show ?case by (cases w) (auto simp: map_r_Inr_iff)
next
  case (2 fs w)
  show ?case
  proof (cases w)
    case (PyDict gs)
    with 2 obtain a b where a: "canonicalize_fields fs = Inr a" "x = JObj (sort_key fst a)"
      and b: "canonicalize_fields gs = Inr b" "x = JObj (sort_key fst b)"
      by (auto simp: map_r_Inr_iff)
    from 2(2) PyDict have shape: "map fst fs = map fst gs" "distinct (map fst fs)" "same_fields fs gs"
      by auto
    have "a = b"
    proof (rule sort_key_fst_inj)
      show "sort_key fst a = sort_key fst b" using a(2) b(2) by simp
      show "map fst a = map fst b"
        unfolding canonicalize_fields_keys [OF a(1)] canonicalize_fields_keys [OF b(1)] by (rule shape(1))
      show "distinct (map fst a)"
        unfolding canonicalize_fields_keys [OF a(1)] by (rule shape(2))
    qed
    with b have "canonicalize_fields gs = Inr a" by simp
    with 2(1) [OF PyDict shape(3) shape(1) a(1)] show ?thesis using PyDict by simp
  qed (use 2 in \<open>auto simp: map_r_Inr_iff\<close>)
next
  case (3 j w)
  then show ?case by (cases w) auto
next
  case (5 ws)
  then show ?case by (cases ws) (auto simp: map_r_Inr_iff bind_r_Inr_iff)
next
  case (6 v vs ws)
  then show ?case by (cases ws) (auto simp: map_r_Inr_iff bind_r_Inr_iff)
next
  case (7 gs)
  then show ?case by (cases gs) auto
next
  case (8 k v fs gs)
  then show ?case by (cases gs) (auto simp: map_r_Inr_iff bind_r_Inr_iff)
qed (erule (2) atom_inj, simp)+

lemma canonicalize_inj:
  "same_shape v w \<Longrightarrow> canonicalize v = Inr x \<Longrightarrow> canonicalize w = Inr x \<Longrightarrow> v = w"
  by (rule canonicalize_inj_aux(1))

end
