(* ===== verification/Snapshot_Content.thy ===== *)
theory Snapshot_Content
  imports Period_Calculation Canonical_Json "HOL-Library.Product_Lexorder"
begin

text \<open>
  The content of an immutable calculation snapshot: the records of the evidence, how a live
  packet becomes content (\<open>payroll/calculation_snapshot.py\<close>, \<open>_line_content\<close> to
  \<open>_snapshot_content\<close>), the rates its lines used (\<open>payroll/immutable_evidence.py\<close>), and the
  financial hash (\<open>payroll/snapshot_hash.py\<close>).

  A mapping of the code is a record.  What the code loads from the tables carries more fields
  than what it hashes: the records are extensible, and the projections of the hash are
  functions of every extension, so that they cannot depend on a row id.  SHA-256 over the UTF-8 text of a canonical
  document is a parameter \<open>digest\<close> of the definitions that hash.
\<close>

section \<open>Records\<close>

record snapshot_line =
  sl_source_type :: string
  sl_source_id :: string
  sl_line_type :: string
  sl_line_scope :: string
  sl_work_date :: "date option"
  sl_period_definition_id :: "int option"
  sl_pay_definition_id :: "int option"
  sl_rate_definition_id :: "int option"
  sl_schedule_id :: "int option"
  sl_calculation_status :: "calculation_status option"
  sl_calculation_version :: "string option"
  sl_rate_column_id :: "int option"
  sl_bonus_event_id :: "int option"
  sl_quantity :: "decimal option"
  sl_resolved_rate :: "decimal option"
  sl_amount :: decimal
  sl_evidence :: json
  sl_fingerprint :: "string option"

record line_content = snapshot_line +
  lc_component_definition_id :: "int option"
  lc_rate_values :: "used_rate_value list"
  lc_schedule_status :: "string option"
  lc_effective_from :: "date option"
  lc_effective_to :: "date option"

record snapshot_component =
  sc_kind :: string
  sc_period_definition_id :: "int option"
  sc_pay_definition_id :: "int option"
  sc_rate_definition_id :: "int option"
  sc_method :: "string option"
  sc_method_version :: "int option"
  sc_code :: "string option"
  sc_name :: "string option"
  sc_status_column_id :: "int option"
  sc_status_column_name :: "string option"
  sc_rule_id :: "int option"
  sc_pre_rounding :: decimal
  sc_official :: decimal
  sc_source_count :: int
  sc_unresolved :: int

record minmax_fields =
  se_status :: minmax_status
  se_selection_date :: date
  se_proration_version :: string
  se_numerator :: "int option"
  se_denominator :: "int option"
  se_base :: decimal
  se_base_ordinary :: decimal
  se_base_status :: decimal
  se_excluded_bonus :: decimal
  se_counted_dates :: "date list"

record snapshot_minmax = minmax_fields +
  se_rules :: "minmax_rule list"

record snapshot_total =
  to_assignment_id :: int
  to_driver_id :: int
  to_employee_id :: int
  to_branch_id :: int
  to_driver_number :: string
  to_driver_name :: string
  to_daily_pay :: decimal
  to_status_pay :: decimal
  to_minimum_adjustment :: decimal
  to_maximum_adjustment :: decimal
  to_bonus_total :: decimal
  to_expected_pay :: decimal

record ('c, 'l) total_content = snapshot_total +
  to_components :: "'c list"
  to_minmax :: "snapshot_minmax option"
  to_lines :: "'l list"

record used_rate =
  ud_evidence_kind :: string
  ud_source_type :: string
  ud_assignment_id :: int
  ud_driver_id :: int
  ud_schedule_id :: int
  ud_rate_definition_id :: int
  ud_pay_definition_id :: "int option"
  ud_rate_shape :: string
  ud_component_id :: "int option"
  ud_status_column_id :: "int option"
  ud_rate_amount :: "decimal option"
  ud_components :: "used_rate_value list option"
  ud_effective_from :: date
  ud_effective_to :: "date option"
  ud_rate_status :: string
  ud_currency_code :: string
  ud_currency_digits :: int

record hashed_rate = used_rate +
  ud_fingerprint :: string

record snapshot_header =
  sh_company_id :: int
  sh_branch_id :: int
  sh_period_id :: int
  sh_period_start :: date
  sh_period_end :: date
  sh_currency_code :: string
  sh_currency_digits :: int
  sh_calculation_version :: string
  sh_rounding_version :: string
  sh_proration_version :: string
  sh_source_config_hash :: string
  sh_scheduled_dates :: "date list"
  sh_warnings :: "string list"
  sh_total :: decimal

record ('c, 'l, 'u) snapshot_content = snapshot_header +
  co_totals :: "('c, 'l) total_content list"
  co_used_rates :: "'u list"

record status_evidence =
  sv_entry_state_id :: int
  sv_assignment_id :: int
  sv_driver_id :: int
  sv_work_date :: date
  sv_status_key_id :: int
  sv_code :: string
  sv_label :: string
  sv_is_off_reason :: bool
  sv_hours :: decimal
  sv_category :: string

record bonus_evidence =
  bv_event_id :: int
  bv_assignment_id :: int
  bv_driver_id :: int
  bv_amount :: decimal
  bv_currency_code :: string
  bv_currency_digits :: int
  bv_reason :: string
  bv_notes :: "string option"
  bv_data_revision :: int
  bv_created_by :: "int option"
  bv_creator_name :: "string option"
  bv_created_at :: int

section \<open>Versions\<close>

definition current_calculation_version :: string where
  "current_calculation_version = ''payroll-calculation-v4''"

definition current_report_evidence_version :: int where
  "current_report_evidence_version = 3"

definition payable_rounding_version :: string where
  "payable_rounding_version = ''payable-rounding-v1''"

definition minmax_proration_version :: string where
  "minmax_proration_version = ''minmax-proration-v1''"

definition require_supported_calculation_version :: "string \<Rightarrow> unit result" where
  "require_supported_calculation_version version =
     guard_r (version = current_calculation_version) (ValueError ''unsupported calculation version'')"

section \<open>Values of the fields\<close>

abbreviation opt_value :: "('a \<Rightarrow> py_value) \<Rightarrow> 'a option \<Rightarrow> py_value" where
  "opt_value f x \<equiv> (case x of None \<Rightarrow> PyNone | Some a \<Rightarrow> f a)"

definition status_text :: "calculation_status \<Rightarrow> string" where
  "status_text s =
     (case s of
        CALCULATED \<Rightarrow> ''Calculated'' | MISSING_RATE \<Rightarrow> ''MissingRate''
      | INCOMPLETE_RATE \<Rightarrow> ''IncompleteRate'' | INVALID_QUANTITY \<Rightarrow> ''InvalidQuantity''
      | METHOD_NOT_READY \<Rightarrow> ''MethodNotReady'')"

definition minmax_status_text :: "minmax_status \<Rightarrow> string" where
  "minmax_status_text s =
     (case s of
        APPLIED \<Rightarrow> ''APPLIED'' | NO_RULE \<Rightarrow> ''NO_RULE'' | NO_SCHEDULED_DAYS \<Rightarrow> ''NO_SCHEDULED_DAYS''
      | NO_ELIGIBLE_SCHEDULED_DAYS \<Rightarrow> ''NO_ELIGIBLE_SCHEDULED_DAYS''
      | CALENDAR_MISMATCH \<Rightarrow> ''CALENDAR_MISMATCH'' | MIN_EXCEEDS_MAX \<Rightarrow> ''MIN_EXCEEDS_MAX''
      | SOURCE_AMOUNT_PRECISION \<Rightarrow> ''SOURCE_AMOUNT_PRECISION''
      | MINMAX_PERIOD_DAYS_MISSING \<Rightarrow> ''MINMAX_PERIOD_DAYS_MISSING'')"

fun join_comma :: "string list \<Rightarrow> string" where
  "join_comma [] = []"
| "join_comma [s] = s"
| "join_comma (s # t # ss) = s @ '', '' @ join_comma (t # ss)"

definition warning_text :: "warning \<Rightarrow> string" where
  "warning_text w =
     (case w of
        NoFinancialSources \<Rightarrow> ''No current financial source lines for this period.''
      | NoScheduledDays assignment driver rules \<Rightarrow>
          ''Driver '' @ show_int assignment @ '' (DriverID '' @ show_int driver @
          ''): this period has no scheduled days, so the pay rule(s) '' @
          join_comma (map (\<lambda>(label, r). label @ '' '' @ show_int r) rules) @ '' were not applied.'')"

definition source_text :: "source_ref \<Rightarrow> string" where
  "source_text r =
     (case r of
        DraftLineRef n \<Rightarrow> show_int n
      | StatusLiveRef a d k \<Rightarrow> ''STATUS_LIVE:'' @ show_int a @ '':'' @ iso_date d @ '':'' @ show_int k
      | EntryStateRef n \<Rightarrow> show_int n
      | BonusRef n \<Rightarrow> show_int n
      | RuleRef n \<Rightarrow> show_int n)"

definition contribution_evidence :: "tier_contribution list \<Rightarrow> py_value" where
  "contribution_evidence cs =
     PyList (map (\<lambda>c. PyDict
       [(''SequenceNo'', PyInt (tc_sequence_no c)), (''OrdinalFrom'', PyInt (tc_ordinal_from c)),
        (''OrdinalTo'', opt_value PyInt (tc_ordinal_to c)), (''Units'', PyInt (tc_units c)),
        (''RateAmount'', PyDecimal (tc_rate_amount c)), (''Amount'', PyDecimal (tc_amount c))]) cs)"

definition minmax_evidence_value :: "minmax_evidence \<Rightarrow> py_value" where
  "minmax_evidence_value e =
     (let rule = me_rule e; p = me_proration e in PyDict
       [(''DriverPayRuleID'', PyInt (mr_id rule)), (''RuleType'', PyStr (mr_rule_type rule)),
        (''RuleAmount'', PyDecimal (mr_amount rule)), (''RuleStatus'', PyStr (mr_status rule)),
        (''EffectiveFrom'', PyDate (mr_effective_from rule)),
        (''EffectiveTo'', opt_value PyDate (mr_effective_to rule)),
        (''NormalBase'', PyDecimal (mp_base_amount p)),
        (''ProrationVersion'', PyStr minmax_proration_version),
        (''ProrationNumerator'', opt_value PyInt (mp_numerator p)),
        (''ProrationDenominator'', opt_value PyInt (mp_denominator p)),
        (''ProratedAmount'', opt_value PyDecimal (mr_prorated rule)),
        (''PreRoundingAdjustment'', PyDecimal (me_raw e)),
        (''OfficialAdjustment'', PyDecimal (me_official e))])"

definition evidence_value :: "evidence option \<Rightarrow> py_value" where
  "evidence_value e =
     (case e of
        None \<Rightarrow> PyDict []
      | Some (TierEvidence cs) \<Rightarrow> PyDict [(''TierContributions'', contribution_evidence cs)]
      | Some (StatusEvidence key code) \<Rightarrow> PyDict [(''StatusKeyID'', PyInt key), (''StatusCode'', PyStr code)]
      | Some (BonusEvidence reason notes revision) \<Rightarrow>
          PyDict [(''Reason'', PyStr reason), (''Notes'', opt_value PyStr notes), (''DataRevision'', PyInt revision)]
      | Some (MinMaxEvidence m) \<Rightarrow> minmax_evidence_value m)"

text \<open>The evidence document as it is hashed and stored; these values always have one.\<close>

definition document_of :: "py_value \<Rightarrow> json" where
  "document_of v = (case canonicalize v of Inr j \<Rightarrow> j | Inl _ \<Rightarrow> JNull)"

section \<open>From the packet to the content\<close>

definition line_amount :: "packet_line \<Rightarrow> decimal option" where
  "line_amount l =
     (if pl_snapshot_amount l \<noteq> None then pl_snapshot_amount l else pl_calculated_amount l)"

definition persisted_lines :: "driver_total \<Rightarrow> packet_line list" where
  "persisted_lines dt = filter (\<lambda>l. pl_source_type l \<noteq> ''System'') (dt_lines dt)"

definition line_type_by_source :: "string \<Rightarrow> string option" where
  "line_type_by_source source_type =
     map_of [(''DraftLine'', ''ORDINARY''), (''StatusEntryState'', ''STATUS''), (''BonusEvent'', ''BONUS'')]
       source_type"

text \<open>A line without an amount is refused before the content is built.\<close>

definition line_content :: "packet_line \<Rightarrow> line_content result" where
  "line_content l =
     (let source_type = (case pl_snapshot_source_type l of Some s \<Rightarrow> s | None \<Rightarrow> pl_source_type l)
      in case line_type_by_source source_type of
        None \<Rightarrow> Inl KeyError
      | Some line_type \<Rightarrow> Inr
         \<lparr>sl_source_type = source_type,
          sl_source_id = source_text (case pl_snapshot_source_id l of Some r \<Rightarrow> r | None \<Rightarrow> pl_source_id l),
          sl_line_type = line_type, sl_line_scope = pl_line_scope l, sl_work_date = pl_work_date l,
          sl_period_definition_id = pl_period_definition_id l,
          sl_pay_definition_id = pl_pay_definition_id l,
          sl_rate_definition_id = pl_rate_definition_id l, sl_schedule_id = pl_schedule_id l,
          sl_calculation_status =
            (if source_type \<noteq> ''BonusEvent'' then pl_calculation_status l else None),
          sl_calculation_version = pl_version l, sl_rate_column_id = pl_rate_column_id l,
          sl_bonus_event_id = pl_bonus_event_id l, sl_quantity = pl_quantity l,
          sl_resolved_rate = pl_resolved_rate l,
          sl_amount = (case line_amount l of Some a \<Rightarrow> a | None \<Rightarrow> 0),
          sl_evidence = document_of (evidence_value (pl_evidence l)), sl_fingerprint = None,
          lc_component_definition_id = pl_component_id l, lc_rate_values = pl_rate_values l,
          lc_schedule_status = pl_schedule_status l, lc_effective_from = pl_effective_from l,
          lc_effective_to = pl_effective_to l\<rparr>)"

definition frozen_minmax_statuses :: "minmax_status set" where
  "frozen_minmax_statuses = {APPLIED, NO_RULE, NO_SCHEDULED_DAYS, NO_ELIGIBLE_SCHEDULED_DAYS}"

definition minmax_content :: "'a period_row_scheme \<Rightarrow> driver_total \<Rightarrow> snapshot_minmax result" where
  "minmax_content period dt =
     (let p = dt_minmax dt in
      if mp_status p \<notin> frozen_minmax_statuses
      then Inl (HttpError 422 ''Cannot submit: no freezable Min/Max outcome'')
      else Inr
        \<lparr>se_status = mp_status p, se_selection_date = pp_start period,
         se_proration_version = minmax_proration_version, se_numerator = mp_numerator p,
         se_denominator = mp_denominator p, se_base = mp_base_amount p,
         se_base_ordinary = dt_daily_pay dt, se_base_status = dt_status_pay dt,
         se_excluded_bonus = dt_bonus_total dt, se_counted_dates = mp_counted_dates p,
         se_rules = (case mp_minimum_rule p of None \<Rightarrow> [] | Some r \<Rightarrow> [r]) @
                    (case mp_maximum_rule p of None \<Rightarrow> [] | Some r \<Rightarrow> [r])\<rparr>)"

definition kind_of :: "component_identity \<Rightarrow> string" where
  "kind_of i =
     (case i of ORDINARY _ \<Rightarrow> ''ORDINARY'' | STATUS _ _ \<Rightarrow> ''STATUS'' | BONUS \<Rightarrow> ''BONUS''
      | MINIMUM_ADJUSTMENT _ \<Rightarrow> ''MINIMUM_ADJUSTMENT'' | MAXIMUM_ADJUSTMENT _ \<Rightarrow> ''MAXIMUM_ADJUSTMENT'')"

definition blank_component :: "string \<Rightarrow> decimal \<Rightarrow> decimal \<Rightarrow> int \<Rightarrow> int \<Rightarrow> snapshot_component" where
  "blank_component kind raw official sources unresolved =
     \<lparr>sc_kind = kind, sc_period_definition_id = None, sc_pay_definition_id = None,
      sc_rate_definition_id = None, sc_method = None, sc_method_version = None, sc_code = None,
      sc_name = None, sc_status_column_id = None, sc_status_column_name = None, sc_rule_id = None,
      sc_pre_rounding = raw, sc_official = official, sc_source_count = sources,
      sc_unresolved = unresolved\<rparr>"

definition component_content :: "official_component \<Rightarrow> snapshot_component" where
  "component_content oc =
     (let c = blank_component (kind_of (oc_identity oc)) (oc_raw oc) (oc_official oc)
                (int (length (oc_sources oc))) (int (oc_unresolved oc))
      in case oc_identity oc of
        ORDINARY d \<Rightarrow> c\<lparr>sc_period_definition_id := Some (di_period_definition_id d),
          sc_pay_definition_id := Some (di_pay_definition_id d),
          sc_rate_definition_id := Some (di_rate_definition_id d), sc_method := Some (di_method d),
          sc_method_version := Some (di_method_version d), sc_code := Some (di_code d),
          sc_name := Some (di_name d)\<rparr>
      | STATUS i n \<Rightarrow> c\<lparr>sc_status_column_id := Some i, sc_status_column_name := Some n\<rparr>
      | BONUS \<Rightarrow> c
      | MINIMUM_ADJUSTMENT r \<Rightarrow> c\<lparr>sc_rule_id := Some r\<rparr>
      | MAXIMUM_ADJUSTMENT r \<Rightarrow> c\<lparr>sc_rule_id := Some r\<rparr>)"

definition total_content ::
  "'a period_row_scheme \<Rightarrow> driver_total \<Rightarrow> (snapshot_component, line_content) total_content result" where
  "total_content period dt =
     bind_r (minmax_content period dt) (\<lambda>evaluation.
     map_r (\<lambda>ls.
       \<lparr>to_assignment_id = dt_assignment_id dt, to_driver_id = dt_driver_id dt,
        to_employee_id = dt_employee_id dt, to_branch_id = pp_branch_id period,
        to_driver_number = dt_driver_number dt, to_driver_name = dt_driver_name dt,
        to_daily_pay = dt_daily_pay dt, to_status_pay = dt_status_pay dt,
        to_minimum_adjustment = dt_minimum_adjustment dt,
        to_maximum_adjustment = dt_maximum_adjustment dt, to_bonus_total = dt_bonus_total dt,
        to_expected_pay = dt_expected_pay dt, to_components = map component_content (dt_components dt),
        to_minmax = Some evaluation, to_lines = ls\<rparr>)
       (mapM line_content (persisted_lines dt)))"

text \<open>\<open>_snapshot_content\<close>; the used rates are added once the lines are known.\<close>

definition build_snapshot_content ::
  "'a period_row_scheme \<Rightarrow> int \<Rightarrow> live_packet \<Rightarrow> company_currency \<Rightarrow> string
   \<Rightarrow> (snapshot_component, line_content, hashed_rate) snapshot_content result" where
  "build_snapshot_content period company_id packet currency source_config_hash =
     map_r (\<lambda>totals.
       \<lparr>sh_company_id = company_id, sh_branch_id = pp_branch_id period, sh_period_id = pp_id period,
        sh_period_start = pp_start period, sh_period_end = pp_end period,
        sh_currency_code = cur_code currency, sh_currency_digits = minor_unit_digits currency,
        sh_calculation_version = current_calculation_version,
        sh_rounding_version = payable_rounding_version,
        sh_proration_version = minmax_proration_version,
        sh_source_config_hash = source_config_hash, sh_scheduled_dates = pk_scheduled_dates packet,
        sh_warnings = map warning_text (pk_warnings packet), sh_total = pk_total packet, co_totals = totals,
        co_used_rates = []\<rparr>)
       (mapM (total_content period) (pk_drivers packet))"

end
