(* ===== verification/Snapshot_Hash.thy ===== *)
theory Snapshot_Hash
  imports Snapshot_Content
begin

text \<open>
  The hashes of the snapshot evidence (\<open>payroll/snapshot_hash.py\<close>) and the used-rate evidence
  that is identified by one (\<open>payroll/immutable_evidence.py\<close>).  Every projection names the
  fields it hashes and orders the lists it hashes, so two contents with the same financial
  evidence have the same hash whatever their row ids and whatever the order of their rows.
\<close>

section \<open>Projections\<close>

definition rate_value_fields :: "used_rate_value \<Rightarrow> py_value" where
  "rate_value_fields v = PyDict
     [(''SequenceNo'', PyInt (ur_sequence_no v)),
      (''RateComponentDefinitionID'', PyInt (ur_component_id v)),
      (''OrdinalFrom'', opt_value PyInt (ur_ordinal_from v)),
      (''OrdinalTo'', opt_value PyInt (ur_ordinal_to v)), (''Amount'', PyDecimal (ur_amount v))]"

definition used_rate_fields :: "'a used_rate_scheme \<Rightarrow> (string \<times> py_value) list" where
  "used_rate_fields u =
     [(''EvidenceKind'', PyStr (ud_evidence_kind u)), (''SourceType'', PyStr (ud_source_type u)),
      (''DriverAssignmentID'', PyInt (ud_assignment_id u)), (''DriverID'', PyInt (ud_driver_id u)),
      (''DriverRateScheduleID'', PyInt (ud_schedule_id u)),
      (''RateDefinitionID'', PyInt (ud_rate_definition_id u)),
      (''PayDefinitionID'', opt_value PyInt (ud_pay_definition_id u)),
      (''RateShape'', PyStr (ud_rate_shape u)),
      (''RateComponentDefinitionID'', opt_value PyInt (ud_component_id u)),
      (''StatusRateColumnID'', opt_value PyInt (ud_status_column_id u)),
      (''RateAmount'', opt_value PyDecimal (ud_rate_amount u)),
      (''Components'', opt_value (\<lambda>vs. PyList (map rate_value_fields (sort_key ur_sequence_no vs)))
         (ud_components u)),
      (''EffectiveFrom'', PyDate (ud_effective_from u)),
      (''EffectiveTo'', opt_value PyDate (ud_effective_to u)),
      (''RateStatus'', PyStr (ud_rate_status u)),
      (''CurrencyCodeSnapshot'', PyStr (ud_currency_code u)),
      (''CurrencyMinorUnitDigitsSnapshot'', PyInt (ud_currency_digits u))]"

definition hashed_rate_value :: "'a hashed_rate_scheme \<Rightarrow> py_value" where
  "hashed_rate_value u =
     PyDict (used_rate_fields u @ [(''DefinitionFingerprint'', PyStr (ud_fingerprint u))])"

definition snapshot_component_value :: "'a snapshot_component_scheme \<Rightarrow> py_value" where
  "snapshot_component_value c = PyDict
     [(''ComponentKind'', PyStr (sc_kind c)),
      (''PayrollPeriodDefinitionID'', opt_value PyInt (sc_period_definition_id c)),
      (''PayDefinitionID'', opt_value PyInt (sc_pay_definition_id c)),
      (''RateDefinitionID'', opt_value PyInt (sc_rate_definition_id c)),
      (''CalculationMethod'', opt_value PyStr (sc_method c)),
      (''CalculationMethodVersion'', opt_value PyInt (sc_method_version c)),
      (''DefinitionCodeSnapshot'', opt_value PyStr (sc_code c)),
      (''DefinitionNameSnapshot'', opt_value PyStr (sc_name c)),
      (''StatusRateColumnID'', opt_value PyInt (sc_status_column_id c)),
      (''StatusRateColumnNameSnapshot'', opt_value PyStr (sc_status_column_name c)),
      (''DriverPayRuleID'', opt_value PyInt (sc_rule_id c)),
      (''PreRoundingAmount'', PyDecimal (sc_pre_rounding c)),
      (''OfficialAmount'', PyDecimal (sc_official c)),
      (''SourceCount'', PyInt (sc_source_count c)),
      (''UnresolvedLineCount'', PyInt (sc_unresolved c))]"

definition rule_value :: "minmax_rule \<Rightarrow> py_value" where
  "rule_value r = PyDict
     [(''DriverPayRuleID'', PyInt (mr_id r)), (''RuleType'', PyStr (mr_rule_type r)),
      (''Amount'', PyDecimal (mr_amount r)), (''RuleStatus'', PyStr (mr_status r)),
      (''EffectiveFrom'', PyDate (mr_effective_from r)),
      (''EffectiveTo'', opt_value PyDate (mr_effective_to r)),
      (''ProratedAmount'', opt_value PyDecimal (mr_prorated r)),
      (''CalendarFrequency'', PyStr (mr_calendar_frequency r)),
      (''CalendarAnchorStartDate'', PyDate (mr_calendar_anchor r)),
      (''CalendarCustomIntervalDays'', opt_value PyInt (mr_calendar_interval r)),
      (''CalendarSourceBranchID'', PyInt (mr_calendar_branch_id r)),
      (''CalendarSourcePayrollSetupVersionID'', PyInt (mr_calendar_version_id r))]"

definition minmax_value :: "snapshot_minmax \<Rightarrow> py_value" where
  "minmax_value e = PyDict
     [(''Status'', PyStr (minmax_status_text (se_status e))),
      (''SelectionDate'', PyDate (se_selection_date e)),
      (''ProrationVersion'', PyStr (se_proration_version e)),
      (''Numerator'', opt_value PyInt (se_numerator e)),
      (''Denominator'', opt_value PyInt (se_denominator e)),
      (''BaseAmount'', PyDecimal (se_base e)), (''BaseOrdinaryAmount'', PyDecimal (se_base_ordinary e)),
      (''BaseStatusAmount'', PyDecimal (se_base_status e)),
      (''ExcludedBonusAmount'', PyDecimal (se_excluded_bonus e)),
      (''CountedWorkDates'', PyList (map PyDate (se_counted_dates e))),
      (''Rules'', PyList (map rule_value (sort_key mr_rule_type (se_rules e))))]"

definition line_value :: "'a snapshot_line_scheme \<Rightarrow> py_value" where
  "line_value l = PyDict
     [(''SourceType'', PyStr (sl_source_type l)), (''SourceID'', PyStr (sl_source_id l)),
      (''LineType'', PyStr (sl_line_type l)), (''LineScope'', PyStr (sl_line_scope l)),
      (''WorkDate'', opt_value PyDate (sl_work_date l)),
      (''PayrollPeriodDefinitionID'', opt_value PyInt (sl_period_definition_id l)),
      (''PayDefinitionID'', opt_value PyInt (sl_pay_definition_id l)),
      (''RateDefinitionID'', opt_value PyInt (sl_rate_definition_id l)),
      (''DriverRateScheduleID'', opt_value PyInt (sl_schedule_id l)),
      (''CalculationStatus'', opt_value (PyStr \<circ> status_text) (sl_calculation_status l)),
      (''CalculationVersion'', opt_value PyStr (sl_calculation_version l)),
      (''StatusRateColumnID'', opt_value PyInt (sl_rate_column_id l)),
      (''BonusEventID'', opt_value PyInt (sl_bonus_event_id l)),
      (''Quantity'', opt_value PyDecimal (sl_quantity l)),
      (''ResolvedRateAmount'', opt_value PyDecimal (sl_resolved_rate l)),
      (''CalculatedAmount'', PyDecimal (sl_amount l)),
      (''SourceEvidenceJSONB'', PyJson (sl_evidence l)),
      (''UsedRateFingerprint'', opt_value PyStr (sl_fingerprint l))]"

section \<open>Orders\<close>

text \<open>The five kinds have the orders 0 to 4; the code raises a \<open>KeyError\<close> on any other (see
  \<open>projectable\<close>).\<close>

definition component_kind_order :: "string \<Rightarrow> nat" where
  "component_kind_order kind =
     (case map_of [(''ORDINARY'', 0), (''STATUS'', 1), (''BONUS'', 2), (''MINIMUM_ADJUSTMENT'', 3),
        (''MAXIMUM_ADJUSTMENT'', 4)] kind of Some i \<Rightarrow> i | None \<Rightarrow> 5)"

abbreviation or_zero :: "int option \<Rightarrow> int" where
  "or_zero x \<equiv> (case x of None \<Rightarrow> 0 | Some n \<Rightarrow> n)"

definition component_sort_key :: "'a snapshot_component_scheme \<Rightarrow> nat \<times> int \<times> int \<times> int" where
  "component_sort_key c =
     (component_kind_order (sc_kind c), or_zero (sc_period_definition_id c),
      or_zero (sc_status_column_id c), or_zero (sc_rule_id c))"

definition line_sort_key :: "'a snapshot_line_scheme \<Rightarrow> (bool \<times> int) \<times> string \<times> string \<times> string" where
  "line_sort_key l =
     ((sl_work_date l = None, or_zero (sl_work_date l)), sl_line_type l, sl_source_type l, sl_source_id l)"

section \<open>The financial hash\<close>

definition total_value ::
  "('a snapshot_component_scheme, 'b snapshot_line_scheme, 'z) total_content_scheme \<Rightarrow> py_value" where
  "total_value t = PyDict
     [(''DriverAssignmentID'', PyInt (to_assignment_id t)), (''DriverID'', PyInt (to_driver_id t)),
      (''EmployeeID'', PyInt (to_employee_id t)), (''BranchID'', PyInt (to_branch_id t)),
      (''DriverNumberSnapshot'', PyStr (to_driver_number t)),
      (''DriverNameSnapshot'', PyStr (to_driver_name t)),
      (''DailyPay'', PyDecimal (to_daily_pay t)), (''StatusPay'', PyDecimal (to_status_pay t)),
      (''MinimumAdjustment'', PyDecimal (to_minimum_adjustment t)),
      (''MaximumAdjustment'', PyDecimal (to_maximum_adjustment t)),
      (''BonusTotal'', PyDecimal (to_bonus_total t)), (''ExpectedPay'', PyDecimal (to_expected_pay t)),
      (''Components'', PyList (map snapshot_component_value (sort_key component_sort_key (to_components t)))),
      (''MinMax'', opt_value minmax_value (to_minmax t)),
      (''Lines'', PyList (map line_value (sort_key line_sort_key (to_lines t))))]"

definition financial_value ::
  "('a snapshot_component_scheme, 'b snapshot_line_scheme, 'c hashed_rate_scheme, 'z) snapshot_content_scheme
   \<Rightarrow> py_value" where
  "financial_value c = PyDict
     [(''CompanyID'', PyInt (sh_company_id c)), (''BranchID'', PyInt (sh_branch_id c)),
      (''PayrollPeriodID'', PyInt (sh_period_id c)),
      (''PeriodStartDate'', PyDate (sh_period_start c)), (''PeriodEndDate'', PyDate (sh_period_end c)),
      (''CurrencyCode'', PyStr (sh_currency_code c)),
      (''CurrencyMinorUnitDigits'', PyInt (sh_currency_digits c)),
      (''CalculationVersion'', PyStr (sh_calculation_version c)),
      (''PayableRoundingVersion'', PyStr (sh_rounding_version c)),
      (''MinMaxProrationVersion'', PyStr (sh_proration_version c)),
      (''SourceConfigHash'', PyStr (sh_source_config_hash c)),
      (''ScheduledWorkDates'', PyList (map PyDate (sh_scheduled_dates c))),
      (''Warnings'', PyList (map PyStr (sh_warnings c))),
      (''TotalExpectedPay'', PyDecimal (sh_total c)),
      (''DriverTotals'', PyList (map total_value (sort_key to_assignment_id (co_totals c)))),
      (''UsedRates'', PyList (map hashed_rate_value (sort_key ud_fingerprint (co_used_rates c))))]"

definition sha256_hex :: "(json \<Rightarrow> string) \<Rightarrow> py_value \<Rightarrow> string result" where
  "sha256_hex digest v = map_r digest (canonicalize v)"

text \<open>\<open>_driver_total_projection\<close> raises on a total without a Min/Max mapping or with a component of
  an unknown kind.\<close>

definition projectable ::
  "('a snapshot_component_scheme, 'b snapshot_line_scheme, 'z) total_content_scheme \<Rightarrow> unit result" where
  "projectable t =
     bind_r (guard_r (to_minmax t \<noteq> None) (TypeError ''snapshot driver total MinMax must be a mapping'')) (\<lambda>_.
     guard_r (\<forall>c\<in>set (to_components t). component_kind_order (sc_kind c) < 5) KeyError)"

definition calculate_snapshot_hash ::
  "(json \<Rightarrow> string) \<Rightarrow>
   ('a snapshot_component_scheme, 'b snapshot_line_scheme, 'c hashed_rate_scheme, 'z) snapshot_content_scheme
   \<Rightarrow> string result" where
  "calculate_snapshot_hash digest c =
     bind_r (mapM projectable (co_totals c)) (\<lambda>_. sha256_hex digest (financial_value c))"

definition used_rate_fingerprint :: "(json \<Rightarrow> string) \<Rightarrow> 'a used_rate_scheme \<Rightarrow> string result" where
  "used_rate_fingerprint digest u = sha256_hex digest (PyDict (used_rate_fields u))"

section \<open>The report evidence hash\<close>

definition status_evidence_value :: "'a status_evidence_scheme \<Rightarrow> py_value" where
  "status_evidence_value e = PyDict
     [(''DriverAssignmentID'', PyInt (sv_assignment_id e)), (''DriverID'', PyInt (sv_driver_id e)),
      (''WorkDate'', PyDate (sv_work_date e)),
      (''PayrollPeriodDriverDayEntryStateID'', PyInt (sv_entry_state_id e)),
      (''StatusKeyID'', PyInt (sv_status_key_id e)), (''StatusCodeSnapshot'', PyStr (sv_code e)),
      (''StatusLabelSnapshot'', PyStr (sv_label e)),
      (''StatusIsOffReasonSnapshot'', PyBool (sv_is_off_reason e)),
      (''StatusHoursValueSnapshot'', PyDecimal (sv_hours e)),
      (''StatusCategorySnapshot'', PyStr (sv_category e))]"

definition bonus_evidence_value :: "'a bonus_evidence_scheme \<Rightarrow> py_value" where
  "bonus_evidence_value e = PyDict
     [(''PayrollBonusEventID'', PyInt (bv_event_id e)), (''DriverAssignmentID'', PyInt (bv_assignment_id e)),
      (''DriverID'', PyInt (bv_driver_id e)), (''Amount'', PyDecimal (bv_amount e)),
      (''CurrencyCodeSnapshot'', PyStr (bv_currency_code e)),
      (''CurrencyMinorUnitDigitsSnapshot'', PyInt (bv_currency_digits e)),
      (''Reason'', PyStr (bv_reason e)), (''Notes'', opt_value PyStr (bv_notes e)),
      (''DataRevision'', PyInt (bv_data_revision e)),
      (''CreatedByUserID'', opt_value PyInt (bv_created_by e)),
      (''CreatorDisplayNameSnapshot'', opt_value PyStr (bv_creator_name e)),
      (''CreatedAtUtc'', PyInstant (show_int (bv_created_at e)))]"

definition report_evidence_value ::
  "'a status_evidence_scheme list \<Rightarrow> 'b bonus_evidence_scheme list \<Rightarrow> py_value" where
  "report_evidence_value statuses bonuses = PyDict
     [(''ReportEvidenceVersion'', PyInt current_report_evidence_version),
      (''StatusEntries'', PyList (map status_evidence_value
         (sort_key (\<lambda>e. (sv_assignment_id e, sv_work_date e, sv_entry_state_id e)) statuses))),
      (''BonusEvents'', PyList (map bonus_evidence_value
         (sort_key (\<lambda>e. (bv_assignment_id e, bv_event_id e)) bonuses)))]"

definition calculate_report_evidence_hash ::
  "(json \<Rightarrow> string) \<Rightarrow> 'a status_evidence_scheme list \<Rightarrow> 'b bonus_evidence_scheme list \<Rightarrow> string result" where
  "calculate_report_evidence_hash digest statuses bonuses =
     sha256_hex digest (report_evidence_value statuses bonuses)"

section \<open>The rates the lines used\<close>

definition missing_rate_identity :: "string \<Rightarrow> py_error" where
  "missing_rate_identity source_type =
     HttpError 422 (if source_type = ''DraftLine''
       then ''Cannot submit: a ordinary line does not identify the rate it used.''
       else ''Cannot submit: a Status line does not identify the rate it used.'')"

text \<open>\<open>_schedule_descriptor\<close> with the currency fields its caller adds.\<close>

definition schedule_descriptor ::
  "company_currency \<Rightarrow> int \<Rightarrow> int \<Rightarrow> line_content \<Rightarrow> used_rate result" where
  "schedule_descriptor currency assignment driver l =
     (let draft = (sl_source_type l = ''DraftLine'');
          owner = (if draft then sl_pay_definition_id l else sl_rate_column_id l);
          tiers = (lc_rate_values l \<noteq> []);
          missing = Inl (missing_rate_identity (sl_source_type l))
      in if tiers \<and> \<not> draft
         then Inl (HttpError 422 ''Cannot submit: a Status line carries tier values instead of one rate.'')
         else if owner = None \<or> (\<not> tiers \<and> (lc_component_definition_id l = None \<or> sl_resolved_rate l = None))
         then missing
         else case (sl_schedule_id l, sl_rate_definition_id l, lc_schedule_status l, lc_effective_from l) of
           (Some schedule, Some rate_definition, Some status, Some effective_from) \<Rightarrow> Inr
             \<lparr>ud_evidence_kind = ''DriverRateSchedule'', ud_source_type = sl_source_type l,
              ud_assignment_id = assignment, ud_driver_id = driver, ud_schedule_id = schedule,
              ud_rate_definition_id = rate_definition,
              ud_pay_definition_id = (if draft then sl_pay_definition_id l else None),
              ud_rate_shape = (if tiers then ''OrdinalTierSchedule'' else ''Scalar''),
              ud_component_id = (if tiers then None else lc_component_definition_id l),
              ud_status_column_id =
                (if sl_source_type l = ''StatusEntryState'' then sl_rate_column_id l else None),
              ud_rate_amount = (if tiers then None else sl_resolved_rate l),
              ud_components = (if tiers then Some (lc_rate_values l) else None),
              ud_effective_from = effective_from, ud_effective_to = lc_effective_to l,
              ud_rate_status = status, ud_currency_code = cur_code currency,
              ud_currency_digits = minor_unit_digits currency\<rparr>
         | _ \<Rightarrow> missing)"

definition with_fingerprint :: "used_rate \<Rightarrow> string \<Rightarrow> hashed_rate" where
  "with_fingerprint u fp = used_rate.extend u (hashed_rate.fields fp)"

text \<open>
  \<open>build_used_rate_evidence\<close>: the distinct descriptors in the order of their first use, and for
  each line the fingerprint of its rate.
\<close>

fun build_used_rate_evidence ::
  "(json \<Rightarrow> string) \<Rightarrow> company_currency \<Rightarrow> hashed_rate list \<Rightarrow> (int \<times> int \<times> line_content) list
   \<Rightarrow> (hashed_rate list \<times> string option list) result" where
  "build_used_rate_evidence digest currency descriptors [] = Inr (descriptors, [])"
| "build_used_rate_evidence digest currency descriptors ((assignment, driver, l) # ls) =
     (if sl_source_type l \<notin> {''DraftLine'', ''StatusEntryState''}
      then map_r (apsnd ((#) None)) (build_used_rate_evidence digest currency descriptors ls)
      else bind_r (schedule_descriptor currency assignment driver l) (\<lambda>u.
           bind_r (used_rate_fingerprint digest u) (\<lambda>fp.
             let known = (\<exists>d\<in>set descriptors. ud_fingerprint d = fp);
                 descriptors' = (if known then descriptors else descriptors @ [with_fingerprint u fp])
             in map_r (apsnd ((#) (Some fp))) (build_used_rate_evidence digest currency descriptors' ls))))"

text \<open>Every line takes the next fingerprint, total by total.\<close>

fun link_lines :: "string option list \<Rightarrow> line_content list \<Rightarrow> line_content list" where
  "link_lines (fp # fps) (l # ls) = l\<lparr>sl_fingerprint := fp\<rparr> # link_lines fps ls"
| "link_lines _ ls = ls"

fun link_totals ::
  "string option list \<Rightarrow> ('c, line_content) total_content list \<Rightarrow> ('c, line_content) total_content list" where
  "link_totals fps [] = []"
| "link_totals fps (t # ts) =
     t\<lparr>to_lines := link_lines (take (length (to_lines t)) fps) (to_lines t)\<rparr>
       # link_totals (drop (length (to_lines t)) fps) ts"

definition flat_lines ::
  "('c, line_content) total_content list \<Rightarrow> (int \<times> int \<times> line_content) list" where
  "flat_lines ts = [(to_assignment_id t, to_driver_id t, l). t \<leftarrow> ts, l \<leftarrow> to_lines t]"

definition with_used_rates ::
  "(json \<Rightarrow> string) \<Rightarrow> company_currency \<Rightarrow> ('c, line_content, hashed_rate) snapshot_content
   \<Rightarrow> ('c, line_content, hashed_rate) snapshot_content result" where
  "with_used_rates digest currency c =
     map_r (\<lambda>(rates, fps). c\<lparr>co_totals := link_totals fps (co_totals c), co_used_rates := rates\<rparr>)
       (build_used_rate_evidence digest currency [] (flat_lines (co_totals c)))"

end
