(* ===== verification/Snapshot_Store.thy ===== *)
theory Snapshot_Store
  imports Snapshot_Hash
begin

text \<open>
  The snapshot tables, the rows the writer inserts (\<open>payroll/calculation_snapshot.py\<close>,
  \<open>payroll/immutable_evidence.py\<close>) and the content a reader rebuilds from them
  (\<open>payroll/snapshot_verification.py\<close>, \<open>load_snapshot_content\<close>).

  A table is the list of its rows; a row is its generated id, its foreign keys and its data.
  A generated id is one more than the greatest id of its table.  Loading filters by the foreign
  keys, orders as the \<open>ORDER BY\<close> clauses do and groups the children of each parent.
\<close>

section \<open>Tables\<close>

record ('k, 'a) row =
  row_id :: int
  row_key :: 'k
  row_data :: 'a

record header_data = snapshot_header +
  hd_revision :: int
  hd_snapshot_hash :: string
  hd_report_version :: int
  hd_report_hash :: string
  hd_created_by :: int

type_synonym scope = "int \<times> int \<times> int"

text \<open>
  Foreign keys: a total names its snapshot; an evaluation and a component their snapshot and
  total (a component also its rule row); a rule its snapshot and evaluation; a line its total,
  its component and its used rate; a used rate its snapshot and scope (Company, Branch,
  period); a tier value its snapshot and used rate; report evidence its snapshot and scope.
\<close>

record snapshot_store =
  st_headers :: "(unit, header_data) row list"
  st_totals :: "(int, snapshot_total) row list"
  st_evaluations :: "(int \<times> int, minmax_fields) row list"
  st_rules :: "(int \<times> int, minmax_rule) row list"
  st_components :: "(int \<times> int \<times> int option, snapshot_component) row list"
  st_lines :: "(int \<times> int \<times> int option, snapshot_line) row list"
  st_used_rates :: "(int \<times> scope, hashed_rate) row list"
  st_rate_values :: "(int \<times> int, used_rate_value) row list"
  st_statuses :: "(int \<times> scope, status_evidence) row list"
  st_bonuses :: "(int \<times> scope, bonus_evidence) row list"

definition next_id :: "('k, 'a) row list \<Rightarrow> int" where
  "next_id rows = foldr max (map row_id rows) 0 + 1"

definition insert_row :: "'k \<Rightarrow> 'a \<Rightarrow> ('k, 'a) row list \<Rightarrow> ('k, 'a) row list" where
  "insert_row k x rows = rows @ [\<lparr>row_id = next_id rows, row_key = k, row_data = x\<rparr>]"

section \<open>Writing\<close>

text \<open>The rules of one evaluation; \<open>rule_ids\<close> maps a rule type to the row of its last rule.\<close>

fun insert_rules ::
  "int \<Rightarrow> int \<Rightarrow> minmax_rule list \<Rightarrow> (int \<times> int, minmax_rule) row list \<Rightarrow> (string \<Rightarrow> int option)
   \<Rightarrow> (int \<times> int, minmax_rule) row list \<times> (string \<Rightarrow> int option)" where
  "insert_rules snapshot evaluation [] rows ids = (rows, ids)"
| "insert_rules snapshot evaluation (r # rs) rows ids =
     insert_rules snapshot evaluation rs (insert_row (snapshot, evaluation) r rows)
       (ids(mr_rule_type r \<mapsto> next_id rows))"

definition rule_type_by_kind :: "string \<Rightarrow> string option" where
  "rule_type_by_kind kind =
     map_of [(''MINIMUM_ADJUSTMENT'', ''MinimumPay''), (''MAXIMUM_ADJUSTMENT'', ''MaximumPay'')] kind"

definition component_key :: "'a snapshot_component_scheme \<Rightarrow> string \<times> int option" where
  "component_key c =
     (sc_kind c,
      if sc_kind c = ''ORDINARY'' then sc_period_definition_id c
      else if sc_kind c = ''STATUS'' then sc_status_column_id c else Some 0)"

definition line_component_key :: "'a snapshot_line_scheme \<Rightarrow> string \<times> int option" where
  "line_component_key l =
     (sl_line_type l,
      if sl_line_type l = ''ORDINARY'' then sl_period_definition_id l
      else if sl_line_type l = ''STATUS'' then sl_rate_column_id l else Some 0)"

fun insert_components ::
  "int \<Rightarrow> int \<Rightarrow> (string \<Rightarrow> int option) \<Rightarrow> snapshot_component list
   \<Rightarrow> (int \<times> int \<times> int option, snapshot_component) row list \<Rightarrow> (string \<times> int option \<Rightarrow> int option)
   \<Rightarrow> (int \<times> int \<times> int option, snapshot_component) row list \<times> (string \<times> int option \<Rightarrow> int option)" where
  "insert_components snapshot tot rule_ids [] rows ids = (rows, ids)"
| "insert_components snapshot tot rule_ids (c # cs) rows ids =
     insert_components snapshot tot rule_ids cs
       (insert_row (snapshot, tot, Option.bind (rule_type_by_kind (sc_kind c)) rule_ids) c rows)
       (ids(component_key c \<mapsto> next_id rows))"

definition unlinked_line :: py_error where
  "unlinked_line = HttpError 422 ''Cannot submit: a source line contributes to no official component.''"

text \<open>The line row holds the id of its used rate instead of the fingerprint.\<close>

fun insert_lines ::
  "int \<Rightarrow> (string \<times> int option \<Rightarrow> int option) \<Rightarrow> (string \<Rightarrow> int option) \<Rightarrow> line_content list
   \<Rightarrow> (int \<times> int \<times> int option, snapshot_line) row list
   \<Rightarrow> (int \<times> int \<times> int option, snapshot_line) row list result" where
  "insert_lines tot component_ids rate_ids [] rows = Inr rows"
| "insert_lines tot component_ids rate_ids (l # ls) rows =
     (case component_ids (line_component_key l) of
        None \<Rightarrow> Inl unlinked_line
      | Some component \<Rightarrow>
          insert_lines tot component_ids rate_ids ls
            (insert_row (tot, component, Option.bind (sl_fingerprint l) rate_ids)
              ((snapshot_line.truncate l)\<lparr>sl_fingerprint := None\<rparr>) rows))"

definition insert_total ::
  "int \<Rightarrow> (string \<Rightarrow> int option) \<Rightarrow> (snapshot_component, line_content) total_content \<Rightarrow> snapshot_store
   \<Rightarrow> snapshot_store result" where
  "insert_total snapshot rate_ids t st =
     (case to_minmax t of
        None \<Rightarrow> Inl (TypeError ''NoneType is not subscriptable'')
      | Some e \<Rightarrow>
          let tot = next_id (st_totals st);
              evaluation = next_id (st_evaluations st);
              (rules, rule_ids) = insert_rules snapshot evaluation (se_rules e) (st_rules st) (\<lambda>_. None);
              (components, component_ids) =
                insert_components snapshot tot rule_ids (to_components t) (st_components st) (\<lambda>_. None)
          in map_r (\<lambda>ls. st
               \<lparr>st_totals := insert_row snapshot (snapshot_total.truncate t) (st_totals st),
                st_evaluations := insert_row (snapshot, tot) (minmax_fields.truncate e) (st_evaluations st),
                st_rules := rules, st_components := components, st_lines := ls\<rparr>)
             (insert_lines tot component_ids rate_ids (to_lines t) (st_lines st)))"

fun insert_rate_values ::
  "int \<Rightarrow> int \<Rightarrow> used_rate_value list \<Rightarrow> (int \<times> int, used_rate_value) row list
   \<Rightarrow> (int \<times> int, used_rate_value) row list" where
  "insert_rate_values snapshot rate [] rows = rows"
| "insert_rate_values snapshot rate (v # vs) rows =
     insert_rate_values snapshot rate vs (insert_row (snapshot, rate) v rows)"

text \<open>\<open>insert_used_rate_evidence\<close>; returns fingerprint to row id.\<close>

fun insert_used_rates ::
  "int \<Rightarrow> scope \<Rightarrow> hashed_rate list \<Rightarrow> snapshot_store \<Rightarrow> (string \<Rightarrow> int option)
   \<Rightarrow> snapshot_store \<times> (string \<Rightarrow> int option)" where
  "insert_used_rates snapshot sc [] st ids = (st, ids)"
| "insert_used_rates snapshot sc (u # us) st ids =
     (let rate = next_id (st_used_rates st) in
      insert_used_rates snapshot sc us
        (st\<lparr>st_used_rates := insert_row (snapshot, sc) (u\<lparr>ud_components := None\<rparr>) (st_used_rates st),
            st_rate_values := insert_rate_values snapshot rate
              (case ud_components u of None \<Rightarrow> [] | Some vs \<Rightarrow> vs) (st_rate_values st)\<rparr>)
        (ids(ud_fingerprint u \<mapsto> rate)))"

definition insert_evidence ::
  "int \<Rightarrow> scope \<Rightarrow> 'a list \<Rightarrow> (int \<times> scope, 'a) row list \<Rightarrow> (int \<times> scope, 'a) row list" where
  "insert_evidence snapshot sc xs rows = foldl (\<lambda>rows x. insert_row (snapshot, sc) x rows) rows xs"

definition next_revision :: "int \<Rightarrow> snapshot_store \<Rightarrow> int" where
  "next_revision period_id st =
     foldr max (map (hd_revision \<circ> row_data)
       (filter (\<lambda>r. sh_period_id (row_data r) = period_id) (st_headers st))) 0 + 1"

text \<open>Everything the writer inserts for one snapshot, in its order; returns the snapshot id.\<close>

definition insert_snapshot ::
  "string \<Rightarrow> string \<Rightarrow> int \<Rightarrow> (snapshot_component, line_content, hashed_rate) snapshot_content
   \<Rightarrow> status_evidence list \<Rightarrow> bonus_evidence list \<Rightarrow> snapshot_store \<Rightarrow> (snapshot_store \<times> int) result" where
  "insert_snapshot snapshot_hash report_hash user c statuses bonuses st =
     (let snapshot = next_id (st_headers st);
          sc = (sh_company_id c, sh_branch_id c, sh_period_id c);
          header = snapshot_header.extend (snapshot_header.truncate c)
            (header_data.fields (next_revision (sh_period_id c) st) snapshot_hash
               current_report_evidence_version report_hash user);
          (st1, rate_ids) = insert_used_rates snapshot sc (co_used_rates c)
            (st\<lparr>st_headers := insert_row () header (st_headers st)\<rparr>) (\<lambda>_. None)
      in map_r (\<lambda>st2.
           (st2\<lparr>st_statuses := insert_evidence snapshot sc statuses (st_statuses st2),
                st_bonuses := insert_evidence snapshot sc bonuses (st_bonuses st2)\<rparr>, snapshot))
         (foldM (\<lambda>st t. insert_total snapshot rate_ids t st) st1 (co_totals c)))"

section \<open>Loading\<close>

record loaded_component = snapshot_component +
  lcm_id :: int

record loaded_line = snapshot_line +
  ll_component_id :: int

record loaded_rate = hashed_rate +
  lr_scope :: scope

record loaded_status = status_evidence +
  ls_scope :: scope

record loaded_bonus = bonus_evidence +
  lb_scope :: scope

record loaded_content = "(loaded_component, loaded_line, loaded_rate) snapshot_content" +
  lo_snapshot_id :: int
  lo_revision :: int
  lo_snapshot_hash :: string
  lo_report_version :: int
  lo_report_hash :: string
  lo_created_by :: int
  lo_statuses :: "loaded_status list"
  lo_bonuses :: "loaded_bonus list"

text \<open>A dict filled in the order of the rows keeps the last row of each key.\<close>

definition dict_of :: "('k \<times> 'v) list \<Rightarrow> 'k \<Rightarrow> 'v option" where
  "dict_of kvs = map_of (rev kvs)"

definition load_rules :: "int \<Rightarrow> snapshot_store \<Rightarrow> int \<Rightarrow> minmax_rule list" where
  "load_rules snapshot st evaluation =
     map row_data (filter (\<lambda>r. snd (row_key r) = evaluation)
       (sort_key row_id (filter (\<lambda>r. fst (row_key r) = snapshot) (st_rules st))))"

definition load_minmax :: "int \<Rightarrow> snapshot_store \<Rightarrow> int \<Rightarrow> snapshot_minmax option" where
  "load_minmax snapshot st =
     dict_of (map (\<lambda>r. (snd (row_key r),
         minmax_fields.extend (row_data r) (snapshot_minmax.fields (load_rules snapshot st (row_id r)))))
       (sort_key row_id (filter (\<lambda>r. fst (row_key r) = snapshot) (st_evaluations st))))"

definition load_components :: "int \<Rightarrow> snapshot_store \<Rightarrow> int \<Rightarrow> loaded_component list" where
  "load_components snapshot st tot =
     map (\<lambda>r. snapshot_component.extend (row_data r) (loaded_component.fields (row_id r)))
       (filter (\<lambda>r. fst (snd (row_key r)) = tot)
         (sort_key row_id (filter (\<lambda>r. fst (row_key r) = snapshot) (st_components st))))"

text \<open>The lines of the totals of the snapshot, with the fingerprint of the rate each one names.\<close>

definition rate_fingerprint :: "snapshot_store \<Rightarrow> int option \<Rightarrow> string option" where
  "rate_fingerprint st rate =
     Option.bind rate (\<lambda>i. map_option (ud_fingerprint \<circ> row_data)
       (find_first (\<lambda>r. row_id r = i) (st_used_rates st)))"

definition load_lines :: "int \<Rightarrow> snapshot_store \<Rightarrow> int \<Rightarrow> loaded_line list" where
  "load_lines snapshot st tot =
     map (\<lambda>r. snapshot_line.extend ((row_data r)\<lparr>sl_fingerprint := rate_fingerprint st (snd (snd (row_key r)))\<rparr>)
            (loaded_line.fields (fst (snd (row_key r)))))
       (filter (\<lambda>r. fst (row_key r) = tot)
         (sort_key row_id
           (filter (\<lambda>l. \<exists>t\<in>set (st_totals st). row_id t = fst (row_key l) \<and> row_key t = snapshot)
             (st_lines st))))"

definition load_rate_values :: "int \<Rightarrow> snapshot_store \<Rightarrow> int \<Rightarrow> used_rate_value list option" where
  "load_rate_values snapshot st rate =
     (case filter (\<lambda>r. row_key r = (snapshot, rate)) (st_rate_values st) of
        [] \<Rightarrow> None
      | rows \<Rightarrow> Some (sort_key ur_sequence_no (map row_data rows)))"

definition load_used_rates :: "int \<Rightarrow> snapshot_store \<Rightarrow> loaded_rate list" where
  "load_used_rates snapshot st =
     map (\<lambda>r. hashed_rate.extend ((row_data r)\<lparr>ud_components := load_rate_values snapshot st (row_id r)\<rparr>)
            (loaded_rate.fields (snd (row_key r))))
       (sort_key row_id (filter (\<lambda>r. fst (row_key r) = snapshot) (st_used_rates st)))"

definition load_totals :: "int \<Rightarrow> snapshot_store \<Rightarrow> (loaded_component, loaded_line) total_content list" where
  "load_totals snapshot st =
     map (\<lambda>r. snapshot_total.extend (row_data r)
            (total_content.fields (load_components snapshot st (row_id r))
               (load_minmax snapshot st (row_id r)) (load_lines snapshot st (row_id r))))
       (sort_key (to_assignment_id \<circ> row_data) (filter (\<lambda>r. row_key r = snapshot) (st_totals st)))"

definition load_statuses :: "int \<Rightarrow> snapshot_store \<Rightarrow> loaded_status list" where
  "load_statuses snapshot st =
     map (\<lambda>r. status_evidence.extend (row_data r) (loaded_status.fields (snd (row_key r))))
       (sort_key (\<lambda>r. (sv_assignment_id (row_data r), sv_work_date (row_data r), sv_entry_state_id (row_data r)))
         (filter (\<lambda>r. fst (row_key r) = snapshot) (st_statuses st)))"

definition load_bonuses :: "int \<Rightarrow> snapshot_store \<Rightarrow> loaded_bonus list" where
  "load_bonuses snapshot st =
     map (\<lambda>r. bonus_evidence.extend (row_data r) (loaded_bonus.fields (snd (row_key r))))
       (sort_key (\<lambda>r. (bv_assignment_id (row_data r), bv_event_id (row_data r)))
         (filter (\<lambda>r. fst (row_key r) = snapshot) (st_bonuses st)))"

definition in_scope :: "int option \<Rightarrow> int \<Rightarrow> bool" where
  "in_scope expected actual \<longleftrightarrow> (case expected of None \<Rightarrow> True | Some e \<Rightarrow> actual = e)"

definition evidence_error :: "string \<Rightarrow> py_error" where
  "evidence_error code = IntegrityError code"

definition load_snapshot_content ::
  "int \<Rightarrow> int option \<Rightarrow> int option \<Rightarrow> int option \<Rightarrow> snapshot_store \<Rightarrow> loaded_content result" where
  "load_snapshot_content snapshot company branch period st =
     (case find_first (\<lambda>r. row_id r = snapshot) (st_headers st) of
        None \<Rightarrow> Inl (evidence_error ''SNAPSHOT_NOT_FOUND'')
      | Some r \<Rightarrow>
          let h = row_data r in
          if \<not> (in_scope company (sh_company_id h) \<and> in_scope branch (sh_branch_id h) \<and>
                 in_scope period (sh_period_id h))
          then Inl (evidence_error ''SNAPSHOT_NOT_FOUND'')
          else if sh_calculation_version h \<noteq> current_calculation_version
          then Inl (evidence_error ''UNSUPPORTED_CALCULATION_VERSION'')
          else Inr (snapshot_content.extend
            (snapshot_header.extend (snapshot_header.truncate h)
              (snapshot_content.fields (load_totals snapshot st) (load_used_rates snapshot st)))
            (loaded_content.fields snapshot (hd_revision h) (hd_snapshot_hash h) (hd_report_version h)
               (hd_report_hash h) (hd_created_by h) (load_statuses snapshot st) (load_bonuses snapshot st))))"

end
