(* ===== verification/Snapshot_Verification.thy ===== *)
theory Snapshot_Verification
  imports Snapshot_Store
begin

text \<open>
  The one verification of a snapshot (\<open>payroll/snapshot_verification.py\<close>): it is rebuilt from
  its rows, its financial hash is recomputed, the arithmetic of its evidence is checked, and the
  used-rate, method and report evidence are checked against the lines.  A check is a function
  into the result type that returns nothing or the stable code of the failure.
\<close>

section \<open>Checks\<close>

definition check_each :: "('a \<Rightarrow> unit result) \<Rightarrow> 'a list \<Rightarrow> unit result" where
  "check_each f xs = foldM (\<lambda>_ x. f x) () xs"

lemma check_each_Inr [result_simps]: "check_each f xs = Inr () \<longleftrightarrow> (\<forall>x\<in>set xs. f x = Inr ())"
  by (induction xs) (auto simp: check_each_def bind_r_Inr_iff)

definition integrity :: py_error where
  "integrity = evidence_error ''SNAPSHOT_INTEGRITY_ERROR''"

definition membership_error :: py_error where
  "membership_error = evidence_error ''SNAPSHOT_COMPONENT_MEMBERSHIP_ERROR''"

definition used_rate_error :: py_error where
  "used_rate_error = evidence_error ''USED_RATE_EVIDENCE_INTEGRITY_ERROR''"

definition tier_error :: py_error where
  "tier_error = evidence_error ''TIER_EVIDENCE_INTEGRITY_ERROR''"

definition report_error :: py_error where
  "report_error = evidence_error ''REPORT_EVIDENCE_INTEGRITY_ERROR''"

type_synonym loaded_total = "(loaded_component, loaded_line) total_content"

section \<open>Components and their lines\<close>

definition of_kind :: "string \<Rightarrow> loaded_total \<Rightarrow> loaded_component list" where
  "of_kind kind t = filter (\<lambda>c. sc_kind c = kind) (to_components t)"

definition official_sum :: "string \<Rightarrow> loaded_total \<Rightarrow> decimal" where
  "official_sum kind t = dec_sum (map sc_official (of_kind kind t))"

definition totals_match :: "loaded_total \<Rightarrow> bool" where
  "totals_match t \<longleftrightarrow>
     to_daily_pay t = official_sum ''ORDINARY'' t \<and>
     to_status_pay t = official_sum ''STATUS'' t \<and>
     to_bonus_total t = official_sum ''BONUS'' t \<and>
     to_minimum_adjustment t = official_sum ''MINIMUM_ADJUSTMENT'' t \<and>
     to_maximum_adjustment t = official_sum ''MAXIMUM_ADJUSTMENT'' t \<and>
     to_expected_pay t = dec_sum (map sc_official (to_components t))"

text \<open>The identity a line shares with its component; \<open>None\<close> for a kind that has no lines.\<close>

definition identity_matches :: "loaded_line \<Rightarrow> loaded_component \<Rightarrow> bool option" where
  "identity_matches l c =
     (if sc_kind c = ''ORDINARY''
      then Some (sl_period_definition_id l = sc_period_definition_id c \<and>
                 sl_pay_definition_id l = sc_pay_definition_id c \<and>
                 sl_rate_definition_id l = sc_rate_definition_id c)
      else if sc_kind c = ''STATUS'' then Some (sl_rate_column_id l = sc_status_column_id c)
      else if sc_kind c = ''BONUS'' then Some True
      else None)"

definition component_of_id :: "loaded_total \<Rightarrow> int \<Rightarrow> loaded_component option" where
  "component_of_id t = dict_of (map (\<lambda>c. (lcm_id c, c)) (to_components t))"

definition lines_of :: "loaded_total \<Rightarrow> int \<Rightarrow> loaded_line list" where
  "lines_of t i = filter (\<lambda>l. ll_component_id l = i) (to_lines t)"

definition reconcile_component_membership :: "loaded_total \<Rightarrow> unit result" where
  "reconcile_component_membership t =
     bind_r (check_each (\<lambda>l.
         case component_of_id t (ll_component_id l) of
           None \<Rightarrow> Inl membership_error
         | Some c \<Rightarrow> guard_r (sc_kind c = sl_line_type l \<and> identity_matches l c = Some True) membership_error)
       (to_lines t)) (\<lambda>_.
     check_each (\<lambda>c.
         guard_r (sc_kind c \<in> {''ORDINARY'', ''STATUS'', ''BONUS''} \<longrightarrow> lines_of t (lcm_id c) \<noteq> [])
           membership_error)
       (to_components t))"

definition component_matches_lines :: "loaded_total \<Rightarrow> loaded_component \<Rightarrow> bool" where
  "component_matches_lines t c \<longleftrightarrow>
     int (length (lines_of t (lcm_id c))) = sc_source_count c \<and>
     dec_sum (map sl_amount (lines_of t (lcm_id c))) = sc_pre_rounding c"

section \<open>Min/Max\<close>

definition expected_adjustment :: "bool \<Rightarrow> snapshot_minmax \<Rightarrow> minmax_rule option \<Rightarrow> decimal \<Rightarrow> decimal" where
  "expected_adjustment minimum e rule base =
     (if se_status e = APPLIED then
        (case Option.bind rule mr_prorated of
           None \<Rightarrow> 0
         | Some prorated \<Rightarrow>
             if minimum \<and> base < prorated \<or> \<not> minimum \<and> prorated < base then dec_sub prorated base else 0)
      else 0)"

definition adjustment_reproduced ::
  "loaded_total \<Rightarrow> snapshot_minmax \<Rightarrow> decimal \<Rightarrow> bool \<times> string \<times> string \<Rightarrow> bool" where
  "adjustment_reproduced t e base = (\<lambda>(minimum, rule_type, kind).
     let rule = dict_of (map (\<lambda>r. (mr_rule_type r, r)) (se_rules e)) rule_type;
         expected = expected_adjustment minimum e rule base
     in if expected = 0 then of_kind kind t = []
        else (case (of_kind kind t, rule) of
          ([c], Some r) \<Rightarrow> sc_pre_rounding c = expected \<and> sc_rule_id c = Some (mr_id r)
        | _ \<Rightarrow> False))"

definition reconcile_minmax :: "loaded_total \<Rightarrow> unit result" where
  "reconcile_minmax t =
     (case to_minmax t of
        None \<Rightarrow> Inl integrity
      | Some e \<Rightarrow>
          let base = dec_add (to_daily_pay t) (to_status_pay t) in
          bind_r (guard_r (se_base_ordinary e = to_daily_pay t \<and> se_base_status e = to_status_pay t \<and>
              se_base e = base \<and> se_excluded_bonus e = to_bonus_total t) integrity) (\<lambda>_.
          bind_r (guard_r ((se_status e = NO_RULE) = (se_rules e = [])) integrity) (\<lambda>_.
          guard_r (adjustment_reproduced t e base (True, ''MinimumPay'', ''MINIMUM_ADJUSTMENT'') \<and>
              adjustment_reproduced t e base (False, ''MaximumPay'', ''MAXIMUM_ADJUSTMENT'')) integrity)))"

section \<open>The arithmetic of the evidence\<close>

definition reconcile_total :: "int \<Rightarrow> loaded_total \<Rightarrow> unit result" where
  "reconcile_total digits t =
     bind_r (guard_r (totals_match t) integrity) (\<lambda>_.
     bind_r (reconcile_component_membership t) (\<lambda>_.
     bind_r (check_each (\<lambda>c.
         guard_r (sc_kind c \<in> {''MINIMUM_ADJUSTMENT'', ''MAXIMUM_ADJUSTMENT''} \<or> component_matches_lines t c)
           integrity) (to_components t)) (\<lambda>_.
     bind_r (check_each (\<lambda>c.
         bind_r (round_payable (Finite (sc_pre_rounding c)) digits) (\<lambda>a.
           guard_r (a = sc_official c) integrity)) (to_components t)) (\<lambda>_.
     reconcile_minmax t))))"

definition reconcile_snapshot_content :: "loaded_content \<Rightarrow> unit result" where
  "reconcile_snapshot_content c =
     (if sh_rounding_version c \<noteq> payable_rounding_version
      then Inl (evidence_error ''UNSUPPORTED_PAYABLE_ROUNDING_VERSION'')
      else if sh_total c \<noteq> dec_sum (map to_expected_pay (co_totals c)) then Inl integrity
      else check_each (reconcile_total (sh_currency_digits c)) (co_totals c))"

section \<open>Used rates\<close>

definition used_rate_shape_ok :: "loaded_rate \<Rightarrow> bool" where
  "used_rate_shape_ok u \<longleftrightarrow>
     (if ud_rate_shape u = ''Scalar''
      then ud_components u = None \<and> ud_component_id u \<noteq> None \<and> ud_rate_amount u \<noteq> None
      else ud_rate_shape u = ''OrdinalTierSchedule'' \<and> ud_source_type u = ''DraftLine'' \<and>
        ud_component_id u = None \<and> ud_rate_amount u = None \<and>
        (case ud_components u of
           None \<Rightarrow> False
         | Some vs \<Rightarrow>
             vs \<noteq> [] \<and> map ur_sequence_no vs = [1..int (length vs)] \<and>
             distinct (map ur_component_id vs) \<and> (\<forall>v\<in>set vs. 0 \<le> ur_amount v) \<and>
             topology_error (map (\<lambda>v. (or_zero (ur_ordinal_from v), ur_ordinal_to v)) vs) = None))"

definition driver_of_assignment :: "loaded_content \<Rightarrow> int \<Rightarrow> int option" where
  "driver_of_assignment c = dict_of (map (\<lambda>t. (to_assignment_id t, to_driver_id t)) (co_totals c))"

definition used_rate_scope_ok :: "loaded_content \<Rightarrow> loaded_rate \<Rightarrow> bool" where
  "used_rate_scope_ok c u \<longleftrightarrow>
     lr_scope u = (sh_company_id c, sh_branch_id c, sh_period_id c) \<and>
     ud_currency_code u = sh_currency_code c \<and> ud_currency_digits u = sh_currency_digits c \<and>
     driver_of_assignment c (ud_assignment_id u) = Some (ud_driver_id u)"

fun check_used_rates ::
  "(json \<Rightarrow> string) \<Rightarrow> loaded_content \<Rightarrow> (string \<Rightarrow> loaded_rate option) \<Rightarrow> loaded_rate list
   \<Rightarrow> (string \<Rightarrow> loaded_rate option) result" where
  "check_used_rates digest c seen [] = Inr seen"
| "check_used_rates digest c seen (u # us) =
     bind_r (used_rate_fingerprint digest u) (\<lambda>fp.
     bind_r (guard_r (fp = ud_fingerprint u \<and> seen fp = None) used_rate_error) (\<lambda>_.
     bind_r (guard_r (used_rate_scope_ok c u) used_rate_error) (\<lambda>_.
     bind_r (guard_r ((ud_pay_definition_id u = None) \<noteq> (ud_status_column_id u = None)) used_rate_error) (\<lambda>_.
     bind_r (guard_r (used_rate_shape_ok u) used_rate_error) (\<lambda>_.
     check_used_rates digest c (seen(fp \<mapsto> u)) us)))))"

definition line_agrees :: "loaded_line \<Rightarrow> loaded_rate \<Rightarrow> bool" where
  "line_agrees l u \<longleftrightarrow>
     ud_evidence_kind u = ''DriverRateSchedule'' \<and> ud_source_type u = sl_source_type l \<and>
     Some (ud_schedule_id u) = sl_schedule_id l \<and> Some (ud_rate_definition_id u) = sl_rate_definition_id l \<and>
     ud_rate_amount u = sl_resolved_rate l \<and>
     (if sl_source_type l = ''DraftLine''
      then ud_pay_definition_id u = sl_pay_definition_id l \<and> ud_status_column_id u = None
      else sl_source_type l = ''StatusEntryState'' \<and>
        ud_status_column_id u = sl_rate_column_id l \<and> ud_pay_definition_id u = None)"

definition check_line_rate ::
  "(string \<Rightarrow> loaded_rate option) \<Rightarrow> int \<Rightarrow> loaded_line \<Rightarrow> unit result" where
  "check_line_rate rates assignment l =
     (if sl_source_type l = ''BonusEvent'' then guard_r (sl_fingerprint l = None) used_rate_error
      else case Option.bind (sl_fingerprint l) rates of
        None \<Rightarrow> Inl used_rate_error
      | Some u \<Rightarrow> guard_r (ud_assignment_id u = assignment \<and> line_agrees l u) used_rate_error)"

definition used_fingerprints :: "loaded_content \<Rightarrow> string list" where
  "used_fingerprints c =
     [fp. t \<leftarrow> co_totals c, l \<leftarrow> to_lines t, sl_source_type l \<noteq> ''BonusEvent'',
          fp \<leftarrow> (case sl_fingerprint l of None \<Rightarrow> [] | Some f \<Rightarrow> [f])]"

definition reconcile_used_rate_evidence :: "(json \<Rightarrow> string) \<Rightarrow> loaded_content \<Rightarrow> unit result" where
  "reconcile_used_rate_evidence digest c =
     bind_r (check_used_rates digest c (\<lambda>_. None) (co_used_rates c)) (\<lambda>rates.
     bind_r (check_each (\<lambda>t. check_each (check_line_rate rates (to_assignment_id t)) (to_lines t))
         (co_totals c)) (\<lambda>_.
     guard_r (set (used_fingerprints c) = set (map ud_fingerprint (co_used_rates c))) used_rate_error))"

section \<open>Method evidence\<close>

definition tier_of_value :: "used_rate_value \<Rightarrow> ordinal_tier" where
  "tier_of_value v =
     \<lparr>sequence_no = ur_sequence_no v, ordinal_from = or_zero (ur_ordinal_from v),
      ordinal_to = ur_ordinal_to v, rate_amount = Finite (ur_amount v)\<rparr>"

definition recompute_tiers ::
  "loaded_line \<Rightarrow> used_rate_value list \<Rightarrow> (decimal \<times> tier_contribution list) result" where
  "recompute_tiers l vs =
     (case sl_quantity l of
        None \<Rightarrow> Inl tier_error
      | Some q \<Rightarrow>
          (case calculate_ordinal_tier (Finite q) (map tier_of_value vs) of
             Inl InvalidOperation \<Rightarrow> Inl InvalidOperation
           | Inl _ \<Rightarrow> Inl tier_error
           | Inr r \<Rightarrow> Inr r))"

definition check_tier_line :: "loaded_line \<Rightarrow> loaded_rate \<Rightarrow> unit result" where
  "check_tier_line l u =
     (if ud_rate_shape u \<noteq> ''OrdinalTierSchedule'' \<or> sl_resolved_rate l \<noteq> None then Inl tier_error
      else if sl_calculation_version l \<noteq> Some ''ordinal-tier-v1'' then Inl tier_error
      else bind_r (recompute_tiers l (case ud_components u of None \<Rightarrow> [] | Some vs \<Rightarrow> vs)) (\<lambda>(amount, contributions).
        bind_r (guard_r (amount = sl_amount l) tier_error) (\<lambda>_.
        bind_r (canonicalize (contribution_evidence contributions)) (\<lambda>expected.
          guard_r (strict_json_equal (sl_evidence l) (JObj [(''TierContributions'', expected)])) tier_error))))"

definition check_method_line ::
  "(string \<Rightarrow> loaded_rate option) \<Rightarrow> loaded_total \<Rightarrow> loaded_line \<Rightarrow> unit result" where
  "check_method_line rates t l =
     (if sl_source_type l \<noteq> ''DraftLine'' then Inr ()
      else case (component_of_id t (ll_component_id l), Option.bind (sl_fingerprint l) rates) of
        (Some c, Some u) \<Rightarrow>
          if (sc_method c, sc_method_version c) \<noteq> (Some ''OrdinalTier'', Some 1)
          then guard_r (ud_rate_shape u = ''Scalar'') tier_error
          else check_tier_line l u
      | _ \<Rightarrow> Inl KeyError)"

definition rates_by_fingerprint :: "loaded_content \<Rightarrow> string \<Rightarrow> loaded_rate option" where
  "rates_by_fingerprint c = dict_of (map (\<lambda>u. (ud_fingerprint u, u)) (co_used_rates c))"

definition reconcile_method_evidence :: "loaded_content \<Rightarrow> unit result" where
  "reconcile_method_evidence c =
     check_each (\<lambda>t. check_each (check_method_line (rates_by_fingerprint c) t) (to_lines t)) (co_totals c)"

section \<open>Report evidence\<close>

definition status_categories :: "string list" where
  "status_categories =
     [''Vacation'', ''Sick'', ''Bereavement'', ''Jury Duty'', ''Personal'', ''Holiday'', ''Unpaid'', ''Other'']"

definition require_report_evidence_version :: "loaded_content \<Rightarrow> unit result" where
  "require_report_evidence_version c =
     guard_r (lo_report_version c = current_report_evidence_version)
       (evidence_error ''UNSUPPORTED_REPORT_EVIDENCE_VERSION'')"

text \<open>\<open>int(text)\<close> on the texts the columns hold, printed integers; any other text raises a
  \<open>ValueError\<close>.  The other spellings \<open>int\<close> accepts (signs, blanks, leading zeros) never occur in a
  column the code wrote and are refused here.\<close>

definition parse_int :: "string \<Rightarrow> int result" where
  "parse_int s =
     (let n = (if s \<noteq> [] \<and> hd s = CHR ''-'' then - int (read_nat (tl s)) else int (read_nat s))
      in if show_int n = s then Inr n else Inl (ValueError ''invalid literal for int() with base 10''))"

definition evidence_scope_ok :: "loaded_content \<Rightarrow> scope \<Rightarrow> int \<Rightarrow> int \<Rightarrow> bool" where
  "evidence_scope_ok c sc assignment driver \<longleftrightarrow>
     sc = (sh_company_id c, sh_branch_id c, sh_period_id c) \<and>
     (case driver_of_assignment c assignment of None \<Rightarrow> True | Some d \<Rightarrow> d = driver)"

text \<open>\<open>int(None)\<close> raises: a Bonus line always names its event.\<close>

definition bonus_line_key :: "loaded_total \<Rightarrow> loaded_line \<Rightarrow> (int \<times> int \<times> int \<times> decimal) result" where
  "bonus_line_key t l =
     (case sl_bonus_event_id l of
        None \<Rightarrow> Inl (TypeError ''int(None)'')
      | Some e \<Rightarrow> Inr (e, to_assignment_id t, to_driver_id t, sl_amount l))"

definition bonus_lines :: "loaded_content \<Rightarrow> (int \<times> int \<times> int \<times> decimal) list result" where
  "bonus_lines c =
     mapM (\<lambda>(t, l). bonus_line_key t l)
       [(t, l). t \<leftarrow> co_totals c, l \<leftarrow> to_lines t, sl_source_type l = ''BonusEvent'']"

definition reconcile_bonus_evidence :: "loaded_content \<Rightarrow> unit result" where
  "reconcile_bonus_evidence c =
     bind_r (bonus_lines c) (\<lambda>ls.
       guard_r (sort ls = sort (map (\<lambda>e. (bv_event_id e, bv_assignment_id e, bv_driver_id e, bv_amount e))
                   (lo_bonuses c)) \<and>
                (\<forall>e\<in>set (lo_bonuses c). bv_currency_code e = sh_currency_code c \<and>
                   bv_currency_digits e = sh_currency_digits c)) report_error)"

definition evidence_status_key :: "json \<Rightarrow> json" where
  "evidence_status_key j =
     (case j of JObj fs \<Rightarrow> (case map_of fs ''StatusKeyID'' of None \<Rightarrow> JNull | Some k \<Rightarrow> k) | _ \<Rightarrow> JNull)"

definition check_status_line ::
  "(int \<Rightarrow> loaded_status option) \<Rightarrow> loaded_total \<Rightarrow> loaded_line \<Rightarrow> unit result" where
  "check_status_line entries t l =
     (if sl_source_type l \<noteq> ''StatusEntryState'' then Inr ()
      else bind_r (parse_int (sl_source_id l)) (\<lambda>i.
        case entries i of
          None \<Rightarrow> Inl report_error
        | Some e \<Rightarrow>
            bind_r (guard_r (sv_assignment_id e = to_assignment_id t \<and> Some (sv_work_date e) = sl_work_date l \<and>
                strict_json_equal (JInt (sv_status_key_id e)) (evidence_status_key (sl_evidence l))) report_error) (\<lambda>_.
            bind_r (guard_r (sl_quantity l = Some (sv_hours e)) report_error) (\<lambda>_.
            case sl_resolved_rate l of
              None \<Rightarrow> Inl report_error
            | Some rate \<Rightarrow>
                bind_r (calculate_per_unit (sv_hours e) rate) (\<lambda>a.
                  guard_r (a = sl_amount l) report_error)))))"

definition off_day :: "loaded_content \<Rightarrow> int \<Rightarrow> date \<Rightarrow> bool" where
  "off_day c assignment d \<longleftrightarrow>
     (\<exists>e\<in>set (lo_statuses c). sv_is_off_reason e \<and> sv_assignment_id e = assignment \<and> sv_work_date e = d)"

definition counts_no_off_day :: "loaded_content \<Rightarrow> loaded_total \<Rightarrow> bool" where
  "counts_no_off_day c t \<longleftrightarrow>
     (case to_minmax t of None \<Rightarrow> True
      | Some e \<Rightarrow> \<not> (\<exists>d\<in>set (se_counted_dates e). off_day c (to_assignment_id t) d))"

definition reconcile_report_evidence :: "(json \<Rightarrow> string) \<Rightarrow> loaded_content \<Rightarrow> unit result" where
  "reconcile_report_evidence digest c =
     bind_r (require_report_evidence_version c) (\<lambda>_.
     bind_r (calculate_report_evidence_hash digest (lo_statuses c) (lo_bonuses c)) (\<lambda>h.
     bind_r (guard_r (h = lo_report_hash c) (evidence_error ''REPORT_EVIDENCE_HASH_MISMATCH'')) (\<lambda>_.
     bind_r (check_each (\<lambda>e. guard_r (evidence_scope_ok c (ls_scope e) (sv_assignment_id e) (sv_driver_id e))
         report_error) (lo_statuses c)) (\<lambda>_.
     bind_r (check_each (\<lambda>e. guard_r (evidence_scope_ok c (lb_scope e) (bv_assignment_id e) (bv_driver_id e))
         report_error) (lo_bonuses c)) (\<lambda>_.
     bind_r (reconcile_bonus_evidence c) (\<lambda>_.
     bind_r (check_each (\<lambda>t. check_each (check_status_line
         (dict_of (map (\<lambda>e. (sv_entry_state_id e, e)) (lo_statuses c))) t) (to_lines t)) (co_totals c)) (\<lambda>_.
     bind_r (guard_r (\<forall>e\<in>set (lo_statuses c). 0 \<le> sv_hours e \<and> sv_hours e \<le> 24 \<and>
         sv_category e \<in> set status_categories) report_error) (\<lambda>_.
     guard_r (\<forall>t\<in>set (co_totals c). counts_no_off_day c t) report_error))))))))"

section \<open>The verification\<close>

definition verify_content :: "(json \<Rightarrow> string) \<Rightarrow> loaded_content \<Rightarrow> unit result" where
  "verify_content digest c =
     bind_r (guard_r (\<forall>t\<in>set (co_totals c). to_minmax t \<noteq> None) integrity) (\<lambda>_.
     bind_r (require_report_evidence_version c) (\<lambda>_.
     bind_r (calculate_snapshot_hash digest c) (\<lambda>h.
     bind_r (guard_r (h = lo_snapshot_hash c) (evidence_error ''SNAPSHOT_HASH_MISMATCH'')) (\<lambda>_.
     bind_r (reconcile_snapshot_content c) (\<lambda>_.
     bind_r (reconcile_used_rate_evidence digest c) (\<lambda>_.
     bind_r (reconcile_method_evidence c) (\<lambda>_.
     reconcile_report_evidence digest c)))))))"

definition verify_snapshot ::
  "(json \<Rightarrow> string) \<Rightarrow> int \<Rightarrow> int option \<Rightarrow> int option \<Rightarrow> int option \<Rightarrow> snapshot_store \<Rightarrow> loaded_content result" where
  "verify_snapshot digest snapshot company branch period st =
     bind_r (load_snapshot_content snapshot company branch period st) (\<lambda>c.
       map_r (\<lambda>_. c) (verify_content digest c))"

section \<open>What a verified content satisfies\<close>

lemma verify_contentD:
  assumes "verify_content digest c = Inr ()"
  shows "\<forall>t\<in>set (co_totals c). to_minmax t \<noteq> None"
    and "calculate_snapshot_hash digest c = Inr (lo_snapshot_hash c)"
    and "reconcile_snapshot_content c = Inr ()"
    and "reconcile_used_rate_evidence digest c = Inr ()"
    and "reconcile_method_evidence c = Inr ()"
    and "reconcile_report_evidence digest c = Inr ()"
  using assms by (auto simp: verify_content_def bind_r_Inr_iff)

lemma verify_snapshotD:
  assumes "verify_snapshot digest snapshot company branch period st = Inr c"
  shows "load_snapshot_content snapshot company branch period st = Inr c" "verify_content digest c = Inr ()"
  using assms by (auto simp: verify_snapshot_def bind_r_Inr_iff map_r_Inr_iff)

lemma reconcile_snapshot_contentD:
  assumes "reconcile_snapshot_content c = Inr ()"
  shows "sh_total c = dec_sum (map to_expected_pay (co_totals c))"
    and "t \<in> set (co_totals c) \<Longrightarrow> reconcile_total (sh_currency_digits c) t = Inr ()"
  using assms by (auto simp: reconcile_snapshot_content_def check_each_Inr split: if_splits)

lemma reconcile_totalD:
  assumes "reconcile_total digits t = Inr ()"
  shows "totals_match t"
    and "reconcile_component_membership t = Inr ()"
    and "c \<in> set (to_components t) \<Longrightarrow> sc_kind c \<notin> {''MINIMUM_ADJUSTMENT'', ''MAXIMUM_ADJUSTMENT''} \<Longrightarrow>
      component_matches_lines t c"
    and "c \<in> set (to_components t) \<Longrightarrow> round_payable (Finite (sc_pre_rounding c)) digits = Inr (sc_official c)"
    and "reconcile_minmax t = Inr ()"
  using assms by (auto simp: reconcile_total_def bind_r_Inr_iff check_each_Inr)

end
