(* ===== verification/Hash_Facts.thy ===== *)
theory Hash_Facts
  imports Snapshot_Hash
begin

text \<open>
  The financial hash identifies the financial evidence: with a collision-free digest two
  contents with the same hash agree on every hashed field, up to the order of their rows.
\<close>

section \<open>The hashed view\<close>

type_synonym total_view =
  "snapshot_total \<times> snapshot_component list \<times> snapshot_minmax option \<times> snapshot_line list"

definition minmax_view :: "snapshot_minmax \<Rightarrow> snapshot_minmax" where
  "minmax_view e = e\<lparr>se_rules := sort_key mr_rule_type (se_rules e)\<rparr>"

definition total_view ::
  "('a snapshot_component_scheme, 'b snapshot_line_scheme, 'z) total_content_scheme \<Rightarrow> total_view" where
  "total_view t =
     (snapshot_total.truncate t,
      map snapshot_component.truncate (sort_key component_sort_key (to_components t)),
      map_option minmax_view (to_minmax t),
      map snapshot_line.truncate (sort_key line_sort_key (to_lines t)))"

definition rate_view :: "'a hashed_rate_scheme \<Rightarrow> used_rate \<times> string" where
  "rate_view u =
     ((used_rate.truncate u)\<lparr>ud_components := map_option (sort_key ur_sequence_no) (ud_components u)\<rparr>,
      ud_fingerprint u)"

definition financial_view ::
  "('a snapshot_component_scheme, 'b snapshot_line_scheme, 'c hashed_rate_scheme, 'z) snapshot_content_scheme
   \<Rightarrow> snapshot_header \<times> total_view list \<times> (used_rate \<times> string) list" where
  "financial_view c =
     (snapshot_header.truncate c, map total_view (sort_key to_assignment_id (co_totals c)),
      map rate_view (sort_key ud_fingerprint (co_used_rates c)))"

section \<open>Injective fields\<close>

named_theorems value_inj "a field is determined by its value"

lemma opt_value_inj [value_inj]:
  assumes "\<And>a b. f a = f b \<longleftrightarrow> a = b" "\<And>a. f a \<noteq> PyNone"
  shows "opt_value f x = opt_value f y \<longleftrightarrow> x = y"
  using assms by (cases x; cases y) (auto dest: sym)

lemma opt_atoms [value_inj]:
  "opt_value PyInt x = opt_value PyInt y \<longleftrightarrow> x = y"
  "opt_value PyStr s = opt_value PyStr t \<longleftrightarrow> s = t"
  "opt_value PyDecimal a = opt_value PyDecimal b \<longleftrightarrow> a = b"
  "opt_value PyDate d = opt_value PyDate e \<longleftrightarrow> d = e"
  by (auto split: option.splits)

lemma status_text_inj [value_inj]: "status_text s = status_text t \<longleftrightarrow> s = t"
  by (cases s; cases t) (simp_all add: status_text_def)

lemma opt_status [value_inj]:
  "opt_value (PyStr \<circ> status_text) x = opt_value (PyStr \<circ> status_text) y \<longleftrightarrow> x = y"
  by (auto simp: status_text_inj split: option.splits)

lemma minmax_status_text_inj [value_inj]: "minmax_status_text s = minmax_status_text t \<longleftrightarrow> s = t"
  by (cases s; cases t) (simp_all add: minmax_status_text_def)

lemma map_eq_transfer:
  assumes "\<And>x y. f x = f' y \<longleftrightarrow> g x = g' y"
  shows "map f xs = map f' ys \<longleftrightarrow> map g xs = map g' ys"
proof -
  have "list_all2 (=) (map f xs) (map f' ys) \<longleftrightarrow> list_all2 (=) (map g xs) (map g' ys)"
    by (simp add: list_all2_map1 list_all2_map2 assms)
  then show ?thesis by (simp only: list.rel_eq)
qed

lemma map_atom_inj [value_inj]:
  "map PyDate ds = map PyDate es \<longleftrightarrow> ds = es" "map PyStr ss = map PyStr ts \<longleftrightarrow> ss = ts"
  by (auto simp: inj_map_eq_map inj_on_def)

lemma snapshot_component_value_inj:
  "snapshot_component_value c = snapshot_component_value d \<longleftrightarrow> snapshot_component.truncate c = snapshot_component.truncate d"
  by (auto simp: snapshot_component_value_def snapshot_component.defs value_inj)

lemma map_component_inj:
  "map snapshot_component_value cs = map snapshot_component_value ds \<longleftrightarrow>
   map snapshot_component.truncate cs = map snapshot_component.truncate ds"
  by (rule map_eq_transfer) (rule snapshot_component_value_inj)

lemma line_value_inj:
  "line_value l = line_value m \<longleftrightarrow> snapshot_line.truncate l = snapshot_line.truncate m"
  by (auto simp: line_value_def snapshot_line.defs value_inj)

lemma map_line_inj:
  "map line_value ls = map line_value ms \<longleftrightarrow> map snapshot_line.truncate ls = map snapshot_line.truncate ms"
  by (rule map_eq_transfer) (rule line_value_inj)

lemma rule_value_inj: "rule_value r = rule_value s \<longleftrightarrow> r = s"
  by (auto simp: rule_value_def value_inj)

lemma rate_value_fields_inj: "rate_value_fields v = rate_value_fields w \<longleftrightarrow> v = w"
  by (auto simp: rate_value_fields_def value_inj)

lemma map_rule_inj: "map rule_value rs = map rule_value ss \<longleftrightarrow> rs = ss"
  using map_eq_transfer [of rule_value rule_value id id] by (simp add: rule_value_inj)

lemma map_rate_value_inj: "map rate_value_fields vs = map rate_value_fields ws \<longleftrightarrow> vs = ws"
  using map_eq_transfer [of rate_value_fields rate_value_fields id id] by (simp add: rate_value_fields_inj)

lemma minmax_value_inj: "minmax_value e = minmax_value f \<longleftrightarrow> minmax_view e = minmax_view f"
  by (cases e; cases f) (auto simp: minmax_value_def minmax_view_def value_inj map_rule_inj)

lemma opt_minmax_inj:
  "opt_value minmax_value x = opt_value minmax_value y \<longleftrightarrow> map_option minmax_view x = map_option minmax_view y"
proof -
  have "minmax_value e \<noteq> PyNone" "PyNone \<noteq> minmax_value e" for e by (simp_all add: minmax_value_def)
  then show ?thesis by (cases x; cases y) (simp_all add: minmax_value_inj)
qed

lemma total_value_inj: "total_value t = total_value u \<longleftrightarrow> total_view t = total_view u"
  by (auto simp: total_value_def total_view_def snapshot_total.defs value_inj opt_minmax_inj
      map_component_inj map_line_inj)

lemma opt_rate_values_inj:
  "opt_value (\<lambda>vs. PyList (map rate_value_fields (sort_key ur_sequence_no vs))) x =
   opt_value (\<lambda>vs. PyList (map rate_value_fields (sort_key ur_sequence_no vs))) y \<longleftrightarrow>
   map_option (sort_key ur_sequence_no) x = map_option (sort_key ur_sequence_no) y"
  by (auto simp: map_rate_value_inj split: option.splits)

lemma hashed_rate_value_inj: "hashed_rate_value u = hashed_rate_value v \<longleftrightarrow> rate_view u = rate_view v"
  by (auto simp: hashed_rate_value_def used_rate_fields_def rate_view_def used_rate.defs value_inj
      opt_rate_values_inj)

lemma financial_value_inj: "financial_value c = financial_value d \<longleftrightarrow> financial_view c = financial_view d"
proof -
  have totals: "map total_value ts = map total_value us \<longleftrightarrow> map total_view ts = map total_view us" for ts us
    by (rule map_eq_transfer) (rule total_value_inj)
  have rates: "map hashed_rate_value xs = map hashed_rate_value ys \<longleftrightarrow> map rate_view xs = map rate_view ys"
    for xs ys by (rule map_eq_transfer) (rule hashed_rate_value_inj)
  show ?thesis
    by (auto simp: financial_value_def financial_view_def snapshot_header.defs value_inj totals rates)
qed

section \<open>Shapes\<close>

named_theorems shapes "two contents are serialized with the same shape"

lemma same_items_map [shapes]:
  "(\<And>x y. same_shape (f x) (g y)) \<Longrightarrow> same_items (map f xs) (map g ys)"
  by (induction xs arbitrary: ys) (auto split: list.splits)

lemma same_shape_None [shapes]: "py_tag w \<noteq> 11 \<Longrightarrow> same_shape PyNone w"
  by simp

lemma same_shape_opt [shapes]:
  "(\<And>a b. same_shape (f a) (g b)) \<Longrightarrow> (\<And>b. py_tag (g b) \<noteq> 11) \<Longrightarrow>
   (\<And>a. same_shape (f a) PyNone) \<Longrightarrow> same_shape (opt_value f x) (opt_value g y)"
  by (cases x; cases y) auto

lemma opt_atom_shape [shapes]:
  "same_shape (opt_value PyInt x) (opt_value PyInt y)"
  "same_shape (opt_value PyStr s) (opt_value PyStr t)"
  "same_shape (opt_value PyDecimal a) (opt_value PyDecimal b)"
  "same_shape (opt_value PyDate d) (opt_value PyDate e)"
  "same_shape (opt_value (PyStr \<circ> status_text) u) (opt_value (PyStr \<circ> status_text) v)"
  by (auto intro!: same_shape_opt)

lemma component_shape [shapes]: "same_shape (snapshot_component_value c) (snapshot_component_value d)"
  by (simp add: snapshot_component_value_def shapes)

lemma line_shape [shapes]: "same_shape (line_value l) (line_value m)"
  by (simp add: line_value_def shapes)

lemma rule_shape [shapes]: "same_shape (rule_value r) (rule_value s)"
  by (simp add: rule_value_def shapes)

lemma rate_value_shape [shapes]: "same_shape (rate_value_fields v) (rate_value_fields w)"
  by (simp add: rate_value_fields_def shapes)

lemma minmax_shape [shapes]: "same_shape (opt_value minmax_value e) (opt_value minmax_value f)"
  by (rule same_shape_opt) (simp_all add: minmax_value_def shapes)

lemma total_shape [shapes]: "same_shape (total_value t) (total_value u)"
  by (simp add: total_value_def shapes)

lemma opt_rate_values_shape [shapes]:
  "same_shape (opt_value (\<lambda>vs. PyList (map rate_value_fields (sort_key ur_sequence_no vs))) x)
     (opt_value (\<lambda>vs. PyList (map rate_value_fields (sort_key ur_sequence_no vs))) y)"
  by (rule same_shape_opt) (simp_all add: shapes)

lemma hashed_rate_shape [shapes]: "same_shape (hashed_rate_value u) (hashed_rate_value v)"
  by (simp add: hashed_rate_value_def used_rate_fields_def shapes)

lemma financial_shape: "same_shape (financial_value c) (financial_value d)"
  by (simp add: financial_value_def shapes)

lemma used_rate_shape: "same_shape (PyDict (used_rate_fields u)) (PyDict (used_rate_fields v))"
  by (simp add: used_rate_fields_def shapes)

section \<open>Equal hashes\<close>

lemma sha256_hex_inj:
  assumes "inj digest" "same_shape v w" "sha256_hex digest v = Inr h" "sha256_hex digest w = Inr h"
  shows "v = w"
  using assms by (auto simp: sha256_hex_def map_r_Inr_iff dest: injD intro: canonicalize_inj)

lemma projectable_view:
  "projectable t = Inr () \<longleftrightarrow>
     (\<exists>h cs e ls. total_view t = (h, cs, Some e, ls) \<and> (\<forall>c\<in>set cs. component_kind_order (sc_kind c) < 5))"
  by (auto simp: projectable_def total_view_def bind_r_Inr_iff snapshot_component.defs)

lemma mapM_unit: "(\<exists>us. mapM f xs = Inr us) \<longleftrightarrow> (\<forall>x\<in>set xs. f x = Inr ())"
  by (induction xs) (auto simp: bind_r_Inr_iff map_r_Inr_iff)

lemma snapshot_hash_Inr_iff:
  "calculate_snapshot_hash digest c = Inr h \<longleftrightarrow>
     (\<forall>t\<in>set (co_totals c). projectable t = Inr ()) \<and> sha256_hex digest (financial_value c) = Inr h"
  using mapM_unit [of projectable "co_totals c"] by (auto simp: calculate_snapshot_hash_def bind_r_Inr_iff)

lemma snapshot_hash_view:
  assumes "inj digest" "calculate_snapshot_hash digest c = Inr h" "calculate_snapshot_hash digest d = Inr h"
  shows "financial_view c = financial_view d"
  using assms sha256_hex_inj [OF assms(1) financial_shape]
  by (auto simp: snapshot_hash_Inr_iff financial_value_inj)

lemma snapshot_hash_cong:
  assumes "financial_view c = financial_view d" "calculate_snapshot_hash digest c = Inr h"
  shows "calculate_snapshot_hash digest d = Inr h"
proof -
  have "financial_value c = financial_value d" using assms(1) by (simp add: financial_value_inj)
  moreover have "total_view ` set (co_totals c) = total_view ` set (co_totals d)"
    using arg_cong [OF assms(1), of "\<lambda>v. set (fst (snd v))"] by (simp add: financial_view_def)
  then have "\<forall>t\<in>set (co_totals d). projectable t = Inr ()"
    if "\<forall>t\<in>set (co_totals c). projectable t = Inr ()"
    using that unfolding projectable_view by (metis (no_types, lifting) image_iff)
  ultimately show ?thesis using assms(2) by (simp add: snapshot_hash_Inr_iff)
qed

end
