(* ===== verification/Store_Facts.thy ===== *)
theory Store_Facts
  imports Snapshot_Store Hash_Facts
begin

text \<open>
  What the writer inserts is what a reader loads: the content rebuilt from the rows of a new
  snapshot equals the content that was written, row ids apart, and every older snapshot loads
  as before.
\<close>

section \<open>Tables that grow\<close>

lemma next_id_greater: "r \<in> set rows \<Longrightarrow> row_id r < next_id rows"
proof -
  have "x \<in> set xs \<Longrightarrow> x \<le> foldr max xs (0 :: int)" for x xs by (induction xs) auto
  moreover assume "r \<in> set rows"
  ultimately show ?thesis by (force simp: next_id_def)
qed

text \<open>\<open>rows'\<close> is \<open>rows\<close> followed by new rows with new, increasing ids.\<close>

definition grown :: "('k, 'a) row list \<Rightarrow> ('k, 'a) row list \<Rightarrow> ('k, 'a) row list \<Rightarrow> bool" where
  "grown rows new rows' \<longleftrightarrow> rows' = rows @ new \<and> sorted_wrt (<) (map row_id new) \<and>
     (\<forall>r\<in>set new. next_id rows \<le> row_id r)"

lemma grown_refl [simp, intro]: "grown rows [] rows"
  by (simp add: grown_def)

lemma next_id_mono: "next_id rows \<le> next_id (rows @ new)"
proof -
  have "0 \<le> foldr max xs (0 :: int)" for xs by (induction xs) auto
  then show ?thesis by (induction rows) (auto simp: next_id_def)
qed

lemma grown_next_id: "grown rows new rows' \<Longrightarrow> next_id rows \<le> next_id rows'"
  by (auto simp: grown_def next_id_mono)

lemma grown_insert_row:
  "grown rows [\<lparr>row_id = next_id rows, row_key = k, row_data = x\<rparr>] (insert_row k x rows)"
  by (simp add: grown_def insert_row_def)

lemma next_id_insert_row: "next_id rows < next_id (insert_row k x rows)"
  using next_id_greater [of "\<lparr>row_id = next_id rows, row_key = k, row_data = x\<rparr>" "insert_row k x rows"]
  by (simp add: insert_row_def)

lemma grown_trans:
  assumes "grown rows new rows'" "grown rows' new' rows''"
  shows "grown rows (new @ new') rows''"
proof -
  have "row_id r < row_id r'" if "r \<in> set new" "r' \<in> set new'" for r r'
    using that assms next_id_greater [of r rows'] by (fastforce simp: grown_def)
  then show ?thesis
    using assms grown_next_id [OF assms(1)] by (auto simp: grown_def sorted_wrt_append)
qed

lemma grown_sorted: "grown rows new rows' \<Longrightarrow> sorted (map row_id new)"
  by (auto simp: grown_def intro: sorted_wrt_mono_rel [of _ "(<)" "(\<le>)"])

lemma grown_fresh: "grown rows new rows' \<Longrightarrow> r \<in> set new \<Longrightarrow> r' \<in> set rows \<Longrightarrow> row_id r' < row_id r"
  using next_id_greater [of r' rows] by (fastforce simp: grown_def)

text \<open>Selecting exactly the new rows, or none of them, in the order of the ids.\<close>

lemma select_new:
  assumes "grown rows new rows'" "\<forall>r\<in>set rows. \<not> P r" "\<forall>r\<in>set new. P r"
  shows "sort_key row_id (filter P rows') = new"
proof -
  have "filter P rows' = new" using assms by (auto simp: grown_def filter_empty_conv filter_id_conv)
  then show ?thesis using grown_sorted [OF assms(1)] by (simp add: sort_key_id_if_sorted)
qed

lemma select_old:
  assumes "grown rows new rows'" "\<forall>r\<in>set new. \<not> P r"
  shows "filter P rows' = filter P rows"
  using assms by (auto simp: grown_def filter_empty_conv)

section \<open>The batches of the writer\<close>

lemma insert_rules_grown:
  "insert_rules s e rs rows ids = (rows', ids') \<Longrightarrow>
   \<exists>new. grown rows new rows' \<and> map row_data new = rs \<and> (\<forall>r\<in>set new. row_key r = (s, e))"
proof (induction rs arbitrary: rows ids)
  case (Cons r rs)
  let ?row = "\<lparr>row_id = next_id rows, row_key = (s, e), row_data = r\<rparr>"
  from Cons obtain new where "grown (insert_row (s, e) r rows) new rows'" "map row_data new = rs"
    "\<forall>r\<in>set new. row_key r = (s, e)" by fastforce
  then show ?case
    using grown_trans [OF grown_insert_row] by (intro exI [of _ "?row # new"]) fastforce
qed auto

lemma insert_components_grown:
  "insert_components s t rule_ids cs rows ids = (rows', ids') \<Longrightarrow>
   \<exists>new. grown rows new rows' \<and> map row_data new = cs \<and>
     (\<forall>r\<in>set new. fst (row_key r) = s \<and> fst (snd (row_key r)) = t)"
proof (induction cs arbitrary: rows ids)
  case (Cons c cs)
  let ?k = "(s, t, Option.bind (rule_type_by_kind (sc_kind c)) rule_ids)"
  let ?row = "\<lparr>row_id = next_id rows, row_key = ?k, row_data = c\<rparr>"
  from Cons obtain new where "grown (insert_row ?k c rows) new rows'" "map row_data new = cs"
    "\<forall>r\<in>set new. fst (row_key r) = s \<and> fst (snd (row_key r)) = t" by fastforce
  then show ?case
    using grown_trans [OF grown_insert_row] by (intro exI [of _ "?row # new"]) fastforce
qed auto

lemma insert_lines_grown:
  "insert_lines t cids rate_ids ls rows = Inr rows' \<Longrightarrow>
   \<exists>new. grown rows new rows' \<and> (\<forall>r\<in>set new. fst (row_key r) = t) \<and>
     list_all2 (\<lambda>l r. row_data r = (snapshot_line.truncate l)\<lparr>sl_fingerprint := None\<rparr> \<and>
       snd (snd (row_key r)) = Option.bind (sl_fingerprint l) rate_ids) ls new"
proof (induction ls arbitrary: rows)
  case (Cons l ls)
  from Cons.prems obtain c where c: "cids (line_component_key l) = Some c" by (auto split: option.splits)
  let ?k = "(t, c, Option.bind (sl_fingerprint l) rate_ids)"
  let ?x = "(snapshot_line.truncate l)\<lparr>sl_fingerprint := None\<rparr>"
  let ?row = "\<lparr>row_id = next_id rows, row_key = ?k, row_data = ?x\<rparr>"
  from Cons.prems c have "insert_lines t cids rate_ids ls (insert_row ?k ?x rows) = Inr rows'" by simp
  from Cons.IH [OF this] obtain new where "grown (insert_row ?k ?x rows) new rows'"
    "\<forall>r\<in>set new. fst (row_key r) = t"
    "list_all2 (\<lambda>l r. row_data r = (snapshot_line.truncate l)\<lparr>sl_fingerprint := None\<rparr> \<and>
       snd (snd (row_key r)) = Option.bind (sl_fingerprint l) rate_ids) ls new" by blast
  then show ?case
    using grown_trans [OF grown_insert_row] by (intro exI [of _ "?row # new"]) fastforce
qed auto

lemma insert_rate_values_grown:
  "\<exists>new. grown rows new (insert_rate_values s u vs rows) \<and> map row_data new = vs \<and>
     (\<forall>r\<in>set new. row_key r = (s, u))"
proof (induction vs arbitrary: rows)
  case (Cons v vs)
  let ?row = "\<lparr>row_id = next_id rows, row_key = (s, u), row_data = v\<rparr>"
  from Cons.IH [of "insert_row (s, u) v rows"] obtain new where
    "grown (insert_row (s, u) v rows) new (insert_rate_values s u vs (insert_row (s, u) v rows))"
    "map row_data new = vs" "\<forall>r\<in>set new. row_key r = (s, u)" by blast
  then show ?case
    using grown_trans [OF grown_insert_row] by (intro exI [of _ "?row # new"]) fastforce
qed auto

lemma insert_evidence_grown:
  "\<exists>new. grown rows new (insert_evidence s sc xs rows) \<and> map row_data new = xs \<and>
     (\<forall>r\<in>set new. row_key r = (s, sc))"
proof (induction xs arbitrary: rows)
  case (Cons x xs)
  let ?row = "\<lparr>row_id = next_id rows, row_key = (s, sc), row_data = x\<rparr>"
  from Cons.IH [of "insert_row (s, sc) x rows"] obtain new where
    "grown (insert_row (s, sc) x rows) new (insert_evidence s sc xs (insert_row (s, sc) x rows))"
    "map row_data new = xs" "\<forall>r\<in>set new. row_key r = (s, sc)" by blast
  then show ?case
    using grown_trans [OF grown_insert_row]
    by (intro exI [of _ "?row # new"]) (fastforce simp: insert_evidence_def)
qed (auto simp: insert_evidence_def)

section \<open>Loads as selections\<close>

lemma pair_key:
  "filter (\<lambda>r. fst (row_key r) = s \<and> snd (row_key r) = e) rows = filter (\<lambda>r. row_key r = (s, e)) rows"
  by (rule filter_cong) (auto simp: prod_eq_iff)

lemma load_rules_select:
  "load_rules s st e = map row_data (sort_key row_id (filter (\<lambda>r. row_key r = (s, e)) (st_rules st)))"
  by (simp add: load_rules_def filter_sort pair_key)

lemma load_components_select:
  "load_components s st t =
     map (\<lambda>r. snapshot_component.extend (row_data r) (loaded_component.fields (row_id r)))
       (sort_key row_id (filter (\<lambda>r. fst (row_key r) = s \<and> fst (snd (row_key r)) = t) (st_components st)))"
  by (simp add: load_components_def filter_sort)

lemma load_lines_select:
  "load_lines s st t =
     map (\<lambda>r. snapshot_line.extend ((row_data r)\<lparr>sl_fingerprint := rate_fingerprint st (snd (snd (row_key r)))\<rparr>)
            (loaded_line.fields (fst (snd (row_key r)))))
       (sort_key row_id (filter (\<lambda>l. fst (row_key l) = t \<and> (\<exists>r\<in>set (st_totals st). row_id r = t \<and> row_key r = s))
         (st_lines st)))"
proof -
  have "filter (\<lambda>l. (\<exists>r\<in>set (st_totals st). row_id r = fst (row_key l) \<and> row_key r = s) \<and> fst (row_key l) = t)
      (st_lines st) =
    filter (\<lambda>l. fst (row_key l) = t \<and> (\<exists>r\<in>set (st_totals st). row_id r = t \<and> row_key r = s)) (st_lines st)"
    by (rule filter_cong) auto
  then show ?thesis by (simp add: load_lines_def filter_sort)
qed

lemma dict_of_filter:
  "dict_of kvs k = (case rev (filter (\<lambda>p. fst p = k) kvs) of [] \<Rightarrow> None | p # _ \<Rightarrow> Some (snd p))"
proof -
  have "map_of xs k = (case filter (\<lambda>p. fst p = k) xs of [] \<Rightarrow> None | p # _ \<Rightarrow> Some (snd p))" for xs
    by (induction xs) auto
  then show ?thesis by (simp add: dict_of_def rev_filter)
qed

lemma load_minmax_select:
  "load_minmax s st t =
     (case rev (sort_key row_id (filter (\<lambda>r. row_key r = (s, t)) (st_evaluations st))) of
        [] \<Rightarrow> None
      | r # _ \<Rightarrow> Some (minmax_fields.extend (row_data r) (snapshot_minmax.fields (load_rules s st (row_id r)))))"
  by (simp add: load_minmax_def dict_of_filter filter_map comp_def filter_sort pair_key rev_map [symmetric]
      split: list.splits)

section \<open>One driver total\<close>

text \<open>Foreign keys point at existing rows.\<close>

definition fks_ok :: "snapshot_store \<Rightarrow> bool" where
  "fks_ok st \<longleftrightarrow>
     (\<forall>r\<in>set (st_totals st). row_key r < next_id (st_headers st)) \<and>
     (\<forall>r\<in>set (st_evaluations st). fst (row_key r) < next_id (st_headers st) \<and> snd (row_key r) < next_id (st_totals st)) \<and>
     (\<forall>r\<in>set (st_rules st). fst (row_key r) < next_id (st_headers st) \<and> snd (row_key r) < next_id (st_evaluations st)) \<and>
     (\<forall>r\<in>set (st_components st). fst (row_key r) < next_id (st_headers st) \<and> fst (snd (row_key r)) < next_id (st_totals st)) \<and>
     (\<forall>r\<in>set (st_lines st). fst (row_key r) < next_id (st_totals st) \<and>
        (\<forall>i. snd (snd (row_key r)) = Some i \<longrightarrow> i < next_id (st_used_rates st))) \<and>
     (\<forall>r\<in>set (st_used_rates st). fst (row_key r) < next_id (st_headers st)) \<and>
     (\<forall>r\<in>set (st_rate_values st). fst (row_key r) < next_id (st_headers st) \<and> snd (row_key r) < next_id (st_used_rates st)) \<and>
     (\<forall>r\<in>set (st_statuses st). fst (row_key r) < next_id (st_headers st)) \<and>
     (\<forall>r\<in>set (st_bonuses st). fst (row_key r) < next_id (st_headers st))"

text \<open>What inserting one total appends to each table.\<close>

definition total_inserted ::
  "int \<Rightarrow> (string \<Rightarrow> int option) \<Rightarrow> (snapshot_component, line_content) total_content \<Rightarrow> snapshot_store
   \<Rightarrow> snapshot_store \<Rightarrow> snapshot_minmax \<Rightarrow> (int \<times> int, minmax_rule) row list
   \<Rightarrow> (int \<times> int \<times> int option, snapshot_component) row list
   \<Rightarrow> (int \<times> int \<times> int option, snapshot_line) row list \<Rightarrow> bool" where
  "total_inserted s rate_ids t st st' e rr cr lr \<longleftrightarrow>
     to_minmax t = Some e \<and>
     st_headers st' = st_headers st \<and> st_used_rates st' = st_used_rates st \<and>
     st_rate_values st' = st_rate_values st \<and> st_statuses st' = st_statuses st \<and>
     st_bonuses st' = st_bonuses st \<and>
     st_totals st' = insert_row s (snapshot_total.truncate t) (st_totals st) \<and>
     st_evaluations st' =
       insert_row (s, next_id (st_totals st)) (minmax_fields.truncate e) (st_evaluations st) \<and>
     grown (st_rules st) rr (st_rules st') \<and> map row_data rr = se_rules e \<and>
     (\<forall>r\<in>set rr. row_key r = (s, next_id (st_evaluations st))) \<and>
     grown (st_components st) cr (st_components st') \<and> map row_data cr = to_components t \<and>
     (\<forall>r\<in>set cr. fst (row_key r) = s \<and> fst (snd (row_key r)) = next_id (st_totals st)) \<and>
     grown (st_lines st) lr (st_lines st') \<and> (\<forall>r\<in>set lr. fst (row_key r) = next_id (st_totals st)) \<and>
     list_all2 (\<lambda>l r. row_data r = (snapshot_line.truncate l)\<lparr>sl_fingerprint := None\<rparr> \<and>
       snd (snd (row_key r)) = Option.bind (sl_fingerprint l) rate_ids) (to_lines t) lr"

lemma insert_totalE:
  assumes "insert_total s rate_ids t st = Inr st'"
  obtains e rr cr lr where "total_inserted s rate_ids t st st' e rr cr lr"
proof -
  from assms obtain e where e: "to_minmax t = Some e" by (auto simp: insert_total_def split: option.splits)
  obtain rules rids where rules: "insert_rules s (next_id (st_evaluations st)) (se_rules e) (st_rules st) (\<lambda>_. None) = (rules, rids)"
    by fastforce
  obtain comps cids where comps: "insert_components s (next_id (st_totals st)) rids (to_components t) (st_components st) (\<lambda>_. None) = (comps, cids)"
    by fastforce
  from assms e rules comps obtain ls where ls: "insert_lines (next_id (st_totals st)) cids rate_ids (to_lines t) (st_lines st) = Inr ls"
    and st': "st' = st\<lparr>st_totals := insert_row s (snapshot_total.truncate t) (st_totals st),
        st_evaluations := insert_row (s, next_id (st_totals st)) (minmax_fields.truncate e) (st_evaluations st),
        st_rules := rules, st_components := comps, st_lines := ls\<rparr>"
    by (auto simp: insert_total_def Let_def map_r_Inr_iff)
  show thesis
    using insert_rules_grown [OF rules] insert_components_grown [OF comps] insert_lines_grown [OF ls] e st'
    by (elim exE conjE) (rule that, simp add: total_inserted_def)
qed

definition rate_ids_ok :: "snapshot_store \<Rightarrow> (string \<Rightarrow> int option) \<Rightarrow> bool" where
  "rate_ids_ok st rate_ids \<longleftrightarrow> (\<forall>fp i. rate_ids fp = Some i \<longrightarrow> i < next_id (st_used_rates st))"

lemma fks_ok_insert_total:
  assumes "fks_ok st" "insert_total s rate_ids t st = Inr st'" "s < next_id (st_headers st)"
    and "rate_ids_ok st rate_ids"
  shows "fks_ok st'"
proof -
  from assms(2) obtain e rr cr lr where "total_inserted s rate_ids t st st' e rr cr lr"
    by (rule insert_totalE)
  note ins = this [unfolded total_inserted_def]
  have tot: "next_id (st_totals st) < next_id (st_totals st')"
    and ev: "next_id (st_evaluations st) < next_id (st_evaluations st')"
    using ins by (simp_all add: next_id_insert_row)
  have old: "\<forall>r\<in>set (st_totals st'). row_key r < next_id (st_headers st)"
    "\<forall>r\<in>set (st_evaluations st'). fst (row_key r) < next_id (st_headers st) \<and> snd (row_key r) < next_id (st_totals st')"
    using assms(1,3) ins tot unfolding fks_ok_def by (force simp: insert_row_def)+
  have "\<forall>r\<in>set (st_rules st'). fst (row_key r) < next_id (st_headers st) \<and> snd (row_key r) < next_id (st_evaluations st')"
    using assms(1,3) ins ev unfolding fks_ok_def by (force simp: grown_def)
  moreover have "\<forall>r\<in>set (st_components st'). fst (row_key r) < next_id (st_headers st) \<and>
      fst (snd (row_key r)) < next_id (st_totals st')"
    using assms(1,3) ins tot unfolding fks_ok_def by (force simp: grown_def)
  moreover have "\<forall>r\<in>set lr. \<forall>i. snd (snd (row_key r)) = Some i \<longrightarrow> i < next_id (st_used_rates st)"
  proof (intro ballI allI impI)
    fix r i assume "r \<in> set lr" "snd (snd (row_key r)) = Some i"
    have "list_all2 (\<lambda>l r. row_data r = (snapshot_line.truncate l)\<lparr>sl_fingerprint := None\<rparr> \<and>
       snd (snd (row_key r)) = Option.bind (sl_fingerprint l) rate_ids) (to_lines t) lr"
      using ins by blast
    from this \<open>r \<in> set lr\<close> obtain l :: line_content where "snd (snd (row_key r)) = Option.bind (sl_fingerprint l) rate_ids"
      by (rule list_all2_memberE) blast
    with \<open>snd (snd (row_key r)) = Some i\<close> have "Option.bind (sl_fingerprint l) rate_ids = Some i" by simp
    then show "i < next_id (st_used_rates st)"
      using assms(4) by (cases "sl_fingerprint l") (auto simp: rate_ids_ok_def)
  qed
  then have "\<forall>r\<in>set (st_lines st'). fst (row_key r) < next_id (st_totals st') \<and>
      (\<forall>i. snd (snd (row_key r)) = Some i \<longrightarrow> i < next_id (st_used_rates st))"
    using assms(1,3) ins tot unfolding fks_ok_def by (force simp: grown_def)
  ultimately show ?thesis using assms(1) old ins unfolding fks_ok_def by simp
qed

text \<open>The rows of the total \<open>r\<close> of a snapshot load as the total that was written.\<close>

definition total_stored ::
  "int \<Rightarrow> snapshot_store \<Rightarrow> (snapshot_component, line_content) total_content \<Rightarrow> (int, snapshot_total) row \<Rightarrow> bool" where
  "total_stored s st t r \<longleftrightarrow>
     row_key r = s \<and> r \<in> set (st_totals st) \<and> row_data r = snapshot_total.truncate t \<and>
     map snapshot_component.truncate (load_components s st (row_id r)) = to_components t \<and>
     load_minmax s st (row_id r) = to_minmax t \<and>
     map snapshot_line.truncate (load_lines s st (row_id r)) = map snapshot_line.truncate (to_lines t)"

definition fingerprints_ok :: "snapshot_store \<Rightarrow> (string \<Rightarrow> int option) \<Rightarrow> string set \<Rightarrow> bool" where
  "fingerprints_ok st rate_ids fps \<longleftrightarrow>
     (\<forall>fp\<in>fps. rate_fingerprint st (rate_ids fp) = Some fp)"

lemma truncate_component [simp]:
  "snapshot_component.truncate (snapshot_component.extend c x) = snapshot_component.truncate c"
  by (simp add: snapshot_component.defs)

lemma truncate_component_id [simp]: "snapshot_component.truncate (c :: snapshot_component) = c"
  by (simp add: snapshot_component.defs)

lemma truncate_line [simp]:
  "snapshot_line.truncate (snapshot_line.extend l x) = snapshot_line.truncate l"
  by (simp add: snapshot_line.defs)

lemma truncate_line_fingerprint:
  "snapshot_line.truncate ((snapshot_line.truncate l)\<lparr>sl_fingerprint := None, sl_fingerprint := sl_fingerprint l\<rparr>)
     = snapshot_line.truncate l"
  by (simp add: snapshot_line.defs)

lemma extend_minmax [simp]:
  "minmax_fields.extend (minmax_fields.truncate e) (snapshot_minmax.fields (se_rules e)) = e"
  by (cases e) (simp add: minmax_fields.defs snapshot_minmax.defs)

lemma total_stored_new:
  assumes "fks_ok st" "insert_total s rate_ids t st = Inr st'"
    and "fingerprints_ok st rate_ids (\<Union>l\<in>set (to_lines t). set_option (sl_fingerprint l))"
  shows "total_stored s st' t \<lparr>row_id = next_id (st_totals st), row_key = s, row_data = snapshot_total.truncate t\<rparr>"
proof -
  from assms(2) obtain e rr cr lr where "total_inserted s rate_ids t st st' e rr cr lr"
    by (rule insert_totalE)
  note ins = this [unfolded total_inserted_def]
  let ?t = "next_id (st_totals st)" and ?e = "next_id (st_evaluations st)"
  have evals: "st_evaluations st' = insert_row (s, ?t) (minmax_fields.truncate e) (st_evaluations st)"
    and tots: "st_totals st' = insert_row s (snapshot_total.truncate t) (st_totals st)"
    and rates: "st_used_rates st' = st_used_rates st"
    using ins by blast+
  have rr: "grown (st_rules st) rr (st_rules st')" "\<forall>r\<in>set rr. row_key r = (s, ?e)" "map row_data rr = se_rules e"
    and cr: "grown (st_components st) cr (st_components st')"
      "\<forall>r\<in>set cr. fst (row_key r) = s \<and> fst (snd (row_key r)) = ?t" "map row_data cr = to_components t"
    and lr: "grown (st_lines st) lr (st_lines st')" "\<forall>r\<in>set lr. fst (row_key r) = ?t"
    and minmax_row: "to_minmax t = Some e"
    using ins by blast+
  have old: "\<forall>r\<in>set (st_components st). \<not> (fst (row_key r) = s \<and> fst (snd (row_key r)) = ?t)"
    "\<forall>r\<in>set (st_rules st). row_key r \<noteq> (s, ?e)" "\<forall>r\<in>set (st_evaluations st). row_key r \<noteq> (s, ?t)"
    "\<forall>r\<in>set (st_lines st). fst (row_key r) \<noteq> ?t"
    using assms(1) unfolding fks_ok_def by force+
  have comps: "sort_key row_id (filter (\<lambda>r. fst (row_key r) = s \<and> fst (snd (row_key r)) = ?t) (st_components st')) = cr"
    using old(1) cr(2) by (intro select_new [OF cr(1)]) blast+
  have rules: "load_rules s st' ?e = se_rules e"
  proof -
    have "sort_key row_id (filter (\<lambda>r. row_key r = (s, ?e)) (st_rules st')) = rr"
      using old(2) rr(2) by (intro select_new [OF rr(1)]) blast+
    then show ?thesis using rr(3) by (simp add: load_rules_select)
  qed
  have "sort_key row_id (filter (\<lambda>r. row_key r = (s, ?t)) (st_evaluations st')) =
      [\<lparr>row_id = ?e, row_key = (s, ?t), row_data = minmax_fields.truncate e\<rparr>]"
    unfolding evals using old(3)
    by (intro select_new [OF grown_insert_row]) simp_all
  then have minmax: "load_minmax s st' ?t = to_minmax t"
    using rules minmax_row by (simp add: load_minmax_select)
  have own: "\<exists>r\<in>set (st_totals st'). row_id r = ?t \<and> row_key r = s"
    by (auto simp: tots insert_row_def)
  have lines: "sort_key row_id (filter (\<lambda>l. fst (row_key l) = ?t \<and>
      (\<exists>r\<in>set (st_totals st'). row_id r = ?t \<and> row_key r = s)) (st_lines st')) = lr"
    using old(4) lr(2) own by (intro select_new [OF lr(1)]) blast+
  have fp: "rate_fingerprint st' (Option.bind (sl_fingerprint l) rate_ids) = sl_fingerprint l"
    if "l \<in> set (to_lines t)" for l
    using assms(3) that rates
    by (cases "sl_fingerprint l") (force simp: fingerprints_ok_def rate_fingerprint_def)+
  have written: "list_all2 (\<lambda>l r. row_data r = (snapshot_line.truncate l)\<lparr>sl_fingerprint := None\<rparr> \<and>
       snd (snd (row_key r)) = Option.bind (sl_fingerprint l) rate_ids) (to_lines t) lr"
    using ins by blast
  have "list_all2 (\<lambda>l r. snapshot_line.truncate ((row_data r)\<lparr>sl_fingerprint :=
      rate_fingerprint st' (snd (snd (row_key r)))\<rparr>) = snapshot_line.truncate l) (to_lines t) lr"
    using written by (rule list.rel_mono_strong) (simp add: fp snapshot_line.defs)
  then have "map snapshot_line.truncate (load_lines s st' ?t) = map snapshot_line.truncate (to_lines t)"
    by (simp add: load_lines_select lines comp_def list_all2_map_eq)
  moreover have "map snapshot_component.truncate (load_components s st' ?t) = to_components t"
    using comps cr(3) by (simp add: load_components_select comp_def)
  ultimately show ?thesis
    using minmax by (simp add: total_stored_def tots insert_row_def)
qed

text \<open>Inserting a total changes nothing that is loaded for the totals before it.\<close>

lemma loads_unchanged:
  assumes "fks_ok st" "insert_total s rate_ids t st = Inr st'" "tot < next_id (st_totals st)"
  shows "load_components s' st' tot = load_components s' st tot"
    and "load_minmax s' st' tot = load_minmax s' st tot"
    and "load_lines s' st' tot = load_lines s' st tot"
proof -
  from assms(2) obtain e rr cr lr where "total_inserted s rate_ids t st st' e rr cr lr"
    by (rule insert_totalE)
  note ins = this [unfolded total_inserted_def]
  have rr: "grown (st_rules st) rr (st_rules st')" "\<forall>r\<in>set rr. row_key r = (s, next_id (st_evaluations st))"
    and cr: "grown (st_components st) cr (st_components st')" "\<forall>r\<in>set cr. fst (snd (row_key r)) = next_id (st_totals st)"
    and lr: "grown (st_lines st) lr (st_lines st')" "\<forall>r\<in>set lr. fst (row_key r) = next_id (st_totals st)"
    and tots: "st_totals st' = insert_row s (snapshot_total.truncate t) (st_totals st)"
    and evals: "st_evaluations st' = insert_row (s, next_id (st_totals st)) (minmax_fields.truncate e) (st_evaluations st)"
    and rates: "st_used_rates st' = st_used_rates st"
    using ins by blast+
  show "load_components s' st' tot = load_components s' st tot"
    using cr(2) assms(3) by (simp add: load_components_select) (subst select_old [OF cr(1)], auto)
  have rules: "load_rules s' st' ev = load_rules s' st ev" if "ev < next_id (st_evaluations st)" for ev
    using rr(2) that by (simp add: load_rules_select) (subst select_old [OF rr(1)], auto)
  have same: "filter (\<lambda>r. row_key r = (s', tot)) (st_evaluations st') = filter (\<lambda>r. row_key r = (s', tot)) (st_evaluations st)"
    unfolding evals using assms(3) by (intro select_old [OF grown_insert_row]) auto
  have "row_id r < next_id (st_evaluations st)"
    if "r \<in> set (sort_key row_id (filter (\<lambda>r. row_key r = (s', tot)) (st_evaluations st)))" for r
    using that next_id_greater [of r "st_evaluations st"] by auto
  then have "load_rules s' st' (row_id r) = load_rules s' st (row_id r)"
    if "rev (sort_key row_id (filter (\<lambda>r. row_key r = (s', tot)) (st_evaluations st))) = r # rs" for r rs
    using that by (intro rules) (metis in_set_conv_decomp set_rev self_append_conv2)
  then show "load_minmax s' st' tot = load_minmax s' st tot"
    unfolding load_minmax_select same by (auto split: list.splits)
  have tot: "(\<exists>r\<in>set (st_totals st'). row_id r = tot \<and> row_key r = s') \<longleftrightarrow>
      (\<exists>r\<in>set (st_totals st). row_id r = tot \<and> row_key r = s')"
    unfolding tots using assms(3) by (auto simp: insert_row_def)
  show "load_lines s' st' tot = load_lines s' st tot"
    unfolding load_lines_select tot
    using lr(2) assms(3) rates
    by (subst select_old [OF lr(1)]) (auto simp: rate_fingerprint_def)
qed

lemma total_stored_kept:
  assumes "fks_ok st" "insert_total s rate_ids t st = Inr st'" "total_stored s st t0 r0"
  shows "total_stored s st' t0 r0"
proof -
  from assms(2) obtain e rr cr lr where "total_inserted s rate_ids t st st' e rr cr lr"
    by (rule insert_totalE)
  then have "st_totals st' = insert_row s (snapshot_total.truncate t) (st_totals st)"
    by (simp add: total_inserted_def)
  moreover have "row_id r0 < next_id (st_totals st)"
    using assms(3) next_id_greater [of r0] by (auto simp: total_stored_def)
  ultimately show ?thesis
    using assms(3) loads_unchanged [OF assms(1,2), of "row_id r0" s]
    by (simp add: total_stored_def insert_row_def)
qed

section \<open>All the driver totals\<close>

abbreviation insert_totals ::
  "int \<Rightarrow> (string \<Rightarrow> int option) \<Rightarrow> snapshot_store
   \<Rightarrow> (snapshot_component, line_content) total_content list \<Rightarrow> snapshot_store result" where
  "insert_totals s rate_ids \<equiv> foldM (\<lambda>st t. insert_total s rate_ids t st)"

abbreviation fingerprints :: "('c, line_content) total_content \<Rightarrow> string set" where
  "fingerprints t \<equiv> \<Union>l\<in>set (to_lines t). set_option (sl_fingerprint l)"

lemma insert_total_frame:
  assumes "insert_total s rate_ids t st = Inr st'"
  shows "st_headers st' = st_headers st \<and> st_used_rates st' = st_used_rates st \<and>
    st_rate_values st' = st_rate_values st \<and> st_statuses st' = st_statuses st \<and>
    st_bonuses st' = st_bonuses st \<and>
    grown (st_totals st) [\<lparr>row_id = next_id (st_totals st), row_key = s, row_data = snapshot_total.truncate t\<rparr>] (st_totals st')"
  using assms by (rule insert_totalE) (simp add: total_inserted_def grown_insert_row)

lemma insert_totals_frame:
  "insert_totals s rate_ids st ts = Inr st' \<Longrightarrow>
   st_headers st' = st_headers st \<and> st_used_rates st' = st_used_rates st \<and>
   st_rate_values st' = st_rate_values st \<and> st_statuses st' = st_statuses st \<and> st_bonuses st' = st_bonuses st"
proof (induction ts arbitrary: st)
  case (Cons t ts)
  then obtain st1 where "insert_total s rate_ids t st = Inr st1" "insert_totals s rate_ids st1 ts = Inr st'"
    by (auto simp: bind_r_Inr_iff)
  then show ?case using Cons.IH [of st1] insert_total_frame [of s rate_ids t st st1] by simp
qed auto

lemma insert_totals_stored:
  assumes "fks_ok st" "s < next_id (st_headers st)" "insert_totals s rate_ids st ts = Inr st'"
    and "rate_ids_ok st rate_ids" "fingerprints_ok st rate_ids (\<Union>t\<in>set ts. fingerprints t)"
  shows "\<exists>new. grown (st_totals st) new (st_totals st') \<and> fks_ok st' \<and>
    list_all2 (\<lambda>t r. total_stored s st' t r) ts new \<and>
    (\<forall>t0 r0. total_stored s st t0 r0 \<longrightarrow> total_stored s st' t0 r0) \<and>
    (\<forall>s' tot. tot < next_id (st_totals st) \<longrightarrow>
       load_components s' st' tot = load_components s' st tot \<and>
       load_minmax s' st' tot = load_minmax s' st tot \<and> load_lines s' st' tot = load_lines s' st tot)"
  using assms
proof (induction ts arbitrary: st)
  case (Cons t ts)
  from Cons.prems(3) obtain st1 where st1: "insert_total s rate_ids t st = Inr st1"
    and rest: "insert_totals s rate_ids st1 ts = Inr st'" by (auto simp: bind_r_Inr_iff)
  note frame = insert_total_frame [OF st1]
  have ok: "fks_ok st1" by (rule fks_ok_insert_total [OF Cons.prems(1) st1 Cons.prems(2,4)])
  have rok: "rate_ids_ok st1 rate_ids" using Cons.prems(4) frame by (simp add: rate_ids_ok_def)
  have fp: "fingerprints_ok st1 rate_ids (\<Union>t\<in>set ts. fingerprints t)"
    using Cons.prems(5) frame by (simp add: fingerprints_ok_def rate_fingerprint_def)
  from Cons.IH [OF ok _ rest rok fp] frame Cons.prems(2) obtain new where
    new: "grown (st_totals st1) new (st_totals st')" "fks_ok st'" "list_all2 (\<lambda>t r. total_stored s st' t r) ts new"
    and kept: "\<forall>t0 r0. total_stored s st1 t0 r0 \<longrightarrow> total_stored s st' t0 r0"
    and loads: "\<forall>s' tot. tot < next_id (st_totals st1) \<longrightarrow>
       load_components s' st' tot = load_components s' st1 tot \<and>
       load_minmax s' st' tot = load_minmax s' st1 tot \<and> load_lines s' st' tot = load_lines s' st1 tot"
    by auto
  let ?row = "\<lparr>row_id = next_id (st_totals st), row_key = s, row_data = snapshot_total.truncate t\<rparr>"
  have "total_stored s st1 t ?row"
    using Cons.prems(5) by (intro total_stored_new [OF Cons.prems(1) st1]) (simp add: fingerprints_ok_def)
  then have "list_all2 (\<lambda>t r. total_stored s st' t r) (t # ts) (?row # new)"
    using kept new(3) by simp
  moreover have "grown (st_totals st) (?row # new) (st_totals st')"
    using grown_trans [OF _ new(1)] frame by fastforce
  moreover have "\<forall>t0 r0. total_stored s st t0 r0 \<longrightarrow> total_stored s st' t0 r0"
    using total_stored_kept [OF Cons.prems(1) st1] kept by blast
  moreover have "next_id (st_totals st) \<le> next_id (st_totals st1)"
    using frame grown_next_id by blast
  then have "\<forall>s' tot. tot < next_id (st_totals st) \<longrightarrow>
       load_components s' st' tot = load_components s' st tot \<and>
       load_minmax s' st' tot = load_minmax s' st tot \<and> load_lines s' st' tot = load_lines s' st tot"
    using loads_unchanged [OF Cons.prems(1) st1] loads by fastforce
  ultimately show ?case using new(2) by blast
qed auto

section \<open>Used rates\<close>

lemma grown_find:
  assumes "grown rows new rows'" "r \<in> set new"
  shows "find_first (\<lambda>x. row_id x = row_id r) rows' = Some r"
proof -
  have old: "find_first p (xs @ ys) = (case find_first p xs of None \<Rightarrow> find_first p ys | Some x \<Rightarrow> Some x)"
    for p and xs ys :: "('a, 'b) row list" by (induction xs) auto
  have "find_first (\<lambda>x. row_id x = row_id r) rows = None"
    using grown_fresh [OF assms] by (fastforce simp: find_first_None_iff)
  moreover have "find_first (\<lambda>x. row_id x = row_id r) xs = Some r"
    if "sorted_wrt (<) (map row_id xs)" "r \<in> set xs" for xs :: "('a, 'b) row list"
    using that by (induction xs) force+
  ultimately show ?thesis using assms by (simp add: grown_def old)
qed

lemma load_rate_values_new:
  assumes "\<forall>r\<in>set rows. row_key r \<noteq> (s, u)" "grown rows new (st_rate_values st)"
    and "\<forall>r\<in>set new. row_key r = (s, u)" "map row_data new = vs"
  shows "load_rate_values s st u = (if vs = [] then None else Some (sort_key ur_sequence_no vs))"
proof -
  have "filter (\<lambda>r. row_key r = (s, u)) (st_rate_values st) = new"
    using assms by (auto simp: grown_def filter_empty_conv filter_id_conv)
  then show ?thesis using assms(4) by (auto simp: load_rate_values_def split: list.splits)
qed

definition rate_stored :: "int \<Rightarrow> scope \<Rightarrow> snapshot_store \<Rightarrow> hashed_rate \<Rightarrow> (int \<times> scope, hashed_rate) row \<Rightarrow> bool" where
  "rate_stored s sc st u r \<longleftrightarrow>
     row_key r = (s, sc) \<and> row_data r = u\<lparr>ud_components := None\<rparr> \<and>
     load_rate_values s st (row_id r) = map_option (sort_key ur_sequence_no) (ud_components u)"

lemma insert_used_rates_stored:
  assumes "insert_used_rates s sc us st ids = (st', ids')" "fks_ok st" "s < next_id (st_headers st)"
    and "\<forall>u\<in>set us. ud_components u \<noteq> Some []"
  shows "\<exists>new. grown (st_used_rates st) new (st_used_rates st') \<and> fks_ok st' \<and>
    list_all2 (rate_stored s sc st') us new \<and>
    (\<forall>s' tot. tot < next_id (st_used_rates st) \<longrightarrow> load_rate_values s' st' tot = load_rate_values s' st tot) \<and>
    st_headers st' = st_headers st \<and> st_totals st' = st_totals st \<and> st_evaluations st' = st_evaluations st \<and>
    st_rules st' = st_rules st \<and> st_components st' = st_components st \<and> st_lines st' = st_lines st \<and>
    st_statuses st' = st_statuses st \<and> st_bonuses st' = st_bonuses st \<and>
    (\<forall>fp. ids' fp = (if fp \<in> ud_fingerprint ` set us then ids' fp else ids fp)) \<and>
    (\<forall>fp\<in>ud_fingerprint ` set us. \<exists>r\<in>set new. ids' fp = Some (row_id r) \<and> ud_fingerprint (row_data r) = fp)"
  using assms
proof (induction us arbitrary: st ids)
  case (Cons u us)
  let ?u = "next_id (st_used_rates st)"
  let ?vs = "case ud_components u of None \<Rightarrow> [] | Some vs \<Rightarrow> vs"
  let ?st1 = "st\<lparr>st_used_rates := insert_row (s, sc) (u\<lparr>ud_components := None\<rparr>) (st_used_rates st),
       st_rate_values := insert_rate_values s ?u ?vs (st_rate_values st)\<rparr>"
  let ?row = "\<lparr>row_id = ?u, row_key = (s, sc), row_data = u\<lparr>ud_components := None\<rparr>\<rparr>"
  obtain vr where vr: "grown (st_rate_values st) vr (st_rate_values ?st1)" "map row_data vr = ?vs"
    "\<forall>r\<in>set vr. row_key r = (s, ?u)"
    using insert_rate_values_grown [of "st_rate_values st" s ?u ?vs] by auto
  have row: "grown (st_used_rates st) [?row] (st_used_rates ?st1)" by (simp add: grown_insert_row)
  have lt: "?u < next_id (st_used_rates ?st1)" by (simp add: next_id_insert_row)
  have ok: "fks_ok ?st1"
  proof -
    have "\<forall>r\<in>set (st_used_rates ?st1). fst (row_key r) < next_id (st_headers st)"
      using Cons.prems(2,3) unfolding fks_ok_def by (force simp: insert_row_def)
    moreover have "\<forall>r\<in>set (st_rate_values ?st1). fst (row_key r) < next_id (st_headers st) \<and>
        snd (row_key r) < next_id (st_used_rates ?st1)"
      using Cons.prems(2,3) lt vr(3) vr(1) unfolding fks_ok_def grown_def by force
    moreover have "\<forall>r\<in>set (st_lines ?st1). fst (row_key r) < next_id (st_totals st) \<and>
        (\<forall>i. snd (snd (row_key r)) = Some i \<longrightarrow> i < next_id (st_used_rates ?st1))"
      using Cons.prems(2) lt unfolding fks_ok_def by force
    ultimately show ?thesis using Cons.prems(2) unfolding fks_ok_def by simp
  qed
  from Cons.prems(1) have rest: "insert_used_rates s sc us ?st1 (ids(ud_fingerprint u \<mapsto> ?u)) = (st', ids')"
    by (simp add: Let_def)
  from Cons.IH [OF rest ok] Cons.prems(3,4) obtain new where
    new: "grown (st_used_rates ?st1) new (st_used_rates st')" "fks_ok st'" "list_all2 (rate_stored s sc st') us new"
    and loads: "\<forall>s' tot. tot < next_id (st_used_rates ?st1) \<longrightarrow> load_rate_values s' st' tot = load_rate_values s' ?st1 tot"
    and frame: "st_headers st' = st_headers st" "st_totals st' = st_totals st" "st_evaluations st' = st_evaluations st"
      "st_rules st' = st_rules st" "st_components st' = st_components st" "st_lines st' = st_lines st"
      "st_statuses st' = st_statuses st" "st_bonuses st' = st_bonuses st"
    and old_ids: "\<forall>fp. ids' fp = (if fp \<in> ud_fingerprint ` set us then ids' fp else (ids(ud_fingerprint u \<mapsto> ?u)) fp)"
    and new_ids: "\<forall>fp\<in>ud_fingerprint ` set us. \<exists>r\<in>set new. ids' fp = Some (row_id r) \<and> ud_fingerprint (row_data r) = fp"
    by auto
  have fresh: "\<forall>r\<in>set (st_rate_values st). row_key r \<noteq> (s, ?u)"
    using Cons.prems(2) unfolding fks_ok_def by force
  have "load_rate_values s ?st1 ?u = (if ?vs = [] then None else Some (sort_key ur_sequence_no ?vs))"
    by (rule load_rate_values_new [OF fresh vr(1,3,2)])
  then have "rate_stored s sc st' u ?row"
    using loads lt Cons.prems(4) by (auto simp: rate_stored_def split: option.splits)
  then have "list_all2 (rate_stored s sc st') (u # us) (?row # new)" using new(3) by simp
  moreover have "grown (st_used_rates st) (?row # new) (st_used_rates st')"
    using grown_trans [OF row new(1)] by simp
  moreover have "load_rate_values s' st' tot = load_rate_values s' st tot" if "tot < ?u" for s' tot
  proof -
    have "filter (\<lambda>r. row_key r = (s', tot)) (st_rate_values ?st1) = filter (\<lambda>r. row_key r = (s', tot)) (st_rate_values st)"
      using that vr(3) by (intro select_old [OF vr(1)]) auto
    then have "load_rate_values s' ?st1 tot = load_rate_values s' st tot" by (simp add: load_rate_values_def)
    then show ?thesis using loads that lt by fastforce
  qed
  moreover have "\<forall>fp\<in>ud_fingerprint ` set (u # us).
      \<exists>r\<in>set (?row # new). ids' fp = Some (row_id r) \<and> ud_fingerprint (row_data r) = fp"
  proof
    fix fp assume "fp \<in> ud_fingerprint ` set (u # us)"
    then consider "fp \<in> ud_fingerprint ` set us" | "fp \<notin> ud_fingerprint ` set us" "fp = ud_fingerprint u" by auto
    then show "\<exists>r\<in>set (?row # new). ids' fp = Some (row_id r) \<and> ud_fingerprint (row_data r) = fp"
    proof cases
      case 1
      then show ?thesis using new_ids by auto
    next
      case 2
      then have "ids' fp = Some ?u" using old_ids [rule_format, of fp] by simp
      then show ?thesis using 2 by simp
    qed
  qed
  moreover have "\<forall>fp. ids' fp = (if fp \<in> ud_fingerprint ` set (u # us) then ids' fp else ids fp)"
    using old_ids by (metis (no_types, lifting) fun_upd_apply image_insert insert_iff list.simps(15))
  ultimately show ?case using new(2) frame by blast
qed auto

section \<open>The round trip\<close>

definition total_form ::
  "('a snapshot_component_scheme, 'b snapshot_line_scheme, 'z) total_content_scheme \<Rightarrow> total_view" where
  "total_form t =
     (snapshot_total.truncate t, map snapshot_component.truncate (to_components t), to_minmax t,
      map snapshot_line.truncate (to_lines t))"

text \<open>A content without the row ids, the tier values of a rate in sequence order.\<close>

definition stored_form ::
  "('a snapshot_component_scheme, 'b snapshot_line_scheme, 'c hashed_rate_scheme, 'z) snapshot_content_scheme
   \<Rightarrow> snapshot_header \<times> total_view list \<times> (used_rate \<times> string) list" where
  "stored_form c =
     (snapshot_header.truncate c, map total_form (co_totals c), map rate_view (co_used_rates c))"

lemma sort_key_map: "sort_key f (map g xs) = map g (sort_key (\<lambda>x. f (g x)) xs)"
proof -
  have "insort_key f (g x) (map g ys) = map g (insort_key (\<lambda>x. f (g x)) x ys)" for x ys
    by (induction ys) auto
  then show ?thesis by (induction xs) auto
qed

lemma sort_keys_truncate [simp]:
  "component_sort_key (snapshot_component.truncate c) = component_sort_key c"
  "line_sort_key (snapshot_line.truncate l) = line_sort_key l"
  "to_assignment_id (snapshot_total.truncate t) = to_assignment_id t"
  by (simp_all add: component_sort_key_def line_sort_key_def snapshot_component.defs snapshot_line.defs
      snapshot_total.defs)

lemma total_view_form:
  "total_view t = (\<lambda>(h, cs, e, ls). (h, sort_key component_sort_key cs, map_option minmax_view e,
     sort_key line_sort_key ls)) (total_form t)"
  by (simp add: total_view_def total_form_def sort_key_map)

lemma view_totals:
  "map total_view (sort_key to_assignment_id ts) =
   map (\<lambda>(h, cs, e, ls). (h, sort_key component_sort_key cs, map_option minmax_view e,
     sort_key line_sort_key ls)) (sort_key (to_assignment_id \<circ> fst) (map total_form ts))"
  by (simp add: sort_key_map total_view_form total_form_def)

lemma view_rates: "map rate_view (sort_key ud_fingerprint us) = sort_key snd (map rate_view us)"
  by (simp add: sort_key_map rate_view_def)

lemma financial_view_form:
  assumes "stored_form c = stored_form d"
  shows "financial_view c = financial_view d"
  using assms by (simp add: financial_view_def stored_form_def view_totals view_rates)

text \<open>
  A content the writer can store: of the current version, its totals in the order of their
  DriverAssignments, every line linked to one of its rates, and no rate with an empty list of
  tier values.
\<close>

definition storable :: "(snapshot_component, line_content, hashed_rate) snapshot_content \<Rightarrow> bool" where
  "storable c \<longleftrightarrow>
     sh_calculation_version c = current_calculation_version \<and>
     sorted (map to_assignment_id (co_totals c)) \<and>
     (\<forall>u\<in>set (co_used_rates c). ud_components u \<noteq> Some []) \<and>
     (\<Union>t\<in>set (co_totals c). fingerprints t) \<subseteq> ud_fingerprint ` set (co_used_rates c)"

definition header_of ::
  "string \<Rightarrow> string \<Rightarrow> int \<Rightarrow> (snapshot_component, line_content, hashed_rate) snapshot_content
   \<Rightarrow> snapshot_store \<Rightarrow> header_data" where
  "header_of h rh user c st = snapshot_header.extend (snapshot_header.truncate c)
     (header_data.fields (next_revision (sh_period_id c) st) h current_report_evidence_version rh user)"

definition scope_of :: "('c, 'l, 'u, 'z) snapshot_content_scheme \<Rightarrow> scope" where
  "scope_of c = (sh_company_id c, sh_branch_id c, sh_period_id c)"

lemma insert_snapshotE:
  assumes "insert_snapshot h rh user c sts bns st = Inr (st', sid)"
  obtains st0 st1 rate_ids st2 where
    "sid = next_id (st_headers st)"
    "st0 = st\<lparr>st_headers := insert_row () (header_of h rh user c st) (st_headers st)\<rparr>"
    "insert_used_rates sid (scope_of c) (co_used_rates c) st0 (\<lambda>_. None) = (st1, rate_ids)"
    "insert_totals sid rate_ids st1 (co_totals c) = Inr st2"
    "st' = st2\<lparr>st_statuses := insert_evidence sid (scope_of c) sts (st_statuses st2),
       st_bonuses := insert_evidence sid (scope_of c) bns (st_bonuses st2)\<rparr>"
proof -
  obtain st1 rate_ids where *: "insert_used_rates (next_id (st_headers st)) (scope_of c) (co_used_rates c)
      (st\<lparr>st_headers := insert_row () (header_of h rh user c st) (st_headers st)\<rparr>) (\<lambda>_. None) = (st1, rate_ids)"
    by fastforce
  from assms * obtain st2 where "insert_totals (next_id (st_headers st)) rate_ids st1 (co_totals c) = Inr st2"
    "st' = st2\<lparr>st_statuses := insert_evidence (next_id (st_headers st)) (scope_of c) sts (st_statuses st2),
       st_bonuses := insert_evidence (next_id (st_headers st)) (scope_of c) bns (st_bonuses st2)\<rparr>"
    "sid = next_id (st_headers st)"
    by (auto simp: insert_snapshot_def Let_def header_of_def scope_of_def map_r_Inr_iff)
  with * show thesis by (intro that [of "st\<lparr>st_headers := insert_row () (header_of h rh user c st) (st_headers st)\<rparr>"]) auto
qed

text \<open>The tables after a snapshot was inserted.\<close>

lemma insert_snapshot_tables:
  assumes "insert_snapshot h rh user c sts bns st = Inr (st', sid)" "fks_ok st" "storable c"
  shows "\<exists>ur tr sr br. sid = next_id (st_headers st) \<and>
    grown (st_headers st) [\<lparr>row_id = sid, row_key = (), row_data = header_of h rh user c st\<rparr>] (st_headers st') \<and>
    grown (st_used_rates st) ur (st_used_rates st') \<and>
    list_all2 (rate_stored sid (scope_of c) st') (co_used_rates c) ur \<and>
    grown (st_totals st) tr (st_totals st') \<and> list_all2 (total_stored sid st') (co_totals c) tr \<and>
    grown (st_statuses st) sr (st_statuses st') \<and> map row_data sr = sts \<and>
    (\<forall>r\<in>set sr. row_key r = (sid, scope_of c)) \<and>
    grown (st_bonuses st) br (st_bonuses st') \<and> map row_data br = bns \<and>
    (\<forall>r\<in>set br. row_key r = (sid, scope_of c)) \<and> fks_ok st' \<and>
    (\<forall>s' tot. tot < next_id (st_totals st) \<longrightarrow>
       load_components s' st' tot = load_components s' st tot \<and>
       load_minmax s' st' tot = load_minmax s' st tot \<and> load_lines s' st' tot = load_lines s' st tot) \<and>
    (\<forall>s' u. u < next_id (st_used_rates st) \<longrightarrow> load_rate_values s' st' u = load_rate_values s' st u)"
  using assms(1)
proof (rule insert_snapshotE)
  fix st0 st1 rate_ids st2
  assume sid: "sid = next_id (st_headers st)"
    and st0: "st0 = st\<lparr>st_headers := insert_row () (header_of h rh user c st) (st_headers st)\<rparr>"
    and rates: "insert_used_rates sid (scope_of c) (co_used_rates c) st0 (\<lambda>_. None) = (st1, rate_ids)"
    and totals: "insert_totals sid rate_ids st1 (co_totals c) = Inr st2"
    and st': "st' = st2\<lparr>st_statuses := insert_evidence sid (scope_of c) sts (st_statuses st2),
       st_bonuses := insert_evidence sid (scope_of c) bns (st_bonuses st2)\<rparr>"
  have head: "grown (st_headers st) [\<lparr>row_id = sid, row_key = (), row_data = header_of h rh user c st\<rparr>] (st_headers st0)"
    by (simp add: st0 sid grown_insert_row)
  have lt: "sid < next_id (st_headers st0)" by (simp add: st0 sid next_id_insert_row)
  have ok0: "fks_ok st0"
    using assms(2) lt unfolding fks_ok_def sid by (force simp: st0)
  from assms(3) have nonempty: "\<forall>u\<in>set (co_used_rates c). ud_components u \<noteq> Some []"
    and linked: "(\<Union>t\<in>set (co_totals c). fingerprints t) \<subseteq> ud_fingerprint ` set (co_used_rates c)"
    by (simp_all add: storable_def)
  from insert_used_rates_stored [OF rates ok0 lt nonempty] obtain ur where
    ur: "grown (st_used_rates st0) ur (st_used_rates st1)" "list_all2 (rate_stored sid (scope_of c) st1) (co_used_rates c) ur"
    and ok1: "fks_ok st1"
    and vals: "\<forall>s' u. u < next_id (st_used_rates st0) \<longrightarrow> load_rate_values s' st1 u = load_rate_values s' st0 u"
    and frame: "st_headers st1 = st_headers st0" "st_totals st1 = st_totals st0" "st_evaluations st1 = st_evaluations st0"
      "st_rules st1 = st_rules st0" "st_components st1 = st_components st0" "st_lines st1 = st_lines st0"
      "st_statuses st1 = st_statuses st0" "st_bonuses st1 = st_bonuses st0"
    and old_ids: "\<forall>fp. rate_ids fp = (if fp \<in> ud_fingerprint ` set (co_used_rates c) then rate_ids fp else None)"
    and new_ids: "\<forall>fp\<in>ud_fingerprint ` set (co_used_rates c).
      \<exists>r\<in>set ur. rate_ids fp = Some (row_id r) \<and> ud_fingerprint (row_data r) = fp"
    by blast
  have find: "rate_fingerprint st1 (Some (row_id r)) = Some (ud_fingerprint (row_data r))" if "r \<in> set ur" for r
    using grown_find [OF ur(1) that] by (simp add: rate_fingerprint_def)
  have fps: "fingerprints_ok st1 rate_ids (\<Union>t\<in>set (co_totals c). fingerprints t)"
    unfolding fingerprints_ok_def
  proof
    fix fp assume "fp \<in> (\<Union>t\<in>set (co_totals c). fingerprints t)"
    with linked have "fp \<in> ud_fingerprint ` set (co_used_rates c)" by (rule subsetD)
    with new_ids obtain r where "r \<in> set ur" "rate_ids fp = Some (row_id r)" "ud_fingerprint (row_data r) = fp"
      by blast
    with find show "rate_fingerprint st1 (rate_ids fp) = Some fp" by simp
  qed
  have ids: "rate_ids_ok st1 rate_ids"
    unfolding rate_ids_ok_def
  proof (intro allI impI)
    fix fp i assume i: "rate_ids fp = Some i"
    then have "fp \<in> ud_fingerprint ` set (co_used_rates c)" using old_ids by (metis option.distinct(1))
    then obtain r where "r \<in> set ur" "i = row_id r" using new_ids i by fastforce
    then show "i < next_id (st_used_rates st1)" using ur(1) by (auto simp: grown_def intro: next_id_greater)
  qed
  have lt1: "sid < next_id (st_headers st1)" using lt frame by simp
  from insert_totals_stored [OF ok1 lt1 totals ids fps] obtain tr where
    tr: "grown (st_totals st1) tr (st_totals st2)" "list_all2 (total_stored sid st2) (co_totals c) tr"
    and ok2: "fks_ok st2"
    and loads: "\<forall>s' tot. tot < next_id (st_totals st1) \<longrightarrow>
       load_components s' st2 tot = load_components s' st1 tot \<and>
       load_minmax s' st2 tot = load_minmax s' st1 tot \<and> load_lines s' st2 tot = load_lines s' st1 tot"
    by blast
  note frame2 = insert_totals_frame [OF totals]
  obtain sr where sr: "grown (st_statuses st2) sr (st_statuses st')" "map row_data sr = sts"
    "\<forall>r\<in>set sr. row_key r = (sid, scope_of c)"
    using insert_evidence_grown [of "st_statuses st2" sid "scope_of c" sts] by (auto simp: st')
  obtain br where br: "grown (st_bonuses st2) br (st_bonuses st')" "map row_data br = bns"
    "\<forall>r\<in>set br. row_key r = (sid, scope_of c)"
    using insert_evidence_grown [of "st_bonuses st2" sid "scope_of c" bns] by (auto simp: st')
  have same: "st_headers st' = st_headers st0" "st_used_rates st' = st_used_rates st1"
    "st_totals st' = st_totals st2" "st_rate_values st' = st_rate_values st1"
    using frame frame2 by (simp_all add: st')
  have loads_st': "load_components s' st' = load_components s' st2" "load_minmax s' st' = load_minmax s' st2"
    "load_lines s' st' = load_lines s' st2" for s'
    by (simp_all add: st' fun_eq_iff load_components_def load_minmax_def load_lines_def load_rules_def
        rate_fingerprint_def)
  have vals_st': "load_rate_values s' st' = load_rate_values s' st1" for s'
    using same by (simp add: fun_eq_iff load_rate_values_def)
  have stored': "total_stored sid st' = total_stored sid st2"
    by (simp add: fun_eq_iff total_stored_def loads_st' same)
  have rated': "rate_stored sid (scope_of c) st' = rate_stored sid (scope_of c) st1"
    by (simp add: fun_eq_iff rate_stored_def vals_st')
  have ok': "fks_ok st'"
  proof -
    have lt2: "sid < next_id (st_headers st2)" using lt1 frame2 by simp
    have "\<forall>r\<in>set (st_statuses st'). fst (row_key r) < next_id (st_headers st2)"
      using ok2 sr(1,3) lt2 unfolding fks_ok_def grown_def by force
    moreover have "\<forall>r\<in>set (st_bonuses st'). fst (row_key r) < next_id (st_headers st2)"
      using ok2 br(1,3) lt2 unfolding fks_ok_def grown_def by force
    ultimately show ?thesis using ok2 unfolding fks_ok_def by (simp add: st')
  qed
  have lines0: "load_lines s' st1 tot = load_lines s' st tot" if "tot < next_id (st_totals st)" for s' tot
  proof -
    have "rate_fingerprint st1 x = rate_fingerprint st x"
      if "\<forall>i. x = Some i \<longrightarrow> i < next_id (st_used_rates st)" for x
    proof (cases x)
      case (Some i)
      have app: "find_first p (xs @ ys) = (case find_first p xs of None \<Rightarrow> find_first p ys | Some x \<Rightarrow> Some x)"
        for p and xs ys :: "(int \<times> scope, hashed_rate) row list" by (induction xs) auto
      have "find_first (\<lambda>r. row_id r = i) ur = None"
        using ur(1) that Some by (fastforce simp: find_first_None_iff grown_def st0)
      then show ?thesis
        using ur(1) Some by (auto simp: rate_fingerprint_def grown_def app st0 split: option.splits)
    qed (simp add: rate_fingerprint_def)
    then have "rate_fingerprint st1 (snd (snd (row_key r))) = rate_fingerprint st (snd (snd (row_key r)))"
      if "r \<in> set (st_lines st)" for r
      using that assms(2) unfolding fks_ok_def by blast
    then show ?thesis
      unfolding load_lines_select using frame by (simp add: st0)
  qed
  have old: "load_components s' st' tot = load_components s' st tot \<and>
       load_minmax s' st' tot = load_minmax s' st tot \<and> load_lines s' st' tot = load_lines s' st tot"
    if "tot < next_id (st_totals st)" for s' tot
  proof -
    have "load_components s' st1 tot = load_components s' st tot" "load_minmax s' st1 tot = load_minmax s' st tot"
      using frame by (simp_all add: load_components_def load_minmax_def load_rules_def st0)
    then show ?thesis using loads loads_st' lines0 that frame by (simp add: st0)
  qed
  have old_vals: "load_rate_values s' st' u = load_rate_values s' st u" if "u < next_id (st_used_rates st)" for s' u
    using vals vals_st' that by (simp add: st0 load_rate_values_def)
  show ?thesis
    using sid head same ur rated' tr stored' sr br ok' old old_vals frame frame2
    by (intro exI [of _ ur] exI [of _ tr] exI [of _ sr] exI [of _ br]) (simp add: st0)
qed

lemma map_truncate_components [simp]: "map snapshot_component.truncate (cs :: snapshot_component list) = cs"
  by (simp add: map_idI)

lemma total_form_loaded:
  assumes "total_stored s st t r"
  shows "total_form (snapshot_total.extend (row_data r)
     (total_content.fields (load_components s st (row_id r)) (load_minmax s st (row_id r)) (load_lines s st (row_id r))))
     = total_form t"
  using assms
  by (simp add: total_stored_def total_form_def snapshot_total.defs total_content.defs)

lemma rate_view_loaded:
  assumes "rate_stored s sc st u r"
  shows "rate_view (hashed_rate.extend ((row_data r)\<lparr>ud_components := load_rate_values s st (row_id r)\<rparr>)
     (loaded_rate.fields (snd (row_key r)))) = rate_view u"
  using assms
  by (cases "ud_components u")
     (simp_all add: rate_stored_def rate_view_def hashed_rate.defs used_rate.defs sort_key_id_if_sorted)

lemma load_new_totals:
  assumes "grown (st_totals st) tr (st_totals st')" "\<forall>r\<in>set (st_totals st). row_key r \<noteq> s"
    and "list_all2 (total_stored s st') ts tr" "sorted (map to_assignment_id ts)"
  shows "map total_form (load_totals s st') = map total_form ts"
proof -
  have keys: "\<forall>r\<in>set tr. row_key r = s"
    using assms(3) by (auto simp: total_stored_def elim: list_all2_memberE)
  have "filter (\<lambda>r. row_key r = s) (st_totals st') = tr"
    using assms(1,2) keys by (auto simp: grown_def filter_empty_conv filter_id_conv)
  moreover have "map (to_assignment_id \<circ> row_data) tr = map to_assignment_id ts"
    using assms(3) by (intro list_all2_map_eq) (auto simp: total_stored_def elim!: list.rel_mono_strong)
  then have "sort_key (to_assignment_id \<circ> row_data) tr = tr"
    using assms(4) by (intro sort_key_id_if_sorted) simp
  moreover have "map (\<lambda>r. total_form (snapshot_total.extend (row_data r)
     (total_content.fields (load_components s st' (row_id r)) (load_minmax s st' (row_id r)) (load_lines s st' (row_id r))))) tr
     = map total_form ts"
    using assms(3) by (intro list_all2_map_eq) (auto simp: total_form_loaded elim!: list.rel_mono_strong)
  ultimately show ?thesis by (simp add: load_totals_def comp_def)
qed

lemma load_new_rates:
  assumes "grown (st_used_rates st) ur (st_used_rates st')" "\<forall>r\<in>set (st_used_rates st). fst (row_key r) \<noteq> s"
    and "list_all2 (rate_stored s sc st') us ur"
  shows "map rate_view (load_used_rates s st') = map rate_view us"
    and "\<forall>u\<in>set (load_used_rates s st'). lr_scope u = sc"
proof -
  have keys: "\<forall>r\<in>set ur. row_key r = (s, sc)"
    using assms(3) by (auto simp: rate_stored_def elim: list_all2_memberE)
  then have sel: "sort_key row_id (filter (\<lambda>r. fst (row_key r) = s) (st_used_rates st')) = ur"
    using assms(2) by (intro select_new [OF assms(1)]) auto
  have "map (\<lambda>r. rate_view (hashed_rate.extend ((row_data r)\<lparr>ud_components := load_rate_values s st' (row_id r)\<rparr>)
     (loaded_rate.fields (snd (row_key r))))) ur = map rate_view us"
    using assms(3) by (intro list_all2_map_eq) (auto simp: rate_view_loaded elim!: list.rel_mono_strong)
  then show "map rate_view (load_used_rates s st') = map rate_view us"
    by (simp add: load_used_rates_def sel comp_def)
  show "\<forall>u\<in>set (load_used_rates s st'). lr_scope u = sc"
    using keys by (auto simp: load_used_rates_def sel hashed_rate.defs loaded_rate.defs)
qed

lemma find_grown_single:
  "grown rows [r] rows' \<Longrightarrow> find_first (\<lambda>x. row_id x = row_id r) rows' = Some r"
  by (rule grown_find [of rows "[r]"]) simp_all

theorem insert_snapshot_loads:
  assumes "insert_snapshot h rh user c sts bns st = Inr (st', sid)" "fks_ok st" "storable c"
  shows "\<exists>lo. load_snapshot_content sid (Some (sh_company_id c)) (Some (sh_branch_id c)) (Some (sh_period_id c)) st' = Inr lo \<and>
    stored_form lo = stored_form c \<and> lo_snapshot_id lo = sid \<and> lo_snapshot_hash lo = h \<and>
    lo_report_hash lo = rh \<and> lo_report_version lo = current_report_evidence_version \<and>
    lo_revision lo = next_revision (sh_period_id c) st \<and> lo_created_by lo = user \<and>
    map status_evidence.truncate (lo_statuses lo) =
      sort_key (\<lambda>e. (sv_assignment_id e, sv_work_date e, sv_entry_state_id e)) sts \<and>
    map bonus_evidence.truncate (lo_bonuses lo) = sort_key (\<lambda>e. (bv_assignment_id e, bv_event_id e)) bns"
proof -
  from insert_snapshot_tables [OF assms] obtain ur tr sr br where
    sid: "sid = next_id (st_headers st)"
    and head: "grown (st_headers st) [\<lparr>row_id = sid, row_key = (), row_data = header_of h rh user c st\<rparr>] (st_headers st')"
    and ur: "grown (st_used_rates st) ur (st_used_rates st')" "list_all2 (rate_stored sid (scope_of c) st') (co_used_rates c) ur"
    and tr: "grown (st_totals st) tr (st_totals st')" "list_all2 (total_stored sid st') (co_totals c) tr"
    and sr: "grown (st_statuses st) sr (st_statuses st')" "map row_data sr = sts" "\<forall>r\<in>set sr. row_key r = (sid, scope_of c)"
    and br: "grown (st_bonuses st) br (st_bonuses st')" "map row_data br = bns" "\<forall>r\<in>set br. row_key r = (sid, scope_of c)"
    by blast
  have fresh: "\<forall>r\<in>set (st_totals st). row_key r \<noteq> sid" "\<forall>r\<in>set (st_used_rates st). fst (row_key r) \<noteq> sid"
    "\<forall>r\<in>set (st_statuses st). fst (row_key r) \<noteq> sid" "\<forall>r\<in>set (st_bonuses st). fst (row_key r) \<noteq> sid"
    using assms(2) unfolding fks_ok_def sid by force+
  have statuses: "filter (\<lambda>r. fst (row_key r) = sid) (st_statuses st') = sr"
    using sr(1,3) fresh(3) by (auto simp: grown_def filter_empty_conv filter_id_conv)
  have bonuses: "filter (\<lambda>r. fst (row_key r) = sid) (st_bonuses st') = br"
    using br(1,3) fresh(4) by (auto simp: grown_def filter_empty_conv filter_id_conv)
  have ls: "map status_evidence.truncate (load_statuses sid st') =
      sort_key (\<lambda>e. (sv_assignment_id e, sv_work_date e, sv_entry_state_id e)) sts"
    by (simp add: load_statuses_def statuses comp_def sr(2) [symmetric] sort_key_map status_evidence.defs)
  have lb: "map bonus_evidence.truncate (load_bonuses sid st') = sort_key (\<lambda>e. (bv_assignment_id e, bv_event_id e)) bns"
    by (simp add: load_bonuses_def bonuses comp_def br(2) [symmetric] sort_key_map bonus_evidence.defs)
  have lt: "map total_form (load_totals sid st') = map total_form (co_totals c)"
    using assms(3) by (intro load_new_totals [OF tr(1) fresh(1) tr(2)]) (simp add: storable_def)
  note lu = load_new_rates(1) [OF ur(1) fresh(2) ur(2)]
  note find = find_grown_single [OF head, simplified]
  have version: "sh_calculation_version c = current_calculation_version"
    using assms(3) by (simp add: storable_def)
  show ?thesis
    using ls lb lt lu version
    by (simp add: load_snapshot_content_def find in_scope_def header_of_def stored_form_def
        snapshot_header.defs header_data.defs snapshot_content.defs loaded_content.defs)
qed

text \<open>Every other snapshot loads as before.\<close>

theorem insert_snapshot_keeps:
  assumes "insert_snapshot h rh user c sts bns st = Inr (st', sid)" "fks_ok st" "storable c" "s \<noteq> sid"
  shows "load_snapshot_content s company branch period st' = load_snapshot_content s company branch period st"
    and "fks_ok st'"
proof -
  from insert_snapshot_tables [OF assms(1-3)] obtain ur tr sr br where
    head: "grown (st_headers st) [\<lparr>row_id = sid, row_key = (), row_data = header_of h rh user c st\<rparr>] (st_headers st')"
    and ur: "grown (st_used_rates st) ur (st_used_rates st')" "list_all2 (rate_stored sid (scope_of c) st') (co_used_rates c) ur"
    and tr: "grown (st_totals st) tr (st_totals st')" "list_all2 (total_stored sid st') (co_totals c) tr"
    and sr: "grown (st_statuses st) sr (st_statuses st')" "\<forall>r\<in>set sr. row_key r = (sid, scope_of c)"
    and br: "grown (st_bonuses st) br (st_bonuses st')" "\<forall>r\<in>set br. row_key r = (sid, scope_of c)"
    and ok: "fks_ok st'"
    and loads: "\<forall>s' tot. tot < next_id (st_totals st) \<longrightarrow>
       load_components s' st' tot = load_components s' st tot \<and>
       load_minmax s' st' tot = load_minmax s' st tot \<and> load_lines s' st' tot = load_lines s' st tot"
    and vals: "\<forall>s' u. u < next_id (st_used_rates st) \<longrightarrow> load_rate_values s' st' u = load_rate_values s' st u"
    by blast
  show "fks_ok st'" by (rule ok)
  have tr_keys: "\<forall>r\<in>set tr. row_key r \<noteq> s"
    using tr(2) assms(4) by (auto simp: total_stored_def elim: list_all2_memberE)
  have ur_keys: "\<forall>r\<in>set ur. fst (row_key r) \<noteq> s"
    using ur(2) assms(4) by (auto simp: rate_stored_def elim: list_all2_memberE)
  have "load_totals s st' = load_totals s st"
    using select_old [OF tr(1) tr_keys] loads next_id_greater [of _ "st_totals st"]
    by (auto simp: load_totals_def intro!: map_cong)
  moreover have "load_used_rates s st' = load_used_rates s st"
    using select_old [OF ur(1) ur_keys] vals next_id_greater [of _ "st_used_rates st"]
    by (auto simp: load_used_rates_def intro!: map_cong)
  moreover have "load_statuses s st' = load_statuses s st"
    using sr assms(4) by (simp add: load_statuses_def) (subst select_old [OF sr(1)], auto)
  moreover have "load_bonuses s st' = load_bonuses s st"
    using br assms(4) by (simp add: load_bonuses_def) (subst select_old [OF br(1)], auto)
  moreover have "find_first (\<lambda>r. row_id r = s) (st_headers st') = find_first (\<lambda>r. row_id r = s) (st_headers st)"
  proof -
    have "find_first p (xs @ [x]) = find_first p xs" if "\<not> p x" for p x and xs :: "(unit, header_data) row list"
      using that by (induction xs) auto
    then show ?thesis using head assms(4) by (simp add: grown_def)
  qed
  ultimately show "load_snapshot_content s company branch period st' = load_snapshot_content s company branch period st"
    unfolding load_snapshot_content_def by (simp only:)
qed

end
