(* ===== verification/Snapshot_Capture.thy ===== *)
theory Snapshot_Capture
  imports Snapshot_Verification Store_Facts
begin

text \<open>
  The snapshot writer (\<open>payroll/calculation_snapshot.py\<close>, \<open>_load_report_evidence\<close> and
  \<open>_capture_calculation_snapshot\<close>): its guards, the report evidence it reads in the same
  transaction, the source packet it hashes, the rows it inserts and the verification of what it
  inserted.  An instant is printed as its number.
\<close>

record period_summary = period_row +
  ps_code :: string
  ps_type :: string

section \<open>Report evidence\<close>

definition load_status_evidence :: "'b period_row_scheme \<Rightarrow> int \<Rightarrow> 'a payroll_db_scheme \<Rightarrow> status_evidence list" where
  "load_status_evidence period company_id db =
     sort_key (\<lambda>e. (sv_assignment_id e, sv_work_date e, sv_entry_state_id e))
       [\<lparr>sv_entry_state_id = es_id es, sv_assignment_id = es_assignment_id es,
         sv_driver_id = asg_driver_id a, sv_work_date = es_work_date es, sv_status_key_id = sk_id sk,
         sv_code = sk_code sk, sv_label = sk_name sk, sv_is_off_reason = sk_is_off_reason sk,
         sv_hours = sk_hours_value sk, sv_category = sk_category sk\<rparr>.
        es \<leftarrow> entry_states db, sk \<leftarrow> status_keys db, a \<leftarrow> assignments db,
        es_status_key_id es = Some (sk_id sk) \<and> asg_id a = es_assignment_id es \<and>
        es_period_id es = pp_id period \<and> es_company_id es = company_id \<and>
        es_branch_id es = pp_branch_id period \<and> \<not> es_is_voided es \<and>
        pp_start period \<le> es_work_date es \<and> es_work_date es \<le> pp_end period]"

definition creator_name :: "'a payroll_db_scheme \<Rightarrow> bonus_row \<Rightarrow> string option" where
  "creator_name db b =
     map_option us_display_name
       (find_first (\<lambda>u. Some (us_id u) = be_created_by b) (users db))"

definition bonus_evidence_of ::
  "'a payroll_db_scheme \<Rightarrow> company_currency \<Rightarrow> bonus_row \<times> int option \<Rightarrow> bonus_evidence result" where
  "bonus_evidence_of db currency = (\<lambda>(b, driver).
     case driver of
       None \<Rightarrow> Inl (TypeError ''int(None)'')
     | Some d \<Rightarrow> Inr
         \<lparr>bv_event_id = be_id b, bv_assignment_id = be_assignment_id b, bv_driver_id = d,
          bv_amount = be_amount b, bv_currency_code = cur_code currency,
          bv_currency_digits = minor_unit_digits currency, bv_reason = be_reason b,
          bv_notes = be_notes b, bv_data_revision = be_data_revision b,
          bv_created_by = be_created_by b, bv_creator_name = creator_name db b,
          bv_created_at = be_created_at b\<rparr>)"

definition packet_bonus_lines :: "live_packet \<Rightarrow> (int \<times> int \<times> decimal option) list" where
  "packet_bonus_lines packet =
     [(e, pl_assignment_id l, line_amount l). dt \<leftarrow> pk_drivers packet, l \<leftarrow> dt_lines dt,
        pl_source_type l = ''BonusEvent'', e \<leftarrow> (case pl_bonus_event_id l of None \<Rightarrow> [] | Some i \<Rightarrow> [i])]"

text \<open>Two sorted lists of tuples are equal exactly when the lists have the same elements as often.\<close>

definition bonus_evidence_reconciles :: "live_packet \<Rightarrow> bonus_evidence list \<Rightarrow> bool" where
  "bonus_evidence_reconciles packet bonuses \<longleftrightarrow>
     mset (packet_bonus_lines packet) =
     mset (map (\<lambda>e. (bv_event_id e, bv_assignment_id e, Some (bv_amount e))) bonuses)"

section \<open>The source packet\<close>

definition eligibility_value :: "'a payroll_db_scheme \<Rightarrow> eligibility_row \<Rightarrow> py_value" where
  "eligibility_value db el = PyDict
     [(''driverassignmentid'', PyInt (el_assignment_id el)),
      (''driverid'', opt_value (PyInt \<circ> asg_driver_id)
         (find_first (\<lambda>a. asg_id a = el_assignment_id el) (assignments db))),
      (''iseligibleforperiod'', PyBool (el_is_eligible el)),
      (''eligibilityreasoncode'', PyStr (el_reason el)),
      (''hiredatesnapshot'', opt_value PyDate (el_hire_date el)),
      (''terminationdatesnapshot'', opt_value PyDate (el_termination_date el)),
      (''drivereffectivefromatsnapshot'', PyInstant (show_int (el_effective_from_at el))),
      (''drivereffectivetoatsnapshot'', opt_value (PyInstant \<circ> show_int) (el_effective_to_at el)),
      (''branchtimezoneidsnapshot'', PyStr (el_time_zone el)),
      (''eligibleworkdates'', PyList (map PyDate (el_dates el))),
      (''drivernumbersnapshot'', PyStr (el_driver_number el)),
      (''drivernamesnapshot'', PyStr (el_driver_name el))]"

definition source_line_value :: "line_content \<Rightarrow> py_value" where
  "source_line_value l = PyDict
     [(''SourceType'', PyStr (sl_source_type l)), (''SourceID'', PyStr (sl_source_id l)),
      (''LineScope'', PyStr (sl_line_scope l)), (''WorkDate'', opt_value PyDate (sl_work_date l)),
      (''Quantity'', opt_value PyDecimal (sl_quantity l)),
      (''PayrollPeriodDefinitionID'', opt_value PyInt (sl_period_definition_id l)),
      (''PayDefinitionID'', opt_value PyInt (sl_pay_definition_id l)),
      (''RateDefinitionID'', opt_value PyInt (sl_rate_definition_id l)),
      (''DriverRateScheduleID'', opt_value PyInt (sl_schedule_id l)),
      (''StatusRateColumnID'', opt_value PyInt (sl_rate_column_id l)),
      (''BonusEventID'', opt_value PyInt (sl_bonus_event_id l)),
      (''ResolvedRateAmount'', opt_value PyDecimal (sl_resolved_rate l)),
      (''SourceEvidenceJSONB'', PyJson (sl_evidence l))]"

definition source_driver_value :: "driver_total \<Rightarrow> py_value result" where
  "source_driver_value dt =
     map_r (\<lambda>ls. PyDict
       [(''DriverAssignmentID'', PyInt (dt_assignment_id dt)), (''DriverID'', PyInt (dt_driver_id dt)),
        (''EmployeeID'', PyInt (dt_employee_id dt)), (''Lines'', PyList (map source_line_value ls))])
       (mapM line_content (persisted_lines dt))"

definition source_config_hash ::
  "(json \<Rightarrow> string) \<Rightarrow> 'b period_summary_scheme \<Rightarrow> int \<Rightarrow> company_currency \<Rightarrow> live_packet \<Rightarrow> 'a payroll_db_scheme
   \<Rightarrow> string result" where
  "source_config_hash digest period company_id currency packet db =
     (let rows = sort_key el_assignment_id (filter (\<lambda>el. el_period_id el = pp_id period \<and>
            el_company_id el = company_id \<and> el_branch_id el = pp_branch_id period) (eligibility db))
      in bind_r (mapM source_driver_value (pk_drivers packet)) (\<lambda>sources.
         sha256_hex digest (PyDict
          [(''PacketContract'', PyStr ''payroll-source-config-v2''),
           (''CompanyCurrency'', PyDict [(''CurrencyCode'', PyStr (cur_code currency)),
              (''CurrencyMinorUnitDigits'', PyInt (minor_unit_digits currency))]),
           (''PayrollPeriod'', PyDict [(''PayrollPeriodID'', PyInt (pp_id period)),
              (''CompanyID'', PyInt company_id), (''BranchID'', PyInt (pp_branch_id period)),
              (''PeriodCode'', PyStr (ps_code period)), (''PeriodType'', PyStr (ps_type period)),
              (''StartDate'', PyDate (pp_start period)), (''EndDate'', PyDate (pp_end period))]),
           (''ScheduledWorkDates'', PyList (map PyDate (pk_scheduled_dates packet))),
           (''Eligibility'', PyList (map (eligibility_value db) rows)),
           (''Sources'', PyList sources)])))"

section \<open>Capture\<close>

definition packet_unresolved :: "live_packet \<Rightarrow> bool" where
  "packet_unresolved packet \<longleftrightarrow>
     (\<exists>dt\<in>set (pk_drivers packet). \<exists>l\<in>set (persisted_lines dt). line_amount l = None)"

text \<open>The content that is hashed and stored, with its used rates.\<close>

definition capture_content ::
  "(json \<Rightarrow> string) \<Rightarrow> 'b period_summary_scheme \<Rightarrow> int \<Rightarrow> live_packet \<Rightarrow> company_currency \<Rightarrow> 'a payroll_db_scheme
   \<Rightarrow> (snapshot_component, line_content, hashed_rate) snapshot_content result" where
  "capture_content digest period company_id packet currency db =
     bind_r (source_config_hash digest period company_id currency packet db) (\<lambda>sch.
     bind_r (build_snapshot_content period company_id packet currency sch) (\<lambda>c.
     with_used_rates digest currency c))"

definition capture_calculation_snapshot ::
  "(json \<Rightarrow> string) \<Rightarrow> 'b period_summary_scheme \<Rightarrow> int \<Rightarrow> int \<Rightarrow> live_packet \<Rightarrow> company_currency
   \<Rightarrow> 'a payroll_db_scheme \<Rightarrow> snapshot_store \<Rightarrow> (snapshot_store \<times> int) result" where
  "capture_calculation_snapshot digest period company_id user packet currency db st =
     bind_r (guard_r (pk_blockers packet = [])
       (HttpError 422 ''Cannot submit an incomplete calculation packet'')) (\<lambda>_.
     bind_r (guard_r (\<not> packet_unresolved packet)
       (HttpError 422 ''Cannot submit: an authoritative calculation line is unresolved.'')) (\<lambda>_.
     bind_r (guard_r (pk_currency packet = Some currency)
       (HttpError 409 ''SNAPSHOT_CURRENCY_MISMATCH'')) (\<lambda>_.
     bind_r (mapM (bonus_evidence_of db currency)
         (load_active_bonus_events (pp_id period) company_id db)) (\<lambda>bonuses.
     bind_r (guard_r (bonus_evidence_reconciles packet bonuses)
       (HttpError 422 ''Cannot submit: captured Bonus evidence does not reconcile'')) (\<lambda>_.
     let statuses = load_status_evidence period company_id db in
     bind_r (calculate_report_evidence_hash digest statuses bonuses) (\<lambda>report_hash.
     bind_r (capture_content digest period company_id packet currency db) (\<lambda>c.
     bind_r (calculate_snapshot_hash digest c) (\<lambda>h.
     bind_r (insert_snapshot h report_hash user c statuses bonuses st) (\<lambda>(st', snapshot).
       case verify_snapshot digest snapshot (Some company_id) (Some (pp_branch_id period))
              (Some (pp_id period)) st' of
         Inl (IntegrityError _) \<Rightarrow> Inl (HttpError 500 ''SNAPSHOT_WRITE_VERIFICATION_FAILED'')
       | Inl e \<Rightarrow> Inl e
       | Inr _ \<Rightarrow> Inr (st', snapshot))))))))))"

end
