(* ===== verification/Final_Lines.thy ===== *)
theory Final_Lines
  imports Snapshot_Verification
begin

text \<open>
  The FinalLines projection of a verified snapshot (\<open>payroll/final_line_projection.py\<close>): one line
  per official component, the fields finalization writes, and the check of the persisted lines
  against the projection.  The table of FinalLines is a list of rows whose key is the user who
  approved them; a provenance document is a \<open>json\<close> value.
\<close>

section \<open>Vocabulary\<close>

definition ledger_line_types :: "(string \<times> string) list" where
  "ledger_line_types =
     [(''ORDINARY'', ''ORDINARY''), (''STATUS'', ''STATUS_PAY''), (''BONUS'', ''BONUS''),
      (''MINIMUM_ADJUSTMENT'', ''SYS_MIN_TOPUP''), (''MAXIMUM_ADJUSTMENT'', ''SYS_MAX_CAP'')]"

fun index_of :: "'a \<Rightarrow> 'a list \<Rightarrow> nat option" where
  "index_of x [] = None"
| "index_of x (y # ys) = (if x = y then Some 0 else map_option Suc (index_of x ys))"

definition kind_order :: "string \<Rightarrow> nat option" where
  "kind_order kind = index_of kind (map fst ledger_line_types)"

definition source_type_by_kind :: "string \<Rightarrow> string option" where
  "source_type_by_kind =
     map_of [(''ORDINARY'', ''DraftLine''), (''STATUS'', ''StatusEntryState''), (''BONUS'', ''BonusEvent'')]"

section \<open>The projection\<close>

record projected_line =
  fr_component_id :: int
  fr_component_kind :: string
  fr_line_type :: string
  fr_assignment_id :: int
  fr_driver_id :: int
  fr_employee_id :: int
  fr_driver_name :: string
  fr_driver_number :: string
  fr_period_definition_id :: "int option"
  fr_pay_definition_id :: "int option"
  fr_label :: "string option"
  fr_pre_rounding :: decimal
  fr_amount :: decimal
  fr_source_ids :: "string list"
  fr_source_snapshot :: json

definition component_label :: "'a snapshot_component_scheme \<Rightarrow> string option" where
  "component_label c =
     (if sc_kind c = ''ORDINARY'' then sc_name c
      else if sc_kind c = ''STATUS'' then sc_status_column_name c
      else None)"

definition source_ids :: "loaded_total \<Rightarrow> loaded_component \<Rightarrow> string list" where
  "source_ids t c = map sl_source_id (lines_of t (lcm_id c))"

abbreviation json_opt :: "('a \<Rightarrow> json) \<Rightarrow> 'a option \<Rightarrow> json" where
  "json_opt f x \<equiv> (case x of None \<Rightarrow> JNull | Some a \<Rightarrow> f a)"

text \<open>The text of a value read from a NUMERIC(18,4) column.\<close>

definition numeric_text :: "decimal \<Rightarrow> string" where
  "numeric_text x =
     (let n = nat \<lfloor>\<bar>x\<bar> * 10000\<rfloor>
      in (if x < 0 then ''-'' else []) @ show_nat (n div 10000) @ ''.'' @ zero_pad 4 (show_nat (n mod 10000)))"

definition source_snapshot :: "loaded_content \<Rightarrow> loaded_total \<Rightarrow> loaded_component \<Rightarrow> json" where
  "source_snapshot c t co = JObj
     [(''payroll_calculation_snapshot_id'', JInt (lo_snapshot_id c)),
      (''revision_number'', JInt (lo_revision c)), (''snapshot_hash'', JStr (lo_snapshot_hash c)),
      (''currency_code'', JStr (sh_currency_code c)),
      (''currency_minor_unit_digits'', JInt (sh_currency_digits c)),
      (''snapshot_component_id'', JInt (lcm_id co)), (''component_kind'', JStr (sc_kind co)),
      (''payroll_period_definition_id'', json_opt JInt (sc_period_definition_id co)),
      (''pay_definition_id'', json_opt JInt (sc_pay_definition_id co)),
      (''status_rate_column_id'', json_opt JInt (sc_status_column_id co)),
      (''driver_pay_rule_id'', json_opt JInt (sc_rule_id co)),
      (''pre_rounding_amount'', JStr (numeric_text (sc_pre_rounding co))),
      (''source_type'', json_opt JStr (source_type_by_kind (sc_kind co))),
      (''source_ids'', JList (map JStr (source_ids t co)))]"

definition projected_line :: "loaded_content \<Rightarrow> loaded_total \<Rightarrow> string \<Rightarrow> loaded_component \<Rightarrow> projected_line" where
  "projected_line c t line_type co =
     \<lparr>fr_component_id = lcm_id co, fr_component_kind = sc_kind co, fr_line_type = line_type,
      fr_assignment_id = to_assignment_id t, fr_driver_id = to_driver_id t,
      fr_employee_id = to_employee_id t, fr_driver_name = to_driver_name t,
      fr_driver_number = to_driver_number t,
      fr_period_definition_id = sc_period_definition_id co,
      fr_pay_definition_id = sc_pay_definition_id co, fr_label = component_label co,
      fr_pre_rounding = sc_pre_rounding co, fr_amount = sc_official co,
      fr_source_ids = source_ids t co, fr_source_snapshot = source_snapshot c t co\<rparr>"

text \<open>The sort looks every kind up before it orders anything.\<close>

definition projection_key :: "loaded_component \<Rightarrow> (nat \<times> int \<times> int \<times> int) result" where
  "projection_key c =
     (case kind_order (sc_kind c) of
        None \<Rightarrow> Inl KeyError
      | Some i \<Rightarrow> Inr (i, or_zero (sc_period_definition_id c), or_zero (sc_status_column_id c),
          or_zero (sc_rule_id c)))"

definition project_component :: "loaded_content \<Rightarrow> loaded_total \<Rightarrow> loaded_component \<Rightarrow> projected_line result" where
  "project_component c t co =
     (case map_of ledger_line_types (sc_kind co) of
        None \<Rightarrow> Inl KeyError
      | Some line_type \<Rightarrow> Inr (projected_line c t line_type co))"

definition project_total :: "loaded_content \<Rightarrow> loaded_total \<Rightarrow> projected_line list result" where
  "project_total c t =
     bind_r (mapM (\<lambda>co. map_r (\<lambda>k. (k, co)) (projection_key co)) (to_components t)) (\<lambda>keyed.
     mapM (project_component c t) (map snd (sort_key fst keyed)))"

definition project_final_lines :: "loaded_content \<Rightarrow> projected_line list result" where
  "project_final_lines c = map_r concat (mapM (project_total c) (co_totals c))"

section \<open>The persisted lines\<close>

record final_line =
  fl_company_id :: int
  fl_branch_id :: int
  fl_period_id :: int
  fl_assignment_id :: int
  fl_driver_id :: int
  fl_employee_id :: int
  fl_component_kind :: string
  fl_line_type :: string
  fl_line_scope :: string
  fl_source_type :: string
  fl_source_id :: string
  fl_snapshot_id :: int
  fl_component_id :: int
  fl_period_definition_id :: "int option"
  fl_pay_definition_id :: "int option"
  fl_amount :: decimal
  fl_currency_code :: string
  fl_currency_digits :: int
  fl_source_snapshot :: json

type_synonym final_ledger = "(int, final_line) row list"

text \<open>The row \<open>_project_approved_snapshot_final_lines\<close> inserts.\<close>

definition inserted_final_line ::
  "loaded_content \<Rightarrow> int \<Rightarrow> int \<Rightarrow> int \<Rightarrow> projected_line \<Rightarrow> final_line" where
  "inserted_final_line c company branch period r =
     \<lparr>fl_company_id = company, fl_branch_id = branch, fl_period_id = period,
      fl_assignment_id = fr_assignment_id r, fl_driver_id = fr_driver_id r,
      fl_employee_id = fr_employee_id r, fl_component_kind = fr_component_kind r,
      fl_line_type = fr_line_type r, fl_line_scope = ''Period'',
      fl_source_type = ''SnapshotComponent'', fl_source_id = show_int (fr_component_id r),
      fl_snapshot_id = lo_snapshot_id c, fl_component_id = fr_component_id r,
      fl_period_definition_id = fr_period_definition_id r,
      fl_pay_definition_id = fr_pay_definition_id r, fl_amount = fr_amount r,
      fl_currency_code = sh_currency_code c, fl_currency_digits = sh_currency_digits c,
      fl_source_snapshot = fr_source_snapshot r\<rparr>"

definition insert_final_lines ::
  "int \<Rightarrow> loaded_content \<Rightarrow> int \<Rightarrow> int \<Rightarrow> int \<Rightarrow> projected_line list \<Rightarrow> final_ledger \<Rightarrow> final_ledger" where
  "insert_final_lines approved_by c company branch period rows ledger =
     foldl (\<lambda>ledger r. insert_row approved_by (inserted_final_line c company branch period r) ledger)
       ledger rows"

text \<open>\<open>_expected_columns\<close>.\<close>

definition expected_columns :: "loaded_content \<Rightarrow> projected_line \<Rightarrow> final_line" where
  "expected_columns c r =
     \<lparr>fl_company_id = sh_company_id c, fl_branch_id = sh_branch_id c, fl_period_id = sh_period_id c,
      fl_assignment_id = fr_assignment_id r, fl_driver_id = fr_driver_id r,
      fl_employee_id = fr_employee_id r, fl_component_kind = fr_component_kind r,
      fl_line_type = fr_line_type r, fl_line_scope = ''Period'',
      fl_source_type = ''SnapshotComponent'', fl_source_id = show_int (fr_component_id r),
      fl_snapshot_id = lo_snapshot_id c, fl_component_id = fr_component_id r,
      fl_period_definition_id = fr_period_definition_id r,
      fl_pay_definition_id = fr_pay_definition_id r, fl_amount = fr_amount r,
      fl_currency_code = sh_currency_code c, fl_currency_digits = sh_currency_digits c,
      fl_source_snapshot = fr_source_snapshot r\<rparr>"

text \<open>All columns equal, the provenance document under strict JSON typing.\<close>

definition columns_match :: "final_line \<Rightarrow> final_line \<Rightarrow> bool" where
  "columns_match persisted expected \<longleftrightarrow>
     persisted\<lparr>fl_source_snapshot := JNull\<rparr> = expected\<lparr>fl_source_snapshot := JNull\<rparr> \<and>
     strict_json_equal (fl_source_snapshot persisted) (fl_source_snapshot expected)"

definition final_lines_of :: "int \<Rightarrow> int \<Rightarrow> final_ledger \<Rightarrow> (int, final_line) row list" where
  "final_lines_of company period ledger =
     sort_key row_id (filter (\<lambda>r. fl_period_id (row_data r) = period \<and>
       fl_company_id (row_data r) = company) ledger)"

definition final_lines_error :: py_error where
  "final_lines_error = evidence_error ''FINAL_LINES_INTEGRITY_ERROR''"

definition verify_final_lines :: "loaded_content \<Rightarrow> final_ledger \<Rightarrow> (int, final_line) row list result" where
  "verify_final_lines c ledger =
     (let rows = final_lines_of (sh_company_id c) (sh_period_id c) ledger;
          persisted = dict_of (map (\<lambda>r. (fl_component_id (row_data r), row_data r)) rows)
      in bind_r (project_final_lines c) (\<lambda>projection.
         let expected = dict_of (map (\<lambda>r. (fr_component_id r, r)) projection);
             ids = remdups (map fr_component_id projection)
         in if set (map (fl_component_id \<circ> row_data) rows) \<noteq> set ids \<or>
               \<not> distinct (map (fl_component_id \<circ> row_data) rows)
            then Inl final_lines_error
            else if \<forall>i\<in>set ids. case (persisted i, expected i) of
                   (Some line, Some r) \<Rightarrow> columns_match line (expected_columns c r)
                 | _ \<Rightarrow> False
            then Inr rows
            else Inl final_lines_error))"

end
