(* ===== verification/Workflow.thy ===== *)
theory Workflow
  imports Access Snapshot_Capture Final_Lines
begin

text \<open>
  The state the period workflow works on, and the reads and writes its handlers share: the period
  read (\<open>payroll/period_read.py\<close>), status updates under the partial unique indexes of
  \<open>payroll.PayrollPeriods\<close>, and the participant evidence of \<open>payroll/immutable_evidence.py\<close>.

  A request is one transaction: a handler maps the state to a new state or to an error, and an
  error leaves the state as it was.  Requests of one Branch are serialized by the advisory lock
  every handler takes (\<open>payroll/workflow_lock.py\<close>), so a run is a sequence of handlers.  The
  columns of a period that only the workflow writes are kept by period id.
\<close>

section \<open>State\<close>

record period_columns =
  pc_code :: string
  pc_type :: string
  pc_notes :: "string option"
  pc_submitted_at :: "int option"
  pc_return_item :: "int option"
  pc_approved_by :: "int option"
  pc_approved_at :: "int option"
  pc_locked_by :: "int option"
  pc_locked_at :: "int option"

record review_item =
  ri_id :: int
  ri_company_id :: int
  ri_branch_id :: int
  ri_requested_by :: int
  ri_request_type :: string
  ri_entity_schema :: "string option"
  ri_entity_name :: "string option"
  ri_entity_id :: "string option"
  ri_status :: string
  ri_snapshot_id :: "int option"
  ri_decided_by :: "int option"
  ri_decided_at :: "int option"
  ri_reason :: "string option"

record review_decision =
  rd_id :: int
  rd_item_id :: int
  rd_user_id :: int
  rd_decision :: string
  rd_reason :: "string option"

record action_evidence =
  ae_company_id :: int
  ae_branch_id :: int
  ae_period_id :: int
  ae_snapshot_id :: "int option"
  ae_item_id :: "int option"
  ae_decision_id :: "int option"
  ae_action :: string
  ae_user_id :: int
  ae_display_name :: string
  ae_permission :: string
  ae_roles :: "(string \<times> string \<times> string \<times> string) list"
  ae_override :: bool
  ae_reason :: "string option"

record workflow_state =
  ws_db :: payroll_db
  ws_columns :: "int \<Rightarrow> period_columns"
  ws_access :: access_tables
  ws_store :: snapshot_store
  ws_items :: "review_item list"
  ws_decisions :: "review_decision list"
  ws_ledger :: final_ledger
  ws_actions :: "action_evidence list"

section \<open>Reading a period\<close>

definition summary_of :: "workflow_state \<Rightarrow> period_row \<Rightarrow> period_summary" where
  "summary_of ws p = period_row.extend p
     (period_summary.fields (pc_code (ws_columns ws (pp_id p))) (pc_type (ws_columns ws (pp_id p))))"

definition find_period :: "int \<Rightarrow> int \<Rightarrow> workflow_state \<Rightarrow> period_row option" where
  "find_period company_id period_id ws =
     find_first (\<lambda>p. pp_id p = period_id \<and> pp_company_id p = company_id) (periods (ws_db ws))"

definition get_period_by_id :: "int \<Rightarrow> int \<Rightarrow> int \<Rightarrow> workflow_state \<Rightarrow> period_summary result" where
  "get_period_by_id company_id user_id period_id ws =
     bind_r (require_non_driver_subject company_id user_id (ws_access ws)) (\<lambda>_.
     bind_r (check_branch_access company_id user_id (users (ws_db ws)) (ws_access ws)) (\<lambda>access.
     case find_period company_id period_id ws of
       None \<Rightarrow> Inl (HttpError 404 ''Payroll period not found.'')
     | Some p \<Rightarrow>
         if \<not> can_access_branch access (pp_branch_id p)
         then Inl (HttpError 403 ''Access denied to this period's branch.'')
         else map_r (\<lambda>_. summary_of ws p)
           (check_any_permission company_id user_id (Some (pp_branch_id p))
              [''payroll.view'', ''payroll.entry'', ''payroll.finalize''] (users (ws_db ws)) (ws_access ws))))"

section \<open>Status updates\<close>

text \<open>The statuses with a partial unique index on Company and Branch.\<close>

definition slot_statuses :: "string list" where
  "slot_statuses = [''Draft'', ''Open'', ''InReview'', ''Returned'']"

definition branch_of_period :: "period_row \<Rightarrow> int \<times> int" where
  "branch_of_period p = (pp_company_id p, pp_branch_id p)"

definition slot_unique :: "string \<Rightarrow> period_row list \<Rightarrow> bool" where
  "slot_unique s ps \<longleftrightarrow> distinct (map branch_of_period (filter (\<lambda>p. pp_status p = s) ps))"

definition slot_index :: "string \<Rightarrow> string" where
  "slot_index s = ''ux_payrollperiods_one'' @ s @ ''perbranch''"

text \<open>
  \<open>UPDATE ... SET status = new WHERE ... RETURNING\<close>: \<open>None\<close> if no row matches, an integrity error
  if the index of the new status is violated.
\<close>

definition claim_periods :: "(period_row \<Rightarrow> bool) \<Rightarrow> string \<Rightarrow> period_row list \<Rightarrow> period_row list option result" where
  "claim_periods matches new ps =
     (if \<not> (\<exists>p\<in>set ps. matches p) then Inr None
      else let ps' = map (\<lambda>p. if matches p then p\<lparr>pp_status := new\<rparr> else p) ps
           in if new \<in> set slot_statuses \<and> \<not> slot_unique new ps'
              then Inl (IntegrityError (slot_index new)) else Inr (Some ps'))"

definition update_columns :: "int \<Rightarrow> (period_columns \<Rightarrow> period_columns) \<Rightarrow> workflow_state \<Rightarrow> workflow_state" where
  "update_columns period_id f ws =
     ws\<lparr>ws_columns := (ws_columns ws)(period_id := f (ws_columns ws period_id))\<rparr>"

definition with_periods :: "period_row list \<Rightarrow> workflow_state \<Rightarrow> workflow_state" where
  "with_periods ps ws = ws\<lparr>ws_db := (ws_db ws)\<lparr>periods := ps\<rparr>\<rparr>"

text \<open>The claim of one period in one status, with the error of a lost race.\<close>

definition claim_status ::
  "int \<Rightarrow> int \<Rightarrow> int option \<Rightarrow> string \<Rightarrow> string \<Rightarrow> py_error \<Rightarrow> workflow_state \<Rightarrow> workflow_state result" where
  "claim_status company_id period_id branch_id old new lost ws =
     bind_r (claim_periods (\<lambda>p. pp_id p = period_id \<and> pp_company_id p = company_id \<and>
         (case branch_id of None \<Rightarrow> True | Some b \<Rightarrow> pp_branch_id p = b) \<and> pp_status p = old)
       new (periods (ws_db ws))) (\<lambda>claimed.
     case claimed of None \<Rightarrow> Inl lost | Some ps \<Rightarrow> Inr (with_periods ps ws))"

section \<open>Company currency\<close>

definition lock_and_get_company_currency :: "int \<Rightarrow> workflow_state \<Rightarrow> company_currency result" where
  "lock_and_get_company_currency company_id ws =
     bind_r (get_currency_of company_id (ws_db ws)) (\<lambda>currency.
       case currency of None \<Rightarrow> Inl (HttpError 422 ''COMPANY_CURRENCY_REQUIRED'') | Some c \<Rightarrow> Inr c)"

section \<open>Participant evidence\<close>

definition participant_roles ::
  "int \<Rightarrow> int \<Rightarrow> int \<Rightarrow> string \<Rightarrow> access_tables \<Rightarrow> (string \<times> string \<times> string \<times> string) list" where
  "participant_roles company_id branch_id user_id permission ac =
     sort (remdups
       [(ro_code r, ro_name r, ur_scope ur,
         if ro_code r = ''COMPANY_OWNER'' then ''CompanyOwner'' else ''CompanyRole'').
        ur \<leftarrow> roles_of_user company_id user_id ac, r \<leftarrow> company_roles ac,
        ur_role_id ur = Some (ro_id r) \<and>
        (ur_scope ur = ''AllCompanyBranches'' \<or> ur_branch_id ur = Some branch_id) \<and>
        (ro_code r = ''COMPANY_OWNER'' \<or> (ro_id r, permission) \<in> set (role_permissions ac))])"

definition participant_override :: "int \<Rightarrow> int \<Rightarrow> string \<Rightarrow> access_tables \<Rightarrow> bool" where
  "participant_override company_id user_id permission ac \<longleftrightarrow>
     (\<exists>ov\<in>set (permission_overrides ac). ov_user_id ov = user_id \<and> ov_company_id ov = company_id \<and>
        ov_permission ov = permission \<and> ov_effect ov = ''ALLOW'' \<and> ov_is_active ov)"

definition capture_workflow_action_evidence ::
  "int \<Rightarrow> int \<Rightarrow> int \<Rightarrow> string \<Rightarrow> int \<Rightarrow> string \<Rightarrow> int option \<Rightarrow> int option \<Rightarrow> int option \<Rightarrow> string option
   \<Rightarrow> workflow_state \<Rightarrow> workflow_state result" where
  "capture_workflow_action_evidence company_id branch_id period_id action user_id permission
       snapshot_id item_id decision_id reason ws =
     (case find_first (\<lambda>u. us_id u = user_id) (users (ws_db ws)) of
        None \<Rightarrow> Inl (HttpError 422 ''Cannot capture workflow evidence: action actor no longer exists.'')
      | Some u \<Rightarrow> Inr (ws\<lparr>ws_actions := ws_actions ws @
          [\<lparr>ae_company_id = company_id, ae_branch_id = branch_id, ae_period_id = period_id,
            ae_snapshot_id = snapshot_id, ae_item_id = item_id, ae_decision_id = decision_id,
            ae_action = action, ae_user_id = user_id, ae_display_name = us_display_name u,
            ae_permission = permission,
            ae_roles = participant_roles company_id branch_id user_id permission (ws_access ws),
            ae_override = participant_override company_id user_id permission (ws_access ws),
            ae_reason = reason\<rparr>]\<rparr>))"

section \<open>Review items\<close>

text \<open>The PeriodApproval items of one period.\<close>

definition is_period_approval :: "int \<Rightarrow> int \<Rightarrow> review_item \<Rightarrow> bool" where
  "is_period_approval company_id period_id ri \<longleftrightarrow>
     ri_company_id ri = company_id \<and> ri_entity_schema ri = Some ''payroll'' \<and>
     ri_entity_name ri = Some ''PayrollPeriods'' \<and> ri_entity_id ri = Some (show_int period_id) \<and>
     ri_request_type ri = ''PeriodApproval''"

definition next_item_id :: "review_item list \<Rightarrow> int" where
  "next_item_id ris = foldr max (map ri_id ris) 0 + 1"

definition next_decision_id :: "review_decision list \<Rightarrow> int" where
  "next_decision_id ds = foldr max (map rd_id ds) 0 + 1"

definition find_item :: "int \<Rightarrow> int \<Rightarrow> workflow_state \<Rightarrow> review_item option" where
  "find_item company_id item_id ws =
     find_first (\<lambda>ri. ri_id ri = item_id \<and> ri_company_id ri = company_id) (ws_items ws)"

end
