(* ===== verification/Period_Lifecycle.thy ===== *)
theory Period_Lifecycle
  imports Workflow
begin

text \<open>
  The status transitions of a period (\<open>payroll/period_lifecycle.py\<close>): the PATCH transition table
  with its permissions, submission of an Open period with promotion of the adjacent Draft, and
  resubmission of a Returned one.  The audit-log rows and the linking of audit evidence to the
  snapshot are not part of the model.
\<close>

section \<open>The transition table\<close>

definition valid_transitions :: "(string \<times> string list) list" where
  "valid_transitions =
     [(''Draft'', [''Cancelled'']), (''Open'', [''InReview'', ''Cancelled'']), (''InReview'', []),
      (''Returned'', []), (''Approved'', []), (''Locked'', [''Archived'']), (''Cancelled'', []),
      (''Archived'', [])]"

definition patch_reserved_statuses :: "string list" where
  "patch_reserved_statuses = [''Locked'', ''Returned'']"

definition validate_status_change :: "string \<Rightarrow> string result" where
  "validate_status_change v =
     (if v \<notin> fst ` set valid_transitions then Inl (ValueError ''status must be one of'')
      else if v \<in> set patch_reserved_statuses
      then Inl (ValueError ''cannot be set via this endpoint'') else Inr v)"

definition transition_permissions :: "((string \<times> string) \<times> string) list" where
  "transition_permissions =
     [((''Draft'', ''Cancelled''), ''payroll.finalize''), ((''Open'', ''InReview''), ''payroll.entry''),
      ((''Open'', ''Cancelled''), ''payroll.finalize''), ((''Locked'', ''Archived''), ''payroll.finalize'')]"

definition allowed_transitions :: "string \<Rightarrow> string list" where
  "allowed_transitions status = (case map_of valid_transitions status of None \<Rightarrow> [] | Some ts \<Rightarrow> ts)"

section \<open>Guards\<close>

definition period_content_count :: "int \<Rightarrow> int \<Rightarrow> payroll_db \<Rightarrow> nat" where
  "period_content_count period_id company_id db =
     length (filter (\<lambda>l. dl_period_id l = period_id \<and> dl_company_id l = company_id \<and> dl_status l \<noteq> ''Void'')
       (draft_lines db)) +
     length (filter (\<lambda>b. be_period_id b = period_id \<and> be_company_id b = company_id \<and> be_status b = ''Active'')
       (bonus_events db)) +
     length (filter (\<lambda>e. es_period_id e = period_id \<and> es_company_id e = company_id \<and> \<not> es_is_voided e \<and>
         es_status_key_id e \<noteq> None) (entry_states db))"

definition check_inreview_slot_available :: "int \<Rightarrow> int \<Rightarrow> int \<Rightarrow> workflow_state \<Rightarrow> unit result" where
  "check_inreview_slot_available company_id branch_id period_id ws =
     guard_r (\<not> (\<exists>p\<in>set (periods (ws_db ws)). pp_company_id p = company_id \<and> pp_branch_id p = branch_id \<and>
         pp_status p = ''InReview'' \<and> pp_id p \<noteq> period_id))
       (HttpError 409 ''An InReview period already exists for this branch.'')"

definition pending_item_exists :: "int \<Rightarrow> int \<Rightarrow> workflow_state \<Rightarrow> bool" where
  "pending_item_exists company_id period_id ws \<longleftrightarrow>
     (\<exists>ri\<in>set (ws_items ws). is_period_approval company_id period_id ri \<and> ri_status ri = ''Pending'')"

section \<open>What submission and resubmission share\<close>

definition pending_period_item :: "int \<Rightarrow> int \<Rightarrow> int \<Rightarrow> int \<Rightarrow> int \<Rightarrow> int \<Rightarrow> review_item" where
  "pending_period_item item_id company_id branch_id user_id period_id snapshot_id =
     \<lparr>ri_id = item_id, ri_company_id = company_id, ri_branch_id = branch_id, ri_requested_by = user_id,
      ri_request_type = ''PeriodApproval'', ri_entity_schema = Some ''payroll'',
      ri_entity_name = Some ''PayrollPeriods'', ri_entity_id = Some (show_int period_id),
      ri_status = ''Pending'', ri_snapshot_id = Some snapshot_id, ri_decided_by = None,
      ri_decided_at = None, ri_reason = None\<rparr>"

definition submit_packet ::
  "(json \<Rightarrow> string) \<Rightarrow> (string \<Rightarrow> date \<Rightarrow> int) \<Rightarrow> string \<Rightarrow> int \<Rightarrow> int \<Rightarrow> period_summary \<Rightarrow> company_currency
   \<Rightarrow> workflow_state \<Rightarrow> workflow_state result" where
  "submit_packet digest boundary action company_id user_id existing currency ws =
     (let period_id = pp_id existing; branch_id = pp_branch_id existing in
      bind_r (guard_r (period_content_count period_id company_id (ws_db ws) \<noteq> 0)
        (HttpError 422 ''Cannot submit an empty period for review.'')) (\<lambda>_.
      bind_r (guard_r (\<not> pending_item_exists company_id period_id ws)
        (HttpError 422 ''A Pending review item already exists for this period'')) (\<lambda>_.
      bind_r (build_live_calculation_packet boundary (period_row.truncate existing) company_id (ws_db ws)) (\<lambda>packet.
      bind_r (capture_calculation_snapshot digest existing company_id user_id packet currency (ws_db ws)
        (ws_store ws)) (\<lambda>(store, snapshot_id).
      bind_r (capture_workflow_action_evidence company_id branch_id period_id action user_id ''payroll.entry''
        (Some snapshot_id) None None None (ws\<lparr>ws_store := store\<rparr>)) (\<lambda>ws1.
      Inr (ws1\<lparr>ws_items := ws_items ws1 @
        [pending_period_item (next_item_id (ws_items ws1)) company_id branch_id user_id period_id snapshot_id]\<rparr>)))))))"

section \<open>Submission of an Open period\<close>

definition workflow_rows :: "int \<Rightarrow> int \<Rightarrow> workflow_state \<Rightarrow> period_row list" where
  "workflow_rows company_id branch_id ws =
     sort_key pp_id (filter (\<lambda>p. pp_company_id p = company_id \<and> pp_branch_id p = branch_id \<and>
       pp_status p \<in> set slot_statuses) (periods (ws_db ws)))"

definition check_returned_backlog :: "period_row \<Rightarrow> period_row list \<Rightarrow> unit result" where
  "check_returned_backlog open_row rows =
     (case find_first (\<lambda>p. pp_status p = ''Returned'') rows of
        None \<Rightarrow> Inr ()
      | Some ret \<Rightarrow>
          if pp_end ret < pp_start open_row
          then Inl (HttpError 409 ''RETURNED_BACKLOG_BLOCKS_SUBMIT'')
          else Inl (HttpError 409 ''WORKFLOW_SLOT_CONFLICT''))"

definition eligible_draft :: "period_row \<Rightarrow> period_row list \<Rightarrow> period_row option result" where
  "eligible_draft open_row rows =
     (case find_first (\<lambda>p. pp_status p = ''Draft'') rows of
        None \<Rightarrow> Inr None
      | Some d \<Rightarrow>
          if pp_start d = pp_end open_row + 1 then Inr (Some d)
          else Inl (HttpError 409 ''DRAFT_PROMOTION_CONFLICT''))"

definition inreview_race :: "py_error \<Rightarrow> py_error" where
  "inreview_race e =
     (if e = IntegrityError (slot_index ''InReview'')
      then HttpError 409 ''A concurrent submission created an InReview period'' else e)"

definition map_error :: "('e \<Rightarrow> 'f) \<Rightarrow> 'e + 'a \<Rightarrow> 'f + 'a" where
  "map_error f m = (case m of Inl e \<Rightarrow> Inl (f e) | Inr x \<Rightarrow> Inr x)"

lemma map_error_Inr [simp, result_simps]: "map_error f m = Inr x \<longleftrightarrow> m = Inr x"
  by (cases m) (simp_all add: map_error_def)

definition add_notes :: "string option \<Rightarrow> period_columns \<Rightarrow> period_columns" where
  "add_notes notes c = (case notes of None \<Rightarrow> c | Some n \<Rightarrow> c\<lparr>pc_notes := Some n\<rparr>)"

definition promote_draft ::
  "(string \<Rightarrow> date \<Rightarrow> int) \<Rightarrow> int \<Rightarrow> int \<Rightarrow> int \<Rightarrow> period_row option \<Rightarrow> workflow_state \<Rightarrow> workflow_state result" where
  "promote_draft boundary now company_id branch_id draft ws =
     (case draft of
        None \<Rightarrow> Inr ws
      | Some d \<Rightarrow>
          map_r (\<lambda>ws'. ws'\<lparr>ws_db := regenerate_period_driver_eligibility_rows boundary (pp_id d) company_id
              branch_id now (ws_db ws')\<rparr>)
            (claim_status company_id (pp_id d) (Some branch_id) ''Draft'' ''Open''
              (HttpError 409 ''Adjacent Draft period moved concurrently during submission.'') ws))"

definition submit_open_period ::
  "(json \<Rightarrow> string) \<Rightarrow> (string \<Rightarrow> date \<Rightarrow> int) \<Rightarrow> int \<Rightarrow> int \<Rightarrow> int \<Rightarrow> string option \<Rightarrow> period_summary
   \<Rightarrow> workflow_state \<Rightarrow> workflow_state result" where
  "submit_open_period digest boundary now company_id user_id notes existing ws =
     (let period_id = pp_id existing; branch_id = pp_branch_id existing;
          rows = workflow_rows company_id branch_id ws in
      bind_r (lock_and_get_company_currency company_id ws) (\<lambda>currency.
      case find_first (\<lambda>p. pp_id p = period_id \<and> pp_status p = ''Open'') rows of
        None \<Rightarrow> Inl (HttpError 409 ''Period is no longer Open'')
      | Some open_row \<Rightarrow>
          bind_r (check_returned_backlog open_row rows) (\<lambda>_.
          bind_r (eligible_draft open_row rows) (\<lambda>draft.
          bind_r (check_inreview_slot_available company_id branch_id period_id ws) (\<lambda>_.
          bind_r (submit_packet digest boundary ''SUBMITTED'' company_id user_id existing currency ws) (\<lambda>ws1.
          bind_r (map_error inreview_race (claim_status company_id period_id (Some branch_id) ''Open'' ''InReview''
            (HttpError 422 ''Period is no longer Open'') ws1)) (\<lambda>ws2.
          promote_draft boundary now company_id branch_id draft
            (update_columns period_id (add_notes notes \<circ> pc_submitted_at_update (\<lambda>_. Some now)) ws2))))))))"

section \<open>The PATCH endpoint\<close>

definition stamp_status :: "int \<Rightarrow> int \<Rightarrow> string \<Rightarrow> period_columns \<Rightarrow> period_columns" where
  "stamp_status now user_id new c =
     (if new = ''Locked'' then c\<lparr>pc_locked_by := Some user_id, pc_locked_at := Some now\<rparr> else c)"

definition change_period_status ::
  "(json \<Rightarrow> string) \<Rightarrow> (string \<Rightarrow> date \<Rightarrow> int) \<Rightarrow> int \<Rightarrow> int \<Rightarrow> int \<Rightarrow> int \<Rightarrow> string \<Rightarrow> string option
   \<Rightarrow> workflow_state \<Rightarrow> workflow_state result" where
  "change_period_status digest boundary now company_id user_id period_id new notes ws =
     bind_r (get_period_by_id company_id user_id period_id ws) (\<lambda>existing.
     let old = pp_status existing; branch_id = pp_branch_id existing in
     bind_r (guard_r (new \<in> set (allowed_transitions old)) (HttpError 422 ''Cannot transition'')) (\<lambda>_.
     bind_r (case map_of transition_permissions (old, new) of
               None \<Rightarrow> Inr ()
             | Some code \<Rightarrow> check_permission company_id user_id (Some branch_id) code (users (ws_db ws))
                 (ws_access ws)) (\<lambda>_.
     if old = ''Open'' \<and> new = ''InReview''
     then submit_open_period digest boundary now company_id user_id notes existing ws
     else map_r (update_columns period_id (add_notes notes \<circ> stamp_status now user_id new))
       (claim_status company_id period_id (Some branch_id) old new
         (HttpError 409 ''Period is no longer in its expected status'') ws))))"

section \<open>Resubmission of a Returned period\<close>

definition resubmit_period ::
  "(json \<Rightarrow> string) \<Rightarrow> (string \<Rightarrow> date \<Rightarrow> int) \<Rightarrow> int \<Rightarrow> int \<Rightarrow> int \<Rightarrow> int \<Rightarrow> workflow_state
   \<Rightarrow> workflow_state result" where
  "resubmit_period digest boundary now company_id user_id period_id ws =
     bind_r (require_non_driver_subject company_id user_id (ws_access ws)) (\<lambda>_.
     bind_r (get_period_by_id company_id user_id period_id ws) (\<lambda>existing.
     let branch_id = pp_branch_id existing in
     bind_r (guard_r (pp_status existing = ''Returned'')
       (HttpError 422 ''Only Returned periods can be resubmitted'')) (\<lambda>_.
     bind_r (check_permission company_id user_id (Some branch_id) ''payroll.entry'' (users (ws_db ws))
       (ws_access ws)) (\<lambda>_.
     bind_r (lock_and_get_company_currency company_id ws) (\<lambda>currency.
     bind_r (guard_r (map_option pp_status (find_period company_id period_id ws) = Some ''Returned'')
       (HttpError 409 ''Period is no longer Returned'')) (\<lambda>_.
     bind_r (check_inreview_slot_available company_id branch_id period_id ws) (\<lambda>_.
     bind_r (submit_packet digest boundary ''RESUBMITTED'' company_id user_id existing currency ws) (\<lambda>ws1.
     map_r (update_columns period_id (\<lambda>c. c\<lparr>pc_return_item := None, pc_submitted_at := Some now\<rparr>))
       (map_error inreview_race (claim_status company_id period_id (Some branch_id) ''Returned'' ''InReview''
         (HttpError 409 ''Period is no longer Returned'') ws1))))))))))"

end
