(* ===== verification/Review_Decision.thy ===== *)
theory Review_Decision
  imports Period_Lifecycle
begin

text \<open>
  Review items and decisions (\<open>review/service.py\<close>): the context a PeriodApproval item is validated
  against, the manual creation of items, and \<open>decide_review_item\<close> with its write-back to the
  period.  The audit-log rows and the audit evidence of a comment are not part of the model.
\<close>

section \<open>The period and snapshot of an item\<close>

definition period_approval_id :: "review_item \<Rightarrow> int result" where
  "period_approval_id ri =
     (let invalid = Inl (HttpError 422 ''PeriodApproval review item has an invalid entity_id.'')
      in if ri_entity_schema ri \<noteq> Some ''payroll'' \<or> ri_entity_name ri \<noteq> Some ''PayrollPeriods''
         then Inl (HttpError 422 ''PeriodApproval review item has unexpected entity metadata.'')
         else case ri_entity_id ri of
           None \<Rightarrow> invalid
         | Some s \<Rightarrow> (case parse_int s of Inl _ \<Rightarrow> invalid | Inr n \<Rightarrow> if n \<le> 0 then invalid else Inr n))"

definition evidence_http :: "py_error \<Rightarrow> py_error" where
  "evidence_http e = (case e of IntegrityError code \<Rightarrow> HttpError 422 code | _ \<Rightarrow> e)"

definition load_period_approval_context ::
  "(json \<Rightarrow> string) \<Rightarrow> int \<Rightarrow> review_item \<Rightarrow> bool \<Rightarrow> bool \<Rightarrow> workflow_state
   \<Rightarrow> (period_row \<times> header_data option) result" where
  "load_period_approval_context digest company_id ri require_snapshot verify ws =
     bind_r (period_approval_id ri) (\<lambda>period_id.
     case find_first (\<lambda>p. pp_id p = period_id \<and> pp_company_id p = company_id \<and>
            pp_branch_id p = ri_branch_id ri) (periods (ws_db ws)) of
       None \<Rightarrow> Inl (HttpError 422 ''PeriodApproval review item references a missing period'')
     | Some p \<Rightarrow>
         (case ri_snapshot_id ri of
            None \<Rightarrow> if require_snapshot then Inl (HttpError 422 ''SNAPSHOT_REQUIRED_FOR_APPROVAL'')
                     else Inr (p, None)
          | Some sid \<Rightarrow>
              (case find_first (\<lambda>h. row_id h = sid \<and> sh_company_id (row_data h) = company_id \<and>
                      sh_branch_id (row_data h) = ri_branch_id ri) (st_headers (ws_store ws)) of
                 None \<Rightarrow> Inl (HttpError 422 ''PeriodApproval review item references an unavailable calculation snapshot.'')
               | Some h \<Rightarrow>
                   if sh_calculation_version (row_data h) \<noteq> current_calculation_version
                   then Inl (HttpError 422 ''UNSUPPORTED_CALCULATION_VERSION'')
                   else if sh_period_id (row_data h) \<noteq> period_id
                   then Inl (HttpError 422 ''PeriodApproval review item snapshot does not belong to its payroll period.'')
                   else if verify
                   then map_r (\<lambda>_. (p, Some (row_data h)))
                     (map_error evidence_http (verify_snapshot digest sid (Some company_id)
                        (Some (ri_branch_id ri)) (Some period_id) (ws_store ws)))
                   else Inr (p, Some (row_data h)))))"

section \<open>Manual items\<close>

record review_item_create =
  rc_branch_id :: int
  rc_request_type :: string
  rc_entity_schema :: "string option"
  rc_entity_name :: "string option"
  rc_entity_id :: "string option"

definition create_review_item ::
  "int \<Rightarrow> int \<Rightarrow> review_item_create \<Rightarrow> workflow_state \<Rightarrow> workflow_state result" where
  "create_review_item company_id user_id rc ws =
     bind_r (require_non_driver_subject company_id user_id (ws_access ws)) (\<lambda>_.
     bind_r (guard_r (rc_request_type rc \<noteq> ''PeriodApproval'')
       (HttpError 422 ''PeriodApproval review items cannot be created manually.'')) (\<lambda>_.
     bind_r (check_branch_access company_id user_id (users (ws_db ws)) (ws_access ws)) (\<lambda>access.
     bind_r (guard_r (can_access_branch access (rc_branch_id rc))
       (HttpError 403 ''You do not have access to this branch.'')) (\<lambda>_.
     bind_r (guard_r (\<exists>b\<in>set (branches (ws_db ws)). br_id b = rc_branch_id rc \<and> br_company_id b = company_id)
       (HttpError 422 ''Branch not found for this company.'')) (\<lambda>_.
     bind_r (check_permission company_id user_id (Some (rc_branch_id rc)) ''payroll.entry'' (users (ws_db ws))
       (ws_access ws)) (\<lambda>_.
     Inr (ws\<lparr>ws_items := ws_items ws @
       [\<lparr>ri_id = next_item_id (ws_items ws), ri_company_id = company_id, ri_branch_id = rc_branch_id rc,
         ri_requested_by = user_id, ri_request_type = rc_request_type rc,
         ri_entity_schema = rc_entity_schema rc, ri_entity_name = rc_entity_name rc,
         ri_entity_id = rc_entity_id rc, ri_status = ''Pending'', ri_snapshot_id = None,
         ri_decided_by = None, ri_decided_at = None, ri_reason = None\<rparr>]\<rparr>)))))))"

section \<open>Decisions\<close>

definition valid_decisions :: "string list" where
  "valid_decisions = [''Approved'', ''Rejected'', ''EditRequested'', ''Comment'']"

definition decidable_statuses :: "string list" where
  "decidable_statuses = [''Pending'', ''EditRequested'']"

text \<open>The characters \<open>str.strip\<close> removes, among those of one byte.\<close>

definition blank_char :: "char \<Rightarrow> bool" where
  "blank_char c \<longleftrightarrow> (of_char c :: nat) \<in> {9, 10, 11, 12, 13, 28, 29, 30, 31, 32, 133, 160}"

definition blank :: "string option \<Rightarrow> bool" where
  "blank reason = (case reason of None \<Rightarrow> True | Some r \<Rightarrow> list_all blank_char r)"

definition decision_action :: "string \<Rightarrow> string" where
  "decision_action decision =
     (if decision = ''Approved'' then ''REVIEW_APPROVED''
      else if decision = ''EditRequested'' then ''REVIEW_EDIT_REQUESTED'' else ''REVIEW_REJECTED'')"

definition decide_item :: "int \<Rightarrow> int \<Rightarrow> int \<Rightarrow> string \<Rightarrow> string option \<Rightarrow> review_item list \<Rightarrow> review_item list" where
  "decide_item now user_id item_id decision reason ris =
     map (\<lambda>ri. if ri_id ri = item_id
       then ri\<lparr>ri_status := decision, ri_decided_by := Some user_id, ri_decided_at := Some now,
               ri_reason := reason\<rparr> else ri) ris"

definition returned_race :: "py_error \<Rightarrow> py_error" where
  "returned_race e =
     (if e = IntegrityError (slot_index ''Returned'')
      then HttpError 409 ''A concurrent return decision created a Returned period'' else e)"

text \<open>The write-back to the period in review.\<close>

definition decide_period ::
  "int \<Rightarrow> int \<Rightarrow> int \<Rightarrow> int \<Rightarrow> int \<Rightarrow> int \<Rightarrow> string \<Rightarrow> workflow_state \<Rightarrow> workflow_state result" where
  "decide_period now company_id user_id branch_id period_id item_id decision ws =
     (let gone = HttpError 422 ''Period is no longer in InReview status'' in
      if decision = ''Approved''
      then map_r (update_columns period_id (\<lambda>c. c\<lparr>pc_approved_by := Some user_id, pc_approved_at := Some now\<rparr>))
        (map_error returned_race (claim_status company_id period_id (Some branch_id) ''InReview'' ''Approved'' gone ws))
      else if \<exists>p\<in>set (periods (ws_db ws)). pp_company_id p = company_id \<and> pp_branch_id p = branch_id \<and>
                pp_status p = ''Returned''
      then Inl (HttpError 409 ''A Returned period already exists for this branch.'')
      else map_r (update_columns period_id (\<lambda>c. c\<lparr>pc_return_item := Some item_id\<rparr>))
        (map_error returned_race (claim_status company_id period_id (Some branch_id) ''InReview'' ''Returned'' gone ws)))"

definition check_comment_evidence :: "review_item \<Rightarrow> unit result" where
  "check_comment_evidence ri =
     bind_r (case ri_entity_id ri of None \<Rightarrow> Inl (HttpError 422 ''invalid payroll review item'')
             | Some s \<Rightarrow> map_error (\<lambda>_. HttpError 422 ''invalid payroll review item'') (parse_int s)) (\<lambda>_.
     guard_r (ri_snapshot_id ri \<noteq> None)
       (HttpError 422 ''Cannot capture finalized audit evidence without the ReviewItem snapshot.''))"

definition decide_review_item ::
  "(json \<Rightarrow> string) \<Rightarrow> int \<Rightarrow> int \<Rightarrow> int \<Rightarrow> int \<Rightarrow> string \<Rightarrow> string option \<Rightarrow> workflow_state
   \<Rightarrow> workflow_state result" where
  "decide_review_item digest now company_id user_id item_id decision reason ws =
     bind_r (require_non_driver_subject company_id user_id (ws_access ws)) (\<lambda>_.
     case find_item company_id item_id ws of
       None \<Rightarrow> Inl (HttpError 404 ''Review item not found.'')
     | Some ri \<Rightarrow>
       let approval = (ri_request_type ri = ''PeriodApproval''); substantive = (decision \<noteq> ''Comment'') in
       bind_r (check_branch_access company_id user_id (users (ws_db ws)) (ws_access ws)) (\<lambda>access.
       bind_r (guard_r (can_access_branch access (ri_branch_id ri))
         (HttpError 403 ''You do not have access to this branch.'')) (\<lambda>_.
       bind_r (check_permission company_id user_id (Some (ri_branch_id ri)) ''review.decide'' (users (ws_db ws))
         (ws_access ws)) (\<lambda>_.
       bind_r (if approval \<and> decision = ''Approved''
               then map_r Some (lock_and_get_company_currency company_id ws) else Inr None) (\<lambda>currency.
       bind_r (guard_r (\<not> (approval \<and> decision \<in> {''Rejected'', ''EditRequested''} \<and> blank reason))
         (HttpError 422 ''A non-blank decision_reason is required'')) (\<lambda>_.
       bind_r (guard_r (\<not> (substantive \<and> ri_requested_by ri = user_id \<and>
           \<not> company_allows_self_approval company_id (ws_access ws)))
         (HttpError 422 ''Self-approval is not permitted for this company.'')) (\<lambda>_.
       bind_r (guard_r (ri_status ri \<in> set decidable_statuses)
         (HttpError 422 ''Cannot record a decision on an item with this status'')) (\<lambda>_.
       bind_r (if substantive \<and> approval
          then bind_r (guard_r (ri_status ri = ''Pending'')
                 (HttpError 422 ''PeriodApproval decisions require a Pending review item.'')) (\<lambda>_.
               bind_r (load_period_approval_context digest company_id ri (decision = ''Approved'')
                 (decision = ''Approved'') ws) (\<lambda>(p, snapshot).
               bind_r (guard_r (pp_status p = ''InReview'')
                 (HttpError 422 ''Period is no longer in InReview status.'')) (\<lambda>_.
               case (currency, snapshot) of
                 (Some c, Some h) \<Rightarrow> map_r (\<lambda>_. Some p) (require_matching_snapshot_currency c
                    (Some (sh_currency_code h)) (Some (sh_currency_digits h)))
               | _ \<Rightarrow> Inr (Some p))))
          else Inr None) (\<lambda>context.
       let decision_id = next_decision_id (ws_decisions ws);
           ws1 = ws\<lparr>ws_decisions := ws_decisions ws @
             [\<lparr>rd_id = decision_id, rd_item_id = item_id, rd_user_id = user_id, rd_decision = decision,
               rd_reason = reason\<rparr>]\<rparr> in
       if \<not> substantive
       then (if approval then map_r (\<lambda>_. ws1) (check_comment_evidence ri) else Inr ws1)
       else
         let ws2 = ws1\<lparr>ws_items := decide_item now user_id item_id decision reason (ws_items ws1)\<rparr> in
         case context of
           None \<Rightarrow> Inr ws2
         | Some p \<Rightarrow>
             bind_r (capture_workflow_action_evidence company_id (ri_branch_id ri) (pp_id p)
               (decision_action decision) user_id ''review.decide'' (ri_snapshot_id ri) (Some item_id)
               (Some decision_id) reason ws2) (\<lambda>ws3.
             bind_r (require_non_driver_subject company_id user_id (ws_access ws3)) (\<lambda>_.
             decide_period now company_id user_id (ri_branch_id ri) (pp_id p) item_id decision ws3)))))))))))"

end
