(* ===== verification/Finalization.thy ===== *)
theory Finalization
  imports Review_Decision
begin

text \<open>
  Finalization of an Approved period (\<open>payroll/finalization.py\<close>): the one approved review item
  authorizes one snapshot; it is verified, projected into FinalLines and the period is locked.
  The audit row and the purge of import details are not part of the model.
\<close>

definition finalization_error :: "py_error \<Rightarrow> py_error" where
  "finalization_error e =
     (case e of
        IntegrityError code \<Rightarrow> HttpError 422
          (if code = ''SNAPSHOT_NOT_FOUND'' then ''APPROVED_SNAPSHOT_INTEGRITY_ERROR'' else code)
      | _ \<Rightarrow> e)"

record approved_packet =
  ap_item_id :: int
  ap_content :: loaded_content
  ap_projection :: "projected_line list"

definition approved_items :: "int \<Rightarrow> int \<Rightarrow> int \<Rightarrow> workflow_state \<Rightarrow> review_item list" where
  "approved_items company_id branch_id period_id ws =
     filter (\<lambda>ri. is_period_approval company_id period_id ri \<and> ri_branch_id ri = branch_id \<and>
       ri_status ri = ''Approved'') (ws_items ws)"

definition load_approved_snapshot_packet ::
  "(json \<Rightarrow> string) \<Rightarrow> int \<Rightarrow> int \<Rightarrow> int \<Rightarrow> workflow_state \<Rightarrow> approved_packet result" where
  "load_approved_snapshot_packet digest period_id company_id branch_id ws =
     (case approved_items company_id branch_id period_id ws of
        [] \<Rightarrow> Inl (HttpError 422 ''APPROVED_SNAPSHOT_NOT_FOUND_FOR_FINALIZATION'')
      | [ri] \<Rightarrow>
          (case ri_snapshot_id ri of
             None \<Rightarrow> Inl (HttpError 422 ''SNAPSHOT_REQUIRED_FOR_FINALIZATION'')
           | Some sid \<Rightarrow>
               bind_r (map_error finalization_error (verify_snapshot digest sid (Some company_id)
                 (Some branch_id) (Some period_id) (ws_store ws))) (\<lambda>c.
               bind_r (project_final_lines c) (\<lambda>rows.
               bind_r (guard_r (rows \<noteq> [] \<or> lo_statuses c \<noteq> [])
                 (HttpError 422 ''APPROVED_SNAPSHOT_INTEGRITY_ERROR'')) (\<lambda>_.
               Inr \<lparr>ap_item_id = ri_id ri, ap_content = c, ap_projection = rows\<rparr>))))
      | _ \<Rightarrow> Inl (HttpError 422 ''APPROVED_SNAPSHOT_INTEGRITY_ERROR''))"

definition finalize_period ::
  "(json \<Rightarrow> string) \<Rightarrow> int \<Rightarrow> int \<Rightarrow> int \<Rightarrow> int \<Rightarrow> workflow_state \<Rightarrow> workflow_state result" where
  "finalize_period digest now period_id company_id user_id ws =
     bind_r (require_non_driver_subject company_id user_id (ws_access ws)) (\<lambda>_.
     bind_r (get_period_by_id company_id user_id period_id ws) (\<lambda>period.
     let branch_id = pp_branch_id period;
         lost = HttpError 422 ''Period could not be claimed for finalization'' in
     bind_r (guard_r (pp_status period = ''Approved'')
       (HttpError 422 ''Only Approved periods can be finalized'')) (\<lambda>_.
     bind_r (check_permission company_id user_id (Some branch_id) ''payroll.finalize'' (users (ws_db ws))
       (ws_access ws)) (\<lambda>_.
     bind_r (lock_and_get_company_currency company_id ws) (\<lambda>currency.
     bind_r (guard_r (\<exists>p\<in>set (periods (ws_db ws)). pp_id p = period_id \<and> pp_company_id p = company_id \<and>
         pp_branch_id p = branch_id \<and> pp_status p = ''Approved'') lost) (\<lambda>_.
     bind_r (load_approved_snapshot_packet digest period_id company_id branch_id ws) (\<lambda>packet.
     let c = ap_content packet in
     bind_r (require_matching_snapshot_currency currency (Some (sh_currency_code c))
       (Some (sh_currency_digits c))) (\<lambda>_.
     bind_r (claim_status company_id period_id None ''Approved'' ''Locked'' lost ws) (\<lambda>ws1.
     capture_workflow_action_evidence company_id branch_id period_id ''FINALIZED'' user_id
       ''payroll.finalize'' (Some (lo_snapshot_id c)) (Some (ap_item_id packet)) None None
       ((update_columns period_id (\<lambda>pc. pc\<lparr>pc_locked_by := Some user_id, pc_locked_at := Some now\<rparr>) ws1)
          \<lparr>ws_ledger := insert_final_lines user_id c company_id branch_id period_id (ap_projection packet)
             (ws_ledger ws)\<rparr>))))))))))"

end
