(* ===== verification/Capture_Facts.thy ===== *)
theory Capture_Facts
  imports Snapshot_Capture Packet_Facts Hash_Facts
begin

text \<open>
  What a captured content is: it holds the pay of the packet (\<open>records_driver\<close>), and it can be
  stored (\<open>storable\<close>), so that the round trip of the snapshot tables applies to it.
\<close>

section \<open>Linking the lines to their rates\<close>

definition unlinked :: "line_content \<Rightarrow> line_content" where
  "unlinked l = l\<lparr>sl_fingerprint := None\<rparr>"

lemma map_unlinked_link_lines [simp]: "map unlinked (link_lines fps ls) = map unlinked ls"
  by (induction fps ls rule: link_lines.induct) (auto simp: unlinked_def)

lemma link_lines_fingerprints:
  "l \<in> set (link_lines fps ls) \<Longrightarrow> sl_fingerprint l \<in> set fps \<union> sl_fingerprint ` set ls"
  by (induction fps ls rule: link_lines.induct) auto

definition same_but_lines :: "('c, line_content) total_content \<Rightarrow> ('c, line_content) total_content \<Rightarrow> bool" where
  "same_but_lines t u \<longleftrightarrow>
     u\<lparr>to_lines := []\<rparr> = t\<lparr>to_lines := []\<rparr> \<and> map unlinked (to_lines u) = map unlinked (to_lines t)"

lemma link_totals_same: "list_all2 same_but_lines ts (link_totals fps ts)"
  by (induction fps ts rule: link_totals.induct) (auto simp: same_but_lines_def)

lemma link_totals_fingerprints:
  "t \<in> set (link_totals fps ts) \<Longrightarrow> l \<in> set (to_lines t) \<Longrightarrow>
   sl_fingerprint l \<in> set fps \<union> (\<Union>t\<in>set ts. sl_fingerprint ` set (to_lines t))"
proof (induction fps ts rule: link_totals.induct)
  case (2 fps t' ts)
  then show ?case
    using link_lines_fingerprints [of l "take (length (to_lines t')) fps" "to_lines t'"]
    by (auto dest!: in_set_takeD in_set_dropD)
qed simp

section \<open>The used rates\<close>

lemma schedule_descriptor_components:
  "schedule_descriptor currency a d l = Inr u \<Longrightarrow> ud_components u \<noteq> Some []"
  by (auto simp: schedule_descriptor_def Let_def split: if_splits option.splits)

lemma build_used_rates_facts:
  assumes "build_used_rate_evidence digest currency ds ls = Inr (rates, fps)"
  shows "set ds \<subseteq> set rates \<and> (\<forall>u\<in>set rates - set ds. ud_components u \<noteq> Some []) \<and>
    (\<forall>f. Some f \<in> set fps \<longrightarrow> f \<in> ud_fingerprint ` set rates)"
  using assms
proof (induction digest currency ds ls arbitrary: rates fps rule: build_used_rate_evidence.induct)
  case (2 digest currency ds a d l ls)
  show ?case
  proof (cases "sl_source_type l \<in> {''DraftLine'', ''StatusEntryState''}")
    case False
    with 2 show ?thesis by (auto simp: map_r_Inr_iff)
  next
    case True
    with 2(3) obtain u fp where u: "schedule_descriptor currency a d l = Inr u"
      "used_rate_fingerprint digest u = Inr fp"
      by (auto simp: bind_r_Inr_iff)
    let ?ds = "if \<exists>d\<in>set ds. ud_fingerprint d = fp then ds else ds @ [with_fingerprint u fp]"
    obtain fps' where rec: "build_used_rate_evidence digest currency ?ds ls = Inr (rates, fps')" "fps = Some fp # fps'"
      using 2(3) True u by (auto simp: bind_r_Inr_iff map_r_Inr_iff Let_def)
    have "set ?ds \<subseteq> set rates \<and> (\<forall>u\<in>set rates - set ?ds. ud_components u \<noteq> Some []) \<and>
      (\<forall>f. Some f \<in> set fps' \<longrightarrow> f \<in> ud_fingerprint ` set rates)"
      using True rec(1) by (intro 2(2)) auto
    moreover have "ud_components (with_fingerprint u fp) \<noteq> Some []"
      using schedule_descriptor_components [OF u(1)] by (simp add: with_fingerprint_def used_rate.defs hashed_rate.defs)
    moreover have "fp \<in> ud_fingerprint ` set ?ds"
      by (auto simp: with_fingerprint_def used_rate.defs hashed_rate.defs)
    ultimately show ?thesis unfolding rec(2) by (auto split: if_splits)
  qed
qed auto

section \<open>A captured content\<close>

definition records_driver :: "driver_total \<Rightarrow> (snapshot_component, line_content) total_content \<Rightarrow> bool" where
  "records_driver dt t \<longleftrightarrow>
     to_assignment_id t = dt_assignment_id dt \<and> to_driver_id t = dt_driver_id dt \<and>
     to_employee_id t = dt_employee_id dt \<and> to_daily_pay t = dt_daily_pay dt \<and>
     to_status_pay t = dt_status_pay dt \<and> to_minimum_adjustment t = dt_minimum_adjustment dt \<and>
     to_maximum_adjustment t = dt_maximum_adjustment dt \<and> to_bonus_total t = dt_bonus_total dt \<and>
     to_expected_pay t = dt_expected_pay dt \<and>
     to_components t = map component_content (dt_components dt) \<and>
     mapM line_content (persisted_lines dt) = Inr (map unlinked (to_lines t))"

lemma line_content_unlinked: "line_content l = Inr c \<Longrightarrow> sl_fingerprint c = None \<and> unlinked c = c"
  by (auto simp: line_content_def Let_def unlinked_def split: option.splits)

lemma mapM_line_content_unlinked:
  assumes "mapM line_content ls = Inr cs"
  shows "map unlinked cs = cs" and "\<forall>c\<in>set cs. sl_fingerprint c = None"
proof -
  have *: "\<forall>c\<in>set cs. sl_fingerprint c = None \<and> unlinked c = c"
    using mapM_Inr_set [OF assms] line_content_unlinked by metis
  then show "map unlinked cs = cs" "\<forall>c\<in>set cs. sl_fingerprint c = None" by (auto intro: map_idI)
qed

lemma total_content_records:
  assumes "total_content period dt = Inr t"
  shows "records_driver dt t" and "\<forall>l\<in>set (to_lines t). sl_fingerprint l = None"
proof -
  from assms obtain e ls where ls: "mapM line_content (persisted_lines dt) = Inr ls"
    and t: "t = \<lparr>to_assignment_id = dt_assignment_id dt, to_driver_id = dt_driver_id dt,
        to_employee_id = dt_employee_id dt, to_branch_id = pp_branch_id period,
        to_driver_number = dt_driver_number dt, to_driver_name = dt_driver_name dt,
        to_daily_pay = dt_daily_pay dt, to_status_pay = dt_status_pay dt,
        to_minimum_adjustment = dt_minimum_adjustment dt,
        to_maximum_adjustment = dt_maximum_adjustment dt, to_bonus_total = dt_bonus_total dt,
        to_expected_pay = dt_expected_pay dt, to_components = map component_content (dt_components dt),
        to_minmax = Some e, to_lines = ls\<rparr>"
    unfolding total_content_def by (auto simp only: bind_r_Inr_iff map_r_Inr_iff)
  from mapM_line_content_unlinked [OF ls] show "records_driver dt t"
    by (simp add: records_driver_def t ls)
  from mapM_line_content_unlinked(2) [OF ls] show "\<forall>l\<in>set (to_lines t). sl_fingerprint l = None"
    by (simp add: t)
qed

lemma capture_contentE:
  assumes "capture_content digest period company packet currency db = Inr c"
  obtains ts fps where
    "mapM (total_content period) (pk_drivers packet) = Inr ts" "co_totals c = link_totals fps ts"
    "build_used_rate_evidence digest currency [] (flat_lines ts) = Inr (co_used_rates c, fps)"
    "sh_company_id c = company" "sh_branch_id c = pp_branch_id period" "sh_period_id c = pp_id period"
    "sh_total c = pk_total packet" "sh_calculation_version c = current_calculation_version"
    "sh_currency_code c = cur_code currency" "sh_currency_digits c = minor_unit_digits currency"
  using assms
  by (auto simp: capture_content_def build_snapshot_content_def with_used_rates_def bind_r_Inr_iff
      map_r_Inr_iff split: prod.splits)

lemma capture_content_records:
  assumes "capture_content digest period company packet currency db = Inr c"
  shows "list_all2 records_driver (pk_drivers packet) (co_totals c)"
    and "sh_total c = pk_total packet" and "scope_of c = (company, pp_branch_id period, pp_id period)"
    and "sh_currency_code c = cur_code currency" and "sh_currency_digits c = minor_unit_digits currency"
proof -
  from assms obtain ts fps where ts: "mapM (total_content period) (pk_drivers packet) = Inr ts"
    and link: "co_totals c = link_totals fps ts"
    and rest: "sh_company_id c = company" "sh_branch_id c = pp_branch_id period" "sh_period_id c = pp_id period"
    "sh_total c = pk_total packet" "sh_currency_code c = cur_code currency"
    "sh_currency_digits c = minor_unit_digits currency"
    by (rule capture_contentE)
  have "list_all2 records_driver (pk_drivers packet) ts"
    using ts by (auto simp: mapM_Inr_iff intro: total_content_records(1) elim!: list.rel_mono_strong)
  note recorded = this
  have step: "records_driver dt u" if "records_driver dt t" "same_but_lines t u" for dt t u
  proof -
    have "snapshot_total.truncate u = snapshot_total.truncate t" "to_components u = to_components t"
      "map unlinked (to_lines u) = map unlinked (to_lines t)"
      using that(2) unfolding same_but_lines_def by (cases t; cases u; simp add: snapshot_total.defs)+
    then show ?thesis using that(1) by (simp add: records_driver_def snapshot_total.defs)
  qed
  show "list_all2 records_driver (pk_drivers packet) (co_totals c)"
    unfolding link by (rule list_all2_trans [OF step recorded link_totals_same])
  show "sh_total c = pk_total packet" "scope_of c = (company, pp_branch_id period, pp_id period)"
    "sh_currency_code c = cur_code currency" "sh_currency_digits c = minor_unit_digits currency"
    using rest by (simp_all add: scope_of_def)
qed

lemma capture_content_storable:
  assumes "capture_content digest period company packet currency db = Inr c"
    and "sorted (map dt_assignment_id (pk_drivers packet))"
  shows "storable c"
proof -
  from assms(1) obtain ts fps where ts: "mapM (total_content period) (pk_drivers packet) = Inr ts"
    and link: "co_totals c = link_totals fps ts"
    and rates: "build_used_rate_evidence digest currency [] (flat_lines ts) = Inr (co_used_rates c, fps)"
    and version: "sh_calculation_version c = current_calculation_version"
    by (rule capture_contentE)
  have "list_all2 records_driver (pk_drivers packet) (co_totals c)"
    by (rule capture_content_records(1) [OF assms(1)])
  then have "map to_assignment_id (co_totals c) = map dt_assignment_id (pk_drivers packet)"
    by (intro list_all2_map_eq) (auto simp: records_driver_def list.rel_flip elim: list.rel_mono_strong)
  moreover have "sl_fingerprint l = None" if "t \<in> set ts" "l \<in> set (to_lines t)" for t l
    using mapM_Inr_set [OF ts that(1)] total_content_records(2) that(2) by metis
  then have "f \<in> ud_fingerprint ` set (co_used_rates c)"
    if "t \<in> set (co_totals c)" "l \<in> set (to_lines t)" "sl_fingerprint l = Some f" for t l f
    using link_totals_fingerprints [of t fps ts l] that build_used_rates_facts [OF rates]
    unfolding link by force
  ultimately show ?thesis
    using assms(2) version build_used_rates_facts [OF rates] by (force simp: storable_def)
qed

section \<open>The capture\<close>

lemma capture_snapshotE:
  assumes "capture_calculation_snapshot digest period company user packet currency db st = Inr (st', sid)"
  obtains bonuses report_hash c h lo where
    "pk_blockers packet = []" "pk_currency packet = Some currency"
    "mapM (bonus_evidence_of db currency) (load_active_bonus_events (pp_id period) company db) = Inr bonuses"
    "capture_content digest period company packet currency db = Inr c"
    "calculate_snapshot_hash digest c = Inr h"
    "insert_snapshot h report_hash user c (load_status_evidence period company db) bonuses st = Inr (st', sid)"
    "verify_snapshot digest sid (Some company) (Some (pp_branch_id period)) (Some (pp_id period)) st' = Inr lo"
proof -
  have verified: "(\<exists>lo. v = Inr lo) \<and> y = z" if
    "(case v of Inl (IntegrityError _) \<Rightarrow> Inl e' | Inl e \<Rightarrow> Inl e | Inr _ \<Rightarrow> Inr y) = Inr z" for v e' y z
    using that by (auto split: sum.splits py_error.splits)
  show thesis
    using assms unfolding capture_calculation_snapshot_def Let_def
    apply (elim bind_r_InrE)
    apply (simp only: guard_r_Inr split_beta)
    apply (drule verified)
    apply (elim exE conjE)
    apply (simp only: prod.collapse fst_conv snd_conv)
    apply (rule that; assumption)
    done
qed

lemma list_all2_flip_map_eq:
  "list_all2 (\<lambda>x y. f x = g y) xs ys \<Longrightarrow> map g ys = map f xs"
  by (induction rule: list_all2_induct) auto

end
