(* ===== verification/Final_Line_Facts.thy ===== *)
theory Final_Line_Facts
  imports Final_Lines Store_Facts Hash_Facts Packet_Facts
begin

text \<open>
  The projection of a verified snapshot: it always exists, its lines are the components, they
  add up to the frozen pay, and what finalization inserts passes the check of the readers.
\<close>

section \<open>The projection exists\<close>

definition order_key :: "loaded_component \<Rightarrow> nat \<times> int \<times> int \<times> int" where
  "order_key c = (the (kind_order (sc_kind c)), or_zero (sc_period_definition_id c),
     or_zero (sc_status_column_id c), or_zero (sc_rule_id c))"

definition line_of :: "loaded_content \<Rightarrow> loaded_total \<Rightarrow> loaded_component \<Rightarrow> projected_line" where
  "line_of c t co = projected_line c t (the (map_of ledger_line_types (sc_kind co))) co"

lemma kind_known:
  "kind_order k \<noteq> None \<longleftrightarrow> component_kind_order k < 5"
  "map_of ledger_line_types k \<noteq> None \<longleftrightarrow> component_kind_order k < 5"
  by (simp_all add: kind_order_def ledger_line_types_def component_kind_order_def)

lemma projection_key_Inr: "projection_key co = Inr k \<longleftrightarrow> component_kind_order (sc_kind co) < 5 \<and> k = order_key co"
  using kind_known(1) [of "sc_kind co"] by (auto simp: projection_key_def order_key_def)

lemma project_component_Inr:
  "project_component c t co = Inr r \<longleftrightarrow> component_kind_order (sc_kind co) < 5 \<and> r = line_of c t co"
  using kind_known(2) [of "sc_kind co"] by (auto simp: project_component_def line_of_def)

lemma mapM_Inr_map:
  assumes "\<And>x y. x \<in> set xs \<Longrightarrow> f x = Inr y \<longleftrightarrow> P x \<and> y = g x"
  shows "mapM f xs = Inr ys \<longleftrightarrow> (\<forall>x\<in>set xs. P x) \<and> ys = map g xs"
  using assms by (induction xs arbitrary: ys) (auto simp: bind_r_Inr_iff map_r_Inr_iff)

lemma project_total_Inr:
  "project_total c t = Inr rows \<longleftrightarrow> (\<forall>co\<in>set (to_components t). component_kind_order (sc_kind co) < 5) \<and>
     rows = map (line_of c t) (sort_key order_key (to_components t))"
proof -
  have keyed: "mapM (\<lambda>co. map_r (\<lambda>k. (k, co)) (projection_key co)) (to_components t) = Inr keyed \<longleftrightarrow>
      (\<forall>co\<in>set (to_components t). component_kind_order (sc_kind co) < 5) \<and>
      keyed = map (\<lambda>co. (order_key co, co)) (to_components t)" for keyed
    by (rule mapM_Inr_map) (auto simp: map_r_Inr_iff projection_key_Inr)
  have "map snd (sort_key fst (map (\<lambda>co. (order_key co, co)) (to_components t))) =
      sort_key order_key (to_components t)"
    by (simp add: sort_key_map comp_def)
  moreover have "mapM (project_component c t) cs = Inr rows \<longleftrightarrow>
      (\<forall>co\<in>set cs. component_kind_order (sc_kind co) < 5) \<and> rows = map (line_of c t) cs" for cs
    by (rule mapM_Inr_map) (rule project_component_Inr)
  moreover have "(\<exists>x. (P \<and> x = k) \<and> Q x) \<longleftrightarrow> P \<and> Q k" for P Q and k :: "((nat \<times> int \<times> int \<times> int) \<times> loaded_component) list"
    by blast
  ultimately show ?thesis
    unfolding project_total_def bind_r_Inr_iff keyed by (simp only: set_sort simp_thms conj_ac)
qed

definition projection_of :: "loaded_content \<Rightarrow> projected_line list" where
  "projection_of c =
     concat (map (\<lambda>t. map (line_of c t) (sort_key order_key (to_components t))) (co_totals c))"

lemma project_final_lines_Inr:
  "project_final_lines c = Inr rows \<longleftrightarrow>
     (\<forall>t\<in>set (co_totals c). \<forall>co\<in>set (to_components t). component_kind_order (sc_kind co) < 5) \<and>
     rows = projection_of c"
proof -
  have "mapM (project_total c) (co_totals c) = Inr rs \<longleftrightarrow>
      (\<forall>t\<in>set (co_totals c). \<forall>co\<in>set (to_components t). component_kind_order (sc_kind co) < 5) \<and>
      rs = map (\<lambda>t. map (line_of c t) (sort_key order_key (to_components t))) (co_totals c)" for rs
    by (rule mapM_Inr_map) (rule project_total_Inr)
  then show ?thesis by (auto simp: project_final_lines_def map_r_Inr_iff projection_of_def)
qed

lemma verified_kinds:
  assumes "verify_content digest c = Inr ()" "t \<in> set (co_totals c)" "co \<in> set (to_components t)"
  shows "component_kind_order (sc_kind co) < 5"
  using verify_contentD(2) [OF assms(1)] assms(2,3)
  by (auto simp: snapshot_hash_Inr_iff projectable_def bind_r_Inr_iff)

lemma verified_projection:
  assumes "verify_content digest c = Inr ()"
  shows "project_final_lines c = Inr (projection_of c)"
  using verified_kinds [OF assms] by (auto simp: project_final_lines_Inr)

section \<open>The lines add up to the frozen pay\<close>

text \<open>The bounds of the NUMERIC columns and a generous bound on the number of rows.\<close>

definition bounded_content :: "('c snapshot_component_scheme, 'l, 'u, 'z) snapshot_content_scheme \<Rightarrow> bool" where
  "bounded_content c \<longleftrightarrow> length (co_totals c) \<le> 10 ^ 6 \<and>
     (\<forall>t\<in>set (co_totals c). length (to_components t) \<le> 1000 \<and>
        (\<forall>co\<in>set (to_components t). \<bar>sc_official co\<bar> < 10 ^ 14))"

lemma verified_officials:
  assumes "verify_content digest c = Inr ()" "bounded_content c" "t \<in> set (co_totals c)"
  shows "to_expected_pay t = sum_list (map sc_official (to_components t))"
    and "money (10 ^ 17) (to_expected_pay t)"
proof -
  note total = reconcile_totalD [OF reconcile_snapshot_contentD(2) [OF verify_contentD(3) [OF assms(1)] assms(3)]]
  have m: "money (10 ^ 14) x" if "x \<in> set (map sc_official (to_components t))" for x
  proof -
    from that obtain co where co: "co \<in> set (to_components t)" "x = sc_official co" by auto
    from total(4) [OF co(1)] obtain d a where "d \<le> 4" "x = rounded (nat d) a"
      unfolding co(2) by (rule round_payable_InrD)
    then have "has_scale 4 x" by (auto intro: has_scale_mono [OF has_scale_rounded])
    with assms(2,3) co show ?thesis by (fastforce simp: money_def bounded_content_def)
  qed
  have n: "length (map sc_official (to_components t)) \<le> 1000" using assms(2,3) by (simp add: bounded_content_def)
  have "to_expected_pay t = dec_sum (map sc_official (to_components t))"
    using total(1) by (simp add: totals_match_def)
  with dec_sum_money [OF m n] show "to_expected_pay t = sum_list (map sc_official (to_components t))"
    "money (10 ^ 17) (to_expected_pay t)" by simp_all
qed

lemma verified_total:
  assumes "verify_content digest c = Inr ()" "bounded_content c"
  shows "sh_total c = sum_list (map to_expected_pay (co_totals c))"
proof -
  have m: "money (10 ^ 17) x" if "x \<in> set (map to_expected_pay (co_totals c))" for x
    using that verified_officials(2) [OF assms] by auto
  have "sh_total c = dec_sum (map to_expected_pay (co_totals c))"
    by (rule reconcile_snapshot_contentD(1) [OF verify_contentD(3) [OF assms(1)]])
  also have "\<dots> = sum_list (map to_expected_pay (co_totals c))"
    by (rule dec_sum_money(1) [OF m, where n = "10 ^ 6"]) (use assms(2) in \<open>simp_all add: bounded_content_def\<close>)
  finally show ?thesis .
qed

lemma sum_list_sort_key:
  fixes g :: "'a \<Rightarrow> rat"
  shows "sum_list (map g (sort_key f xs)) = sum_list (map g xs)"
  by (metis mset_map mset_sort sum_mset_sum_list)

lemma line_of_fields [simp]:
  "fr_amount (line_of c t co) = sc_official co" "fr_assignment_id (line_of c t co) = to_assignment_id t"
  "fr_component_id (line_of c t co) = lcm_id co"
  by (simp_all add: line_of_def projected_line_def)

lemma projection_sum:
  "sum_list (map fr_amount (filter (\<lambda>r. P (fr_assignment_id r)) (projection_of c))) =
   (\<Sum>t\<leftarrow>filter (\<lambda>t. P (to_assignment_id t)) (co_totals c). sum_list (map sc_official (to_components t)))"
proof -
  have "filter (\<lambda>r. P (fr_assignment_id r)) (map (line_of c t) cs) =
      (if P (to_assignment_id t) then map (line_of c t) cs else [])" for t cs
    by (induction cs) auto
  then have part: "sum_list (map fr_amount (filter (\<lambda>r. P (fr_assignment_id r))
      (map (line_of c t) (sort_key order_key (to_components t))))) =
      (if P (to_assignment_id t) then sum_list (map sc_official (to_components t)) else 0)" for t
    by (simp add: comp_def sum_list_sort_key)
  have "sum_list (map fr_amount (filter (\<lambda>r. P (fr_assignment_id r))
      (concat (map (\<lambda>t. map (line_of c t) (sort_key order_key (to_components t))) ts)))) =
      (\<Sum>t\<leftarrow>filter (\<lambda>t. P (to_assignment_id t)) ts. sum_list (map sc_official (to_components t)))" for ts
    by (induction ts) (simp_all add: part)
  then show ?thesis by (simp add: projection_of_def)
qed

lemma projection_pays:
  assumes "verify_content digest c = Inr ()" "bounded_content c"
  shows "sum_list (map fr_amount (filter (\<lambda>r. P (fr_assignment_id r)) (projection_of c))) =
    (\<Sum>t\<leftarrow>filter (\<lambda>t. P (to_assignment_id t)) (co_totals c). to_expected_pay t)"
proof -
  have "map (\<lambda>t. sum_list (map sc_official (to_components t))) (filter (\<lambda>t. P (to_assignment_id t)) (co_totals c)) =
      map to_expected_pay (filter (\<lambda>t. P (to_assignment_id t)) (co_totals c))"
    using verified_officials(1) [OF assms] by (intro map_cong) auto
  then show ?thesis unfolding projection_sum by (rule arg_cong)
qed

section \<open>Row ids\<close>

definition ids_ok :: "snapshot_store \<Rightarrow> bool" where
  "ids_ok st \<longleftrightarrow> distinct (map row_id (st_totals st)) \<and> distinct (map row_id (st_components st))"

lemma grown_distinct:
  assumes "grown rows new rows'" "distinct (map row_id rows)"
  shows "distinct (map row_id rows')"
proof -
  have "distinct (map row_id new)" using assms(1) by (simp add: grown_def strict_sorted_iff)
  moreover have "row_id ` set rows \<inter> row_id ` set new = {}"
    using grown_fresh [OF assms(1)] by fastforce
  ultimately show ?thesis using assms by (simp add: grown_def)
qed

lemma insert_snapshot_ids_ok:
  assumes "insert_snapshot h rh user c sts bns st = Inr (st', sid)" "ids_ok st"
  shows "ids_ok st'"
proof -
  have totals: "ids_ok st2" if "insert_totals s rate_ids st1 ts = Inr st2" "ids_ok st1" for s rate_ids st1 st2 ts
    using that
  proof (induction ts arbitrary: st1)
    case (Cons t ts)
    then obtain st' where step: "insert_total s rate_ids t st1 = Inr st'"
      and rec: "insert_totals s rate_ids st' ts = Inr st2"
      by (auto simp: bind_r_Inr_iff)
    from step obtain e rr cr lr where "total_inserted s rate_ids t st1 st' e rr cr lr"
      by (rule insert_totalE)
    then have "grown (st_components st1) cr (st_components st')"
      "st_totals st' = insert_row s (snapshot_total.truncate t) (st_totals st1)"
      by (auto simp: total_inserted_def)
    then have "ids_ok st'"
      using Cons.prems(2) grown_distinct grown_distinct [OF grown_insert_row] by (auto simp: ids_ok_def)
    with Cons.IH [OF rec] show ?case by simp
  qed simp
  from assms(1) obtain st0 st1 rate_ids st2 where
    st0: "st0 = st\<lparr>st_headers := insert_row () (header_of h rh user c st) (st_headers st)\<rparr>"
    and rates: "insert_used_rates sid (scope_of c) (co_used_rates c) st0 (\<lambda>_. None) = (st1, rate_ids)"
    and ts: "insert_totals sid rate_ids st1 (co_totals c) = Inr st2"
    and st': "st' = st2\<lparr>st_statuses := insert_evidence sid (scope_of c) sts (st_statuses st2),
       st_bonuses := insert_evidence sid (scope_of c) bns (st_bonuses st2)\<rparr>"
    by (rule insert_snapshotE)
  have "st_totals sb = st_totals sa \<and> st_components sb = st_components sa"
    if "insert_used_rates s sc us sa ids = (sb, ids')" for s sc us sa ids sb ids'
    using that by (induction us arbitrary: sa ids) (auto simp: Let_def)
  from this [OF rates] have "ids_ok st1" using assms(2) by (simp add: st0 ids_ok_def)
  from totals [OF ts this] show ?thesis by (simp add: st' ids_ok_def)
qed

lemma distinct_concat_map:
  assumes "distinct xs" "\<And>x. x \<in> set xs \<Longrightarrow> distinct (f x)"
    and "\<And>x y. x \<in> set xs \<Longrightarrow> y \<in> set xs \<Longrightarrow> x \<noteq> y \<Longrightarrow> set (f x) \<inter> set (f y) = {}"
  shows "distinct (concat (map f xs))"
  using assms by (induction xs) auto

definition component_ids :: "loaded_content \<Rightarrow> int list" where
  "component_ids c = concat (map (\<lambda>t. map lcm_id (to_components t)) (co_totals c))"

lemma loaded_component_ids:
  "map lcm_id (load_components s st tot) =
   map row_id (sort_key row_id (filter (\<lambda>r. fst (row_key r) = s \<and> fst (snd (row_key r)) = tot) (st_components st)))"
  by (simp add: load_components_select comp_def snapshot_component.defs loaded_component.defs)

lemma loaded_component_ids_distinct:
  assumes "load_snapshot_content s co br p st = Inr c" "ids_ok st"
  shows "distinct (component_ids c)"
proof -
  let ?rows = "sort_key (to_assignment_id \<circ> row_data) (filter (\<lambda>r. row_key r = s) (st_totals st))"
  let ?ids = "\<lambda>r. map lcm_id (load_components s st (row_id r))"
  have ids: "distinct (map row_id (st_totals st))" "distinct (map row_id (st_components st))"
    using assms(2) by (simp_all add: ids_ok_def)
  have "co_totals c = load_totals s st"
    using assms(1) by (auto simp: load_snapshot_content_def Let_def snapshot_content.defs loaded_content.defs
        snapshot_header.defs split: option.splits if_splits)
  then have "component_ids c = concat (map ?ids ?rows)"
    by (simp add: component_ids_def load_totals_def comp_def snapshot_total.defs total_content.defs)
  moreover have "distinct (concat (map ?ids ?rows))"
  proof (rule distinct_concat_map)
    show "distinct ?rows" using ids(1) by (simp add: distinct_map)
    show "distinct (?ids r)" for r
      unfolding loaded_component_ids using ids(2) by (auto simp: distinct_map intro: inj_on_subset)
    show "set (?ids r) \<inter> set (?ids r') = {}" if "r \<in> set ?rows" "r' \<in> set ?rows" "r \<noteq> r'" for r r'
    proof -
      have "row_id r \<noteq> row_id r'" using that ids(1) by (auto simp: distinct_map dest: inj_onD)
      moreover have "q = q'" if "q \<in> set (st_components st)" "q' \<in> set (st_components st)" "row_id q = row_id q'"
        for q q'
        using ids(2) that unfolding distinct_map by (blast dest: inj_onD)
      ultimately have "row_id q \<noteq> row_id q'" if "q \<in> set (st_components st)" "q' \<in> set (st_components st)"
        "fst (snd (row_key q)) = row_id r" "fst (snd (row_key q')) = row_id r'" for q q'
        using that by metis
      then show ?thesis unfolding loaded_component_ids by auto
    qed
  qed
  ultimately show ?thesis by simp
qed

section \<open>What finalization writes is what the readers accept\<close>

lemma strict_opt [simp]:
  "strict_json_equal (json_opt JInt x) (json_opt JInt x)" "strict_json_equal (json_opt JStr y) (json_opt JStr y)"
  by (cases x; simp) (cases y; simp)

lemma strict_strings [simp]: "strict_items_equal (map JStr xs) (map JStr xs)"
  by (induction xs) auto

lemma source_snapshot_equal: "strict_json_equal (source_snapshot c t co) (source_snapshot c t co)"
  by (simp add: source_snapshot_def)

lemma insert_rows_grown:
  "\<exists>new. grown rows new (foldl (\<lambda>rows x. insert_row k (f x) rows) rows xs) \<and> map row_data new = map f xs \<and>
     (\<forall>r\<in>set new. row_key r = k)"
proof (induction xs arbitrary: rows)
  case (Cons x xs)
  let ?row = "\<lparr>row_id = next_id rows, row_key = k, row_data = f x\<rparr>"
  from Cons.IH [of "insert_row k (f x) rows"] obtain new where
    "grown (insert_row k (f x) rows) new (foldl (\<lambda>rows x. insert_row k (f x) rows) (insert_row k (f x) rows) xs)"
    "map row_data new = map f xs" "\<forall>r\<in>set new. row_key r = k" by blast
  then show ?case
    using grown_trans [OF grown_insert_row] by (intro exI [of _ "?row # new"]) fastforce
qed auto

lemma dict_of_lookup:
  "distinct (map f xs) \<Longrightarrow> x \<in> set xs \<Longrightarrow> dict_of (map (\<lambda>x. (f x, g x)) xs) (f x) = Some (g x)"
  by (force simp: dict_of_def rev_map [symmetric] comp_def intro!: map_of_is_SomeI)

lemma projection_ids:
  "mset (map fr_component_id (projection_of c)) = mset (component_ids c)"
proof -
  have "mset (map fr_component_id (concat (map (\<lambda>t. map (line_of c t) (sort_key order_key (to_components t))) ts))) =
      mset (concat (map (\<lambda>t. map lcm_id (to_components t)) ts))" for ts
    by (induction ts) (simp_all add: image_mset.compositionality comp_def)
  then show ?thesis by (simp add: projection_of_def component_ids_def)
qed

lemma projection_memberE:
  assumes "r \<in> set (projection_of c)"
  obtains t co where "t \<in> set (co_totals c)" "co \<in> set (to_components t)" "r = line_of c t co"
  using assms by (auto simp: projection_of_def)

lemma verify_inserted_lines:
  assumes "verify_content digest c = Inr ()" "distinct (component_ids c)"
    and "final_lines_of (sh_company_id c) (sh_period_id c) ledger = []"
    and ledger': "ledger' = insert_final_lines user c (sh_company_id c) (sh_branch_id c) (sh_period_id c)
      (projection_of c) ledger"
  shows "\<exists>rows. verify_final_lines c ledger' = Inr rows \<and> map row_data rows = map (expected_columns c) (projection_of c)"
proof -
  let ?f = "inserted_final_line c (sh_company_id c) (sh_branch_id c) (sh_period_id c)"
  have same: "?f = expected_columns c"
    by (rule ext) (simp add: inserted_final_line_def expected_columns_def)
  obtain new where new: "grown ledger new ledger'" "map row_data new = map (expected_columns c) (projection_of c)"
    using insert_rows_grown [of ledger user ?f "projection_of c"]
    unfolding ledger' insert_final_lines_def same by blast
  have scope: "fl_period_id l = sh_period_id c \<and> fl_company_id l = sh_company_id c"
    if "l \<in> row_data ` set new" for l
  proof -
    have "row_data ` set new = expected_columns c ` set (projection_of c)"
      using arg_cong [OF new(2), of set] by (simp only: set_map)
    with that obtain r where "l = expected_columns c r" by blast
    then show ?thesis by (simp add: expected_columns_def)
  qed
  have rows: "final_lines_of (sh_company_id c) (sh_period_id c) ledger' = new"
    unfolding final_lines_of_def
  proof (rule select_new [OF new(1)])
    show "\<forall>r\<in>set ledger. \<not> (fl_period_id (row_data r) = sh_period_id c \<and> fl_company_id (row_data r) = sh_company_id c)"
      using arg_cong [OF assms(3), of set] by (auto simp: final_lines_of_def)
  qed (use scope in blast)
  have ids: "map (fl_component_id \<circ> row_data) new = map fr_component_id (projection_of c)"
    using arg_cong [OF new(2), of "map fl_component_id"] by (simp add: comp_def expected_columns_def)
  have dist: "distinct (map fr_component_id (projection_of c))"
    using assms(2) projection_ids by (metis mset_eq_imp_distinct_iff)
  have look: "dict_of (map (\<lambda>r. (fl_component_id (row_data r), row_data r)) new) (fr_component_id r) =
      Some (expected_columns c r)" if "r \<in> set (projection_of c)" for r
  proof -
    have "expected_columns c r \<in> row_data ` set new"
      using that arg_cong [OF new(2), of set] by auto
    then obtain q where q: "q \<in> set new" "row_data q = expected_columns c r" by auto
    have "fl_component_id (row_data q) = fr_component_id r" by (simp add: q expected_columns_def)
    then show ?thesis
      using dict_of_lookup [of "\<lambda>r. fl_component_id (row_data r)" new q row_data] q ids dist
      by (simp add: comp_def)
  qed
  have match: "columns_match (expected_columns c r) (expected_columns c r)" if "r \<in> set (projection_of c)" for r
  proof -
    obtain t co where "r = line_of c t co" using \<open>r \<in> _\<close> by (rule projection_memberE)
    then show ?thesis
      using source_snapshot_equal [of c t co]
      by (simp add: columns_match_def expected_columns_def line_of_def projected_line_def)
  qed
  have "verify_final_lines c ledger' = Inr new"
    unfolding verify_final_lines_def rows Let_def verified_projection [OF assms(1)]
    using look match dict_of_lookup [OF dist, where g = "\<lambda>r. r"] ids dist by (auto simp: comp_def)
  with new(2) show ?thesis by blast
qed

end
