(* ===== verification/Snapshot_Archive.thy ===== *)
theory Snapshot_Archive
  imports Capture_Facts Final_Line_Facts
begin

text \<open>
  The contract the workflow relies on: the snapshot tables are an append-only archive.  A capture
  adds one snapshot under a new id, leaves every other snapshot as it was, and a snapshot that
  verifies keeps verifying with the same content.  The interpretation at the end discharges the
  laws for the writer and the verification of the model.
\<close>

section \<open>The interface\<close>

locale snapshot_archive =
  fixes capture :: "'arg \<Rightarrow> 'st \<Rightarrow> ('st \<times> int) result"
    and verify :: "'scope \<Rightarrow> int \<Rightarrow> 'st \<Rightarrow> 'content result"
    and valid :: "'arg \<Rightarrow> bool"
    and ok :: "'st \<Rightarrow> bool"
  assumes capture_ok: "ok st \<Longrightarrow> valid x \<Longrightarrow> capture x st = Inr (st', sid) \<Longrightarrow> ok st'"
    and capture_keeps: "ok st \<Longrightarrow> valid x \<Longrightarrow> capture x st = Inr (st', sid) \<Longrightarrow> s \<noteq> sid \<Longrightarrow>
      verify sc s st' = verify sc s st"
    and capture_fresh: "ok st \<Longrightarrow> capture x st = Inr (st', sid) \<Longrightarrow> verify sc sid st \<noteq> Inr c"
begin

lemma verified_stays:
  assumes "ok st" "valid x" "capture x st = Inr (st', sid)" "verify sc s st = Inr c"
  shows "verify sc s st' = Inr c"
proof -
  have "s \<noteq> sid" using capture_fresh [OF assms(1,3)] assms(4) by auto
  with capture_keeps [OF assms(1-3)] assms(4) show ?thesis by simp
qed

definition captures :: "'arg list \<Rightarrow> 'st \<Rightarrow> 'st result" where
  "captures xs st = foldM (\<lambda>st x. map_r fst (capture x st)) st xs"

lemma verified_forever:
  assumes "captures xs st = Inr st'" "ok st" "\<forall>x\<in>set xs. valid x" "verify sc s st = Inr c"
  shows "ok st' \<and> verify sc s st' = Inr c"
  using assms
proof (induction xs arbitrary: st)
  case (Cons x xs)
  then obtain st1 sid where step: "capture x st = Inr (st1, sid)" and rest: "captures xs st1 = Inr st'"
    by (auto simp: captures_def bind_r_Inr_iff map_r_Inr_iff)
  have x: "valid x" using Cons.prems(3) by simp
  show ?case
    using Cons.IH [OF rest capture_ok [OF Cons.prems(2) x step] _ verified_stays [OF Cons.prems(2) x step Cons.prems(4)]]
      Cons.prems(3) by simp
qed (simp add: captures_def)

end

section \<open>The writer and the verification provide it\<close>

definition store_ok :: "snapshot_store \<Rightarrow> bool" where
  "store_ok st \<longleftrightarrow> fks_ok st \<and> ids_ok st"

definition sorted_packet :: "live_packet \<Rightarrow> bool" where
  "sorted_packet packet \<longleftrightarrow> sorted (map dt_assignment_id (pk_drivers packet))"

definition archive_capture ::
  "(json \<Rightarrow> string) \<Rightarrow> period_summary \<times> int \<times> int \<times> live_packet \<times> company_currency \<times> payroll_db
   \<Rightarrow> snapshot_store \<Rightarrow> (snapshot_store \<times> int) result" where
  "archive_capture digest = (\<lambda>(period, company_id, user_id, packet, currency, db) st.
     capture_calculation_snapshot digest period company_id user_id packet currency db st)"

definition archive_verify ::
  "(json \<Rightarrow> string) \<Rightarrow> int option \<times> int option \<times> int option \<Rightarrow> int \<Rightarrow> snapshot_store \<Rightarrow> loaded_content result" where
  "archive_verify digest = (\<lambda>(company, branch, period) sid st. verify_snapshot digest sid company branch period st)"

definition archive_valid ::
  "period_summary \<times> int \<times> int \<times> live_packet \<times> company_currency \<times> payroll_db \<Rightarrow> bool" where
  "archive_valid = (\<lambda>(period, company_id, user_id, packet, currency, db). sorted_packet packet)"

lemma live_packet_sorted:
  "build_live_calculation_packet bd period cid db = Inr pk \<Longrightarrow> sorted_packet pk"
  by (erule build_packet_InrE, drule assemble_packet_drivers)
    (simp only: sorted_packet_def packet_drivers_def sorted_sorted_set)

lemma captured_snapshot_id:
  "insert_snapshot h rh user c sts bns st = Inr (st', sid) \<Longrightarrow> sid = next_id (st_headers st)"
  by (erule insert_snapshotE)

lemma missing_snapshot:
  assumes "sid = next_id (st_headers st)"
  shows "verify_snapshot digest sid company branch period st = Inl (evidence_error ''SNAPSHOT_NOT_FOUND'')"
proof -
  have "find_first (\<lambda>r. row_id r = sid) (st_headers st) = None"
    using next_id_greater [of _ "st_headers st"] by (fastforce simp: find_first_None_iff assms)
  then show ?thesis by (simp add: verify_snapshot_def load_snapshot_content_def)
qed

interpretation calculation_archive:
  snapshot_archive "archive_capture digest" "archive_verify digest" archive_valid store_ok for digest
proof unfold_locales
  fix st st' :: snapshot_store and x :: "period_summary \<times> int \<times> int \<times> live_packet \<times> company_currency \<times> payroll_db"
    and sid s :: int and sc :: "int option \<times> int option \<times> int option" and lo :: loaded_content
  assume ok: "store_ok st" and cap: "archive_capture digest x st = Inr (st', sid)"
  obtain period company user packet currency db where x: "x = (period, company, user, packet, currency, db)"
    by (cases x)
  obtain company' branch' period' where sc: "sc = (company', branch', period')" by (cases sc)
  from cap obtain bonuses rh c h where
    cc: "capture_content digest period company packet currency db = Inr c"
    and ins: "insert_snapshot h rh user c (load_status_evidence period company db) bonuses st = Inr (st', sid)"
    unfolding x archive_capture_def prod.case by (rule capture_snapshotE)
  show "archive_verify digest sc sid st \<noteq> Inr lo"
    using missing_snapshot [OF captured_snapshot_id [OF ins]] by (simp add: sc archive_verify_def)
  assume "archive_valid x"
  then have st: "storable c"
    using capture_content_storable [OF cc] by (simp add: x archive_valid_def sorted_packet_def)
  show "store_ok st'"
    using insert_snapshot_keeps(2) [OF ins _ st, of "sid + 1"] insert_snapshot_ids_ok [OF ins] ok
    by (simp add: store_ok_def)
  assume "s \<noteq> sid"
  with insert_snapshot_keeps(1) [OF ins _ st] ok
  show "archive_verify digest sc s st' = archive_verify digest sc s st"
    by (simp add: sc archive_verify_def verify_snapshot_def store_ok_def)
qed

section \<open>What a captured snapshot says\<close>

text \<open>A loaded total pays a driver what the packet pays, component by component.\<close>

definition pays_driver :: "driver_total \<Rightarrow> loaded_total \<Rightarrow> bool" where
  "pays_driver dt t \<longleftrightarrow>
     to_assignment_id t = dt_assignment_id dt \<and> to_driver_id t = dt_driver_id dt \<and>
     to_expected_pay t = dt_expected_pay dt \<and>
     map snapshot_component.truncate (to_components t) = map component_content (dt_components dt)"

lemma captured_pays:
  assumes "capture_calculation_snapshot digest period company user packet currency db st = Inr (st', sid)"
    and "store_ok st" "sorted_packet packet"
  obtains lo where
    "verify_snapshot digest sid (Some company) (Some (pp_branch_id period)) (Some (pp_id period)) st' = Inr lo"
    "list_all2 pays_driver (pk_drivers packet) (co_totals lo)" "sh_total lo = pk_total packet"
    "sh_currency_code lo = cur_code currency" "sh_currency_digits lo = minor_unit_digits currency"
    "lo_snapshot_id lo = sid"
proof -
  from assms(1) obtain bonuses rh c h lo where
    cc: "capture_content digest period company packet currency db = Inr c"
    and ins: "insert_snapshot h rh user c (load_status_evidence period company db) bonuses st = Inr (st', sid)"
    and ver: "verify_snapshot digest sid (Some company) (Some (pp_branch_id period)) (Some (pp_id period)) st' = Inr lo"
    by (rule capture_snapshotE)
  have st: "storable c" using capture_content_storable [OF cc] assms(3) by (simp add: sorted_packet_def)
  have sc: "scope_of c = (company, pp_branch_id period, pp_id period)" by (rule capture_content_records(3) [OF cc])
  from insert_snapshot_loads [OF ins _ st] assms(2) verify_snapshotD(1) [OF ver] sc
  have form: "stored_form lo = stored_form c" and sid: "lo_snapshot_id lo = sid"
    by (auto simp: store_ok_def scope_of_def)
  have head: "snapshot_header.truncate lo = snapshot_header.truncate c"
    and totals: "map total_form (co_totals lo) = map total_form (co_totals c)"
    using form by (simp_all add: stored_form_def)
  have one: "pays_driver dt t" if "records_driver dt u" "total_form t = total_form u" for dt t u
  proof -
    have "snapshot_total.truncate t = snapshot_total.truncate u"
      "map snapshot_component.truncate (to_components t) = map snapshot_component.truncate (to_components u)"
      using that(2) by (simp_all add: total_form_def)
    then show ?thesis
      using that(1) by (simp add: pays_driver_def records_driver_def snapshot_total.defs comp_def truncate_component)
  qed
  have "list_all2 (\<lambda>u t. total_form t = total_form u) (co_totals c) (co_totals lo)"
    using totals by (simp add: list_all2_conv_all_nth list_eq_iff_nth_eq)
  from list_all2_trans [OF one capture_content_records(1) [OF cc] this]
  have "list_all2 pays_driver (pk_drivers packet) (co_totals lo)" .
  moreover have "sh_total lo = sh_total c" "sh_currency_code lo = sh_currency_code c"
    "sh_currency_digits lo = sh_currency_digits c"
    using head by (simp_all add: snapshot_header.defs)
  ultimately show thesis
    using that [OF ver] capture_content_records(2,4,5) [OF cc] sid by simp
qed

end
