(* ===== verification/Workflow_Facts.thy ===== *)
theory Workflow_Facts
  imports Finalization Snapshot_Archive
begin

text \<open>
  The effect of every workflow handler on the four tables the workflow owns (periods, snapshots,
  review items, FinalLines), and the invariant of these tables: at most one period per Branch in
  each slot status, and the review items, the snapshots and the FinalLines of a period agree with
  its status.
\<close>

section \<open>Status updates\<close>

definition set_status :: "int \<Rightarrow> string \<Rightarrow> period_row list \<Rightarrow> period_row list" where
  "set_status i new ps = map (\<lambda>p. if pp_id p = i then p\<lparr>pp_status := new\<rparr> else p) ps"

lemma set_status_ids [simp]: "map pp_id (set_status i new ps) = map pp_id ps"
  by (induction ps) (auto simp: set_status_def)

lemma set_status_member:
  "distinct (map pp_id ps) \<Longrightarrow> p \<in> set ps \<Longrightarrow> pp_id p = i \<Longrightarrow>
   q \<in> set (set_status i new ps) \<longleftrightarrow> q = p\<lparr>pp_status := new\<rparr> \<or> q \<in> set ps \<and> pp_id q \<noteq> i"
  unfolding set_status_def by (auto simp: distinct_map dest: inj_onD)

definition slots_unique :: "period_row list \<Rightarrow> bool" where
  "slots_unique ps \<longleftrightarrow> (\<forall>s\<in>set slot_statuses. slot_unique s ps)"

lemma slot_unique_set_status:
  assumes "slot_unique s ps" "s \<noteq> new"
  shows "slot_unique s (set_status i new ps)"
proof -
  let ?P = "\<lambda>p. pp_status p = s"
  have "map branch_of_period (filter (\<lambda>p. pp_status p = s) (set_status i new ps)) =
      map branch_of_period (filter (\<lambda>p. pp_status p = s \<and> pp_id p \<noteq> i) ps)"
    using assms(2) by (induction ps) (simp_all add: set_status_def branch_of_period_def)
  also have "\<dots> = map branch_of_period (filter (\<lambda>p. pp_id p \<noteq> i) (filter ?P ps))"
    by (simp add: conj_commute)
  finally show ?thesis
    using distinct_map_filter [OF assms(1) [unfolded slot_unique_def]] by (simp only: slot_unique_def)
qed

lemma slots_unique_set_status:
  assumes "slots_unique ps" "new \<in> set slot_statuses \<Longrightarrow> slot_unique new (set_status i new ps)"
  shows "slots_unique (set_status i new ps)"
  unfolding slots_unique_def
proof
  fix s assume "s \<in> set slot_statuses"
  then show "slot_unique s (set_status i new ps)"
    using assms slot_unique_set_status [of s ps new i] by (cases "s = new") (simp_all add: slots_unique_def)
qed

lemma claim_statusE:
  assumes "claim_status company i branch old new lost ws = Inr ws'"
    and "distinct (map pp_id (periods (ws_db ws)))"
  obtains p where "p \<in> set (periods (ws_db ws))" "pp_id p = i" "pp_company_id p = company" "pp_status p = old"
    "branch \<noteq> None \<Longrightarrow> branch = Some (pp_branch_id p)"
    "ws' = with_periods (set_status i new (periods (ws_db ws))) ws"
    "new \<in> set slot_statuses \<Longrightarrow> slot_unique new (set_status i new (periods (ws_db ws)))"
proof -
  let ?ps = "periods (ws_db ws)"
  let ?m = "\<lambda>p. pp_id p = i \<and> pp_company_id p = company \<and>
    (case branch of None \<Rightarrow> True | Some b \<Rightarrow> pp_branch_id p = b) \<and> pp_status p = old"
  from assms(1) obtain p where p: "p \<in> set ?ps" "?m p"
    by (auto simp: claim_status_def claim_periods_def Let_def split: if_splits)
  have only: "?m q \<longleftrightarrow> pp_id q = i" if "q \<in> set ?ps" for q
    using that p assms(2) by (auto simp: distinct_map dest: inj_onD)
  have "map (\<lambda>p. if ?m p then p\<lparr>pp_status := new\<rparr> else p) ?ps = set_status i new ?ps"
    unfolding set_status_def by (intro map_cong refl) (simp add: only)
  with assms(1) p have "ws' = with_periods (set_status i new ?ps) ws"
    "new \<in> set slot_statuses \<Longrightarrow> slot_unique new (set_status i new ?ps)"
    by (auto simp: claim_status_def claim_periods_def Let_def split: if_splits)
  with p show thesis by (intro that [of p]) (auto split: option.splits)
qed

section \<open>The invariant\<close>

definition approvals_of :: "period_row \<Rightarrow> review_item list \<Rightarrow> review_item list" where
  "approvals_of p ris = filter (is_period_approval (pp_company_id p) (pp_id p)) ris"

definition with_status :: "string \<Rightarrow> review_item list \<Rightarrow> review_item list" where
  "with_status s ris = filter (\<lambda>ri. ri_status ri = s) ris"

definition period_scope :: "period_row \<Rightarrow> int option \<times> int option \<times> int option" where
  "period_scope p = (Some (pp_company_id p), Some (pp_branch_id p), Some (pp_id p))"

text \<open>The item carries a snapshot of the period that verifies.\<close>

definition item_ok :: "(json \<Rightarrow> string) \<Rightarrow> snapshot_store \<Rightarrow> period_row \<Rightarrow> review_item \<Rightarrow> bool" where
  "item_ok digest st p ri \<longleftrightarrow> ri_branch_id ri = pp_branch_id p \<and>
     (\<exists>sid lo. ri_snapshot_id ri = Some sid \<and> archive_verify digest (period_scope p) sid st = Inr lo)"

text \<open>The approved snapshot of the period is what its FinalLines say.\<close>

definition paid :: "(json \<Rightarrow> string) \<Rightarrow> snapshot_store \<Rightarrow> review_item list \<Rightarrow> final_ledger \<Rightarrow> period_row \<Rightarrow> bool" where
  "paid digest st ris ledger p \<longleftrightarrow>
     (\<exists>ri\<in>set (with_status ''Approved'' (approvals_of p ris)). \<exists>sid lo rows. ri_snapshot_id ri = Some sid \<and>
        archive_verify digest (period_scope p) sid st = Inr lo \<and> verify_final_lines lo ledger = Inr rows \<and>
        map row_data rows = map (expected_columns lo) (projection_of lo))"

definition lines_of_period :: "period_row \<Rightarrow> final_ledger \<Rightarrow> (int, final_line) row list" where
  "lines_of_period p ledger = final_lines_of (pp_company_id p) (pp_id p) ledger"

definition authorized :: "string \<Rightarrow> bool" where
  "authorized s \<longleftrightarrow> s \<in> {''Approved'', ''Locked'', ''Archived''}"

definition settled :: "string \<Rightarrow> bool" where
  "settled s \<longleftrightarrow> s \<in> {''Locked'', ''Archived''}"

definition period_ok ::
  "(json \<Rightarrow> string) \<Rightarrow> snapshot_store \<Rightarrow> review_item list \<Rightarrow> final_ledger \<Rightarrow> period_row \<Rightarrow> bool" where
  "period_ok digest st ris ledger p \<longleftrightarrow>
     (\<forall>ri\<in>set (approvals_of p ris). item_ok digest st p ri) \<and>
     length (with_status ''Pending'' (approvals_of p ris)) = (if pp_status p = ''InReview'' then 1 else 0) \<and>
     length (with_status ''Approved'' (approvals_of p ris)) =
       (if authorized (pp_status p) then 1 else 0) \<and>
     (if settled (pp_status p) then paid digest st ris ledger p
      else lines_of_period p ledger = [])"

definition tables_ok ::
  "(json \<Rightarrow> string) \<Rightarrow> period_row list \<Rightarrow> snapshot_store \<Rightarrow> review_item list \<Rightarrow> final_ledger \<Rightarrow> bool" where
  "tables_ok digest ps st ris ledger \<longleftrightarrow>
     distinct (map pp_id ps) \<and> slots_unique ps \<and> store_ok st \<and> distinct (map ri_id ris) \<and>
     (\<forall>ri\<in>set ris. ri_request_type ri = ''PeriodApproval'' \<longrightarrow>
        (\<exists>p\<in>set ps. is_period_approval (pp_company_id p) (pp_id p) ri)) \<and>
     (\<forall>l\<in>set ledger. fl_period_id (row_data l) \<in> pp_id ` set ps) \<and>
     (\<forall>p\<in>set ps. period_ok digest st ris ledger p)"

definition workflow_ok :: "(json \<Rightarrow> string) \<Rightarrow> workflow_state \<Rightarrow> bool" where
  "workflow_ok digest ws \<longleftrightarrow>
     tables_ok digest (periods (ws_db ws)) (ws_store ws) (ws_items ws) (ws_ledger ws)"

text \<open>What a period needs depends on its own items, the snapshots they name and its own lines.\<close>

lemma verified_scope:
  assumes "archive_verify digest (period_scope p) sid st = Inr lo"
  shows "sh_company_id lo = pp_company_id p" "sh_branch_id lo = pp_branch_id p" "sh_period_id lo = pp_id p"
    and "lo_snapshot_id lo = sid" "verify_content digest lo = Inr ()"
proof -
  from assms have ver: "verify_snapshot digest sid (Some (pp_company_id p)) (Some (pp_branch_id p)) (Some (pp_id p)) st = Inr lo"
    by (simp add: archive_verify_def period_scope_def)
  show "verify_content digest lo = Inr ()" by (rule verify_snapshotD(2) [OF ver])
  show "sh_company_id lo = pp_company_id p" "sh_branch_id lo = pp_branch_id p" "sh_period_id lo = pp_id p"
    "lo_snapshot_id lo = sid"
    using verify_snapshotD(1) [OF ver]
    by (auto simp: load_snapshot_content_def Let_def in_scope_def snapshot_content.defs loaded_content.defs
        snapshot_header.defs split: option.splits if_splits)
qed

lemma verify_final_lines_cong:
  assumes "archive_verify digest (period_scope p) sid st = Inr lo"
    and "lines_of_period p ledger' = lines_of_period p ledger"
  shows "verify_final_lines lo ledger' = verify_final_lines lo ledger"
  using assms(2) by (simp add: verify_final_lines_def lines_of_period_def verified_scope [OF assms(1)])

lemma period_ok_frame:
  assumes "period_ok digest st ris ledger p" "approvals_of p ris' = approvals_of p ris"
    and keeps: "\<And>sc s lo. archive_verify digest sc s st = Inr lo \<Longrightarrow> archive_verify digest sc s st' = Inr lo"
    and lines: "lines_of_period p ledger' = lines_of_period p ledger"
  shows "period_ok digest st' ris' ledger' p"
proof -
  have "item_ok digest st p ri \<Longrightarrow> item_ok digest st' p ri" for ri
    using keeps by (fastforce simp: item_ok_def)
  moreover have "paid digest st ris ledger p \<Longrightarrow> paid digest st' ris' ledger' p"
    unfolding paid_def assms(2) using keeps verify_final_lines_cong [OF _ lines] by (metis (no_types, lifting))
  ultimately show ?thesis
    using assms(1) by (simp add: period_ok_def assms(2) lines split: if_splits)
qed

lemma approvals_append_other:
  assumes "ri_entity_id ri = Some (show_int i)" "pp_id p \<noteq> i"
  shows "approvals_of p (ris @ [ri]) = approvals_of p ris"
  using assms by (simp add: approvals_of_def is_period_approval_def)

text \<open>One period changes its status; its items, snapshot and lines may change with it.\<close>

lemma status_update_frame [simp]:
  "approvals_of (p\<lparr>pp_status := s\<rparr>) ris = approvals_of p ris"
  "lines_of_period (p\<lparr>pp_status := s\<rparr>) ledger = lines_of_period p ledger"
  "period_scope (p\<lparr>pp_status := s\<rparr>) = period_scope p"
  "item_ok digest st (p\<lparr>pp_status := s\<rparr>) = item_ok digest st p"
  "paid digest st ris ledger (p\<lparr>pp_status := s\<rparr>) = paid digest st ris ledger p"
  by (simp_all add: approvals_of_def lines_of_period_def period_scope_def item_ok_def paid_def fun_eq_iff)

lemma tables_ok_update:
  assumes ok: "tables_ok digest ps st ris ledger" and p: "p \<in> set ps"
    and slot: "new \<in> set slot_statuses \<Longrightarrow> slot_unique new (set_status (pp_id p) new ps)"
    and store: "store_ok st'"
    and keeps: "\<And>sc s lo. archive_verify digest sc s st = Inr lo \<Longrightarrow> archive_verify digest sc s st' = Inr lo"
    and items: "distinct (map ri_id ris')"
      "\<And>ri. ri \<in> set ris' \<Longrightarrow> ri_request_type ri = ''PeriodApproval'' \<Longrightarrow>
        \<exists>q\<in>set ps. is_period_approval (pp_company_id q) (pp_id q) ri"
    and ledger: "\<And>l. l \<in> set ledger' \<Longrightarrow> fl_period_id (row_data l) \<in> pp_id ` set ps"
    and others: "\<And>q. q \<in> set ps \<Longrightarrow> pp_id q \<noteq> pp_id p \<Longrightarrow> approvals_of q ris' = approvals_of q ris"
      "\<And>q. q \<in> set ps \<Longrightarrow> pp_id q \<noteq> pp_id p \<Longrightarrow> lines_of_period q ledger' = lines_of_period q ledger"
    and this_one: "period_ok digest st' ris' ledger' (p\<lparr>pp_status := new\<rparr>)"
  shows "tables_ok digest (set_status (pp_id p) new ps) st' ris' ledger'"
  unfolding tables_ok_def
proof (intro conjI ballI impI)
  note dist = ok [unfolded tables_ok_def, THEN conjunct1]
  note member = set_status_member [OF dist p refl]
  show "distinct (map pp_id (set_status (pp_id p) new ps))" using dist by simp
  show "slots_unique (set_status (pp_id p) new ps)"
    using ok slot by (intro slots_unique_set_status) (simp_all add: tables_ok_def)
  show "store_ok st'" "distinct (map ri_id ris')" by (fact store, fact items(1))
  show "\<exists>q\<in>set (set_status (pp_id p) new ps). is_period_approval (pp_company_id q) (pp_id q) ri"
    if "ri \<in> set ris'" "ri_request_type ri = ''PeriodApproval''" for ri
  proof -
    from items(2) [OF that] obtain q where q: "q \<in> set ps" "is_period_approval (pp_company_id q) (pp_id q) ri" by blast
    show ?thesis
    proof (cases "pp_id q = pp_id p")
      case True
      with dist p q(1) have "q = p" by (auto simp: distinct_map dest: inj_onD)
      with q(2) show ?thesis by (intro bexI [of _ "p\<lparr>pp_status := new\<rparr>"]) (simp_all add: member)
    next
      case False
      with q show ?thesis by (intro bexI [of _ q]) (simp_all add: member)
    qed
  qed
  have "pp_id ` set (set_status (pp_id p) new ps) = pp_id ` set ps"
    by (simp only: set_map [symmetric] set_status_ids)
  with ledger show "fl_period_id (row_data l) \<in> pp_id ` set (set_status (pp_id p) new ps)" if "l \<in> set ledger'" for l
    using that by simp
  show "period_ok digest st' ris' ledger' q" if "q \<in> set (set_status (pp_id p) new ps)" for q
  proof -
    from that have "q = p\<lparr>pp_status := new\<rparr> \<or> q \<in> set ps \<and> pp_id q \<noteq> pp_id p" by (simp add: member)
    then show ?thesis
    proof
      assume "q \<in> set ps \<and> pp_id q \<noteq> pp_id p"
      then have q: "q \<in> set ps" "pp_id q \<noteq> pp_id p" by simp_all
      have "period_ok digest st ris ledger q" using ok q(1) by (simp add: tables_ok_def)
      then show ?thesis by (rule period_ok_frame [OF _ others(1) [OF q] keeps others(2) [OF q]])
    qed (simp add: this_one)
  qed
qed

definition same_phase :: "string \<Rightarrow> string \<Rightarrow> bool" where
  "same_phase old new \<longleftrightarrow> (old = ''InReview'' \<longleftrightarrow> new = ''InReview'') \<and>
     authorized old = authorized new \<and> settled old = settled new"

lemma period_ok_same_phase:
  assumes "period_ok digest st ris ledger p" "same_phase (pp_status p) new"
  shows "period_ok digest st ris ledger (p\<lparr>pp_status := new\<rparr>)"
  using assms by (simp add: period_ok_def same_phase_def)

lemma tables_ok_same_phase:
  assumes "tables_ok digest ps st ris ledger" "p \<in> set ps" "same_phase (pp_status p) new"
    and "new \<in> set slot_statuses \<Longrightarrow> slot_unique new (set_status (pp_id p) new ps)"
  shows "tables_ok digest (set_status (pp_id p) new ps) st ris ledger"
  using assms(1,2) period_ok_same_phase [OF _ assms(3)]
  by (intro tables_ok_update [OF assms(1,2,4)]) (simp_all add: tables_ok_def)

section \<open>Effects of the handlers\<close>

lemma with_periods_simps [simp]:
  "periods (ws_db (with_periods ps ws)) = ps" "ws_store (with_periods ps ws) = ws_store ws"
  "ws_items (with_periods ps ws) = ws_items ws" "ws_ledger (with_periods ps ws) = ws_ledger ws"
  "ws_access (with_periods ps ws) = ws_access ws"
  by (simp_all add: with_periods_def)

lemma update_columns_simps [simp]:
  "ws_db (update_columns i f ws) = ws_db ws" "ws_store (update_columns i f ws) = ws_store ws"
  "ws_items (update_columns i f ws) = ws_items ws" "ws_ledger (update_columns i f ws) = ws_ledger ws"
  "ws_access (update_columns i f ws) = ws_access ws"
  by (simp_all add: update_columns_def)

lemma evidence_keeps:
  assumes "capture_workflow_action_evidence c b i a u perm sid item dec reason ws = Inr ws'"
  shows "ws_db ws' = ws_db ws" "ws_store ws' = ws_store ws" "ws_items ws' = ws_items ws"
    "ws_ledger ws' = ws_ledger ws" "ws_access ws' = ws_access ws"
  using assms by (auto simp: capture_workflow_action_evidence_def split: option.splits)

lemma summary_of_simps [simp]:
  "pp_id (summary_of ws p) = pp_id p" "pp_company_id (summary_of ws p) = pp_company_id p"
  "pp_branch_id (summary_of ws p) = pp_branch_id p" "pp_status (summary_of ws p) = pp_status p"
  "period_row.truncate (summary_of ws p) = p"
  by (simp_all add: summary_of_def period_row.defs)

lemma get_period_by_idE:
  assumes "get_period_by_id company user i ws = Inr existing"
  obtains p where "p \<in> set (periods (ws_db ws))" "pp_id p = i" "pp_company_id p = company"
    "existing = summary_of ws p" "\<not> is_driver_self_subject company user (ws_access ws)"
proof -
  from assms obtain access p where "find_period company i ws = Some p" "existing = summary_of ws p"
    "\<not> is_driver_self_subject company user (ws_access ws)"
    unfolding get_period_by_id_def
    by (auto simp: bind_r_Inr_iff map_r_Inr_iff require_non_driver_subject_def split: option.splits if_splits)
  with that show thesis by (auto simp: find_period_def dest: find_first_SomeD)
qed

lemma submit_packetE:
  assumes "submit_packet digest boundary action company user existing currency ws = Inr ws'"
  obtains packet sid where
    "build_live_calculation_packet boundary (period_row.truncate existing) company (ws_db ws) = Inr packet"
    "archive_capture digest (existing, company, user, packet, currency, ws_db ws) (ws_store ws) = Inr (ws_store ws', sid)"
    "\<not> pending_item_exists company (pp_id existing) ws"
    "ws_items ws' = ws_items ws @
      [pending_period_item (next_item_id (ws_items ws)) company (pp_branch_id existing) user (pp_id existing) sid]"
    "ws_db ws' = ws_db ws" "ws_ledger ws' = ws_ledger ws" "ws_access ws' = ws_access ws"
proof -
  from assms obtain packet store sid ws1 where
    steps: "build_live_calculation_packet boundary (period_row.truncate existing) company (ws_db ws) = Inr packet"
    "capture_calculation_snapshot digest existing company user packet currency (ws_db ws) (ws_store ws) = Inr (store, sid)"
    "\<not> pending_item_exists company (pp_id existing) ws"
    and ev: "capture_workflow_action_evidence company (pp_branch_id existing) (pp_id existing) action user
      ''payroll.entry'' (Some sid) None None None (ws\<lparr>ws_store := store\<rparr>) = Inr ws1"
    and ws': "ws' = ws1\<lparr>ws_items := ws_items ws1 @
      [pending_period_item (next_item_id (ws_items ws1)) company (pp_branch_id existing) user (pp_id existing) sid]\<rparr>"
    unfolding submit_packet_def Let_def
    by (elim bind_r_InrE) (auto elim!: bind_r_InrE simp: guard_r_Inr split: prod.splits)
  note keeps = evidence_keeps [OF ev]
  show thesis
    by (rule that [OF steps(1) _ steps(3)]) (use steps(2) keeps in \<open>simp_all add: ws' archive_capture_def\<close>)
qed

lemma no_pending_item:
  "\<not> pending_item_exists (pp_company_id p) (pp_id p) ws \<Longrightarrow> with_status ''Pending'' (approvals_of p (ws_items ws)) = []"
  by (auto simp: pending_item_exists_def with_status_def approvals_of_def filter_empty_conv)

text \<open>What submission and resubmission do to the tables.\<close>

definition submitted ::
  "(json \<Rightarrow> string) \<Rightarrow> (string \<Rightarrow> date \<Rightarrow> int) \<Rightarrow> int \<Rightarrow> period_row \<Rightarrow> live_packet \<Rightarrow> int \<Rightarrow> workflow_state
   \<Rightarrow> workflow_state \<Rightarrow> bool" where
  "submitted digest boundary user p packet sid ws ws' \<longleftrightarrow>
     p \<in> set (periods (ws_db ws)) \<and> with_status ''Pending'' (approvals_of p (ws_items ws)) = [] \<and> pp_status p \<in> {''Open'', ''Returned''} \<and>
     build_live_calculation_packet boundary p (pp_company_id p) (ws_db ws) = Inr packet \<and>
     (\<exists>existing currency. period_row.truncate existing = p \<and>
        lock_and_get_company_currency (pp_company_id p) ws = Inr currency \<and>
        archive_capture digest (existing, pp_company_id p, user, packet, currency, ws_db ws) (ws_store ws) =
          Inr (ws_store ws', sid)) \<and>
     ws_items ws' = ws_items ws @
       [pending_period_item (next_item_id (ws_items ws)) (pp_company_id p) (pp_branch_id p) user (pp_id p) sid] \<and>
     periods (ws_db ws') = set_status (pp_id p) ''InReview'' (periods (ws_db ws)) \<and>
     slot_unique ''InReview'' (periods (ws_db ws')) \<and> ws_ledger ws' = ws_ledger ws"

text \<open>A plain change of one period's status.\<close>

definition restatus :: "int \<Rightarrow> string \<Rightarrow> string \<Rightarrow> workflow_state \<Rightarrow> workflow_state \<Rightarrow> bool" where
  "restatus i old new ws ws' \<longleftrightarrow>
     (\<exists>p\<in>set (periods (ws_db ws)). pp_id p = i \<and> pp_status p = old) \<and>
     periods (ws_db ws') = set_status i new (periods (ws_db ws)) \<and>
     (new \<in> set slot_statuses \<longrightarrow> slot_unique new (periods (ws_db ws'))) \<and>
     ws_store ws' = ws_store ws \<and> ws_items ws' = ws_items ws \<and> ws_ledger ws' = ws_ledger ws"

definition same_tables :: "workflow_state \<Rightarrow> workflow_state \<Rightarrow> bool" where
  "same_tables ws ws' \<longleftrightarrow> periods (ws_db ws') = periods (ws_db ws) \<and> ws_store ws' = ws_store ws \<and>
     ws_items ws' = ws_items ws \<and> ws_ledger ws' = ws_ledger ws"

lemma submitted_same:
  "submitted digest boundary user p packet sid ws ws2 \<Longrightarrow> same_tables ws2 ws' \<Longrightarrow>
   submitted digest boundary user p packet sid ws ws'"
  unfolding submitted_def same_tables_def by (elim conjE) simp

lemma claim_restatus:
  assumes "claim_status company i branch old new lost ws = Inr ws'" "distinct (map pp_id (periods (ws_db ws)))"
  shows "restatus i old new ws ws'" "ws_access ws' = ws_access ws"
  using assms by (auto elim!: claim_statusE simp: restatus_def)

lemma regenerate_keeps_periods [simp]:
  "periods (regenerate_period_driver_eligibility_rows boundary i c b now db) = periods db"
  by (simp add: regenerate_period_driver_eligibility_rows_def freeze_period_driver_eligibility_snapshot_def
      create_period_driver_eligibility_rows_def Let_def)

lemma promote_draft_effect:
  assumes "promote_draft boundary now company branch draft ws = Inr ws'"
    and "distinct (map pp_id (periods (ws_db ws)))"
  shows "same_tables ws ws' \<or> (\<exists>d. restatus d ''Draft'' ''Open'' ws ws')"
proof (cases draft)
  case None
  with assms(1) show ?thesis by (simp add: promote_draft_def same_tables_def)
next
  case (Some d)
  with assms(1) obtain ws1 where claim: "claim_status company (pp_id d) (Some branch) ''Draft'' ''Open''
      (HttpError 409 ''Adjacent Draft period moved concurrently during submission.'') ws = Inr ws1"
    and ws': "ws' = ws1\<lparr>ws_db := regenerate_period_driver_eligibility_rows boundary (pp_id d) company branch now (ws_db ws1)\<rparr>"
    by (auto simp: promote_draft_def map_r_Inr_iff)
  from claim_restatus(1) [OF claim assms(2)] have "restatus (pp_id d) ''Draft'' ''Open'' ws ws'"
    by (auto simp: ws' restatus_def)
  then show ?thesis by blast
qed

lemma submit_claim:
  assumes packet: "submit_packet digest boundary action company user (summary_of ws p) currency ws = Inr ws1"
    and claim: "claim_status company (pp_id p) branch old ''InReview'' lost ws1 = Inr ws2"
    and p: "p \<in> set (periods (ws_db ws))" "pp_company_id p = company"
    and old: "old \<in> {''Open'', ''Returned''}" and dist: "distinct (map pp_id (periods (ws_db ws)))"
    and cur: "lock_and_get_company_currency company ws = Inr currency"
  shows "\<exists>packet sid. submitted digest boundary user p packet sid ws ws2"
proof -
  from packet obtain pk sid where
    build: "build_live_calculation_packet boundary p company (ws_db ws) = Inr pk"
    and cap: "archive_capture digest (summary_of ws p, company, user, pk, currency, ws_db ws) (ws_store ws) = Inr (ws_store ws1, sid)"
    and rest: "ws_items ws1 = ws_items ws @
      [pending_period_item (next_item_id (ws_items ws)) company (pp_branch_id p) user (pp_id p) sid]"
    "ws_db ws1 = ws_db ws" "ws_ledger ws1 = ws_ledger ws"
    and free: "\<not> pending_item_exists company (pp_id p) ws"
    by (elim submit_packetE) simp
  from claim_restatus(1) [OF claim] dist rest(2)
  have claimed: "restatus (pp_id p) old ''InReview'' ws1 ws2" by simp
  then obtain q where "q \<in> set (periods (ws_db ws))" "pp_id q = pp_id p" "pp_status q = old"
    by (auto simp: restatus_def rest(2))
  with p(1) dist have "pp_status p = old" by (auto simp: distinct_map dest: inj_onD)
  then have "submitted digest boundary user p pk sid ws ws2"
    unfolding submitted_def using p old build cap rest claimed no_pending_item [of p ws] free cur
    by (auto simp: restatus_def slot_statuses_def intro!: exI [of _ "summary_of ws p"] exI [of _ currency])
  then show ?thesis by blast
qed

lemma resubmit_periodE:
  assumes "resubmit_period digest boundary now company user i ws = Inr ws'"
    and dist: "distinct (map pp_id (periods (ws_db ws)))"
  obtains p packet sid where "pp_id p = i" "pp_company_id p = company" "pp_status p = ''Returned''"
    "submitted digest boundary user p packet sid ws ws'"
proof -
  from assms(1) obtain existing currency ws1 ws2 where
    read: "get_period_by_id company user i ws = Inr existing" "pp_status existing = ''Returned''"
    and cur: "lock_and_get_company_currency company ws = Inr currency"
    and submit: "submit_packet digest boundary ''RESUBMITTED'' company user existing currency ws = Inr ws1"
    and claim: "claim_status company i (Some (pp_branch_id existing)) ''Returned'' ''InReview''
      (HttpError 409 ''Period is no longer Returned'') ws1 = Inr ws2"
    and ws': "ws' = update_columns i (\<lambda>c. c\<lparr>pc_return_item := None, pc_submitted_at := Some now\<rparr>) ws2"
    unfolding resubmit_period_def Let_def
    by (auto elim!: bind_r_InrE simp: guard_r_Inr map_r_Inr_iff)
  from read(1) obtain p where p: "p \<in> set (periods (ws_db ws))" "pp_id p = i" "pp_company_id p = company"
    "existing = summary_of ws p" by (rule get_period_by_idE)
  from submit_claim [OF submit [unfolded p(4)] claim [folded p(2)] p(1,3) _ dist cur]
  obtain packet sid where "submitted digest boundary user p packet sid ws ws2" by auto
  moreover have "same_tables ws2 ws'" by (simp add: ws' same_tables_def)
  ultimately have "submitted digest boundary user p packet sid ws ws'" by (rule submitted_same)
  with that p read(2) show thesis by simp
qed

lemma map_error_eq_Inr: "map_error f m = Inr x \<Longrightarrow> m = Inr x"
  by simp

lemma submit_open_periodE:
  assumes "submit_open_period digest boundary now company user notes (summary_of ws p) ws = Inr ws'"
    and p: "p \<in> set (periods (ws_db ws))" "pp_company_id p = company"
    and dist: "distinct (map pp_id (periods (ws_db ws)))"
  obtains packet sid ws1 where "submitted digest boundary user p packet sid ws ws1"
    "same_tables ws1 ws' \<or> (\<exists>d. restatus d ''Draft'' ''Open'' ws1 ws')"
proof -
  from assms(1) obtain currency draft ws1 ws2 where
    cur: "lock_and_get_company_currency company ws = Inr currency"
    and submit: "submit_packet digest boundary ''SUBMITTED'' company user (summary_of ws p) currency ws = Inr ws1"
    and claim: "claim_status company (pp_id p) (Some (pp_branch_id p)) ''Open'' ''InReview''
      (HttpError 422 ''Period is no longer Open'') ws1 = Inr ws2"
    and promote: "promote_draft boundary now company (pp_branch_id p) draft
      (update_columns (pp_id p) (add_notes notes \<circ> pc_submitted_at_update (\<lambda>_. Some now)) ws2) = Inr ws'"
    unfolding submit_open_period_def Let_def
    by (auto elim!: bind_r_InrE simp: guard_r_Inr split: option.splits)
  let ?ws3 = "update_columns (pp_id p) (add_notes notes \<circ> pc_submitted_at_update (\<lambda>_. Some now)) ws2"
  from submit_claim [OF submit claim p _ dist cur] obtain packet sid where
    sub: "submitted digest boundary user p packet sid ws ws2" by auto
  have "same_tables ws2 ?ws3" by (simp add: same_tables_def)
  from submitted_same [OF sub this] have sub3: "submitted digest boundary user p packet sid ws ?ws3" .
  then have "distinct (map pp_id (periods (ws_db ?ws3)))" using dist by (simp add: submitted_def)
  from promote_draft_effect [OF promote this]
  have "same_tables ?ws3 ws' \<or> (\<exists>d. restatus d ''Draft'' ''Open'' ?ws3 ws')" .
  with sub3 show thesis by (rule that)
qed

lemma change_period_statusE:
  assumes "change_period_status digest boundary now company user i new notes ws = Inr ws'"
    and dist: "distinct (map pp_id (periods (ws_db ws)))"
  obtains (submit) p packet sid ws1 where "pp_id p = i" "pp_status p = ''Open''" "new = ''InReview''"
      "submitted digest boundary user p packet sid ws ws1"
      "same_tables ws1 ws' \<or> (\<exists>d. restatus d ''Draft'' ''Open'' ws1 ws')"
    | (plain) old where "restatus i old new ws ws'" "new \<in> set (allowed_transitions old)" "new \<noteq> ''InReview''"
proof -
  from assms(1) obtain existing where read: "get_period_by_id company user i ws = Inr existing"
    and allowed: "new \<in> set (allowed_transitions (pp_status existing))"
    and run: "(if pp_status existing = ''Open'' \<and> new = ''InReview''
       then submit_open_period digest boundary now company user notes existing ws
       else map_r (update_columns i (add_notes notes \<circ> stamp_status now user new))
         (claim_status company i (Some (pp_branch_id existing)) (pp_status existing) new
           (HttpError 409 ''Period is no longer in its expected status'') ws)) = Inr ws'"
    unfolding change_period_status_def Let_def by (elim bind_r_InrE) (simp only: guard_r_Inr)
  from read obtain p where p: "p \<in> set (periods (ws_db ws))" "pp_id p = i" "pp_company_id p = company"
    "existing = summary_of ws p" by (rule get_period_by_idE)
  show thesis
  proof (cases "pp_status existing = ''Open'' \<and> new = ''InReview''")
    case True
    with run p have "submit_open_period digest boundary now company user notes (summary_of ws p) ws = Inr ws'" by simp
    from this p(1,3) dist show thesis
      by (rule submit_open_periodE) (rule submit, use True p in simp_all)
  next
    case False
    with run obtain ws1 where claim: "claim_status company i (Some (pp_branch_id existing)) (pp_status existing) new
        (HttpError 409 ''Period is no longer in its expected status'') ws = Inr ws1"
      and ws': "ws' = update_columns i (add_notes notes \<circ> stamp_status now user new) ws1"
      by (auto simp: map_r_Inr_iff)
    from claim_restatus(1) [OF claim dist] have "restatus i (pp_status existing) new ws ws'"
      by (auto simp: ws' restatus_def)
    moreover have "new \<noteq> ''InReview''"
      using False allowed by (auto simp: allowed_transitions_def valid_transitions_def split: if_splits)
    ultimately show thesis using allowed plain by blast
  qed
qed

lemma create_review_itemE:
  assumes "create_review_item company user rc ws = Inr ws'"
  obtains ri where "ri_id ri = next_item_id (ws_items ws)" "ri_request_type ri \<noteq> ''PeriodApproval''"
    "ws_items ws' = ws_items ws @ [ri]" "ws_db ws' = ws_db ws" "ws_store ws' = ws_store ws"
    "ws_ledger ws' = ws_ledger ws"
proof -
  from assms have kind: "rc_request_type rc \<noteq> ''PeriodApproval''"
    and ws': "ws' = ws\<lparr>ws_items := ws_items ws @
      [\<lparr>ri_id = next_item_id (ws_items ws), ri_company_id = company, ri_branch_id = rc_branch_id rc,
        ri_requested_by = user, ri_request_type = rc_request_type rc,
        ri_entity_schema = rc_entity_schema rc, ri_entity_name = rc_entity_name rc,
        ri_entity_id = rc_entity_id rc, ri_status = ''Pending'', ri_snapshot_id = None,
        ri_decided_by = None, ri_decided_at = None, ri_reason = None\<rparr>]\<rparr>"
    unfolding create_review_item_def by (elim bind_r_InrE, simp)+
  show thesis by (rule that, unfold ws', simp_all) (use kind in simp_all)
qed

lemma parse_int_show: "parse_int s = Inr n \<Longrightarrow> s = show_int n"
  by (auto simp: parse_int_def Let_def split: if_splits)

lemma period_approval_contextD:
  assumes "load_period_approval_context digest company ri require verify ws = Inr (p, snapshot)"
    and "ri_request_type ri = ''PeriodApproval''" "ri_company_id ri = company"
  shows "p \<in> set (periods (ws_db ws))" "pp_company_id p = company" "pp_branch_id p = ri_branch_id ri"
    and "is_period_approval company (pp_id p) ri"
proof -
  from assms(1) obtain i where i: "period_approval_id ri = Inr i"
    and found: "find_first (\<lambda>p. pp_id p = i \<and> pp_company_id p = company \<and> pp_branch_id p = ri_branch_id ri)
      (periods (ws_db ws)) = Some p"
    unfolding load_period_approval_context_def
    by (elim bind_r_InrE) (auto simp: map_r_Inr_iff Let_def split: option.splits if_splits)
  note p = find_first_SomeD [OF found]
  from i have "is_period_approval company i ri"
    using assms(2,3)
    by (auto simp: period_approval_id_def is_period_approval_def Let_def dest!: parse_int_show
        split: if_splits option.splits sum.splits)
  with p show "p \<in> set (periods (ws_db ws))" "pp_company_id p = company" "pp_branch_id p = ri_branch_id ri"
    "is_period_approval company (pp_id p) ri" by simp_all
qed

text \<open>The three outcomes of a decision.\<close>

definition decided_period :: "period_row \<Rightarrow> review_item \<Rightarrow> string \<Rightarrow> workflow_state \<Rightarrow> workflow_state \<Rightarrow> bool" where
  "decided_period p ri decision ws ws' \<longleftrightarrow>
     p \<in> set (periods (ws_db ws)) \<and> pp_status p = ''InReview'' \<and> ri_status ri = ''Pending'' \<and>
     ri_branch_id ri = pp_branch_id p \<and> is_period_approval (pp_company_id p) (pp_id p) ri \<and>
     (let new = (if decision = ''Approved'' then ''Approved'' else ''Returned'')
      in periods (ws_db ws') = set_status (pp_id p) new (periods (ws_db ws)) \<and>
         (new \<in> set slot_statuses \<longrightarrow> slot_unique new (periods (ws_db ws'))))"

lemma decide_periodE:
  assumes "decide_period now company user b i item decision ws = Inr ws'"
    and dist: "distinct (map pp_id (periods (ws_db ws)))"
  shows "restatus i ''InReview'' (if decision = ''Approved'' then ''Approved'' else ''Returned'') ws ws'"
proof -
  let ?new = "if decision = ''Approved'' then ''Approved'' else ''Returned''"
  from assms(1) obtain f ws1 where claim: "claim_status company i (Some b) ''InReview'' ?new
      (HttpError 422 ''Period is no longer in InReview status'') ws = Inr ws1"
    and ws': "ws' = update_columns i f ws1"
    by (auto simp: decide_period_def Let_def map_r_Inr_iff split: if_splits)
  from claim_restatus(1) [OF claim dist] show ?thesis by (auto simp: ws' restatus_def)
qed

lemma decide_review_itemE:
  assumes "decide_review_item digest now company user item decision reason ws = Inr ws'"
    and dist: "distinct (map pp_id (periods (ws_db ws)))"
  obtains (comment) "decision = ''Comment''" "same_tables ws ws'"
    | (plain) ri where "ri \<in> set (ws_items ws)" "ri_id ri = item" "ri_request_type ri \<noteq> ''PeriodApproval''"
      "periods (ws_db ws') = periods (ws_db ws)" "ws_store ws' = ws_store ws" "ws_ledger ws' = ws_ledger ws"
      "ws_items ws' = decide_item now user item decision reason (ws_items ws)"
    | (period) p ri where "ri \<in> set (ws_items ws)" "ri_id ri = item" "decided_period p ri decision ws ws'"
      "ws_store ws' = ws_store ws" "ws_ledger ws' = ws_ledger ws" "decision \<noteq> ''Comment''"
      "ws_items ws' = decide_item now user item decision reason (ws_items ws)"
proof -
  from assms(1) obtain ri where found: "find_item company item ws = Some ri"
    unfolding decide_review_item_def by (elim bind_r_InrE) (auto split: option.splits)
  then have ri: "ri \<in> set (ws_items ws)" "ri_id ri = item" "ri_company_id ri = company"
    by (auto simp: find_item_def dest: find_first_SomeD)
  let ?approval = "ri_request_type ri = ''PeriodApproval''" and ?sub = "decision \<noteq> ''Comment''"
  from assms(1) found obtain currency ctx where
    ctx: "(if ?sub \<and> ?approval
          then bind_r (guard_r (ri_status ri = ''Pending'')
                 (HttpError 422 ''PeriodApproval decisions require a Pending review item.'')) (\<lambda>_.
               bind_r (load_period_approval_context digest company ri (decision = ''Approved'')
                 (decision = ''Approved'') ws) (\<lambda>(p, snapshot).
               bind_r (guard_r (pp_status p = ''InReview'')
                 (HttpError 422 ''Period is no longer in InReview status.'')) (\<lambda>_.
               case (currency, snapshot) of
                 (Some c, Some h) \<Rightarrow> map_r (\<lambda>_. Some p) (require_matching_snapshot_currency c
                    (Some (sh_currency_code h)) (Some (sh_currency_digits h)))
               | _ \<Rightarrow> Inr (Some p))))
          else Inr None) = Inr ctx"
    and run: "(let decision_id = next_decision_id (ws_decisions ws);
           ws1 = ws\<lparr>ws_decisions := ws_decisions ws @
             [\<lparr>rd_id = decision_id, rd_item_id = item, rd_user_id = user, rd_decision = decision,
               rd_reason = reason\<rparr>]\<rparr> in
       if \<not> ?sub
       then (if ?approval then map_r (\<lambda>_. ws1) (check_comment_evidence ri) else Inr ws1)
       else
         let ws2 = ws1\<lparr>ws_items := decide_item now user item decision reason (ws_items ws1)\<rparr> in
         case ctx of
           None \<Rightarrow> Inr ws2
         | Some p \<Rightarrow>
             bind_r (capture_workflow_action_evidence company (ri_branch_id ri) (pp_id p)
               (decision_action decision) user ''review.decide'' (ri_snapshot_id ri) (Some item)
               (Some decision_id) reason ws2) (\<lambda>ws3.
             bind_r (require_non_driver_subject company user (ws_access ws3)) (\<lambda>_.
             decide_period now company user (ri_branch_id ri) (pp_id p) item decision ws3))) = Inr ws'"
    unfolding decide_review_item_def by (elim bind_r_InrE) (simp only: option.case Let_def, elim bind_r_InrE, simp only:)
  show thesis
  proof (cases ?sub)
    case False
    with run have "same_tables ws ws'"
      by (auto simp: Let_def map_r_Inr_iff same_tables_def split: if_splits)
    with False comment show thesis by simp
  next
    case True
    show thesis
    proof (cases ?approval)
      case False
      with ctx have "ctx = None" by simp
      with run True show thesis by (intro plain [OF ri(1,2) False]) (auto simp: Let_def)
    next
      case approval: True
      with ctx True obtain p snapshot where
        load: "load_period_approval_context digest company ri (decision = ''Approved'') (decision = ''Approved'') ws = Inr (p, snapshot)"
        and pending: "ri_status ri = ''Pending''" and review: "pp_status p = ''InReview''" and c: "ctx = Some p"
        by (auto elim!: bind_r_InrE simp: guard_r_Inr map_r_Inr_iff split: option.splits)
      note p = period_approval_contextD [OF load approval ri(3)]
      define ws2 where "ws2 = ws\<lparr>ws_decisions := ws_decisions ws @
          [\<lparr>rd_id = next_decision_id (ws_decisions ws), rd_item_id = item, rd_user_id = user,
            rd_decision = decision, rd_reason = reason\<rparr>],
          ws_items := decide_item now user item decision reason (ws_items ws)\<rparr>"
      then have ws2: "periods (ws_db ws2) = periods (ws_db ws)" "ws_store ws2 = ws_store ws" "ws_ledger ws2 = ws_ledger ws"
          "ws_items ws2 = decide_item now user item decision reason (ws_items ws)" by simp_all
      from run True c obtain ws3 where
        ev: "capture_workflow_action_evidence company (ri_branch_id ri) (pp_id p)
               (decision_action decision) user ''review.decide'' (ri_snapshot_id ri) (Some item)
               (Some (next_decision_id (ws_decisions ws))) reason ws2 = Inr ws3"
        and dp: "decide_period now company user (ri_branch_id ri) (pp_id p) item decision ws3 = Inr ws'"
        by (auto simp: Let_def ws2_def elim!: bind_r_InrE)
      note keeps = evidence_keeps [OF ev]
      have "distinct (map pp_id (periods (ws_db ws3)))" using dist keeps(1) ws2(1) by simp
      from decide_periodE [OF dp this]
      have st: "restatus (pp_id p) ''InReview'' (if decision = ''Approved'' then ''Approved'' else ''Returned'') ws3 ws'" .
      have "decided_period p ri decision ws ws'"
        using p pending review st keeps(1) ws2(1) by (auto simp: decided_period_def restatus_def Let_def)
      then show thesis
        using st keeps ws2 by (intro period [OF ri(1,2) _ _ _ True]) (auto simp: restatus_def)
    qed
  qed
qed

definition finalized :: "(json \<Rightarrow> string) \<Rightarrow> int \<Rightarrow> period_row \<Rightarrow> review_item \<Rightarrow> loaded_content \<Rightarrow> workflow_state
   \<Rightarrow> workflow_state \<Rightarrow> bool" where
  "finalized digest user p ri lo ws ws' \<longleftrightarrow>
     p \<in> set (periods (ws_db ws)) \<and> pp_status p = ''Approved'' \<and>
     approved_items (pp_company_id p) (pp_branch_id p) (pp_id p) ws = [ri] \<and>
     (\<exists>sid. ri_snapshot_id ri = Some sid \<and> archive_verify digest (period_scope p) sid (ws_store ws) = Inr lo) \<and>
     periods (ws_db ws') = set_status (pp_id p) ''Locked'' (periods (ws_db ws)) \<and>
     ws_store ws' = ws_store ws \<and> ws_items ws' = ws_items ws \<and>
     ws_ledger ws' = insert_final_lines user lo (pp_company_id p) (pp_branch_id p) (pp_id p)
       (projection_of lo) (ws_ledger ws)"

lemma load_approved_packetE:
  assumes "load_approved_snapshot_packet digest (pp_id p) (pp_company_id p) (pp_branch_id p) ws = Inr packet"
  obtains ri sid where
    "approved_items (pp_company_id p) (pp_branch_id p) (pp_id p) ws = [ri]" "ri_snapshot_id ri = Some sid"
    "archive_verify digest (period_scope p) sid (ws_store ws) = Inr (ap_content packet)"
    "ap_projection packet = projection_of (ap_content packet)"
proof -
  from assms obtain ri sid where
    found: "approved_items (pp_company_id p) (pp_branch_id p) (pp_id p) ws = [ri]" "ri_snapshot_id ri = Some sid"
    and ver: "verify_snapshot digest sid (Some (pp_company_id p)) (Some (pp_branch_id p)) (Some (pp_id p)) (ws_store ws) =
        Inr (ap_content packet)"
    and proj: "project_final_lines (ap_content packet) = Inr (ap_projection packet)"
    unfolding load_approved_snapshot_packet_def
    by (auto elim!: bind_r_InrE simp: guard_r_Inr split: list.splits option.splits)
  from ver have av: "archive_verify digest (period_scope p) sid (ws_store ws) = Inr (ap_content packet)"
    by (simp add: archive_verify_def period_scope_def)
  from that [OF found av] proj show thesis by (simp add: verified_projection [OF verified_scope(5) [OF av]])
qed

lemma finalize_periodE:
  assumes "finalize_period digest now i company user ws = Inr ws'"
    and dist: "distinct (map pp_id (periods (ws_db ws)))"
  obtains p ri lo where "pp_id p = i" "pp_company_id p = company" "finalized digest user p ri lo ws ws'"
proof -
  from assms(1) obtain existing currency packet ws1 where
    read: "get_period_by_id company user i ws = Inr existing" "pp_status existing = ''Approved''"
    and load: "load_approved_snapshot_packet digest i company (pp_branch_id existing) ws = Inr packet"
    and claim: "claim_status company i None ''Approved'' ''Locked''
      (HttpError 422 ''Period could not be claimed for finalization'') ws = Inr ws1"
    and ev: "capture_workflow_action_evidence company (pp_branch_id existing) i ''FINALIZED'' user
       ''payroll.finalize'' (Some (lo_snapshot_id (ap_content packet))) (Some (ap_item_id packet)) None None
       ((update_columns i (\<lambda>pc. pc\<lparr>pc_locked_by := Some user, pc_locked_at := Some now\<rparr>) ws1)
          \<lparr>ws_ledger := insert_final_lines user (ap_content packet) company (pp_branch_id existing) i
             (ap_projection packet) (ws_ledger ws)\<rparr>) = Inr ws'"
    unfolding finalize_period_def Let_def by (elim bind_r_InrE) (simp only: guard_r_Inr)
  from read obtain p where p: "p \<in> set (periods (ws_db ws))" "pp_id p = i" "pp_company_id p = company"
    "existing = summary_of ws p" by (elim get_period_by_idE)
  from load have "load_approved_snapshot_packet digest (pp_id p) (pp_company_id p) (pp_branch_id p) ws = Inr packet"
    by (simp add: p)
  then obtain ri sid where packet:
    "approved_items (pp_company_id p) (pp_branch_id p) (pp_id p) ws = [ri]" "ri_snapshot_id ri = Some sid"
    "archive_verify digest (period_scope p) sid (ws_store ws) = Inr (ap_content packet)"
    "ap_projection packet = projection_of (ap_content packet)"
    by (rule load_approved_packetE)
  have "finalized digest user p ri (ap_content packet) ws ws'"
    using p read(2) packet evidence_keeps [OF ev] claim_restatus(1) [OF claim dist]
    by (simp add: finalized_def restatus_def)
  with p that show thesis by blast
qed

section \<open>Every handler keeps the invariant\<close>

lemma next_item_id_fresh: "ri \<in> set ris \<Longrightarrow> ri_id ri < next_item_id ris"
  by (induction ris) (auto simp: next_item_id_def)

lemma decide_item_ids [simp]: "map ri_id (decide_item now user item d r ris) = map ri_id ris"
  by (induction ris) (simp_all add: decide_item_def)

lemma is_period_approval_update [simp]:
  "is_period_approval c i (ri\<lparr>ri_status := s, ri_decided_by := u, ri_decided_at := t, ri_reason := r\<rparr>) =
   is_period_approval c i ri"
  by (simp add: is_period_approval_def)

lemma approvals_of_decide_item:
  "approvals_of p (decide_item now user item d r ris) = decide_item now user item d r (approvals_of p ris)"
  by (induction ris) (simp_all add: approvals_of_def decide_item_def)

lemma decide_item_absent:
  "\<forall>ri\<in>set ris. ri_id ri \<noteq> item \<Longrightarrow> decide_item now user item d r ris = ris"
  by (induction ris) (simp_all add: decide_item_def)

lemma decided_counts:
  assumes "distinct (map ri_id ris)" "ri \<in> set ris" "ri_id ri = item"
  shows "length (with_status s (decide_item now user item d r ris)) + (if ri_status ri = s then 1 else 0) =
    length (with_status s ris) + (if d = s then 1 else 0)"
  using assms
proof (induction ris)
  case (Cons x xs)
  show ?case
  proof (cases "x = ri")
    case True
    then have "\<forall>y\<in>set xs. ri_id y \<noteq> item" using Cons.prems by (auto simp: image_iff)
    from decide_item_absent [OF this] True Cons.prems(3) show ?thesis
      by (simp add: with_status_def decide_item_def)
  next
    case False
    then have "ri \<in> set xs" "ri_id x \<noteq> item" using Cons.prems by auto
    with Cons show ?thesis by (simp add: with_status_def decide_item_def)
  qed
qed simp

lemma item_ok_update [simp]:
  "item_ok digest st p (ri\<lparr>ri_status := s, ri_decided_by := u, ri_decided_at := t, ri_reason := r\<rparr>) =
   item_ok digest st p ri"
  by (simp add: item_ok_def)

lemma decide_item_member:
  "x \<in> set (decide_item now user item d r ris) \<Longrightarrow>
   \<exists>ri\<in>set ris. x = ri \<or> x = ri\<lparr>ri_status := d, ri_decided_by := Some user, ri_decided_at := Some now, ri_reason := r\<rparr>"
  by (auto simp: decide_item_def)

lemma lines_of_period_insert:
  assumes "pp_id q \<noteq> i"
  shows "lines_of_period q (insert_final_lines user c company branch i rows ledger) = lines_of_period q ledger"
  using assms
  by (induction rows arbitrary: ledger)
    (simp_all add: insert_final_lines_def lines_of_period_def final_lines_of_def insert_row_def
      inserted_final_line_def)

lemma insert_final_lines_member:
  "l \<in> set (insert_final_lines user c company branch i rows ledger) \<Longrightarrow>
   l \<in> set ledger \<or> fl_period_id (row_data l) = i"
  by (induction rows arbitrary: ledger)
    (fastforce simp: insert_final_lines_def insert_row_def inserted_final_line_def)+

lemma tables_okD:
  assumes "tables_ok digest ps st ris ledger"
  shows "distinct (map pp_id ps)" "slots_unique ps" "store_ok st" "distinct (map ri_id ris)"
    and "ri \<in> set ris \<Longrightarrow> ri_request_type ri = ''PeriodApproval'' \<Longrightarrow>
      \<exists>p\<in>set ps. is_period_approval (pp_company_id p) (pp_id p) ri"
    and "l \<in> set ledger \<Longrightarrow> fl_period_id (row_data l) \<in> pp_id ` set ps"
    and "p \<in> set ps \<Longrightarrow> period_ok digest st ris ledger p"
  using assms unfolding tables_ok_def by simp_all

lemma workflow_okD:
  assumes "workflow_ok digest ws"
  shows "tables_ok digest (periods (ws_db ws)) (ws_store ws) (ws_items ws) (ws_ledger ws)"
    and "distinct (map pp_id (periods (ws_db ws)))"
  using assms by (simp_all add: workflow_ok_def tables_okD)

lemma same_tables_ok: "workflow_ok digest ws \<Longrightarrow> same_tables ws ws' \<Longrightarrow> workflow_ok digest ws'"
  by (simp add: workflow_ok_def same_tables_def)

lemma restatus_ok:
  assumes "workflow_ok digest ws" "restatus i old new ws ws'" "same_phase old new"
  shows "workflow_ok digest ws'"
proof -
  from assms(2) obtain p where p: "p \<in> set (periods (ws_db ws))" "pp_id p = i" "pp_status p = old"
    by (auto simp: restatus_def)
  have "tables_ok digest (set_status (pp_id p) new (periods (ws_db ws))) (ws_store ws) (ws_items ws) (ws_ledger ws)"
    by (rule tables_ok_same_phase [OF workflow_okD(1) [OF assms(1)] p(1)])
      (use assms(2,3) p in \<open>auto simp: restatus_def\<close>)
  then show ?thesis using assms(2) p by (simp add: restatus_def workflow_ok_def)
qed

lemma submitted_archive:
  assumes "submitted digest boundary user p packet sid ws ws'" "store_ok (ws_store ws)"
  shows "store_ok (ws_store ws')"
    and "archive_verify digest sc s (ws_store ws) = Inr lo \<Longrightarrow> archive_verify digest sc s (ws_store ws') = Inr lo"
    and "\<exists>lo currency. archive_verify digest (period_scope p) sid (ws_store ws') = Inr lo \<and>
      list_all2 pays_driver (pk_drivers packet) (co_totals lo) \<and> sh_total lo = pk_total packet \<and>
      lock_and_get_company_currency (pp_company_id p) ws = Inr currency \<and>
      sh_currency_code lo = cur_code currency \<and> sh_currency_digits lo = minor_unit_digits currency"
proof -
  from assms(1) obtain existing currency where ex: "period_row.truncate existing = p"
    and cur: "lock_and_get_company_currency (pp_company_id p) ws = Inr currency"
    and build: "build_live_calculation_packet boundary p (pp_company_id p) (ws_db ws) = Inr packet"
    and cap: "archive_capture digest (existing, pp_company_id p, user, packet, currency, ws_db ws) (ws_store ws) =
        Inr (ws_store ws', sid)"
    unfolding submitted_def by blast
  let ?arg = "(existing, pp_company_id p, user, packet, currency, ws_db ws)"
  have valid: "archive_valid ?arg" using live_packet_sorted [OF build] by (simp add: archive_valid_def)
  show "store_ok (ws_store ws')" by (rule calculation_archive.capture_ok [OF assms(2) valid cap])
  show "archive_verify digest sc s (ws_store ws') = Inr lo" if "archive_verify digest sc s (ws_store ws) = Inr lo"
    by (rule calculation_archive.verified_stays [OF assms(2) valid cap that])
  have ids: "pp_id existing = pp_id p" "pp_branch_id existing = pp_branch_id p"
    using ex by (auto simp: period_row.defs)
  from cap have "capture_calculation_snapshot digest existing (pp_company_id p) user packet currency (ws_db ws) (ws_store ws) =
      Inr (ws_store ws', sid)" by (simp add: archive_capture_def)
  from captured_pays [OF this assms(2) live_packet_sorted [OF build]] obtain lo where
    "verify_snapshot digest sid (Some (pp_company_id p)) (Some (pp_branch_id existing)) (Some (pp_id existing)) (ws_store ws') = Inr lo"
    "list_all2 pays_driver (pk_drivers packet) (co_totals lo)" "sh_total lo = pk_total packet"
    "sh_currency_code lo = cur_code currency" "sh_currency_digits lo = minor_unit_digits currency" by metis
  with cur show "\<exists>lo currency. archive_verify digest (period_scope p) sid (ws_store ws') = Inr lo \<and>
      list_all2 pays_driver (pk_drivers packet) (co_totals lo) \<and> sh_total lo = pk_total packet \<and>
      lock_and_get_company_currency (pp_company_id p) ws = Inr currency \<and>
      sh_currency_code lo = cur_code currency \<and> sh_currency_digits lo = minor_unit_digits currency"
    by (auto simp: archive_verify_def period_scope_def ids)
qed

lemma submitted_ok:
  assumes ok: "workflow_ok digest ws" and sub: "submitted digest boundary user p packet sid ws ws'"
  shows "workflow_ok digest ws'"
proof -
  note tables = workflow_okD(1) [OF ok] and okD = tables_okD [OF workflow_okD(1) [OF ok]]
  note archive = submitted_archive [OF sub okD(3)]
  let ?ri = "pending_period_item (next_item_id (ws_items ws)) (pp_company_id p) (pp_branch_id p) user (pp_id p) sid"
  from sub have p: "p \<in> set (periods (ws_db ws))" "pp_status p \<in> {''Open'', ''Returned''}"
    and fresh: "with_status ''Pending'' (approvals_of p (ws_items ws)) = []"
    and items: "ws_items ws' = ws_items ws @ [?ri]"
    and ps: "periods (ws_db ws') = set_status (pp_id p) ''InReview'' (periods (ws_db ws))"
    and slot: "slot_unique ''InReview'' (set_status (pp_id p) ''InReview'' (periods (ws_db ws)))"
    and ledger: "ws_ledger ws' = ws_ledger ws"
    by (auto simp: submitted_def)
  have ri: "is_period_approval (pp_company_id p) (pp_id p) ?ri" "ri_status ?ri = ''Pending''"
    by (simp_all add: is_period_approval_def pending_period_item_def)
  have old: "period_ok digest (ws_store ws) (ws_items ws) (ws_ledger ws) p" by (rule okD(7) [OF p(1)])
  have app: "approvals_of p (ws_items ws') = approvals_of p (ws_items ws) @ [?ri]"
    using ri(1) by (simp add: items approvals_of_def)
  have "item_ok digest (ws_store ws') p ?ri"
    using archive(3) by (auto simp: item_ok_def pending_period_item_def)
  moreover have "item_ok digest (ws_store ws') p ri" if "ri \<in> set (approvals_of p (ws_items ws))" for ri
    using old that archive(2) by (fastforce simp: period_ok_def item_ok_def)
  moreover have "with_status ''Pending'' (approvals_of p (ws_items ws')) = [?ri]"
    "with_status ''Approved'' (approvals_of p (ws_items ws')) = with_status ''Approved'' (approvals_of p (ws_items ws))"
    using fresh ri(2) by (simp_all add: app with_status_def)
  moreover have "\<not> authorized (pp_status p)" "\<not> settled (pp_status p)" "\<not> authorized ''InReview''" "\<not> settled ''InReview''"
    using p(2) by (auto simp: authorized_def settled_def)
  ultimately have this_one: "period_ok digest (ws_store ws') (ws_items ws') (ws_ledger ws) (p\<lparr>pp_status := ''InReview''\<rparr>)"
    using old by (simp add: period_ok_def app)
  have others: "approvals_of q (ws_items ws') = approvals_of q (ws_items ws)" if "pp_id q \<noteq> pp_id p" for q
    unfolding items by (rule approvals_append_other [OF _ that]) (simp add: pending_period_item_def)
  have "tables_ok digest (periods (ws_db ws')) (ws_store ws') (ws_items ws') (ws_ledger ws)"
    unfolding ps
  proof (rule tables_ok_update [OF tables p(1) slot archive(1,2)])
    show "distinct (map ri_id (ws_items ws'))"
      using okD(4) next_item_id_fresh [of _ "ws_items ws"] by (force simp: items pending_period_item_def)
    show "\<exists>q\<in>set (periods (ws_db ws)). is_period_approval (pp_company_id q) (pp_id q) x"
      if "x \<in> set (ws_items ws')" "ri_request_type x = ''PeriodApproval''" for x
      using that okD(5) [of x] p(1) ri(1) by (auto simp: items)
  qed (use others okD(6) this_one in simp_all)
  then show ?thesis by (simp add: workflow_ok_def ledger)
qed

lemma decided_items_refer:
  assumes "tables_ok digest ps st ris ledger" "x \<in> set (decide_item now user item d r ris)"
    and "ri_request_type x = ''PeriodApproval''"
  shows "\<exists>p\<in>set ps. is_period_approval (pp_company_id p) (pp_id p) x"
proof -
  from decide_item_member [OF assms(2)] obtain y where y: "y \<in> set ris"
    "x = y \<or> x = y\<lparr>ri_status := d, ri_decided_by := Some user, ri_decided_at := Some now, ri_reason := r\<rparr>" by blast
  then have same: "ri_request_type x = ri_request_type y" "is_period_approval c i x = is_period_approval c i y" for c i
    by (elim disjE; simp)+
  show ?thesis using tables_okD(5) [OF assms(1) y(1)] assms(3) by (simp only: same)
qed

lemma plain_decision_ok:
  assumes ok: "workflow_ok digest ws"
    and ri: "ri \<in> set (ws_items ws)" "ri_id ri = item" "ri_request_type ri \<noteq> ''PeriodApproval''"
    and ws': "periods (ws_db ws') = periods (ws_db ws)" "ws_store ws' = ws_store ws" "ws_ledger ws' = ws_ledger ws"
      "ws_items ws' = decide_item now user item decision reason (ws_items ws)"
  shows "workflow_ok digest ws'"
proof -
  note okD = tables_okD [OF workflow_okD(1) [OF ok]]
  have "approvals_of p (ws_items ws') = approvals_of p (ws_items ws)" for p
    unfolding ws'(4) approvals_of_decide_item
  proof (rule decide_item_absent, rule ballI, rule notI)
    fix x assume x: "x \<in> set (approvals_of p (ws_items ws))" "ri_id x = item"
    then have "x \<in> set (ws_items ws)" "ri_request_type x = ''PeriodApproval''"
      by (auto simp: approvals_of_def is_period_approval_def)
    moreover from this x(2) ri okD(4) have "x = ri" by (auto simp: distinct_map dest: inj_onD)
    ultimately show False using ri(3) by simp
  qed
  note same = this
  have pok: "period_ok digest (ws_store ws) (ws_items ws') (ws_ledger ws) p" if "p \<in> set (periods (ws_db ws))" for p
    by (rule period_ok_frame [OF okD(7) [OF that] same _ refl])
  have refer: "\<exists>p\<in>set (periods (ws_db ws)). is_period_approval (pp_company_id p) (pp_id p) x"
    if "x \<in> set (ws_items ws')" "ri_request_type x = ''PeriodApproval''" for x
    using decided_items_refer [OF workflow_okD(1) [OF ok] that(1) [unfolded ws'(4)] that(2)] .
  have "distinct (map ri_id (ws_items ws'))" using okD(4) by (simp add: ws'(4))
  then have "tables_ok digest (periods (ws_db ws)) (ws_store ws) (ws_items ws') (ws_ledger ws)"
    unfolding tables_ok_def using okD(1-3) okD(6) pok refer by blast
  then show ?thesis by (simp add: workflow_ok_def ws')
qed

lemma period_decision_ok:
  assumes ok: "workflow_ok digest ws" and valid: "decision \<in> set valid_decisions" "decision \<noteq> ''Comment''"
    and ri: "ri \<in> set (ws_items ws)" "ri_id ri = item" and dec: "decided_period p ri decision ws ws'"
    and ws': "ws_store ws' = ws_store ws" "ws_ledger ws' = ws_ledger ws"
      "ws_items ws' = decide_item now user item decision reason (ws_items ws)"
  shows "workflow_ok digest ws'"
proof -
  note tables = workflow_okD(1) [OF ok] and okD = tables_okD [OF workflow_okD(1) [OF ok]]
  let ?new = "if decision = ''Approved'' then ''Approved'' else ''Returned''"
  from dec have p: "p \<in> set (periods (ws_db ws))" "pp_status p = ''InReview''" "ri_status ri = ''Pending''"
    "is_period_approval (pp_company_id p) (pp_id p) ri"
    and ps: "periods (ws_db ws') = set_status (pp_id p) ?new (periods (ws_db ws))"
    and slot': "?new \<in> set slot_statuses \<longrightarrow> slot_unique ?new (periods (ws_db ws'))"
    unfolding decided_period_def Let_def by blast+
  have slot: "slot_unique ?new (set_status (pp_id p) ?new (periods (ws_db ws)))" if "?new \<in> set slot_statuses"
    using mp [OF slot' that] by (simp only: ps)
  have mem: "ri \<in> set (approvals_of p (ws_items ws))" using ri(1) p(4) by (simp add: approvals_of_def)
  have dist: "distinct (map ri_id (approvals_of p (ws_items ws)))"
    using okD(4) by (simp add: approvals_of_def distinct_map_filter)
  note counts = decided_counts [OF dist mem ri(2), folded approvals_of_decide_item ws'(3)]
  have old: "period_ok digest (ws_store ws) (ws_items ws) (ws_ledger ws) p" by (rule okD(7) [OF p(1)])
  have "length (with_status ''Pending'' (approvals_of p (ws_items ws'))) = 0"
    using counts [of "''Pending''" now user decision reason] old p(2,3) valid
    by (auto simp: period_ok_def valid_decisions_def ws'(3) approvals_of_decide_item)
  moreover have "length (with_status ''Approved'' (approvals_of p (ws_items ws'))) = (if decision = ''Approved'' then 1 else 0)"
    using counts [of "''Approved''" now user decision reason] old p(2,3)
    by (auto simp: period_ok_def authorized_def ws'(3) approvals_of_decide_item)
  moreover have "item_ok digest (ws_store ws) p x" if "x \<in> set (approvals_of p (ws_items ws'))" for x
    using that old unfolding ws'(3) approvals_of_decide_item by (auto simp: period_ok_def dest!: decide_item_member)
  moreover have "lines_of_period p (ws_ledger ws) = []"
    using old p(2) by (simp add: period_ok_def settled_def)
  ultimately have this_one: "period_ok digest (ws_store ws) (ws_items ws') (ws_ledger ws) (p\<lparr>pp_status := ?new\<rparr>)"
    by (simp add: period_ok_def authorized_def settled_def)
  have others: "approvals_of q (ws_items ws') = approvals_of q (ws_items ws)" if "pp_id q \<noteq> pp_id p" for q
    unfolding ws'(3) approvals_of_decide_item
  proof (rule decide_item_absent, rule ballI, rule notI)
    fix x assume x: "x \<in> set (approvals_of q (ws_items ws))" "ri_id x = item"
    with ri okD(4) have "x = ri" by (auto simp: distinct_map approvals_of_def dest: inj_onD)
    with x(1) p(4) that show False by (simp add: approvals_of_def is_period_approval_def)
  qed
  have "tables_ok digest (periods (ws_db ws')) (ws_store ws) (ws_items ws') (ws_ledger ws)"
    unfolding ps
  proof (rule tables_ok_update [OF tables p(1) slot okD(3)])
    show "distinct (map ri_id (ws_items ws'))" using okD(4) by (simp add: ws'(3))
    show "\<exists>q\<in>set (periods (ws_db ws)). is_period_approval (pp_company_id q) (pp_id q) x"
      if "x \<in> set (ws_items ws')" "ri_request_type x = ''PeriodApproval''" for x
      using decided_items_refer [OF tables that(1) [unfolded ws'(3)] that(2)] .
  qed (use others okD(6) this_one in simp_all)
  then show ?thesis by (simp add: workflow_ok_def ws')
qed

lemma approved_items_eq:
  assumes "period_ok digest st (ws_items ws) ledger p"
  shows "approved_items (pp_company_id p) (pp_branch_id p) (pp_id p) ws =
    with_status ''Approved'' (approvals_of p (ws_items ws))"
proof -
  have "ri_branch_id ri = pp_branch_id p"
    if "ri \<in> set (ws_items ws)" "is_period_approval (pp_company_id p) (pp_id p) ri" for ri
    using assms that by (auto simp: period_ok_def approvals_of_def item_ok_def)
  then show ?thesis
    by (auto simp: approved_items_def with_status_def approvals_of_def intro!: filter_cong)
qed

lemma finalized_ok:
  assumes ok: "workflow_ok digest ws" and fin: "finalized digest user p ri lo ws ws'"
  shows "workflow_ok digest ws'"
    and "\<exists>rows. verify_final_lines lo (ws_ledger ws') = Inr rows \<and>
      map row_data rows = map (expected_columns lo) (projection_of lo)"
proof -
  note tables = workflow_okD(1) [OF ok] and okD = tables_okD [OF workflow_okD(1) [OF ok]]
  from fin obtain sid where p: "p \<in> set (periods (ws_db ws))" "pp_status p = ''Approved''"
    and one: "approved_items (pp_company_id p) (pp_branch_id p) (pp_id p) ws = [ri]"
    and snap: "ri_snapshot_id ri = Some sid" "archive_verify digest (period_scope p) sid (ws_store ws) = Inr lo"
    and ps: "periods (ws_db ws') = set_status (pp_id p) ''Locked'' (periods (ws_db ws))"
    and same: "ws_store ws' = ws_store ws" "ws_items ws' = ws_items ws"
    and ledger: "ws_ledger ws' = insert_final_lines user lo (pp_company_id p) (pp_branch_id p) (pp_id p)
       (projection_of lo) (ws_ledger ws)"
    by (auto simp: finalized_def)
  note scope = verified_scope [OF snap(2)]
  have old: "period_ok digest (ws_store ws) (ws_items ws) (ws_ledger ws) p" by (rule okD(7) [OF p(1)])
  have none: "final_lines_of (sh_company_id lo) (sh_period_id lo) (ws_ledger ws) = []"
    using old p(2) by (simp add: period_ok_def settled_def lines_of_period_def scope)
  have ids: "distinct (component_ids lo)"
    using snap(2) okD(3) unfolding archive_verify_def period_scope_def store_ok_def
    by (auto dest!: verify_snapshotD(1) intro: loaded_component_ids_distinct)
  show lines: "\<exists>rows. verify_final_lines lo (ws_ledger ws') = Inr rows \<and>
      map row_data rows = map (expected_columns lo) (projection_of lo)"
    by (rule verify_inserted_lines [OF scope(5) ids none]) (simp add: ledger scope)
  have "ri \<in> set (with_status ''Approved'' (approvals_of p (ws_items ws)))"
    using one by (simp add: approved_items_eq [OF old])
  with snap lines have "paid digest (ws_store ws) (ws_items ws) (ws_ledger ws') p"
    unfolding paid_def by blast
  then have this_one: "period_ok digest (ws_store ws) (ws_items ws) (ws_ledger ws') (p\<lparr>pp_status := ''Locked''\<rparr>)"
    using old p(2) by (simp add: period_ok_def authorized_def settled_def)
  have "tables_ok digest (periods (ws_db ws')) (ws_store ws) (ws_items ws) (ws_ledger ws')"
    unfolding ps
  proof (rule tables_ok_update [OF tables p(1) _ okD(3) _ okD(4)])
    show "fl_period_id (row_data l) \<in> pp_id ` set (periods (ws_db ws))" if "l \<in> set (ws_ledger ws')" for l
      using insert_final_lines_member [OF that [unfolded ledger]] okD(6) [of l] p(1) by auto
    show "lines_of_period q (ws_ledger ws') = lines_of_period q (ws_ledger ws)" if "pp_id q \<noteq> pp_id p" for q
      unfolding ledger by (rule lines_of_period_insert [OF that])
  qed (use this_one okD(5) in \<open>simp_all add: slot_statuses_def\<close>)
  then show "workflow_ok digest ws'" by (simp add: workflow_ok_def same)
qed

lemma added_item_ok:
  assumes ok: "workflow_ok digest ws"
    and ri: "ri_id ri = next_item_id (ws_items ws)" "ri_request_type ri \<noteq> ''PeriodApproval''"
    and ws': "ws_items ws' = ws_items ws @ [ri]" "ws_db ws' = ws_db ws" "ws_store ws' = ws_store ws"
      "ws_ledger ws' = ws_ledger ws"
  shows "workflow_ok digest ws'"
proof -
  note okD = tables_okD [OF workflow_okD(1) [OF ok]]
  have same: "approvals_of p (ws_items ws') = approvals_of p (ws_items ws)" for p
    using ri(2) by (simp add: ws' approvals_of_def is_period_approval_def)
  have pok: "period_ok digest (ws_store ws) (ws_items ws') (ws_ledger ws) p" if "p \<in> set (periods (ws_db ws))" for p
    by (rule period_ok_frame [OF okD(7) [OF that] same _ refl])
  have "distinct (map ri_id (ws_items ws'))"
    using okD(4) next_item_id_fresh [of _ "ws_items ws"] by (force simp: ws' ri(1))
  moreover have "\<exists>p\<in>set (periods (ws_db ws)). is_period_approval (pp_company_id p) (pp_id p) x"
    if "x \<in> set (ws_items ws')" "ri_request_type x = ''PeriodApproval''" for x
    using okD(5) [of x] that ri(2) by (auto simp: ws')
  ultimately have "tables_ok digest (periods (ws_db ws)) (ws_store ws) (ws_items ws') (ws_ledger ws)"
    unfolding tables_ok_def using okD(1-3) okD(6) pok by blast
  then show ?thesis by (simp add: workflow_ok_def ws')
qed

text \<open>A period enters with an id no row refers to.\<close>

lemma added_period_ok:
  assumes ok: "workflow_ok digest ws"
    and p: "pp_id p \<notin> pp_id ` set (periods (ws_db ws))" "pp_status p \<in> {''Draft'', ''Open''}"
      "slot_unique (pp_status p) (periods (ws_db ws) @ [p])"
    and ws': "periods (ws_db ws') = periods (ws_db ws) @ [p]" "ws_items ws' = ws_items ws" "ws_store ws' = ws_store ws"
      "ws_ledger ws' = ws_ledger ws"
  shows "workflow_ok digest ws'"
proof -
  note okD = tables_okD [OF workflow_okD(1) [OF ok]]
  have "slots_unique (periods (ws_db ws) @ [p])"
    unfolding slots_unique_def
  proof
    fix s assume "s \<in> set slot_statuses"
    with okD(2) p(3) show "slot_unique s (periods (ws_db ws) @ [p])"
      by (cases "s = pp_status p") (simp_all add: slots_unique_def slot_unique_def)
  qed
  moreover have "approvals_of p (ws_items ws) = []"
  proof -
    have False if x: "x \<in> set (ws_items ws)" "is_period_approval (pp_company_id p) (pp_id p) x" for x
    proof -
      from okD(5) [OF x(1)] x(2) obtain q where "q \<in> set (periods (ws_db ws))"
        "is_period_approval (pp_company_id q) (pp_id q) x" by (auto simp: is_period_approval_def)
      moreover from this x(2) have "pp_id q = pp_id p" by (simp add: is_period_approval_def)
      ultimately show False using p(1) by (metis imageI)
    qed
    then show ?thesis by (auto simp: approvals_of_def filter_empty_conv)
  qed
  moreover have "lines_of_period p (ws_ledger ws) = []"
  proof -
    have "filter (\<lambda>r. fl_period_id (row_data r) = pp_id p \<and> fl_company_id (row_data r) = pp_company_id p) (ws_ledger ws) = []"
      unfolding filter_empty_conv using okD(6) p(1) by metis
    then show ?thesis by (simp add: lines_of_period_def final_lines_of_def)
  qed
  ultimately have "slots_unique (periods (ws_db ws'))" "period_ok digest (ws_store ws) (ws_items ws) (ws_ledger ws) p"
    using p(2) by (auto simp: ws' period_ok_def with_status_def authorized_def settled_def)
  moreover have "distinct (map pp_id (periods (ws_db ws')))" using okD(1) p(1) by (simp add: ws')
  moreover have "\<exists>q\<in>set (periods (ws_db ws')). is_period_approval (pp_company_id q) (pp_id q) x"
    if "x \<in> set (ws_items ws)" "ri_request_type x = ''PeriodApproval''" for x
    using okD(5) [OF that] by (auto simp: ws')
  moreover have "fl_period_id (row_data l) \<in> pp_id ` set (periods (ws_db ws'))" if "l \<in> set (ws_ledger ws)" for l
    using okD(6) [OF that] by (auto simp: ws')
  moreover have "q \<in> set (periods (ws_db ws')) \<longleftrightarrow> q = p \<or> q \<in> set (periods (ws_db ws))" for q
    by (auto simp: ws')
  ultimately have "tables_ok digest (periods (ws_db ws')) (ws_store ws) (ws_items ws) (ws_ledger ws)"
    unfolding tables_ok_def using okD(3,4) okD(7) by metis
  then show ?thesis by (simp add: workflow_ok_def ws')
qed

end
