(* ===== verification/Workflow_Runs.thy ===== *)
theory Workflow_Runs
  imports Workflow_Facts
begin

text \<open>
  Runs of the workflow: the handlers as a step relation on the workflow state, the invariant of
  all reachable states, and what a run keeps: an item keeps its snapshot, a snapshot its content.

  A step is a successful request: a PATCH of the status, a resubmission, a decision, a manual
  review item, a finalization; the creation of a period with a fresh id in a free slot; or an edit
  of the live tables, the columns and the roles, which leaves the four workflow tables alone.
\<close>

section \<open>The abstract lifecycle\<close>

text \<open>The lifecycle of one period as the product describes it: the edges between its statuses.\<close>

inductive lifecycle_edge :: "string \<Rightarrow> string \<Rightarrow> bool" where
  "lifecycle_edge ''Draft'' ''Open''"
| "lifecycle_edge ''Draft'' ''Cancelled''"
| "lifecycle_edge ''Open'' ''Cancelled''"
| "lifecycle_edge ''Open'' ''InReview''"
| "lifecycle_edge ''InReview'' ''Approved''"
| "lifecycle_edge ''InReview'' ''Returned''"
| "lifecycle_edge ''Returned'' ''InReview''"
| "lifecycle_edge ''Approved'' ''Locked''"
| "lifecycle_edge ''Locked'' ''Archived''"

section \<open>Steps\<close>

inductive workflow_step ::
  "(json \<Rightarrow> string) \<Rightarrow> (string \<Rightarrow> date \<Rightarrow> int) \<Rightarrow> workflow_state \<Rightarrow> workflow_state \<Rightarrow> bool"
  for digest boundary where
  patch: "change_period_status digest boundary now company user i new notes ws = Inr ws' \<Longrightarrow>
    workflow_step digest boundary ws ws'"
| resubmit: "resubmit_period digest boundary now company user i ws = Inr ws' \<Longrightarrow>
    workflow_step digest boundary ws ws'"
| decide: "decide_review_item digest now company user item decision reason ws = Inr ws' \<Longrightarrow>
    decision \<in> set valid_decisions \<Longrightarrow> workflow_step digest boundary ws ws'"
| create_item: "create_review_item company user rc ws = Inr ws' \<Longrightarrow> workflow_step digest boundary ws ws'"
| finalize: "finalize_period digest now i company user ws = Inr ws' \<Longrightarrow> workflow_step digest boundary ws ws'"
| new_period: "pp_id p \<notin> pp_id ` set (periods (ws_db ws)) \<Longrightarrow> pp_status p \<in> {''Draft'', ''Open''} \<Longrightarrow>
    slot_unique (pp_status p) (periods (ws_db ws) @ [p]) \<Longrightarrow>
    periods (ws_db ws') = periods (ws_db ws) @ [p] \<Longrightarrow> ws_items ws' = ws_items ws \<Longrightarrow>
    ws_store ws' = ws_store ws \<Longrightarrow> ws_ledger ws' = ws_ledger ws \<Longrightarrow> workflow_step digest boundary ws ws'"
| edit: "same_tables ws ws' \<Longrightarrow> workflow_step digest boundary ws ws'"

inductive workflow_run ::
  "(json \<Rightarrow> string) \<Rightarrow> (string \<Rightarrow> date \<Rightarrow> int) \<Rightarrow> workflow_state \<Rightarrow> workflow_state \<Rightarrow> bool"
  for digest boundary where
  stop: "workflow_run digest boundary ws ws"
| go: "workflow_run digest boundary ws ws1 \<Longrightarrow> workflow_step digest boundary ws1 ws2 \<Longrightarrow>
    workflow_run digest boundary ws ws2"

lemma allowed_same_phase:
  assumes "new \<in> set (allowed_transitions old)" "new \<noteq> ''InReview''"
  shows "same_phase old new"
proof -
  have "(old, new) \<in> {(''Draft'', ''Cancelled''), (''Open'', ''Cancelled''), (''Locked'', ''Archived'')}"
    using assms by (auto simp: allowed_transitions_def valid_transitions_def split: if_splits)
  then show ?thesis by (auto simp: same_phase_def authorized_def settled_def)
qed

lemma allowed_edge: "new \<in> set (allowed_transitions old) \<Longrightarrow> lifecycle_edge old new"
  by (auto simp: allowed_transitions_def valid_transitions_def lifecycle_edge.simps split: if_splits)

text \<open>A step is one of these effects on the tables.\<close>

definition decided_item :: "int \<Rightarrow> int \<Rightarrow> int \<Rightarrow> string \<Rightarrow> string option \<Rightarrow> workflow_state \<Rightarrow> workflow_state \<Rightarrow> bool" where
  "decided_item now user item decision reason ws ws' \<longleftrightarrow>
     ws_items ws' = decide_item now user item decision reason (ws_items ws) \<and>
     ws_store ws' = ws_store ws \<and> ws_ledger ws' = ws_ledger ws"

lemma workflow_step_effect:
  assumes "workflow_step digest boundary ws ws'" "workflow_ok digest ws"
  obtains (submit) user p packet sid ws1 where "submitted digest boundary user p packet sid ws ws1"
      "same_tables ws1 ws' \<or> (\<exists>d. restatus d ''Draft'' ''Open'' ws1 ws')"
    | (status) i old new where "restatus i old new ws ws'" "same_phase old new" "lifecycle_edge old new"
    | (plain) now user item decision reason ri where "decided_item now user item decision reason ws ws'"
        "ri \<in> set (ws_items ws)" "ri_id ri = item" "ri_request_type ri \<noteq> ''PeriodApproval''"
        "periods (ws_db ws') = periods (ws_db ws)"
    | (period) now user item decision reason p ri where "decided_item now user item decision reason ws ws'"
        "ri \<in> set (ws_items ws)" "ri_id ri = item" "decided_period p ri decision ws ws'"
        "decision \<in> set valid_decisions" "decision \<noteq> ''Comment''"
    | (item) ri where "ri_id ri = next_item_id (ws_items ws)" "ri_request_type ri \<noteq> ''PeriodApproval''"
        "ws_items ws' = ws_items ws @ [ri]" "ws_db ws' = ws_db ws" "ws_store ws' = ws_store ws"
        "ws_ledger ws' = ws_ledger ws"
    | (final) user p ri lo where "finalized digest user p ri lo ws ws'"
    | (new) p where "pp_id p \<notin> pp_id ` set (periods (ws_db ws))" "pp_status p \<in> {''Draft'', ''Open''}"
        "slot_unique (pp_status p) (periods (ws_db ws) @ [p])"
        "periods (ws_db ws') = periods (ws_db ws) @ [p]" "ws_items ws' = ws_items ws"
        "ws_store ws' = ws_store ws" "ws_ledger ws' = ws_ledger ws"
    | (same) "same_tables ws ws'"
  using assms(1)
proof (cases rule: workflow_step.cases)
  case patch
  from patch workflow_okD(2) [OF assms(2)] show thesis
    by (rule change_period_statusE) (erule (1) submit, erule status, erule (1) allowed_same_phase, erule allowed_edge)
next
  case resubmit
  from resubmit workflow_okD(2) [OF assms(2)] show thesis
    by (rule resubmit_periodE) (erule submit, simp add: same_tables_def)
next
  case (decide now company user item decision reason)
  from decide(1) workflow_okD(2) [OF assms(2)] show thesis
  proof (cases rule: decide_review_itemE)
    case comment
    then show thesis by (intro same)
  next
    case (plain ri)
    then show thesis by (intro that(3) [of now user item decision reason ri]) (simp_all add: decided_item_def)
  next
    case (period p ri)
    then show thesis
      using decide(2) by (intro that(4) [of now user item decision reason ri p]) (simp_all add: decided_item_def)
  qed
next
  case create_item
  then show thesis by (rule create_review_itemE) (rule item)
next
  case finalize
  from finalize workflow_okD(2) [OF assms(2)] show thesis by (rule finalize_periodE) (rule final)
next
  case new_period
  then show thesis by (rule new)
next
  case edit
  then show thesis by (rule same)
qed

section \<open>The invariant\<close>

lemma promotion_ok:
  assumes ok: "workflow_ok digest ws" and promoted: "same_tables ws ws' \<or> (\<exists>d. restatus d ''Draft'' ''Open'' ws ws')"
  shows "workflow_ok digest ws'"
proof -
  have "same_phase ''Draft'' ''Open''" by (simp add: same_phase_def authorized_def settled_def)
  with promoted show ?thesis using same_tables_ok [OF ok] restatus_ok [OF ok] by blast
qed

lemma workflow_step_ok:
  assumes "workflow_step digest boundary ws ws'" "workflow_ok digest ws"
  shows "workflow_ok digest ws'"
  using assms
proof (cases rule: workflow_step_effect)
  case (submit user p packet sid ws1)
  from submitted_ok [OF assms(2) submit(1)] submit(2) show ?thesis by (rule promotion_ok)
next
  case (status i old new)
  then show ?thesis by (intro restatus_ok [OF assms(2)])
next
  case (plain now user item decision reason ri)
  then show ?thesis
    by (intro plain_decision_ok [OF assms(2) plain(2-4), where now = now and user = user and decision = decision and reason = reason]) (simp_all add: decided_item_def)
next
  case (period now user item decision reason p ri)
  then show ?thesis
    by (intro period_decision_ok [OF assms(2) period(5,6,2,3,4), where now = now and user = user and reason = reason]) (simp_all add: decided_item_def)
next
  case (item ri)
  then show ?thesis by (rule added_item_ok [OF assms(2)])
next
  case (final user p ri lo)
  then show ?thesis by (rule finalized_ok(1) [OF assms(2)])
next
  case (new p)
  then show ?thesis by (rule added_period_ok [OF assms(2)])
next
  case same
  then show ?thesis by (rule same_tables_ok [OF assms(2)])
qed

lemma workflow_run_ok:
  "workflow_run digest boundary ws ws' \<Longrightarrow> workflow_ok digest ws \<Longrightarrow> workflow_ok digest ws'"
  by (induction rule: workflow_run.induct) (auto intro: workflow_step_ok)

section \<open>What a run keeps\<close>

text \<open>The columns of an item no decision changes.\<close>

definition item_identity :: "review_item \<Rightarrow> review_item" where
  "item_identity ri = ri\<lparr>ri_status := [], ri_decided_by := None, ri_decided_at := None, ri_reason := None\<rparr>"

definition carries :: "review_item \<Rightarrow> workflow_state \<Rightarrow> bool" where
  "carries ri ws \<longleftrightarrow> item_identity ri \<in> item_identity ` set (ws_items ws)"

lemma same_identity:
  assumes "item_identity x = item_identity y"
  shows "ri_id x = ri_id y" "ri_snapshot_id x = ri_snapshot_id y" "is_period_approval c i x = is_period_approval c i y"
proof -
  have *: "ri_id (item_identity x) = ri_id x" "ri_snapshot_id (item_identity x) = ri_snapshot_id x"
    "is_period_approval c i (item_identity x) = is_period_approval c i x" for x
    by (simp_all add: item_identity_def)
  show "ri_id x = ri_id y" "ri_snapshot_id x = ri_snapshot_id y" "is_period_approval c i x = is_period_approval c i y"
    using * [of x] * [of y] assms by simp_all
qed

lemma carries_decide [simp]:
  "item_identity ` set (decide_item now user item d r ris) = item_identity ` set ris"
proof -
  have "map item_identity (decide_item now user item d r ris) = map item_identity ris"
    by (induction ris) (simp_all add: decide_item_def item_identity_def)
  then show ?thesis by (simp only: set_map [symmetric])
qed

lemma workflow_step_keeps:
  assumes "workflow_step digest boundary ws ws'" "workflow_ok digest ws"
  shows "carries ri ws \<Longrightarrow> carries ri ws'"
    and "archive_verify digest sc s (ws_store ws) = Inr lo \<Longrightarrow> archive_verify digest sc s (ws_store ws') = Inr lo"
proof -
  have "(carries ri ws \<longrightarrow> carries ri ws') \<and>
      (archive_verify digest sc s (ws_store ws) = Inr lo \<longrightarrow> archive_verify digest sc s (ws_store ws') = Inr lo)"
    using assms
  proof (cases rule: workflow_step_effect)
    case (submit user p packet sid' ws1)
    have store: "store_ok (ws_store ws)" using tables_okD(3) [OF workflow_okD(1) [OF assms(2)]] .
    have "ws_store ws' = ws_store ws1" "ws_items ws' = ws_items ws1"
      using submit(2) by (auto simp: same_tables_def restatus_def)
    moreover have "set (ws_items ws) \<subseteq> set (ws_items ws1)" using submit(1) by (auto simp: submitted_def)
    ultimately show ?thesis
      using submitted_archive(2) [OF submit(1) store] by (auto simp: carries_def)
  next
    case (plain now user i decision reason ri')
    then show ?thesis by (simp add: decided_item_def carries_def)
  next
    case (period now user i decision reason p ri')
    then show ?thesis by (simp add: decided_item_def carries_def)
  qed (auto simp: restatus_def same_tables_def finalized_def carries_def)
  then show "carries ri ws \<Longrightarrow> carries ri ws'"
    "archive_verify digest sc s (ws_store ws) = Inr lo \<Longrightarrow> archive_verify digest sc s (ws_store ws') = Inr lo"
    by blast+
qed

lemma workflow_run_keeps:
  assumes "workflow_run digest boundary ws ws'" "workflow_ok digest ws"
  shows "(carries ri ws \<longrightarrow> carries ri ws') \<and>
    (archive_verify digest sc s (ws_store ws) = Inr lo \<longrightarrow> archive_verify digest sc s (ws_store ws') = Inr lo)"
  using assms
proof (induction rule: workflow_run.induct)
  case (go ws ws1 ws2)
  then show ?case
    using workflow_step_keeps [OF go.hyps(2) workflow_run_ok [OF go.hyps(1) go.prems]] by blast
qed simp

section \<open>From submission to the ledger\<close>

definition packet_payments :: "live_packet \<Rightarrow> (int \<times> int \<times> string \<times> decimal) list" where
  "packet_payments packet = concat (map (\<lambda>d. map (\<lambda>k.
     (dt_assignment_id d, dt_driver_id d, kind_of (oc_identity k), oc_official k)) (dt_components d)) (pk_drivers packet))"

definition ledger_payments :: "int \<Rightarrow> int \<Rightarrow> final_ledger \<Rightarrow> (int \<times> int \<times> string \<times> decimal) list" where
  "ledger_payments company i ledger = map (\<lambda>r. (fl_assignment_id (row_data r), fl_driver_id (row_data r),
     fl_component_kind (row_data r), fl_amount (row_data r))) (final_lines_of company i ledger)"

lemma component_content_kind:
  "sc_kind (component_content k) = kind_of (oc_identity k)" "sc_official (component_content k) = oc_official k"
  by (cases "oc_identity k"; simp add: component_content_def blank_component_def Let_def)+

lemma projection_payments:
  assumes "list_all2 pays_driver (pk_drivers packet) (co_totals lo)"
  shows "mset (map (\<lambda>r. (fr_assignment_id r, fr_driver_id r, fr_component_kind r, fr_amount r)) (projection_of lo)) =
    mset (packet_payments packet)"
proof -
  have one: "mset (map ((\<lambda>r. (fr_assignment_id r, fr_driver_id r, fr_component_kind r, fr_amount r)) \<circ> line_of lo t)
        (sort_key order_key (to_components t))) =
      mset (map (\<lambda>k. (dt_assignment_id d, dt_driver_id d, kind_of (oc_identity k), oc_official k)) (dt_components d))"
    if "pays_driver d t" for d t
  proof -
    let ?pay = "\<lambda>co. (dt_assignment_id d, dt_driver_id d, sc_kind co, sc_official co)"
    have "map ?pay (to_components t) = map ?pay (map snapshot_component.truncate (to_components t))"
      by (simp add: snapshot_component.defs)
    also have "\<dots> = map ?pay (map component_content (dt_components d))"
      using that by (simp only: pays_driver_def)
    also have "\<dots> = map (\<lambda>k. (dt_assignment_id d, dt_driver_id d, kind_of (oc_identity k), oc_official k)) (dt_components d)"
      by (simp add: component_content_kind)
    finally have eq: "map ?pay (to_components t) =
        map (\<lambda>k. (dt_assignment_id d, dt_driver_id d, kind_of (oc_identity k), oc_official k)) (dt_components d)" .
    have "mset (map ?pay (sort_key order_key (to_components t))) = mset (map ?pay (to_components t))" by simp
    also note eq
    finally have "mset (map ?pay (sort_key order_key (to_components t))) =
        mset (map (\<lambda>k. (dt_assignment_id d, dt_driver_id d, kind_of (oc_identity k), oc_official k)) (dt_components d))" .
    then show ?thesis
      using that by (simp add: pays_driver_def line_of_def projected_line_def comp_def del: mset_map)
  qed
  show ?thesis
    using assms unfolding projection_of_def packet_payments_def
    by (induction rule: list_all2_induct) (simp_all add: one [simplified])
qed

lemma verified_unique:
  assumes "archive_verify digest sc s st = Inr a" "archive_verify digest sc' s st = Inr b"
  shows "a = b"
proof -
  have "load_snapshot_content s None None None st = Inr c" if "archive_verify digest sc s st = Inr c" for sc c
  proof -
    obtain co br pe where sc: "sc = (co, br, pe)" by (cases sc)
    from that have "load_snapshot_content s co br pe st = Inr c"
      by (simp add: archive_verify_def sc verify_snapshotD(1))
    then show ?thesis
      by (cases "find_first (\<lambda>r. row_id r = s) (st_headers st)")
        (auto simp: load_snapshot_content_def Let_def in_scope_def split: if_splits)
  qed
  from this [OF assms(1)] this [OF assms(2)] show ?thesis by simp
qed

lemma final_lines_pay_packet:
  assumes ok: "workflow_ok digest ws0" and sub: "submitted digest boundary user p packet sid ws0 ws1"
    and same: "same_tables ws1 ws2 \<or> (\<exists>d. restatus d ''Draft'' ''Open'' ws1 ws2)"
    and run: "workflow_run digest boundary ws2 ws3"
    and item: "ri \<in> set (ws_items ws3)" "ri_id ri = next_item_id (ws_items ws0)" "ri_status ri = ''Approved''"
    and final: "finalize_period digest now (pp_id p) company finalizer ws3 = Inr ws4"
    and company: "company = pp_company_id p"
  shows "mset (ledger_payments company (pp_id p) (ws_ledger ws4)) = mset (packet_payments packet)"
proof -
  have ok1: "workflow_ok digest ws1" by (rule submitted_ok [OF ok sub])
  have ok2: "workflow_ok digest ws2" by (rule promotion_ok [OF ok1 same])
  have keep2: "ws_items ws2 = ws_items ws1" "ws_store ws2 = ws_store ws1"
    using same by (auto simp: same_tables_def restatus_def)
  have ok3: "workflow_ok digest ws3" by (rule workflow_run_ok [OF run ok2])
  note okD = tables_okD [OF workflow_okD(1) [OF ok3]]
  from submitted_archive(3) [OF sub tables_okD(3) [OF workflow_okD(1) [OF ok]]] obtain lo where
    lo: "archive_verify digest (period_scope p) sid (ws_store ws1) = Inr lo"
    and pays: "list_all2 pays_driver (pk_drivers packet) (co_totals lo)" by blast
  let ?ri = "pending_period_item (next_item_id (ws_items ws0)) (pp_company_id p) (pp_branch_id p) user (pp_id p) sid"
  have "carries ?ri ws2" using sub by (simp add: keep2 carries_def submitted_def)
  with workflow_run_keeps [OF run ok2] lo keep2(2) have
    lo3: "archive_verify digest (period_scope p) sid (ws_store ws3) = Inr lo" and "carries ?ri ws3" by metis+
  then obtain x where x: "x \<in> set (ws_items ws3)" "item_identity x = item_identity ?ri" by (auto simp: carries_def)
  note id = same_identity [OF x(2)]
  have "ri_id x = ri_id ri" using id(1) item(2) by (simp add: pending_period_item_def)
  with okD(4) x(1) item(1) have "x = ri" unfolding distinct_map by (blast dest: inj_onD)
  with id have ri: "ri_snapshot_id ri = Some sid" "is_period_approval (pp_company_id p) (pp_id p) ri"
    by (simp_all add: pending_period_item_def is_period_approval_def)
  from final workflow_okD(2) [OF ok3] obtain q ri' lo' where q: "pp_id q = pp_id p" "pp_company_id q = company"
    and fin: "finalized digest finalizer q ri' lo' ws3 ws4" by (rule finalize_periodE)
  from fin have mem: "q \<in> set (periods (ws_db ws3))"
    and one: "approved_items (pp_company_id q) (pp_branch_id q) (pp_id q) ws3 = [ri']"
    by (simp_all add: finalized_def)
  have "ri \<in> set (with_status ''Approved'' (approvals_of q (ws_items ws3)))"
    using ri(2) item(1,3) by (simp add: with_status_def approvals_of_def q company)
  then have "ri \<in> set [ri']" unfolding one [symmetric] approved_items_eq [OF okD(7) [OF mem]] .
  then have "ri' = ri" by simp
  with fin ri(1) have lo': "archive_verify digest (period_scope q) sid (ws_store ws3) = Inr lo'"
    by (simp add: finalized_def)
  have same_lo: "lo' = lo" by (rule verified_unique [OF lo' lo3])
  note scope = verified_scope [OF lo']
  from finalized_ok(2) [OF ok3 fin] obtain rows where
    rows: "verify_final_lines lo' (ws_ledger ws4) = Inr rows" "map row_data rows = map (expected_columns lo') (projection_of lo')"
    by blast
  from rows(1) have "rows = final_lines_of company (pp_id p) (ws_ledger ws4)"
    by (auto simp: verify_final_lines_def Let_def scope q elim!: bind_r_InrE split: if_splits)
  then have "ledger_payments company (pp_id p) (ws_ledger ws4) =
      map (\<lambda>l. (fl_assignment_id l, fl_driver_id l, fl_component_kind l, fl_amount l)) (map row_data rows)"
    by (simp add: ledger_payments_def)
  also have "\<dots> = map (\<lambda>r. (fr_assignment_id r, fr_driver_id r, fr_component_kind r, fr_amount r)) (projection_of lo)"
    by (simp add: rows(2) same_lo expected_columns_def)
  finally show ?thesis by (simp only: projection_payments [OF pays])
qed

section \<open>Runs follow the lifecycle\<close>

definition follows_lifecycle :: "period_row list \<Rightarrow> period_row list \<Rightarrow> bool" where
  "follows_lifecycle ps ps' \<longleftrightarrow>
     (\<forall>p\<in>set ps. \<exists>s. lifecycle_edge\<^sup>*\<^sup>* (pp_status p) s \<and> p\<lparr>pp_status := s\<rparr> \<in> set ps')"

lemma follows_refl: "set ps \<subseteq> set ps' \<Longrightarrow> follows_lifecycle ps ps'"
  unfolding follows_lifecycle_def
proof
  fix p assume "set ps \<subseteq> set ps'" "p \<in> set ps"
  then show "\<exists>s. lifecycle_edge\<^sup>*\<^sup>* (pp_status p) s \<and> p\<lparr>pp_status := s\<rparr> \<in> set ps'"
    by (intro exI [of _ "pp_status p"]) auto
qed

lemma follows_trans:
  assumes "follows_lifecycle ps ps1" "follows_lifecycle ps1 ps2"
  shows "follows_lifecycle ps ps2"
  unfolding follows_lifecycle_def
proof
  fix p assume "p \<in> set ps"
  with assms(1) obtain s where s: "lifecycle_edge\<^sup>*\<^sup>* (pp_status p) s" "p\<lparr>pp_status := s\<rparr> \<in> set ps1"
    by (auto simp: follows_lifecycle_def)
  with assms(2) obtain t where "lifecycle_edge\<^sup>*\<^sup>* s t" "p\<lparr>pp_status := t\<rparr> \<in> set ps2"
    by (fastforce simp: follows_lifecycle_def)
  with rtranclp_trans [OF s(1)] show "\<exists>s. lifecycle_edge\<^sup>*\<^sup>* (pp_status p) s \<and> p\<lparr>pp_status := s\<rparr> \<in> set ps2"
    by blast
qed

lemma set_status_follows:
  assumes "distinct (map pp_id ps)" "p \<in> set ps" "pp_id p = i" "lifecycle_edge (pp_status p) new"
  shows "follows_lifecycle ps (set_status i new ps)"
  unfolding follows_lifecycle_def
proof
  fix q assume q: "q \<in> set ps"
  note member = set_status_member [OF assms(1-3)]
  show "\<exists>s. lifecycle_edge\<^sup>*\<^sup>* (pp_status q) s \<and> q\<lparr>pp_status := s\<rparr> \<in> set (set_status i new ps)"
  proof (cases "pp_id q = i")
    case True
    with q assms(1-3) have "q = p" unfolding distinct_map by (blast dest: inj_onD)
    then show ?thesis using assms(4) by (intro exI [of _ new]) (simp add: member)
  next
    case False
    with q show ?thesis by (intro exI [of _ "pp_status q"]) (simp add: member)
  qed
qed

lemma restatus_follows:
  assumes "restatus i old new ws ws'" "distinct (map pp_id (periods (ws_db ws)))" "lifecycle_edge old new"
  shows "follows_lifecycle (periods (ws_db ws)) (periods (ws_db ws'))"
  using assms set_status_follows [OF assms(2)] by (auto simp: restatus_def)

lemma workflow_step_follows:
  assumes "workflow_step digest boundary ws ws'" "workflow_ok digest ws"
  shows "follows_lifecycle (periods (ws_db ws)) (periods (ws_db ws'))"
  using assms
proof (cases rule: workflow_step_effect)
  note dist = workflow_okD(2) [OF assms(2)]
  {
    case (submit user p packet sid ws1)
    have "follows_lifecycle (periods (ws_db ws)) (periods (ws_db ws1))"
      using submit(1) set_status_follows [OF dist, of p "pp_id p" "''InReview''"]
      by (auto simp: submitted_def lifecycle_edge.simps)
    moreover have "distinct (map pp_id (periods (ws_db ws1)))" using submit(1) dist by (simp add: submitted_def)
    then have "follows_lifecycle (periods (ws_db ws1)) (periods (ws_db ws'))"
      using submit(2) restatus_follows [OF _ _ lifecycle_edge.intros(1)] by (auto simp: same_tables_def follows_refl)
    ultimately show ?thesis by (rule follows_trans)
  next
    case (status i old new)
    then show ?thesis by (intro restatus_follows [OF _ dist])
  next
    case (plain now user item decision reason ri)
    then show ?thesis by (simp add: follows_refl)
  next
    case (period now user item decision reason p ri)
    then show ?thesis
      using set_status_follows [OF dist, of p "pp_id p"]
      by (auto simp: decided_period_def Let_def lifecycle_edge.simps split: if_splits)
  next
    case (item ri)
    then show ?thesis by (simp add: follows_refl)
  next
    case (final user p ri lo)
    then show ?thesis
      using set_status_follows [OF dist, of p "pp_id p" "''Locked''"] by (auto simp: finalized_def lifecycle_edge.simps)
  next
    case (new p)
    then show ?thesis by (intro follows_refl) auto
  next
    case same
    then show ?thesis by (simp add: same_tables_def follows_refl)
  }
qed

lemma workflow_run_follows:
  assumes "workflow_run digest boundary ws ws'" "workflow_ok digest ws"
  shows "follows_lifecycle (periods (ws_db ws)) (periods (ws_db ws'))"
  using assms
proof (induction rule: workflow_run.induct)
  case (go ws ws1 ws2)
  from follows_trans [OF go.IH [OF go.prems] workflow_step_follows [OF go.hyps(2) workflow_run_ok [OF go.hyps(1) go.prems]]]
  show ?case .
qed (simp add: follows_refl)

end
