(* ===== verification/Workflow_Progress.thy ===== *)
theory Workflow_Progress
  imports Workflow_Runs
begin

text \<open>
  Progress of the workflow: in a state that satisfies the invariant, an authorized reviewer can
  approve the period in review and an authorized user can finalize an approved one.  The lemmas
  discharge every guard of the handlers from the invariant and the stated authorizations.
\<close>

section \<open>Authorization\<close>

text \<open>What the gates of one action on a Branch ask of its user.\<close>

definition may_act :: "int \<Rightarrow> int \<Rightarrow> int \<Rightarrow> string \<Rightarrow> user_row list \<Rightarrow> access_tables \<Rightarrow> bool" where
  "may_act company user branch permission us ac \<longleftrightarrow>
     \<not> is_driver_self_subject company user ac \<and>
     (\<exists>access. check_branch_access company user us ac = Inr access \<and> can_access_branch access branch) \<and>
     user_has_permission user company (Some branch) permission us ac"

lemma may_act_gates:
  assumes "may_act company user branch permission us ac"
  shows "require_non_driver_subject company user ac = Inr ()"
    and "check_permission company user (Some branch) permission us ac = Inr ()"
    and "permission \<in> set codes \<Longrightarrow> check_any_permission company user (Some branch) codes us ac = Inr ()"
  using assms
  by (auto simp: may_act_def require_non_driver_subject_def check_permission_def check_any_permission_def bind_r_Inr_iff)

text \<open>Conversely, a request that succeeds has passed these gates.\<close>

lemma get_period_gates:
  assumes "get_period_by_id company user i ws = Inr existing"
  obtains p access where "find_period company i ws = Some p" "existing = summary_of ws p"
    "\<not> is_driver_self_subject company user (ws_access ws)"
    "check_branch_access company user (users (ws_db ws)) (ws_access ws) = Inr access"
    "can_access_branch access (pp_branch_id p)"
  using assms unfolding get_period_by_id_def
  by (auto simp: bind_r_Inr_iff map_r_Inr_iff require_non_driver_subject_def split: option.splits if_splits)

lemma acted:
  assumes "get_period_by_id company user i ws = Inr existing"
    and "check_permission company user (Some (pp_branch_id existing)) permission (users (ws_db ws)) (ws_access ws) = Inr ()"
  shows "\<exists>p. find_period company i ws = Some p \<and>
    may_act company user (pp_branch_id p) permission (users (ws_db ws)) (ws_access ws)"
proof -
  obtain p access where "find_period company i ws = Some p" "existing = summary_of ws p"
    "check_branch_access company user (users (ws_db ws)) (ws_access ws) = Inr access"
    "can_access_branch access (pp_branch_id p)" by (rule get_period_gates [OF assms(1)])
  with check_permissionD [OF assms(2)] show ?thesis by (auto simp: may_act_def)
qed

lemma allowed_permission:
  assumes "new \<in> set (allowed_transitions old)"
  shows "map_of transition_permissions (old, new) =
    Some (if new = ''InReview'' then ''payroll.entry'' else ''payroll.finalize'')"
  using assms by (auto simp: allowed_transitions_def valid_transitions_def transition_permissions_def split: if_splits)

lemma change_status_acted:
  assumes "change_period_status digest boundary now company user i new notes ws = Inr ws'"
  shows "\<exists>p. find_period company i ws = Some p \<and> may_act company user (pp_branch_id p)
    (if new = ''InReview'' then ''payroll.entry'' else ''payroll.finalize'') (users (ws_db ws)) (ws_access ws)"
proof -
  from assms obtain existing u where read: "get_period_by_id company user i ws = Inr existing"
    and allowed: "new \<in> set (allowed_transitions (pp_status existing))"
    and perm: "(case map_of transition_permissions (pp_status existing, new) of None \<Rightarrow> Inr ()
       | Some code \<Rightarrow> check_permission company user (Some (pp_branch_id existing)) code (users (ws_db ws))
           (ws_access ws)) = Inr u"
    unfolding change_period_status_def Let_def by (elim bind_r_InrE) (simp only: guard_r_Inr)
  from perm [unfolded allowed_permission [OF allowed]] show ?thesis by (intro acted [OF read]) simp
qed

lemma resubmit_acted:
  assumes "resubmit_period digest boundary now company user i ws = Inr ws'"
  shows "\<exists>p. find_period company i ws = Some p \<and>
    may_act company user (pp_branch_id p) ''payroll.entry'' (users (ws_db ws)) (ws_access ws)"
proof -
  from assms obtain existing u where "get_period_by_id company user i ws = Inr existing"
    "check_permission company user (Some (pp_branch_id existing)) ''payroll.entry'' (users (ws_db ws)) (ws_access ws) = Inr u"
    unfolding resubmit_period_def Let_def by (elim bind_r_InrE) (simp only: guard_r_Inr)
  then show ?thesis by (intro acted) simp_all
qed

lemma finalize_acted:
  assumes "finalize_period digest now i company user ws = Inr ws'"
  shows "\<exists>p. find_period company i ws = Some p \<and>
    may_act company user (pp_branch_id p) ''payroll.finalize'' (users (ws_db ws)) (ws_access ws)"
proof -
  from assms obtain existing u where "get_period_by_id company user i ws = Inr existing"
    "check_permission company user (Some (pp_branch_id existing)) ''payroll.finalize'' (users (ws_db ws)) (ws_access ws) = Inr u"
    unfolding finalize_period_def Let_def by (elim bind_r_InrE) (simp only: guard_r_Inr)
  then show ?thesis by (intro acted) simp_all
qed

lemma decide_acted:
  assumes "decide_review_item digest now company user item decision reason ws = Inr ws'"
  shows "\<exists>ri. find_item company item ws = Some ri \<and>
    may_act company user (ri_branch_id ri) ''review.decide'' (users (ws_db ws)) (ws_access ws) \<and>
    (decision = ''Comment'' \<or> ri_requested_by ri \<noteq> user \<or> company_allows_self_approval company (ws_access ws))"
proof -
  from assms obtain ri where found: "find_item company item ws = Some ri"
    unfolding decide_review_item_def by (elim bind_r_InrE) (auto split: option.splits)
  from assms obtain access u u1 u2 u3 where gates: "require_non_driver_subject company user (ws_access ws) = Inr u"
      "check_branch_access company user (users (ws_db ws)) (ws_access ws) = Inr access"
      "guard_r (can_access_branch access (ri_branch_id ri)) (HttpError 403 ''You do not have access to this branch.'') = Inr u1"
    and perm: "check_permission company user (Some (ri_branch_id ri)) ''review.decide'' (users (ws_db ws)) (ws_access ws) = Inr u2"
    and self: "guard_r (\<not> (decision \<noteq> ''Comment'' \<and> ri_requested_by ri = user \<and>
           \<not> company_allows_self_approval company (ws_access ws)))
         (HttpError 422 ''Self-approval is not permitted for this company.'') = Inr u3"
    unfolding decide_review_item_def found
    by (elim bind_r_InrE) (simp only: option.case Let_def, elim bind_r_InrE, rule that, assumption+)
  with found check_permissionD(2) [of company user "Some (ri_branch_id ri)"] show ?thesis
    by (auto simp: may_act_def require_non_driver_subject_def)
qed

lemma permitted_user_exists:
  "user_has_permission user company branch permission us ac \<Longrightarrow> \<exists>u. find_first (\<lambda>u. us_id u = user) us = Some u"
  using user_has_permissionD(1) [of user company branch permission us ac]
  by (auto simp: account_usable_def find_first_None_iff simp flip: not_None_eq)

lemma evidence_succeeds:
  assumes "user_has_permission user c b perm' (users (ws_db ws)) (ws_access ws)"
  obtains ws' where "capture_workflow_action_evidence company branch i action user perm sid item dec reason ws = Inr ws'"
  using permitted_user_exists [OF assms] that by (auto simp: capture_workflow_action_evidence_def)

section \<open>Reads and claims that succeed\<close>

lemma unique_find_first:
  assumes "distinct (map f xs)" "x \<in> set xs" "P x" "\<And>y. P y \<Longrightarrow> f y = f x"
  shows "find_first P xs = Some x"
proof (cases "find_first P xs")
  case None
  with assms(2,3) show ?thesis by (auto simp: find_first_None_iff)
next
  case (Some y)
  from find_first_SomeD [OF this] have "y \<in> set xs" "f y = f x" using assms(4) by blast+
  with assms(1,2) have "y = x" unfolding distinct_map by (blast dest: inj_onD)
  with Some show ?thesis by simp
qed

lemma find_period_member:
  assumes "distinct (map pp_id (periods (ws_db ws)))" "p \<in> set (periods (ws_db ws))"
  shows "find_period (pp_company_id p) (pp_id p) ws = Some p"
  unfolding find_period_def by (rule unique_find_first [OF assms]) auto

lemma get_period_succeeds:
  assumes "distinct (map pp_id (periods (ws_db ws)))" "p \<in> set (periods (ws_db ws))"
    and "may_act (pp_company_id p) user (pp_branch_id p) permission (users (ws_db ws)) (ws_access ws)"
    and "permission \<in> {''payroll.view'', ''payroll.entry'', ''payroll.finalize''}"
  shows "get_period_by_id (pp_company_id p) user (pp_id p) ws = Inr (summary_of ws p)"
proof -
  from assms(3) obtain access where access:
    "check_branch_access (pp_company_id p) user (users (ws_db ws)) (ws_access ws) = Inr access"
    "can_access_branch access (pp_branch_id p)" by (auto simp: may_act_def)
  show ?thesis
    using may_act_gates(1) [OF assms(3)] may_act_gates(3) [OF assms(3)] assms(4) access
    by (simp add: get_period_by_id_def find_period_member [OF assms(1,2)])
qed

lemma claim_succeeds:
  assumes "p \<in> set (periods (ws_db ws))" "pp_status p = old" "new \<notin> set slot_statuses"
    and "branch = None \<or> branch = Some (pp_branch_id p)"
  obtains ws' where "claim_status (pp_company_id p) (pp_id p) branch old new lost ws = Inr ws'"
    "ws_access ws' = ws_access ws" "users (ws_db ws') = users (ws_db ws)"
    "company_currencies (ws_db ws') = company_currencies (ws_db ws)"
    "monetary_companies (ws_db ws') = monetary_companies (ws_db ws)"
proof -
  have "\<exists>q\<in>set (periods (ws_db ws)). pp_id q = pp_id p \<and> pp_company_id q = pp_company_id p \<and>
      (case branch of None \<Rightarrow> True | Some b \<Rightarrow> pp_branch_id q = b) \<and> pp_status q = old"
    using assms by (intro bexI [of _ p]) auto
  then have "\<exists>ps. claim_status (pp_company_id p) (pp_id p) branch old new lost ws = Inr (with_periods ps ws)"
    using assms(3) by (auto simp: claim_status_def claim_periods_def Let_def)
  then obtain ps where "claim_status (pp_company_id p) (pp_id p) branch old new lost ws = Inr (with_periods ps ws)" ..
  then show thesis by (rule that) (simp_all add: with_periods_def)
qed

section \<open>Finalization\<close>

lemma approved_item_alone:
  assumes ok: "workflow_ok digest ws" and p: "p \<in> set (periods (ws_db ws))" "authorized (pp_status p)"
    and ri: "ri \<in> set (ws_items ws)" "is_period_approval (pp_company_id p) (pp_id p) ri" "ri_status ri = ''Approved''"
  shows "approved_items (pp_company_id p) (pp_branch_id p) (pp_id p) ws = [ri]"
proof -
  have pok: "period_ok digest (ws_store ws) (ws_items ws) (ws_ledger ws) p"
    by (rule tables_okD(7) [OF workflow_okD(1) [OF ok] p(1)])
  let ?l = "with_status ''Approved'' (approvals_of p (ws_items ws))"
  have "length ?l = 1" using pok p(2) by (simp add: period_ok_def)
  moreover have "ri \<in> set ?l" using ri by (simp add: with_status_def approvals_of_def)
  ultimately have "?l = [ri]" by (cases ?l) auto
  then show ?thesis by (simp add: approved_items_eq [OF pok])
qed

lemma finalize_succeeds:
  assumes ok: "workflow_ok digest ws" and p: "p \<in> set (periods (ws_db ws))" "pp_status p = ''Approved''"
    and may: "may_act (pp_company_id p) user (pp_branch_id p) ''payroll.finalize'' (users (ws_db ws)) (ws_access ws)"
    and ri: "ri \<in> set (ws_items ws)" "is_period_approval (pp_company_id p) (pp_id p) ri" "ri_status ri = ''Approved''"
      "ri_snapshot_id ri = Some sid" "archive_verify digest (period_scope p) sid (ws_store ws) = Inr lo"
    and currency: "lock_and_get_company_currency (pp_company_id p) ws = Inr cur"
      "sh_currency_code lo = cur_code cur" "sh_currency_digits lo = minor_unit_digits cur"
    and content: "projection_of lo \<noteq> [] \<or> lo_statuses lo \<noteq> []"
  shows "\<exists>ws'. finalize_period digest now (pp_id p) (pp_company_id p) user ws = Inr ws'"
proof -
  note dist = workflow_okD(2) [OF ok]
  note one = approved_item_alone [OF ok p(1) _ ri(1-3)]
  have ver: "verify_snapshot digest sid (Some (pp_company_id p)) (Some (pp_branch_id p)) (Some (pp_id p)) (ws_store ws) = Inr lo"
    using ri(5) by (simp add: archive_verify_def period_scope_def)
  have one: "approved_items (pp_company_id p) (pp_branch_id p) (pp_id p) ws = [ri]"
    by (rule one) (simp add: p(2) authorized_def)
  have load: "load_approved_snapshot_packet digest (pp_id p) (pp_company_id p) (pp_branch_id p) ws =
      Inr \<lparr>ap_item_id = ri_id ri, ap_content = lo, ap_projection = projection_of lo\<rparr>"
    using content by (simp add: load_approved_snapshot_packet_def one ri(4) ver map_error_def
        verified_projection [OF verified_scope(5) [OF ri(5)]] guard_r_def)
  obtain ws1 where claim: "claim_status (pp_company_id p) (pp_id p) None ''Approved'' ''Locked''
      (HttpError 422 ''Period could not be claimed for finalization'') ws = Inr ws1"
    and same: "ws_access ws1 = ws_access ws" "users (ws_db ws1) = users (ws_db ws)"
    by (rule claim_succeeds [OF p, where new = "''Locked''" and branch = None])
      (simp_all add: slot_statuses_def)
  have perm: "user_has_permission user (pp_company_id p) (Some (pp_branch_id p)) ''payroll.finalize''
      (users (ws_db ws1)) (ws_access ws1)"
    using may by (simp add: may_act_def same)
  let ?ws2 = "(update_columns (pp_id p) (\<lambda>pc. pc\<lparr>pc_locked_by := Some user, pc_locked_at := Some now\<rparr>) ws1)
     \<lparr>ws_ledger := insert_final_lines user lo (pp_company_id p) (pp_branch_id p) (pp_id p) (projection_of lo) (ws_ledger ws)\<rparr>"
  have "user_has_permission user (pp_company_id p) (Some (pp_branch_id p)) ''payroll.finalize''
      (users (ws_db ?ws2)) (ws_access ?ws2)" using perm by simp
  from evidence_succeeds [OF this] obtain ws3 where ev: "capture_workflow_action_evidence (pp_company_id p) (pp_branch_id p)
      (pp_id p) ''FINALIZED'' user ''payroll.finalize'' (Some (lo_snapshot_id lo)) (Some (ri_id ri)) None None ?ws2 = Inr ws3" .
  have match: "require_matching_snapshot_currency cur (Some (sh_currency_code lo)) (Some (sh_currency_digits lo)) \<noteq> Inl e" for e
    by (simp add: require_matching_snapshot_currency_def currency)
  then obtain c where c: "require_matching_snapshot_currency cur (Some (sh_currency_code lo)) (Some (sh_currency_digits lo)) = Inr c"
    by (cases "require_matching_snapshot_currency cur (Some (sh_currency_code lo)) (Some (sh_currency_digits lo))") auto
  have held: "\<exists>q\<in>set (periods (ws_db ws)). pp_id q = pp_id p \<and> pp_company_id q = pp_company_id p \<and>
      pp_branch_id q = pp_branch_id p \<and> pp_status q = ''Approved''" using p by blast
  show ?thesis
    unfolding finalize_period_def Let_def
    by (simp add: may_act_gates(1,2) [OF may] get_period_succeeds [OF dist p(1) may] p(2) currency(1) held guard_r_def
        load c claim ev)
qed

section \<open>Approval\<close>

lemma parse_show_int [simp]: "parse_int (show_int n) = Inr n"
proof -
  have digits: "hd (show_nat m) \<noteq> CHR ''-''" for m
    using show_nat_digits [of "hd (show_nat m)" m] marks_not_digits(1) by auto
  then show ?thesis by (simp add: parse_int_def show_int_def Let_def)
qed

lemma find_first_conj:
  "find_first P xs = Some x \<Longrightarrow> Q x \<Longrightarrow> find_first (\<lambda>x. P x \<and> Q x) xs = Some x"
  by (induction xs) (auto split: if_splits)

lemma verified_header:
  assumes "archive_verify digest (period_scope p) sid st = Inr lo"
  obtains h where "find_first (\<lambda>h. row_id h = sid \<and> sh_company_id (row_data h) = pp_company_id p \<and>
      sh_branch_id (row_data h) = pp_branch_id p) (st_headers st) = Some h"
    "sh_calculation_version (row_data h) = current_calculation_version" "sh_period_id (row_data h) = pp_id p"
    "sh_currency_code (row_data h) = sh_currency_code lo" "sh_currency_digits (row_data h) = sh_currency_digits lo"
proof -
  from assms have "verify_snapshot digest sid (Some (pp_company_id p)) (Some (pp_branch_id p)) (Some (pp_id p)) st = Inr lo"
    by (simp add: archive_verify_def period_scope_def)
  note loaded = verify_snapshotD(1) [OF this]
  from loaded obtain h where h: "find_first (\<lambda>r. row_id r = sid) (st_headers st) = Some h"
    "sh_company_id (row_data h) = pp_company_id p" "sh_branch_id (row_data h) = pp_branch_id p"
    "sh_calculation_version (row_data h) = current_calculation_version" "sh_period_id (row_data h) = pp_id p"
    and lo: "lo = snapshot_content.extend (snapshot_header.extend (snapshot_header.truncate (row_data h))
        (snapshot_content.fields (load_totals sid st) (load_used_rates sid st)))
      (loaded_content.fields sid (hd_revision (row_data h)) (hd_snapshot_hash (row_data h)) (hd_report_version (row_data h))
        (hd_report_hash (row_data h)) (hd_created_by (row_data h)) (load_statuses sid st) (load_bonuses sid st))"
    by (cases "find_first (\<lambda>r. row_id r = sid) (st_headers st)")
      (auto simp: load_snapshot_content_def Let_def in_scope_def split: if_splits)
  have currency: "sh_currency_code (row_data h) = sh_currency_code lo" "sh_currency_digits (row_data h) = sh_currency_digits lo"
    by (simp_all add: lo snapshot_content.defs snapshot_header.defs loaded_content.defs)
  from h(2,3) find_first_conj [OF h(1), of "\<lambda>h. sh_company_id (row_data h) = pp_company_id p \<and>
    sh_branch_id (row_data h) = pp_branch_id p"]
  show thesis by (intro that [OF _ h(4,5) currency]) simp
qed

lemma approval_context_succeeds:
  assumes "distinct (map pp_id (periods (ws_db ws)))" "p \<in> set (periods (ws_db ws))" "0 < pp_id p"
    and "is_period_approval (pp_company_id p) (pp_id p) ri" "ri_branch_id ri = pp_branch_id p"
    and "ri_snapshot_id ri = Some sid" "archive_verify digest (period_scope p) sid (ws_store ws) = Inr lo"
  obtains h where "load_period_approval_context digest (pp_company_id p) ri True True ws = Inr (p, Some h)"
    "sh_currency_code h = sh_currency_code lo" "sh_currency_digits h = sh_currency_digits lo"
proof -
  from assms(7) obtain h where h: "find_first (\<lambda>h. row_id h = sid \<and> sh_company_id (row_data h) = pp_company_id p \<and>
      sh_branch_id (row_data h) = pp_branch_id p) (st_headers (ws_store ws)) = Some h"
    "sh_calculation_version (row_data h) = current_calculation_version" "sh_period_id (row_data h) = pp_id p"
    "sh_currency_code (row_data h) = sh_currency_code lo" "sh_currency_digits (row_data h) = sh_currency_digits lo"
    by (rule verified_header)
  have ver: "verify_snapshot digest sid (Some (pp_company_id p)) (Some (pp_branch_id p)) (Some (pp_id p)) (ws_store ws) = Inr lo"
    using assms(7) by (simp add: archive_verify_def period_scope_def)
  have i: "period_approval_id ri = Inr (pp_id p)"
    using assms(3,4) by (simp add: period_approval_id_def is_period_approval_def)
  have "find_first (\<lambda>q. pp_id q = pp_id p \<and> pp_company_id q = pp_company_id p \<and> pp_branch_id q = ri_branch_id ri)
      (periods (ws_db ws)) = Some p"
    by (rule unique_find_first [OF assms(1,2)]) (auto simp: assms(5))
  then have "load_period_approval_context digest (pp_company_id p) ri True True ws = Inr (p, Some (row_data h))"
    unfolding load_period_approval_context_def by (simp add: i assms(5,6) h(1-3) ver map_error_def)
  with h(4,5) that show thesis by blast
qed

text \<open>The tables the gates of a later action read.\<close>

definition same_gates :: "workflow_state \<Rightarrow> workflow_state \<Rightarrow> bool" where
  "same_gates ws ws' \<longleftrightarrow> ws_access ws' = ws_access ws \<and> users (ws_db ws') = users (ws_db ws) \<and>
     company_currencies (ws_db ws') = company_currencies (ws_db ws) \<and>
     monetary_companies (ws_db ws') = monetary_companies (ws_db ws)"

lemma same_gates_trans: "same_gates a b \<Longrightarrow> same_gates b c \<Longrightarrow> same_gates a c"
  by (simp add: same_gates_def)

lemma same_gates_currency:
  "same_gates ws ws' \<Longrightarrow> lock_and_get_company_currency c ws' = lock_and_get_company_currency c ws"
  by (simp add: same_gates_def lock_and_get_company_currency_def get_currency_of_def)

lemma claim_gates:
  "claim_status c i b old new lost ws = Inr ws' \<Longrightarrow> same_gates ws ws'"
  by (auto simp: claim_status_def claim_periods_def Let_def same_gates_def with_periods_def split: if_splits)

lemma decide_period_approves:
  assumes "p \<in> set (periods (ws_db ws))" "pp_status p = ''InReview''"
  obtains ws' where "decide_period now (pp_company_id p) user (pp_branch_id p) (pp_id p) item ''Approved'' ws = Inr ws'"
    "same_gates ws ws'"
proof -
  obtain ws1 where claim: "claim_status (pp_company_id p) (pp_id p) (Some (pp_branch_id p)) ''InReview'' ''Approved''
      (HttpError 422 ''Period is no longer in InReview status'') ws = Inr ws1"
    by (rule claim_succeeds [OF assms, where new = "''Approved''" and branch = "Some (pp_branch_id p)"])
      (simp_all add: slot_statuses_def)
  show thesis
    by (rule that, simp add: decide_period_def Let_def claim map_error_def)
      (use claim_gates [OF claim] in \<open>simp add: same_gates_def\<close>)
qed

lemma approve_succeeds:
  assumes ok: "workflow_ok digest ws" and p: "p \<in> set (periods (ws_db ws))" "pp_status p = ''InReview''" "0 < pp_id p"
    and may: "may_act (pp_company_id p) user (pp_branch_id p) ''review.decide'' (users (ws_db ws)) (ws_access ws)"
    and self: "ri_requested_by ri \<noteq> user \<or> company_allows_self_approval (pp_company_id p) (ws_access ws)"
    and ri: "ri \<in> set (ws_items ws)" "is_period_approval (pp_company_id p) (pp_id p) ri" "ri_status ri = ''Pending''"
      "ri_branch_id ri = pp_branch_id p" "ri_snapshot_id ri = Some sid"
      "archive_verify digest (period_scope p) sid (ws_store ws) = Inr lo"
    and currency: "lock_and_get_company_currency (pp_company_id p) ws = Inr cur"
      "sh_currency_code lo = cur_code cur" "sh_currency_digits lo = minor_unit_digits cur"
  obtains ws' where "decide_review_item digest now (pp_company_id p) user (ri_id ri) ''Approved'' reason ws = Inr ws'"
    "same_gates ws ws'"
proof -
  let ?c = "pp_company_id p" and ?b = "pp_branch_id p"
  note dist = workflow_okD(2) [OF ok]
  from may obtain access where access: "check_branch_access ?c user (users (ws_db ws)) (ws_access ws) = Inr access"
    "can_access_branch access ?b" by (auto simp: may_act_def)
  have company: "ri_company_id ri = ?c" "ri_request_type ri = ''PeriodApproval''"
    using ri(2) by (simp_all add: is_period_approval_def)
  have found: "find_item ?c (ri_id ri) ws = Some ri"
    unfolding find_item_def
    by (rule unique_find_first [OF tables_okD(4) [OF workflow_okD(1) [OF ok]] ri(1)]) (simp_all add: company)
  obtain h where load: "load_period_approval_context digest ?c ri True True ws = Inr (p, Some h)"
    and h: "sh_currency_code h = cur_code cur" "sh_currency_digits h = minor_unit_digits cur"
    by (rule approval_context_succeeds [OF dist p(1,3) ri(2,4,5,6)]) (simp add: currency)
  have match: "\<exists>x. require_matching_snapshot_currency cur (Some (sh_currency_code h)) (Some (sh_currency_digits h)) = Inr x"
    by (simp add: require_matching_snapshot_currency_def h)
  then obtain x where x: "require_matching_snapshot_currency cur (Some (sh_currency_code h)) (Some (sh_currency_digits h)) = Inr x" ..
  define ws2 where "ws2 = ws\<lparr>ws_decisions := ws_decisions ws @
      [\<lparr>rd_id = next_decision_id (ws_decisions ws), rd_item_id = ri_id ri, rd_user_id = user,
        rd_decision = ''Approved'', rd_reason = reason\<rparr>],
      ws_items := decide_item now user (ri_id ri) ''Approved'' reason (ws_items ws)\<rparr>"
  then have ws2: "ws_db ws2 = ws_db ws" "ws_access ws2 = ws_access ws" by simp_all
  have "user_has_permission user ?c (Some ?b) ''review.decide'' (users (ws_db ws2)) (ws_access ws2)"
    using may by (simp add: may_act_def ws2)
  from evidence_succeeds [OF this] obtain ws3 where ev: "capture_workflow_action_evidence ?c (ri_branch_id ri) (pp_id p)
      (decision_action ''Approved'') user ''review.decide'' (ri_snapshot_id ri) (Some (ri_id ri))
      (Some (next_decision_id (ws_decisions ws))) reason ws2 = Inr ws3" .
  note keeps = evidence_keeps [OF ev]
  have "p \<in> set (periods (ws_db ws3))" using p(1) by (simp add: keeps(1) ws2)
  from decide_period_approves [OF this p(2)] obtain ws4 where
    dp: "decide_period now ?c user ?b (pp_id p) (ri_id ri) ''Approved'' ws3 = Inr ws4" and same: "same_gates ws3 ws4" .
  have ac: "require_non_driver_subject ?c user (ws_access ws3) = Inr ()"
    using may_act_gates(1) [OF may] by (simp add: keeps(5) ws2)
  have run: "bind_r (capture_workflow_action_evidence ?c (ri_branch_id ri) (pp_id p)
      (decision_action ''Approved'') user ''review.decide'' (ri_snapshot_id ri) (Some (ri_id ri))
      (Some (next_decision_id (ws_decisions ws))) reason ws2) (\<lambda>ws3.
      bind_r (require_non_driver_subject ?c user (ws_access ws3)) (\<lambda>_.
      decide_period now ?c user (ri_branch_id ri) (pp_id p) (ri_id ri) ''Approved'' ws3)) = Inr ws4"
    by (simp add: ev [unfolded ri(4)] ac dp ri(4))
  have "decide_review_item digest now ?c user (ri_id ri) ''Approved'' reason ws = Inr ws4"
    unfolding decide_review_item_def Let_def
    using run [unfolded ws2_def] self
    by (simp add: may_act_gates(1,2) [OF may] found access ri(3,4) company currency(1) guard_r_def decidable_statuses_def
        load p(2) x)
  moreover have "same_gates ws ws4" using same by (simp add: same_gates_def keeps ws2)
  ultimately show thesis by (rule that)
qed

section \<open>From a submission to the ledger\<close>

lemma update_columns_gates [simp]: "same_gates ws (update_columns i f ws)"
  by (simp add: same_gates_def)

lemma promote_gates:
  assumes "promote_draft boundary now company branch draft ws = Inr ws'"
  shows "same_gates ws ws'"
proof (cases draft)
  case None
  with assms show ?thesis by (simp add: promote_draft_def same_gates_def)
next
  case (Some d)
  with assms obtain ws1 where claim: "claim_status company (pp_id d) (Some branch) ''Draft'' ''Open''
      (HttpError 409 ''Adjacent Draft period moved concurrently during submission.'') ws = Inr ws1"
    and ws': "ws' = ws1\<lparr>ws_db := regenerate_period_driver_eligibility_rows boundary (pp_id d) company branch now (ws_db ws1)\<rparr>"
    by (auto simp: promote_draft_def map_r_Inr_iff)
  from claim_gates [OF claim] show ?thesis
    by (simp add: ws' same_gates_def regenerate_period_driver_eligibility_rows_def
        freeze_period_driver_eligibility_snapshot_def create_period_driver_eligibility_rows_def Let_def)
qed

lemma submit_gates:
  assumes "submit_open_period digest boundary now company user notes existing ws = Inr ws'"
  shows "same_gates ws ws'"
proof -
  from assms obtain currency draft ws1 ws2 where
    submit: "submit_packet digest boundary ''SUBMITTED'' company user existing currency ws = Inr ws1"
    and claim: "claim_status company (pp_id existing) (Some (pp_branch_id existing)) ''Open'' ''InReview''
      (HttpError 422 ''Period is no longer Open'') ws1 = Inr ws2"
    and promote: "promote_draft boundary now company (pp_branch_id existing) draft
      (update_columns (pp_id existing) (add_notes notes \<circ> pc_submitted_at_update (\<lambda>_. Some now)) ws2) = Inr ws'"
    unfolding submit_open_period_def Let_def
    by (auto elim!: bind_r_InrE simp: guard_r_Inr split: option.splits)
  from submit have "same_gates ws ws1" by (rule submit_packetE) (simp add: same_gates_def)
  from same_gates_trans [OF this claim_gates [OF claim]] same_gates_trans [OF update_columns_gates promote_gates [OF promote]]
  show ?thesis by (rule same_gates_trans)
qed

lemma change_status_gates:
  assumes "change_period_status digest boundary now company user i new notes ws = Inr ws'"
  shows "same_gates ws ws'"
proof -
  from assms obtain existing where
    run: "(if pp_status existing = ''Open'' \<and> new = ''InReview''
       then submit_open_period digest boundary now company user notes existing ws
       else map_r (update_columns i (add_notes notes \<circ> stamp_status now user new))
         (claim_status company i (Some (pp_branch_id existing)) (pp_status existing) new
           (HttpError 409 ''Period is no longer in its expected status'') ws)) = Inr ws'"
    unfolding change_period_status_def Let_def by (elim bind_r_InrE)
  show ?thesis
  proof (cases "pp_status existing = ''Open'' \<and> new = ''InReview''")
    case True
    with run submit_gates show ?thesis by auto
  next
    case False
    with run obtain ws1 where "claim_status company i (Some (pp_branch_id existing)) (pp_status existing) new
        (HttpError 409 ''Period is no longer in its expected status'') ws = Inr ws1"
      and "ws' = update_columns i (add_notes notes \<circ> stamp_status now user new) ws1"
      by (auto simp: map_r_Inr_iff)
    then show ?thesis using same_gates_trans [OF claim_gates update_columns_gates] by simp
  qed
qed

text \<open>What a submission leaves for the review.\<close>

lemma submission_reviewable:
  assumes ok: "workflow_ok digest ws" and sub: "submitted digest boundary user p packet sid ws ws1"
    and same: "same_tables ws1 ws2 \<or> (\<exists>d. restatus d ''Draft'' ''Open'' ws1 ws2)"
  obtains q ri lo cur where "workflow_ok digest ws2" "q = p\<lparr>pp_status := ''InReview''\<rparr>" "q \<in> set (periods (ws_db ws2))"
    "ri \<in> set (ws_items ws2)"
    "ri = pending_period_item (next_item_id (ws_items ws)) (pp_company_id p) (pp_branch_id p) user (pp_id p) sid"
    "archive_verify digest (period_scope p) sid (ws_store ws2) = Inr lo"
    "list_all2 pays_driver (pk_drivers packet) (co_totals lo)"
    "lock_and_get_company_currency (pp_company_id p) ws = Inr cur"
    "sh_currency_code lo = cur_code cur" "sh_currency_digits lo = minor_unit_digits cur"
proof -
  note dist = workflow_okD(2) [OF ok]
  have ok1: "workflow_ok digest ws1" by (rule submitted_ok [OF ok sub])
  have ok2: "workflow_ok digest ws2" by (rule promotion_ok [OF ok1 same])
  have keep: "ws_items ws2 = ws_items ws1" "ws_store ws2 = ws_store ws1"
    using same by (auto simp: same_tables_def restatus_def)
  from sub have p: "p \<in> set (periods (ws_db ws))"
    and ps: "periods (ws_db ws1) = set_status (pp_id p) ''InReview'' (periods (ws_db ws))"
    by (auto simp: submitted_def)
  have q: "p\<lparr>pp_status := ''InReview''\<rparr> \<in> set (periods (ws_db ws1))"
    by (simp add: ps set_status_member [OF dist p refl])
  have "p\<lparr>pp_status := ''InReview''\<rparr> \<in> set (periods (ws_db ws2))"
    using same
  proof
    assume "\<exists>d. restatus d ''Draft'' ''Open'' ws1 ws2"
    then obtain d x where d: "x \<in> set (periods (ws_db ws1))" "pp_id x = d" "pp_status x = ''Draft''"
      and ps2: "periods (ws_db ws2) = set_status d ''Open'' (periods (ws_db ws1))"
      by (auto simp: restatus_def)
    have "pp_id p \<noteq> d"
    proof
      assume "pp_id p = d"
      then have "pp_id (p\<lparr>pp_status := ''InReview''\<rparr>) = pp_id x" using d(2) by simp
      with q d(1) workflow_okD(2) [OF ok1] have "p\<lparr>pp_status := ''InReview''\<rparr> = x"
        unfolding distinct_map by (blast dest: inj_onD)
      with d(3) show False by auto
    qed
    then show ?thesis
      using q by (simp add: ps2 set_status_member [OF workflow_okD(2) [OF ok1] d(1,2)])
  qed (use q in \<open>simp add: same_tables_def\<close>)
  with submitted_archive(3) [OF sub tables_okD(3) [OF workflow_okD(1) [OF ok]]] sub ok2 that
  show thesis by (auto simp: keep submitted_def)
qed

text \<open>What an approval leaves for the finalization.\<close>

lemma approved_period:
  assumes ok: "workflow_ok digest ws"
    and decide: "decide_review_item digest now company user (ri_id ri) ''Approved'' reason ws = Inr ws'"
    and q: "q \<in> set (periods (ws_db ws))"
    and ri: "ri \<in> set (ws_items ws)" "is_period_approval (pp_company_id q) (pp_id q) ri"
  shows "\<exists>r x. r = q\<lparr>pp_status := ''Approved''\<rparr> \<and> r \<in> set (periods (ws_db ws')) \<and> x \<in> set (ws_items ws') \<and>
    ri_id x = ri_id ri \<and> ri_status x = ''Approved'' \<and> ri_snapshot_id x = ri_snapshot_id ri \<and>
    is_period_approval (pp_company_id q) (pp_id q) x"
proof -
  note dist = workflow_okD(2) [OF ok]
  note ids = tables_okD(4) [OF workflow_okD(1) [OF ok]]
  have only: "y = ri" if "y \<in> set (ws_items ws)" "ri_id y = ri_id ri" for y
    using that ri(1) ids unfolding distinct_map by (blast dest: inj_onD)
  let ?x = "ri\<lparr>ri_status := ''Approved'', ri_decided_by := Some user, ri_decided_at := Some now, ri_reason := reason\<rparr>"
  have x: "?x \<in> set (decide_item now user (ri_id ri) ''Approved'' reason (ws_items ws))"
    unfolding decide_item_def set_map by (rule image_eqI [OF _ ri(1)]) simp
  from decide dist show ?thesis
  proof (cases rule: decide_review_itemE)
    case (plain y)
    then have "y = ri" using only by blast
    with plain(3) ri(2) show ?thesis by (simp add: is_period_approval_def)
  next
    case (period p y)
    then have "y = ri" using only by blast
    with period(3) have p: "p \<in> set (periods (ws_db ws))" "is_period_approval (pp_company_id p) (pp_id p) ri"
      "periods (ws_db ws') = set_status (pp_id p) ''Approved'' (periods (ws_db ws))"
      by (simp_all add: decided_period_def Let_def)
    have "pp_id p = pp_id q" using p(2) ri(2) by (simp add: is_period_approval_def)
    with p(1) q dist have "p = q" unfolding distinct_map by (blast dest: inj_onD)
    then have "q\<lparr>pp_status := ''Approved''\<rparr> \<in> set (periods (ws_db ws'))"
      by (simp add: p(3) set_status_member [OF dist q refl])
    moreover have "?x \<in> set (ws_items ws')" using x by (simp add: period(7))
    ultimately show ?thesis using ri(2) by (intro exI [of _ "q\<lparr>pp_status := ''Approved''\<rparr>"] exI [of _ ?x]) simp
  qed simp
qed

section \<open>From submission to payment\<close>

text \<open>A submission or resubmission of a period has the submission effect on that period.\<close>

lemma submission_effect:
  assumes ok: "workflow_ok digest ws" and p: "find_period company i ws = Some p"
    and submit: "change_period_status digest boundary now company user i ''InReview'' notes ws = Inr ws1 \<or>
      resubmit_period digest boundary now company user i ws = Inr ws1"
    and packet: "build_live_calculation_packet boundary p company (ws_db ws) = Inr packet"
  obtains sid wsm where "pp_id p = i" "pp_company_id p = company" "p \<in> set (periods (ws_db ws))"
    "submitted digest boundary user p packet sid ws wsm"
    "same_tables wsm ws1 \<or> (\<exists>d. restatus d ''Draft'' ''Open'' wsm ws1)"
proof -
  note dist = workflow_okD(2) [OF ok]
  from find_first_SomeD [OF p [unfolded find_period_def]] have mem: "p \<in> set (periods (ws_db ws))"
    "pp_id p = i" "pp_company_id p = company" by auto
  have "\<exists>q pk sid wsm. pp_id q = i \<and> submitted digest boundary user q pk sid ws wsm \<and>
      (same_tables wsm ws1 \<or> (\<exists>d. restatus d ''Draft'' ''Open'' wsm ws1))"
    using submit
  proof
    assume "change_period_status digest boundary now company user i ''InReview'' notes ws = Inr ws1"
    then show ?thesis using dist by (rule change_period_statusE) blast+
  next
    assume "resubmit_period digest boundary now company user i ws = Inr ws1"
    then show ?thesis using dist by (rule resubmit_periodE) (auto simp: same_tables_def)
  qed
  then obtain q pk sid wsm where q: "pp_id q = i" "submitted digest boundary user q pk sid ws wsm"
    and same: "same_tables wsm ws1 \<or> (\<exists>d. restatus d ''Draft'' ''Open'' wsm ws1)" by blast
  from q(2) have "q \<in> set (periods (ws_db ws))" by (simp add: submitted_def)
  with mem(1,2) q(1) dist have "q = p" by (auto simp: distinct_map dest: inj_onD)
  with q(2) packet mem(3) have "submitted digest boundary user p packet sid ws wsm"
    by (auto simp: submitted_def)
  from that [OF mem(2,3,1) this same] show thesis .
qed

lemma submission_approvable:
  assumes ok: "workflow_ok digest ws"
    and submit: "change_period_status digest boundary now company user i ''InReview'' notes ws = Inr ws1"
    and sub: "submitted digest boundary user p packet sid ws wsm"
    and same: "same_tables wsm ws1 \<or> (\<exists>d. restatus d ''Draft'' ''Open'' wsm ws1)"
    and mem: "pp_id p = i" "pp_company_id p = company" "0 < i"
    and reviewer: "may_act company reviewer (pp_branch_id p) ''review.decide'' (users (ws_db ws)) (ws_access ws)"
      "reviewer \<noteq> user \<or> company_allows_self_approval company (ws_access ws)"
  obtains ws2 x lo cur where
    "decide_review_item digest later company reviewer (next_item_id (ws_items ws)) ''Approved'' reason ws1 = Inr ws2"
    "same_gates ws ws2" "workflow_ok digest ws1" "workflow_run digest boundary ws1 ws2" "workflow_ok digest ws2"
    "p\<lparr>pp_status := ''InReview''\<rparr> \<in> set (periods (ws_db ws1))"
    "p\<lparr>pp_status := ''Approved''\<rparr> \<in> set (periods (ws_db ws2))"
    "x \<in> set (ws_items ws2)" "ri_id x = next_item_id (ws_items ws)" "ri_status x = ''Approved''"
    "ri_snapshot_id x = Some sid" "is_period_approval company i x"
    "archive_verify digest (period_scope p) sid (ws_store ws1) = Inr lo"
    "archive_verify digest (period_scope p) sid (ws_store ws2) = Inr lo"
    "list_all2 pays_driver (pk_drivers packet) (co_totals lo)"
    "lock_and_get_company_currency company ws2 = Inr cur"
    "sh_currency_code lo = cur_code cur" "sh_currency_digits lo = minor_unit_digits cur"
proof -
  from submission_reviewable [OF ok sub same] obtain q ri lo cur where
    ok1: "workflow_ok digest ws1" and q: "q = p\<lparr>pp_status := ''InReview''\<rparr>" "q \<in> set (periods (ws_db ws1))"
    and ri: "ri \<in> set (ws_items ws1)"
      "ri = pending_period_item (next_item_id (ws_items ws)) (pp_company_id p) (pp_branch_id p) user (pp_id p) sid"
    and lo: "archive_verify digest (period_scope p) sid (ws_store ws1) = Inr lo"
      "list_all2 pays_driver (pk_drivers packet) (co_totals lo)"
    and cur: "lock_and_get_company_currency (pp_company_id p) ws = Inr cur"
      "sh_currency_code lo = cur_code cur" "sh_currency_digits lo = minor_unit_digits cur" .
  note gates1 = change_status_gates [OF submit]
  have ri': "ri_id ri = next_item_id (ws_items ws)" "ri_requested_by ri = user" "ri_status ri = ''Pending''"
    "ri_branch_id ri = pp_branch_id q" "ri_snapshot_id ri = Some sid" "is_period_approval (pp_company_id q) (pp_id q) ri"
    by (simp_all add: ri(2) q(1) pending_period_item_def is_period_approval_def)
  have st: "pp_status q = ''InReview''" "0 < pp_id q" using mem by (simp_all add: q(1))
  have cur1: "lock_and_get_company_currency (pp_company_id q) ws1 = Inr cur"
    using cur(1) same_gates_currency [OF gates1] by (simp add: q(1))
  have may1: "may_act (pp_company_id q) reviewer (pp_branch_id q) ''review.decide'' (users (ws_db ws1)) (ws_access ws1)"
    and self1: "ri_requested_by ri \<noteq> reviewer \<or> company_allows_self_approval (pp_company_id q) (ws_access ws1)"
    using reviewer gates1 mem(2) ri'(2) by (auto simp: q(1) same_gates_def)
  have lo1: "archive_verify digest (period_scope q) sid (ws_store ws1) = Inr lo" using lo(1) by (simp add: q(1))
  obtain ws2 where
    approve: "decide_review_item digest later (pp_company_id q) reviewer (ri_id ri) ''Approved'' reason ws1 = Inr ws2"
    and gates2: "same_gates ws1 ws2"
    by (rule approve_succeeds [OF ok1 q(2) st may1 self1 ri(1) ri'(6,3,4,5) lo1 cur1 cur(2,3)])
  have step: "workflow_step digest boundary ws1 ws2"
    by (rule workflow_step.decide [OF approve]) (simp add: valid_decisions_def)
  have ok2: "workflow_ok digest ws2" by (rule workflow_step_ok [OF step ok1])
  from approved_period [OF ok1 approve q(2) ri(1) ri'(6)] obtain r x where
    r: "r = q\<lparr>pp_status := ''Approved''\<rparr>" "r \<in> set (periods (ws_db ws2))"
    and x: "x \<in> set (ws_items ws2)" "ri_id x = ri_id ri" "ri_status x = ''Approved''" "ri_snapshot_id x = Some sid"
      "is_period_approval (pp_company_id q) (pp_id q) x"
    using ri'(5) by metis
  have cur2: "lock_and_get_company_currency company ws2 = Inr cur"
    using cur(1) same_gates_currency [OF gates1] same_gates_currency [OF gates2] by (simp add: mem(2))
  show thesis
    by (rule that [OF _ same_gates_trans [OF gates1 gates2] ok1 workflow_run.go [OF workflow_run.stop step] ok2
          q(2) [unfolded q(1)] _ x(1) _ x(3,4) _ lo(1) workflow_step_keeps(2) [OF step ok1 lo(1)] lo(2) cur2 cur(2,3)])
      (use approve r x(2,5) ri'(1) mem in \<open>simp_all add: q(1)\<close>)
qed

lemma submission_payable:
  assumes ok: "workflow_ok digest ws"
    and submit: "change_period_status digest boundary now company user i ''InReview'' notes ws = Inr ws1"
    and p: "find_period company i ws = Some p" "0 < i"
    and packet: "build_live_calculation_packet boundary p company (ws_db ws) = Inr packet" "packet_payments packet \<noteq> []"
    and reviewer: "may_act company reviewer (pp_branch_id p) ''review.decide'' (users (ws_db ws)) (ws_access ws)"
      "reviewer \<noteq> user \<or> company_allows_self_approval company (ws_access ws)"
    and finalizer: "may_act company finalizer (pp_branch_id p) ''payroll.finalize'' (users (ws_db ws)) (ws_access ws)"
  obtains ws2 ws3 x sid lo where
    "decide_review_item digest later company reviewer (next_item_id (ws_items ws)) ''Approved'' reason ws1 = Inr ws2"
    "finalize_period digest later' i company finalizer ws2 = Inr ws3"
    "mset (ledger_payments company i (ws_ledger ws3)) = mset (packet_payments packet)"
    "p\<lparr>pp_status := ''InReview''\<rparr> \<in> set (periods (ws_db ws1))"
    "archive_verify digest (period_scope p) sid (ws_store ws1) = Inr lo"
    "workflow_run digest boundary ws1 ws2" "workflow_ok digest ws1" "workflow_ok digest ws2"
    "x \<in> set (ws_items ws2)" "ri_id x = next_item_id (ws_items ws)" "ri_status x = ''Approved''"
proof -
  from submission_effect [OF ok p(1) disjI1 [OF submit] packet(1)] obtain sid wsm where
    mem: "pp_id p = i" "pp_company_id p = company"
    and sub: "submitted digest boundary user p packet sid ws wsm"
    and same: "same_tables wsm ws1 \<or> (\<exists>d. restatus d ''Draft'' ''Open'' wsm ws1)" by blast
  from submission_approvable [OF ok submit sub same mem p(2) reviewer, of later reason] obtain ws2 x lo cur where
    approve: "decide_review_item digest later company reviewer (next_item_id (ws_items ws)) ''Approved'' reason ws1 = Inr ws2"
    and gates: "same_gates ws ws2" and ok1: "workflow_ok digest ws1"
    and run: "workflow_run digest boundary ws1 ws2" and ok2: "workflow_ok digest ws2"
    and q: "p\<lparr>pp_status := ''InReview''\<rparr> \<in> set (periods (ws_db ws1))"
    and r: "p\<lparr>pp_status := ''Approved''\<rparr> \<in> set (periods (ws_db ws2))"
    and x: "x \<in> set (ws_items ws2)" "ri_id x = next_item_id (ws_items ws)" "ri_status x = ''Approved''"
      "ri_snapshot_id x = Some sid" "is_period_approval company i x"
    and lo: "archive_verify digest (period_scope p) sid (ws_store ws1) = Inr lo"
      "archive_verify digest (period_scope p) sid (ws_store ws2) = Inr lo"
      "list_all2 pays_driver (pk_drivers packet) (co_totals lo)"
    and cur: "lock_and_get_company_currency company ws2 = Inr cur"
      "sh_currency_code lo = cur_code cur" "sh_currency_digits lo = minor_unit_digits cur" .
  let ?r = "p\<lparr>pp_status := ''Approved''\<rparr>"
  have content: "projection_of lo \<noteq> [] \<or> lo_statuses lo \<noteq> []"
    using projection_payments [OF lo(3)] packet(2) by auto
  have may: "may_act (pp_company_id ?r) finalizer (pp_branch_id ?r) ''payroll.finalize'' (users (ws_db ws2)) (ws_access ws2)"
    using finalizer gates mem(2) by (simp add: same_gates_def)
  have approval: "is_period_approval (pp_company_id ?r) (pp_id ?r) x" using x(5) mem by simp
  have lo': "archive_verify digest (period_scope ?r) sid (ws_store ws2) = Inr lo" using lo(2) by simp
  have cur': "lock_and_get_company_currency (pp_company_id ?r) ws2 = Inr cur" using cur(1) mem(2) by simp
  have "pp_status ?r = ''Approved''" by simp
  from finalize_succeeds [OF ok2 r this may x(1) approval x(3,4) lo' cur' cur(2,3) content, of later'] mem
  obtain ws3 where final: "finalize_period digest later' i company finalizer ws2 = Inr ws3" by auto
  have "mset (ledger_payments company (pp_id p) (ws_ledger ws3)) = mset (packet_payments packet)"
    by (rule final_lines_pay_packet [OF ok sub same run x(1,2,3)]) (use final mem in simp_all)
  with approve final q lo(1) run ok1 ok2 x(1-3) mem(1) show thesis by (intro that) simp_all
qed

end
