(* ===== verification/Workflow_Samples.thy ===== *)
theory Workflow_Samples
  imports Workflow_Progress Packet_Properties
begin

text \<open>
  A small Company for the witnesses: one Branch with one Open week, one driver with one ordinary
  line of 50 hours, and an owner who may submit, review and finalize.
\<close>

definition empty_store :: snapshot_store where
  "empty_store = \<lparr>st_headers = [], st_totals = [], st_evaluations = [], st_rules = [], st_components = [],
     st_lines = [], st_used_rates = [], st_rate_values = [], st_statuses = [], st_bonuses = []\<rparr>"

text \<open>A hash to run the model with; nothing in the model depends on which one.\<close>

definition sample_digest :: "json \<Rightarrow> string" where
  "sample_digest j = []"

definition sample_access :: access_tables where
  "sample_access =
    \<lparr>companies = [\<lparr>cy_id = 1, cy_status = ''Active'', cy_is_suspended = False, cy_allows_self_approval = None\<rparr>],
     company_roles = [\<lparr>ro_id = 3, ro_code = ''COMPANY_OWNER'', ro_name = ''Owner''\<rparr>], role_permissions = [],
     user_branch_roles = [\<lparr>ur_user_id = 1, ur_company_id = 1, ur_role_id = Some 3,
       ur_scope = ''AllCompanyBranches'', ur_branch_id = None, ur_is_active = True\<rparr>],
     permission_overrides = [],
     permissions = [''payroll.view'', ''payroll.entry'', ''payroll.finalize'', ''review.decide'']\<rparr>"

definition small_db :: payroll_db where
  "small_db = sample_db\<lparr>assignments := [sample_assignment 10 0 None None],
     draft_lines := [sample_line 71 10 4 50], bonus_events := [], pay_rules := []\<rparr>"

definition small_roster :: payroll_db where
  "small_roster = create_period_driver_eligibility_rows sample_boundary 100 1 2 0 ''Generated'' True
     None None small_db"

definition sample_workflow :: workflow_state where
  "sample_workflow =
    \<lparr>ws_db = small_roster,
     ws_columns = (\<lambda>_. \<lparr>pc_code = ''P'', pc_type = ''Weekly'', pc_notes = None, pc_submitted_at = None,
       pc_return_item = None, pc_approved_by = None, pc_approved_at = None, pc_locked_by = None,
       pc_locked_at = None\<rparr>),
     ws_access = sample_access, ws_store = empty_store, ws_items = [], ws_decisions = [], ws_ledger = [],
     ws_actions = []\<rparr>"

lemma sample_tables [simp]:
  "ws_store sample_workflow = empty_store" "ws_items sample_workflow = []" "ws_ledger sample_workflow = []"
  "ws_access sample_workflow = sample_access" "ws_db sample_workflow = small_roster"
  by (simp_all add: sample_workflow_def)

lemma small_roster_periods [simp]: "periods small_roster = [sample_period]"
  by code_simp

lemma sample_period_simps [simp]:
  "pp_id sample_period = 100" "pp_company_id sample_period = 1" "pp_branch_id sample_period = 2"
  "pp_status sample_period = ''Open''"
  by (simp_all add: sample_period_def)

lemma empty_store_ok: "store_ok empty_store"
  by (simp add: store_ok_def fks_ok_def ids_ok_def empty_store_def)

lemma sample_workflow_ok: "workflow_ok digest sample_workflow"
  by (simp add: workflow_ok_def tables_ok_def empty_store_ok slots_unique_def slot_unique_def period_ok_def
      approvals_of_def with_status_def authorized_def settled_def lines_of_period_def final_lines_of_def
      slot_statuses_def)

lemma sample_owner_may:
  assumes "permission \<in> {''payroll.entry'', ''payroll.finalize'', ''review.decide''}"
  shows "may_act 1 1 2 permission (users small_roster) sample_access"
proof -
  have "case check_branch_access 1 1 (users small_roster) sample_access of Inl _ \<Rightarrow> False | Inr a \<Rightarrow> can_access_branch a 2"
    by code_simp
  moreover have "\<not> is_driver_self_subject 1 1 sample_access" by code_simp
  moreover have "list_all (\<lambda>q. user_has_permission 1 1 (Some 2) q (users small_roster) sample_access)
      [''payroll.entry'', ''payroll.finalize'', ''review.decide'']" by code_simp
  ultimately show ?thesis using assms by (auto simp: may_act_def split: sum.splits)
qed

lemma sample_self_approval: "company_allows_self_approval 1 sample_access"
  by code_simp

lemma sample_period_found: "find_period 1 100 sample_workflow = Some sample_period"
  by (simp add: find_period_def)

lemma small_packet_evaluated:
  "map_r packet_payments (build_live_calculation_packet sample_boundary sample_period 1 small_roster) =
   Inr [(10, 7, ''ORDINARY'', 1225 / 2)]"
  by code_simp

lemma small_packet:
  obtains packet where "build_live_calculation_packet sample_boundary sample_period 1 small_roster = Inr packet"
    "packet_payments packet = [(10, 7, ''ORDINARY'', 1225 / 2)]"
  using small_packet_evaluated by (auto simp: map_r_Inr_iff)

lemma sample_submission_accepted:
  "case change_period_status sample_digest sample_boundary 0 1 1 100 ''InReview'' None sample_workflow of
     Inl _ \<Rightarrow> False | Inr _ \<Rightarrow> True"
  by code_simp

lemma sample_submission:
  obtains ws1 where
    "change_period_status sample_digest sample_boundary 0 1 1 100 ''InReview'' None sample_workflow = Inr ws1"
  using sample_submission_accepted by (cases "change_period_status sample_digest sample_boundary 0 1 1 100 ''InReview'' None sample_workflow") auto

text \<open>The period of the sample, submitted, approved and finalized by the owner.\<close>

lemma sample_history:
  obtains packet ws1 ws2 ws3 x sid lo where
    "build_live_calculation_packet sample_boundary sample_period 1 small_roster = Inr packet"
    "packet_payments packet = [(10, 7, ''ORDINARY'', 1225 / 2)]"
    "change_period_status sample_digest sample_boundary 0 1 1 100 ''InReview'' None sample_workflow = Inr ws1"
    "decide_review_item sample_digest 0 1 1 1 ''Approved'' None ws1 = Inr ws2"
    "finalize_period sample_digest 0 100 1 1 ws2 = Inr ws3"
    "sample_period\<lparr>pp_status := ''InReview''\<rparr> \<in> set (periods (ws_db ws1))"
    "archive_verify sample_digest (period_scope sample_period) sid (ws_store ws1) = Inr lo"
    "workflow_run sample_digest sample_boundary sample_workflow ws1"
    "workflow_run sample_digest sample_boundary ws1 ws2"
    "workflow_ok sample_digest ws1" "workflow_ok sample_digest ws2"
    "x \<in> set (ws_items ws2)" "ri_id x = 1" "ri_status x = ''Approved''"
proof -
  obtain packet where packet:
    "build_live_calculation_packet sample_boundary sample_period 1 (ws_db sample_workflow) = Inr packet"
    "packet_payments packet = [(10, 7, ''ORDINARY'', 1225 / 2)]"
    using small_packet by auto
  obtain ws1 where submit:
    "change_period_status sample_digest sample_boundary 0 1 1 100 ''InReview'' None sample_workflow = Inr ws1"
    by (rule sample_submission)
  have may: "may_act 1 1 (pp_branch_id sample_period) permission (users (ws_db sample_workflow)) (ws_access sample_workflow)"
    if "permission \<in> {''payroll.entry'', ''payroll.finalize'', ''review.decide''}" for permission
    using sample_owner_may [OF that] by simp
  have first: "next_item_id (ws_items sample_workflow) = 1" by (simp add: next_item_id_def)
  show thesis
    by (rule submission_payable [OF sample_workflow_ok submit sample_period_found _ packet(1) _ may _ may,
          of 0 None 0])
      (use that packet submit first sample_self_approval
          workflow_run.go [OF workflow_run.stop workflow_step.patch [OF submit]] in simp_all)
qed

end
