(* ===== verification/Workflow_Properties.thy ===== *)
theory Workflow_Properties
  imports Workflow_Samples
begin

text \<open>
  The properties of the workflow: what holds in every state a run can reach, that a submitted
  period can be paid, that it is paid exactly what was submitted, and who may act.
\<close>

section \<open>Reachable states\<close>

text \<open>C2: whatever requests are served, in whatever order, a Branch never has two periods in the
  same slot status; a period has a Pending approval item exactly while it is in review, exactly one
  Approved item from its approval on, and no FinalLine before it is locked.\<close>

theorem workflow_invariant:
  assumes "workflow_run digest boundary ws ws'" "workflow_ok digest ws"
    and "p \<in> set (periods (ws_db ws'))"
  shows "(\<forall>s\<in>set slot_statuses. slot_unique s (periods (ws_db ws'))) \<and>
    length (filter (\<lambda>ri. is_period_approval (pp_company_id p) (pp_id p) ri \<and> ri_status ri = ''Pending'') (ws_items ws')) =
      (if pp_status p = ''InReview'' then 1 else 0) \<and>
    length (filter (\<lambda>ri. is_period_approval (pp_company_id p) (pp_id p) ri \<and> ri_status ri = ''Approved'') (ws_items ws')) =
      (if pp_status p \<in> {''Approved'', ''Locked'', ''Archived''} then 1 else 0) \<and>
    (pp_status p \<notin> {''Locked'', ''Archived''} \<longrightarrow> final_lines_of (pp_company_id p) (pp_id p) (ws_ledger ws') = [])"
proof -
  note okD = tables_okD [OF workflow_okD(1) [OF workflow_run_ok [OF assms(1,2)]]]
  have items: "with_status s (approvals_of p ris) =
      filter (\<lambda>ri. is_period_approval (pp_company_id p) (pp_id p) ri \<and> ri_status ri = s) ris" for s ris
    by (simp add: with_status_def approvals_of_def conj_commute)
  from okD(2) okD(7) [OF assms(3)] show ?thesis
    unfolding slots_unique_def period_ok_def items authorized_def settled_def lines_of_period_def by presburger
qed

theorem workflow_invariant_witness:
  "\<exists>ws. workflow_run sample_digest sample_boundary sample_workflow ws \<and>
     sample_period\<lparr>pp_status := ''InReview''\<rparr> \<in> set (periods (ws_db ws)) \<and> slot_unique ''InReview'' (periods (ws_db ws)) \<and>
     length (filter (\<lambda>ri. is_period_approval 1 100 ri \<and> ri_status ri = ''Pending'') (ws_items ws)) = 1 \<and>
     final_lines_of 1 100 (ws_ledger ws) = []"
proof (rule sample_history)
  fix ws1
  let ?q = "sample_period\<lparr>pp_status := ''InReview''\<rparr>"
  assume run: "workflow_run sample_digest sample_boundary sample_workflow ws1" and q: "?q \<in> set (periods (ws_db ws1))"
  from workflow_invariant [OF run sample_workflow_ok q] run q show ?thesis
    by (intro exI [of _ ws1]) (simp add: slot_statuses_def)
qed

section \<open>Lifecycle\<close>

text \<open>C11: every run refines the lifecycle of the product: from any state a period is later in, no
  request has removed it, changed its Company, Branch or dates, or moved it other than along the
  edges Draft - Open - InReview - Approved - Locked - Archived, InReview - Returned - InReview and
  Draft or Open to Cancelled.\<close>

theorem lifecycle_refinement:
  assumes "workflow_run digest boundary ws ws'" "workflow_ok digest ws" "p \<in> set (periods (ws_db ws))"
  shows "\<exists>s. lifecycle_edge\<^sup>*\<^sup>* (pp_status p) s \<and> p\<lparr>pp_status := s\<rparr> \<in> set (periods (ws_db ws'))"
  using workflow_run_follows [OF assms(1,2)] assms(3) by (simp add: follows_lifecycle_def)

theorem lifecycle_refinement_witness:
  "\<exists>ws1 ws2 s. decide_review_item sample_digest 0 1 1 1 ''Approved'' None ws1 = Inr ws2 \<and>
     lifecycle_edge\<^sup>*\<^sup>* ''InReview'' s \<and> sample_period\<lparr>pp_status := s\<rparr> \<in> set (periods (ws_db ws2))"
proof (rule sample_history)
  fix ws1 ws2
  assume "decide_review_item sample_digest 0 1 1 1 ''Approved'' None ws1 = Inr ws2"
    "workflow_run sample_digest sample_boundary ws1 ws2" "workflow_ok sample_digest ws1"
    "sample_period\<lparr>pp_status := ''InReview''\<rparr> \<in> set (periods (ws_db ws1))"
  with lifecycle_refinement [of sample_digest sample_boundary ws1 ws2 "sample_period\<lparr>pp_status := ''InReview''\<rparr>"]
  show ?thesis by auto
qed

section \<open>Authorization\<close>

text \<open>C12: no period moves without the right to move it.  A request that succeeds was made by an
  account that is not a DRIVER Self subject, reaches the Branch of the period and holds the
  permission of the action there; a substantive decision is not made by the user who asked for it
  unless the Company allows self-approval.\<close>

theorem actions_are_authorized:
  "(change_period_status digest boundary now company user i new notes ws = Inr ws' \<longrightarrow>
      (\<exists>p. find_period company i ws = Some p \<and> may_act company user (pp_branch_id p)
         (if new = ''InReview'' then ''payroll.entry'' else ''payroll.finalize'') (users (ws_db ws)) (ws_access ws))) \<and>
   (resubmit_period digest boundary now company user i ws = Inr ws' \<longrightarrow>
      (\<exists>p. find_period company i ws = Some p \<and> may_act company user (pp_branch_id p) ''payroll.entry''
         (users (ws_db ws)) (ws_access ws))) \<and>
   (finalize_period digest now i company user ws = Inr ws' \<longrightarrow>
      (\<exists>p. find_period company i ws = Some p \<and> may_act company user (pp_branch_id p) ''payroll.finalize''
         (users (ws_db ws)) (ws_access ws))) \<and>
   (decide_review_item digest now company user item decision reason ws = Inr ws' \<longrightarrow>
      (\<exists>ri. find_item company item ws = Some ri \<and> may_act company user (ri_branch_id ri) ''review.decide''
           (users (ws_db ws)) (ws_access ws) \<and>
         (decision = ''Comment'' \<or> ri_requested_by ri \<noteq> user \<or>
            company_allows_self_approval company (ws_access ws))))"
  by (intro conjI impI) (erule change_status_acted, erule resubmit_acted, erule finalize_acted, erule decide_acted)

theorem actions_are_authorized_witness:
  "may_act 1 1 2 ''payroll.entry'' (users small_roster) sample_access \<and>
   (\<exists>ws2 p. find_period 1 100 ws2 = Some p \<and> may_act 1 1 (pp_branch_id p) ''payroll.finalize'' (users (ws_db ws2)) (ws_access ws2))"
proof (rule sample_history)
  fix ws1 ws2 ws3
  assume submit: "change_period_status sample_digest sample_boundary 0 1 1 100 ''InReview'' None sample_workflow = Inr ws1"
    and final: "finalize_period sample_digest 0 100 1 1 ws2 = Inr ws3"
  have "may_act 1 1 2 ''payroll.entry'' (users small_roster) sample_access"
    using conjunct1 [OF actions_are_authorized [where new = "''InReview''"], rule_format, OF submit]
    by (simp add: sample_period_found)
  moreover have "\<exists>p. find_period 1 100 ws2 = Some p \<and> may_act 1 1 (pp_branch_id p) ''payroll.finalize'' (users (ws_db ws2)) (ws_access ws2)"
    using actions_are_authorized final by blast
  ultimately show ?thesis by blast
qed

section \<open>From submission to payment\<close>

text \<open>C5: a submitted period can be paid, and is paid what was submitted.  After a successful
  submission, an authorized reviewer's approval succeeds; after that an authorized user's
  finalization succeeds; and the FinalLines it writes are exactly the official components of the
  packet computed at submission, DriverAssignment by DriverAssignment.\<close>

theorem submission_can_be_paid:
  assumes ok: "workflow_ok digest ws"
    and submit: "change_period_status digest boundary now company user i ''InReview'' remarks ws = Inr ws1"
    and p: "find_period company i ws = Some p" "0 < i"
    and packet: "build_live_calculation_packet boundary p company (ws_db ws) = Inr packet" "packet_payments packet \<noteq> []"
    and reviewer: "may_act company reviewer (pp_branch_id p) ''review.decide'' (users (ws_db ws)) (ws_access ws)"
      "reviewer \<noteq> user \<or> company_allows_self_approval company (ws_access ws)"
    and finalizer: "may_act company finalizer (pp_branch_id p) ''payroll.finalize'' (users (ws_db ws)) (ws_access ws)"
  shows "\<exists>ws2 ws3.
    decide_review_item digest later company reviewer (next_item_id (ws_items ws)) ''Approved'' reason ws1 = Inr ws2 \<and>
    finalize_period digest later' i company finalizer ws2 = Inr ws3 \<and>
    mset (ledger_payments company i (ws_ledger ws3)) = mset (packet_payments packet)"
proof -
  from submission_payable [OF assms, of later reason later'] obtain ws2 ws3 where
    "decide_review_item digest later company reviewer (next_item_id (ws_items ws)) ''Approved'' reason ws1 = Inr ws2"
    "finalize_period digest later' i company finalizer ws2 = Inr ws3"
    "mset (ledger_payments company i (ws_ledger ws3)) = mset (packet_payments packet)" .
  then show ?thesis by blast
qed


theorem submission_can_be_paid_witness:
  "\<exists>ws1 ws2 ws3. change_period_status sample_digest sample_boundary 0 1 1 100 ''InReview'' None sample_workflow = Inr ws1 \<and>
     decide_review_item sample_digest 0 1 1 1 ''Approved'' None ws1 = Inr ws2 \<and>
     finalize_period sample_digest 0 100 1 1 ws2 = Inr ws3 \<and>
     ledger_payments 1 100 (ws_ledger ws3) = [(10, 7, ''ORDINARY'', 1225 / 2)]"
proof -
  obtain packet where packet:
    "build_live_calculation_packet sample_boundary sample_period 1 (ws_db sample_workflow) = Inr packet"
    "packet_payments packet = [(10, 7, ''ORDINARY'', 1225 / 2)]"
    using small_packet by auto
  obtain ws1 where submit:
    "change_period_status sample_digest sample_boundary 0 1 1 100 ''InReview'' None sample_workflow = Inr ws1"
    by (rule sample_submission)
  have may: "may_act 1 1 (pp_branch_id sample_period) permission (users (ws_db sample_workflow)) (ws_access sample_workflow)"
    if "permission \<in> {''payroll.entry'', ''payroll.finalize'', ''review.decide''}" for permission
    using sample_owner_may [OF that] by simp
  have "\<exists>ws2 ws3. decide_review_item sample_digest 0 1 1 (next_item_id (ws_items sample_workflow)) ''Approved'' None ws1 = Inr ws2 \<and>
      finalize_period sample_digest 0 100 1 1 ws2 = Inr ws3 \<and>
      mset (ledger_payments 1 100 (ws_ledger ws3)) = mset (packet_payments packet)"
    by (rule submission_can_be_paid [OF sample_workflow_ok submit sample_period_found _ packet(1) _ may _ may])
      (simp_all add: packet(2) sample_self_approval)
  with submit packet(2) show ?thesis by (auto simp: next_item_id_def)
qed


text \<open>C1: what is paid is what was submitted.  Take any submission or resubmission, then any further
  requests by anyone; if the item of that submission has been approved and the period is finalized,
  the FinalLines are exactly the official components of the packet computed at submission,
  whatever happened to the live tables in between.\<close>

theorem final_lines_pay_submission:
  assumes "workflow_ok digest ws" "find_period company i ws = Some p"
    and "build_live_calculation_packet boundary p company (ws_db ws) = Inr packet"
    and "change_period_status digest boundary now company user i ''InReview'' notes ws = Inr ws1 \<or>
      resubmit_period digest boundary now company user i ws = Inr ws1"
    and "workflow_run digest boundary ws1 ws2"
    and "ri \<in> set (ws_items ws2)" "ri_id ri = next_item_id (ws_items ws)" "ri_status ri = ''Approved''"
    and "finalize_period digest later i company finalizer ws2 = Inr ws3"
  shows "mset (ledger_payments company i (ws_ledger ws3)) = mset (packet_payments packet)"
proof -
  from submission_effect [OF assms(1,2,4,3)] obtain sid wsm where "pp_id p = i" "pp_company_id p = company"
    and sub: "submitted digest boundary user p packet sid ws wsm"
    and same: "same_tables wsm ws1 \<or> (\<exists>d. restatus d ''Draft'' ''Open'' wsm ws1)" by blast
  with final_lines_pay_packet [OF assms(1) sub same assms(5-8)] assms(9) show ?thesis by simp
qed

theorem final_lines_pay_submission_witness:
  "\<exists>ws2 ws3. finalize_period sample_digest 0 100 1 1 ws2 = Inr ws3 \<and>
     ledger_payments 1 100 (ws_ledger ws3) = [(10, 7, ''ORDINARY'', 1225 / 2)]"
proof (rule sample_history)
  fix packet ws1 ws2 ws3 x
  assume packet: "build_live_calculation_packet sample_boundary sample_period 1 small_roster = Inr packet"
      "packet_payments packet = [(10, 7, ''ORDINARY'', 1225 / 2)]"
    and submit: "change_period_status sample_digest sample_boundary 0 1 1 100 ''InReview'' None sample_workflow = Inr ws1"
    and run: "workflow_run sample_digest sample_boundary ws1 ws2"
    and x: "x \<in> set (ws_items ws2)" "ri_id x = 1" "ri_status x = ''Approved''"
    and final: "finalize_period sample_digest 0 100 1 1 ws2 = Inr ws3"
  have "mset (ledger_payments 1 100 (ws_ledger ws3)) = mset (packet_payments packet)"
    by (rule final_lines_pay_submission [OF sample_workflow_ok sample_period_found _ disjI1 [OF submit] run x(1) _ x(3) final])
      (use packet(1) x(2) in \<open>simp_all add: next_item_id_def\<close>)
  with packet(2) final show ?thesis by auto
qed

text \<open>C10: finalization writes the ledger the approved snapshot verifies against: its FinalLines
  pass the verification of every later read, they are the projection of a snapshot that verifies,
  and (for contents within the bounds of the columns) each DriverAssignment's lines add up to its
  expected pay and all lines to the snapshot's total.\<close>

theorem finalized_ledger_verifies:
  assumes "workflow_ok digest ws" "finalize_period digest now i company user ws = Inr ws'"
  shows "\<exists>sid c branch rows. verify_snapshot digest sid (Some company) (Some branch) (Some i) (ws_store ws') = Inr c \<and>
    verify_final_lines c (ws_ledger ws') = Inr rows \<and>
    map row_data rows = map (expected_columns c) (projection_of c) \<and>
    (bounded_content c \<longrightarrow>
       sum_list (map (fl_amount \<circ> row_data) rows) = sh_total c \<and>
       (\<forall>a. sum_list (map fr_amount (filter (\<lambda>r. fr_assignment_id r = a) (projection_of c))) =
          (\<Sum>t\<leftarrow>filter (\<lambda>t. to_assignment_id t = a) (co_totals c). to_expected_pay t)))"
proof -
  from assms(2) workflow_okD(2) [OF assms(1)] obtain p ri c where p: "pp_id p = i" "pp_company_id p = company"
    and fin: "finalized digest user p ri c ws ws'" by (rule finalize_periodE)
  then obtain sid where ver: "verify_snapshot digest sid (Some company) (Some (pp_branch_id p)) (Some i) (ws_store ws') = Inr c"
    by (auto simp: finalized_def archive_verify_def period_scope_def)
  from finalized_ok(2) [OF assms(1) fin] obtain rows where
    rows: "verify_final_lines c (ws_ledger ws') = Inr rows" "map row_data rows = map (expected_columns c) (projection_of c)"
    by blast
  note content = verify_snapshotD(2) [OF ver]
  have "sum_list (map (fl_amount \<circ> row_data) rows) = sh_total c" if "bounded_content c"
  proof -
    have "map (fl_amount \<circ> row_data) rows = map fr_amount (projection_of c)"
      using rows(2) [THEN arg_cong, of "map fl_amount"] by (simp add: expected_columns_def comp_def)
    with projection_pays [OF content that, of "\<lambda>_. True"] verified_total [OF content that] show ?thesis by simp
  qed
  moreover have "\<forall>a. sum_list (map fr_amount (filter (\<lambda>r. fr_assignment_id r = a) (projection_of c))) =
      (\<Sum>t\<leftarrow>filter (\<lambda>t. to_assignment_id t = a) (co_totals c). to_expected_pay t)" if "bounded_content c"
    using projection_pays [OF content that, of "\<lambda>x. x = a" for a] by simp
  ultimately show ?thesis using ver rows by blast
qed

theorem finalized_ledger_verifies_witness:
  "\<exists>ws2 ws3 c rows. finalize_period sample_digest 0 100 1 1 ws2 = Inr ws3 \<and>
     verify_final_lines c (ws_ledger ws3) = Inr rows \<and> map row_data rows = map (expected_columns c) (projection_of c)"
proof (rule sample_history)
  fix ws2 ws3
  assume ok: "workflow_ok sample_digest ws2" and final: "finalize_period sample_digest 0 100 1 1 ws2 = Inr ws3"
  from finalized_ledger_verifies [OF ok final] final show ?thesis by blast
qed

end
