(* ===== verification/Snapshot_Properties.thy ===== *)
theory Snapshot_Properties
  imports Workflow_Samples "HOL-Library.Countable"
begin

text \<open>
  The properties of the immutable evidence: the hash identifies the financial content, the tables
  give back what was written, and a snapshot that verifies does so in every later state.
\<close>

instance json :: countable
  by countable_datatype

section \<open>Samples\<close>

text \<open>An evidence-only content of one period with the given total.\<close>

definition sample_content ::
  "decimal \<Rightarrow> (snapshot_component, line_content, hashed_rate) snapshot_content" where
  "sample_content x =
     \<lparr>sh_company_id = 1, sh_branch_id = 2, sh_period_id = 100, sh_period_start = 1, sh_period_end = 7,
      sh_currency_code = ''EUR'', sh_currency_digits = 2, sh_calculation_version = current_calculation_version,
      sh_rounding_version = payable_rounding_version, sh_proration_version = minmax_proration_version,
      sh_source_config_hash = ''c'', sh_scheduled_dates = [1, 2], sh_warnings = [], sh_total = x,
      co_totals = [], co_used_rates = []\<rparr>"

definition collision_free :: "json \<Rightarrow> string" where
  "collision_free j = show_nat (to_nat j)"

lemma collision_free_inj: "inj collision_free"
  unfolding collision_free_def by (intro injI) (metis read_show_nat from_nat_to_nat)

lemma sample_hash_exists: "\<exists>h. calculate_snapshot_hash digest (sample_content x) = Inr h"
proof -
  have "\<exists>j. canonicalize (financial_value (sample_content x)) = Inr j"
    by (simp add: sample_content_def financial_value_def)
  then show ?thesis
    by (auto simp: snapshot_hash_Inr_iff sha256_hex_def map_r_Inr_iff sample_content_def)
qed

section \<open>The hash\<close>

text \<open>C27: under a collision-free digest two snapshots have the same hash exactly when they agree on
  every financial field, up to the order in which their rows are read.\<close>

theorem snapshot_hash_identifies:
  assumes "inj digest" "calculate_snapshot_hash digest c = Inr h" "calculate_snapshot_hash digest d = Inr k"
  shows "h = k \<longleftrightarrow> financial_view c = financial_view d"
proof
  assume "h = k"
  with snapshot_hash_view [OF assms(1,2)] assms(3) show "financial_view c = financial_view d" by simp
next
  assume "financial_view c = financial_view d"
  from snapshot_hash_cong [OF this assms(2)] assms(3) show "h = k" by simp
qed

theorem snapshot_hash_identifies_witness:
  "\<exists>h k. calculate_snapshot_hash collision_free (sample_content 5) = Inr h \<and>
     calculate_snapshot_hash collision_free (sample_content 7) = Inr k \<and> h \<noteq> k"
proof -
  obtain h k where hk: "calculate_snapshot_hash collision_free (sample_content 5) = Inr h"
    "calculate_snapshot_hash collision_free (sample_content 7) = Inr k"
    using sample_hash_exists by blast
  have "financial_view (sample_content 5) \<noteq> financial_view (sample_content 7)"
    by (simp add: financial_view_def sample_content_def snapshot_header.defs)
  with snapshot_hash_identifies [OF collision_free_inj hk] hk show ?thesis by blast
qed

section \<open>The tables\<close>

text \<open>C9: the snapshot tables give back what was written: a content inserted under fresh ids loads
  again with the same header, totals, components, evaluations, lines and used rates, with the hashes
  and the revision it was stored with and its Status and Bonus evidence in stable order.\<close>

theorem snapshot_round_trip:
  assumes "insert_snapshot h rh user c sts bns st = Inr (st', sid)" "fks_ok st" "storable c"
  shows "\<exists>lo. load_snapshot_content sid (Some (sh_company_id c)) (Some (sh_branch_id c)) (Some (sh_period_id c)) st' = Inr lo \<and>
    stored_form lo = stored_form c \<and> lo_snapshot_hash lo = h \<and> lo_report_hash lo = rh \<and>
    lo_revision lo = next_revision (sh_period_id c) st \<and>
    map status_evidence.truncate (lo_statuses lo) =
      sort_key (\<lambda>e. (sv_assignment_id e, sv_work_date e, sv_entry_state_id e)) sts \<and>
    map bonus_evidence.truncate (lo_bonuses lo) = sort_key (\<lambda>e. (bv_assignment_id e, bv_event_id e)) bns"
  using insert_snapshot_loads [OF assms] by blast

theorem snapshot_round_trip_witness:
  "\<exists>st' lo. insert_snapshot ''h'' ''r'' 1 (sample_content 5) [] [] empty_store = Inr (st', 1) \<and>
     load_snapshot_content 1 (Some 1) (Some 2) (Some 100) st' = Inr lo \<and>
     stored_form lo = stored_form (sample_content 5) \<and> lo_revision lo = 1"
proof -
  obtain st' where ins: "insert_snapshot ''h'' ''r'' 1 (sample_content 5) [] [] empty_store = Inr (st', 1)"
    by (simp add: insert_snapshot_def sample_content_def empty_store_def next_id_def insert_evidence_def Let_def)
  have fks: "fks_ok empty_store" by (simp add: fks_ok_def empty_store_def)
  have "storable (sample_content 5)" by (simp add: storable_def sample_content_def)
  from snapshot_round_trip [OF ins fks this] ins show ?thesis
    by (auto simp: sample_content_def empty_store_def next_revision_def)
qed

section \<open>Immutability\<close>

text \<open>C26: approved evidence never changes.  Whatever requests are served later, a snapshot that
  verifies keeps verifying, with the same content.\<close>

theorem snapshot_immutable:
  assumes "workflow_run digest boundary ws ws'" "workflow_ok digest ws"
    and "verify_snapshot digest sid company branch period (ws_store ws) = Inr c"
  shows "verify_snapshot digest sid company branch period (ws_store ws') = Inr c"
  using workflow_run_keeps [OF assms(1,2), of _ "(company, branch, period)" sid c] assms(3)
  by (simp add: archive_verify_def)


theorem snapshot_immutable_witness:
  "\<exists>ws1 ws2 sid c. decide_review_item sample_digest 0 1 1 1 ''Approved'' None ws1 = Inr ws2 \<and>
     verify_snapshot sample_digest sid (Some 1) (Some 2) (Some 100) (ws_store ws1) = Inr c \<and>
     verify_snapshot sample_digest sid (Some 1) (Some 2) (Some 100) (ws_store ws2) = Inr c"
proof (rule sample_history)
  fix ws1 ws2 sid c
  assume run: "workflow_run sample_digest sample_boundary ws1 ws2" "workflow_ok sample_digest ws1"
    and decide: "decide_review_item sample_digest 0 1 1 1 ''Approved'' None ws1 = Inr ws2"
    and "archive_verify sample_digest (period_scope sample_period) sid (ws_store ws1) = Inr c"
  then have ver: "verify_snapshot sample_digest sid (Some 1) (Some 2) (Some 100) (ws_store ws1) = Inr c"
    by (simp add: archive_verify_def period_scope_def)
  from snapshot_immutable [OF run ver] ver decide show ?thesis by blast
qed

end
