(* ===== verification/Setup_Resolver.thy ===== *)
theory Setup_Resolver
  imports Workflow Chronology
begin

text \<open>
  The resolution of the Payroll Setup in force for a Branch (\<open>payroll_setup/resolver.py\<close>): the
  assignment and the terminal Published version of a date, and the legal period that starts there.
  A \<open>PolicyError\<close> keeps its code.  The lemmas say what a resolved authority guarantees.
\<close>

section \<open>Tables\<close>

record setup_assignment =
  sa_id :: int
  sa_company_id :: int
  sa_branch_id :: int
  sa_setup_id :: int
  sa_from :: date
  sa_to :: "date option"
  sa_withdrawn_at :: "int option"

record payroll_setup =
  ps_id :: int
  ps_company_id :: int
  ps_code :: string
  ps_status :: string

record setup_version =
  vn_id :: int
  vn_company_id :: int
  vn_setup_id :: int
  vn_number :: int
  vn_state :: string
  vn_from :: date
  vn_replaces :: "int option"
  vn_frequency :: string
  vn_anchor :: date
  vn_interval :: "int option"
  vn_mask :: int
  vn_config_hash :: string

record policy_event =
  pe_id :: int
  pe_company_id :: int
  pe_setup_id :: "int option"
  pe_branch_id :: "int option"
  pe_type :: string

text \<open>Status and code are the columns of a Branch that only the creation of periods reads.\<close>

record setup_tables =
  setup_assignments :: "setup_assignment list"
  payroll_setups :: "payroll_setup list"
  setup_versions :: "setup_version list"
  policy_events :: "policy_event list"
  branch_status :: "int \<Rightarrow> string"
  branch_code :: "int \<Rightarrow> string"

text \<open>\<open>MIN\<close> and \<open>MAX\<close> over the rows of a query; \<open>NULL\<close> without rows.\<close>

definition min_of :: "int list \<Rightarrow> int option" where
  "min_of xs = (if xs = [] then None else Some (foldr min xs (hd xs)))"

definition max_of :: "int list \<Rightarrow> int option" where
  "max_of xs = (if xs = [] then None else Some (foldr max xs (hd xs)))"

lemma min_of_None [simp]: "min_of xs = None \<longleftrightarrow> xs = []"
  by (simp add: min_of_def)

lemma max_of_None [simp]: "max_of xs = None \<longleftrightarrow> xs = []"
  by (simp add: max_of_def)

lemma foldr_min_eq: "foldr min (xs :: int list) y = Min (insert y (set xs))"
  by (induction xs) (simp_all add: insert_commute)

lemma foldr_max_eq: "foldr max (xs :: int list) y = Max (insert y (set xs))"
  by (induction xs) (simp_all add: insert_commute)

lemma max_of_Some: "max_of xs = Some m \<longleftrightarrow> m \<in> set xs \<and> (\<forall>x\<in>set xs. x \<le> m)"
proof (cases xs)
  case (Cons y ys)
  then have "max_of xs = Some (Max (set xs))"
    by (simp add: max_of_def foldr_max_eq insert_absorb del: foldr.simps)
  then show ?thesis using Max_eq_iff [of "set xs" m] Cons by (auto simp del: Max_insert set_simps)
qed (simp add: max_of_def)

lemma min_of_Some: "min_of xs = Some m \<longleftrightarrow> m \<in> set xs \<and> (\<forall>x\<in>set xs. m \<le> x)"
proof (cases xs)
  case (Cons y ys)
  then have "min_of xs = Some (Min (set xs))"
    by (simp add: min_of_def foldr_min_eq insert_absorb del: foldr.simps)
  then show ?thesis using Min_eq_iff [of "set xs" m] Cons by (auto simp del: Min_insert set_simps)
qed (simp add: min_of_def)

section \<open>The version in force\<close>

record effective_version =
  ev_assignment_id :: int
  ev_setup_id :: int
  ev_version_id :: int
  ev_version_number :: int
  ev_schedule :: schedule
  ev_config_hash :: string

definition effective_assignments :: "int \<Rightarrow> int \<Rightarrow> date \<Rightarrow> setup_tables \<Rightarrow> setup_assignment list" where
  "effective_assignments company_id branch_id d t =
     filter (\<lambda>a. sa_company_id a = company_id \<and> sa_branch_id a = branch_id \<and> sa_withdrawn_at a = None \<and>
         sa_from a \<le> d \<and> (case sa_to a of None \<Rightarrow> True | Some e \<Rightarrow> d < e)) (setup_assignments t)"

definition latest_version_date :: "int \<Rightarrow> date \<Rightarrow> setup_tables \<Rightarrow> date option" where
  "latest_version_date setup_id d t =
     max_of (map vn_from (filter (\<lambda>v. vn_setup_id v = setup_id \<and> vn_state v = ''Published'' \<and> vn_from v \<le> d)
       (setup_versions t)))"

definition terminal_versions :: "int \<Rightarrow> int \<Rightarrow> date \<Rightarrow> setup_tables \<Rightarrow> setup_version list" where
  "terminal_versions company_id setup_id d t =
     filter (\<lambda>v. vn_company_id v = company_id \<and> vn_setup_id v = setup_id \<and> vn_state v = ''Published'' \<and>
         Some (vn_from v) = latest_version_date setup_id d t \<and>
         \<not> (\<exists>child\<in>set (setup_versions t). vn_replaces child = Some (vn_id v))) (setup_versions t)"

definition resolve_effective_setup_version ::
  "int \<Rightarrow> int \<Rightarrow> date \<Rightarrow> setup_tables \<Rightarrow> effective_version result" where
  "resolve_effective_setup_version company_id branch_id d t =
     (case effective_assignments company_id branch_id d t of
        [a] \<Rightarrow>
          bind_r (guard_r (map_option ps_status (find_first (\<lambda>s. ps_id s = sa_setup_id a \<and>
              ps_company_id s = company_id) (payroll_setups t)) = Some ''Active'')
            (PolicyError ''SETUP_NOT_ACTIVE'')) (\<lambda>_.
          case terminal_versions company_id (sa_setup_id a) d t of
            [v] \<Rightarrow>
              map_r (\<lambda>s. \<lparr>ev_assignment_id = sa_id a, ev_setup_id = sa_setup_id a, ev_version_id = vn_id v,
                  ev_version_number = vn_number v, ev_schedule = s, ev_config_hash = vn_config_hash v\<rparr>)
                (make_schedule (vn_frequency v) (vn_anchor v) (vn_interval v) (vn_mask v))
          | _ \<Rightarrow> Inl (PolicyError ''VERSION_NOT_FOUND''))
      | _ \<Rightarrow> Inl (PolicyError ''ASSIGNMENT_NOT_FOUND''))"

section \<open>The authority of a period start\<close>

record authority = effective_version +
  au_company_id :: int
  au_branch_id :: int
  au_start :: date
  au_end :: date
  au_next_boundary :: "date option"
  au_next_kind :: "string option"

definition branch_operational :: "int \<Rightarrow> int \<Rightarrow> setup_tables \<Rightarrow> workflow_state \<Rightarrow> unit result" where
  "branch_operational company_id branch_id t ws =
     (case [(b, c). b \<leftarrow> branches (ws_db ws), c \<leftarrow> companies (ws_access ws),
          br_id b = branch_id \<and> br_company_id b = company_id \<and> cy_id c = company_id] of
        [] \<Rightarrow> Inl (PolicyError ''BRANCH_NOT_FOUND'')
      | (b, c) # _ \<Rightarrow> guard_r (branch_status t (br_id b) = ''Active'' \<and> cy_status c = ''Active'' \<and> \<not> cy_is_suspended c)
          (PolicyError ''BRANCH_NOT_OPERATIONAL''))"

text \<open>The non-Cancelled periods of a Branch.\<close>

definition branch_periods :: "int \<Rightarrow> int \<Rightarrow> workflow_state \<Rightarrow> period_row list" where
  "branch_periods company_id branch_id ws =
     filter (\<lambda>p. pp_company_id p = company_id \<and> pp_branch_id p = branch_id \<and> pp_status p \<noteq> ''Cancelled'')
       (periods (ws_db ws))"

definition schedule_origin :: "int \<Rightarrow> int \<Rightarrow> date \<Rightarrow> schedule \<Rightarrow> workflow_state \<Rightarrow> date option" where
  "schedule_origin company_id branch_id start s ws =
     map_option (\<lambda>prior. max (anchor_start_date s) (prior + 1))
       (max_of (map pp_end (filter (\<lambda>p. pp_end p < start) (branch_periods company_id branch_id ws))))"

definition next_assignment_boundary :: "int \<Rightarrow> int \<Rightarrow> int \<Rightarrow> date \<Rightarrow> setup_tables \<Rightarrow> date option" where
  "next_assignment_boundary company_id branch_id assignment_id start t =
     min_of (map sa_from (filter (\<lambda>a. sa_company_id a = company_id \<and> sa_branch_id a = branch_id \<and>
         sa_withdrawn_at a = None \<and> start < sa_from a) (setup_assignments t)) @
       [e. a \<leftarrow> setup_assignments t, sa_id a = assignment_id, e \<leftarrow> (case sa_to a of None \<Rightarrow> [] | Some e \<Rightarrow> [e])])"

definition next_version_boundary :: "int \<Rightarrow> date \<Rightarrow> setup_tables \<Rightarrow> date option" where
  "next_version_boundary setup_id start t =
     min_of (map vn_from (filter (\<lambda>v. vn_setup_id v = setup_id \<and> vn_state v = ''Published'' \<and> start < vn_from v)
       (setup_versions t)))"

definition earliest :: "date option \<Rightarrow> date option \<Rightarrow> date option" where
  "earliest a b = min_of ((case a of None \<Rightarrow> [] | Some x \<Rightarrow> [x]) @ (case b of None \<Rightarrow> [] | Some x \<Rightarrow> [x]))"

definition boundary_kind :: "date option \<Rightarrow> date option \<Rightarrow> string option" where
  "boundary_kind a v =
     (case earliest a v of
        None \<Rightarrow> None
      | Some b \<Rightarrow> Some (if a = Some b \<and> v = Some b then ''AssignmentAndVersion''
                        else if a = Some b then ''Assignment'' else ''Version''))"

definition resolve_payroll_setup_version ::
  "int \<Rightarrow> int \<Rightarrow> date \<Rightarrow> setup_tables \<Rightarrow> workflow_state \<Rightarrow> authority result" where
  "resolve_payroll_setup_version company_id branch_id start t ws =
     bind_r (branch_operational company_id branch_id t ws) (\<lambda>_.
     bind_r (resolve_effective_setup_version company_id branch_id start t) (\<lambda>ev.
     let s = ev_schedule ev; stop = period_end s start in
     bind_r (guard_r (anchor_start_date s \<le> start) (PolicyError ''INVALID_SCHEDULE_BOUNDARY'')) (\<lambda>_.
     bind_r (guard_r (is_period_start s start (schedule_origin company_id branch_id start s ws))
       (PolicyError ''INVALID_SCHEDULE_BOUNDARY'')) (\<lambda>_.
     let next_a = next_assignment_boundary company_id branch_id (ev_assignment_id ev) start t;
         next_v = next_version_boundary (ev_setup_id ev) start t; next_b = earliest next_a next_v in
     bind_r (guard_r (case next_b of None \<Rightarrow> True | Some b \<Rightarrow> stop < b)
       (PolicyError ''AUTHORITY_BOUNDARY_CROSSING'')) (\<lambda>_.
     Inr (effective_version.extend ev
       (authority.fields company_id branch_id start stop next_b (boundary_kind next_a next_v))))))))"

section \<open>What a resolved authority guarantees\<close>

lemma resolve_effectiveD:
  assumes "resolve_effective_setup_version company branch d t = Inr ev"
  obtains a v where "effective_assignments company branch d t = [a]" "sa_id a = ev_assignment_id ev"
    "sa_setup_id a = ev_setup_id ev" "terminal_versions company (ev_setup_id ev) d t = [v]"
    "vn_id v = ev_version_id ev"
    "make_schedule (vn_frequency v) (vn_anchor v) (vn_interval v) (vn_mask v) = Inr (ev_schedule ev)"
  using assms unfolding resolve_effective_setup_version_def
  by (auto simp: map_r_Inr_iff bind_r_Inr_iff split: list.splits)

lemma resolve_authorityD:
  assumes "resolve_payroll_setup_version company branch start t ws = Inr au"
  shows "au_company_id au = company" "au_branch_id au = branch" "au_start au = start"
    and "au_end au = period_end (ev_schedule au) start" "anchor_start_date (ev_schedule au) \<le> start"
    and "is_period_start (ev_schedule au) start (schedule_origin company branch start (ev_schedule au) ws)"
    and "\<exists>ev. resolve_effective_setup_version company branch start t = Inr ev \<and> effective_version.truncate au = ev"
    and "\<And>b. earliest (next_assignment_boundary company branch (ev_assignment_id au) start t)
        (next_version_boundary (ev_setup_id au) start t) = Some b \<Longrightarrow> au_end au < b"
  using assms unfolding resolve_payroll_setup_version_def Let_def
  by (auto simp: bind_r_Inr_iff effective_version.defs authority.defs)

lemma authority_schedule_ok:
  assumes "resolve_payroll_setup_version company branch start t ws = Inr au"
  shows "schedule_ok (ev_schedule au)"
proof -
  from resolve_authorityD(7) [OF assms] obtain ev where
    ev: "resolve_effective_setup_version company branch start t = Inr ev" "effective_version.truncate au = ev" by blast
  from ev(1) obtain v :: setup_version where "make_schedule (vn_frequency v) (vn_anchor v) (vn_interval v) (vn_mask v) = Inr (ev_schedule ev)"
    by (rule resolve_effectiveD) blast
  with ev(2) show ?thesis by (auto simp: effective_version.defs dest: make_schedule_ok)
qed

lemma authority_not_empty:
  assumes "resolve_payroll_setup_version company branch start t ws = Inr au"
  shows "start \<le> au_end au"
proof -
  have "start < period_step (ev_schedule au) start"
    using schedule_grid [OF authority_schedule_ok [OF assms]] by (simp add: period_grid_def)
  then show ?thesis by (simp add: resolve_authorityD(4) [OF assms] period_step_def)
qed

end
