(* ===== verification/Period_Creation.thy ===== *)
theory Period_Creation
  imports Setup_Resolver Period_Lifecycle
begin

text \<open>
  Candidate-based creation of payroll periods (\<open>payroll/period_creation.py\<close>): the slot matrix, names
  and codes, signed candidate keys, the preview of candidates and the confirmation that freezes
  the period with its days, its definition layout and its roster.

  The secret-keyed signature, the base64 JSON text of a payload and the collation of the database
  are the parameters \<open>creation_env\<close>.  A fingerprint is compared as the document whose text the
  code compares; SHA-256 of a document is the parameter \<open>env_digest\<close>.  The audit rows are not part
  of the model, nor are the trigger and the unique indexes that repeat checks made under the lock.
\<close>

section \<open>State\<close>

record candidate_payload =
  cp_ver :: string
  cp_purpose :: string
  cp_cid :: int
  cp_bid :: int
  cp_mode :: string
  cp_target_status :: string
  cp_assignment_id :: int
  cp_setup_id :: int
  cp_version_id :: int
  cp_config_hash :: string
  cp_setup_timeline :: string
  cp_branch_timeline :: string
  cp_start :: date
  cp_end :: date
  cp_slot_fp :: json
  cp_pred_id :: "int option"
  cp_offset :: int

record creation_env =
  env_boundary :: "string \<Rightarrow> date \<Rightarrow> int"
  env_digest :: "json \<Rightarrow> string"
  env_hmac :: "string \<Rightarrow> string"
  env_encode :: "candidate_payload \<Rightarrow> string"
  env_decode :: "string \<Rightarrow> candidate_payload option"
  env_lower_key :: "string \<Rightarrow> string"
  env_text_key :: "string \<Rightarrow> string"

text \<open>The columns of a period that only its creation writes.\<close>

record creation_row =
  cw_period_id :: int
  cw_name :: string
  cw_created_by :: int
  cw_candidate_hash :: string
  cw_assignment_id :: int
  cw_version_id :: int
  cw_setup_id :: int
  cw_setup_code :: string
  cw_version_number :: int
  cw_frequency :: string
  cw_anchor :: date
  cw_interval :: "int option"
  cw_mask :: int
  cw_config_hash :: string

record pay_definition =
  pf_id :: int
  pf_company_id :: int
  pf_code :: string
  pf_name :: string
  pf_input_type :: string
  pf_unit :: "string option"
  pf_method :: string
  pf_status :: string

record branch_config =
  bg_id :: int
  bg_company_id :: int
  bg_branch_id :: int
  bg_pay_definition_id :: int
  bg_from :: date
  bg_to :: "date option"
  bg_is_active :: bool

record creation_state =
  cr_workflow :: workflow_state
  cr_setup :: setup_tables
  cr_rows :: "creation_row list"
  cr_definitions :: "pay_definition list"
  cr_configs :: "branch_config list"
  cr_versions :: "(int \<times> int) list"
  cr_locked :: "int list"

definition cp1c_error :: "string \<Rightarrow> py_error" where
  "cp1c_error code = HttpError 409 code"

definition cp1c_version :: string where "cp1c_version = ''cp1c-v1''"
definition cp1c_purpose :: string where "cp1c_purpose = ''period_creation''"
definition cp1c_max_future :: int where "cp1c_max_future = 12"

definition creation_modes :: "string list" where
  "creation_modes = [''OPEN_CREATION'', ''PREPARED_CREATION'']"

definition target_of_mode :: "string \<Rightarrow> string" where
  "target_of_mode mode = (if mode = ''OPEN_CREATION'' then ''Open'' else ''Draft'')"

section \<open>Slots, names and codes\<close>

definition check_slot_matrix :: "string \<Rightarrow> period_row list \<Rightarrow> (bool \<times> string option) result" where
  "check_slot_matrix mode ps =
     (let count = (\<lambda>s. length (filter (\<lambda>p. pp_status p = s) ps));
          has_open = 0 < count ''Open''; has_draft = 0 < count ''Draft''
      in if \<exists>s\<in>set slot_statuses. 1 < count s then Inr (False, Some ''SLOT_INVARIANT_VIOLATION'')
         else if mode = ''OPEN_CREATION''
         then Inr (if has_open \<and> has_draft then (False, Some ''ACTIVE_PERIOD_SLOTS_FULL'')
                   else if has_open then (False, Some ''OPEN_FILLED'')
                   else if has_draft then (False, Some ''DRAFT_WITHOUT_OPEN'') else (True, None))
         else if mode = ''PREPARED_CREATION''
         then Inr (if has_open \<and> has_draft then (False, Some ''ACTIVE_PERIOD_SLOTS_FULL'')
                   else if has_draft \<and> \<not> has_open then (False, Some ''DRAFT_WITHOUT_OPEN'')
                   else if \<not> has_open then (False, Some ''OPEN_REQUIRED'') else (True, None))
         else Inl (cp1c_error ''INVALID_CANDIDATE_KEY''))"

definition month_names :: "string list" where
  "month_names = [''Jan'', ''Feb'', ''Mar'', ''Apr'', ''May'', ''Jun'', ''Jul'', ''Aug'', ''Sep'', ''Oct'', ''Nov'', ''Dec'']"

definition full_months :: "string list" where
  "full_months = [''January'', ''February'', ''March'', ''April'', ''May'', ''June'', ''July'', ''August'',
     ''September'', ''October'', ''November'', ''December'']"

text \<open>The en dash is its UTF-8 bytes.\<close>

definition auto_period_name :: "string \<Rightarrow> date \<Rightarrow> date \<Rightarrow> string" where
  "auto_period_name period_type start stop =
     (case (ord_to_ymd start, ord_to_ymd stop) of
        ((y, m, d), (y', m', d')) \<Rightarrow>
          if period_type = ''Week''
          then ''Week of '' @ month_names ! nat (m - 1) @ '' '' @ show_int d @ '', '' @ show_int y
          else if period_type = ''Month''
          then full_months ! nat (m - 1) @ '' '' @ show_int y
          else month_names ! nat (m - 1) @ '' '' @ show_int d @ '' '' @ [CHR 0xE2, CHR 0x80, CHR 0x93] @ '' '' @
            month_names ! nat (m' - 1) @ '' '' @ show_int d' @ '', '' @ show_int y')"

text \<open>\<open>strftime('%Y%m%d')\<close>\<close>

definition compact_date :: "date \<Rightarrow> string" where
  "compact_date d = (case ord_to_ymd d of (y, m, dd) \<Rightarrow>
     show_int y @ zero_pad 2 (show_nat (nat m)) @ zero_pad 2 (show_nat (nat dd)))"

definition coded :: "string \<Rightarrow> nat \<Rightarrow> string" where
  "coded base suffix = (if suffix = 1 then base else base @ ''-'' @ show_nat suffix)"

lemma coded_inj: "coded base i = coded base j \<Longrightarrow> i = j"
  using show_nat_inj by (auto simp: coded_def split: if_splits)

text \<open>The loop of \<open>_unique_period_code\<close>, from a suffix on, over the codes in use.\<close>

function free_code :: "string \<Rightarrow> string list \<Rightarrow> nat \<Rightarrow> string" where
  "free_code base used suffix =
     (if coded base suffix \<in> set used then free_code base used (suffix + 1) else coded base suffix)"
  by auto

lemma used_suffixes_finite: "finite {k. i \<le> k \<and> coded base k \<in> set used}"
proof (rule finite_subset)
  show "{k. i \<le> k \<and> coded base k \<in> set used} \<subseteq> coded base -` set used" by auto
  show "finite (coded base -` set used)" by (rule finite_vimageI) (auto intro: injI coded_inj)
qed

termination free_code
proof (relation "measure (\<lambda>(base, used, suffix). card {k. suffix \<le> k \<and> coded base k \<in> set used})", simp)
  fix base used suffix
  assume used: "coded base suffix \<in> set used"
  have "suffix \<in> {k. suffix \<le> k \<and> coded base k \<in> set used}" using used by simp
  moreover have "suffix \<notin> {k. suffix + 1 \<le> k \<and> coded base k \<in> set used}" by simp
  ultimately have "{k. suffix + 1 \<le> k \<and> coded base k \<in> set used} \<subset> {k. suffix \<le> k \<and> coded base k \<in> set used}"
    by (intro psubsetI subsetI) (simp, blast)
  then show "((base, used, suffix + 1), base, used, suffix)
      \<in> measure (\<lambda>(base, used, suffix). card {k. suffix \<le> k \<and> coded base k \<in> set used})"
    by (simp add: psubset_card_mono [OF used_suffixes_finite])
qed

declare free_code.simps [simp del]

definition unique_period_code :: "string \<Rightarrow> int \<Rightarrow> int \<Rightarrow> workflow_state \<Rightarrow> string" where
  "unique_period_code base company_id branch_id ws =
     free_code base (map (\<lambda>p. pc_code (ws_columns ws (pp_id p))) (branch_periods company_id branch_id ws)) 1"

section \<open>Candidate keys\<close>

definition make_candidate_key :: "creation_env \<Rightarrow> candidate_payload \<Rightarrow> string \<times> string" where
  "make_candidate_key env payload =
     (let b64 = env_encode env payload; sig = env_hmac env b64 in (b64 @ ''.'' @ sig, sig))"

text \<open>\<open>key.rsplit('.', 1)\<close>; \<open>None\<close> without a dot.\<close>

definition rsplit_dot :: "string \<Rightarrow> (string \<times> string) option" where
  "rsplit_dot key =
     (case dropWhile (\<lambda>c. c \<noteq> CHR ''.'') (rev key) of
        [] \<Rightarrow> None
      | _ # before \<Rightarrow> Some (rev before, rev (takeWhile (\<lambda>c. c \<noteq> CHR ''.'') (rev key))))"

definition decode_candidate_key :: "creation_env \<Rightarrow> string \<Rightarrow> (candidate_payload \<times> string) result" where
  "decode_candidate_key env key =
     (let invalid = Inl (cp1c_error ''INVALID_CANDIDATE_KEY'') in
      case rsplit_dot key of
        None \<Rightarrow> invalid
      | Some (b64, sig) \<Rightarrow>
          if env_hmac env b64 \<noteq> sig then invalid
          else case env_decode env b64 of
            None \<Rightarrow> invalid
          | Some payload \<Rightarrow>
              if cp_ver payload \<noteq> cp1c_version \<or> cp_purpose payload \<noteq> cp1c_purpose then invalid
              else Inr (payload, sig))"

section \<open>Fingerprints and candidates\<close>

definition slot_fingerprint :: "period_row list \<Rightarrow> json" where
  "slot_fingerprint ps =
     JList (map (\<lambda>(s, i). JList [JStr s, JInt i])
       (sort (map (\<lambda>p. (pp_status p, pp_id p)) (filter (\<lambda>p. pp_status p \<noteq> ''Cancelled'') ps))))"

definition next_candidate_start :: "int \<Rightarrow> int \<Rightarrow> creation_state \<Rightarrow> (date \<times> date option) result" where
  "next_candidate_start company_id branch_id cs =
     (case max_of (map pp_end (branch_periods company_id branch_id (cr_workflow cs))) of
        Some last_end \<Rightarrow> Inr (last_end + 1, Some last_end)
      | None \<Rightarrow>
          (case min_of (map sa_from (filter (\<lambda>a. sa_company_id a = company_id \<and> sa_branch_id a = branch_id \<and>
                  sa_withdrawn_at a = None) (setup_assignments (cr_setup cs)))) of
             None \<Rightarrow> Inl (cp1c_error ''PAYROLL_SETUP_REQUIRED'')
           | Some first \<Rightarrow> Inr (first, None)))"

definition policy_http :: "py_error \<Rightarrow> py_error" where
  "policy_http e = (case e of PolicyError code \<Rightarrow> cp1c_error code | _ \<Rightarrow> e)"

definition resolve_candidate :: "int \<Rightarrow> int \<Rightarrow> date \<Rightarrow> creation_state \<Rightarrow> authority result" where
  "resolve_candidate company_id branch_id start cs =
     map_error policy_http (resolve_payroll_setup_version company_id branch_id start (cr_setup cs) (cr_workflow cs))"

fun candidate_at_offset :: "int \<Rightarrow> int \<Rightarrow> date \<Rightarrow> nat \<Rightarrow> creation_state \<Rightarrow> authority result" where
  "candidate_at_offset company_id branch_id start 0 cs = resolve_candidate company_id branch_id start cs"
| "candidate_at_offset company_id branch_id start (Suc n) cs =
     bind_r (resolve_candidate company_id branch_id start cs)
       (\<lambda>au. candidate_at_offset company_id branch_id (au_end au + 1) n cs)"

definition opt_json :: "('a \<Rightarrow> json) \<Rightarrow> 'a option \<Rightarrow> json" where
  "opt_json f x = (case x of None \<Rightarrow> JNull | Some y \<Rightarrow> f y)"

definition setup_state :: "int \<Rightarrow> int \<Rightarrow> setup_tables \<Rightarrow> json list" where
  "setup_state company_id setup_id t =
     map (\<lambda>v. JList [JInt (vn_id v), JStr (iso_date (vn_from v)), JStr (vn_config_hash v), opt_json JInt (vn_replaces v)])
       (sort_key vn_id (filter (\<lambda>v. vn_company_id v = company_id \<and> vn_setup_id v = setup_id \<and>
          vn_state v = ''Published'') (setup_versions t)))"

definition branch_state :: "int \<Rightarrow> int \<Rightarrow> setup_tables \<Rightarrow> json list" where
  "branch_state company_id branch_id t =
     map (\<lambda>a. JList [JInt (sa_id a), JInt (sa_setup_id a), JStr (iso_date (sa_from a)),
         opt_json (JStr \<circ> iso_date) (sa_to a), opt_json (JStr \<circ> show_int) (sa_withdrawn_at a)])
       (sort_key sa_id (filter (\<lambda>a. sa_company_id a = company_id \<and> sa_branch_id a = branch_id) (setup_assignments t)))"

definition timeline_fingerprints :: "creation_env \<Rightarrow> int \<Rightarrow> int \<Rightarrow> int \<Rightarrow> setup_tables \<Rightarrow> string \<times> string" where
  "timeline_fingerprints env company_id branch_id setup_id t =
     (let setup_revision = max_of (map pe_id (filter (\<lambda>e. pe_company_id e = company_id \<and> pe_setup_id e = Some setup_id \<and>
            pe_type e \<in> {''VersionPublished'', ''FutureVersionScheduled'', ''VersionReplaced''}) (policy_events t)));
          branch_revision = max_of (map pe_id (filter (\<lambda>e. pe_company_id e = company_id \<and> pe_branch_id e = Some branch_id \<and>
            pe_type e \<in> {''BranchAssigned'', ''BranchReassigned'', ''AssignmentWithdrawn''}) (policy_events t)));
          fingerprint = (\<lambda>rows revision. env_digest env (JList [JList rows, opt_json JInt revision]))
      in (fingerprint (setup_state company_id setup_id t) setup_revision,
          fingerprint (branch_state company_id branch_id t) branch_revision))"

section \<open>Day rows\<close>

record generated_day =
  gd_work_date :: date
  gd_day_of_week :: int
  gd_is_default :: bool
  gd_is_off :: bool

text \<open>\<open>date.weekday()\<close>: Monday is 0, and so is the weekday of ordinal 1.\<close>

definition weekday :: "date \<Rightarrow> int" where
  "weekday d = (d + 6) mod 7"

definition generate_period_day_rows :: "date \<Rightarrow> date \<Rightarrow> int \<Rightarrow> generated_day list" where
  "generate_period_day_rows start stop off_mask =
     map (\<lambda>d. let dow = (weekday d + 1) mod 7; off = bit off_mask (nat dow)
              in \<lparr>gd_work_date = d, gd_day_of_week = dow, gd_is_default = \<not> off, gd_is_off = off\<rparr>)
       [start..stop]"

text \<open>\<open>INSERT ... ON CONFLICT (PayrollPeriodID, WorkDate) DO NOTHING\<close>, one row after the other.\<close>

definition insert_day :: "period_day_row list \<Rightarrow> period_day_row \<Rightarrow> period_day_row list" where
  "insert_day rows r =
     (if \<exists>q\<in>set rows. pday_period_id q = pday_period_id r \<and> pday_work_date q = pday_work_date r
      then rows else rows @ [r])"

definition create_period_day_rows :: "int \<Rightarrow> int \<Rightarrow> date \<Rightarrow> date \<Rightarrow> int \<Rightarrow> payroll_db \<Rightarrow> payroll_db" where
  "create_period_day_rows period_id company_id start stop off_mask db =
     db\<lparr>period_days := foldl insert_day (period_days db)
       (map (\<lambda>g. \<lparr>pday_period_id = period_id, pday_company_id = company_id, pday_work_date = gd_work_date g,
           pday_is_default = gd_is_default g, pday_is_added = False\<rparr>)
         (generate_period_day_rows start stop off_mask))\<rparr>"

section \<open>The definition layout\<close>

definition config_applies :: "int \<Rightarrow> int \<Rightarrow> date \<Rightarrow> pay_definition \<Rightarrow> branch_config \<Rightarrow> bool" where
  "config_applies company_id branch_id start f g \<longleftrightarrow>
     bg_company_id g = company_id \<and> bg_branch_id g = branch_id \<and> bg_pay_definition_id g = pf_id f \<and>
     bg_from g \<le> start \<and> (case bg_to g of None \<Rightarrow> True | Some e \<Rightarrow> start \<le> e)"

definition active_definition :: "int \<Rightarrow> pay_definition \<Rightarrow> rate_definition_row \<Rightarrow> bool" where
  "active_definition company_id f r \<longleftrightarrow>
     rd_pay_definition_id r = Some (pf_id f) \<and> pf_company_id f = company_id \<and> pf_status f = ''Active''"

definition candidate_definition_ids :: "int \<Rightarrow> int \<Rightarrow> date \<Rightarrow> creation_state \<Rightarrow> int list" where
  "candidate_definition_ids company_id branch_id start cs =
     sort [rate_definition_row.rd_id r. f \<leftarrow> cr_definitions cs, r \<leftarrow> rate_definitions (ws_db (cr_workflow cs)),
       active_definition company_id f r \<and> (\<exists>g\<in>set (cr_configs cs). config_applies company_id branch_id start f g)]"

definition layout_sources ::
  "creation_env \<Rightarrow> int \<Rightarrow> int \<Rightarrow> date \<Rightarrow> creation_state
   \<Rightarrow> (pay_definition \<times> rate_definition_row \<times> branch_config) list" where
  "layout_sources env company_id branch_id start cs =
     sort_key (\<lambda>(f, r, g). (env_lower_key env (pf_name f), env_text_key env (pf_code f), pf_id f))
       [(f, r, g). f \<leftarrow> cr_definitions cs, r \<leftarrow> rate_definitions (ws_db (cr_workflow cs)), g \<leftarrow> cr_configs cs,
          active_definition company_id f r \<and> config_applies company_id branch_id start f g]"

definition next_definition_id :: "definition_row list \<Rightarrow> int" where
  "next_definition_id rows = foldr max (map ppd_id rows) 0 + 1"

definition layout_row ::
  "creation_state \<Rightarrow> int \<Rightarrow> int \<Rightarrow> int \<Rightarrow> nat \<Rightarrow> pay_definition \<times> rate_definition_row \<times> branch_config \<Rightarrow> definition_row" where
  "layout_row cs period_id company_id branch_id k = (\<lambda>(f, r, g).
     \<lparr>ppd_id = next_definition_id (period_definitions (ws_db (cr_workflow cs))) + int k,
      ppd_period_id = period_id, ppd_company_id = pf_company_id f, ppd_branch_id = branch_id,
      ppd_pay_definition_id = pf_id f, ppd_rate_definition_id = rate_definition_row.rd_id r, ppd_code = pf_code f,
      ppd_name = pf_name f, ppd_input_type = pf_input_type f, ppd_unit = pf_unit f,
      ppd_calculation_method = pf_method f,
      ppd_calculation_method_version = (case map_of (cr_versions cs) (pf_id f) of None \<Rightarrow> 1 | Some v \<Rightarrow> v),
      ppd_rate_shape = rd_shape r, ppd_is_active = bg_is_active g, ppd_sort_order = int k\<rparr>)"

definition layout_rows ::
  "creation_env \<Rightarrow> int \<Rightarrow> int \<Rightarrow> int \<Rightarrow> date \<Rightarrow> creation_state \<Rightarrow> definition_row list" where
  "layout_rows env period_id company_id branch_id start cs =
     map (\<lambda>(k, s). layout_row cs period_id company_id branch_id k s)
       (enumerate 0 (layout_sources env company_id branch_id start cs))"

definition not_ready_codes :: "definition_row list \<Rightarrow> string list" where
  "not_ready_codes rows =
     sort [ppd_code r. r \<leftarrow> rows, ppd_is_active r \<and>
       \<not> is_method_operational (ppd_calculation_method r) (ppd_calculation_method_version r)]"

definition with_db :: "(payroll_db \<Rightarrow> payroll_db) \<Rightarrow> creation_state \<Rightarrow> creation_state" where
  "with_db f cs = cs\<lparr>cr_workflow := (cr_workflow cs)\<lparr>ws_db := f (ws_db (cr_workflow cs))\<rparr>\<rparr>"

definition create_period_definition_rows ::
  "creation_env \<Rightarrow> int \<Rightarrow> int \<Rightarrow> int \<Rightarrow> date \<Rightarrow> creation_state \<Rightarrow> creation_state result" where
  "create_period_definition_rows env period_id company_id branch_id start cs =
     (let candidates = candidate_definition_ids company_id branch_id start cs;
          rows = layout_rows env period_id company_id branch_id start cs
      in if candidates = [] then Inr cs
         else if \<not> ppd_rate_definition_id ` set rows \<subseteq> set candidates then Inl (cp1c_error ''CANDIDATE_STALE'')
         else if not_ready_codes rows \<noteq> [] then Inl (cp1c_error ''CALCULATION_METHOD_NOT_READY'')
         else Inr ((with_db (\<lambda>db. db\<lparr>period_definitions := period_definitions db @ rows\<rparr>) cs)
           \<lparr>cr_locked := cr_locked cs @
              filter (\<lambda>i. i \<notin> set (cr_locked cs)) (remdups (map ppd_rate_definition_id rows))\<rparr>))"

section \<open>Preview\<close>

definition branch_active :: "int \<Rightarrow> int \<Rightarrow> creation_state \<Rightarrow> unit result" where
  "branch_active company_id branch_id cs =
     guard_r ((\<exists>b\<in>set (branches (ws_db (cr_workflow cs))). br_id b = branch_id \<and> br_company_id b = company_id) \<and>
         branch_status (cr_setup cs) branch_id = ''Active'') (cp1c_error ''BRANCH_INACTIVE'')"

definition creation_gates :: "int \<Rightarrow> int \<Rightarrow> int \<Rightarrow> workflow_state \<Rightarrow> unit result" where
  "creation_gates company_id user_id branch_id ws =
     bind_r (require_non_driver_subject company_id user_id (ws_access ws)) (\<lambda>_.
     bind_r (check_branch_access company_id user_id (users (ws_db ws)) (ws_access ws)) (\<lambda>access.
     bind_r (guard_r (can_access_branch access branch_id)
       (HttpError 403 ''Access denied to the requested branch.'')) (\<lambda>_.
     check_permission company_id user_id (Some branch_id) ''payroll.period.create'' (users (ws_db ws)) (ws_access ws))))"

text \<open>The periods of a Branch as both endpoints read them: the latest first.\<close>

definition latest_first :: "period_row list \<Rightarrow> period_row list" where
  "latest_first ps = sort_key (\<lambda>p. (- pp_end p, - pp_id p)) ps"

definition candidate_payload_of ::
  "creation_env \<Rightarrow> int \<Rightarrow> int \<Rightarrow> string \<Rightarrow> date \<Rightarrow> int \<Rightarrow> creation_state \<Rightarrow> (candidate_payload \<times> authority) result" where
  "candidate_payload_of env company_id branch_id mode first_start offset cs =
     (let ps = latest_first (branch_periods company_id branch_id (cr_workflow cs)) in
      map_r (\<lambda>au. case timeline_fingerprints env company_id branch_id (ev_setup_id au) (cr_setup cs) of
          (setup_timeline, branch_timeline) \<Rightarrow>
            (\<lparr>cp_ver = cp1c_version, cp_purpose = cp1c_purpose, cp_cid = company_id, cp_bid = branch_id,
              cp_mode = mode, cp_target_status = target_of_mode mode,
              cp_assignment_id = ev_assignment_id au, cp_setup_id = ev_setup_id au,
              cp_version_id = ev_version_id au, cp_config_hash = ev_config_hash au,
              cp_setup_timeline = setup_timeline, cp_branch_timeline = branch_timeline,
              cp_start = au_start au, cp_end = au_end au, cp_slot_fp = slot_fingerprint ps,
              cp_pred_id = (case ps of [] \<Rightarrow> None | p # _ \<Rightarrow> Some (pp_id p)), cp_offset = offset\<rparr>, au))
        (candidate_at_offset company_id branch_id first_start (nat offset) cs))"

record candidate_preview =
  pv_key :: string
  pv_target_status :: string
  pv_start :: date
  pv_end :: date
  pv_period_type :: string
  pv_label :: string
  pv_creatable :: bool
  pv_blocked_reason :: "string option"
  pv_previous :: "string option"
  pv_next :: "string option"

text \<open>\<open>try ... except HTTPException: pass\<close>\<close>

definition optional_cursor :: "'a result \<Rightarrow> 'a option result" where
  "optional_cursor m = (case m of Inr x \<Rightarrow> Inr (Some x) | Inl (HttpError n code) \<Rightarrow> Inr None | Inl e \<Rightarrow> Inl e)"

definition cursor_offset :: "creation_env \<Rightarrow> int \<Rightarrow> int \<Rightarrow> string \<Rightarrow> string option \<Rightarrow> int result" where
  "cursor_offset env company_id branch_id mode cursor =
     (case cursor of
        None \<Rightarrow> Inr 0
      | Some key \<Rightarrow>
          if key = [] then Inr 0
          else bind_r (decode_candidate_key env key) (\<lambda>(payload, _).
            map_r (\<lambda>_. cp_offset payload)
              (guard_r (cp_cid payload = company_id \<and> cp_bid payload = branch_id \<and> cp_mode payload = mode)
                (cp1c_error ''INVALID_CANDIDATE_KEY''))))"

definition get_period_candidates ::
  "creation_env \<Rightarrow> int \<Rightarrow> int \<Rightarrow> int \<Rightarrow> string \<Rightarrow> string option \<Rightarrow> creation_state \<Rightarrow> candidate_preview result" where
  "get_period_candidates env company_id user_id branch_id mode cursor cs =
     bind_r (creation_gates company_id user_id branch_id (cr_workflow cs)) (\<lambda>_.
     bind_r (guard_r (mode \<in> set creation_modes) (HttpError 422 ''mode must be OPEN_CREATION or PREPARED_CREATION.'')) (\<lambda>_.
     bind_r (cursor_offset env company_id branch_id mode cursor) (\<lambda>offset.
     bind_r (guard_r (0 \<le> offset \<and> offset < cp1c_max_future) (cp1c_error ''INVALID_CANDIDATE_KEY'')) (\<lambda>_.
     bind_r (branch_active company_id branch_id cs) (\<lambda>_.
     let ps = latest_first (branch_periods company_id branch_id (cr_workflow cs)) in
     bind_r (check_slot_matrix mode ps) (\<lambda>(creatable_base, blocked).
     bind_r (next_candidate_start company_id branch_id cs) (\<lambda>(first_start, _).
     let signed = (\<lambda>n. candidate_payload_of env company_id branch_id mode first_start n cs);
         cursor_at = (\<lambda>n. optional_cursor (map_r (fst \<circ> make_candidate_key env \<circ> fst) (signed n))) in
     bind_r (signed offset) (\<lambda>(payload, au).
     bind_r (if 0 < offset then cursor_at (offset - 1) else Inr None) (\<lambda>previous.
     bind_r (if offset < cp1c_max_future - 1 then cursor_at (offset + 1) else Inr None) (\<lambda>following.
     Inr \<lparr>pv_key = fst (make_candidate_key env payload), pv_target_status = target_of_mode mode,
          pv_start = au_start au, pv_end = au_end au, pv_period_type = frequency (ev_schedule au),
          pv_label = auto_period_name (frequency (ev_schedule au)) (au_start au) (au_end au),
          pv_creatable = (creatable_base \<and> offset = 0),
          pv_blocked_reason = (if 0 < offset \<and> blocked = None then Some ''CANDIDATE_NOT_CURRENT'' else blocked),
          pv_previous = previous, pv_next = following\<rparr>))))))))))"

section \<open>Confirmation\<close>

record creation_response =
  rs_result :: string
  rs_period_id :: int
  rs_branch_id :: int
  rs_code :: string
  rs_name :: string
  rs_type :: string
  rs_start :: date
  rs_end :: date
  rs_status :: string

definition created_from :: "int \<Rightarrow> int \<Rightarrow> string \<Rightarrow> creation_state \<Rightarrow> (period_row \<times> creation_row) option" where
  "created_from company_id branch_id hash cs =
     find_first (\<lambda>_. True) [(p, w). p \<leftarrow> periods (ws_db (cr_workflow cs)), w \<leftarrow> cr_rows cs,
       pp_company_id p = company_id \<and> pp_branch_id p = branch_id \<and> cw_period_id w = pp_id p \<and>
       cw_candidate_hash w = hash]"

definition candidate_claims :: "int \<Rightarrow> int \<Rightarrow> candidate_payload \<Rightarrow> unit result" where
  "candidate_claims company_id branch_id payload =
     bind_r (guard_r (cp_cid payload = company_id) (cp1c_error ''INVALID_CANDIDATE_KEY'')) (\<lambda>_.
     bind_r (guard_r (cp_bid payload = branch_id) (cp1c_error ''INVALID_CANDIDATE_KEY'')) (\<lambda>_.
     bind_r (guard_r (cp_mode payload \<in> set creation_modes) (cp1c_error ''INVALID_CANDIDATE_KEY'')) (\<lambda>_.
     bind_r (guard_r (cp_offset payload = 0) (cp1c_error ''CANDIDATE_NOT_CURRENT'')) (\<lambda>_.
     guard_r (cp_target_status payload = target_of_mode (cp_mode payload)) (cp1c_error ''INVALID_CANDIDATE_KEY'')))))"

definition stale_409 :: "py_error \<Rightarrow> py_error" where
  "stale_409 e = (case e of HttpError n _ \<Rightarrow> if n = 409 then cp1c_error ''CANDIDATE_STALE'' else e | _ \<Rightarrow> e)"

definition payload_current :: "creation_env \<Rightarrow> candidate_payload \<Rightarrow> int \<Rightarrow> int \<Rightarrow> authority \<Rightarrow> creation_state \<Rightarrow> bool" where
  "payload_current env payload company_id branch_id au cs \<longleftrightarrow>
     cp_assignment_id payload = ev_assignment_id au \<and> cp_setup_id payload = ev_setup_id au \<and>
     cp_version_id payload = ev_version_id au \<and> cp_config_hash payload = ev_config_hash au \<and>
     (cp_setup_timeline payload, cp_branch_timeline payload) =
       timeline_fingerprints env company_id branch_id (ev_setup_id au) (cr_setup cs) \<and>
     cp_start payload = au_start au \<and> cp_end payload = au_end au"

definition next_period_id :: "period_row list \<Rightarrow> int" where
  "next_period_id ps = foldr max (map pp_id ps) 0 + 1"

text \<open>The insert of the period with its columns, under the slot indexes.\<close>

definition insert_period ::
  "period_row \<Rightarrow> string \<Rightarrow> creation_row \<Rightarrow> creation_state \<Rightarrow> creation_state result" where
  "insert_period p code w cs =
     (let ws = cr_workflow cs; ps = periods (ws_db ws) @ [p] in
      if \<not> slot_unique (pp_status p) ps then Inl (IntegrityError (slot_index (pp_status p)))
      else Inr (cs\<lparr>cr_workflow := with_periods ps (update_columns (pp_id p)
             (\<lambda>_. \<lparr>pc_code = code, pc_type = cw_frequency w, pc_notes = None, pc_submitted_at = None,
                pc_return_item = None, pc_approved_by = None, pc_approved_at = None, pc_locked_by = None,
                pc_locked_at = None\<rparr>) ws),
           cr_rows := cr_rows cs @ [w]\<rparr>))"

definition new_creation_row ::
  "int \<Rightarrow> int \<Rightarrow> string \<Rightarrow> string \<Rightarrow> string \<Rightarrow> authority \<Rightarrow> creation_row" where
  "new_creation_row period_id user_id hash name setup_code au =
     (let s = ev_schedule au in
      \<lparr>cw_period_id = period_id, cw_name = name, cw_created_by = user_id, cw_candidate_hash = hash,
       cw_assignment_id = ev_assignment_id au, cw_version_id = ev_version_id au, cw_setup_id = ev_setup_id au,
       cw_setup_code = setup_code, cw_version_number = ev_version_number au, cw_frequency = frequency s,
       cw_anchor = anchor_start_date s, cw_interval = custom_interval_days s, cw_mask = normal_days_off_mask s,
       cw_config_hash = ev_config_hash au\<rparr>)"

text \<open>What is written once every check has passed.\<close>

definition write_period ::
  "creation_env \<Rightarrow> int \<Rightarrow> int \<Rightarrow> int \<Rightarrow> int \<Rightarrow> string \<Rightarrow> string \<Rightarrow> authority \<Rightarrow> creation_state
   \<Rightarrow> (creation_state \<times> creation_response) result" where
  "write_period env now company_id user_id branch_id hash target au cs =
     (let ws = cr_workflow cs; start = au_start au; stop = au_end au; freq = frequency (ev_schedule au);
          name = auto_period_name freq start stop;
          base = branch_code (cr_setup cs) branch_id @ ''-'' @ compact_date start;
          code = unique_period_code base company_id branch_id ws;
          period_id = next_period_id (periods (ws_db ws));
          p = \<lparr>pp_id = period_id, pp_company_id = company_id, pp_branch_id = branch_id, pp_start = start,
               pp_end = stop, pp_status = target\<rparr>
      in case find_first (\<lambda>s. ps_id s = ev_setup_id au \<and> ps_company_id s = company_id)
            (payroll_setups (cr_setup cs)) of
           None \<Rightarrow> Inl KeyError
         | Some su \<Rightarrow>
             bind_r (insert_period p code (new_creation_row period_id user_id hash name (ps_code su) au) cs) (\<lambda>cs1.
             let cs2 = with_db (create_period_day_rows period_id company_id start stop
                   (normal_days_off_mask (ev_schedule au))) cs1 in
             bind_r (create_period_definition_rows env period_id company_id branch_id start cs2) (\<lambda>cs3.
             Inr (with_db (create_period_driver_eligibility_rows (env_boundary env) period_id company_id branch_id
                 now ''Generated'' (target = ''Open'') None None) cs3,
               \<lparr>rs_result = ''CREATED'', rs_period_id = period_id, rs_branch_id = branch_id, rs_code = code,
                rs_name = name, rs_type = freq, rs_start = start, rs_end = stop, rs_status = target\<rparr>))))"

definition replayed :: "int \<Rightarrow> period_row \<times> creation_row \<Rightarrow> creation_state \<Rightarrow> creation_response" where
  "replayed branch_id pw cs = (case pw of (p, w) \<Rightarrow>
     (let c = ws_columns (cr_workflow cs) (pp_id p) in
      \<lparr>rs_result = ''ALREADY_EXISTS'', rs_period_id = pp_id p, rs_branch_id = pp_branch_id p,
       rs_code = pc_code c, rs_name = cw_name w, rs_type = pc_type c, rs_start = pp_start p,
       rs_end = pp_end p, rs_status = pp_status p\<rparr>))"

definition create_period_from_candidate ::
  "creation_env \<Rightarrow> int \<Rightarrow> int \<Rightarrow> int \<Rightarrow> int \<Rightarrow> string \<Rightarrow> creation_state
   \<Rightarrow> (creation_state \<times> creation_response) result" where
  "create_period_from_candidate env now company_id user_id branch_id key cs =
     (let ws = cr_workflow cs; ps = latest_first (branch_periods company_id branch_id ws) in
      bind_r (creation_gates company_id user_id branch_id ws) (\<lambda>_.
      bind_r (decode_candidate_key env key) (\<lambda>(payload, hash).
      bind_r (candidate_claims company_id branch_id payload) (\<lambda>_.
      case created_from company_id branch_id hash cs of
        Some pw \<Rightarrow>
          if pp_status (fst pw) = ''Cancelled'' then Inl (cp1c_error ''CANDIDATE_ALREADY_CANCELLED'')
          else Inr (cs, replayed branch_id pw cs)
      | None \<Rightarrow>
          bind_r (branch_active company_id branch_id cs) (\<lambda>_.
          bind_r (guard_r (slot_fingerprint ps = cp_slot_fp payload) (cp1c_error ''CANDIDATE_STALE'')) (\<lambda>_.
          bind_r (map_error stale_409 (bind_r (next_candidate_start company_id branch_id cs)
            (\<lambda>(first_start, _). resolve_candidate company_id branch_id first_start cs))) (\<lambda>au.
          bind_r (guard_r (payload_current env payload company_id branch_id au cs) (cp1c_error ''CANDIDATE_STALE'')) (\<lambda>_.
          bind_r (check_slot_matrix (cp_mode payload) ps) (\<lambda>(creatable, slot_error).
          bind_r (guard_r creatable (cp1c_error (case slot_error of None \<Rightarrow> ''PERIOD_SLOT_CONFLICT'' | Some e \<Rightarrow> e))) (\<lambda>_.
          bind_r (guard_r (\<not> (\<exists>p\<in>set ps. pp_start p \<le> au_end au \<and> au_start au \<le> pp_end p))
            (cp1c_error ''PERIOD_DATE_OVERLAP'')) (\<lambda>_.
          write_period env now company_id user_id branch_id hash (cp_target_status payload) au cs)))))))))))"

end
