(* ===== verification/Creation_Facts.thy ===== *)
theory Creation_Facts
  imports Period_Creation Workflow_Runs
begin

text \<open>
  The effect of the creation of a period on the tables, and what the checks before it amount to:
  a new period starts where the Branch's calendar ends, in a free slot, and a candidate makes at
  most one period.
\<close>

section \<open>Frames\<close>

lemma with_db_simps [simp]:
  "cr_setup (with_db f cs) = cr_setup cs" "cr_rows (with_db f cs) = cr_rows cs"
  "cr_definitions (with_db f cs) = cr_definitions cs" "cr_configs (with_db f cs) = cr_configs cs"
  "cr_versions (with_db f cs) = cr_versions cs" "cr_locked (with_db f cs) = cr_locked cs"
  "ws_db (cr_workflow (with_db f cs)) = f (ws_db (cr_workflow cs))"
  "ws_access (cr_workflow (with_db f cs)) = ws_access (cr_workflow cs)"
  "ws_columns (cr_workflow (with_db f cs)) = ws_columns (cr_workflow cs)"
  "ws_items (cr_workflow (with_db f cs)) = ws_items (cr_workflow cs)"
  "ws_store (cr_workflow (with_db f cs)) = ws_store (cr_workflow cs)"
  "ws_ledger (cr_workflow (with_db f cs)) = ws_ledger (cr_workflow cs)"
  by (simp_all add: with_db_def)

lemma capture_keeps [simp]:
  fixes db :: payroll_db
  shows "periods (create_period_driver_eligibility_rows bd i c b now src fr a z db) = periods db"
    and "period_days (create_period_driver_eligibility_rows bd i c b now src fr a z db) = period_days db"
    and "period_definitions (create_period_driver_eligibility_rows bd i c b now src fr a z db) = period_definitions db"
    and "users (create_period_driver_eligibility_rows bd i c b now src fr a z db) = users db"
  by (simp_all add: create_period_driver_eligibility_rows_def Let_def)

lemma day_rows_keep [simp]:
  "periods (create_period_day_rows i c s e m db) = periods db"
  "period_definitions (create_period_day_rows i c s e m db) = period_definitions db"
  "rate_definitions (create_period_day_rows i c s e m db) = rate_definitions db"
  "users (create_period_day_rows i c s e m db) = users db"
  by (simp_all add: create_period_day_rows_def)

lemma next_period_id_fresh: "p \<in> set ps \<Longrightarrow> pp_id p < next_period_id ps"
  by (induction ps) (auto simp: next_period_id_def)

section \<open>Written periods\<close>

text \<open>The layout a new period freezes; none when no definition applies.\<close>

definition frozen_layout :: "creation_env \<Rightarrow> int \<Rightarrow> int \<Rightarrow> int \<Rightarrow> date \<Rightarrow> creation_state \<Rightarrow> definition_row list" where
  "frozen_layout env i company branch start cs =
     (if candidate_definition_ids company branch start cs = [] then []
      else layout_rows env i company branch start cs)"

text \<open>What \<open>write_period\<close> does to the tables.\<close>

definition period_written ::
  "creation_env \<Rightarrow> int \<Rightarrow> int \<Rightarrow> int \<Rightarrow> string \<Rightarrow> string \<Rightarrow> authority \<Rightarrow> period_row \<Rightarrow> creation_row
   \<Rightarrow> creation_state \<Rightarrow> creation_state \<Rightarrow> bool" where
  "period_written env company user branch hash target au p w cs cs' \<longleftrightarrow>
     (let ws = cr_workflow cs; ws' = cr_workflow cs' in
      p = \<lparr>pp_id = next_period_id (periods (ws_db ws)), pp_company_id = company, pp_branch_id = branch,
           pp_start = au_start au, pp_end = au_end au, pp_status = target\<rparr> \<and>
      cw_period_id w = pp_id p \<and> cw_candidate_hash w = hash \<and>
      cr_rows cs' = cr_rows cs @ [w] \<and> cr_setup cs' = cr_setup cs \<and>
      periods (ws_db ws') = periods (ws_db ws) @ [p] \<and>
      slot_unique target (periods (ws_db ws) @ [p]) \<and>
      ws_items ws' = ws_items ws \<and> ws_store ws' = ws_store ws \<and> ws_ledger ws' = ws_ledger ws \<and>
      ws_access ws' = ws_access ws \<and> users (ws_db ws') = users (ws_db ws) \<and>
      pc_code (ws_columns ws' (pp_id p)) =
        unique_period_code (branch_code (cr_setup cs) branch @ ''-'' @ compact_date (au_start au)) company branch ws \<and>
      period_days (ws_db ws') = period_days (create_period_day_rows (pp_id p) company (au_start au) (au_end au)
        (normal_days_off_mask (ev_schedule au)) (ws_db ws)) \<and>
      period_definitions (ws_db ws') = period_definitions (ws_db ws) @
        frozen_layout env (pp_id p) company branch (au_start au) cs \<and>
      not_ready_codes (frozen_layout env (pp_id p) company branch (au_start au) cs) = [])"

lemma insert_periodE:
  assumes "insert_period p code w cs = Inr cs'"
  shows "slot_unique (pp_status p) (periods (ws_db (cr_workflow cs)) @ [p])"
    and "ws_db (cr_workflow cs') = (ws_db (cr_workflow cs))\<lparr>periods := periods (ws_db (cr_workflow cs)) @ [p]\<rparr>"
    and "cr_rows cs' = cr_rows cs @ [w]" "cr_setup cs' = cr_setup cs" "cr_definitions cs' = cr_definitions cs"
      "cr_configs cs' = cr_configs cs" "cr_versions cs' = cr_versions cs"
    and "ws_items (cr_workflow cs') = ws_items (cr_workflow cs)" "ws_store (cr_workflow cs') = ws_store (cr_workflow cs)"
      "ws_ledger (cr_workflow cs') = ws_ledger (cr_workflow cs)"
      "ws_access (cr_workflow cs') = ws_access (cr_workflow cs)"
    and "pc_code (ws_columns (cr_workflow cs') (pp_id p)) = code"
  using assms by (auto simp: insert_period_def Let_def with_periods_def update_columns_def split: if_splits)

lemma layout_cong:
  assumes "rate_definitions (ws_db (cr_workflow cs')) = rate_definitions (ws_db (cr_workflow cs))"
    "period_definitions (ws_db (cr_workflow cs')) = period_definitions (ws_db (cr_workflow cs))"
    "cr_definitions cs' = cr_definitions cs" "cr_configs cs' = cr_configs cs" "cr_versions cs' = cr_versions cs"
  shows "layout_rows env i company branch start cs' = layout_rows env i company branch start cs"
    and "candidate_definition_ids company branch start cs' = candidate_definition_ids company branch start cs"
proof -
  have "layout_row cs' i company branch k s = layout_row cs i company branch k s" for k s
    by (simp add: layout_row_def assms)
  then show "layout_rows env i company branch start cs' = layout_rows env i company branch start cs"
    by (simp add: layout_rows_def layout_sources_def assms)
  show "candidate_definition_ids company branch start cs' = candidate_definition_ids company branch start cs"
    by (simp add: candidate_definition_ids_def assms)
qed

lemma frozen_layout_cong:
  assumes "rate_definitions (ws_db (cr_workflow cs')) = rate_definitions (ws_db (cr_workflow cs))"
    "period_definitions (ws_db (cr_workflow cs')) = period_definitions (ws_db (cr_workflow cs))"
    "cr_definitions cs' = cr_definitions cs" "cr_configs cs' = cr_configs cs" "cr_versions cs' = cr_versions cs"
  shows "frozen_layout env i company branch start cs' = frozen_layout env i company branch start cs"
  by (simp add: frozen_layout_def layout_cong [OF assms])

lemma create_definitionsE:
  assumes "create_period_definition_rows env i company branch start cs = Inr cs'"
  obtains locked where "cs' = (with_db (\<lambda>db. db\<lparr>period_definitions := period_definitions db @
      frozen_layout env i company branch start cs\<rparr>) cs)\<lparr>cr_locked := locked\<rparr>"
    "not_ready_codes (frozen_layout env i company branch start cs) = []"
proof (cases "candidate_definition_ids company branch start cs = []")
  case True
  with assms show thesis
    by (intro that [of "cr_locked cs"])
      (simp_all add: create_period_definition_rows_def frozen_layout_def with_db_def not_ready_codes_def)
next
  case False
  with assms that show thesis
    by (auto simp: create_period_definition_rows_def frozen_layout_def Let_def split: if_splits)
qed

lemma write_periodE:
  assumes "write_period env now company user branch hash target au cs = Inr (cs', r)"
  obtains p w where "period_written env company user branch hash target au p w cs cs'"
    "rs_result r = ''CREATED''" "rs_period_id r = pp_id p" "rs_start r = pp_start p" "rs_end r = pp_end p"
    "rs_status r = target" "rs_code r = pc_code (ws_columns (cr_workflow cs') (pp_id p))"
proof -
  let ?ws = "cr_workflow cs"
  let ?p = "\<lparr>pp_id = next_period_id (periods (ws_db ?ws)), pp_company_id = company, pp_branch_id = branch,
    pp_start = au_start au, pp_end = au_end au, pp_status = target\<rparr>"
  let ?code = "unique_period_code (branch_code (cr_setup cs) branch @ ''-'' @ compact_date (au_start au)) company branch ?ws"
  from assms obtain name setup_code w cs1 cs3 where w: "w = new_creation_row (pp_id ?p) user hash name setup_code au"
    and ins: "insert_period ?p ?code w cs = Inr cs1"
    and defs: "create_period_definition_rows env (pp_id ?p) company branch (au_start au)
      (with_db (create_period_day_rows (pp_id ?p) company (au_start au) (au_end au) (normal_days_off_mask (ev_schedule au))) cs1)
        = Inr cs3"
    and cs': "cs' = with_db (create_period_driver_eligibility_rows (env_boundary env) (pp_id ?p) company branch
                 now ''Generated'' (target = ''Open'') None None) cs3"
    and r: "rs_result r = ''CREATED''" "rs_period_id r = pp_id ?p" "rs_start r = au_start au" "rs_end r = au_end au"
      "rs_status r = target" "rs_code r = ?code"
    unfolding write_period_def Let_def by (auto elim!: bind_r_InrE split: option.splits)
  note ins = insert_periodE [OF ins]
  let ?cs2 = "with_db (create_period_day_rows (pp_id ?p) company (au_start au) (au_end au) (normal_days_off_mask (ev_schedule au))) cs1"
  have layout: "frozen_layout env (pp_id ?p) company branch (au_start au) ?cs2 =
      frozen_layout env (pp_id ?p) company branch (au_start au) cs"
    by (rule frozen_layout_cong) (use ins in simp_all)
  from defs obtain locked where cs3: "cs3 = (with_db (\<lambda>db. db\<lparr>period_definitions := period_definitions db @
        frozen_layout env (pp_id ?p) company branch (au_start au) cs\<rparr>) ?cs2)\<lparr>cr_locked := locked\<rparr>"
    and ready: "not_ready_codes (frozen_layout env (pp_id ?p) company branch (au_start au) cs) = []"
    by (rule create_definitionsE) (simp only: layout)
  have days: "period_days (create_period_day_rows i c s e m (db\<lparr>periods := ps\<rparr>)) =
      period_days (create_period_day_rows i c s e m db)" for i c s e m ps and db :: payroll_db
    by (simp add: create_period_day_rows_def)
  have "period_written env company user branch hash target au ?p w cs cs'"
    using ins ready days by (simp add: period_written_def Let_def w new_creation_row_def cs' cs3)
  moreover have "rs_code r = pc_code (ws_columns (cr_workflow cs') (pp_id ?p))"
    using ins(12) r(6) by (simp add: cs' cs3)
  ultimately show thesis using r by (intro that [of ?p w]) simp_all
qed

section \<open>Served creations\<close>

lemma created_from_None:
  "created_from company branch hash cs = None \<longleftrightarrow>
     \<not> (\<exists>p\<in>set (periods (ws_db (cr_workflow cs))). \<exists>w\<in>set (cr_rows cs). pp_company_id p = company \<and>
        pp_branch_id p = branch \<and> cw_period_id w = pp_id p \<and> cw_candidate_hash w = hash)"
  unfolding created_from_def find_first_None_iff by (auto split: if_splits)

lemma created_from_Some:
  assumes "created_from company branch hash cs = Some (p, w)"
  shows "p \<in> set (periods (ws_db (cr_workflow cs)))" "w \<in> set (cr_rows cs)" "pp_company_id p = company"
    "pp_branch_id p = branch" "cw_period_id w = pp_id p" "cw_candidate_hash w = hash"
  using find_first_SomeD [OF assms [unfolded created_from_def]] by (auto split: if_splits)

text \<open>The checks a creation has passed.\<close>

definition creation_checked ::
  "creation_env \<Rightarrow> int \<Rightarrow> int \<Rightarrow> candidate_payload \<Rightarrow> string \<Rightarrow> authority \<Rightarrow> creation_state \<Rightarrow> bool" where
  "creation_checked env company branch payload hash au cs \<longleftrightarrow>
     cp_mode payload \<in> set creation_modes \<and> cp_target_status payload = target_of_mode (cp_mode payload) \<and>
     created_from company branch hash cs = None \<and>
     (\<exists>prior. next_candidate_start company branch cs = Inr (au_start au, prior)) \<and>
     resolve_payroll_setup_version company branch (au_start au) (cr_setup cs) (cr_workflow cs) = Inr au \<and>
     cp_start payload = au_start au \<and> cp_end payload = au_end au"

lemma resolve_candidate_Inr:
  "resolve_candidate company branch start cs = Inr au \<longleftrightarrow>
   resolve_payroll_setup_version company branch start (cr_setup cs) (cr_workflow cs) = Inr au"
  by (simp add: resolve_candidate_def)

lemma create_periodE:
  assumes "create_period_from_candidate env now company user branch key cs = Inr (cs', r)"
  obtains (replay) payload hash p w where "decode_candidate_key env key = Inr (payload, hash)"
      "created_from company branch hash cs = Some (p, w)" "cs' = cs" "r = replayed branch (p, w) cs"
    | (created) payload hash au where "decode_candidate_key env key = Inr (payload, hash)"
      "creation_checked env company branch payload hash au cs"
      "write_period env now company user branch hash (cp_target_status payload) au cs = Inr (cs', r)"
proof -
  from assms obtain payload hash where key: "decode_candidate_key env key = Inr (payload, hash)"
    and claims: "candidate_claims company branch payload = Inr ()"
    unfolding create_period_from_candidate_def Let_def by (auto elim!: bind_r_InrE)
  show thesis
  proof (cases "created_from company branch hash cs")
    case (Some pw)
    obtain p w where pw: "pw = (p, w)" by (cases pw)
    from assms key Some pw have "cs' = cs" "r = replayed branch (p, w) cs"
      unfolding create_period_from_candidate_def Let_def by (auto elim!: bind_r_InrE split: if_splits)
    with key Some pw show thesis by (intro replay) simp_all
  next
    case None
    from assms key None obtain start prior au where start: "next_candidate_start company branch cs = Inr (start, prior)"
      and au: "resolve_candidate company branch start cs = Inr au"
      and current: "payload_current env payload company branch au cs"
      and wr: "write_period env now company user branch hash (cp_target_status payload) au cs = Inr (cs', r)"
      unfolding create_period_from_candidate_def Let_def by (auto elim!: bind_r_InrE)
    from au have au': "resolve_payroll_setup_version company branch start (cr_setup cs) (cr_workflow cs) = Inr au"
      by (simp only: resolve_candidate_Inr)
    note same = resolve_authorityD(3) [OF au']
    from claims have "cp_mode payload \<in> set creation_modes" "cp_target_status payload = target_of_mode (cp_mode payload)"
      unfolding candidate_claims_def by (auto elim!: bind_r_InrE)
    with None start au' current same have "creation_checked env company branch payload hash au cs"
      by (auto simp: creation_checked_def payload_current_def)
    with key wr show thesis by (intro created)
  qed
qed

text \<open>The next candidate starts where the Branch's calendar ends.\<close>

lemma next_start_after:
  assumes "next_candidate_start company branch cs = Inr (start, prior)"
    and "q \<in> set (branch_periods company branch (cr_workflow cs))"
  shows "pp_end q < start"
proof -
  have "max_of (map pp_end (branch_periods company branch (cr_workflow cs))) \<noteq> None" using assms(2) by auto
  then obtain m where m: "max_of (map pp_end (branch_periods company branch (cr_workflow cs))) = Some m"
    by (auto simp del: max_of_None)
  with assms(1) have "start = m + 1" by (simp add: next_candidate_start_def)
  with m assms(2) show ?thesis by (auto simp: max_of_Some)
qed

section \<open>The Branch calendar\<close>

text \<open>Two live periods of one Branch do not overlap.\<close>

definition no_overlap :: "period_row list \<Rightarrow> bool" where
  "no_overlap ps \<longleftrightarrow> (\<forall>p\<in>set ps. \<forall>q\<in>set ps. pp_id p \<noteq> pp_id q \<longrightarrow> branch_of_period p = branch_of_period q \<longrightarrow>
     pp_status p \<noteq> ''Cancelled'' \<longrightarrow> pp_status q \<noteq> ''Cancelled'' \<longrightarrow> pp_end p < pp_start q \<or> pp_end q < pp_start p)"

text \<open>A creation row belongs to a period, and no candidate made two periods of one Branch.\<close>

definition creations_ok :: "period_row list \<Rightarrow> creation_row list \<Rightarrow> bool" where
  "creations_ok ps ws \<longleftrightarrow> cw_period_id ` set ws \<subseteq> pp_id ` set ps \<and>
     (\<forall>v\<in>set ws. \<forall>w\<in>set ws. \<forall>p\<in>set ps. \<forall>q\<in>set ps. cw_candidate_hash v = cw_candidate_hash w \<longrightarrow>
        cw_period_id v = pp_id p \<longrightarrow> cw_period_id w = pp_id q \<longrightarrow> branch_of_period p = branch_of_period q \<longrightarrow>
        pp_id p = pp_id q)"

definition calendar_ok :: "creation_env \<Rightarrow> creation_state \<Rightarrow> bool" where
  "calendar_ok env cs \<longleftrightarrow> workflow_ok (env_digest env) (cr_workflow cs) \<and>
     no_overlap (periods (ws_db (cr_workflow cs))) \<and>
     creations_ok (periods (ws_db (cr_workflow cs))) (cr_rows cs)"

lemma creation_is_step:
  assumes "period_written env company user branch hash target au p w cs cs'" "target \<in> {''Open'', ''Draft''}"
  shows "workflow_step digest boundary (cr_workflow cs) (cr_workflow cs')"
proof (rule workflow_step.new_period [of p])
  show "pp_id p \<notin> pp_id ` set (periods (ws_db (cr_workflow cs)))"
    using assms(1) next_period_id_fresh by (fastforce simp: period_written_def Let_def)
qed (use assms in \<open>auto simp: period_written_def Let_def\<close>)

lemma creation_step_calendar:
  assumes ok: "calendar_ok env cs" and checked: "creation_checked env company branch payload hash au cs"
    and new: "period_written env company user branch hash target au p w cs cs'"
  shows "no_overlap (periods (ws_db (cr_workflow cs')))" "creations_ok (periods (ws_db (cr_workflow cs'))) (cr_rows cs')"
proof -
  let ?ps = "periods (ws_db (cr_workflow cs))"
  from new have ps: "periods (ws_db (cr_workflow cs')) = ?ps @ [p]" "cr_rows cs' = cr_rows cs @ [w]"
    and p: "pp_company_id p = company" "pp_branch_id p = branch" "pp_start p = au_start au" "pp_id p = next_period_id ?ps"
    and w: "cw_period_id w = pp_id p" "cw_candidate_hash w = hash"
    by (auto simp: period_written_def Let_def)
  have fresh: "pp_id q \<noteq> pp_id p" if "q \<in> set ?ps" for q using next_period_id_fresh [OF that] p(4) by simp
  have "pp_end q < pp_start p" if "q \<in> set ?ps" "branch_of_period q = branch_of_period p" "pp_status q \<noteq> ''Cancelled''" for q
    using checked that next_start_after [of company branch cs "au_start au" _ q]
    by (auto simp: creation_checked_def branch_periods_def branch_of_period_def p)
  then show "no_overlap (periods (ws_db (cr_workflow cs')))"
    using ok unfolding no_overlap_def ps calendar_ok_def by auto
  have rows: "cw_period_id v \<in> pp_id ` set ?ps" if "v \<in> set (cr_rows cs)" for v
    using ok that by (auto simp: calendar_ok_def creations_ok_def)
  have unused: "\<not> (cw_candidate_hash v = hash \<and> cw_period_id v = pp_id q \<and> branch_of_period q = branch_of_period p)"
    if "v \<in> set (cr_rows cs)" "q \<in> set ?ps" for v q
    using checked that by (auto simp: creation_checked_def created_from_None branch_of_period_def p)
  have old: "q \<in> set ?ps" if "v \<in> set (cr_rows cs)" "q \<in> insert p (set ?ps)" "cw_period_id v = pp_id q" for v q
    using rows [OF that(1)] that(2,3) by (auto dest: fresh)
  have is_new: "q = p" if "q \<in> insert p (set ?ps)" "pp_id p = pp_id q" for q
    using fresh that by fastforce
  have one: "pp_id q = pp_id r" if "v \<in> set (cr_rows cs)" "u \<in> set (cr_rows cs)" "q \<in> set ?ps" "r \<in> set ?ps"
      "cw_candidate_hash v = cw_candidate_hash u" "cw_period_id v = pp_id q" "cw_period_id u = pp_id r"
      "branch_of_period q = branch_of_period r" for v u q r
    using ok that unfolding calendar_ok_def creations_ok_def by blast
  have "pp_id q = pp_id r" if vu: "v \<in> insert w (set (cr_rows cs))" "u \<in> insert w (set (cr_rows cs))"
      and qr: "q \<in> insert p (set ?ps)" "r \<in> insert p (set ?ps)"
      and eq: "cw_candidate_hash v = cw_candidate_hash u" "cw_period_id v = pp_id q" "cw_period_id u = pp_id r"
        "branch_of_period q = branch_of_period r" for v u q r
  proof (cases "v = w"; cases "u = w")
    assume "v = w" "u \<noteq> w"
    with vu have "u \<in> set (cr_rows cs)" by simp
    from old [OF this qr(2) eq(3)] unused [OF this, of r] is_new [OF qr(1)] eq \<open>v = w\<close> w show ?thesis by auto
  next
    assume "v \<noteq> w" "u = w"
    with vu have "v \<in> set (cr_rows cs)" by simp
    from old [OF this qr(1) eq(2)] unused [OF this, of q] is_new [OF qr(2)] eq \<open>u = w\<close> w show ?thesis by auto
  next
    assume "v \<noteq> w" "u \<noteq> w"
    with vu have "v \<in> set (cr_rows cs)" "u \<in> set (cr_rows cs)" by simp_all
    with one [OF this old [OF this(1) qr(1) eq(2)] old [OF this(2) qr(2) eq(3)]] eq show ?thesis by blast
  qed (use eq in simp)
  moreover have "cw_period_id ` insert w (set (cr_rows cs)) \<subseteq> pp_id ` insert p (set ?ps)" using rows w(1) by auto
  ultimately show "creations_ok (periods (ws_db (cr_workflow cs'))) (cr_rows cs')"
    unfolding creations_ok_def ps by (simp only: set_append list.set Un_insert_right Un_empty_right) blast
qed

section \<open>Codes, days and layout\<close>

lemma free_code_least:
  "\<exists>k\<ge>n. free_code base used n = coded base k \<and> coded base k \<notin> set used \<and>
     (\<forall>j. n \<le> j \<longrightarrow> j < k \<longrightarrow> coded base j \<in> set used)"
proof (induction base used n rule: free_code.induct)
  case (1 base used n)
  show ?case
  proof (cases "coded base n \<in> set used")
    case True
    with 1 obtain k where k: "n + 1 \<le> k" "free_code base used (n + 1) = coded base k" "coded base k \<notin> set used"
      "\<forall>j. n + 1 \<le> j \<longrightarrow> j < k \<longrightarrow> coded base j \<in> set used" by blast
    have "\<forall>j. n \<le> j \<longrightarrow> j < k \<longrightarrow> coded base j \<in> set used"
      using k(4) True by (metis Suc_eq_plus1 le_neq_implies_less less_eq_Suc_le)
    with k True show ?thesis by (intro exI [of _ k]) (simp add: free_code.simps [of base used n])
  next
    case False
    then show ?thesis by (intro exI [of _ n]) (simp add: free_code.simps)
  qed
qed

lemma insert_days_append:
  assumes "distinct (map pday_work_date new)" "\<forall>x\<in>set new. pday_period_id x = i" "\<forall>x\<in>set rows. pday_period_id x \<noteq> i"
  shows "foldl insert_day rows new = rows @ new"
proof -
  have "foldl insert_day (rows @ old) todo = rows @ old @ todo"
    if "new = old @ todo" for old todo
    using that
  proof (induction todo arbitrary: old)
    case (Cons x todo)
    have "insert_day (rows @ old) x = (rows @ old) @ [x]"
      using assms Cons.prems by (auto simp: insert_day_def) (metis imageI)
    with Cons.IH [of "old @ [x]"] Cons.prems show ?case by simp
  qed simp
  from this [of "[]" new] show ?thesis by simp
qed

lemma new_day_rows:
  assumes "\<forall>x\<in>set (period_days db). pday_period_id x \<noteq> i"
  shows "period_days (create_period_day_rows i company start stop off_mask db) = period_days db @
    map (\<lambda>d. \<lparr>pday_period_id = i, pday_company_id = company, pday_work_date = d,
      pday_is_default = \<not> bit off_mask (nat (d mod 7)), pday_is_added = False\<rparr>) [start..stop]"
proof -
  have dow: "(weekday d + 1) mod 7 = d mod 7" for d unfolding weekday_def by presburger
  show ?thesis
    unfolding create_period_day_rows_def generate_period_day_rows_def
    by (simp add: insert_days_append [OF _ _ assms] Let_def comp_def dow)
qed

end
