(* ===== verification/Creation_Runs.thy ===== *)
theory Creation_Runs
  imports Creation_Facts
begin

text \<open>
  Runs with creation: the requests of the workflow on existing periods, the confirmations of
  candidates and edits of the other tables.  Reachable states keep the Branch calendars free of
  overlaps, and a candidate is consumed once.
\<close>

inductive creation_step :: "creation_env \<Rightarrow> creation_state \<Rightarrow> creation_state \<Rightarrow> bool" for env where
  request: "workflow_step (env_digest env) (env_boundary env) (cr_workflow cs) (cr_workflow cs') \<Longrightarrow>
    map pp_id (periods (ws_db (cr_workflow cs'))) = map pp_id (periods (ws_db (cr_workflow cs))) \<Longrightarrow>
    cr_rows cs' = cr_rows cs \<Longrightarrow> creation_step env cs cs'"
| create: "create_period_from_candidate env now company user branch key cs = Inr (cs', r) \<Longrightarrow>
    creation_step env cs cs'"

inductive creation_run :: "creation_env \<Rightarrow> creation_state \<Rightarrow> creation_state \<Rightarrow> bool" for env where
  stop: "creation_run env cs cs"
| go: "creation_run env cs cs1 \<Longrightarrow> creation_step env cs1 cs2 \<Longrightarrow> creation_run env cs cs2"

section \<open>Requests keep the calendar\<close>

inductive_cases edge_from_cancelled: "lifecycle_edge ''Cancelled'' s"

lemma cancelled_stays: "lifecycle_edge\<^sup>*\<^sup>* ''Cancelled'' s \<Longrightarrow> s = ''Cancelled''"
  by (erule converse_rtranclpE) (auto elim: edge_from_cancelled)

text \<open>Without creation, the periods after a step are the periods before it, further along.\<close>

lemma follows_back:
  assumes "follows_lifecycle ps ps'" "map pp_id ps' = map pp_id ps" "distinct (map pp_id ps)" "p' \<in> set ps'"
  obtains p s where "p \<in> set ps" "lifecycle_edge\<^sup>*\<^sup>* (pp_status p) s" "p' = p\<lparr>pp_status := s\<rparr>"
proof -
  from assms(4) have "pp_id p' \<in> set (map pp_id ps')" by simp
  then have "pp_id p' \<in> set (map pp_id ps)" by (simp only: assms(2))
  then obtain p where p: "p \<in> set ps" "pp_id p = pp_id p'" by auto
  with assms(1) obtain s where s: "lifecycle_edge\<^sup>*\<^sup>* (pp_status p) s" "p\<lparr>pp_status := s\<rparr> \<in> set ps'"
    by (auto simp: follows_lifecycle_def)
  have "distinct (map pp_id ps')" by (simp only: assms(2,3))
  moreover have "pp_id (p\<lparr>pp_status := s\<rparr>) = pp_id p'" using p(2) by simp
  ultimately have "p' = p\<lparr>pp_status := s\<rparr>" using s(2) assms(4) unfolding distinct_map by (blast dest: inj_onD)
  with p(1) s(1) show thesis by (rule that)
qed

lemma no_overlap_follows:
  assumes "no_overlap ps" "follows_lifecycle ps ps'" "map pp_id ps' = map pp_id ps" "distinct (map pp_id ps)"
  shows "no_overlap ps'"
  unfolding no_overlap_def
proof (intro ballI impI)
  fix p' q'
  assume mem: "p' \<in> set ps'" "q' \<in> set ps'" and differ: "pp_id p' \<noteq> pp_id q'"
    and branch: "branch_of_period p' = branch_of_period q'"
    and live: "pp_status p' \<noteq> ''Cancelled''" "pp_status q' \<noteq> ''Cancelled''"
  from follows_back [OF assms(2-4) mem(1)] obtain p s where
    p: "p \<in> set ps" "lifecycle_edge\<^sup>*\<^sup>* (pp_status p) s" "p' = p\<lparr>pp_status := s\<rparr>" .
  from follows_back [OF assms(2-4) mem(2)] obtain q t where
    q: "q \<in> set ps" "lifecycle_edge\<^sup>*\<^sup>* (pp_status q) t" "q' = q\<lparr>pp_status := t\<rparr>" .
  have "pp_status p \<noteq> ''Cancelled''" "pp_status q \<noteq> ''Cancelled''"
    using live p(2,3) q(2,3) cancelled_stays by auto
  then have "pp_end p < pp_start q \<or> pp_end q < pp_start p"
    using assms(1) p(1,3) q(1,3) differ branch unfolding no_overlap_def by (simp add: branch_of_period_def)
  then show "pp_end p' < pp_start q' \<or> pp_end q' < pp_start p'" by (simp add: p(3) q(3))
qed

lemma creations_ok_follows:
  assumes "creations_ok ps ws" "follows_lifecycle ps ps'" "map pp_id ps' = map pp_id ps" "distinct (map pp_id ps)"
  shows "creations_ok ps' ws"
proof -
  have "pp_id ` set ps' = pp_id ` set ps" using assms(3) by (metis set_map)
  moreover have "pp_id p' = pp_id q'"
    if "v \<in> set ws" "w \<in> set ws" "p' \<in> set ps'" "q' \<in> set ps'" "cw_candidate_hash v = cw_candidate_hash w"
      "cw_period_id v = pp_id p'" "cw_period_id w = pp_id q'" "branch_of_period p' = branch_of_period q'" for v w p' q'
  proof -
    from follows_back [OF assms(2-4) that(3)] obtain p s where p: "p \<in> set ps" "p' = p\<lparr>pp_status := s\<rparr>" by metis
    from follows_back [OF assms(2-4) that(4)] obtain q t where q: "q \<in> set ps" "q' = q\<lparr>pp_status := t\<rparr>" by metis
    have "pp_id p = pp_id q"
      using assms(1) that(1,2,5-8) p q unfolding creations_ok_def by (simp add: branch_of_period_def)
    then show ?thesis by (simp add: p(2) q(2))
  qed
  ultimately show ?thesis using assms(1) unfolding creations_ok_def by simp
qed

section \<open>Reachable states\<close>

lemma created_target:
  assumes "creation_checked env company branch payload hash au cs"
  shows "cp_target_status payload \<in> {''Open'', ''Draft''}"
  using assms by (simp add: creation_checked_def target_of_mode_def)

text \<open>A creation that makes a period, with its effect.\<close>

lemma create_cases:
  assumes "create_period_from_candidate env now company user branch key cs = Inr (cs', r)"
  obtains (replay) payload hash p w where "decode_candidate_key env key = Inr (payload, hash)"
      "created_from company branch hash cs = Some (p, w)" "cs' = cs" "r = replayed branch (p, w) cs"
      "rs_result r = ''ALREADY_EXISTS''"
    | (created) payload hash au p w where "decode_candidate_key env key = Inr (payload, hash)"
      "creation_checked env company branch payload hash au cs"
      "period_written env company user branch hash (cp_target_status payload) au p w cs cs'"
      "rs_result r = ''CREATED''" "rs_period_id r = pp_id p" "rs_start r = pp_start p" "rs_end r = pp_end p"
      "rs_status r = cp_target_status payload" "rs_code r = pc_code (ws_columns (cr_workflow cs') (pp_id p))"
  using assms
proof (cases rule: create_periodE)
  case (replay payload hash p w)
  then show thesis by (intro that(1)) (simp_all add: replayed_def Let_def)
next
  case (created payload hash au)
  from created(3) show thesis by (rule write_periodE) (rule that(2) [OF created(1,2)])
qed

lemma creation_step_ok:
  assumes "creation_step env cs cs'" "calendar_ok env cs"
  shows "calendar_ok env cs'"
  using assms(1)
proof cases
  case request
  from assms(2) have ok: "workflow_ok (env_digest env) (cr_workflow cs)" by (simp add: calendar_ok_def)
  note follows = workflow_step_follows [OF request(1) ok] request(2) workflow_okD(2) [OF ok]
  show ?thesis
    using workflow_step_ok [OF request(1) ok] no_overlap_follows [OF _ follows] creations_ok_follows [OF _ follows]
      assms(2) by (simp add: calendar_ok_def request(3))
next
  case (create now company user branch key r)
  from create show ?thesis
  proof (cases rule: create_cases)
    case replay
    then show ?thesis using assms(2) by simp
  next
    case (created payload hash au p w)
    from creation_is_step [OF created(3) created_target [OF created(2)], of "env_digest env" "env_boundary env"]
    have "workflow_ok (env_digest env) (cr_workflow cs')"
      by (rule workflow_step_ok) (use assms(2) in \<open>simp add: calendar_ok_def\<close>)
    with creation_step_calendar [OF assms(2) created(2,3)] show ?thesis by (simp add: calendar_ok_def)
  qed
qed

lemma creation_run_ok: "creation_run env cs cs' \<Longrightarrow> calendar_ok env cs \<Longrightarrow> calendar_ok env cs'"
  by (induction rule: creation_run.induct) (auto intro: creation_step_ok)

section \<open>A candidate is consumed\<close>

text \<open>A period of the Branch has been created from the candidate.\<close>

definition consumed :: "int \<Rightarrow> int \<Rightarrow> string \<Rightarrow> int \<Rightarrow> creation_state \<Rightarrow> bool" where
  "consumed company branch hash i cs \<longleftrightarrow>
     (\<exists>p\<in>set (periods (ws_db (cr_workflow cs))). \<exists>w\<in>set (cr_rows cs). pp_id p = i \<and> cw_period_id w = i \<and>
        cw_candidate_hash w = hash \<and> pp_company_id p = company \<and> pp_branch_id p = branch)"

lemma creation_step_consumed:
  assumes "creation_step env cs cs'" "calendar_ok env cs" "consumed company branch hash i cs"
  shows "consumed company branch hash i cs'"
  using assms(1)
proof cases
  case request
  from assms(2) have ok: "workflow_ok (env_digest env) (cr_workflow cs)" by (simp add: calendar_ok_def)
  from assms(3) obtain p w where p: "p \<in> set (periods (ws_db (cr_workflow cs)))" "w \<in> set (cr_rows cs)" "pp_id p = i"
    "cw_period_id w = i" "cw_candidate_hash w = hash" "pp_company_id p = company" "pp_branch_id p = branch"
    by (auto simp: consumed_def)
  with workflow_step_follows [OF request(1) ok] obtain s where
    "p\<lparr>pp_status := s\<rparr> \<in> set (periods (ws_db (cr_workflow cs')))" by (auto simp: follows_lifecycle_def)
  with p(2-7) show ?thesis unfolding consumed_def by (intro bexI [of _ "p\<lparr>pp_status := s\<rparr>"] bexI [of _ w]) (simp_all add: request(3))
next
  case (create now company' user branch' key r)
  from create show ?thesis
  proof (cases rule: create_cases)
    case replay
    then show ?thesis using assms(3) by simp
  next
    case (created payload hash' au p w)
    then show ?thesis using assms(3) by (auto simp: consumed_def period_written_def Let_def)
  qed
qed

lemma creation_run_consumed:
  "creation_run env cs cs' \<Longrightarrow> calendar_ok env cs \<Longrightarrow> consumed company branch hash i cs \<Longrightarrow>
   consumed company branch hash i cs'"
proof (induction rule: creation_run.induct)
  case (go cs cs1 cs2)
  then show ?case using creation_step_consumed creation_run_ok by blast
qed

lemma create_consumes:
  assumes "create_period_from_candidate env now company user branch key cs = Inr (cs', r)"
    and "decode_candidate_key env key = Inr (payload, hash)"
  shows "consumed company branch hash (rs_period_id r) cs'"
  using assms(1)
proof (cases rule: create_cases)
  case (replay payload' hash' p w)
  with assms(2) created_from_Some [OF replay(2)] show ?thesis
    by (auto simp: consumed_def replayed_def Let_def)
next
  case (created payload' hash' au p w)
  with assms(2) show ?thesis by (auto simp: consumed_def period_written_def Let_def)
qed

lemma consumed_replays:
  assumes "create_period_from_candidate env now company user branch key cs = Inr (cs', r)" "calendar_ok env cs"
    and "decode_candidate_key env key = Inr (payload, hash)" "consumed company branch hash i cs"
  shows "cs' = cs \<and> rs_result r = ''ALREADY_EXISTS'' \<and> rs_period_id r = i"
  using assms(1)
proof (cases rule: create_cases)
  case (replay payload' hash' p w)
  with assms(3) have "created_from company branch hash cs = Some (p, w)" by simp
  note found = created_from_Some [OF this]
  from assms(4) obtain q v where "q \<in> set (periods (ws_db (cr_workflow cs)))" "v \<in> set (cr_rows cs)" "pp_id q = i"
    "cw_period_id v = i" "cw_candidate_hash v = hash" "branch_of_period q = (company, branch)"
    by (auto simp: consumed_def branch_of_period_def)
  with found assms(2) have "pp_id p = i" unfolding calendar_ok_def creations_ok_def by (metis branch_of_period_def)
  with replay show ?thesis by (simp add: replayed_def Let_def)
next
  case (created payload' hash' au p w)
  with assms(3,4) show ?thesis by (auto simp: creation_checked_def created_from_None consumed_def)
qed

end
