(* ===== verification/Creation_Progress.thy ===== *)
theory Creation_Progress
  imports Creation_Runs
begin

text \<open>
  A candidate that the preview calls creatable is accepted by the confirmation: the key it carries
  decodes to the payload, the authority is resolved again to the same version, the slot is free
  and the dates lie after every live period of the Branch.
\<close>

section \<open>Keys\<close>

lemma rsplit_dot_append: "CHR ''.'' \<notin> set sig \<Longrightarrow> rsplit_dot (b @ ''.'' @ sig) = Some (b, sig)"
proof -
  assume "CHR ''.'' \<notin> set sig"
  then have "takeWhile (\<lambda>c. c \<noteq> CHR ''.'') (rev sig @ CHR ''.'' # rev b) = rev sig"
    "dropWhile (\<lambda>c. c \<noteq> CHR ''.'') (rev sig @ CHR ''.'' # rev b) = CHR ''.'' # rev b"
    by (auto simp: takeWhile_append dropWhile_append)
  then show ?thesis by (simp add: rsplit_dot_def)
qed

text \<open>What the code relies on: base64 of JSON reads back, and a hexadecimal signature has no dot.\<close>

definition keys_readable :: "creation_env \<Rightarrow> bool" where
  "keys_readable env \<longleftrightarrow> (\<forall>payload. env_decode env (env_encode env payload) = Some payload) \<and>
     (\<forall>b. CHR ''.'' \<notin> set (env_hmac env b))"

lemma key_round_trip:
  assumes "keys_readable env" "cp_ver payload = cp1c_version" "cp_purpose payload = cp1c_purpose"
  shows "decode_candidate_key env (fst (make_candidate_key env payload)) =
    Inr (payload, snd (make_candidate_key env payload))"
  using assms by (simp add: decode_candidate_key_def make_candidate_key_def Let_def keys_readable_def
      rsplit_dot_append [of "env_hmac env (env_encode env payload)" "env_encode env payload", simplified])

section \<open>A free slot\<close>

lemma free_slot:
  assumes ok: "workflow_ok digest ws" and mode: "mode \<in> set creation_modes"
    and matrix: "check_slot_matrix mode (latest_first (branch_periods company branch ws)) = Inr (True, e)"
    and p: "pp_company_id p = company" "pp_branch_id p = branch" "pp_status p = target_of_mode mode"
  shows "slot_unique (target_of_mode mode) (periods (ws_db ws) @ [p])"
proof -
  let ?t = "target_of_mode mode"
  have t: "?t \<in> set slot_statuses" "?t \<noteq> ''Cancelled''" by (auto simp: target_of_mode_def slot_statuses_def)
  have old: "slot_unique ?t (periods (ws_db ws))"
    using tables_okD(2) [OF workflow_okD(1) [OF ok]] t(1) by (simp add: slots_unique_def)
  have "filter (\<lambda>q. pp_status q = ?t) (latest_first (branch_periods company branch ws)) = []"
    using matrix mode by (auto simp: check_slot_matrix_def Let_def target_of_mode_def creation_modes_def filter_empty_conv split: if_splits)
  then have "\<not> (\<exists>q\<in>set (periods (ws_db ws)). branch_of_period q = branch_of_period p \<and> pp_status q = ?t)"
    using t(2) p by (auto simp: filter_empty_conv latest_first_def branch_periods_def branch_of_period_def)
  with old p(3) show ?thesis by (auto simp: slot_unique_def)
qed

section \<open>Writing succeeds\<close>

lemma layout_member:
  assumes "row \<in> set (layout_rows env i company branch start cs)"
  obtains k f r g where "(f, r, g) \<in> set (layout_sources env company branch start cs)"
    "row = layout_row cs i company branch k (f, r, g)"
proof -
  from assms obtain k x where "(k, x) \<in> set (enumerate 0 (layout_sources env company branch start cs))"
    "row = layout_row cs i company branch k x" by (auto simp: layout_rows_def)
  with that show thesis by (cases x) (auto simp: in_set_enumerate_eq dest: nth_mem)
qed

lemma layout_source_iff:
  "(f, r, g) \<in> set (layout_sources env company branch start cs) \<longleftrightarrow>
     f \<in> set (cr_definitions cs) \<and> r \<in> set (rate_definitions (ws_db (cr_workflow cs))) \<and> g \<in> set (cr_configs cs) \<and>
     active_definition company f r \<and> config_applies company branch start f g"
  by (auto simp: layout_sources_def split: if_splits)

lemma layout_subset:
  "ppd_rate_definition_id ` set (layout_rows env i company branch start cs)
    \<subseteq> set (candidate_definition_ids company branch start cs)"
proof
  fix x assume "x \<in> ppd_rate_definition_id ` set (layout_rows env i company branch start cs)"
  then obtain row where "row \<in> set (layout_rows env i company branch start cs)" "x = ppd_rate_definition_id row" by auto
  then obtain k f r g where "(f, r, g) \<in> set (layout_sources env company branch start cs)"
    "x = rate_definition_row.rd_id r" by (elim layout_member) (simp add: layout_row_def)
  then show "x \<in> set (candidate_definition_ids company branch start cs)"
    unfolding layout_source_iff candidate_definition_ids_def by (auto intro!: exI [of _ f] bexI [of _ r] bexI [of _ f])
qed

lemma layout_rows_nth:
  "length (layout_rows env i company branch start cs) = length (layout_sources env company branch start cs)"
  "k < length (layout_sources env company branch start cs) \<Longrightarrow> layout_rows env i company branch start cs ! k =
    layout_row cs i company branch k (layout_sources env company branch start cs ! k)"
  by (simp_all add: layout_rows_def nth_enumerate_eq)

lemma layout_member_intro:
  assumes "x \<in> set (layout_sources env company branch start cs)"
  shows "\<exists>k. layout_row cs i company branch k x \<in> set (layout_rows env i company branch start cs)"
proof -
  from assms obtain k where k: "k < length (layout_sources env company branch start cs)"
    "layout_sources env company branch start cs ! k = x" unfolding in_set_conv_nth by blast
  have "layout_rows env i company branch start cs ! k \<in> set (layout_rows env i company branch start cs)"
    by (rule nth_mem) (simp add: layout_rows_nth(1) k(1))
  then show ?thesis unfolding layout_rows_nth(2) [OF k(1)] k(2) by blast
qed

lemma candidate_ids_empty:
  "candidate_definition_ids company branch start cs = [] \<longleftrightarrow> layout_sources env company branch start cs = []"
proof -
  have "set (candidate_definition_ids company branch start cs) =
      {rate_definition_row.rd_id x | f x g. (f, x, g) \<in> set (layout_sources env company branch start cs)}"
    unfolding layout_source_iff by (auto simp: candidate_definition_ids_def split: if_splits)
  then have "set (candidate_definition_ids company branch start cs) = {} \<longleftrightarrow>
      (\<forall>f x g. (f, x, g) \<notin> set (layout_sources env company branch start cs))" by auto
  also have "\<dots> \<longleftrightarrow> layout_sources env company branch start cs = []"
    by (cases "layout_sources env company branch start cs") auto
  finally show ?thesis by simp
qed

text \<open>
  The keys of the three tables a layout joins: the primary key of a pay definition, the unique index of
  its rate definition and the exclusion constraint on the versions of a Branch configuration.
\<close>

definition configs_apart :: "branch_config \<Rightarrow> branch_config \<Rightarrow> bool" where
  "configs_apart g h \<longleftrightarrow> bg_branch_id g = bg_branch_id h \<longrightarrow> bg_pay_definition_id g = bg_pay_definition_id h \<longrightarrow>
     (case bg_to g of None \<Rightarrow> False | Some e \<Rightarrow> e < bg_from h) \<or> (case bg_to h of None \<Rightarrow> False | Some e \<Rightarrow> e < bg_from g)"

definition layout_keys :: "creation_state \<Rightarrow> bool" where
  "layout_keys cs \<longleftrightarrow> distinct (map pf_id (cr_definitions cs)) \<and>
     sorted_wrt (\<lambda>r s. rd_pay_definition_id r \<noteq> None \<longrightarrow> rd_pay_definition_id r \<noteq> rd_pay_definition_id s)
       (rate_definitions (ws_db (cr_workflow cs))) \<and>
     sorted_wrt configs_apart (cr_configs cs)"

lemma concat_at_most_one:
  assumes "sorted_wrt (\<lambda>x y. h x = [] \<or> h y = []) xs" "\<And>x. x \<in> set xs \<Longrightarrow> length (h x) \<le> 1"
  shows "length (concat (map h xs)) \<le> 1"
  using assms
proof (induction xs)
  case (Cons x xs)
  show ?case
  proof (cases "h x = []")
    case False
    with Cons.prems(1) have "concat (map h xs) = []" by auto
    then have "concat (map h (x # xs)) = h x" by simp
    then show ?thesis using Cons.prems(2) [of x] by (simp only: list.set_intros)
  qed (use Cons in simp)
qed simp

lemma concat_distinct:
  assumes "distinct (map k xs)" "\<And>x. x \<in> set xs \<Longrightarrow> length (h x) \<le> 1"
    and "\<And>x y. x \<in> set xs \<Longrightarrow> y \<in> set (h x) \<Longrightarrow> key y = k x"
  shows "distinct (map key (concat (map h xs)))"
  using assms
proof (induction xs)
  case (Cons x xs)
  from Cons.prems(2) [of x] have "distinct (map key (h x))" by (cases "h x") auto
  moreover have "key ` set (h x) \<inter> key ` set (concat (map h xs)) = {}"
    using Cons.prems(1,3) by (fastforce simp: image_iff)
  ultimately show ?case using Cons by (simp add: image_Int_subset)
qed simp

lemma layout_sources_distinct:
  assumes "layout_keys cs"
  shows "distinct (map (pf_id \<circ> fst) (layout_sources env company branch start cs))"
proof -
  let ?R = "rate_definitions (ws_db (cr_workflow cs))"
  define one where "one = (\<lambda>f r g. if active_definition company f r \<and> config_applies company branch start f g then [(f, r, g)] else [])"
  define of_rate where "of_rate = (\<lambda>f r. concat (map (one f r) (cr_configs cs)))"
  define of_definition where "of_definition = (\<lambda>f. concat (map (of_rate f) ?R))"
  have mem: "y \<in> set (one f r g) \<longleftrightarrow> y = (f, r, g) \<and> active_definition company f r \<and> config_applies company branch start f g" for y f r g
    by (simp add: one_def)
  have rate: "length (of_rate f r) \<le> 1" for f r
    unfolding of_rate_def
  proof (rule concat_at_most_one)
    have "sorted_wrt configs_apart (cr_configs cs)" using assms by (simp add: layout_keys_def)
    then show "sorted_wrt (\<lambda>g h. one f r g = [] \<or> one f r h = []) (cr_configs cs)"
      by (rule sorted_wrt_mono_rel [rotated]) (auto simp: one_def config_applies_def configs_apart_def split: option.splits)
  qed (simp add: one_def)
  have empty: "of_rate f r = []" if "\<not> active_definition company f r" for f r
    using that by (simp add: of_rate_def one_def)
  have "length (of_definition f) \<le> 1" for f
    unfolding of_definition_def
  proof (rule concat_at_most_one [OF _ rate])
    have "sorted_wrt (\<lambda>r s. rd_pay_definition_id r \<noteq> None \<longrightarrow> rd_pay_definition_id r \<noteq> rd_pay_definition_id s) ?R"
      using assms by (simp add: layout_keys_def)
    then show "sorted_wrt (\<lambda>r s. of_rate f r = [] \<or> of_rate f s = []) ?R"
      by (rule sorted_wrt_mono_rel [rotated]) (metis active_definition_def empty option.distinct(1))
  qed
  then have "distinct (map (pf_id \<circ> fst) (concat (map of_definition (cr_definitions cs))))"
    using assms by (intro concat_distinct [where k = pf_id])
      (auto simp: layout_keys_def of_definition_def of_rate_def mem)
  moreover have "mset (map (pf_id \<circ> fst) (layout_sources env company branch start cs)) =
      mset (map (pf_id \<circ> fst) (concat (map of_definition (cr_definitions cs))))"
    by (simp add: layout_sources_def of_definition_def of_rate_def one_def)
  ultimately show ?thesis using mset_eq_imp_distinct_iff by blast
qed

lemma layout_sources_sorted:
  "sorted (map (\<lambda>(f, x, g). (env_lower_key env (pf_name f), env_text_key env (pf_code f), pf_id f))
     (layout_sources env company branch start cs))"
  by (simp add: layout_sources_def)

lemma frozen_layout_rows:
  "frozen_layout env i company branch start cs = layout_rows env i company branch start cs"
  using candidate_ids_empty [of company branch start cs env] by (auto simp: frozen_layout_def layout_rows_def)

lemma frozen_layout_facts:
  "map ppd_sort_order (frozen_layout env i company branch start cs) = map int [0..<length (frozen_layout env i company branch start cs)]"
  "list_all2 (\<lambda>s row. \<exists>k. row = layout_row cs i company branch k s) (layout_sources env company branch start cs)
     (frozen_layout env i company branch start cs)"
  unfolding frozen_layout_rows
  by (rule nth_equalityI) (auto simp: layout_rows_nth layout_row_def list_all2_conv_all_nth split: prod.splits)

lemma ready_layout:
  assumes "not_ready_codes rows = []" "row \<in> set rows" "ppd_is_active row"
  shows "is_method_operational (ppd_calculation_method row) (ppd_calculation_method_version row)"
  using arg_cong [OF assms(1), of set] assms(2,3) by (auto simp: not_ready_codes_def split: if_splits)

lemma authority_setup:
  assumes "resolve_payroll_setup_version company branch start t ws = Inr au"
  obtains su where "find_first (\<lambda>s. ps_id s = ev_setup_id au \<and> ps_company_id s = company) (payroll_setups t) = Some su"
proof -
  from resolve_authorityD(7) [OF assms] obtain ev where
    "resolve_effective_setup_version company branch start t = Inr ev" "effective_version.truncate au = ev" by blast
  then have "find_first (\<lambda>s. ps_id s = ev_setup_id au \<and> ps_company_id s = company) (payroll_setups t) \<noteq> None"
    unfolding resolve_effective_setup_version_def
    by (auto simp: effective_version.defs map_r_Inr_iff elim!: bind_r_InrE split: list.splits)
  with that show thesis by auto
qed

lemma write_succeeds:
  assumes au: "resolve_payroll_setup_version company branch start (cr_setup cs) (cr_workflow cs) = Inr au"
    and slot: "\<And>p. pp_company_id p = company \<Longrightarrow> pp_branch_id p = branch \<Longrightarrow> pp_status p = target \<Longrightarrow>
      slot_unique target (periods (ws_db (cr_workflow cs)) @ [p])"
    and ready: "not_ready_codes (frozen_layout env (next_period_id (periods (ws_db (cr_workflow cs)))) company branch (au_start au) cs) = []"
  obtains cs' r where "write_period env now company user branch hash target au cs = Inr (cs', r)"
proof -
  let ?i = "next_period_id (periods (ws_db (cr_workflow cs)))"
  let ?p = "\<lparr>pp_id = ?i, pp_company_id = company, pp_branch_id = branch, pp_start = au_start au, pp_end = au_end au,
    pp_status = target\<rparr>"
  obtain su where su: "find_first (\<lambda>s. ps_id s = ev_setup_id au \<and> ps_company_id s = company)
      (payroll_setups (cr_setup cs)) = Some su" by (rule authority_setup [OF au])
  have "\<exists>cs1. insert_period ?p code w cs = Inr cs1" for code w
    using slot [of ?p] by (simp add: insert_period_def Let_def)
  moreover have "\<exists>cs3. create_period_definition_rows env ?i company branch (au_start au)
      (with_db (create_period_day_rows ?i company (au_start au) (au_end au) m) cs1) = Inr cs3"
    if "insert_period ?p code w cs = Inr cs1" for code w m cs1
  proof -
    note ins = insert_periodE [OF that]
    let ?cs2 = "with_db (create_period_day_rows ?i company (au_start au) (au_end au) m) cs1"
    have "layout_rows env ?i company branch (au_start au) ?cs2 = layout_rows env ?i company branch (au_start au) cs"
      "candidate_definition_ids company branch (au_start au) ?cs2 = candidate_definition_ids company branch (au_start au) cs"
      by (rule layout_cong; use ins in simp)+
    then show ?thesis
      using ready layout_subset [of env ?i company branch "au_start au" cs]
      by (auto simp: create_period_definition_rows_def Let_def frozen_layout_def split: if_splits)
  qed
  ultimately show thesis
    using that su by (fastforce simp: write_period_def Let_def bind_r_Inr_iff)
qed

section \<open>From preview to confirmation\<close>

lemma preview_creatableE:
  assumes "get_period_candidates env company user branch mode cursor cs = Inr pv" "pv_creatable pv"
  obtains payload au start prior e where "creation_gates company user branch (cr_workflow cs) = Inr ()"
    "mode \<in> set creation_modes" "branch_active company branch cs = Inr ()"
    "check_slot_matrix mode (latest_first (branch_periods company branch (cr_workflow cs))) = Inr (True, e)"
    "next_candidate_start company branch cs = Inr (start, prior)"
    "candidate_payload_of env company branch mode start 0 cs = Inr (payload, au)"
    "pv_key pv = fst (make_candidate_key env payload)" "pv_start pv = au_start au" "pv_end pv = au_end au"
    "pv_target_status pv = target_of_mode mode"
  using assms unfolding get_period_candidates_def Let_def by (auto elim!: bind_r_InrE)

lemma candidate_payloadD:
  assumes "candidate_payload_of env company branch mode start 0 cs = Inr (payload, au)"
  shows "resolve_candidate company branch start cs = Inr au"
    and "cp_ver payload = cp1c_version" "cp_purpose payload = cp1c_purpose" "cp_mode payload = mode"
      "cp_target_status payload = target_of_mode mode"
      "cp_slot_fp payload = slot_fingerprint (latest_first (branch_periods company branch (cr_workflow cs)))"
    and "mode \<in> set creation_modes \<Longrightarrow> candidate_claims company branch payload = Inr ()"
    and "payload_current env payload company branch au cs"
proof -
  from assms obtain x where x: "resolve_candidate company branch start cs = Inr x"
    and eq: "(case timeline_fingerprints env company branch (ev_setup_id x) (cr_setup cs) of (a, b) \<Rightarrow>
      (\<lparr>cp_ver = cp1c_version, cp_purpose = cp1c_purpose, cp_cid = company, cp_bid = branch,
        cp_mode = mode, cp_target_status = target_of_mode mode, cp_assignment_id = ev_assignment_id x,
        cp_setup_id = ev_setup_id x, cp_version_id = ev_version_id x, cp_config_hash = ev_config_hash x,
        cp_setup_timeline = a, cp_branch_timeline = b, cp_start = au_start x, cp_end = au_end x,
        cp_slot_fp = slot_fingerprint (latest_first (branch_periods company branch (cr_workflow cs))),
        cp_pred_id = (case latest_first (branch_periods company branch (cr_workflow cs)) of [] \<Rightarrow> None | p # _ \<Rightarrow> Some (pp_id p)),
        cp_offset = 0\<rparr>, x)) = (payload, au)"
    unfolding candidate_payload_of_def Let_def map_r_Inr_iff by (auto simp del: split_paired_Ex)
  obtain a b where ab: "timeline_fingerprints env company branch (ev_setup_id x) (cr_setup cs) = (a, b)"
    by (rule prod.exhaust)
  note eq = eq [unfolded ab prod.case prod.inject, THEN conjunct1, symmetric] eq [unfolded ab prod.case prod.inject, THEN conjunct2]
  show "resolve_candidate company branch start cs = Inr au" using x eq(2) by simp
  show "cp_ver payload = cp1c_version" "cp_purpose payload = cp1c_purpose" "cp_mode payload = mode"
      "cp_target_status payload = target_of_mode mode"
      "cp_slot_fp payload = slot_fingerprint (latest_first (branch_periods company branch (cr_workflow cs)))"
    by (simp_all add: eq(1))
  show "mode \<in> set creation_modes \<Longrightarrow> candidate_claims company branch payload = Inr ()"
    by (simp add: candidate_claims_def eq(1) guard_r_def)
  show "payload_current env payload company branch au cs"
    using ab by (simp add: payload_current_def eq(1) flip: eq(2))
qed

lemma previewed_candidate_accepted:
  assumes preview: "get_period_candidates env company user branch mode cursor cs = Inr pv" "pv_creatable pv"
    and ok: "workflow_ok digest (cr_workflow cs)" and keys: "keys_readable env"
    and fresh: "\<And>b sig. rsplit_dot (pv_key pv) = Some (b, sig) \<Longrightarrow> sig \<notin> cw_candidate_hash ` set (cr_rows cs)"
    and ready: "not_ready_codes (frozen_layout env (next_period_id (periods (ws_db (cr_workflow cs)))) company branch
      (pv_start pv) cs) = []"
  obtains cs' r where "create_period_from_candidate env now company user branch (pv_key pv) cs = Inr (cs', r)"
    "rs_result r = ''CREATED''" "rs_start r = pv_start pv" "rs_end r = pv_end pv" "rs_status r = pv_target_status pv"
proof -
  from preview obtain payload au start prior e where gates: "creation_gates company user branch (cr_workflow cs) = Inr ()"
    and mode: "mode \<in> set creation_modes" and active: "branch_active company branch cs = Inr ()"
    and matrix: "check_slot_matrix mode (latest_first (branch_periods company branch (cr_workflow cs))) = Inr (True, e)"
    and start: "next_candidate_start company branch cs = Inr (start, prior)"
    and payload: "candidate_payload_of env company branch mode start 0 cs = Inr (payload, au)"
    and pv: "pv_key pv = fst (make_candidate_key env payload)" "pv_start pv = au_start au" "pv_end pv = au_end au"
      "pv_target_status pv = target_of_mode mode" by (rule preview_creatableE)
  note pl = candidate_payloadD [OF payload]
  let ?hash = "snd (make_candidate_key env payload)"
  have key: "decode_candidate_key env (pv_key pv) = Inr (payload, ?hash)"
    unfolding pv(1) by (rule key_round_trip [OF keys pl(2,3)])
  have "rsplit_dot (pv_key pv) = Some (env_encode env payload, ?hash)"
    using keys by (simp add: pv(1) make_candidate_key_def Let_def keys_readable_def
        rsplit_dot_append [of "env_hmac env (env_encode env payload)" "env_encode env payload", simplified])
  from fresh [OF this] have unused: "created_from company branch ?hash cs = None"
    unfolding created_from_None by (metis image_eqI)
  from pl(1) have au: "resolve_payroll_setup_version company branch start (cr_setup cs) (cr_workflow cs) = Inr au"
    by (simp only: resolve_candidate_Inr)
  have au_start: "au_start au = start" by (rule resolve_authorityD(3) [OF au])
  have later: "\<not> (\<exists>p\<in>set (latest_first (branch_periods company branch (cr_workflow cs))).
      pp_start p \<le> au_end au \<and> au_start au \<le> pp_end p)"
    using next_start_after [OF start] by (fastforce simp: latest_first_def au_start)
  obtain cs' r where wr: "write_period env now company user branch ?hash (cp_target_status payload) au cs = Inr (cs', r)"
  proof (rule write_succeeds [OF au])
    show "slot_unique (cp_target_status payload) (periods (ws_db (cr_workflow cs)) @ [p])"
      if "pp_company_id p = company" "pp_branch_id p = branch" "pp_status p = cp_target_status payload" for p
      using free_slot [OF ok mode matrix] that by (simp add: pl(5))
  qed (use ready in \<open>simp add: pv(2)\<close>)
  have "create_period_from_candidate env now company user branch (pv_key pv) cs = Inr (cs', r)"
    unfolding create_period_from_candidate_def Let_def
    using gates key pl(4,6,7,8) mode unused active start pl(1) matrix later wr by (simp add: guard_r_def map_error_def)
  moreover from wr obtain p w where
    "period_written env company user branch ?hash (cp_target_status payload) au p w cs cs'"
    "rs_result r = ''CREATED''" "rs_start r = pp_start p" "rs_end r = pp_end p" "rs_status r = cp_target_status payload"
    by (rule write_periodE)
  ultimately show thesis
    using that pv pl(5) by (simp add: period_written_def Let_def)
qed

text \<open>The same user can confirm the same key again at once.\<close>

lemma confirmation_repeats:
  assumes create: "create_period_from_candidate env now company user branch key cs = Inr (cs', r)"
    and ok: "calendar_ok env cs" and live: "rs_status r \<noteq> ''Cancelled''"
  obtains cs2 r2 where "create_period_from_candidate env later company user branch key cs' = Inr (cs2, r2)"
proof -
  obtain payload hash where key: "decode_candidate_key env key = Inr (payload, hash)"
    and claims: "candidate_claims company branch payload = Inr ()"
    and gates: "creation_gates company user branch (cr_workflow cs) = Inr ()"
    using create unfolding create_period_from_candidate_def Let_def by (auto elim!: bind_r_InrE)
  from create have gates': "creation_gates company user branch (cr_workflow cs') = Inr ()"
    by (rule create_cases) (use gates in \<open>auto simp: period_written_def Let_def creation_gates_def\<close>)
  have ok': "calendar_ok env cs'" by (rule creation_step_ok [OF creation_step.create [OF create] ok])
  from create_consumes [OF create key] obtain q v where found: "created_from company branch hash cs' = Some (q, v)"
    by (cases "created_from company branch hash cs'") (auto simp: created_from_None consumed_def, metis)
  from create have "pp_status q \<noteq> ''Cancelled''"
  proof (cases rule: create_cases)
    case (replay payload' hash' p w)
    with key found live show ?thesis by (simp add: replayed_def Let_def)
  next
    case (created payload' hash' au p w)
    from created(3) have p: "p \<in> set (periods (ws_db (cr_workflow cs')))" "w \<in> set (cr_rows cs')"
      "cw_period_id w = pp_id p" "cw_candidate_hash w = hash'" "branch_of_period p = (company, branch)"
      "pp_status p = cp_target_status payload'"
      by (auto simp: period_written_def Let_def branch_of_period_def)
    note found = created_from_Some [OF found]
    have "pp_id q = pp_id p"
      using ok' found p key created(1) unfolding calendar_ok_def creations_ok_def by (metis branch_of_period_def Inr_inject prod.inject)
    moreover have "distinct (map pp_id (periods (ws_db (cr_workflow cs'))))"
      using ok' workflow_okD(2) by (auto simp: calendar_ok_def)
    ultimately have "q = p" using found(1) p(1) unfolding distinct_map by (blast dest: inj_onD)
    then show ?thesis using created_target [OF created(2)] p(6) by auto
  qed
  with found key claims gates' show thesis
    by (intro that [of cs' "replayed branch (q, v) cs'"]) (simp add: create_period_from_candidate_def Let_def)
qed

end
