(* ===== verification/Creation_Properties.thy ===== *)
theory Creation_Properties
  imports Creation_Progress Snapshot_Properties
begin

text \<open>
  The properties of period creation: a new period continues the Branch's calendar, reachable
  calendars never overlap, a candidate makes one period, a previewed candidate can be confirmed,
  and what the new period freezes.
\<close>

section \<open>Samples\<close>

text \<open>The small Company with a weekly Payroll Setup and its Open first week; the second is to be prepared.\<close>

definition sample_setup :: setup_tables where
  "sample_setup =
    \<lparr>setup_assignments = [\<lparr>sa_id = 5, sa_company_id = 1, sa_branch_id = 2, sa_setup_id = 4, sa_from = 1,
       sa_to = None, sa_withdrawn_at = None\<rparr>],
     payroll_setups = [\<lparr>ps_id = 4, ps_company_id = 1, ps_code = ''S'', ps_status = ''Active''\<rparr>],
     setup_versions = [\<lparr>vn_id = 6, vn_company_id = 1, vn_setup_id = 4, vn_number = 1, vn_state = ''Published'',
       vn_from = 1, vn_replaces = None, vn_frequency = ''Week'', vn_anchor = 1, vn_interval = None, vn_mask = 65,
       vn_config_hash = ''c''\<rparr>],
     policy_events = [], branch_status = (\<lambda>_. ''Active''), branch_code = (\<lambda>_. ''B'')\<rparr>"

definition creation_access :: access_tables where
  "creation_access = sample_access\<lparr>permissions := ''payroll.period.create'' # permissions sample_access\<rparr>"

definition sample_creation :: creation_state where
  "sample_creation =
    \<lparr>cr_workflow = sample_workflow
       \<lparr>ws_db := small_db\<lparr>period_days := [], period_definitions := []\<rparr>, ws_access := creation_access\<rparr>,
     cr_setup = sample_setup, cr_rows = [],
     cr_definitions = [\<lparr>pf_id = 20, pf_company_id = 1, pf_code = ''H'', pf_name = ''Hours'', pf_input_type = ''Decimal'',
       pf_unit = None, pf_method = ''PerUnit'', pf_status = ''Active''\<rparr>],
     cr_configs = [\<lparr>bg_id = 8, bg_company_id = 1, bg_branch_id = 2, bg_pay_definition_id = 20, bg_from = 0,
       bg_to = None, bg_is_active = True\<rparr>],
     cr_versions = [], cr_locked = []\<rparr>"

text \<open>An environment whose keys can be read back: the text of a payload is its number in an enumeration.\<close>

definition payload_text :: "candidate_payload \<Rightarrow> json" where
  "payload_text p = JList [JStr (cp_ver p), JStr (cp_purpose p), JInt (cp_cid p), JInt (cp_bid p), JStr (cp_mode p),
     JStr (cp_target_status p), JInt (cp_assignment_id p), JInt (cp_setup_id p), JInt (cp_version_id p),
     JStr (cp_config_hash p), JStr (cp_setup_timeline p), JStr (cp_branch_timeline p), JInt (cp_start p),
     JInt (cp_end p), cp_slot_fp p, opt_json JInt (cp_pred_id p), JInt (cp_offset p)]"

lemma payload_text_inj: "inj payload_text"
proof (rule injI)
  fix p q assume "payload_text p = payload_text q"
  then show "p = q"
    by (cases p; cases q) (auto simp: payload_text_def opt_json_def split: option.splits)
qed

definition sample_encode :: "candidate_payload \<Rightarrow> string" where
  "sample_encode p = show_nat (to_nat (payload_text p))"

definition sample_env :: creation_env where
  "sample_env =
    \<lparr>env_boundary = sample_boundary, env_digest = sample_digest, env_hmac = filter (\<lambda>c. c \<noteq> CHR ''.''),
     env_encode = sample_encode, env_decode = (\<lambda>s. Some (inv sample_encode s)),
     env_lower_key = (\<lambda>s. s), env_text_key = (\<lambda>s. s)\<rparr>"

lemma sample_env_readable: "keys_readable sample_env"
proof -
  have "inj sample_encode"
    unfolding sample_encode_def by (intro injI) (metis read_show_nat from_nat_to_nat payload_text_inj injD)
  then show ?thesis by (simp add: keys_readable_def sample_env_def)
qed

lemma sample_preview_evaluated:
  "case get_period_candidates env 1 1 2 ''PREPARED_CREATION'' None sample_creation of
     Inl _ \<Rightarrow> False
   | Inr pv \<Rightarrow> pv_creatable pv \<and> pv_start pv = 8 \<and> pv_end pv = 14 \<and> pv_target_status pv = ''Draft''"
  by code_simp

lemma sample_layout_evaluated:
  "not_ready_codes (frozen_layout env 101 1 2 8 sample_creation) = [] \<and>
   map ppd_pay_definition_id (frozen_layout env 101 1 2 8 sample_creation) = [20]"
  by code_simp

lemma sample_creation_tables [simp]:
  "periods (ws_db (cr_workflow sample_creation)) = [sample_period]" "cr_rows sample_creation = []"
  "period_days (ws_db (cr_workflow sample_creation)) = []"
  "period_definitions (ws_db (cr_workflow sample_creation)) = []"
  by (simp_all add: sample_creation_def small_db_def sample_db_def)

lemma sample_calendar_ok: "calendar_ok env sample_creation"
proof -
  have "workflow_ok d (cr_workflow sample_creation)" for d
    using sample_workflow_ok [of d] sample_creation_tables(1)
    by (simp add: workflow_ok_def sample_creation_def)
  then show ?thesis by (simp add: calendar_ok_def no_overlap_def creations_ok_def)
qed

text \<open>The candidate of the second week, previewed and confirmed.\<close>

lemma sample_confirmation:
  obtains pv cs r where
    "get_period_candidates sample_env 1 1 2 ''PREPARED_CREATION'' None sample_creation = Inr pv" "pv_creatable pv"
    "pv_start pv = 8" "pv_end pv = 14"
    "create_period_from_candidate sample_env 0 1 1 2 (pv_key pv) sample_creation = Inr (cs, r)"
    "rs_result r = ''CREATED''" "rs_start r = 8" "rs_end r = 14" "rs_status r = ''Draft''"
proof -
  from sample_preview_evaluated [of sample_env] obtain pv where
    pv: "get_period_candidates sample_env 1 1 2 ''PREPARED_CREATION'' None sample_creation = Inr pv" "pv_creatable pv"
      "pv_start pv = 8" "pv_end pv = 14" "pv_target_status pv = ''Draft''"
    by (auto split: sum.splits)
  have ok: "workflow_ok (env_digest sample_env) (cr_workflow sample_creation)"
    using sample_calendar_ok by (simp add: calendar_ok_def)
  show thesis
    by (rule previewed_candidate_accepted [OF pv(1,2) ok sample_env_readable, of 0])
      (use that pv sample_layout_evaluated in \<open>simp_all add: next_period_id_def\<close>)
qed

section \<open>A new period continues the calendar\<close>

text \<open>C25: a created period starts the day after the last live period of its Branch ends (the first
  one on the first assignment), ends where the schedule of the Payroll Setup version in force
  says, has the status its mode asks for and is added to the workflow's tables as a new period of
  a free slot.\<close>

theorem created_period_continues:
  assumes "create_period_from_candidate env now company user branch key cs = Inr (cs', r)" "rs_result r = ''CREATED''"
  shows "\<exists>p au. periods (ws_db (cr_workflow cs')) = periods (ws_db (cr_workflow cs)) @ [p] \<and>
    pp_id p = rs_period_id r \<and> branch_of_period p = (company, branch) \<and> pp_status p = rs_status r \<and>
    pp_status p \<in> {''Open'', ''Draft''} \<and>
    (\<forall>q\<in>set (branch_periods company branch (cr_workflow cs)). pp_end q < pp_start p) \<and>
    (branch_periods company branch (cr_workflow cs) \<noteq> [] \<longrightarrow>
       (\<exists>q\<in>set (branch_periods company branch (cr_workflow cs)). pp_start p = pp_end q + 1)) \<and>
    resolve_payroll_setup_version company branch (pp_start p) (cr_setup cs) (cr_workflow cs) = Inr au \<and>
    pp_end p = period_end (ev_schedule au) (pp_start p) \<and> pp_start p \<le> pp_end p \<and>
    workflow_step digest boundary (cr_workflow cs) (cr_workflow cs')"
  using assms(1)
proof (cases rule: create_cases)
  case (created payload hash au p w)
  then obtain prior where start: "next_candidate_start company branch cs = Inr (au_start au, prior)"
    and au: "resolve_payroll_setup_version company branch (au_start au) (cr_setup cs) (cr_workflow cs) = Inr au"
    by (auto simp: creation_checked_def)
  from created(3) have p: "periods (ws_db (cr_workflow cs')) = periods (ws_db (cr_workflow cs)) @ [p]"
    "branch_of_period p = (company, branch)" "pp_start p = au_start au" "pp_end p = au_end au"
    "pp_status p = cp_target_status payload"
    by (auto simp: period_written_def Let_def branch_of_period_def)
  have "\<exists>q\<in>set (branch_periods company branch (cr_workflow cs)). pp_start p = pp_end q + 1"
    if "branch_periods company branch (cr_workflow cs) \<noteq> []"
  proof -
    from that obtain m where m: "max_of (map pp_end (branch_periods company branch (cr_workflow cs))) = Some m"
      by (cases "max_of (map pp_end (branch_periods company branch (cr_workflow cs)))") auto
    then obtain q where q: "q \<in> set (branch_periods company branch (cr_workflow cs))" "m = pp_end q"
      by (auto simp: max_of_Some)
    from m start have "pp_start p = m + 1" by (simp add: p(3) next_candidate_start_def)
    with q show ?thesis by blast
  qed
  with p created au next_start_after [OF start] authority_not_empty [OF au] resolve_authorityD(4) [OF au]
    created_target [OF created(2)] creation_is_step [OF created(3) created_target [OF created(2)]]
  show ?thesis by (intro exI [of _ p] exI [of _ au]) simp
qed (use assms(2) in \<open>simp add: replayed_def Let_def\<close>)

theorem created_period_continues_witness:
  "\<exists>key cs p. create_period_from_candidate sample_env 0 1 1 2 key sample_creation = Inr cs \<and>
     periods (ws_db (cr_workflow (fst cs))) = [sample_period, p] \<and> branch_of_period p = (1, 2) \<and>
     pp_status p = ''Draft''"
proof (rule sample_confirmation)
  fix pv cs r
  assume create: "create_period_from_candidate sample_env 0 1 1 2 (pv_key pv) sample_creation = Inr (cs, r)"
    and r: "rs_result r = ''CREATED''" "rs_status r = ''Draft''"
  from created_period_continues [OF create r(1), of sample_digest sample_boundary] r(2) obtain p where
    "periods (ws_db (cr_workflow cs)) = [sample_period, p]" "branch_of_period p = (1, 2)" "pp_status p = ''Draft''"
    unfolding sample_creation_tables append.simps by metis
  with create show ?thesis by (intro exI [of _ "pv_key pv"] exI [of _ "(cs, r)"] exI [of _ p]) simp
qed

section \<open>Reachable calendars\<close>

text \<open>C8: whatever is created, submitted, decided, finalized or cancelled, no day belongs to two live
  periods of a Branch, and no candidate has made two of its periods.\<close>

theorem branch_calendar_invariant:
  assumes "creation_run env cs cs'" "calendar_ok env cs"
    and "p \<in> set (periods (ws_db (cr_workflow cs')))" "q \<in> set (periods (ws_db (cr_workflow cs')))"
    and "branch_of_period p = branch_of_period q" "pp_id p \<noteq> pp_id q"
  shows "(pp_status p \<noteq> ''Cancelled'' \<longrightarrow> pp_status q \<noteq> ''Cancelled'' \<longrightarrow>
      \<not> (\<exists>d. pp_start p \<le> d \<and> d \<le> pp_end p \<and> pp_start q \<le> d \<and> d \<le> pp_end q)) \<and>
    (\<forall>v\<in>set (cr_rows cs'). \<forall>w\<in>set (cr_rows cs'). cw_period_id v = pp_id p \<longrightarrow> cw_period_id w = pp_id q \<longrightarrow>
      cw_candidate_hash v \<noteq> cw_candidate_hash w)"
proof -
  from creation_run_ok [OF assms(1,2)] have "no_overlap (periods (ws_db (cr_workflow cs')))"
    "creations_ok (periods (ws_db (cr_workflow cs'))) (cr_rows cs')" by (simp_all add: calendar_ok_def)
  note calendar = this [unfolded no_overlap_def creations_ok_def]
  have "pp_end p < pp_start q \<or> pp_end q < pp_start p" if "pp_status p \<noteq> ''Cancelled''" "pp_status q \<noteq> ''Cancelled''"
    using calendar(1) assms(3-6) that by blast
  moreover have "cw_candidate_hash v \<noteq> cw_candidate_hash w" if "v \<in> set (cr_rows cs')" "w \<in> set (cr_rows cs')"
      "cw_period_id v = pp_id p" "cw_period_id w = pp_id q" for v w
    using conjunct2 [OF calendar(2)] assms(3-6) that by blast
  ultimately show ?thesis by fastforce
qed

theorem branch_calendar_invariant_witness:
  "\<exists>cs p. creation_run sample_env sample_creation cs \<and> p \<in> set (periods (ws_db (cr_workflow cs))) \<and>
     branch_of_period p = (1, 2) \<and> pp_id p = 101 \<and> pp_status p = ''Draft'' \<and>
     \<not> (\<exists>d. 1 \<le> d \<and> d \<le> 7 \<and> pp_start p \<le> d \<and> d \<le> pp_end p)"
proof (rule sample_confirmation)
  fix pv cs r
  assume create: "create_period_from_candidate sample_env 0 1 1 2 (pv_key pv) sample_creation = Inr (cs, r)"
    and r: "rs_result r = ''CREATED''" "rs_status r = ''Draft''"
  from create obtain p where p: "periods (ws_db (cr_workflow cs)) = [sample_period, p]" "branch_of_period p = (1, 2)"
    "pp_id p = 101" "pp_status p = ''Draft''"
    by (rule create_cases)
      (use r in \<open>auto simp: replayed_def Let_def period_written_def branch_of_period_def next_period_id_def\<close>)
  have run: "creation_run sample_env sample_creation cs"
    using creation_run.go [OF creation_run.stop creation_step.create [OF create]] .
  from branch_calendar_invariant [OF run sample_calendar_ok, of sample_period p] run p show ?thesis
    by (intro exI [of _ cs] exI [of _ p]) (auto simp: branch_of_period_def sample_period_def)
qed

section \<open>Replay\<close>

text \<open>C24: a candidate makes one period.  Once a confirmation has succeeded, confirming the same key
  again, by anyone and after any further requests, changes nothing and answers with that period.\<close>

theorem candidate_replay:
  assumes "calendar_ok env cs"
    and "create_period_from_candidate env now company user branch key cs = Inr (cs1, r1)"
    and "creation_run env cs1 cs2"
    and "create_period_from_candidate env now' company user' branch key cs2 = Inr (cs3, r2)"
  shows "cs3 = cs2 \<and> rs_result r2 = ''ALREADY_EXISTS'' \<and> rs_period_id r2 = rs_period_id r1"
proof -
  from assms(2) obtain payload hash where key: "decode_candidate_key env key = Inr (payload, hash)"
    by (rule create_cases)
  have ok1: "calendar_ok env cs1" by (rule creation_step_ok [OF creation_step.create [OF assms(2)] assms(1)])
  have "consumed company branch hash (rs_period_id r1) cs2"
    by (rule creation_run_consumed [OF assms(3) ok1 create_consumes [OF assms(2) key]])
  then show ?thesis by (rule consumed_replays [OF assms(4) creation_run_ok [OF assms(3) ok1] key])
qed

theorem candidate_replay_witness:
  "\<exists>key cs r cs' r'. create_period_from_candidate sample_env 0 1 1 2 key sample_creation = Inr (cs, r) \<and>
     create_period_from_candidate sample_env 1 1 1 2 key cs = Inr (cs', r') \<and> cs' = cs \<and> rs_period_id r' = rs_period_id r"
proof (rule sample_confirmation)
  fix pv cs r
  assume create: "create_period_from_candidate sample_env 0 1 1 2 (pv_key pv) sample_creation = Inr (cs, r)"
    and status: "rs_status r = ''Draft''"
  from confirmation_repeats [OF create sample_calendar_ok, of 1] status obtain cs' r' where
    again: "create_period_from_candidate sample_env 1 1 1 2 (pv_key pv) cs = Inr (cs', r')" by auto
  from candidate_replay [OF sample_calendar_ok create creation_run.stop again] create again show ?thesis by metis
qed

section \<open>From preview to confirmation\<close>

text \<open>C23: what the preview calls creatable can be created.  In a good state, with a key that has not
  been used, the confirmation of the previewed candidate succeeds with the dates and the status
  shown, unless a definition active in the Branch has a calculation method that is not operational.\<close>

theorem previewed_candidate_creates:
  assumes "get_period_candidates env company user branch mode cursor cs = Inr pv" "pv_creatable pv"
    and "workflow_ok digest (cr_workflow cs)" "keys_readable env"
    and "\<And>b sig. rsplit_dot (pv_key pv) = Some (b, sig) \<Longrightarrow> sig \<notin> cw_candidate_hash ` set (cr_rows cs)"
    and "not_ready_codes (frozen_layout env (next_period_id (periods (ws_db (cr_workflow cs)))) company branch
      (pv_start pv) cs) = []"
  shows "\<exists>cs' r. create_period_from_candidate env now company user branch (pv_key pv) cs = Inr (cs', r) \<and>
    rs_result r = ''CREATED'' \<and> rs_start r = pv_start pv \<and> rs_end r = pv_end pv \<and> rs_status r = pv_target_status pv"
  by (rule previewed_candidate_accepted [OF assms(1-4) _ assms(6), where now = now], erule assms(5)) blast

theorem previewed_candidate_creates_witness:
  "\<exists>pv cs r. get_period_candidates sample_env 1 1 2 ''PREPARED_CREATION'' None sample_creation = Inr pv \<and>
     create_period_from_candidate sample_env 0 1 1 2 (pv_key pv) sample_creation = Inr (cs, r) \<and> rs_start r = 8"
proof -
  from sample_preview_evaluated [of sample_env] obtain pv where
    pv: "get_period_candidates sample_env 1 1 2 ''PREPARED_CREATION'' None sample_creation = Inr pv" "pv_creatable pv"
      "pv_start pv = 8"
    by (auto split: sum.splits)
  have ok: "workflow_ok (env_digest sample_env) (cr_workflow sample_creation)"
    using sample_calendar_ok by (simp add: calendar_ok_def)
  have ready: "not_ready_codes (frozen_layout sample_env (next_period_id (periods (ws_db (cr_workflow sample_creation)))) 1 2
      (pv_start pv) sample_creation) = []"
    using sample_layout_evaluated [of sample_env] pv(3) by (simp add: next_period_id_def)
  from previewed_candidate_creates [OF pv(1,2) ok sample_env_readable _ ready, of 0] pv show ?thesis by auto
qed

section \<open>What a new period freezes\<close>

text \<open>A created period has exactly one day row for each of its dates, in order, and a day is a
  default work day exactly when the bit of its weekday (Sunday is 0) is not set in the days-off mask
  of the Payroll Setup version; the days of other periods are not touched.\<close>

theorem created_period_days:
  assumes "create_period_from_candidate env now company user branch key cs = Inr (cs', r)" "rs_result r = ''CREATED''"
    and "pday_period_id ` set (period_days (ws_db (cr_workflow cs))) \<subseteq> pp_id ` set (periods (ws_db (cr_workflow cs)))"
  shows "\<exists>au days. resolve_payroll_setup_version company branch (rs_start r) (cr_setup cs) (cr_workflow cs) = Inr au \<and>
    period_days (ws_db (cr_workflow cs')) = period_days (ws_db (cr_workflow cs)) @ days \<and>
    map pday_work_date days = [rs_start r..rs_end r] \<and>
    (\<forall>x\<in>set days. pday_period_id x = rs_period_id r \<and>
       (pday_is_default x \<longleftrightarrow> \<not> bit (normal_days_off_mask (ev_schedule au)) (nat (pday_work_date x mod 7))))"
  using assms(1)
proof (cases rule: create_cases)
  case (created payload hash au p w)
  from created(3) have p: "pp_id p = next_period_id (periods (ws_db (cr_workflow cs)))" "pp_start p = au_start au" "pp_end p = au_end au"
    and days: "period_days (ws_db (cr_workflow cs')) = period_days (create_period_day_rows (pp_id p) company (au_start au)
      (au_end au) (normal_days_off_mask (ev_schedule au)) (ws_db (cr_workflow cs)))"
    by (auto simp: period_written_def Let_def)
  have "\<forall>x\<in>set (period_days (ws_db (cr_workflow cs))). pday_period_id x \<noteq> pp_id p"
    using assms(3) p(1) by (auto dest!: next_period_id_fresh)
  note new = new_day_rows [OF this]
  have "resolve_payroll_setup_version company branch (rs_start r) (cr_setup cs) (cr_workflow cs) = Inr au"
    using created(2) by (simp add: creation_checked_def created p)
  then show ?thesis
    unfolding days new by (intro exI [of _ au] exI conjI) (auto simp: created p comp_def)
qed (use assms(2) in \<open>simp add: replayed_def Let_def\<close>)

theorem created_period_days_witness:
  "\<exists>key cs r days. create_period_from_candidate sample_env 0 1 1 2 key sample_creation = Inr (cs, r) \<and>
     period_days (ws_db (cr_workflow cs)) = days \<and> map pday_work_date days = [8..14]"
proof (rule sample_confirmation)
  fix pv cs r
  assume create: "create_period_from_candidate sample_env 0 1 1 2 (pv_key pv) sample_creation = Inr (cs, r)"
    and r: "rs_result r = ''CREATED''" "rs_start r = 8" "rs_end r = 14"
  have "pday_period_id ` set (period_days (ws_db (cr_workflow sample_creation))) \<subseteq>
      pp_id ` set (periods (ws_db (cr_workflow sample_creation)))" by simp
  from created_period_days [OF create r(1) this] obtain days where
    "period_days (ws_db (cr_workflow cs)) = [] @ days" "map pday_work_date days = [rs_start r..rs_end r]"
    unfolding sample_creation_tables by blast
  then have "map pday_work_date (period_days (ws_db (cr_workflow cs))) = [8..14]" by (simp only: append_Nil r(2,3))
  with create show ?thesis by blast
qed

text \<open>C30: the layout a created period freezes has exactly one row for each definition that applies to
  it, and no other: an Active definition of the Company with its rate definition and the configuration
  of this Branch in force on the first day.  The rows are in the order of name, code and id, numbered
  0, 1, 2, ..., carry the columns of that definition and rate definition and the active flag of that
  very configuration; and an active row always has an operational calculation method.\<close>

theorem created_period_layout:
  assumes "create_period_from_candidate env now company user branch key cs = Inr (cs', r)" "rs_result r = ''CREATED''"
    and "layout_keys cs"
  shows "\<exists>rows srcs. period_definitions (ws_db (cr_workflow cs')) = period_definitions (ws_db (cr_workflow cs)) @ rows \<and>
    set srcs = {(f, x, g). f \<in> set (cr_definitions cs) \<and> pf_company_id f = company \<and> pf_status f = ''Active'' \<and>
      x \<in> set (rate_definitions (ws_db (cr_workflow cs))) \<and> rd_pay_definition_id x = Some (pf_id f) \<and>
      g \<in> set (cr_configs cs) \<and> bg_company_id g = company \<and> bg_branch_id g = branch \<and> bg_pay_definition_id g = pf_id f \<and>
      bg_from g \<le> rs_start r \<and> (case bg_to g of None \<Rightarrow> True | Some e \<Rightarrow> rs_start r \<le> e)} \<and>
    distinct (map (pf_id \<circ> fst) srcs) \<and>
    sorted (map (\<lambda>(f, x, g). (env_lower_key env (pf_name f), env_text_key env (pf_code f), pf_id f)) srcs) \<and>
    list_all2 (\<lambda>(f, x, g) row. ppd_period_id row = rs_period_id r \<and> ppd_company_id row = company \<and>
      ppd_branch_id row = branch \<and> ppd_pay_definition_id row = pf_id f \<and>
      ppd_rate_definition_id row = rate_definition_row.rd_id x \<and> ppd_code row = pf_code f \<and> ppd_name row = pf_name f \<and>
      ppd_input_type row = pf_input_type f \<and> ppd_unit row = pf_unit f \<and> ppd_calculation_method row = pf_method f \<and>
      ppd_rate_shape row = rd_shape x \<and> ppd_is_active row = bg_is_active g) srcs rows \<and>
    map ppd_sort_order rows = map int [0..<length rows] \<and>
    (\<forall>row\<in>set rows. ppd_is_active row \<longrightarrow>
      is_method_operational (ppd_calculation_method row) (ppd_calculation_method_version row))"
    (is "\<exists>rows srcs. _ \<and> set srcs = ?S \<and> _ \<and> _ \<and> list_all2 ?R srcs rows \<and> _")
  using assms(1)
proof (cases rule: create_cases)
  case (created payload hash au p w)
  from created(3) have p: "pp_id p = rs_period_id r" "pp_start p = au_start au"
    and defs: "period_definitions (ws_db (cr_workflow cs')) = period_definitions (ws_db (cr_workflow cs)) @
      frozen_layout env (pp_id p) company branch (au_start au) cs"
    and ready: "not_ready_codes (frozen_layout env (pp_id p) company branch (au_start au) cs) = []"
    using created by (auto simp: period_written_def Let_def)
  have start: "rs_start r = au_start au" using created p by simp
  let ?srcs = "layout_sources env company branch (rs_start r) cs"
    and ?rows = "frozen_layout env (rs_period_id r) company branch (rs_start r) cs"
  note facts = frozen_layout_facts [where env = env and i = "rs_period_id r" and company = company and branch = branch
      and start = "rs_start r" and cs = cs]
  have rows: "list_all2 ?R ?srcs ?rows"
    using facts(2)
  proof (rule list.rel_mono_strong)
    fix s row assume s: "s \<in> set ?srcs" and "\<exists>k. row = layout_row cs (rs_period_id r) company branch k s"
    moreover obtain f x g where f: "s = (f, x, g)" by (rule prod_cases3)
    ultimately obtain k where row: "s = (f, x, g)" "row = layout_row cs (rs_period_id r) company branch k (f, x, g)"
      by blast
    with s have "pf_company_id f = company" by (simp add: layout_source_iff active_definition_def)
    with row show "?R s row" by (simp add: layout_row_def)
  qed
  have srcs: "set ?srcs = ?S"
    by (auto simp: layout_source_iff active_definition_def config_applies_def)
  show ?thesis
    unfolding defs [folded start, unfolded p(1)]
    by (intro exI [of _ ?rows] exI [of _ ?srcs] conjI refl srcs rows facts(1) layout_sources_distinct [OF assms(3)]
        layout_sources_sorted) (use ready_layout [OF ready] start p(1) in simp)
qed (use assms(2) in \<open>simp add: replayed_def Let_def\<close>)

theorem created_period_layout_witness:
  "\<exists>key cs r row. create_period_from_candidate sample_env 0 1 1 2 key sample_creation = Inr (cs, r) \<and>
     row \<in> set (period_definitions (ws_db (cr_workflow cs))) \<and> ppd_period_id row = rs_period_id r \<and>
     ppd_pay_definition_id row = 20 \<and> ppd_rate_definition_id row = 30 \<and> ppd_is_active row"
proof (rule sample_confirmation)
  fix pv cs r
  assume create: "create_period_from_candidate sample_env 0 1 1 2 (pv_key pv) sample_creation = Inr (cs, r)"
    and r: "rs_result r = ''CREATED''" "rs_start r = 8"
  have "layout_keys sample_creation" by code_simp
  from created_period_layout [OF create r(1) this] obtain rows srcs where
    defs: "period_definitions (ws_db (cr_workflow cs)) = rows"
    and srcs: "set srcs = {(f, x, g). f \<in> set (cr_definitions sample_creation) \<and> pf_company_id f = 1 \<and> pf_status f = ''Active'' \<and>
      x \<in> set (rate_definitions (ws_db (cr_workflow sample_creation))) \<and> rd_pay_definition_id x = Some (pf_id f) \<and>
      g \<in> set (cr_configs sample_creation) \<and> bg_company_id g = 1 \<and> bg_branch_id g = 2 \<and> bg_pay_definition_id g = pf_id f \<and>
      bg_from g \<le> rs_start r \<and> (case bg_to g of None \<Rightarrow> True | Some e \<Rightarrow> rs_start r \<le> e)}"
    and rows: "list_all2 (\<lambda>(f, x, g) row. ppd_period_id row = rs_period_id r \<and> ppd_company_id row = 1 \<and>
      ppd_branch_id row = 2 \<and> ppd_pay_definition_id row = pf_id f \<and>
      ppd_rate_definition_id row = rate_definition_row.rd_id x \<and> ppd_code row = pf_code f \<and> ppd_name row = pf_name f \<and>
      ppd_input_type row = pf_input_type f \<and> ppd_unit row = pf_unit f \<and> ppd_calculation_method row = pf_method f \<and>
      ppd_rate_shape row = rd_shape x \<and> ppd_is_active row = bg_is_active g) srcs rows"
    unfolding sample_creation_tables append_Nil by blast
  have "(hd (cr_definitions sample_creation), hd (rate_definitions (ws_db (cr_workflow sample_creation))),
      hd (cr_configs sample_creation)) \<in> set srcs"
    unfolding srcs r(2) by (simp add: sample_creation_def small_db_def sample_db_def)
  from list_all2_member_leftE [OF rows this] obtain row where "row \<in> set rows" "ppd_period_id row = rs_period_id r"
    "ppd_pay_definition_id row = 20" "ppd_rate_definition_id row = 30" "ppd_is_active row"
    by (auto simp: sample_creation_def small_db_def sample_db_def)
  with create defs show ?thesis by auto
qed

text \<open>The search for a period code ends, and its result is the first of the code itself, the code
  with suffix 2, with suffix 3, and so on, that no live period of the Branch has.\<close>

theorem created_code_is_first_free:
  assumes "create_period_from_candidate env now company user branch key cs = Inr (cs', r)" "rs_result r = ''CREATED''"
  shows "\<exists>k\<ge>1. rs_code r = coded (branch_code (cr_setup cs) branch @ ''-'' @ compact_date (rs_start r)) k \<and>
    (\<forall>p\<in>set (branch_periods company branch (cr_workflow cs)). pc_code (ws_columns (cr_workflow cs) (pp_id p)) \<noteq> rs_code r) \<and>
    (\<forall>j. 1 \<le> j \<longrightarrow> j < k \<longrightarrow> (\<exists>p\<in>set (branch_periods company branch (cr_workflow cs)).
       pc_code (ws_columns (cr_workflow cs) (pp_id p)) = coded (branch_code (cr_setup cs) branch @ ''-'' @ compact_date (rs_start r)) j))"
  using assms(1)
proof (cases rule: create_cases)
  case (created payload hash au p w)
  from created(3) have "pp_start p = au_start au" by (auto simp: period_written_def Let_def)
  moreover from created(3) have "pc_code (ws_columns (cr_workflow cs') (pp_id p)) =
       unique_period_code (branch_code (cr_setup cs) branch @ ''-'' @ compact_date (au_start au)) company branch (cr_workflow cs)"
    unfolding period_written_def Let_def by (elim conjE)
  ultimately have "rs_code r = unique_period_code (branch_code (cr_setup cs) branch @ ''-'' @ compact_date (rs_start r)) company branch (cr_workflow cs)"
    using created by simp
  with free_code_least [of 1 "branch_code (cr_setup cs) branch @ ''-'' @ compact_date (rs_start r)"
      "map (\<lambda>p. pc_code (ws_columns (cr_workflow cs) (pp_id p))) (branch_periods company branch (cr_workflow cs))"]
  show ?thesis unfolding unique_period_code_def set_map image_iff by metis
qed (use assms(2) in \<open>simp add: replayed_def Let_def\<close>)

theorem created_code_is_first_free_witness:
  "\<exists>key cs r. create_period_from_candidate sample_env 0 1 1 2 key sample_creation = Inr (cs, r) \<and>
     rs_code r \<noteq> pc_code (ws_columns (cr_workflow sample_creation) 100)"
proof (rule sample_confirmation)
  fix pv cs r
  assume create: "create_period_from_candidate sample_env 0 1 1 2 (pv_key pv) sample_creation = Inr (cs, r)"
    and r: "rs_result r = ''CREATED''"
  have "sample_period \<in> set (branch_periods 1 2 (cr_workflow sample_creation))" by (simp add: branch_periods_def)
  with created_code_is_first_free [OF create r] create show ?thesis by fastforce
qed

end
