(* ===== verification/Compensation_Context.thy ===== *)
theory Compensation_Context
  imports Period_Creation
begin

text \<open>
  Who may change and who may read the compensation of a Driver (\<open>compensation/driver_context.py\<close>),
  the guard of finalized payroll (\<open>payroll/guards.py\<close>) and the SQL functions both call
  (\<open>migrations/sql/0088\<close>).

  A handler of the two services takes two states: the one its first, unlocked read saw and the one
  it finds once it holds its locks.  Nothing relates the two: other requests may have run between
  them.  The instants at which it reads the clock are a \<open>request_clock\<close>.  The local day of an instant in a time
  zone (\<open>core.fn_BusinessDate\<close>) and the instant at which a day begins are the parameter
  \<open>zone_env\<close>; instants are integers, in microseconds.
\<close>

section \<open>State\<close>

text \<open>The columns of a schedule and of a pay rule that the calculation never reads.\<close>

record schedule_columns =
  sm_pay_definition_id :: "int option"
  sm_status_column_id :: "int option"
  sm_created_by :: int
  sm_updated_by :: "int option"
  sm_approved_by :: "int option"
  sm_voided_by :: "int option"
  sm_void_reason :: "string option"
  sm_notes :: "string option"

record rule_columns =
  ru_created_by :: int
  ru_updated_by :: "int option"
  ru_notes :: "string option"

record audit_row =
  ad_company_id :: int
  ad_branch_id :: "int option"
  ad_actor :: int
  ad_action :: string
  ad_entity :: string
  ad_entity_id :: int

text \<open>The sequence numbers the new schedules; a value is never given twice.\<close>

record compensation_state =
  co_creation :: creation_state
  co_schedules :: "int \<Rightarrow> schedule_columns"
  co_rules :: "int \<Rightarrow> rule_columns"
  co_active_columns :: "int list"
  co_next_schedule :: int
  co_audit :: "audit_row list"

abbreviation co_db :: "compensation_state \<Rightarrow> payroll_db" where
  "co_db co \<equiv> ws_db (cr_workflow (co_creation co))"

abbreviation co_access :: "compensation_state \<Rightarrow> access_tables" where
  "co_access co \<equiv> ws_access (cr_workflow (co_creation co))"

definition update_db :: "(payroll_db \<Rightarrow> payroll_db) \<Rightarrow> compensation_state \<Rightarrow> compensation_state" where
  "update_db f co = co\<lparr>co_creation := with_db f (co_creation co)\<rparr>"

record zone_env =
  ze_boundary :: "string \<Rightarrow> date \<Rightarrow> int"
  ze_business_date :: "string \<Rightarrow> int \<Rightarrow> date"

record request_clock =
  ck_scope :: int
  ck_first :: int
  ck_decision :: int
  ck_statement :: int

section \<open>Tenures\<close>

record tenure =
  tn_assignment_id :: int
  tn_branch_id :: int
  tn_from :: int
  tn_to :: "int option"
  tn_first_day :: date
  tn_last_day :: "date option"

definition is_authority :: "tenure \<Rightarrow> int \<Rightarrow> bool" where
  "is_authority t instant \<longleftrightarrow> (case tn_to t of None \<Rightarrow> True | Some e \<Rightarrow> instant < e)"

definition tenure_of :: "zone_env \<Rightarrow> assignment_row \<Rightarrow> branch_row \<Rightarrow> tenure" where
  "tenure_of env a b =
     \<lparr>tn_assignment_id = asg_id a, tn_branch_id = asg_branch_id a, tn_from = asg_effective_from_at a,
      tn_to = asg_effective_to_at a,
      tn_first_day = ze_business_date env (br_time_zone b) (asg_effective_from_at a),
      tn_last_day = map_option (\<lambda>e. ze_business_date env (br_time_zone b) (e - 1)) (asg_effective_to_at a)\<rparr>"

definition load_driver_tenures :: "zone_env \<Rightarrow> int \<Rightarrow> int \<Rightarrow> payroll_db \<Rightarrow> tenure list" where
  "load_driver_tenures env company_id driver_id db =
     sort_key (\<lambda>t. (tn_from t, tn_assignment_id t))
       [tenure_of env a b. a \<leftarrow> assignments db, b \<leftarrow> branches db,
          br_id b = asg_branch_id a \<and> br_company_id b = asg_company_id a \<and>
          asg_company_id a = company_id \<and> asg_driver_id a = driver_id \<and>
          (case asg_effective_to_at a of None \<Rightarrow> True | Some e \<Rightarrow> asg_effective_from_at a < e)]"

section \<open>The context of a date\<close>

text \<open>\<open>core.fn_DriverAssignmentForBusinessDate\<close>.\<close>

definition driver_assignment_for_business_date ::
  "zone_env \<Rightarrow> int \<Rightarrow> int \<Rightarrow> date \<Rightarrow> payroll_db \<Rightarrow> assignment_row option" where
  "driver_assignment_for_business_date env company_id driver_id d db =
     find_first (\<lambda>a. True) (sort_key (\<lambda>a. (- asg_effective_from_at a, - asg_id a))
       (filter (\<lambda>a. asg_company_id a = company_id \<and> asg_driver_id a = driver_id \<and>
           claims_live (ze_boundary env) db a d) (assignments db)))"

record context_assignment =
  cx_assignment_id :: int
  cx_branch_id :: int
  cx_from :: int
  cx_to :: "int option"
  cx_ended :: bool

definition ended_at :: "int \<Rightarrow> int option \<Rightarrow> bool" where
  "ended_at instant t \<longleftrightarrow> (case t of None \<Rightarrow> False | Some e \<Rightarrow> e \<le> instant)"

definition resolve_compensation_context ::
  "zone_env \<Rightarrow> int \<Rightarrow> int \<Rightarrow> date \<Rightarrow> int \<Rightarrow> payroll_db \<Rightarrow> context_assignment option" where
  "resolve_compensation_context env company_id driver_id d instant db =
     map_option (\<lambda>a. \<lparr>cx_assignment_id = asg_id a, cx_branch_id = asg_branch_id a,
         cx_from = asg_effective_from_at a, cx_to = asg_effective_to_at a,
         cx_ended = ended_at instant (asg_effective_to_at a)\<rparr>)
       (driver_assignment_for_business_date env company_id driver_id d db)"

section \<open>Authority to change\<close>

definition rate_edit :: "string list" where "rate_edit = [''payrates.edit'']"
definition rate_read :: "string list" where "rate_read = [''payrates.view'', ''payrates.edit'']"

definition historical :: py_error where "historical = HttpError 409 ''DRIVER_COMPENSATION_HISTORICAL''"

definition require_driver :: "int \<Rightarrow> int \<Rightarrow> payroll_db \<Rightarrow> unit result" where
  "require_driver company_id driver_id db =
     guard_r (\<exists>r\<in>set (drivers db). dr_driver_id r = driver_id \<and> dr_company_id r = company_id)
       (HttpError 404 ''DRIVER_NOT_FOUND'')"

definition may_edit :: "int \<Rightarrow> int \<Rightarrow> int option \<Rightarrow> compensation_state \<Rightarrow> bool" where
  "may_edit company_id user_id branch_id co \<longleftrightarrow>
     has_any_permission company_id user_id branch_id rate_edit (users (co_db co)) (co_access co)"

definition edit_standing :: "int \<Rightarrow> int \<Rightarrow> tenure list \<Rightarrow> compensation_state \<Rightarrow> bool \<times> int list" where
  "edit_standing company_id user_id tenures co =
     (let company_wide = may_edit company_id user_id None co
      in (company_wide,
          if company_wide then []
          else filter (\<lambda>b. may_edit company_id user_id (Some b) co) (sorted_set (map tn_branch_id tenures))))"

definition require_compensation_edit_standing ::
  "zone_env \<Rightarrow> int \<Rightarrow> int \<Rightarrow> int \<Rightarrow> compensation_state \<Rightarrow> unit result" where
  "require_compensation_edit_standing env company_id user_id driver_id co =
     bind_r (require_non_driver_subject company_id user_id (co_access co)) (\<lambda>_.
     bind_r (require_driver company_id driver_id (co_db co)) (\<lambda>_.
     let standing = edit_standing company_id user_id (load_driver_tenures env company_id driver_id (co_db co)) co
     in guard_r (fst standing \<or> snd standing \<noteq> []) permission_denied))"

text \<open>\<open>mode="write"\<close> with its start date, and \<open>mode="current"\<close> (\<open>"discard"\<close>).\<close>

datatype authority_mode = WriteFrom date | Current

definition require_compensation_authority ::
  "zone_env \<Rightarrow> int \<Rightarrow> int \<Rightarrow> int \<Rightarrow> authority_mode \<Rightarrow> int \<Rightarrow> compensation_state
   \<Rightarrow> context_assignment option result" where
  "require_compensation_authority env company_id user_id driver_id mode instant co =
     bind_r (require_non_driver_subject company_id user_id (co_access co)) (\<lambda>_.
     bind_r (require_driver company_id driver_id (co_db co)) (\<lambda>_.
     let tenures = load_driver_tenures env company_id driver_id (co_db co) in
     case mode of
       Current \<Rightarrow>
         if may_edit company_id user_id None co \<or>
            (\<exists>b\<in>set (sorted_set (map tn_branch_id (filter (\<lambda>t. is_authority t instant) tenures))).
               may_edit company_id user_id (Some b) co)
         then Inr None else Inl permission_denied
     | WriteFrom start_date \<Rightarrow>
         let (company_wide, permitted) = edit_standing company_id user_id tenures co in
         if \<not> company_wide \<and> permitted = [] then Inl permission_denied
         else case resolve_compensation_context env company_id driver_id start_date instant (co_db co) of
           None \<Rightarrow> Inl (if company_wide then historical else permission_denied)
         | Some context \<Rightarrow>
             if \<not> company_wide \<and> cx_branch_id context \<notin> set permitted then Inl permission_denied
             else if cx_ended context then Inl historical
             else Inr (Some context)))"

text \<open>\<open>core.trg_DriverCompensationContextWritable\<close>, for a start date of the change.\<close>

definition context_writable :: "zone_env \<Rightarrow> int \<Rightarrow> int \<Rightarrow> date \<Rightarrow> int \<Rightarrow> payroll_db \<Rightarrow> unit result" where
  "context_writable env company_id driver_id start_date instant db =
     (case driver_assignment_for_business_date env company_id driver_id start_date db of
        None \<Rightarrow> Inl historical
      | Some a \<Rightarrow> guard_r (\<not> ended_at instant (asg_effective_to_at a)) historical)"

text \<open>The first date a changed end date affects: \<open>LEAST(old, new) + 1\<close>, an open end ignored.\<close>

definition tail_start :: "date option \<Rightarrow> date option \<Rightarrow> date option" where
  "tail_start old new =
     (if old = new then None
      else case (old, new) of
        (Some a, Some b) \<Rightarrow> Some (min a b + 1)
      | (Some a, None) \<Rightarrow> Some (a + 1)
      | (None, Some b) \<Rightarrow> Some (b + 1)
      | (None, None) \<Rightarrow> None)"

section \<open>Finalized payroll\<close>

datatype footprint_mode = WorkDate | PeriodStart

definition not_before :: "date option \<Rightarrow> date \<Rightarrow> bool" where
  "not_before lo d \<longleftrightarrow> (case lo of None \<Rightarrow> True | Some l \<Rightarrow> l \<le> d)"

definition not_after :: "date option \<Rightarrow> date \<Rightarrow> bool" where
  "not_after hi d \<longleftrightarrow> (case hi of None \<Rightarrow> True | Some h \<Rightarrow> d \<le> h)"

text \<open>A period with an eligibility row of one of the assignments of the Driver.\<close>

definition rostered :: "int \<Rightarrow> int \<Rightarrow> payroll_db \<Rightarrow> period_row \<Rightarrow> bool" where
  "rostered company_id driver_id db p \<longleftrightarrow>
     (\<exists>e\<in>set (eligibility db). \<exists>a\<in>set (assignments db). asg_id a = el_assignment_id e \<and>
        el_period_id e = pp_id p \<and> asg_company_id a = company_id \<and> asg_driver_id a = driver_id)"

definition driver_payroll_periods_for_footprint ::
  "int \<Rightarrow> int \<Rightarrow> date option \<Rightarrow> date option \<Rightarrow> footprint_mode \<Rightarrow> payroll_db \<Rightarrow> period_row list" where
  "driver_payroll_periods_for_footprint company_id driver_id lo hi mode db =
     sort_key (\<lambda>p. (pp_start p, pp_id p))
       (filter (\<lambda>p. pp_company_id p = company_id \<and>
           (case mode of WorkDate \<Rightarrow> not_before lo (pp_end p) \<and> not_after hi (pp_start p)
            | PeriodStart \<Rightarrow> not_before lo (pp_start p) \<and> not_after hi (pp_start p)) \<and>
           rostered company_id driver_id db p) (periods db))"

definition finalized_payroll_touched ::
  "int \<Rightarrow> int \<Rightarrow> date option \<Rightarrow> date option \<Rightarrow> footprint_mode \<Rightarrow> payroll_db \<Rightarrow> period_row list" where
  "finalized_payroll_touched company_id driver_id lo hi mode db =
     filter (\<lambda>p. pp_status p \<in> {''Locked'', ''Archived''})
       (driver_payroll_periods_for_footprint company_id driver_id lo hi mode db)"

definition require_no_finalized_payroll ::
  "int \<Rightarrow> int \<Rightarrow> date option \<Rightarrow> date option \<Rightarrow> footprint_mode \<Rightarrow> payroll_db \<Rightarrow> unit result" where
  "require_no_finalized_payroll company_id driver_id lo hi mode db =
     (case (lo, hi) of
        (Some l, Some h) \<Rightarrow> if h < l then Inr () else
          guard_r (finalized_payroll_touched company_id driver_id lo hi mode db = [])
            (HttpError 422 ''DRIVER_COMPENSATION_IN_FINALIZED_PERIOD'')
      | _ \<Rightarrow> guard_r (finalized_payroll_touched company_id driver_id lo hi mode db = [])
            (HttpError 422 ''DRIVER_COMPENSATION_IN_FINALIZED_PERIOD''))"

section \<open>Visibility\<close>

record read_scope =
  rs_full :: bool
  rs_windows :: "(date \<times> date) list"

definition scope_covers :: "read_scope \<Rightarrow> date \<Rightarrow> bool" where
  "scope_covers scope d \<longleftrightarrow> rs_full scope \<or> (\<exists>(f, l)\<in>set (rs_windows scope). f \<le> d \<and> d \<le> l)"

definition scope_sees :: "read_scope \<Rightarrow> string \<Rightarrow> date \<Rightarrow> date option \<Rightarrow> bool" where
  "scope_sees scope state f t \<longleftrightarrow>
     rs_full scope \<or> state \<noteq> ''Pending'' \<and>
     (\<exists>(w, v)\<in>set (rs_windows scope). f \<le> v \<and> (case t of None \<Rightarrow> True | Some e \<Rightarrow> w \<le> e))"

definition may_read :: "int \<Rightarrow> int \<Rightarrow> int option \<Rightarrow> compensation_state \<Rightarrow> bool" where
  "may_read company_id user_id branch_id co \<longleftrightarrow>
     has_any_permission company_id user_id branch_id rate_read (users (co_db co)) (co_access co)"

definition driver_compensation_read_scope ::
  "zone_env \<Rightarrow> int \<Rightarrow> int \<Rightarrow> int \<Rightarrow> int \<Rightarrow> compensation_state \<Rightarrow> read_scope result" where
  "driver_compensation_read_scope env company_id user_id driver_id instant co =
     bind_r (require_non_driver_subject company_id user_id (co_access co)) (\<lambda>_.
     bind_r (require_driver company_id driver_id (co_db co)) (\<lambda>_.
     if may_read company_id user_id None co then Inr \<lparr>rs_full = True, rs_windows = []\<rparr>
     else
       let tenures = load_driver_tenures env company_id driver_id (co_db co);
           readable = filter (\<lambda>t. may_read company_id user_id (Some (tn_branch_id t)) co) tenures
       in if \<exists>t\<in>set readable. is_authority t instant then Inr \<lparr>rs_full = True, rs_windows = []\<rparr>
          else let windows = [(tn_first_day t, l). t \<leftarrow> readable,
                 l \<leftarrow> (case tn_last_day t of None \<Rightarrow> [] | Some l \<Rightarrow> [l])]
               in if windows = [] then Inl permission_denied
                  else Inr \<lparr>rs_full = False, rs_windows = windows\<rparr>))"

definition is_forbidden :: "py_error \<Rightarrow> bool" where
  "is_forbidden e \<longleftrightarrow> (case e of HttpError code _ \<Rightarrow> code = 403 | _ \<Rightarrow> False)"

text \<open>The read scope, whether a Pending row may be discarded, and whether a tenure has not ended.\<close>

definition driver_compensation_access ::
  "zone_env \<Rightarrow> int \<Rightarrow> int \<Rightarrow> int \<Rightarrow> int \<Rightarrow> compensation_state \<Rightarrow> (read_scope \<times> bool \<times> bool) result" where
  "driver_compensation_access env company_id user_id driver_id instant co =
     bind_r (driver_compensation_read_scope env company_id user_id driver_id instant co) (\<lambda>scope.
     let live = (\<exists>t\<in>set (load_driver_tenures env company_id driver_id (co_db co)). is_authority t instant) in
     case require_compensation_authority env company_id user_id driver_id Current instant co of
       Inr _ \<Rightarrow> Inr (scope, True, live)
     | Inl e \<Rightarrow> if is_forbidden e then Inr (scope, False, live) else Inl e)"

end
