(* ===== verification/Rate_Schedules.thy ===== *)
theory Rate_Schedules
  imports Compensation_Context
begin

text \<open>
  The authoring of Driver rate schedules (\<open>compensation/schedules.py\<close>): create, edit, fill in,
  approve with the supersession of the schedule in force, discard and void, and the reads.  The
  triggers and indexes of \<open>migrations/sql/0082\<close>, \<open>0088\<close> and \<open>0090\<close> that can refuse what the service
  lets through are part of the writers; the checks the service has already made on the same rows
  are not repeated.  A value row whose amount is \<open>NULL\<close> reads as no row and is no row here.  The
  timestamps are left out; the response of a writer is \<open>schedule_summary\<close> in the new state.
\<close>

section \<open>Requests and rows\<close>

record schedule_create =
  sc_driver_id :: int
  sc_rate_definition_id :: int
  sc_effective_from :: date
  sc_effective_to :: "date option"
  sc_notes :: "string option"

text \<open>A field that was not sent is \<open>None\<close>.\<close>

record schedule_update =
  su_effective_from :: "date option"
  su_effective_to :: "date option option"
  su_notes :: "string option option"

text \<open>\<open>RateAmount\<close> of the request schema.\<close>

definition rate_amount :: "decimal \<Rightarrow> bool" where
  "rate_amount a \<longleftrightarrow> 0 \<le> a \<and> a < 10 ^ 14 \<and> of_int \<lfloor>a * 10 ^ 4\<rfloor> = a * 10 ^ 4"

definition compensation_error :: "string \<Rightarrow> nat \<Rightarrow> py_error" where
  "compensation_error code status = HttpError status code"

definition schedule_not_found :: py_error where
  "schedule_not_found = compensation_error ''SCHEDULE_NOT_FOUND'' 404"

definition load_schedule_row :: "int \<Rightarrow> int \<Rightarrow> compensation_state \<Rightarrow> schedule_row result" where
  "load_schedule_row company_id schedule_id co =
     (case find_first (\<lambda>s. sch_id s = schedule_id \<and> sch_company_id s = company_id) (rate_schedules (co_db co)) of
        None \<Rightarrow> Inl schedule_not_found | Some s \<Rightarrow> Inr s)"

definition require_same_schedule :: "schedule_row \<Rightarrow> schedule_row \<Rightarrow> unit result" where
  "require_same_schedule locked pre =
     guard_r (sch_driver_id locked = sch_driver_id pre \<and>
         sch_rate_definition_id locked = sch_rate_definition_id pre \<and>
         sch_effective_from locked = sch_effective_from pre)
       (compensation_error ''SCHEDULE_CHANGED'' 409)"

definition require_pending :: "schedule_row \<Rightarrow> unit result" where
  "require_pending row = guard_r (sch_status row = ''Pending'') (compensation_error ''SCHEDULE_NOT_PENDING'' 409)"

definition require_independent_approver :: "int \<Rightarrow> int \<Rightarrow> schedule_row \<Rightarrow> compensation_state \<Rightarrow> unit result" where
  "require_independent_approver company_id user_id row co =
     (let columns = co_schedules co (sch_id row) in
      if Some user_id \<notin> {Some (sm_created_by columns), sm_updated_by columns} then Inr ()
      else guard_r (company_allows_self_approval company_id (co_access co))
        (compensation_error ''RATE_SCHEDULE_SELF_APPROVAL_DISALLOWED'' 403))"

definition require_voidable :: "schedule_row \<Rightarrow> unit result" where
  "require_voidable row =
     (if sch_status row = ''Pending'' then Inl (compensation_error ''PENDING_CANNOT_BE_VOIDED'' 409)
      else guard_r (sch_status row \<in> {''Approved'', ''Superseded''})
        (compensation_error ''SCHEDULE_INVALID_TRANSITION'' 409))"

text \<open>One entry per component of the RateDefinition; a missing value is \<open>None\<close>.\<close>

definition load_values :: "int \<Rightarrow> int \<Rightarrow> payroll_db \<Rightarrow> resolved_component list" where
  "load_values schedule_id rate_definition_id db =
     map (component_value db schedule_id)
       (sort_key cmp_sequence_no
         (filter (\<lambda>c. cmp_rate_definition_id c = rate_definition_id) (rate_components db)))"

definition schedule_summary ::
  "int \<Rightarrow> int \<Rightarrow> compensation_state \<Rightarrow> (schedule_row \<times> schedule_columns \<times> resolved_component list) result" where
  "schedule_summary company_id schedule_id co =
     map_r (\<lambda>row. (row, co_schedules co schedule_id,
         load_values schedule_id (sch_rate_definition_id row) (co_db co)))
       (load_schedule_row company_id schedule_id co)"

section \<open>Shared checks\<close>

definition authorable_shapes :: "string list" where
  "authorable_shapes = [''Scalar'', ''OrdinalTierSchedule'']"

definition authorable_rate_definition :: "int \<Rightarrow> int \<Rightarrow> compensation_state \<Rightarrow> rate_definition_row result" where
  "authorable_rate_definition company_id rate_definition_id co =
     (case find_rate_definition company_id (co_db co) rate_definition_id of
        None \<Rightarrow> Inl (compensation_error ''RATE_DEFINITION_NOT_FOUND'' 404)
      | Some d \<Rightarrow>
          if rd_shape d \<notin> set authorable_shapes
          then Inl (compensation_error ''RATE_DEFINITION_NOT_AUTHORABLE'' 422)
          else case rd_status_rate_column_id d of
            Some column \<Rightarrow>
              if column \<in> set (co_active_columns co) then Inr d
              else Inl (compensation_error ''STATUS_RATE_COLUMN_NOT_ACTIVE'' 422)
          | None \<Rightarrow>
              if map_option pf_status (Option.bind (rd_pay_definition_id d)
                  (\<lambda>i. find_first (\<lambda>f. pf_id f = i) (cr_definitions (co_creation co)))) = Some ''Active''
              then Inr d else Inl (compensation_error ''PAY_DEFINITION_NOT_ACTIVE'' 422))"

definition validate_window :: "date \<Rightarrow> date option \<Rightarrow> unit result" where
  "validate_window effective_from effective_to =
     guard_r (case effective_to of None \<Rightarrow> True | Some e \<Rightarrow> effective_from \<le> e)
       (compensation_error ''INVALID_EFFECTIVE_WINDOW'' 422)"

text \<open>The monetary guard of \<open>lock_driver_compensation_write\<close>; its locks change nothing.\<close>

definition lock_monetary_write :: "int \<Rightarrow> compensation_state \<Rightarrow> company_currency result" where
  "lock_monetary_write company_id co = lock_and_get_company_currency company_id (cr_workflow (co_creation co))"

definition with_schedules :: "schedule_row list \<Rightarrow> compensation_state \<Rightarrow> compensation_state" where
  "with_schedules rows = update_db (\<lambda>db. db\<lparr>rate_schedules := rows\<rparr>)"

definition update_schedule_columns ::
  "int \<Rightarrow> (schedule_columns \<Rightarrow> schedule_columns) \<Rightarrow> compensation_state \<Rightarrow> compensation_state" where
  "update_schedule_columns schedule_id f co =
     co\<lparr>co_schedules := (co_schedules co)(schedule_id := f (co_schedules co schedule_id))\<rparr>"

definition same_rate :: "schedule_row \<Rightarrow> schedule_row \<Rightarrow> bool" where
  "same_rate s t \<longleftrightarrow> sch_driver_id s = sch_driver_id t \<and> sch_rate_definition_id s = sch_rate_definition_id t"

section \<open>Pending schedules\<close>

definition insert_schedule ::
  "int \<Rightarrow> int \<Rightarrow> schedule_create \<Rightarrow> rate_definition_row \<Rightarrow> compensation_state \<Rightarrow> compensation_state result" where
  "insert_schedule company_id user_id data d co =
     (let row = \<lparr>sch_id = co_next_schedule co, sch_company_id = company_id, sch_driver_id = sc_driver_id data,
            sch_rate_definition_id = sc_rate_definition_id data, sch_status = ''Pending'',
            sch_effective_from = sc_effective_from data, sch_effective_to = sc_effective_to data\<rparr>;
          columns = \<lparr>sm_pay_definition_id = rd_pay_definition_id d,
            sm_status_column_id = rd_status_rate_column_id d, sm_created_by = user_id, sm_updated_by = None,
            sm_approved_by = None, sm_voided_by = None, sm_void_reason = None, sm_notes = sc_notes data\<rparr>
      in if \<exists>s\<in>set (rate_schedules (co_db co)). same_rate s row \<and> sch_status s = ''Pending''
         then Inl (compensation_error ''PENDING_SCHEDULE_EXISTS'' 409)
         else Inr (update_schedule_columns (co_next_schedule co) (\<lambda>_. columns)
           (with_schedules (rate_schedules (co_db co) @ [row])
             (co\<lparr>co_next_schedule := co_next_schedule co + 1\<rparr>))))"

definition create_pending ::
  "zone_env \<Rightarrow> request_clock \<Rightarrow> int \<Rightarrow> int \<Rightarrow> schedule_create \<Rightarrow> compensation_state \<Rightarrow> compensation_state
   \<Rightarrow> compensation_state result" where
  "create_pending env ck company_id user_id data seen co =
     (let driver = sc_driver_id data; start = sc_effective_from data; rid = sc_rate_definition_id data in
      bind_r (require_compensation_authority env company_id user_id driver (WriteFrom start) (ck_first ck) seen) (\<lambda>_.
      bind_r (authorable_rate_definition company_id rid seen) (\<lambda>_.
      bind_r (validate_window start (sc_effective_to data)) (\<lambda>_.
      bind_r (authorable_rate_definition company_id rid co) (\<lambda>d.
      bind_r (require_compensation_authority env company_id user_id driver (WriteFrom start) (ck_decision ck) co) (\<lambda>_.
      insert_schedule company_id user_id data d co))))))"

definition updated_by :: "int \<Rightarrow> schedule_columns \<Rightarrow> schedule_columns" where
  "updated_by user_id columns = columns\<lparr>sm_updated_by := Some user_id\<rparr>"

definition write_window :: "int \<Rightarrow> date \<Rightarrow> date option \<Rightarrow> schedule_row list \<Rightarrow> schedule_row list" where
  "write_window schedule_id f t =
     map (\<lambda>s. if sch_id s = schedule_id \<and> sch_status s = ''Pending''
       then s\<lparr>sch_effective_from := f, sch_effective_to := t\<rparr> else s)"

definition update_pending ::
  "zone_env \<Rightarrow> request_clock \<Rightarrow> int \<Rightarrow> int \<Rightarrow> int \<Rightarrow> schedule_update \<Rightarrow> compensation_state
   \<Rightarrow> compensation_state \<Rightarrow> compensation_state result" where
  "update_pending env ck company_id user_id schedule_id data seen co =
     (let new_from = (\<lambda>row. case su_effective_from data of None \<Rightarrow> sch_effective_from row | Some f \<Rightarrow> f);
          new_to = (\<lambda>row. case su_effective_to data of None \<Rightarrow> sch_effective_to row | Some t \<Rightarrow> t) in
      bind_r (load_schedule_row company_id schedule_id seen) (\<lambda>pre.
      bind_r (require_compensation_authority env company_id user_id (sch_driver_id pre) (WriteFrom (new_from pre))
        (ck_first ck) seen) (\<lambda>_.
      bind_r (load_schedule_row company_id schedule_id co) (\<lambda>row.
      bind_r (require_pending row) (\<lambda>_.
      bind_r (validate_window (new_from row) (new_to row)) (\<lambda>_.
      bind_r (authorable_rate_definition company_id (sch_rate_definition_id row) co) (\<lambda>_.
      bind_r (require_compensation_authority env company_id user_id (sch_driver_id row) (WriteFrom (new_from row))
        (ck_decision ck) co) (\<lambda>_.
      Inr (update_schedule_columns schedule_id
        (\<lambda>c. updated_by user_id (c\<lparr>sm_notes := (case su_notes data of None \<Rightarrow> sm_notes c | Some n \<Rightarrow> n)\<rparr>))
        (with_schedules (write_window schedule_id (new_from row) (new_to row) (rate_schedules (co_db co))) co))))))))))"

text \<open>The insert with \<open>ON CONFLICT ... DO UPDATE\<close> of one value.\<close>

definition upsert_value :: "int \<Rightarrow> int \<times> decimal option \<Rightarrow> schedule_value_row list \<Rightarrow> schedule_value_row list" where
  "upsert_value schedule_id = (\<lambda>(component, amount) vs.
     let others = filter (\<lambda>v. \<not> (val_schedule_id v = schedule_id \<and> val_component_id v = component)) vs
     in case amount of None \<Rightarrow> others
        | Some a \<Rightarrow> others @ [\<lparr>val_schedule_id = schedule_id, val_component_id = component, val_amount = a\<rparr>])"

definition write_values ::
  "int \<Rightarrow> (int \<times> decimal option) list \<Rightarrow> schedule_value_row list \<Rightarrow> schedule_value_row list" where
  "write_values schedule_id sent vs =
     fold (upsert_value schedule_id) sent
       (filter (\<lambda>v. val_schedule_id v \<noteq> schedule_id \<or> val_component_id v \<in> set (map fst sent)) vs)"

definition replace_values ::
  "zone_env \<Rightarrow> request_clock \<Rightarrow> int \<Rightarrow> int \<Rightarrow> int \<Rightarrow> (int \<times> decimal option) list \<Rightarrow> compensation_state
   \<Rightarrow> compensation_state \<Rightarrow> compensation_state result" where
  "replace_values env ck company_id user_id schedule_id sent seen co =
     bind_r (load_schedule_row company_id schedule_id seen) (\<lambda>pre.
     bind_r (require_compensation_authority env company_id user_id (sch_driver_id pre)
       (WriteFrom (sch_effective_from pre)) (ck_first ck) seen) (\<lambda>_.
     bind_r (require_pending pre) (\<lambda>_.
     bind_r (lock_monetary_write company_id co) (\<lambda>_.
     bind_r (load_schedule_row company_id schedule_id co) (\<lambda>row.
     bind_r (require_same_schedule row pre) (\<lambda>_.
     bind_r (require_pending row) (\<lambda>_.
     bind_r (require_compensation_authority env company_id user_id (sch_driver_id row)
       (WriteFrom (sch_effective_from row)) (ck_decision ck) co) (\<lambda>_.
     let components = map rc_component_id (load_values schedule_id (sch_rate_definition_id row) (co_db co));
         submitted = map fst sent in
     bind_r (guard_r (distinct submitted) (compensation_error ''DUPLICATE_COMPONENT_VALUE'' 422)) (\<lambda>_.
     bind_r (guard_r (set submitted \<subseteq> set components) (compensation_error ''UNKNOWN_COMPONENT'' 422)) (\<lambda>_.
     Inr (update_schedule_columns schedule_id (updated_by user_id)
       (update_db (\<lambda>db. db\<lparr>schedule_values := write_values schedule_id sent (schedule_values db)\<rparr>) co))))))))))))"

definition discard ::
  "zone_env \<Rightarrow> request_clock \<Rightarrow> int \<Rightarrow> int \<Rightarrow> int \<Rightarrow> compensation_state \<Rightarrow> compensation_state
   \<Rightarrow> compensation_state result" where
  "discard env ck company_id user_id schedule_id seen co =
     bind_r (load_schedule_row company_id schedule_id seen) (\<lambda>pre.
     bind_r (require_compensation_authority env company_id user_id (sch_driver_id pre) Current (ck_first ck) seen) (\<lambda>_.
     bind_r (load_schedule_row company_id schedule_id co) (\<lambda>row.
     bind_r (require_pending row) (\<lambda>_.
     bind_r (require_compensation_authority env company_id user_id (sch_driver_id row) Current (ck_decision ck) co) (\<lambda>_.
     Inr (update_db (\<lambda>db. db\<lparr>rate_schedules := filter (\<lambda>s. \<not> (sch_id s = schedule_id \<and> sch_status s = ''Pending''))
              (rate_schedules db),
            schedule_values := filter (\<lambda>v. val_schedule_id v \<noteq> schedule_id) (schedule_values db)\<rparr>)
       (co\<lparr>co_audit := co_audit co @ [\<lparr>ad_company_id = sch_company_id row, ad_branch_id = None,
          ad_actor = user_id, ad_action = ''DRIVER_RATE_SCHEDULE_DISCARDED'', ad_entity = ''DriverRateSchedules'',
          ad_entity_id = schedule_id\<rparr>]\<rparr>)))))))"

section \<open>Approval\<close>

text \<open>The later of two inclusive ends, where \<open>None\<close> is unbounded.\<close>

definition later_end :: "date option \<Rightarrow> date option \<Rightarrow> date option" where
  "later_end a b = (case (a, b) of (Some x, Some y) \<Rightarrow> Some (max x y) | _ \<Rightarrow> None)"

definition approved_prior :: "schedule_row \<Rightarrow> compensation_state \<Rightarrow> schedule_row option" where
  "approved_prior row co =
     find_first (\<lambda>s. same_rate s row \<and> sch_status s = ''Approved'') (rate_schedules (co_db co))"

text \<open>\<open>payroll.fn_AssertRateStructureComplete\<close>.\<close>

fun invalid_topology :: "int option \<Rightarrow> component_row list \<Rightarrow> bool" where
  "invalid_topology prev [] \<longleftrightarrow> False"
| "invalid_topology prev [c] \<longleftrightarrow> cmp_ordinal_from c \<noteq> map_option (\<lambda>p. p + 1) prev \<or> cmp_ordinal_to c \<noteq> None"
| "invalid_topology prev (c # d # cs) \<longleftrightarrow> cmp_ordinal_from c \<noteq> map_option (\<lambda>p. p + 1) prev \<or>
     cmp_ordinal_to c = None \<or> invalid_topology (cmp_ordinal_to c) (d # cs)"

definition assert_rate_structure_complete :: "int \<Rightarrow> payroll_db \<Rightarrow> unit result" where
  "assert_rate_structure_complete rate_definition_id db =
     (let shape = map_option rd_shape (find_first (\<lambda>d. rate_definition_row.rd_id d = rate_definition_id) (rate_definitions db));
          cs = sort_key cmp_sequence_no
            (filter (\<lambda>c. cmp_rate_definition_id c = rate_definition_id) (rate_components db))
      in if cs = [] \<or> shape = Some ''Scalar'' \<and> length cs \<noteq> 1
         then Inl (compensation_error ''RATE_STRUCTURE_INCOMPLETE'' 422)
         else if shape = Some ''OrdinalTierSchedule'' \<and>
              invalid_topology (if cmp_ordinal_from (hd cs) = None then None else Some 0) cs
         then Inl (compensation_error ''RATE_STRUCTURE_INVALID_TOPOLOGY'' 422)
         else Inr ())"

definition is_authoritative :: "schedule_row \<Rightarrow> bool" where
  "is_authoritative s \<longleftrightarrow> sch_status s \<in> {''Approved'', ''Superseded''}"

text \<open>\<open>daterange(from, to, '[]') && daterange(from, to, '[]')\<close>.\<close>

definition windows_overlap :: "date \<Rightarrow> date option \<Rightarrow> date \<Rightarrow> date option \<Rightarrow> bool" where
  "windows_overlap f t f' t' \<longleftrightarrow> not_after t f' \<and> not_after t' f"

definition schedules_overlap :: "schedule_row \<Rightarrow> schedule_row \<Rightarrow> bool" where
  "schedules_overlap s t \<longleftrightarrow> same_rate s t \<and>
     windows_overlap (sch_effective_from s) (sch_effective_to s) (sch_effective_from t) (sch_effective_to t)"

text \<open>The statement that closes the prior schedule, and its trigger.\<close>

definition close_on :: "date \<Rightarrow> schedule_row \<Rightarrow> date" where
  "close_on start prior =
     (case sch_effective_to prior of None \<Rightarrow> start - 1 | Some e \<Rightarrow> if e < start - 1 then e else start - 1)"

definition supersede_row :: "schedule_row \<Rightarrow> date \<Rightarrow> schedule_row list \<Rightarrow> schedule_row list" where
  "supersede_row prior on =
     map (\<lambda>s. if sch_id s = sch_id prior then s\<lparr>sch_status := ''Superseded'', sch_effective_to := Some on\<rparr> else s)"

definition supersede ::
  "zone_env \<Rightarrow> int \<Rightarrow> int \<Rightarrow> schedule_row \<Rightarrow> schedule_row \<Rightarrow> compensation_state \<Rightarrow> compensation_state result" where
  "supersede env instant user_id row prior co =
     (let on = close_on (sch_effective_from row) prior in
      bind_r (case tail_start (sch_effective_to prior) (Some on) of
          None \<Rightarrow> Inr ()
        | Some d \<Rightarrow> context_writable env (sch_company_id prior) (sch_driver_id prior) d instant (co_db co)) (\<lambda>_.
      Inr (update_schedule_columns (sch_id prior) (updated_by user_id)
        (with_schedules (supersede_row prior on (rate_schedules (co_db co))) co))))"

definition approve_row :: "int \<Rightarrow> schedule_row list \<Rightarrow> schedule_row list" where
  "approve_row schedule_id =
     map (\<lambda>s. if sch_id s = schedule_id \<and> sch_status s = ''Pending'' then s\<lparr>sch_status := ''Approved''\<rparr> else s)"

text \<open>The approving statement with its triggers, the structure lock and the two indexes.\<close>

definition promote ::
  "zone_env \<Rightarrow> int \<Rightarrow> int \<Rightarrow> schedule_row \<Rightarrow> compensation_state \<Rightarrow> compensation_state result" where
  "promote env instant user_id row co =
     (let rid = sch_rate_definition_id row; others = filter (same_rate row) (rate_schedules (co_db co)) in
      bind_r (assert_rate_structure_complete rid (co_db co)) (\<lambda>_.
      bind_r (guard_r (\<not> (\<exists>s\<in>set others. sch_status s = ''Approved''))
        (compensation_error ''APPROVED_SCHEDULE_EXISTS'' 409)) (\<lambda>_.
      bind_r (guard_r (\<not> (\<exists>s\<in>set others. is_authoritative s \<and> schedules_overlap row s))
        (compensation_error ''SCHEDULE_WINDOW_OVERLAP'' 409)) (\<lambda>_.
      bind_r (context_writable env (sch_company_id row) (sch_driver_id row) (sch_effective_from row) instant (co_db co)) (\<lambda>_.
      Inr (update_schedule_columns (sch_id row) (\<lambda>c. updated_by user_id (c\<lparr>sm_approved_by := Some user_id\<rparr>))
        (with_schedules (approve_row (sch_id row) (rate_schedules (co_db co)))
          (co\<lparr>co_creation := (co_creation co)\<lparr>cr_locked := cr_locked (co_creation co) @
             (if rid \<in> set (cr_locked (co_creation co)) then [] else [rid])\<rparr>\<rparr>))))))))"

definition approve ::
  "zone_env \<Rightarrow> request_clock \<Rightarrow> int \<Rightarrow> int \<Rightarrow> int \<Rightarrow> compensation_state \<Rightarrow> compensation_state
   \<Rightarrow> compensation_state result" where
  "approve env ck company_id user_id schedule_id seen co =
     bind_r (load_schedule_row company_id schedule_id seen) (\<lambda>pre.
     bind_r (require_compensation_authority env company_id user_id (sch_driver_id pre)
       (WriteFrom (sch_effective_from pre)) (ck_first ck) seen) (\<lambda>_.
     bind_r (require_pending pre) (\<lambda>_.
     bind_r (lock_monetary_write company_id co) (\<lambda>_.
     bind_r (load_schedule_row company_id schedule_id co) (\<lambda>row.
     bind_r (require_same_schedule row pre) (\<lambda>_.
     bind_r (require_pending row) (\<lambda>_.
     bind_r (require_independent_approver company_id user_id row co) (\<lambda>_.
     bind_r (authorable_rate_definition company_id (sch_rate_definition_id row) co) (\<lambda>_.
     let stored = load_values schedule_id (sch_rate_definition_id row) (co_db co); prior = approved_prior row co in
     bind_r (guard_r (stored \<noteq> [] \<and> (\<forall>v\<in>set stored. rc_amount v \<noteq> None))
       (compensation_error ''SCHEDULE_INCOMPLETE'' 422)) (\<lambda>_.
     bind_r (guard_r (case prior of None \<Rightarrow> True | Some p \<Rightarrow> sch_effective_from p < sch_effective_from row)
       (compensation_error ''SUCCESSOR_NOT_AFTER_CURRENT'' 422)) (\<lambda>_.
     bind_r (require_compensation_authority env company_id user_id (sch_driver_id row)
       (WriteFrom (sch_effective_from row)) (ck_decision ck) co) (\<lambda>_.
     bind_r (require_no_finalized_payroll company_id (sch_driver_id row) (Some (sch_effective_from row))
       (case prior of None \<Rightarrow> sch_effective_to row
        | Some p \<Rightarrow> later_end (sch_effective_to row) (sch_effective_to p)) WorkDate (co_db co)) (\<lambda>_.
     bind_r (case prior of None \<Rightarrow> Inr co | Some p \<Rightarrow> supersede env (ck_statement ck) user_id row p co) (\<lambda>co1.
     promote env (ck_statement ck) user_id row co1))))))))))))))"

section \<open>Voiding\<close>

definition void_row :: "int \<Rightarrow> schedule_row list \<Rightarrow> schedule_row list" where
  "void_row schedule_id =
     map (\<lambda>s. if sch_id s = schedule_id \<and> is_authoritative s then s\<lparr>sch_status := ''Voided''\<rparr> else s)"

definition void ::
  "zone_env \<Rightarrow> request_clock \<Rightarrow> int \<Rightarrow> int \<Rightarrow> int \<Rightarrow> string \<Rightarrow> compensation_state \<Rightarrow> compensation_state
   \<Rightarrow> compensation_state result" where
  "void env ck company_id user_id schedule_id reason seen co =
     bind_r (load_schedule_row company_id schedule_id seen) (\<lambda>pre.
     bind_r (require_compensation_authority env company_id user_id (sch_driver_id pre)
       (WriteFrom (sch_effective_from pre)) (ck_first ck) seen) (\<lambda>_.
     bind_r (require_voidable pre) (\<lambda>_.
     bind_r (lock_monetary_write company_id co) (\<lambda>_.
     bind_r (load_schedule_row company_id schedule_id co) (\<lambda>row.
     bind_r (require_same_schedule row pre) (\<lambda>_.
     bind_r (require_voidable row) (\<lambda>_.
     bind_r (require_compensation_authority env company_id user_id (sch_driver_id row)
       (WriteFrom (sch_effective_from row)) (ck_decision ck) co) (\<lambda>_.
     bind_r (require_no_finalized_payroll company_id (sch_driver_id row) (Some (sch_effective_from row))
       (sch_effective_to row) WorkDate (co_db co)) (\<lambda>_.
     bind_r (context_writable env (sch_company_id row) (sch_driver_id row) (sch_effective_from row)
       (ck_statement ck) (co_db co)) (\<lambda>_.
     Inr (update_schedule_columns schedule_id
       (\<lambda>c. updated_by user_id (c\<lparr>sm_voided_by := Some user_id, sm_void_reason := Some reason\<rparr>))
       (with_schedules (void_row schedule_id (rate_schedules (co_db co))) co))))))))))))"

section \<open>Reads\<close>

definition get_schedule ::
  "zone_env \<Rightarrow> int \<Rightarrow> int \<Rightarrow> int \<Rightarrow> int \<Rightarrow> compensation_state
   \<Rightarrow> (schedule_row \<times> schedule_columns \<times> resolved_component list) result" where
  "get_schedule env instant company_id user_id schedule_id co =
     bind_r (load_schedule_row company_id schedule_id co) (\<lambda>row.
     bind_r (driver_compensation_read_scope env company_id user_id (sch_driver_id row) instant co) (\<lambda>scope.
     if \<not> scope_sees scope (sch_status row) (sch_effective_from row) (sch_effective_to row)
     then Inl schedule_not_found else schedule_summary company_id schedule_id co))"

text \<open>The rows of a Driver the scope shows.\<close>

definition visible_schedules :: "read_scope \<Rightarrow> int \<Rightarrow> int \<Rightarrow> int \<Rightarrow> compensation_state \<Rightarrow> schedule_row list" where
  "visible_schedules scope company_id driver_id rate_definition_id co =
     filter (\<lambda>s. sch_company_id s = company_id \<and> sch_driver_id s = driver_id \<and>
         sch_rate_definition_id s = rate_definition_id \<and>
         scope_sees scope (sch_status s) (sch_effective_from s) (sch_effective_to s))
       (rate_schedules (co_db co))"

definition history ::
  "zone_env \<Rightarrow> int \<Rightarrow> int \<Rightarrow> int \<Rightarrow> int \<Rightarrow> int \<Rightarrow> compensation_state
   \<Rightarrow> (schedule_row \<times> schedule_columns \<times> resolved_component list) list result" where
  "history env instant company_id user_id driver_id rate_definition_id co =
     bind_r (driver_compensation_read_scope env company_id user_id driver_id instant co) (\<lambda>scope.
     case find_rate_definition company_id (co_db co) rate_definition_id of
       None \<Rightarrow> Inl (compensation_error ''RATE_DEFINITION_NOT_FOUND'' 404)
     | Some _ \<Rightarrow> mapM (\<lambda>s. schedule_summary company_id (sch_id s) co)
         (sort_key (\<lambda>s. (- sch_effective_from s, - sch_id s))
           (visible_schedules scope company_id driver_id rate_definition_id co)))"

text \<open>
  The rate state of one authorable definition on the reference date, as \<open>driver_pay_rates\<close> picks it
  from the visible schedules in the order of their start.
\<close>

record pay_rate_state =
  py_current :: "(schedule_row \<times> resolved_component list) option"
  py_future :: "(schedule_row \<times> resolved_component list) option"
  py_pending :: "(schedule_row \<times> resolved_component list) option"

definition pay_rate_state_of ::
  "read_scope \<Rightarrow> int \<Rightarrow> int \<Rightarrow> int \<Rightarrow> date \<Rightarrow> compensation_state \<Rightarrow> pay_rate_state" where
  "pay_rate_state_of scope company_id driver_id rate_definition_id reference co =
     (let briefs = sort_key (\<lambda>s. (sch_effective_from s, sch_id s))
            (filter (\<lambda>s. sch_status s \<noteq> ''Voided'') (visible_schedules scope company_id driver_id rate_definition_id co));
          pick = (\<lambda>P. map_option (\<lambda>s. (s, load_values (sch_id s) rate_definition_id (co_db co))) (find_first P briefs))
      in \<lparr>py_current = pick (\<lambda>s. is_authoritative s \<and> in_window (sch_effective_from s) (sch_effective_to s) reference),
          py_future = pick (\<lambda>s. sch_status s = ''Approved'' \<and> reference < sch_effective_from s),
          py_pending = pick (\<lambda>s. sch_status s = ''Pending'')\<rparr>)"

definition authorable_definitions :: "int \<Rightarrow> compensation_state \<Rightarrow> rate_definition_row list" where
  "authorable_definitions company_id co =
     [d. f \<leftarrow> cr_definitions (co_creation co), d \<leftarrow> rate_definitions (co_db co),
        rd_pay_definition_id d = Some (pf_id f) \<and> pf_company_id f = company_id \<and> pf_status f = ''Active''] @
     [d. column \<leftarrow> status_columns (co_db co), d \<leftarrow> rate_definitions (co_db co), c \<leftarrow> rate_components (co_db co),
        rd_status_rate_column_id d = Some (col_id column) \<and> rd_shape d = ''Scalar'' \<and>
        col_company_id column = company_id \<and> col_id column \<in> set (co_active_columns co) \<and>
        cmp_rate_definition_id c = rate_definition_row.rd_id d \<and> cmp_sequence_no c = 1]"

text \<open>The rows of the screen in the order of the tables; the reference date is an argument.\<close>

definition driver_pay_rates ::
  "zone_env \<Rightarrow> int \<Rightarrow> int \<Rightarrow> int \<Rightarrow> int \<Rightarrow> date \<Rightarrow> compensation_state
   \<Rightarrow> (rate_definition_row \<times> pay_rate_state) list result" where
  "driver_pay_rates env instant company_id user_id driver_id reference co =
     map_r (\<lambda>scope. map (\<lambda>d. (d, pay_rate_state_of scope company_id driver_id (rate_definition_row.rd_id d) reference co))
         (authorable_definitions company_id co))
       (driver_compensation_read_scope env company_id user_id driver_id instant co)"

end
