(* ===== verification/Dated_Rows.thy ===== *)
theory Dated_Rows
  imports Prelude
begin

text \<open>
  The contract of an effective-dated table: rows have an identity, and for each key at most one row
  is in force on a date, which an exclusion constraint of the database guarantees.  What a statement
  on one row does to the row in force is proved here once; the tables of rate schedules and of pay
  rules are the two instances.
\<close>

lemma option_eqI: "(\<And>i. x = Some i \<longleftrightarrow> y = Some i) \<Longrightarrow> x = y"
  by (cases x; cases y) auto

lemma find_first_cong: "(\<And>x. x \<in> set xs \<Longrightarrow> p x = q x) \<Longrightarrow> find_first p xs = find_first q xs"
  by (induction xs) auto

locale dated_rows =
  fixes ident :: "'r \<Rightarrow> int" and in_force :: "'k \<Rightarrow> date \<Rightarrow> 'r \<Rightarrow> bool" and ok :: "'r list \<Rightarrow> bool"
  assumes ids: "ok S \<Longrightarrow> distinct (map ident S)"
    and exclusion: "ok S \<Longrightarrow> r \<in> set S \<Longrightarrow> s \<in> set S \<Longrightarrow> in_force k d r \<Longrightarrow> in_force k d s \<Longrightarrow> r = s"
begin

lemma same_row: "ok S \<Longrightarrow> r \<in> set S \<Longrightarrow> s \<in> set S \<Longrightarrow> ident r = ident s \<longleftrightarrow> r = s"
  using ids by (auto simp: distinct_map inj_on_def)

lemma find_in_force:
  assumes "ok S"
  shows "find_first (in_force k d) S = Some r \<longleftrightarrow> r \<in> set S \<and> in_force k d r"
proof
  assume r: "r \<in> set S \<and> in_force k d r"
  then obtain s where s: "find_first (in_force k d) S = Some s"
    by (cases "find_first (in_force k d) S") (auto simp: find_first_None_iff)
  with exclusion [OF assms, of r s k d] r find_first_SomeD [OF s] show "find_first (in_force k d) S = Some r" by simp
qed (auto dest: find_first_SomeD)

lemma in_force_Some:
  assumes "ok S"
  shows "map_option ident (find_first (in_force k d) S) = Some i \<longleftrightarrow> (\<exists>r\<in>set S. in_force k d r \<and> ident r = i)"
  by (auto simp: find_in_force [OF assms])

text \<open>The order of the rows does not matter.\<close>

lemma find_in_any_order:
  assumes "ok S" "set T \<subseteq> set S" "\<And>r. r \<in> set S \<Longrightarrow> in_force k d r \<Longrightarrow> r \<in> set T"
  shows "find_first (in_force k d) T = find_first (in_force k d) S"
proof (rule option_eqI)
  fix r
  show "find_first (in_force k d) T = Some r \<longleftrightarrow> find_first (in_force k d) S = Some r"
  proof
    assume "find_first (in_force k d) T = Some r"
    from find_first_SomeD [OF this] assms(2) have "r \<in> set S \<and> in_force k d r" by blast
    then show "find_first (in_force k d) S = Some r" by (simp only: find_in_force [OF assms(1)])
  next
    assume "find_first (in_force k d) S = Some r"
    then have r: "r \<in> set S" "in_force k d r" by (auto dest: find_first_SomeD)
    from r assms(3) [OF r] obtain s where s: "find_first (in_force k d) T = Some s"
      by (cases "find_first (in_force k d) T") (auto simp: find_first_None_iff)
    from find_first_SomeD [OF s] assms(2) have "s \<in> set S" "in_force k d s" by blast+
    with exclusion [OF assms(1) r(1) _ r(2)] s show "find_first (in_force k d) T = Some r" by blast
  qed
qed

text \<open>A statement that adds a row, and one that rewrites a row.\<close>

lemma find_insert:
  assumes "ok S" "ok (S @ [r])"
  shows "find_first (in_force k d) (S @ [r]) = (if in_force k d r then Some r else find_first (in_force k d) S)"
  using find_in_force [OF assms(1), of k d] find_in_force [OF assms(2), of k d] exclusion [OF assms(2), of r _ k d]
  by (intro option_eqI) auto

lemma find_rewrite:
  assumes "ok S" "ok (map f S)" "r \<in> set S" "\<And>s. s \<in> set S \<Longrightarrow> s \<noteq> r \<Longrightarrow> f s = s" "ident (f r) = ident r"
  shows "find_first (in_force k d) (map f S) = (if in_force k d (f r) then Some (f r)
     else if find_first (in_force k d) S = Some r then None else find_first (in_force k d) S)"
proof (cases "in_force k d (f r)")
  case True
  with assms(3) show ?thesis by (simp add: find_in_force [OF assms(2)])
next
  case False
  have "t \<in> f ` set S \<and> in_force k d t \<longleftrightarrow> t \<in> set S \<and> t \<noteq> r \<and> in_force k d t" for t
  proof
    assume "t \<in> f ` set S \<and> in_force k d t"
    with False assms(4) show "t \<in> set S \<and> t \<noteq> r \<and> in_force k d t" by (metis imageE)
  next
    assume "t \<in> set S \<and> t \<noteq> r \<and> in_force k d t"
    with assms(4) [of t] show "t \<in> f ` set S \<and> in_force k d t" by (metis image_eqI)
  qed
  then have moved: "find_first (in_force k d) (map f S) = Some t \<longleftrightarrow> find_first (in_force k d) S = Some t \<and> t \<noteq> r" for t
    by (auto simp: find_in_force [OF assms(1)] find_in_force [OF assms(2)])
  show ?thesis by (rule option_eqI) (use False moved in auto)
qed

lemma in_force_rewrite:
  assumes "ok S" "ok (map f S)" "r \<in> set S" "\<And>s. s \<in> set S \<Longrightarrow> s \<noteq> r \<Longrightarrow> f s = s" "ident (f r) = ident r"
  shows "map_option ident (find_first (in_force k d) (map f S)) =
    (if in_force k d (f r) then Some (ident r)
     else if map_option ident (find_first (in_force k d) S) = Some (ident r) then None
     else map_option ident (find_first (in_force k d) S))"
proof -
  have "map_option ident (find_first (in_force k d) S) = Some (ident r) \<longleftrightarrow> find_first (in_force k d) S = Some r"
    using same_row [OF assms(1) _ assms(3)] by (auto simp: find_in_force [OF assms(1)])
  with find_rewrite [OF assms, of k d] assms(5) show ?thesis by simp
qed

end

end
