(* ===== verification/Schedule_Facts.thy ===== *)
theory Schedule_Facts
  imports Rate_Schedules Creation_Runs Dated_Rows
begin

text \<open>
  What the writers of \<open>Rate_Schedules\<close> do to the schedule tables: the invariant of the tables, its
  preservation by each statement, the abstraction of a table to the timeline of one rate (which
  schedule governs which date) and the effect of each statement on that timeline.
\<close>

section \<open>The invariant of the rows\<close>

definition row_ok :: "int \<Rightarrow> schedule_row \<Rightarrow> bool" where
  "row_ok n s \<longleftrightarrow> sch_id s < n \<and>
     sch_status s \<in> {''Pending'', ''Approved'', ''Superseded'', ''Voided''} \<and>
     not_after (sch_effective_to s) (sch_effective_from s) \<and>
     (sch_status s = ''Superseded'' \<longrightarrow> sch_effective_to s \<noteq> None)"

text \<open>A partial unique index on Driver and RateDefinition, and the exclusion constraint.\<close>

definition one_each :: "string \<Rightarrow> schedule_row list \<Rightarrow> bool" where
  "one_each state S \<longleftrightarrow> (\<forall>s\<in>set S. \<forall>t\<in>set S.
     same_rate s t \<longrightarrow> sch_status s = state \<longrightarrow> sch_status t = state \<longrightarrow> s = t)"

definition exclusive :: "schedule_row list \<Rightarrow> bool" where
  "exclusive S \<longleftrightarrow> (\<forall>s\<in>set S. \<forall>t\<in>set S.
     is_authoritative s \<longrightarrow> is_authoritative t \<longrightarrow> schedules_overlap s t \<longrightarrow> s = t)"

definition rows_ok :: "int \<Rightarrow> schedule_row list \<Rightarrow> bool" where
  "rows_ok n S \<longleftrightarrow> distinct (map sch_id S) \<and> (\<forall>s\<in>set S. row_ok n s) \<and>
     one_each ''Pending'' S \<and> one_each ''Approved'' S \<and> exclusive S"

lemma rows_okD:
  assumes "rows_ok n S"
  shows "distinct (map sch_id S)" "\<And>s. s \<in> set S \<Longrightarrow> row_ok n s"
    "one_each ''Pending'' S" "one_each ''Approved'' S" "exclusive S"
  using assms by (simp_all add: rows_ok_def)

lemma rows_ok_mono: "rows_ok n S \<Longrightarrow> n \<le> m \<Longrightarrow> rows_ok m S"
  by (auto simp: rows_ok_def row_ok_def)

lemma same_id: "distinct (map sch_id S) \<Longrightarrow> s \<in> set S \<Longrightarrow> t \<in> set S \<Longrightarrow> sch_id s = sch_id t \<longleftrightarrow> s = t"
  by (auto simp: distinct_map inj_on_def)

lemma same_rate_sym: "same_rate s t \<longleftrightarrow> same_rate t s"
  by (auto simp: same_rate_def)

lemma schedules_overlap_sym: "schedules_overlap s t \<longleftrightarrow> schedules_overlap t s"
  by (auto simp: schedules_overlap_def windows_overlap_def same_rate_sym)

lemma windows_overlapI: "in_window f t d \<Longrightarrow> in_window f' t' d \<Longrightarrow> windows_overlap f t f' t'"
  by (auto simp: in_window_def windows_overlap_def not_after_def split: option.splits)

lemma find_row:
  assumes "distinct (map sch_id S)" "s \<in> set S" "sch_company_id s = c"
  shows "find_first (\<lambda>t. sch_id t = sch_id s \<and> sch_company_id t = c) S = Some s"
proof (cases "find_first (\<lambda>t. sch_id t = sch_id s \<and> sch_company_id t = c) S")
  case None
  with assms show ?thesis by (auto simp: find_first_None_iff)
next
  case (Some t)
  with find_first_SomeD [OF Some] same_id [OF assms(1), of t s] assms(2) show ?thesis by auto
qed

section \<open>Statements keep the invariant\<close>

lemma insert_rows_ok:
  assumes "rows_ok n S" "sch_id row = n" "sch_status row = ''Pending''"
    and "not_after (sch_effective_to row) (sch_effective_from row)"
    and "\<forall>s\<in>set S. \<not> (same_rate s row \<and> sch_status s = ''Pending'')"
  shows "rows_ok (n + 1) (S @ [row])"
proof -
  have below: "\<forall>s\<in>set S. sch_id s < n" using rows_okD(2) [OF assms(1)] by (simp add: row_ok_def)
  then have "distinct (map sch_id (S @ [row]))" using rows_okD(1) [OF assms(1)] assms(2) by auto
  moreover have "\<forall>s\<in>set (S @ [row]). row_ok (n + 1) s"
    using rows_okD(2) [OF assms(1)] assms(2-4) by (fastforce simp: row_ok_def)
  moreover have "one_each ''Pending'' (S @ [row])" "one_each ''Approved'' (S @ [row])"
    using rows_okD(3,4) [OF assms(1)] assms(3,5) unfolding one_each_def
    by (fastforce simp: same_rate_sym)+
  moreover have "exclusive (S @ [row])"
    using rows_okD(5) [OF assms(1)] assms(3) unfolding exclusive_def by (auto simp: is_authoritative_def)
  ultimately show ?thesis by (simp add: rows_ok_def)
qed

text \<open>A statement that updates rows in place keeps the invariant if it keeps the rows' constraints.\<close>

lemma update_rows_ok:
  assumes "rows_ok n S"
    and keys: "\<And>s. s \<in> set S \<Longrightarrow> sch_id (f s) = sch_id s \<and> same_rate (f s) s"
    and rows: "\<And>s. s \<in> set S \<Longrightarrow> row_ok n (f s)"
    and pending: "\<And>s. s \<in> set S \<Longrightarrow> sch_status (f s) = ''Pending'' \<Longrightarrow> sch_status s = ''Pending''"
    and approved: "\<And>s t. s \<in> set S \<Longrightarrow> t \<in> set S \<Longrightarrow> same_rate s t \<Longrightarrow> sch_status (f s) = ''Approved'' \<Longrightarrow>
      sch_status (f t) = ''Approved'' \<Longrightarrow> s = t"
    and exclusion: "\<And>s t. s \<in> set S \<Longrightarrow> t \<in> set S \<Longrightarrow> is_authoritative (f s) \<Longrightarrow> is_authoritative (f t) \<Longrightarrow>
      schedules_overlap (f s) (f t) \<Longrightarrow> s = t"
  shows "rows_ok n (map f S)"
proof -
  have rate: "same_rate s t" if "s \<in> set S" "t \<in> set S" "same_rate (f s) (f t)" for s t
    using keys [OF that(1)] keys [OF that(2)] that(3) by (simp add: same_rate_def)
  have "map sch_id (map f S) = map sch_id S" using keys by simp
  then have "distinct (map sch_id (map f S))" using rows_okD(1) [OF assms(1)] by metis
  moreover have "one_each ''Pending'' (map f S)"
    using rows_okD(3) [OF assms(1)] pending rate unfolding one_each_def by (auto 4 4)
  moreover have "one_each ''Approved'' (map f S)"
    using approved rate unfolding one_each_def by (auto 4 4)
  moreover have "exclusive (map f S)" using exclusion unfolding exclusive_def by (auto 4 4)
  ultimately show ?thesis using rows by (simp add: rows_ok_def)
qed

lemma write_window_ok:
  assumes "rows_ok n S" "not_after t f"
  shows "rows_ok n (write_window i f t S)"
  unfolding write_window_def
proof (rule update_rows_ok [OF assms(1)])
  fix s assume s: "s \<in> set S"
  show "row_ok n (if sch_id s = i \<and> sch_status s = ''Pending''
      then s\<lparr>sch_effective_from := f, sch_effective_to := t\<rparr> else s)"
    using rows_okD(2) [OF assms(1) s] assms(2) by (auto simp: row_ok_def)
next
  fix s t' assume "s \<in> set S" "t' \<in> set S" "same_rate s t'"
    "sch_status (if sch_id s = i \<and> sch_status s = ''Pending''
      then s\<lparr>sch_effective_from := f, sch_effective_to := t\<rparr> else s) = ''Approved''"
    "sch_status (if sch_id t' = i \<and> sch_status t' = ''Pending''
      then t'\<lparr>sch_effective_from := f, sch_effective_to := t\<rparr> else t') = ''Approved''"
  then show "s = t'" using rows_okD(4) [OF assms(1)] unfolding one_each_def by (auto split: if_splits)
next
  fix s t' assume "s \<in> set S" "t' \<in> set S"
    "is_authoritative (if sch_id s = i \<and> sch_status s = ''Pending''
      then s\<lparr>sch_effective_from := f, sch_effective_to := t\<rparr> else s)"
    "is_authoritative (if sch_id t' = i \<and> sch_status t' = ''Pending''
      then t'\<lparr>sch_effective_from := f, sch_effective_to := t\<rparr> else t')"
    "schedules_overlap (if sch_id s = i \<and> sch_status s = ''Pending''
      then s\<lparr>sch_effective_from := f, sch_effective_to := t\<rparr> else s)
      (if sch_id t' = i \<and> sch_status t' = ''Pending''
      then t'\<lparr>sch_effective_from := f, sch_effective_to := t\<rparr> else t')"
  then show "s = t'"
    using rows_okD(5) [OF assms(1)] unfolding exclusive_def by (auto simp: is_authoritative_def split: if_splits)
qed (auto simp: same_rate_def split: if_splits)

text \<open>Closing an authoritative schedule earlier only shrinks its window.\<close>

lemma shrink_overlap:
  assumes "schedules_overlap (s\<lparr>sch_status := a, sch_effective_to := Some on\<rparr>) t" "not_after (sch_effective_to s) on"
  shows "schedules_overlap s t"
  using assms by (auto simp: schedules_overlap_def same_rate_def windows_overlap_def not_after_def split: option.splits)

lemma supersede_rows_ok:
  assumes "rows_ok n S" "prior \<in> set S" "sch_status prior = ''Approved''"
    and "sch_effective_from prior \<le> on" "not_after (sch_effective_to prior) on"
  shows "rows_ok n (supersede_row prior on S)"
proof -
  let ?f = "\<lambda>s. if sch_id s = sch_id prior then s\<lparr>sch_status := ''Superseded'', sch_effective_to := Some on\<rparr> else s"
  have id: "sch_id s = sch_id prior \<longleftrightarrow> s = prior" if "s \<in> set S" for s
    using same_id [OF rows_okD(1) [OF assms(1)] that assms(2)] .
  have auth: "is_authoritative (?f s) \<longleftrightarrow> is_authoritative s" if "s \<in> set S" for s
    using that assms(3) by (auto simp: id is_authoritative_def)
  have over: "schedules_overlap s t" if st: "s \<in> set S" "t \<in> set S" "schedules_overlap (?f s) (?f t)" for s t
  proof -
    have "schedules_overlap s (?f t)"
      using st assms(5) by (cases "s = prior") (auto simp: id intro: shrink_overlap)
    then have "schedules_overlap (?f t) s" by (simp add: schedules_overlap_sym)
    then have "schedules_overlap t s"
      using st assms(5) by (cases "t = prior") (auto simp: id intro: shrink_overlap)
    then show ?thesis by (simp add: schedules_overlap_sym)
  qed
  show ?thesis
    unfolding supersede_row_def
  proof (rule update_rows_ok [OF assms(1)])
    fix s assume s: "s \<in> set S"
    show "row_ok n (?f s)" using rows_okD(2) [OF assms(1) s] assms(4) s by (auto simp: row_ok_def id not_after_def)
  next
    fix s t assume "s \<in> set S" "t \<in> set S" "same_rate s t" "sch_status (?f s) = ''Approved''" "sch_status (?f t) = ''Approved''"
    then show "s = t" using rows_okD(4) [OF assms(1)] unfolding one_each_def by (auto split: if_splits)
  next
    fix s t assume st: "s \<in> set S" "t \<in> set S" "is_authoritative (?f s)" "is_authoritative (?f t)" "schedules_overlap (?f s) (?f t)"
    from over [OF st(1,2,5)] st(3,4) auth [OF st(1)] auth [OF st(2)] show "s = t"
      using rows_okD(5) [OF assms(1)] st(1,2) unfolding exclusive_def by blast
  qed (auto simp: same_rate_def split: if_splits)
qed

lemma approve_rows_ok:
  assumes "rows_ok n S" "row \<in> set S" "sch_status row = ''Pending''"
    and "\<forall>s\<in>set S. same_rate row s \<longrightarrow> sch_status s \<noteq> ''Approved''"
    and "\<forall>s\<in>set S. is_authoritative s \<longrightarrow> \<not> schedules_overlap row s"
  shows "rows_ok n (approve_row (sch_id row) S)"
proof -
  let ?f = "\<lambda>s. if sch_id s = sch_id row \<and> sch_status s = ''Pending'' then s\<lparr>sch_status := ''Approved''\<rparr> else s"
  have f: "?f s = (if s = row then s\<lparr>sch_status := ''Approved''\<rparr> else s)" if "s \<in> set S" for s
    using same_id [OF rows_okD(1) [OF assms(1)] that assms(2)] assms(3) by auto
  have over: "schedules_overlap (row\<lparr>sch_status := a\<rparr>) t \<longleftrightarrow> schedules_overlap row t"
    "schedules_overlap t (row\<lparr>sch_status := a\<rparr>) \<longleftrightarrow> schedules_overlap t row" for a t
    by (simp_all add: schedules_overlap_def same_rate_def)
  show ?thesis
    unfolding approve_row_def
  proof (rule update_rows_ok [OF assms(1)])
    fix s assume s: "s \<in> set S"
    show "row_ok n (?f s)" using rows_okD(2) [OF assms(1) s] by (auto simp: row_ok_def)
  next
    fix s t assume st: "s \<in> set S" "t \<in> set S" "same_rate s t" "sch_status (?f s) = ''Approved''" "sch_status (?f t) = ''Approved''"
    then show "s = t"
      using rows_okD(4) [OF assms(1)] assms(4) unfolding f [OF st(1)] f [OF st(2)] one_each_def
      by (auto simp: same_rate_sym split: if_splits)
  next
    fix s t assume st: "s \<in> set S" "t \<in> set S" "is_authoritative (?f s)" "is_authoritative (?f t)" "schedules_overlap (?f s) (?f t)"
    then show "s = t"
      using rows_okD(5) [OF assms(1)] assms(5) unfolding f [OF st(1)] f [OF st(2)] exclusive_def
      by (auto simp: over schedules_overlap_sym split: if_splits)
  qed (auto simp: same_rate_def split: if_splits)
qed

lemma void_rows_ok:
  assumes "rows_ok n S"
  shows "rows_ok n (void_row i S)"
  unfolding void_row_def
proof (rule update_rows_ok [OF assms])
  fix s assume s: "s \<in> set S"
  show "row_ok n (if sch_id s = i \<and> is_authoritative s then s\<lparr>sch_status := ''Voided''\<rparr> else s)"
    using rows_okD(2) [OF assms s] by (auto simp: row_ok_def)
next
  fix s t assume "s \<in> set S" "t \<in> set S" "same_rate s t"
    "sch_status (if sch_id s = i \<and> is_authoritative s then s\<lparr>sch_status := ''Voided''\<rparr> else s) = ''Approved''"
    "sch_status (if sch_id t = i \<and> is_authoritative t then t\<lparr>sch_status := ''Voided''\<rparr> else t) = ''Approved''"
  then show "s = t" using rows_okD(4) [OF assms] unfolding one_each_def by (auto split: if_splits)
next
  fix s t assume "s \<in> set S" "t \<in> set S"
    "is_authoritative (if sch_id s = i \<and> is_authoritative s then s\<lparr>sch_status := ''Voided''\<rparr> else s)"
    "is_authoritative (if sch_id t = i \<and> is_authoritative t then t\<lparr>sch_status := ''Voided''\<rparr> else t)"
    "schedules_overlap (if sch_id s = i \<and> is_authoritative s then s\<lparr>sch_status := ''Voided''\<rparr> else s)
      (if sch_id t = i \<and> is_authoritative t then t\<lparr>sch_status := ''Voided''\<rparr> else t)"
  then show "s = t"
    using rows_okD(5) [OF assms] unfolding exclusive_def by (auto simp: is_authoritative_def split: if_splits)
qed (auto simp: same_rate_def split: if_splits)

lemma filter_rows_ok: "rows_ok n S \<Longrightarrow> rows_ok n (filter P S)"
  by (auto simp: rows_ok_def one_each_def exclusive_def distinct_map_filter)

section \<open>The timeline of a rate\<close>

text \<open>The schedule that governs a date: the abstraction of a table to a function of the dates.\<close>

definition rate_timeline :: "int \<Rightarrow> schedule_row list \<Rightarrow> int \<Rightarrow> int \<Rightarrow> date \<Rightarrow> int option" where
  "rate_timeline c S driver rid d = map_option sch_id (find_first (authoritative c (driver, rid, d)) S)"

definition governs :: "int \<Rightarrow> int \<Rightarrow> int \<Rightarrow> schedule_row \<Rightarrow> bool" where
  "governs c driver rid s \<longleftrightarrow> sch_company_id s = c \<and> sch_driver_id s = driver \<and> sch_rate_definition_id s = rid"

lemma authoritative_iff:
  "authoritative c (driver, rid, d) s \<longleftrightarrow>
   governs c driver rid s \<and> is_authoritative s \<and> in_window (sch_effective_from s) (sch_effective_to s) d"
  by (auto simp: authoritative_def governs_def is_authoritative_def)

lemma authoritative_unique:
  assumes "rows_ok n S" "s \<in> set S" "t \<in> set S" "authoritative c (driver, rid, d) s" "authoritative c (driver, rid, d) t"
  shows "s = t"
proof -
  have "schedules_overlap s t"
    using assms(4,5) by (auto simp: schedules_overlap_def same_rate_def authoritative_iff governs_def intro: windows_overlapI)
  with assms rows_okD(5) [OF assms(1)] show ?thesis unfolding exclusive_def by (auto simp: authoritative_iff)
qed

text \<open>The schedules are an effective-dated table with the exclusion constraint.\<close>

interpretation schedules: dated_rows sch_id "\<lambda>(c, driver, rid) d. authoritative c (driver, rid, d)" "rows_ok n" for n
  by unfold_locales (auto dest: rows_okD(1) authoritative_unique)

lemma find_authoritative:
  assumes "rows_ok n S"
  shows "find_first (authoritative c (driver, rid, d)) S = Some s \<longleftrightarrow> s \<in> set S \<and> authoritative c (driver, rid, d) s"
  using schedules.find_in_force [OF assms, of "(c, driver, rid)" d s] by simp

lemma rate_timeline_Some:
  assumes "rows_ok n S"
  shows "rate_timeline c S driver rid d = Some i \<longleftrightarrow>
    (\<exists>s\<in>set S. authoritative c (driver, rid, d) s \<and> sch_id s = i)"
  using schedules.in_force_Some [OF assms, of "(c, driver, rid)" d i] by (simp add: rate_timeline_def)

text \<open>A statement on one row.\<close>

lemma timeline_rewrite:
  assumes "rows_ok n S" "rows_ok m (map f S)" "row \<in> set S" "\<And>s. s \<in> set S \<Longrightarrow> s \<noteq> row \<Longrightarrow> f s = s"
    and "sch_id (f row) = sch_id row"
  shows "rate_timeline c (map f S) driver rid d =
    (if authoritative c (driver, rid, d) (f row) then Some (sch_id row)
     else if rate_timeline c S driver rid d = Some (sch_id row) then None else rate_timeline c S driver rid d)"
proof -
  let ?k = "max n m"
  have ok: "rows_ok ?k S" "rows_ok ?k (map f S)" using rows_ok_mono assms(1,2) by (meson max.cobounded1 max.cobounded2)+
  show ?thesis
    using schedules.in_force_rewrite [OF ok assms(3-5), where k = "(c, driver, rid)" and d = d]
    unfolding rate_timeline_def prod.case .
qed

lemma timeline_insert:
  "sch_status row = ''Pending'' \<Longrightarrow> rate_timeline c (S @ [row]) driver rid d = rate_timeline c S driver rid d"
  by (induction S) (auto simp: rate_timeline_def authoritative_def)

lemma timeline_write_window: "rate_timeline c (write_window i f t S) driver rid d = rate_timeline c S driver rid d"
  by (induction S) (auto simp: rate_timeline_def authoritative_def write_window_def)

lemma timeline_discard:
  "rate_timeline c (filter (\<lambda>s. \<not> (sch_id s = i \<and> sch_status s = ''Pending'')) S) driver rid d = rate_timeline c S driver rid d"
  by (induction S) (auto simp: rate_timeline_def authoritative_def)

lemma timeline_at:
  assumes "rows_ok n S" "row \<in> set S" "authoritative c (driver, rid, d) row"
  shows "rate_timeline c S driver rid d = Some (sch_id row)"
  using assms by (auto simp: rate_timeline_Some [OF assms(1)])

lemma timeline_supersede:
  assumes "rows_ok n S" "prior \<in> set S" "sch_status prior = ''Approved''"
    and "sch_effective_from prior \<le> on" "not_after (sch_effective_to prior) on"
  shows "rate_timeline c (supersede_row prior on S) driver rid d =
    (if on < d \<and> rate_timeline c S driver rid d = Some (sch_id prior) then None else rate_timeline c S driver rid d)"
proof -
  let ?f = "\<lambda>s. if sch_id s = sch_id prior then s\<lparr>sch_status := ''Superseded'', sch_effective_to := Some on\<rparr> else s"
  have id: "sch_id s = sch_id prior \<longleftrightarrow> s = prior" if "s \<in> set S" for s
    using same_id [OF rows_okD(1) [OF assms(1)] that assms(2)] .
  have closed: "authoritative c (driver, rid, d) (?f prior) \<longleftrightarrow> authoritative c (driver, rid, d) prior \<and> d \<le> on"
    using assms(3,5)
    by (auto simp: authoritative_iff governs_def is_authoritative_def in_window_def not_after_def split: option.splits)
  have was: "authoritative c (driver, rid, d) prior" if "rate_timeline c S driver rid d = Some (sch_id prior)"
    using that by (auto simp: rate_timeline_Some [OF assms(1)] id)
  note at = timeline_at [OF assms(1,2), of c driver rid d]
  have "rate_timeline c (map ?f S) driver rid d =
    (if authoritative c (driver, rid, d) (?f prior) then Some (sch_id prior)
     else if rate_timeline c S driver rid d = Some (sch_id prior) then None else rate_timeline c S driver rid d)"
    by (rule timeline_rewrite [OF assms(1) supersede_rows_ok [OF assms, unfolded supersede_row_def] assms(2)]) (simp_all add: id)
  then show ?thesis using closed was at by (auto simp: supersede_row_def)
qed

lemma timeline_approve:
  assumes "rows_ok n S" "row \<in> set S" "sch_status row = ''Pending''"
    and "\<forall>s\<in>set S. same_rate row s \<longrightarrow> sch_status s \<noteq> ''Approved''"
    and "\<forall>s\<in>set S. is_authoritative s \<longrightarrow> \<not> schedules_overlap row s"
  shows "rate_timeline c (approve_row (sch_id row) S) driver rid d =
    (if governs c driver rid row \<and> in_window (sch_effective_from row) (sch_effective_to row) d
     then Some (sch_id row) else rate_timeline c S driver rid d)"
proof -
  let ?f = "\<lambda>s. if sch_id s = sch_id row \<and> sch_status s = ''Pending'' then s\<lparr>sch_status := ''Approved''\<rparr> else s"
  have id: "sch_id s = sch_id row \<longleftrightarrow> s = row" if "s \<in> set S" for s
    using same_id [OF rows_okD(1) [OF assms(1)] that assms(2)] .
  have "rate_timeline c S driver rid d \<noteq> Some (sch_id row)"
    using assms(3) id by (auto simp: rate_timeline_Some [OF assms(1)] authoritative_iff is_authoritative_def)
  moreover have "rate_timeline c (map ?f S) driver rid d =
    (if authoritative c (driver, rid, d) (?f row) then Some (sch_id row)
     else if rate_timeline c S driver rid d = Some (sch_id row) then None else rate_timeline c S driver rid d)"
    by (rule timeline_rewrite [OF assms(1) approve_rows_ok [OF assms, unfolded approve_row_def] assms(2)]) (simp_all add: id)
  ultimately show ?thesis
    using assms(3) by (simp add: approve_row_def authoritative_iff governs_def is_authoritative_def)
qed

lemma timeline_void:
  assumes "rows_ok n S"
  shows "rate_timeline c (void_row j S) driver rid d =
    (if rate_timeline c S driver rid d = Some j then None else rate_timeline c S driver rid d)"
proof (cases "\<exists>row\<in>set S. sch_id row = j")
  case True
  then obtain row where row: "row \<in> set S" "sch_id row = j" by blast
  let ?f = "\<lambda>s. if sch_id s = j \<and> is_authoritative s then s\<lparr>sch_status := ''Voided''\<rparr> else s"
  have id: "sch_id s = j \<longleftrightarrow> s = row" if "s \<in> set S" for s
    using same_id [OF rows_okD(1) [OF assms] that row(1)] row(2) by simp
  have "rate_timeline c (map ?f S) driver rid d =
    (if authoritative c (driver, rid, d) (?f row) then Some (sch_id row)
     else if rate_timeline c S driver rid d = Some (sch_id row) then None else rate_timeline c S driver rid d)"
    by (rule timeline_rewrite [OF assms void_rows_ok [OF assms, unfolded void_row_def] row(1)]) (use id in auto)
  then show ?thesis
    by (auto simp: void_row_def authoritative_iff governs_def is_authoritative_def row(2))
next
  case False
  then have "void_row j S = S" by (auto simp: void_row_def intro: map_idI)
  moreover have "rate_timeline c S driver rid d \<noteq> Some j" using False by (auto simp: rate_timeline_Some [OF assms])
  ultimately show ?thesis by simp
qed

end
