(* ===== verification/Schedule_Effects.thy ===== *)
theory Schedule_Effects
  imports Schedule_Facts
begin

text \<open>
  What a successful request of \<open>Rate_Schedules\<close> has checked and what it writes, request by request,
  and the invariant of the values and owners of the schedules.
\<close>

section \<open>Writing the two tables\<close>

lemma co_simps [simp]:
  "cr_workflow (co_creation (update_db f co)) = (cr_workflow (co_creation co))\<lparr>ws_db := f (co_db co)\<rparr>"
  "cr_rows (co_creation (update_db f co)) = cr_rows (co_creation co)"
  "cr_definitions (co_creation (update_db f co)) = cr_definitions (co_creation co)"
  "cr_locked (co_creation (update_db f co)) = cr_locked (co_creation co)"
  "co_schedules (update_db f co) = co_schedules co"
  "co_next_schedule (update_db f co) = co_next_schedule co"
  "co_active_columns (update_db f co) = co_active_columns co"
  "co_creation (update_schedule_columns i g co) = co_creation co"
  "co_next_schedule (update_schedule_columns i g co) = co_next_schedule co"
  "co_active_columns (update_schedule_columns i g co) = co_active_columns co"
  "co_schedules (update_schedule_columns i g co) = (co_schedules co)(i := g (co_schedules co i))"
  by (simp_all add: update_db_def with_db_def update_schedule_columns_def)

text \<open>Only the two tables and bookkeeping columns change.\<close>

definition rewritten ::
  "schedule_row list \<Rightarrow> schedule_value_row list \<Rightarrow> int \<Rightarrow> compensation_state \<Rightarrow> compensation_state \<Rightarrow> bool" where
  "rewritten S V n co co' \<longleftrightarrow>
     cr_workflow (co_creation co') = (cr_workflow (co_creation co))
       \<lparr>ws_db := (co_db co)\<lparr>rate_schedules := S, schedule_values := V\<rparr>\<rparr> \<and>
     cr_rows (co_creation co') = cr_rows (co_creation co) \<and>
     cr_definitions (co_creation co') = cr_definitions (co_creation co) \<and>
     co_active_columns co' = co_active_columns co \<and> co_next_schedule co' = n"

lemma rewrittenD:
  assumes "rewritten S V n co co'"
  shows "rate_schedules (co_db co') = S" "schedule_values (co_db co') = V" "co_next_schedule co' = n"
    and "rate_components (co_db co') = rate_components (co_db co)"
    and "rate_definitions (co_db co') = rate_definitions (co_db co)"
    and "drivers (co_db co') = drivers (co_db co)" "periods (co_db co') = periods (co_db co)"
    and "eligibility (co_db co') = eligibility (co_db co)" "assignments (co_db co') = assignments (co_db co)"
    and "co_access co' = co_access co" "users (co_db co') = users (co_db co)"
  using assms by (simp_all add: rewritten_def)

section \<open>What a request has checked\<close>

lemma load_schedule_rowD:
  assumes "load_schedule_row c i co = Inr row"
  shows "row \<in> set (rate_schedules (co_db co))" "sch_id row = i" "sch_company_id row = c"
  using assms by (auto simp: load_schedule_row_def split: option.splits dest: find_first_SomeD)

lemma validate_windowD: "validate_window f t = Inr u \<Longrightarrow> not_after t f"
  by (auto simp: validate_window_def not_after_def split: option.splits)

text \<open>The authority a successful write has: permission on the Branch of the home tenure of the start
  date, or company-wide, and that tenure has not ended.\<close>

definition authorized_from :: "zone_env \<Rightarrow> int \<Rightarrow> int \<Rightarrow> int \<Rightarrow> date \<Rightarrow> int \<Rightarrow> compensation_state \<Rightarrow> bool" where
  "authorized_from env c user driver start instant co \<longleftrightarrow>
     \<not> is_driver_self_subject c user (co_access co) \<and>
     (\<exists>a. driver_assignment_for_business_date env c driver start (co_db co) = Some a \<and>
        \<not> ended_at instant (asg_effective_to_at a) \<and>
        (may_edit c user None co \<or> may_edit c user (Some (asg_branch_id a)) co))"

lemma authority_writeD:
  assumes "require_compensation_authority env c user driver (WriteFrom start) instant co = Inr cx"
  shows "authorized_from env c user driver start instant co" "require_driver c driver (co_db co) = Inr ()"
proof -
  note unfolded = assms [unfolded require_compensation_authority_def]
  from unfolded have subject: "\<not> is_driver_self_subject c user (co_access co)"
    and driver: "require_driver c driver (co_db co) = Inr ()"
    by (auto simp: bind_r_Inr_iff require_non_driver_subject_def)
  show "require_driver c driver (co_db co) = Inr ()" by (rule driver)
  from unfolded obtain a where "driver_assignment_for_business_date env c driver start (co_db co) = Some a"
    "\<not> ended_at instant (asg_effective_to_at a)"
    "may_edit c user None co \<or> may_edit c user (Some (asg_branch_id a)) co"
    by (auto simp: bind_r_Inr_iff edit_standing_def Let_def resolve_compensation_context_def
        split: option.splits if_splits)
  with subject show "authorized_from env c user driver start instant co" by (auto simp: authorized_from_def)
qed

section \<open>What a successful request does\<close>

lemma create_pendingE:
  assumes "create_pending env ck c user data seen co = Inr co'"
  obtains row where "sch_id row = co_next_schedule co" "sch_status row = ''Pending''"
    "governs c (sc_driver_id data) (sc_rate_definition_id data) row"
    "not_after (sch_effective_to row) (sch_effective_from row)"
    "\<forall>s\<in>set (rate_schedules (co_db co)). \<not> (same_rate s row \<and> sch_status s = ''Pending'')"
    "rewritten (rate_schedules (co_db co) @ [row]) (schedule_values (co_db co)) (co_next_schedule co + 1) co co'"
    "authorized_from env c user (sc_driver_id data) (sc_effective_from data) (ck_decision ck) co"
    "require_driver c (sc_driver_id data) (co_db co) = Inr ()"
proof -
  note * = assms [unfolded create_pending_def Let_def, simplified result_simps]
  from * obtain d where ins: "insert_schedule c user data d co = Inr co'" by blast
  from * obtain u where w: "validate_window (sc_effective_from data) (sc_effective_to data) = Inr u" by blast
  from * obtain cx where a: "require_compensation_authority env c user (sc_driver_id data)
      (WriteFrom (sc_effective_from data)) (ck_decision ck) co = Inr cx" by blast
  show thesis
    by (rule that [OF _ _ _ _ _ _ authority_writeD [OF a]])
      (use ins validate_windowD [OF w] in \<open>auto simp: insert_schedule_def Let_def governs_def rewritten_def with_schedules_def
        update_db_def with_db_def update_schedule_columns_def split: if_splits\<close>)
qed

lemma update_pendingE:
  assumes "update_pending env ck c user i data seen co = Inr co'"
  obtains row f t where "load_schedule_row c i co = Inr row" "sch_status row = ''Pending''" "not_after t f"
    "rewritten (write_window i f t (rate_schedules (co_db co))) (schedule_values (co_db co)) (co_next_schedule co) co co'"
    "authorized_from env c user (sch_driver_id row) f (ck_decision ck) co"
proof -
  note * = assms [unfolded update_pending_def Let_def bind_r_Inr_iff]
  from * obtain row where row: "load_schedule_row c i co = Inr row" "require_pending row = Inr ()"
    and w: "validate_window (case su_effective_from data of None \<Rightarrow> sch_effective_from row | Some f \<Rightarrow> f)
      (case su_effective_to data of None \<Rightarrow> sch_effective_to row | Some t \<Rightarrow> t) = Inr ()"
    and a: "\<exists>cx. require_compensation_authority env c user (sch_driver_id row)
      (WriteFrom (case su_effective_from data of None \<Rightarrow> sch_effective_from row | Some f \<Rightarrow> f)) (ck_decision ck) co = Inr cx"
    and co': "rewritten (write_window i (case su_effective_from data of None \<Rightarrow> sch_effective_from row | Some f \<Rightarrow> f)
      (case su_effective_to data of None \<Rightarrow> sch_effective_to row | Some t \<Rightarrow> t) (rate_schedules (co_db co)))
      (schedule_values (co_db co)) (co_next_schedule co) co co'"
    by (fastforce simp: rewritten_def with_schedules_def)
  from a authority_writeD show thesis
    by (intro that [OF row(1) _ validate_windowD [OF w] co']) (use row(2) in \<open>auto simp: require_pending_def\<close>)
qed

lemma replace_valuesE:
  assumes "replace_values env ck c user i sent seen co = Inr co'"
  obtains row where "load_schedule_row c i co = Inr row" "sch_status row = ''Pending''" "distinct (map fst sent)"
    "set (map fst sent) \<subseteq> set (map rc_component_id (load_values i (sch_rate_definition_id row) (co_db co)))"
    "rewritten (rate_schedules (co_db co)) (write_values i sent (schedule_values (co_db co))) (co_next_schedule co) co co'"
    "authorized_from env c user (sch_driver_id row) (sch_effective_from row) (ck_decision ck) co"
proof -
  note * = assms [unfolded replace_values_def Let_def bind_r_Inr_iff]
  from * obtain row cx where row: "load_schedule_row c i co = Inr row" "require_pending row = Inr ()"
    and a: "require_compensation_authority env c user (sch_driver_id row) (WriteFrom (sch_effective_from row))
      (ck_decision ck) co = Inr cx"
    and ids: "distinct (map fst sent)"
      "set (map fst sent) \<subseteq> set (map rc_component_id (load_values i (sch_rate_definition_id row) (co_db co)))"
    and co': "rewritten (rate_schedules (co_db co)) (write_values i sent (schedule_values (co_db co)))
      (co_next_schedule co) co co'"
    by (fastforce simp: rewritten_def)
  show thesis
    by (rule that [OF row(1) _ ids co' authority_writeD(1) [OF a]]) (use row(2) in \<open>auto simp: require_pending_def\<close>)
qed

lemma discardE:
  assumes "discard env ck c user i seen co = Inr co'"
  obtains row where "load_schedule_row c i co = Inr row" "sch_status row = ''Pending''"
    "rewritten (filter (\<lambda>s. \<not> (sch_id s = i \<and> sch_status s = ''Pending'')) (rate_schedules (co_db co)))
      (filter (\<lambda>v. val_schedule_id v \<noteq> i) (schedule_values (co_db co))) (co_next_schedule co) co co'"
proof -
  note * = assms [unfolded discard_def Let_def bind_r_Inr_iff]
  from * obtain row where row: "load_schedule_row c i co = Inr row" "require_pending row = Inr ()"
    and co': "rewritten (filter (\<lambda>s. \<not> (sch_id s = i \<and> sch_status s = ''Pending'')) (rate_schedules (co_db co)))
      (filter (\<lambda>v. val_schedule_id v \<noteq> i) (schedule_values (co_db co))) (co_next_schedule co) co co'"
    by (fastforce simp: rewritten_def update_db_def with_db_def)
  show thesis by (rule that [OF row(1) _ co']) (use row(2) in \<open>auto simp: require_pending_def\<close>)
qed

lemma voidE:
  assumes "void env ck c user i reason seen co = Inr co'"
  obtains row where "load_schedule_row c i co = Inr row" "is_authoritative row"
    "authorized_from env c user (sch_driver_id row) (sch_effective_from row) (ck_decision ck) co"
    "require_no_finalized_payroll c (sch_driver_id row) (Some (sch_effective_from row)) (sch_effective_to row) WorkDate
      (co_db co) = Inr ()"
    "rewritten (void_row i (rate_schedules (co_db co))) (schedule_values (co_db co)) (co_next_schedule co) co co'"
proof -
  note * = assms [unfolded void_def Let_def bind_r_Inr_iff]
  from * obtain row cx where row: "load_schedule_row c i co = Inr row" "require_voidable row = Inr ()"
    and a: "require_compensation_authority env c user (sch_driver_id row) (WriteFrom (sch_effective_from row))
      (ck_decision ck) co = Inr cx"
    and fin: "require_no_finalized_payroll c (sch_driver_id row) (Some (sch_effective_from row)) (sch_effective_to row) WorkDate
      (co_db co) = Inr ()"
    and co': "rewritten (void_row i (rate_schedules (co_db co))) (schedule_values (co_db co)) (co_next_schedule co) co co'"
    by (fastforce simp: rewritten_def with_schedules_def)
  show thesis
    by (rule that [OF row(1) _ authority_writeD(1) [OF a] fin co'])
      (use row(2) in \<open>auto simp: require_voidable_def is_authoritative_def split: if_splits\<close>)
qed

section \<open>Approval\<close>

lemma rewritten_trans:
  "rewritten S V n co co1 \<Longrightarrow> rewritten S' V' n' co1 co2 \<Longrightarrow> rewritten S' V' n' co co2"
  by (simp add: rewritten_def)

lemma rewritten_refl: "rewritten (rate_schedules (co_db co)) (schedule_values (co_db co)) (co_next_schedule co) co co"
  by (simp add: rewritten_def)

lemma supersedeE:
  assumes "supersede env instant user row p co = Inr co1"
  shows "rewritten (supersede_row p (close_on (sch_effective_from row) p) (rate_schedules (co_db co)))
    (schedule_values (co_db co)) (co_next_schedule co) co co1"
  using assms by (auto simp: supersede_def Let_def bind_r_Inr_iff rewritten_def with_schedules_def)

lemma promoteE:
  assumes "promote env instant user row co = Inr co'"
  shows "\<forall>s\<in>set (rate_schedules (co_db co)). same_rate row s \<longrightarrow> sch_status s \<noteq> ''Approved''"
    and "\<forall>s\<in>set (rate_schedules (co_db co)). is_authoritative s \<longrightarrow> \<not> schedules_overlap row s"
    and "rewritten (approve_row (sch_id row) (rate_schedules (co_db co))) (schedule_values (co_db co)) (co_next_schedule co) co co'"
    and "context_writable env (sch_company_id row) (sch_driver_id row) (sch_effective_from row) instant (co_db co) = Inr ()"
proof -
  note * = assms [unfolded promote_def Let_def bind_r_Inr_iff]
  from * show "\<forall>s\<in>set (rate_schedules (co_db co)). same_rate row s \<longrightarrow> sch_status s \<noteq> ''Approved''" by auto
  from * show "\<forall>s\<in>set (rate_schedules (co_db co)). is_authoritative s \<longrightarrow> \<not> schedules_overlap row s"
    by (auto simp: schedules_overlap_def)
  from * show "rewritten (approve_row (sch_id row) (rate_schedules (co_db co))) (schedule_values (co_db co)) (co_next_schedule co) co co'"
    by (auto simp: rewritten_def with_schedules_def update_db_def with_db_def update_schedule_columns_def)
  from * show "context_writable env (sch_company_id row) (sch_driver_id row) (sch_effective_from row) instant (co_db co) = Inr ()"
    by auto
qed

text \<open>The rows once the schedule in force, if any, has been closed for its successor.\<close>

definition made_way :: "schedule_row \<Rightarrow> schedule_row option \<Rightarrow> schedule_row list \<Rightarrow> schedule_row list" where
  "made_way row prior S =
     (case prior of None \<Rightarrow> S | Some p \<Rightarrow> supersede_row p (close_on (sch_effective_from row) p) S)"

definition approval_footprint :: "schedule_row \<Rightarrow> schedule_row option \<Rightarrow> date option" where
  "approval_footprint row prior =
     (case prior of None \<Rightarrow> sch_effective_to row | Some p \<Rightarrow> later_end (sch_effective_to row) (sch_effective_to p))"

definition independent_approver :: "int \<Rightarrow> int \<Rightarrow> int \<Rightarrow> compensation_state \<Rightarrow> bool" where
  "independent_approver c user i co \<longleftrightarrow>
     user \<noteq> sm_created_by (co_schedules co i) \<and> sm_updated_by (co_schedules co i) \<noteq> Some user \<or>
     company_allows_self_approval c (co_access co)"

lemma approveE:
  assumes "approve env ck c user i seen co = Inr co'"
  obtains row prior where "load_schedule_row c i co = Inr row" "sch_status row = ''Pending''" "independent_approver c user i co"
    "load_values i (sch_rate_definition_id row) (co_db co) \<noteq> []"
    "\<forall>v\<in>set (load_values i (sch_rate_definition_id row) (co_db co)). rc_amount v \<noteq> None"
    "approved_prior row co = prior" "\<forall>p. prior = Some p \<longrightarrow> sch_effective_from p < sch_effective_from row"
    "authorized_from env c user (sch_driver_id row) (sch_effective_from row) (ck_decision ck) co"
    "require_no_finalized_payroll c (sch_driver_id row) (Some (sch_effective_from row)) (approval_footprint row prior) WorkDate
      (co_db co) = Inr ()"
    "\<forall>s\<in>set (made_way row prior (rate_schedules (co_db co))). same_rate row s \<longrightarrow> sch_status s \<noteq> ''Approved''"
    "\<forall>s\<in>set (made_way row prior (rate_schedules (co_db co))). is_authoritative s \<longrightarrow> \<not> schedules_overlap row s"
    "rewritten (approve_row i (made_way row prior (rate_schedules (co_db co)))) (schedule_values (co_db co))
      (co_next_schedule co) co co'"
proof -
  note * = assms [unfolded approve_def Let_def bind_r_Inr_iff]
  from * obtain row cx co1 where row: "load_schedule_row c i co = Inr row" "require_pending row = Inr ()"
    and ind: "require_independent_approver c user row co = Inr ()"
    and vals: "load_values i (sch_rate_definition_id row) (co_db co) \<noteq> []"
      "\<forall>v\<in>set (load_values i (sch_rate_definition_id row) (co_db co)). rc_amount v \<noteq> None"
    and succ: "case approved_prior row co of None \<Rightarrow> True | Some p \<Rightarrow> sch_effective_from p < sch_effective_from row"
    and a: "require_compensation_authority env c user (sch_driver_id row) (WriteFrom (sch_effective_from row))
      (ck_decision ck) co = Inr cx"
    and fin: "require_no_finalized_payroll c (sch_driver_id row) (Some (sch_effective_from row))
      (approval_footprint row (approved_prior row co)) WorkDate (co_db co) = Inr ()"
    and co1: "(case approved_prior row co of None \<Rightarrow> Inr co | Some p \<Rightarrow> supersede env (ck_statement ck) user row p co) = Inr co1"
    and promote: "promote env (ck_statement ck) user row co1 = Inr co'"
    unfolding approval_footprint_def by fastforce
  have way: "rewritten (made_way row (approved_prior row co) (rate_schedules (co_db co))) (schedule_values (co_db co))
      (co_next_schedule co) co co1"
    using co1 supersedeE [of env "ck_statement ck" user row _ co co1] rewritten_refl [of co]
    by (cases "approved_prior row co") (auto simp: made_way_def)
  note tables = rewrittenD(1-3) [OF way]
  have id: "sch_id row = i" using load_schedule_rowD(2) [OF row(1)] .
  show thesis
  proof (rule that [OF row(1) _ _ vals refl _ authority_writeD(1) [OF a] fin])
    show "sch_status row = ''Pending''" using row(2) by (simp add: require_pending_def)
    show "independent_approver c user i co"
      using ind id by (auto simp: require_independent_approver_def independent_approver_def Let_def split: if_splits)
    show "\<forall>p. approved_prior row co = Some p \<longrightarrow> sch_effective_from p < sch_effective_from row" using succ by auto
    show "\<forall>s\<in>set (made_way row (approved_prior row co) (rate_schedules (co_db co))). same_rate row s \<longrightarrow> sch_status s \<noteq> ''Approved''"
      using promoteE(1) [OF promote] by (simp only: tables)
    show "\<forall>s\<in>set (made_way row (approved_prior row co) (rate_schedules (co_db co))). is_authoritative s \<longrightarrow> \<not> schedules_overlap row s"
      using promoteE(2) [OF promote] by (simp only: tables)
    show "rewritten (approve_row i (made_way row (approved_prior row co) (rate_schedules (co_db co)))) (schedule_values (co_db co))
        (co_next_schedule co) co co'"
      using rewritten_trans [OF way promoteE(3) [OF promote]] by (simp only: tables id)
  qed
qed

section \<open>Values\<close>

definition values_ok :: "payroll_db \<Rightarrow> bool" where
  "values_ok db \<longleftrightarrow> distinct (map (\<lambda>v. (val_schedule_id v, val_component_id v)) (schedule_values db)) \<and>
     (\<forall>v\<in>set (schedule_values db). rate_amount (val_amount v) \<and>
        (\<exists>s\<in>set (rate_schedules db). \<exists>c\<in>set (rate_components db). sch_id s = val_schedule_id v \<and>
           cmp_id c = val_component_id v \<and> cmp_rate_definition_id c = sch_rate_definition_id s))"

text \<open>What is in force has a value for each of its components.\<close>

definition complete_ok :: "payroll_db \<Rightarrow> bool" where
  "complete_ok db \<longleftrightarrow> (\<forall>s\<in>set (rate_schedules db). is_authoritative s \<longrightarrow>
     load_values (sch_id s) (sch_rate_definition_id s) db \<noteq> [] \<and>
     (\<forall>v\<in>set (load_values (sch_id s) (sch_rate_definition_id s) db). rc_amount v \<noteq> None))"

text \<open>The foreign key from a schedule to a Driver of its Company.\<close>

definition owners_ok :: "payroll_db \<Rightarrow> bool" where
  "owners_ok db \<longleftrightarrow> distinct (map dr_driver_id (drivers db)) \<and>
     (\<forall>s\<in>set (rate_schedules db). \<exists>r\<in>set (drivers db).
        dr_driver_id r = sch_driver_id s \<and> dr_company_id r = sch_company_id s)"

definition schedules_ok :: "compensation_state \<Rightarrow> bool" where
  "schedules_ok co \<longleftrightarrow> rows_ok (co_next_schedule co) (rate_schedules (co_db co)) \<and> values_ok (co_db co) \<and>
     complete_ok (co_db co) \<and> owners_ok (co_db co)"

lemma schedules_okD:
  assumes "schedules_ok co"
  shows "rows_ok (co_next_schedule co) (rate_schedules (co_db co))" "values_ok (co_db co)"
    "complete_ok (co_db co)" "owners_ok (co_db co)"
  using assms by (simp_all add: schedules_ok_def)

lemma owner_unique:
  assumes "owners_ok db" "s \<in> set (rate_schedules db)" "t \<in> set (rate_schedules db)" "sch_driver_id s = sch_driver_id t"
  shows "sch_company_id s = sch_company_id t"
proof -
  from assms obtain r q where r: "r \<in> set (drivers db)" "dr_driver_id r = sch_driver_id s" "dr_company_id r = sch_company_id s"
    and q: "q \<in> set (drivers db)" "dr_driver_id q = sch_driver_id t" "dr_company_id q = sch_company_id t"
    unfolding owners_ok_def by meson
  have "r = q" using assms(1,4) r q unfolding owners_ok_def by (metis distinct_map inj_on_def)
  with r q show ?thesis by simp
qed

lemma find_first_both: "find_first (\<lambda>v. P v \<and> Q v) xs = find_first P (filter Q xs)"
  by (induction xs) auto

lemma load_values_cong:
  assumes "rate_components db' = rate_components db"
    and "filter (\<lambda>v. val_schedule_id v = i) (schedule_values db') = filter (\<lambda>v. val_schedule_id v = i) (schedule_values db)"
  shows "load_values i rid db' = load_values i rid db"
  unfolding load_values_def component_value_def find_first_both assms ..

lemma upsert_other:
  "j \<noteq> i \<Longrightarrow> filter (\<lambda>v. val_schedule_id v = j) (upsert_value i x vs) = filter (\<lambda>v. val_schedule_id v = j) vs"
  by (cases x) (auto simp: upsert_value_def Let_def filter_empty_conv intro!: filter_cong split: option.splits)

lemma write_values_other:
  assumes "j \<noteq> i"
  shows "filter (\<lambda>v. val_schedule_id v = j) (write_values i sent vs) = filter (\<lambda>v. val_schedule_id v = j) vs"
proof -
  have "filter (\<lambda>v. val_schedule_id v = j) (fold (upsert_value i) sent ws) = filter (\<lambda>v. val_schedule_id v = j) ws" for ws
    by (induction sent arbitrary: ws) (simp_all add: upsert_other [OF assms])
  with assms show ?thesis by (auto simp: write_values_def intro: filter_cong)
qed

text \<open>Each stored value was there before or was sent.\<close>

lemma write_values_set:
  assumes "v \<in> set (write_values i sent vs)"
  shows "v \<in> set vs \<or> (\<exists>component a. (component, Some a) \<in> set sent \<and>
    v = \<lparr>val_schedule_id = i, val_component_id = component, val_amount = a\<rparr>)"
proof -
  have "v \<in> set ws \<or> (\<exists>component a. (component, Some a) \<in> set sent \<and>
      v = \<lparr>val_schedule_id = i, val_component_id = component, val_amount = a\<rparr>)"
    if "v \<in> set (fold (upsert_value i) sent ws)" for ws
    using that
  proof (induction sent arbitrary: ws)
    case (Cons x sent)
    from Cons.IH [of "upsert_value i x ws"] Cons.prems show ?case
      by (cases x) (auto simp: upsert_value_def Let_def split: option.splits)
  qed simp
  from this [OF assms [unfolded write_values_def]] show ?thesis by auto
qed

lemma write_values_distinct:
  assumes "distinct (map (\<lambda>v. (val_schedule_id v, val_component_id v)) vs)"
  shows "distinct (map (\<lambda>v. (val_schedule_id v, val_component_id v)) (write_values i sent vs))"
proof -
  have up: "distinct (map (\<lambda>v. (val_schedule_id v, val_component_id v)) (upsert_value i x ws))"
    if "distinct (map (\<lambda>v. (val_schedule_id v, val_component_id v)) ws)" for x ws
    using that by (cases x) (auto simp: upsert_value_def Let_def distinct_map_filter split: option.splits)
  have "distinct (map (\<lambda>v. (val_schedule_id v, val_component_id v)) (fold (upsert_value i) sent ws))"
    if "distinct (map (\<lambda>v. (val_schedule_id v, val_component_id v)) ws)" for ws
    using that by (induction sent arbitrary: ws) (simp_all add: up)
  then show ?thesis using assms by (simp add: write_values_def distinct_map_filter)
qed

lemma load_values_components:
  "set (map rc_component_id (load_values i rid db)) =
   cmp_id ` {c \<in> set (rate_components db). cmp_rate_definition_id c = rid}"
  by (auto simp: load_values_def component_value_def image_iff)

end
