(* ===== verification/Schedule_Runs.thy ===== *)
theory Schedule_Runs
  imports Schedule_Effects
begin

text \<open>
  The writers of rate schedules as steps: the invariant of all reachable tables, the refinement of
  the abstract timeline of a rate, and what no run can change: the price of a date that finalized
  payroll covers.
\<close>

section \<open>Steps\<close>

text \<open>A successful request; the unlocked read may have seen any state, and sent amounts fit the schema.\<close>

inductive schedule_step :: "zone_env \<Rightarrow> compensation_state \<Rightarrow> compensation_state \<Rightarrow> bool" for env where
  create: "create_pending env ck c user data seen co = Inr co' \<Longrightarrow> schedule_step env co co'"
| update: "update_pending env ck c user i changes seen co = Inr co' \<Longrightarrow> schedule_step env co co'"
| fill: "replace_values env ck c user i sent seen co = Inr co' \<Longrightarrow>
    \<forall>(component, amount)\<in>set sent. pred_option rate_amount amount \<Longrightarrow> schedule_step env co co'"
| approve: "approve env ck c user i seen co = Inr co' \<Longrightarrow> schedule_step env co co'"
| void: "void env ck c user i reason seen co = Inr co' \<Longrightarrow> schedule_step env co co'"
| discard: "discard env ck c user i seen co = Inr co' \<Longrightarrow> schedule_step env co co'"

section \<open>Tables that evolve\<close>

text \<open>A row in force keeps its identity, start and values as long as it is in force.\<close>

definition evolves :: "compensation_state \<Rightarrow> compensation_state \<Rightarrow> bool" where
  "evolves co co' \<longleftrightarrow>
     (\<forall>s\<in>set (rate_schedules (co_db co)). \<forall>s'\<in>set (rate_schedules (co_db co')). sch_id s' = sch_id s \<longrightarrow>
        is_authoritative s \<longrightarrow> same_rate s' s \<and> sch_company_id s' = sch_company_id s \<and>
        sch_effective_from s' = sch_effective_from s) \<and>
     (\<forall>s\<in>set (rate_schedules (co_db co)). is_authoritative s \<longrightarrow>
        load_values (sch_id s) (sch_rate_definition_id s) (co_db co') = load_values (sch_id s) (sch_rate_definition_id s) (co_db co) \<and>
        (\<forall>c. find_rate_definition c (co_db co') (sch_rate_definition_id s) =
           find_rate_definition c (co_db co) (sch_rate_definition_id s)))"

lemma update_evolves:
  assumes "rewritten (map f (rate_schedules (co_db co))) (schedule_values (co_db co)) n co co'"
    and "rows_ok k (rate_schedules (co_db co))"
    and "\<And>s. s \<in> set (rate_schedules (co_db co)) \<Longrightarrow> sch_id (f s) = sch_id s"
    and "\<And>s. s \<in> set (rate_schedules (co_db co)) \<Longrightarrow> is_authoritative s \<Longrightarrow>
      same_rate (f s) s \<and> sch_company_id (f s) = sch_company_id s \<and> sch_effective_from (f s) = sch_effective_from s"
  shows "evolves co co'"
proof -
  have "same_rate s' s \<and> sch_company_id s' = sch_company_id s \<and> sch_effective_from s' = sch_effective_from s"
    if "s \<in> set (rate_schedules (co_db co))" "s' \<in> set (rate_schedules (co_db co'))" "sch_id s' = sch_id s" "is_authoritative s"
    for s s'
  proof -
    from that(2) obtain t where t: "t \<in> set (rate_schedules (co_db co))" "s' = f t"
      using rewrittenD(1) [OF assms(1)] by auto
    with that(3) assms(3) have "sch_id t = sch_id s" by simp
    with same_id [OF rows_okD(1) [OF assms(2)] t(1) that(1)] have "t = s" by simp
    with t assms(4) [OF that(1,4)] show ?thesis by simp
  qed
  moreover have "load_values i rid (co_db co') = load_values i rid (co_db co)" for i rid
    by (rule load_values_cong) (simp_all add: rewrittenD(2,4) [OF assms(1)])
  ultimately show ?thesis by (simp add: evolves_def find_rate_definition_def rewrittenD(5) [OF assms(1)])
qed

lemma close_on_bounds:
  assumes "sch_effective_from prior < start" "not_after (sch_effective_to prior) (sch_effective_from prior)"
  shows "sch_effective_from prior \<le> close_on start prior" "not_after (sch_effective_to prior) (close_on start prior)"
    "close_on start prior < start"
  using assms by (auto simp: close_on_def not_after_def split: option.splits)

lemma approved_priorD:
  assumes "approved_prior row co = Some p"
  shows "p \<in> set (rate_schedules (co_db co))" "same_rate p row" "sch_status p = ''Approved''"
  using find_first_SomeD [OF assms [unfolded approved_prior_def]] by simp_all

lemma made_way_map:
  "made_way row prior S = map (\<lambda>s. case prior of None \<Rightarrow> s | Some p \<Rightarrow>
     if sch_id s = sch_id p then s\<lparr>sch_status := ''Superseded'', sch_effective_to := Some (close_on (sch_effective_from row) p)\<rparr>
     else s) S"
  by (cases prior) (auto simp: made_way_def supersede_row_def)

lemma made_way_ok:
  assumes "rows_ok n (rate_schedules (co_db co))" "approved_prior row co = prior"
    and "\<And>p. prior = Some p \<Longrightarrow> sch_effective_from p < sch_effective_from row"
  shows "rows_ok n (made_way row prior (rate_schedules (co_db co)))"
proof (cases prior)
  case None
  then show ?thesis using assms(1) by (simp add: made_way_def)
next
  case (Some p)
  note p = approved_priorD [OF assms(2) [unfolded Some]]
  have window: "not_after (sch_effective_to p) (sch_effective_from p)"
    using rows_okD(2) [OF assms(1) p(1)] by (simp add: row_ok_def)
  show ?thesis
    using supersede_rows_ok [OF assms(1) p(1,3) close_on_bounds(1,2) [OF assms(3) [OF Some] window]]
    by (simp add: made_way_def Some)
qed

lemma row_kept:
  assumes "rows_ok n (rate_schedules (co_db co))" "row \<in> set (rate_schedules (co_db co))" "sch_status row = ''Pending''"
    and "approved_prior row co = prior"
  shows "row \<in> set (made_way row prior (rate_schedules (co_db co)))"
proof (cases prior)
  case None
  then show ?thesis using assms(2) by (simp add: made_way_def)
next
  case (Some p)
  note p = approved_priorD [OF assms(4) [unfolded Some]]
  have "sch_id row \<noteq> sch_id p"
    using same_id [OF rows_okD(1) [OF assms(1)] assms(2) p(1)] assms(3) p(3) by auto
  then show ?thesis using assms(2) by (force simp: made_way_def Some supersede_row_def)
qed

section \<open>One step\<close>

lemma owners_update:
  assumes "owners_ok db" "drivers db' = drivers db"
    and "\<And>s'. s' \<in> set (rate_schedules db') \<Longrightarrow> \<exists>s\<in>set (rate_schedules db).
      sch_driver_id s = sch_driver_id s' \<and> sch_company_id s = sch_company_id s'"
  shows "owners_ok db'"
  using assms unfolding owners_ok_def by metis

lemma values_rows:
  assumes "values_ok db" "schedule_values db' = schedule_values db" "rate_components db' = rate_components db"
    and "\<And>s. s \<in> set (rate_schedules db) \<Longrightarrow> \<exists>s'\<in>set (rate_schedules db').
      sch_id s' = sch_id s \<and> sch_rate_definition_id s' = sch_rate_definition_id s"
  shows "values_ok db'"
  using assms unfolding values_ok_def by metis

lemma complete_update:
  assumes "complete_ok db" "\<And>i rid. load_values i rid db' = load_values i rid db"
    and "\<And>s'. s' \<in> set (rate_schedules db') \<Longrightarrow> is_authoritative s' \<Longrightarrow>
      \<exists>s\<in>set (rate_schedules db). is_authoritative s \<and> sch_id s = sch_id s' \<and>
        sch_rate_definition_id s = sch_rate_definition_id s'"
  shows "complete_ok db'"
  using assms unfolding complete_ok_def by metis

text \<open>A statement that updates rows in place, with all the invariant asks of it.\<close>

lemma update_step:
  assumes ok: "schedules_ok co"
    and co': "rewritten (map f (rate_schedules (co_db co))) (schedule_values (co_db co)) (co_next_schedule co) co co'"
    and rows: "rows_ok (co_next_schedule co) (map f (rate_schedules (co_db co)))"
    and keys: "\<And>s. s \<in> set (rate_schedules (co_db co)) \<Longrightarrow>
      sch_id (f s) = sch_id s \<and> same_rate (f s) s \<and> sch_company_id (f s) = sch_company_id s"
    and start: "\<And>s. s \<in> set (rate_schedules (co_db co)) \<Longrightarrow> is_authoritative s \<Longrightarrow> sch_effective_from (f s) = sch_effective_from s"
    and complete: "\<And>s. s \<in> set (rate_schedules (co_db co)) \<Longrightarrow> is_authoritative (f s) \<Longrightarrow> is_authoritative s \<or>
      load_values (sch_id s) (sch_rate_definition_id s) (co_db co) \<noteq> [] \<and>
      (\<forall>v\<in>set (load_values (sch_id s) (sch_rate_definition_id s) (co_db co)). rc_amount v \<noteq> None)"
  shows "schedules_ok co'" "evolves co co'"
proof -
  note tables = rewrittenD [OF co']
  have vals: "load_values i rid (co_db co') = load_values i rid (co_db co)" for i rid
    by (rule load_values_cong) (simp_all add: tables)
  have "values_ok (co_db co')"
    by (rule values_rows [OF schedules_okD(2) [OF ok]]) (use tables keys in \<open>auto simp: same_rate_def\<close>)
  moreover have "complete_ok (co_db co')"
    unfolding complete_ok_def
  proof (intro ballI impI)
    fix s' assume s': "s' \<in> set (rate_schedules (co_db co'))" "is_authoritative s'"
    then obtain s where s: "s \<in> set (rate_schedules (co_db co))" "s' = f s" using tables(1) by auto
    with complete [OF s(1)] s'(2) schedules_okD(3) [OF ok] keys [OF s(1)] show
      "load_values (sch_id s') (sch_rate_definition_id s') (co_db co') \<noteq> [] \<and>
       (\<forall>v\<in>set (load_values (sch_id s') (sch_rate_definition_id s') (co_db co')). rc_amount v \<noteq> None)"
      by (auto simp: vals complete_ok_def same_rate_def)
  qed
  moreover have "owners_ok (co_db co')"
    by (rule owners_update [OF schedules_okD(4) [OF ok]]) (use tables keys in \<open>auto simp: same_rate_def\<close>)
  ultimately show "schedules_ok co'" using rows tables(1,3) by (simp add: schedules_ok_def)
  show "evolves co co'"
    by (rule update_evolves [OF co' schedules_okD(1) [OF ok]]) (use keys start in auto)
qed

lemma create_step:
  assumes "create_pending env ck c user data seen co = Inr co'" "schedules_ok co"
  shows "schedules_ok co'" "evolves co co'"
    "rate_timeline c' (rate_schedules (co_db co')) driver rid = rate_timeline c' (rate_schedules (co_db co)) driver rid"
proof -
  note rows = schedules_okD(1) [OF assms(2)]
  from assms(1) obtain row where row: "sch_id row = co_next_schedule co" "sch_status row = ''Pending''"
    "governs c (sc_driver_id data) (sc_rate_definition_id data) row" "not_after (sch_effective_to row) (sch_effective_from row)"
    and free: "\<forall>s\<in>set (rate_schedules (co_db co)). \<not> (same_rate s row \<and> sch_status s = ''Pending'')"
    and co': "rewritten (rate_schedules (co_db co) @ [row]) (schedule_values (co_db co)) (co_next_schedule co + 1) co co'"
    and driver: "require_driver c (sc_driver_id data) (co_db co) = Inr ()"
    by (rule create_pendingE)
  note tables = rewrittenD [OF co']
  have vals: "load_values i rid (co_db co') = load_values i rid (co_db co)" for i rid
    by (rule load_values_cong) (simp_all add: tables)
  have new: "sch_id s \<noteq> sch_id row" if "s \<in> set (rate_schedules (co_db co))" for s
    using rows_okD(2) [OF rows that] row(1) by (auto simp: row_ok_def)
  have "values_ok (co_db co')"
    by (rule values_rows [OF schedules_okD(2) [OF assms(2)]]) (use tables in auto)
  moreover have "complete_ok (co_db co')"
    by (rule complete_update [OF schedules_okD(3) [OF assms(2)] vals])
      (use tables row(2) in \<open>auto simp: is_authoritative_def\<close>)
  moreover have "owners_ok (co_db co')"
    using schedules_okD(4) [OF assms(2)] driver row(3) unfolding owners_ok_def require_driver_def
    by (auto simp: tables governs_def)
  ultimately show "schedules_ok co'"
    using insert_rows_ok [OF rows row(1,2,4) free] by (simp add: schedules_ok_def tables)
  show "evolves co co'"
    unfolding evolves_def
  proof (intro conjI ballI impI allI vals)
    show "find_rate_definition c (co_db co') (sch_rate_definition_id s) = find_rate_definition c (co_db co) (sch_rate_definition_id s)"
      for c s by (simp add: find_rate_definition_def tables)
    fix s s' assume s: "s \<in> set (rate_schedules (co_db co))" "s' \<in> set (rate_schedules (co_db co'))" "sch_id s' = sch_id s"
    moreover from s have "s' \<noteq> row" using new [OF s(1)] by metis
    ultimately have "s' \<in> set (rate_schedules (co_db co))" using tables(1) by auto
    with s same_id [OF rows_okD(1) [OF rows]] have "s' = s" by blast
    then show "same_rate s' s" "sch_company_id s' = sch_company_id s" "sch_effective_from s' = sch_effective_from s"
      by (simp_all add: same_rate_def)
  qed
  show "rate_timeline c' (rate_schedules (co_db co')) driver rid = rate_timeline c' (rate_schedules (co_db co)) driver rid"
    using timeline_insert [OF row(2)] by (simp add: tables fun_eq_iff)
qed

lemma update_pending_step:
  assumes "update_pending env ck c user i changes seen co = Inr co'" "schedules_ok co"
  shows "schedules_ok co'" "evolves co co'"
    "rate_timeline c' (rate_schedules (co_db co')) driver rid = rate_timeline c' (rate_schedules (co_db co)) driver rid"
proof -
  from assms(1) obtain row f t where "load_schedule_row c i co = Inr row" "sch_status row = ''Pending''" and t: "not_after t f"
    and co': "rewritten (write_window i f t (rate_schedules (co_db co))) (schedule_values (co_db co)) (co_next_schedule co) co co'"
    by (rule update_pendingE)
  note step = update_step [OF assms(2) co' [unfolded write_window_def]
      write_window_ok [OF schedules_okD(1) [OF assms(2)] t, of i, unfolded write_window_def]]
  show "schedules_ok co'" "evolves co co'"
    by (rule step; auto simp: same_rate_def is_authoritative_def split: if_splits)+
  show "rate_timeline c' (rate_schedules (co_db co')) driver rid = rate_timeline c' (rate_schedules (co_db co)) driver rid"
    by (simp add: rewrittenD(1) [OF co'] timeline_write_window fun_eq_iff)
qed

lemma replace_values_step:
  assumes "replace_values env ck c user i sent seen co = Inr co'" "schedules_ok co"
    and amounts: "\<forall>(component, amount)\<in>set sent. pred_option rate_amount amount"
  shows "schedules_ok co'" "evolves co co'"
    "rate_timeline c' (rate_schedules (co_db co')) driver rid = rate_timeline c' (rate_schedules (co_db co)) driver rid"
proof -
  note rows = schedules_okD(1) [OF assms(2)]
  from assms(1) obtain row where row: "load_schedule_row c i co = Inr row" "sch_status row = ''Pending''"
    and ids: "set (map fst sent) \<subseteq> set (map rc_component_id (load_values i (sch_rate_definition_id row) (co_db co)))"
    and co': "rewritten (rate_schedules (co_db co)) (write_values i sent (schedule_values (co_db co))) (co_next_schedule co) co co'"
    by (rule replace_valuesE)
  note tables = rewrittenD [OF co'] and r = load_schedule_rowD [OF row(1)]
  have other: "sch_id s \<noteq> i" if "s \<in> set (rate_schedules (co_db co))" "is_authoritative s" for s
    using same_id [OF rows_okD(1) [OF rows] that(1) r(1)] that(2) row(2) r(2) by (auto simp: is_authoritative_def)
  have vals: "load_values j rid (co_db co') = load_values j rid (co_db co)" if "j \<noteq> i" for j rid
    by (rule load_values_cong) (simp_all add: tables write_values_other [OF that])
  have "values_ok (co_db co')"
    unfolding values_ok_def
  proof (intro conjI ballI)
    show "distinct (map (\<lambda>v. (val_schedule_id v, val_component_id v)) (schedule_values (co_db co')))"
      using write_values_distinct schedules_okD(2) [OF assms(2)] by (simp add: tables values_ok_def)
    fix v assume "v \<in> set (schedule_values (co_db co'))"
    then consider "v \<in> set (schedule_values (co_db co))"
      | component a where "(component, Some a) \<in> set sent"
        "v = \<lparr>val_schedule_id = i, val_component_id = component, val_amount = a\<rparr>"
      using write_values_set unfolding tables by blast
    then have "rate_amount (val_amount v) \<and> (\<exists>s\<in>set (rate_schedules (co_db co)). \<exists>c\<in>set (rate_components (co_db co)).
        sch_id s = val_schedule_id v \<and> cmp_id c = val_component_id v \<and> cmp_rate_definition_id c = sch_rate_definition_id s)"
    proof cases
      case 1
      then show ?thesis using schedules_okD(2) [OF assms(2)] by (auto simp: values_ok_def)
    next
      case (2 component a)
      then have "component \<in> set (map fst sent)" by force
      with ids have "component \<in> cmp_id ` {c \<in> set (rate_components (co_db co)). cmp_rate_definition_id c = sch_rate_definition_id row}"
        unfolding load_values_components by blast
      moreover have "rate_amount a" using amounts 2(1) by fastforce
      ultimately show ?thesis using r(1,2) by (auto simp: 2(2))
    qed
    then show "rate_amount (val_amount v)" "\<exists>s\<in>set (rate_schedules (co_db co')). \<exists>c\<in>set (rate_components (co_db co')).
        sch_id s = val_schedule_id v \<and> cmp_id c = val_component_id v \<and> cmp_rate_definition_id c = sch_rate_definition_id s"
      by (simp_all add: tables)
  qed
  moreover have "complete_ok (co_db co')"
    using schedules_okD(3) [OF assms(2)] other by (simp add: complete_ok_def tables vals)
  moreover have "owners_ok (co_db co')"
    by (rule owners_update [OF schedules_okD(4) [OF assms(2)]]) (use tables in auto)
  ultimately show "schedules_ok co'" using rows by (simp add: schedules_ok_def tables)
  show "evolves co co'"
    using same_id [OF rows_okD(1) [OF rows]] other
    by (auto simp: evolves_def find_rate_definition_def tables vals same_rate_def)
  show "rate_timeline c' (rate_schedules (co_db co')) driver rid = rate_timeline c' (rate_schedules (co_db co)) driver rid"
    by (simp add: tables)
qed

lemma discard_step:
  assumes "discard env ck c user i seen co = Inr co'" "schedules_ok co"
  shows "schedules_ok co'" "evolves co co'"
    "rate_timeline c' (rate_schedules (co_db co')) driver rid = rate_timeline c' (rate_schedules (co_db co)) driver rid"
proof -
  note rows = schedules_okD(1) [OF assms(2)]
  from assms(1) obtain row where row: "load_schedule_row c i co = Inr row" "sch_status row = ''Pending''"
    and co': "rewritten (filter (\<lambda>s. \<not> (sch_id s = i \<and> sch_status s = ''Pending'')) (rate_schedules (co_db co)))
      (filter (\<lambda>v. val_schedule_id v \<noteq> i) (schedule_values (co_db co))) (co_next_schedule co) co co'"
    by (rule discardE)
  note tables = rewrittenD [OF co'] and r = load_schedule_rowD [OF row(1)]
  have only: "s = row" if "s \<in> set (rate_schedules (co_db co))" "sch_id s = i" for s
    using same_id [OF rows_okD(1) [OF rows] that(1) r(1)] that(2) r(2) by simp
  have other: "sch_id s \<noteq> i" if "s \<in> set (rate_schedules (co_db co))" "is_authoritative s" for s
    using only [OF that(1)] that(2) row(2) by (auto simp: is_authoritative_def)
  have vals: "load_values j rid (co_db co') = load_values j rid (co_db co)" if "j \<noteq> i" for j rid
    by (rule load_values_cong) (use that in \<open>auto simp: tables intro: filter_cong\<close>)
  have "values_ok (co_db co')"
    using schedules_okD(2) [OF assms(2)] unfolding values_ok_def tables
    by (fastforce simp: distinct_map_filter)
  moreover have "complete_ok (co_db co')"
    using schedules_okD(3) [OF assms(2)] other unfolding complete_ok_def tables by (auto simp: vals)
  moreover have "owners_ok (co_db co')"
    by (rule owners_update [OF schedules_okD(4) [OF assms(2)]]) (use tables in auto)
  ultimately show "schedules_ok co'" using filter_rows_ok [OF rows] by (simp add: schedules_ok_def tables)
  show "evolves co co'"
    using same_id [OF rows_okD(1) [OF rows]] other
    by (auto simp: evolves_def find_rate_definition_def tables vals same_rate_def)
  show "rate_timeline c' (rate_schedules (co_db co')) driver rid = rate_timeline c' (rate_schedules (co_db co)) driver rid"
    unfolding tables by (rule ext) (rule timeline_discard)
qed

lemma void_step:
  assumes "void env ck c user i reason seen co = Inr co'" "schedules_ok co"
  shows "schedules_ok co'" "evolves co co'"
    "rate_timeline c' (rate_schedules (co_db co')) driver rid = (\<lambda>d.
      if rate_timeline c' (rate_schedules (co_db co)) driver rid d = Some i then None
      else rate_timeline c' (rate_schedules (co_db co)) driver rid d)"
proof -
  note rows = schedules_okD(1) [OF assms(2)]
  from assms(1) have co': "rewritten (void_row i (rate_schedules (co_db co))) (schedule_values (co_db co)) (co_next_schedule co) co co'"
    by (rule voidE)
  note step = update_step [OF assms(2) co' [unfolded void_row_def] void_rows_ok [OF rows, of i, unfolded void_row_def]]
  show "schedules_ok co'" "evolves co co'"
    by (rule step; auto simp: same_rate_def is_authoritative_def split: if_splits)+
  show "rate_timeline c' (rate_schedules (co_db co')) driver rid = (\<lambda>d.
      if rate_timeline c' (rate_schedules (co_db co)) driver rid d = Some i then None
      else rate_timeline c' (rate_schedules (co_db co)) driver rid d)"
    by (simp add: rewrittenD(1) [OF co'] timeline_void [OF rows] fun_eq_iff)
qed

section \<open>Approval\<close>

text \<open>
  A successor takes its window; what the prior schedule governed from the start of the successor on
  and the successor does not take is governed by nothing.
\<close>

definition take_over ::
  "date \<Rightarrow> date option \<Rightarrow> int \<Rightarrow> int option \<Rightarrow> (date \<Rightarrow> int option) \<Rightarrow> date \<Rightarrow> int option" where
  "take_over f t i prior old = (\<lambda>d.
     if in_window f t d then Some i else if prior \<noteq> None \<and> f \<le> d \<and> old d = prior then None else old d)"

lemma prior_timeline:
  assumes "schedules_ok co" "approved_prior row co = Some p"
    and "rate_timeline c (rate_schedules (co_db co)) driver rid d = Some (sch_id p)"
  shows "governs c driver rid p" "in_window (sch_effective_from p) (sch_effective_to p) d"
proof -
  note rows = schedules_okD(1) [OF assms(1)]
  note p = approved_priorD [OF assms(2)]
  from assms(3) obtain s where s: "s \<in> set (rate_schedules (co_db co))" "authoritative c (driver, rid, d) s" "sch_id s = sch_id p"
    unfolding rate_timeline_Some [OF rows] by blast
  with same_id [OF rows_okD(1) [OF rows] s(1) p(1)] show
    "governs c driver rid p" "in_window (sch_effective_from p) (sch_effective_to p) d"
    by (auto simp: authoritative_iff)
qed

lemma made_way_timeline:
  assumes "schedules_ok co" "approved_prior row co = prior" "row \<in> set (rate_schedules (co_db co))"
    and "\<And>p. prior = Some p \<Longrightarrow> sch_effective_from p < sch_effective_from row"
  shows "rate_timeline c (made_way row prior (rate_schedules (co_db co))) driver rid d =
    (if prior \<noteq> None \<and> governs c driver rid row \<and> sch_effective_from row \<le> d \<and>
        rate_timeline c (rate_schedules (co_db co)) driver rid d = map_option sch_id prior
     then None else rate_timeline c (rate_schedules (co_db co)) driver rid d)"
proof (cases prior)
  case None
  then show ?thesis by (simp add: made_way_def)
next
  case (Some p)
  note rows = schedules_okD(1) [OF assms(1)]
  note p = approved_priorD [OF assms(2) [unfolded Some]]
  have window: "not_after (sch_effective_to p) (sch_effective_from p)"
    using rows_okD(2) [OF rows p(1)] by (simp add: row_ok_def)
  note close = close_on_bounds [OF assms(4) [OF Some] window]
  have "close_on (sch_effective_from row) p < d \<longleftrightarrow> governs c driver rid row \<and> sch_effective_from row \<le> d"
    if tl: "rate_timeline c (rate_schedules (co_db co)) driver rid d = Some (sch_id p)"
  proof -
    note at = prior_timeline [OF assms(1) assms(2) [unfolded Some] tl]
    have "governs c driver rid row"
      using at(1) p(2) owner_unique [OF schedules_okD(4) [OF assms(1)] p(1) assms(3)]
      by (auto simp: governs_def same_rate_def)
    moreover have "close_on (sch_effective_from row) p < d \<longleftrightarrow> sch_effective_from row \<le> d"
      using at(2) close(3) by (auto simp: close_on_def in_window_def split: option.splits if_splits)
    ultimately show ?thesis by simp
  qed
  then show ?thesis
    unfolding made_way_def Some option.case timeline_supersede [OF rows p(1,3) close(1,2)] by auto
qed

lemma approve_step:
  assumes "approve env ck c user i seen co = Inr co'" "schedules_ok co"
  obtains row prior where "schedules_ok co'" "evolves co co'" "load_schedule_row c i co = Inr row"
    "approved_prior row co = prior" "\<And>p. prior = Some p \<Longrightarrow> sch_effective_from p < sch_effective_from row"
    "require_no_finalized_payroll c (sch_driver_id row) (Some (sch_effective_from row)) (approval_footprint row prior) WorkDate
      (co_db co) = Inr ()"
    "\<And>c' driver rid d. \<not> governs c' driver rid row \<Longrightarrow>
      rate_timeline c' (rate_schedules (co_db co')) driver rid d = rate_timeline c' (rate_schedules (co_db co)) driver rid d"
    "\<And>c' driver rid d. governs c' driver rid row \<Longrightarrow> rate_timeline c' (rate_schedules (co_db co')) driver rid d =
      take_over (sch_effective_from row) (sch_effective_to row) i (map_option sch_id prior)
        (rate_timeline c' (rate_schedules (co_db co)) driver rid) d"
    "\<And>c' driver rid d. governs c' driver rid row \<Longrightarrow> in_window (sch_effective_from row) (sch_effective_to row) d \<Longrightarrow>
      rate_timeline c' (rate_schedules (co_db co)) driver rid d \<in> {None, map_option sch_id prior}"
    "\<And>c' driver rid d. rate_timeline c' (rate_schedules (co_db co)) driver rid d \<noteq> Some i"
proof -
  let ?S = "rate_schedules (co_db co)"
  note rows = schedules_okD(1) [OF assms(2)]
  from assms(1) obtain row prior where row: "load_schedule_row c i co = Inr row" "sch_status row = ''Pending''"
    and checked: "independent_approver c user i co"
    and vals: "load_values i (sch_rate_definition_id row) (co_db co) \<noteq> []"
      "\<forall>v\<in>set (load_values i (sch_rate_definition_id row) (co_db co)). rc_amount v \<noteq> None"
    and found: "approved_prior row co = prior" "\<forall>p. prior = Some p \<longrightarrow> sch_effective_from p < sch_effective_from row"
    and authority: "authorized_from env c user (sch_driver_id row) (sch_effective_from row) (ck_decision ck) co"
    and fin: "require_no_finalized_payroll c (sch_driver_id row) (Some (sch_effective_from row)) (approval_footprint row prior) WorkDate
      (co_db co) = Inr ()"
    and alone: "\<forall>s\<in>set (made_way row prior ?S). same_rate row s \<longrightarrow> sch_status s \<noteq> ''Approved''"
      "\<forall>s\<in>set (made_way row prior ?S). is_authoritative s \<longrightarrow> \<not> schedules_overlap row s"
    and co': "rewritten (approve_row i (made_way row prior ?S)) (schedule_values (co_db co)) (co_next_schedule co) co co'"
    by (rule approveE)
  have later: "sch_effective_from p < sch_effective_from row" if "prior = Some p" for p using found(2) that by simp
  note prior = found(1) later
  note r = load_schedule_rowD [OF row(1)]
  note way = made_way_ok [OF rows prior] and kept = row_kept [OF rows r(1) row(2) prior(1)]
  note approved = approve_rows_ok [OF way kept row(2) alone]
  define f where "f s = (case prior of None \<Rightarrow> s | Some p \<Rightarrow> if sch_id s = sch_id p
    then s\<lparr>sch_status := ''Superseded'', sch_effective_to := Some (close_on (sch_effective_from row) p)\<rparr> else s)" for s :: schedule_row
  define g where "g s = (if sch_id s = i \<and> sch_status s = ''Pending'' then s\<lparr>sch_status := ''Approved''\<rparr> else s)" for s :: schedule_row
  have gf: "approve_row i (made_way row prior ?S) = map (\<lambda>s. g (f s)) ?S"
    by (simp add: made_way_map approve_row_def f_def g_def)
  have f: "sch_id (f s) = sch_id s" "sch_driver_id (f s) = sch_driver_id s" "sch_company_id (f s) = sch_company_id s"
    "sch_rate_definition_id (f s) = sch_rate_definition_id s" "sch_effective_from (f s) = sch_effective_from s" for s
    by (simp_all add: f_def split: option.split)
  have g: "sch_id (g s) = sch_id s" "sch_driver_id (g s) = sch_driver_id s" "sch_company_id (g s) = sch_company_id s"
    "sch_rate_definition_id (g s) = sch_rate_definition_id s" "sch_effective_from (g s) = sch_effective_from s" for s
    by (simp_all add: g_def)
  have closed: "is_authoritative s" if "s \<in> set ?S" "is_authoritative (f s)" for s
  proof (cases prior)
    case None
    then show ?thesis using that(2) by (simp add: f_def)
  next
    case (Some p)
    note p = approved_priorD [OF prior(1) [unfolded Some]]
    show ?thesis
      using that(2) same_id [OF rows_okD(1) [OF rows] that(1) p(1)] p(3)
      by (auto simp: f_def Some is_authoritative_def split: if_splits)
  qed
  have complete: "is_authoritative s \<or> load_values (sch_id s) (sch_rate_definition_id s) (co_db co) \<noteq> [] \<and>
      (\<forall>v\<in>set (load_values (sch_id s) (sch_rate_definition_id s) (co_db co)). rc_amount v \<noteq> None)"
    if s: "s \<in> set ?S" "is_authoritative (g (f s))" for s
  proof (cases "sch_id s = i")
    case True
    with same_id [OF rows_okD(1) [OF rows] s(1) r(1)] r(2) have "s = row" by simp
    with vals True show ?thesis by simp
  next
    case False
    with s(2) closed [OF s(1)] show ?thesis by (simp add: g_def f)
  qed
  have "schedules_ok co' \<and> evolves co co'"
    using update_step [OF assms(2) co' [unfolded gf], OF approved [unfolded r(2) gf]] complete
    by (simp add: f g same_rate_def)
  moreover have timeline: "rate_timeline c' (rate_schedules (co_db co')) driver rid d =
      (if governs c' driver rid row then take_over (sch_effective_from row) (sch_effective_to row) i (map_option sch_id prior)
        (rate_timeline c' ?S driver rid) d else rate_timeline c' ?S driver rid d)" for c' driver rid d
    using timeline_approve [OF way kept row(2) alone, of c' driver rid d]
      made_way_timeline [OF assms(2) prior(1) r(1) prior(2), of c' driver rid d]
    by (auto simp: rewrittenD(1) [OF co'] r(2) take_over_def)
  moreover have "rate_timeline c' ?S driver rid d \<in> {None, map_option sch_id prior}"
    if "governs c' driver rid row" "in_window (sch_effective_from row) (sch_effective_to row) d" for c' driver rid d
  proof (rule ccontr)
    assume other: "rate_timeline c' ?S driver rid d \<notin> {None, map_option sch_id prior}"
    then have "rate_timeline c' (made_way row prior ?S) driver rid d = rate_timeline c' ?S driver rid d"
      using made_way_timeline [OF assms(2) prior(1) r(1) prior(2), of c' driver rid d] by auto
    with other obtain j where "rate_timeline c' (made_way row prior ?S) driver rid d = Some j" by auto
    with rate_timeline_Some [OF way, of c' driver rid d j] obtain s where
      "s \<in> set (made_way row prior ?S)" "authoritative c' (driver, rid, d) s" by auto
    with alone(2) that show False
      by (auto simp: authoritative_iff schedules_overlap_def governs_def same_rate_def dest: windows_overlapI)
  qed
  moreover have "rate_timeline c' ?S driver rid d \<noteq> Some i" for c' driver rid d
  proof
    assume "rate_timeline c' ?S driver rid d = Some i"
    then obtain s where "s \<in> set ?S" "is_authoritative s" "sch_id s = i"
      unfolding rate_timeline_Some [OF rows] by (auto simp: authoritative_iff)
    with same_id [OF rows_okD(1) [OF rows] _ r(1), of s] r(2) row(2) show False by (auto simp: is_authoritative_def)
  qed
  ultimately show thesis by (intro that [OF _ _ row(1) prior fin]) simp_all
qed

section \<open>The abstract timeline\<close>

text \<open>What may happen to the timeline of a rate: nothing, a successor takes its window from no other
  schedule than the one it succeeds, or a schedule is withdrawn.\<close>

inductive timeline_step :: "(date \<Rightarrow> int option) \<Rightarrow> (date \<Rightarrow> int option) \<Rightarrow> bool" where
  keep: "timeline_step old old"
| succeed: "\<forall>d. in_window f t d \<longrightarrow> old d \<in> {None, prior} \<Longrightarrow> \<forall>d. old d \<noteq> Some i \<Longrightarrow>
    timeline_step old (take_over f t i prior old)"
| withdraw: "timeline_step old (\<lambda>d. if old d = Some i then None else old d)"

lemma schedule_step_ok:
  assumes "schedule_step env co co'" "schedules_ok co"
  shows "schedules_ok co'" "evolves co co'"
    "timeline_step (rate_timeline c (rate_schedules (co_db co)) driver rid) (rate_timeline c (rate_schedules (co_db co')) driver rid)"
proof -
  have "schedules_ok co' \<and> evolves co co' \<and>
    timeline_step (rate_timeline c (rate_schedules (co_db co)) driver rid) (rate_timeline c (rate_schedules (co_db co')) driver rid)"
    using assms(1)
  proof cases
    case create
    from create_step [OF this assms(2)] show ?thesis by (simp add: timeline_step.keep)
  next
    case update
    from update_pending_step [OF this assms(2)] show ?thesis by (simp add: timeline_step.keep)
  next
    case fill
    from replace_values_step [OF fill(1) assms(2) fill(2)] show ?thesis by (simp add: timeline_step.keep)
  next
    case (approve ck c' user i seen)
    from approve assms(2) show ?thesis
    proof (rule approve_step)
      fix row prior
      assume ok: "schedules_ok co'" "evolves co co'"
        and other: "\<And>c' driver rid d. \<not> governs c' driver rid row \<Longrightarrow>
          rate_timeline c' (rate_schedules (co_db co')) driver rid d = rate_timeline c' (rate_schedules (co_db co)) driver rid d"
        and taken: "\<And>c' driver rid d. governs c' driver rid row \<Longrightarrow> rate_timeline c' (rate_schedules (co_db co')) driver rid d =
          take_over (sch_effective_from row) (sch_effective_to row) i (map_option sch_id prior)
            (rate_timeline c' (rate_schedules (co_db co)) driver rid) d"
        and free: "\<And>c' driver rid d. governs c' driver rid row \<Longrightarrow> in_window (sch_effective_from row) (sch_effective_to row) d \<Longrightarrow>
          rate_timeline c' (rate_schedules (co_db co)) driver rid d \<in> {None, map_option sch_id prior}"
        and new: "\<And>c' driver rid d. rate_timeline c' (rate_schedules (co_db co)) driver rid d \<noteq> Some i"
      show ?thesis
      proof (cases "governs c driver rid row")
        case True
        then have "rate_timeline c (rate_schedules (co_db co')) driver rid =
            take_over (sch_effective_from row) (sch_effective_to row) i (map_option sch_id prior)
              (rate_timeline c (rate_schedules (co_db co)) driver rid)"
          by (intro ext taken)
        moreover have "timeline_step (rate_timeline c (rate_schedules (co_db co)) driver rid) \<dots>"
          by (rule timeline_step.succeed) (use free [OF True] new in blast)+
        ultimately show ?thesis using ok by simp
      next
        case False
        then have "rate_timeline c (rate_schedules (co_db co')) driver rid = rate_timeline c (rate_schedules (co_db co)) driver rid"
          by (intro ext other)
        with ok show ?thesis by (simp add: timeline_step.keep)
      qed
    qed
  next
    case void
    from void_step [OF this assms(2)] show ?thesis by (simp add: timeline_step.withdraw)
  next
    case discard
    from discard_step [OF this assms(2)] show ?thesis by (simp add: timeline_step.keep)
  qed
  then show "schedules_ok co'" "evolves co co'"
    "timeline_step (rate_timeline c (rate_schedules (co_db co)) driver rid) (rate_timeline c (rate_schedules (co_db co')) driver rid)"
    by blast+
qed

lemma schedule_step_tables:
  assumes "schedule_step env co co'"
  obtains S V n where "rewritten S V n co co'"
  using assms
  by cases (blast elim: create_pendingE update_pendingE replace_valuesE approveE voidE discardE)+

text \<open>A request on schedules is an edit of the live tables for the workflow and for period creation.\<close>

lemma schedule_step_is_creation_step:
  assumes "schedule_step env co co'"
  shows "creation_step cenv (co_creation co) (co_creation co')"
proof -
  from assms obtain S V n where "rewritten S V n co co'" by (rule schedule_step_tables)
  then show ?thesis
    by (intro creation_step.request workflow_step.edit) (simp_all add: same_tables_def rewritten_def)
qed

section \<open>Finalized days\<close>

text \<open>A day of a Locked or Archived period with one of the Driver's assignments on its roster.\<close>

definition finalized_day :: "payroll_db \<Rightarrow> int \<Rightarrow> int \<Rightarrow> date \<Rightarrow> bool" where
  "finalized_day db c driver d \<longleftrightarrow> (\<exists>p\<in>set (periods db). pp_company_id p = c \<and>
     pp_status p \<in> {''Locked'', ''Archived''} \<and> rostered c driver db p \<and> pp_start p \<le> d \<and> d \<le> pp_end p)"

lemma guarded_not_finalized:
  assumes "require_no_finalized_payroll c driver (Some f) hi WorkDate db = Inr u" "f \<le> d" "not_after hi d"
  shows "\<not> finalized_day db c driver d"
proof
  assume "finalized_day db c driver d"
  then obtain p where p: "p \<in> set (periods db)" "pp_company_id p = c" "pp_status p \<in> {''Locked'', ''Archived''}"
    "rostered c driver db p" "pp_start p \<le> d" "d \<le> pp_end p" by (auto simp: finalized_day_def)
  then have "p \<in> set (finalized_payroll_touched c driver (Some f) hi WorkDate db)"
    using assms(2,3)
    by (auto simp: finalized_payroll_touched_def driver_payroll_periods_for_footprint_def not_before_def not_after_def
        split: option.splits)
  moreover have "\<not> (\<exists>h. hi = Some h \<and> h < f)" using assms(2,3) by (auto simp: not_after_def)
  ultimately show False using assms(1) by (auto simp: require_no_finalized_payroll_def split: option.splits if_splits)
qed

lemma later_end_after: "not_after a d \<or> not_after b d \<Longrightarrow> not_after (later_end a b) d"
  by (auto simp: later_end_def not_after_def split: option.splits)

lemma in_window_iff: "in_window f t d \<longleftrightarrow> f \<le> d \<and> not_after t d"
  by (simp add: in_window_def not_after_def)

lemma schedule_step_frozen:
  assumes "schedule_step env co co'" "schedules_ok co" "finalized_day (co_db co) c driver d"
  shows "rate_timeline c (rate_schedules (co_db co')) driver rid d = rate_timeline c (rate_schedules (co_db co)) driver rid d"
  using assms(1)
proof cases
  case create
  from create_step [OF this assms(2)] show ?thesis by simp
next
  case update
  from update_pending_step [OF this assms(2)] show ?thesis by simp
next
  case fill
  from replace_values_step [OF fill(1) assms(2) fill(2)] show ?thesis by simp
next
  case discard
  from discard_step [OF this assms(2)] show ?thesis by simp
next
  case (approve ck c' user i seen)
  from approve assms(2) show ?thesis
  proof (rule approve_step)
    fix row prior
    assume row: "load_schedule_row c' i co = Inr row" and prior: "approved_prior row co = prior"
      and fin: "require_no_finalized_payroll c' (sch_driver_id row) (Some (sch_effective_from row)) (approval_footprint row prior)
        WorkDate (co_db co) = Inr ()"
      and other: "\<And>c' driver rid d. \<not> governs c' driver rid row \<Longrightarrow>
        rate_timeline c' (rate_schedules (co_db co')) driver rid d = rate_timeline c' (rate_schedules (co_db co)) driver rid d"
      and taken: "\<And>c' driver rid d. governs c' driver rid row \<Longrightarrow> rate_timeline c' (rate_schedules (co_db co')) driver rid d =
        take_over (sch_effective_from row) (sch_effective_to row) i (map_option sch_id prior)
          (rate_timeline c' (rate_schedules (co_db co)) driver rid) d"
    show ?thesis
    proof (cases "governs c driver rid row")
      case True
      then have c: "c' = c" "sch_driver_id row = driver" using load_schedule_rowD(3) [OF row] by (auto simp: governs_def)
      from assms(3) guarded_not_finalized [OF fin] have out: "\<not> (sch_effective_from row \<le> d \<and> not_after (approval_footprint row prior) d)"
        by (auto simp: c)
      then have "\<not> in_window (sch_effective_from row) (sch_effective_to row) d"
        by (auto simp: approval_footprint_def in_window_iff later_end_after split: option.splits)
      moreover have "\<not> (prior \<noteq> None \<and> sch_effective_from row \<le> d \<and>
          rate_timeline c (rate_schedules (co_db co)) driver rid d = map_option sch_id prior)"
      proof
        assume old: "prior \<noteq> None \<and> sch_effective_from row \<le> d \<and>
          rate_timeline c (rate_schedules (co_db co)) driver rid d = map_option sch_id prior"
        then obtain p where p: "prior = Some p" by auto
        with old prior_timeline(2) [OF assms(2), of row p c driver rid d] prior have "not_after (sch_effective_to p) d"
          by (simp add: in_window_iff)
        with old out show False by (auto simp: p approval_footprint_def later_end_after)
      qed
      ultimately show ?thesis using taken [OF True, of d] by (auto simp: take_over_def)
    qed (rule other)
  qed
next
  case (void ck c' user i reason seen)
  from void(1) obtain row where row: "load_schedule_row c' i co = Inr row" "is_authoritative row"
    and fin: "require_no_finalized_payroll c' (sch_driver_id row) (Some (sch_effective_from row)) (sch_effective_to row) WorkDate
      (co_db co) = Inr ()" by (rule voidE)
  note r = load_schedule_rowD [OF row(1)]
  have "rate_timeline c (rate_schedules (co_db co)) driver rid d \<noteq> Some i"
  proof
    assume "rate_timeline c (rate_schedules (co_db co)) driver rid d = Some i"
    then obtain s where s: "s \<in> set (rate_schedules (co_db co))" "authoritative c (driver, rid, d) s" "sch_id s = i"
      using rate_timeline_Some [OF schedules_okD(1) [OF assms(2)], of c driver rid d i] by auto
    with same_id [OF rows_okD(1) [OF schedules_okD(1) [OF assms(2)]] s(1) r(1)] r(2) have "s = row" by simp
    with s(2) r(3) have "c' = c" "sch_driver_id row = driver" "sch_effective_from row \<le> d" "not_after (sch_effective_to row) d"
      by (auto simp: authoritative_iff governs_def in_window_iff)
    with guarded_not_finalized [OF fin] assms(3) show False by auto
  qed
  with void_step(3) [OF void(1) assms(2)] show ?thesis by simp
qed

section \<open>Prices\<close>

text \<open>What a resolution contributes to an amount; its status and its end may still change.\<close>

definition price_of :: "resolved_compensation \<Rightarrow> int \<times> string \<times> string option \<times> date \<times> resolved_component list" where
  "price_of r = (res_schedule_id r, res_rate_shape r, res_calculation_method r, res_effective_from r, res_components r)"

definition price_on :: "int \<Rightarrow> payroll_db \<Rightarrow> int \<Rightarrow> int \<Rightarrow> date
  \<Rightarrow> (int \<times> string \<times> string option \<times> date \<times> resolved_component list) option" where
  "price_on c db driver rid d = map_option price_of (resolve_key c db (driver, rid, d))"

lemma the_schedule_timeline:
  "rate_timeline c (rate_schedules db) driver rid d = map_option sch_id (the_schedule c db (driver, rid, d))"
  by (simp add: rate_timeline_def the_schedule_def)

lemma price_same:
  assumes "evolves co co'" "rate_timeline c (rate_schedules (co_db co')) driver rid d = rate_timeline c (rate_schedules (co_db co)) driver rid d"
  shows "price_on c (co_db co') driver rid d = price_on c (co_db co) driver rid d"
proof (cases "the_schedule c (co_db co) (driver, rid, d)")
  case None
  with assms(2) have "the_schedule c (co_db co') (driver, rid, d) = None" by (simp add: the_schedule_timeline)
  with None show ?thesis by (simp add: price_on_def resolve_key_def)
next
  case (Some s)
  with assms(2) obtain s' where s': "the_schedule c (co_db co') (driver, rid, d) = Some s'" "sch_id s' = sch_id s"
    by (auto simp: the_schedule_timeline)
  have s: "s \<in> set (rate_schedules (co_db co))" "authoritative c (driver, rid, d) s"
    using find_first_SomeD [OF Some [unfolded the_schedule_def]] by simp_all
  have t: "s' \<in> set (rate_schedules (co_db co'))"
    using find_first_SomeD [OF s'(1) [unfolded the_schedule_def]] by simp
  have auth: "is_authoritative s" "sch_rate_definition_id s = rid" using s(2) by (auto simp: authoritative_iff governs_def)
  from assms(1) s(1) t s'(2) auth(1) have "sch_effective_from s' = sch_effective_from s" "same_rate s' s"
    unfolding evolves_def by blast+
  moreover from assms(1) s(1) auth have
    "load_values (sch_id s) rid (co_db co') = load_values (sch_id s) rid (co_db co)"
    "find_rate_definition c (co_db co') rid = find_rate_definition c (co_db co) rid"
    unfolding evolves_def by blast+
  ultimately show ?thesis
    using auth(2) s'(2)
    by (simp add: price_on_def resolve_key_def Some s'(1) same_rate_def resolved_of_def price_of_def components_of_schedule_def
        load_values_def split: option.splits)
qed

section \<open>Runs\<close>

text \<open>
  What the rest of the system does between two requests: it leaves the schedules, their values and the
  structure of the definitions they price alone, keeps the foreign key to the Drivers and the rosters
  of finalized periods, and moves periods along the lifecycle, as every step of the workflow and of
  period creation does (\<open>creation_step_elsewhere\<close>).
\<close>

definition rates_untouched :: "compensation_state \<Rightarrow> compensation_state \<Rightarrow> bool" where
  "rates_untouched co co' \<longleftrightarrow>
     rate_schedules (co_db co') = rate_schedules (co_db co) \<and> schedule_values (co_db co') = schedule_values (co_db co) \<and>
     co_next_schedule co' = co_next_schedule co \<and>
     (\<forall>s\<in>set (rate_schedules (co_db co)).
        filter (\<lambda>x. cmp_rate_definition_id x = sch_rate_definition_id s) (rate_components (co_db co')) =
        filter (\<lambda>x. cmp_rate_definition_id x = sch_rate_definition_id s) (rate_components (co_db co)) \<and>
        (\<forall>c. find_rate_definition c (co_db co') (sch_rate_definition_id s) =
           find_rate_definition c (co_db co) (sch_rate_definition_id s))) \<and>
     owners_ok (co_db co')"

definition rosters_kept :: "payroll_db \<Rightarrow> payroll_db \<Rightarrow> bool" where
  "rosters_kept db db' \<longleftrightarrow> (\<forall>p\<in>set (periods db). settled (pp_status p) \<longrightarrow>
     (\<forall>c driver. rostered c driver db p \<longrightarrow> rostered c driver db' p))"

definition elsewhere :: "compensation_state \<Rightarrow> compensation_state \<Rightarrow> bool" where
  "elsewhere co co' \<longleftrightarrow> rates_untouched co co' \<and> rosters_kept (co_db co) (co_db co') \<and>
     follows_lifecycle (periods (co_db co)) (periods (co_db co'))"

inductive compensation_run :: "zone_env \<Rightarrow> compensation_state \<Rightarrow> compensation_state \<Rightarrow> bool" for env where
  stop: "compensation_run env co co"
| request: "compensation_run env co co1 \<Longrightarrow> schedule_step env co1 co2 \<Longrightarrow> compensation_run env co co2"
| other: "compensation_run env co co1 \<Longrightarrow> elsewhere co1 co2 \<Longrightarrow> compensation_run env co co2"

lemma elsewhere_ok:
  assumes "elsewhere co co'" "schedules_ok co"
  shows "schedules_ok co'" "evolves co co'"
proof -
  have vals: "load_values (sch_id s) (sch_rate_definition_id s) (co_db co') =
      load_values (sch_id s) (sch_rate_definition_id s) (co_db co)" if "s \<in> set (rate_schedules (co_db co))" for s
    using assms(1) that by (simp add: elsewhere_def rates_untouched_def load_values_def component_value_def fun_eq_iff)
  have parts: "\<exists>x\<in>set (rate_components (co_db co')). cmp_id x = i \<and> cmp_rate_definition_id x = sch_rate_definition_id s"
    if "s \<in> set (rate_schedules (co_db co))"
      "\<exists>x\<in>set (rate_components (co_db co)). cmp_id x = i \<and> cmp_rate_definition_id x = sch_rate_definition_id s" for s i
  proof -
    from assms(1) that(1) have "set (filter (\<lambda>x. cmp_rate_definition_id x = sch_rate_definition_id s) (rate_components (co_db co'))) =
        set (filter (\<lambda>x. cmp_rate_definition_id x = sch_rate_definition_id s) (rate_components (co_db co)))"
      by (simp add: elsewhere_def rates_untouched_def)
    with that(2) show ?thesis by auto
  qed
  have "values_ok (co_db co')"
    using schedules_okD(2) [OF assms(2)] assms(1) parts unfolding values_ok_def elsewhere_def rates_untouched_def by (metis (no_types, lifting))
  moreover have "complete_ok (co_db co')"
    using schedules_okD(3) [OF assms(2)] assms(1) vals by (simp add: complete_ok_def elsewhere_def rates_untouched_def)
  ultimately show "schedules_ok co'"
    using schedules_okD(1) [OF assms(2)] assms(1) by (simp add: schedules_ok_def elsewhere_def rates_untouched_def)
  show "evolves co co'"
    using assms(1) vals same_id [OF rows_okD(1) [OF schedules_okD(1) [OF assms(2)]]]
    by (auto simp: evolves_def elsewhere_def rates_untouched_def same_rate_def)
qed

inductive_cases edge_from_locked: "lifecycle_edge ''Locked'' s"

inductive_cases edge_from_archived: "lifecycle_edge ''Archived'' s"

lemma settled_stays: "lifecycle_edge\<^sup>*\<^sup>* s t \<Longrightarrow> settled s \<Longrightarrow> settled t"
  by (induction rule: rtranclp_induct) (auto simp: settled_def elim: edge_from_locked edge_from_archived)

lemma elsewhere_finalized:
  assumes "elsewhere co co'" "finalized_day (co_db co) c driver d"
  shows "finalized_day (co_db co') c driver d"
proof -
  from assms(2) obtain p where p: "p \<in> set (periods (co_db co))" "pp_company_id p = c" "settled (pp_status p)"
    "rostered c driver (co_db co) p" "pp_start p \<le> d" "d \<le> pp_end p" by (auto simp: finalized_day_def settled_def)
  from assms(1) p(1) obtain s where s: "lifecycle_edge\<^sup>*\<^sup>* (pp_status p) s"
    "p\<lparr>pp_status := s\<rparr> \<in> set (periods (co_db co'))" by (auto simp: elsewhere_def follows_lifecycle_def)
  moreover have "settled s" by (rule settled_stays [OF s(1) p(3)])
  moreover have "rostered c driver (co_db co') (p\<lparr>pp_status := s\<rparr>)"
    using assms(1) p(1,3,4) by (simp add: elsewhere_def rosters_kept_def rostered_def)
  ultimately show ?thesis using p unfolding finalized_day_def settled_def by (intro bexI [of _ "p\<lparr>pp_status := s\<rparr>"]) auto
qed

lemma creation_step_follows:
  assumes "creation_step cenv cs cs'" "calendar_ok cenv cs"
  shows "follows_lifecycle (periods (ws_db (cr_workflow cs))) (periods (ws_db (cr_workflow cs')))"
  using assms(1)
proof cases
  case request
  then show ?thesis using workflow_step_follows assms(2) by (auto simp: calendar_ok_def)
next
  case (create now company user branch key r)
  from create show ?thesis
    by (cases rule: create_cases) (auto simp: period_written_def Let_def intro!: follows_refl)
qed

lemma creation_step_elsewhere:
  assumes "creation_step cenv (co_creation co) (co_creation co')" "calendar_ok cenv (co_creation co)"
    and "rates_untouched co co'" "rosters_kept (co_db co) (co_db co')"
  shows "elsewhere co co'"
  using assms creation_step_follows [OF assms(1,2)] by (simp add: elsewhere_def)

lemma compensation_run_ok: "compensation_run env co co' \<Longrightarrow> schedules_ok co \<Longrightarrow> schedules_ok co'"
  by (induction rule: compensation_run.induct) (auto intro: schedule_step_ok(1) elsewhere_ok(1))

lemma schedule_step_finalized:
  assumes "schedule_step env co co'" "finalized_day (co_db co) c driver d"
  shows "finalized_day (co_db co') c driver d"
proof -
  from assms(1) obtain S V n where "rewritten S V n co co'" by (rule schedule_step_tables)
  from rewrittenD [OF this] assms(2) show ?thesis by (simp add: finalized_day_def rostered_def)
qed

lemma compensation_run_frozen:
  assumes "compensation_run env co co'" "schedules_ok co" "finalized_day (co_db co) c driver d"
  shows "finalized_day (co_db co') c driver d \<and>
    price_on c (co_db co') driver rid d = price_on c (co_db co) driver rid d"
  using assms
proof (induction rule: compensation_run.induct)
  case (request co co1 co2)
  then have ok: "schedules_ok co1" by (auto intro: compensation_run_ok)
  from request have frozen: "finalized_day (co_db co1) c driver d" by blast
  from price_same [OF schedule_step_ok(2) [OF request(2) ok] schedule_step_frozen [OF request(2) ok frozen]]
    schedule_step_finalized [OF request(2) frozen] request show ?case by simp
next
  case (other co co1 co2)
  then have ok: "schedules_ok co1" by (auto intro: compensation_run_ok)
  have "rate_timeline c (rate_schedules (co_db co2)) driver rid d = rate_timeline c (rate_schedules (co_db co1)) driver rid d"
    using other(2) by (simp add: elsewhere_def rates_untouched_def)
  from price_same [OF elsewhere_ok(2) [OF other(2) ok] this] elsewhere_finalized [OF other(2)] other show ?case by simp
qed simp

section \<open>What the resolver finds\<close>

lemma distinct_singleton:
  assumes "distinct xs" "\<And>s t. s \<in> set xs \<Longrightarrow> t \<in> set xs \<Longrightarrow> s = t"
  shows "length xs \<le> 1"
proof (cases xs rule: remdups_adj.cases)
  case (3 x y ys)
  with assms(2) [of x y] assms(1) show ?thesis by simp
qed simp_all

lemma schedules_ok_resolves:
  assumes "schedules_ok co"
  shows "Rate_Resolver.no_overlap c (co_db co) keys"
  unfolding Rate_Resolver.no_overlap_def
proof
  fix k :: resolution_key
  obtain driver rid d where k: "k = (driver, rid, d)" by (cases k)
  let ?xs = "filter (authoritative c k) (rate_schedules (co_db co))"
  have "distinct ?xs" using rows_okD(1) [OF schedules_okD(1) [OF assms]] by (simp add: distinct_map)
  moreover have "s = t" if "s \<in> set ?xs" "t \<in> set ?xs" for s t
    using that authoritative_unique [OF schedules_okD(1) [OF assms], of s t c driver rid d] by (simp add: k)
  ultimately show "length ?xs \<le> 1" by (rule distinct_singleton)
qed

lemma resolved_complete:
  assumes "schedules_ok co" "resolve_key c (co_db co) (driver, rid, d) = Some r"
  shows "res_components r \<noteq> [] \<and> (\<forall>v\<in>set (res_components r). \<exists>a. rc_amount v = Some a \<and> rate_amount a)"
proof -
  from assms(2) obtain s where the: "the_schedule c (co_db co) (driver, rid, d) = Some s"
    and r: "res_components r = load_values (sch_id s) (sch_rate_definition_id s) (co_db co)"
    by (auto simp: resolve_key_def resolved_of_def components_of_schedule_def load_values_def split: option.splits)
  from find_first_SomeD [OF the [unfolded the_schedule_def]] have s: "s \<in> set (rate_schedules (co_db co))" "is_authoritative s"
    by (auto simp: authoritative_iff)
  with schedules_okD(3) [OF assms(1)] have full: "res_components r \<noteq> []" "\<forall>v\<in>set (res_components r). rc_amount v \<noteq> None"
    unfolding complete_ok_def r by blast+
  have "rate_amount a" if "v \<in> set (res_components r)" "rc_amount v = Some a" for v a
  proof -
    from that obtain x where "x \<in> set (schedule_values (co_db co))" "val_amount x = a"
      by (auto simp: r load_values_def component_value_def dest!: find_first_SomeD)
    with schedules_okD(2) [OF assms(1)] show ?thesis by (auto simp: values_ok_def)
  qed
  with full show ?thesis by blast
qed

end
