(* ===== verification/Schedule_Progress.thy ===== *)
theory Schedule_Progress
  imports Schedule_Runs
begin

text \<open>
  When an approval goes through: no guard of the service, no trigger and no index refuses a complete
  Pending schedule that follows what is in force, outside finalized payroll.
\<close>

section \<open>Authority\<close>

lemma may_edit_subject: "may_edit c user b co \<Longrightarrow> \<not> is_driver_self_subject c user (co_access co)"
  by (simp add: may_edit_def has_any_permission_def)

lemma authority_granted:
  assumes "may_edit c user None co" "require_driver c driver (co_db co) = Inr ()"
    and "driver_assignment_for_business_date env c driver start (co_db co) = Some a" "\<not> ended_at instant (asg_effective_to_at a)"
  shows "\<exists>cx. require_compensation_authority env c user driver (WriteFrom start) instant co = Inr cx"
  using assms may_edit_subject [OF assms(1)]
  by (simp add: require_compensation_authority_def require_non_driver_subject_def edit_standing_def Let_def
      resolve_compensation_context_def guard_r_def)

lemma owner_required:
  assumes "owners_ok db" "row \<in> set (rate_schedules db)"
  shows "require_driver (sch_company_id row) (sch_driver_id row) db = Inr ()"
  using assms by (auto simp: owners_ok_def require_driver_def)

lemma context_unchanged [simp]:
  "context_writable env c driver d instant (db\<lparr>rate_schedules := S\<rparr>) =
   context_writable env c driver d instant db"
  by (simp add: context_writable_def driver_assignment_for_business_date_def claims_live_def)

lemma structure_unchanged [simp]:
  "assert_rate_structure_complete rid (db\<lparr>rate_schedules := S\<rparr>) =
   assert_rate_structure_complete rid db"
  by (simp add: assert_rate_structure_complete_def)

lemma rewritten_db: "rewritten S V n co co' \<Longrightarrow> co_db co' = (co_db co)\<lparr>rate_schedules := S, schedule_values := V\<rparr>"
  by (simp add: rewritten_def)

section \<open>Footprint and supersession\<close>

lemma no_finalized_granted:
  assumes "\<forall>p\<in>set (periods db). pp_company_id p = c \<longrightarrow> pp_status p \<in> {''Locked'', ''Archived''} \<longrightarrow>
    rostered c driver db p \<longrightarrow> pp_end p < f"
  shows "require_no_finalized_payroll c driver (Some f) hi WorkDate db = Inr ()"
proof -
  have "finalized_payroll_touched c driver (Some f) hi WorkDate db = []"
    using assms
    by (auto simp: finalized_payroll_touched_def driver_payroll_periods_for_footprint_def filter_empty_conv not_before_def)
  then show ?thesis by (cases hi) (simp_all add: require_no_finalized_payroll_def guard_r_def)
qed

lemma tail_start_of_close:
  assumes "tail_start (sch_effective_to p) (Some (close_on start p)) = Some d"
  shows "d = start"
  using assms by (auto simp: tail_start_def close_on_def split: option.splits if_splits)

lemma supersede_granted:
  assumes "context_writable env (sch_company_id p) (sch_driver_id p) (sch_effective_from row) instant (co_db co) = Inr ()"
  shows "\<exists>co1. supersede env instant user row p co = Inr co1"
proof (cases "tail_start (sch_effective_to p) (Some (close_on (sch_effective_from row) p))")
  case None
  then show ?thesis by (simp add: supersede_def)
next
  case (Some d)
  with tail_start_of_close [OF Some] assms show ?thesis by (simp add: supersede_def)
qed

text \<open>What is in force ends, or can be ended, before the new schedule starts.\<close>

definition follows_in_force :: "schedule_row \<Rightarrow> schedule_row list \<Rightarrow> bool" where
  "follows_in_force row S \<longleftrightarrow> (\<forall>s\<in>set S. same_rate row s \<longrightarrow>
     (sch_status s = ''Approved'' \<longrightarrow> sch_effective_from s < sch_effective_from row) \<and>
     (sch_status s = ''Superseded'' \<longrightarrow> \<not> not_after (sch_effective_to s) (sch_effective_from row)))"

lemma made_way_free:
  assumes "rows_ok n (rate_schedules (co_db co))" "approved_prior row co = prior"
    and "follows_in_force row (rate_schedules (co_db co))" "s \<in> set (made_way row prior (rate_schedules (co_db co)))"
    and "same_rate row s"
  shows "sch_status s \<noteq> ''Approved''" "is_authoritative s \<Longrightarrow> \<not> schedules_overlap row s"
proof -
  let ?S = "rate_schedules (co_db co)"
  have "sch_status s \<noteq> ''Approved'' \<and> (is_authoritative s \<longrightarrow> \<not> schedules_overlap row s)"
  proof (cases prior)
    case None
    with assms(4) have s: "s \<in> set ?S" by (simp add: made_way_def)
    with None assms(2,5) have "sch_status s \<noteq> ''Approved''"
      by (auto simp: approved_prior_def find_first_None_iff same_rate_sym)
    with s assms(3,5) show ?thesis
      by (auto simp: follows_in_force_def is_authoritative_def schedules_overlap_def windows_overlap_def)
  next
    case (Some p)
    note p = approved_priorD [OF assms(2) [unfolded Some]]
    from assms(4) obtain t where t: "t \<in> set ?S" "s = (if sch_id t = sch_id p
        then t\<lparr>sch_status := ''Superseded'', sch_effective_to := Some (close_on (sch_effective_from row) p)\<rparr> else t)"
      by (auto simp: made_way_def Some supersede_row_def)
    have window: "not_after (sch_effective_to p) (sch_effective_from p)"
      using rows_okD(2) [OF assms(1) p(1)] by (simp add: row_ok_def)
    show ?thesis
    proof (cases "t = p")
      case True
      have "sch_effective_from p < sch_effective_from row"
        using assms(3) p by (auto simp: follows_in_force_def same_rate_sym)
      from close_on_bounds(3) [OF this window] t(2) True show ?thesis
        by (auto simp: schedules_overlap_def windows_overlap_def not_after_def)
    next
      case False
      with t same_id [OF rows_okD(1) [OF assms(1)] t(1) p(1)] have s: "s = t" by simp
      have "sch_status t \<noteq> ''Approved''"
        using rows_okD(4) [OF assms(1)] t(1) p False assms(5) s unfolding one_each_def by (auto simp: same_rate_def)
      with s t(1) assms(3,5) show ?thesis
        by (auto simp: follows_in_force_def is_authoritative_def schedules_overlap_def windows_overlap_def)
    qed
  qed
  then show "sch_status s \<noteq> ''Approved''" "is_authoritative s \<Longrightarrow> \<not> schedules_overlap row s" by auto
qed

section \<open>The approval\<close>

lemma approve_granted:
  assumes ok: "schedules_ok co" and row: "load_schedule_row c i co = Inr row" "sch_status row = ''Pending''"
    and may: "may_edit c user None co" "independent_approver c user i co"
    and home: "driver_assignment_for_business_date env c (sch_driver_id row) (sch_effective_from row) (co_db co) = Some a"
      "\<forall>instant\<in>{ck_first ck, ck_decision ck, ck_statement ck}. \<not> ended_at instant (asg_effective_to_at a)"
    and currency: "lock_monetary_write c co = Inr cur"
    and authorable: "authorable_rate_definition c (sch_rate_definition_id row) co = Inr x"
      "assert_rate_structure_complete (sch_rate_definition_id row) (co_db co) = Inr ()"
    and filled: "load_values i (sch_rate_definition_id row) (co_db co) \<noteq> []"
      "\<forall>v\<in>set (load_values i (sch_rate_definition_id row) (co_db co)). rc_amount v \<noteq> None"
    and after: "follows_in_force row (rate_schedules (co_db co))"
      "\<forall>p\<in>set (periods (co_db co)). pp_company_id p = c \<longrightarrow> pp_status p \<in> {''Locked'', ''Archived''} \<longrightarrow>
         rostered c (sch_driver_id row) (co_db co) p \<longrightarrow> pp_end p < sch_effective_from row"
  shows "\<exists>co'. approve env ck c user i co co = Inr co'"
proof -
  note rows = schedules_okD(1) [OF ok] and r = load_schedule_rowD [OF row(1)]
  have driver: "require_driver c (sch_driver_id row) (co_db co) = Inr ()"
    using owner_required [OF schedules_okD(4) [OF ok] r(1)] r(3) by simp
  obtain cx cx' where authority:
    "require_compensation_authority env c user (sch_driver_id row) (WriteFrom (sch_effective_from row)) (ck_first ck) co = Inr cx"
    "require_compensation_authority env c user (sch_driver_id row) (WriteFrom (sch_effective_from row)) (ck_decision ck) co = Inr cx'"
    using authority_granted [OF may(1) driver home(1), of "ck_first ck"]
      authority_granted [OF may(1) driver home(1), of "ck_decision ck"] home(2) by auto
  have writable: "context_writable env c (sch_driver_id row) (sch_effective_from row) (ck_statement ck) (co_db co) = Inr ()"
    using home by (simp add: context_writable_def guard_r_def)
  define prior where "prior = approved_prior row co"
  have later: "sch_effective_from p < sch_effective_from row" if "prior = Some p" for p
    using approved_priorD [of row co p] that after(1) by (auto simp: prior_def follows_in_force_def same_rate_sym)
  have "\<exists>co1. (case prior of None \<Rightarrow> Inr co | Some p \<Rightarrow> supersede env (ck_statement ck) user row p co) = Inr co1 \<and>
      rewritten (made_way row prior (rate_schedules (co_db co))) (schedule_values (co_db co)) (co_next_schedule co) co co1"
  proof (cases prior)
    case None
    then show ?thesis by (simp add: made_way_def rewritten_refl)
  next
    case (Some p)
    note p = approved_priorD [OF Some [unfolded prior_def]]
    have "sch_company_id p = c" "sch_driver_id p = sch_driver_id row"
      using owner_unique [OF schedules_okD(4) [OF ok] p(1) r(1)] p(2) r(3) by (auto simp: same_rate_def)
    with supersede_granted [of env p row "ck_statement ck" co user] writable obtain co1 where
      "supersede env (ck_statement ck) user row p co = Inr co1" by auto
    with supersedeE [OF this] show ?thesis by (auto simp: Some made_way_def)
  qed
  then obtain co1 where co1: "(case prior of None \<Rightarrow> Inr co | Some p \<Rightarrow> supersede env (ck_statement ck) user row p co) = Inr co1"
    and way: "rewritten (made_way row prior (rate_schedules (co_db co))) (schedule_values (co_db co)) (co_next_schedule co) co co1"
    by blast
  note free = made_way_free [OF rows prior_def [symmetric] after(1)]
  have "\<exists>co'. promote env (ck_statement ck) user row co1 = Inr co'"
    using free authorable(2) writable r(3)
    by (auto simp: promote_def Let_def rewritten_db [OF way] guard_r_def)
  moreover have "require_independent_approver c user row co = Inr ()"
    using may(2) r(2) by (auto simp: independent_approver_def require_independent_approver_def Let_def guard_r_def)
  moreover have "require_no_finalized_payroll c (sch_driver_id row) (Some (sch_effective_from row)) hi WorkDate (co_db co) = Inr ()" for hi
    by (rule no_finalized_granted) (rule after(2))
  moreover have "require_pending row = Inr ()" "require_same_schedule row row = Inr ()"
    by (simp_all add: require_pending_def require_same_schedule_def row(2))
  ultimately show ?thesis
    using row authority currency authorable(1) filled later co1
    by (auto simp: approve_def Let_def prior_def [symmetric] guard_r_def split: option.splits)
qed

end
