(* ===== verification/Schedule_Properties.thy ===== *)
theory Schedule_Properties
  imports Schedule_Progress Creation_Properties
begin

text \<open>
  The properties of rate authoring: every rate a reachable table resolves is the one complete value
  set in force, finalized payroll keeps its prices, an approval takes over exactly its window, who may
  do it, when it goes through, and that the pay-rate screen shows what the calculation resolves.
\<close>

section \<open>A sample\<close>

text \<open>The sample Company with its week finalized and one approved rate; a raise from the eighth day on.\<close>

definition sample_zone :: zone_env where
  "sample_zone = \<lparr>ze_boundary = sample_boundary, ze_business_date = (\<lambda>_ t. t div 24)\<rparr>"

definition sample_clock :: request_clock where
  "sample_clock = \<lparr>ck_scope = 0, ck_first = 0, ck_decision = 0, ck_statement = 0\<rparr>"

definition finalized_roster :: payroll_db where
  "finalized_roster = sample_roster\<lparr>periods := [sample_period\<lparr>pp_status := ''Locked''\<rparr>]\<rparr>"

definition rate_access :: access_tables where
  "rate_access = sample_access\<lparr>permissions := ''payrates.edit'' # permissions sample_access\<rparr>"

definition sample_compensation :: compensation_state where
  "sample_compensation =
    \<lparr>co_creation = sample_creation
       \<lparr>cr_workflow := (cr_workflow sample_creation)\<lparr>ws_db := finalized_roster, ws_access := rate_access\<rparr>\<rparr>,
     co_schedules = (\<lambda>_. \<lparr>sm_pay_definition_id = Some 20, sm_status_column_id = None, sm_created_by = 1,
       sm_updated_by = None, sm_approved_by = None, sm_voided_by = None, sm_void_reason = None, sm_notes = None\<rparr>),
     co_rules = (\<lambda>_. \<lparr>ru_created_by = 1, ru_updated_by = None, ru_notes = None\<rparr>), co_active_columns = [],
     co_next_schedule = 41, co_audit = []\<rparr>"

definition sample_raise :: schedule_create where
  "sample_raise = \<lparr>sc_driver_id = 7, sc_rate_definition_id = 30, sc_effective_from = 8, sc_effective_to = None, sc_notes = None\<rparr>"

definition raise_row :: schedule_row where
  "raise_row = \<lparr>sch_id = 41, sch_company_id = 1, sch_driver_id = 7, sch_rate_definition_id = 30, sch_status = ''Pending'',
     sch_effective_from = 8, sch_effective_to = None\<rparr>"

lemma sample_schedules_ok: "schedules_ok sample_compensation"
  by code_simp

lemma sample_day_finalized: "finalized_day (co_db sample_compensation) 1 7 4"
  by code_simp

lemma sample_requests_evaluated:
  "case create_pending sample_zone sample_clock 1 1 sample_raise sample_compensation sample_compensation of Inl _ \<Rightarrow> False
   | Inr co1 \<Rightarrow> (case replace_values sample_zone sample_clock 1 1 41 [(50, Some 13)] co1 co1 of Inl _ \<Rightarrow> False
   | Inr co2 \<Rightarrow> (case approve sample_zone sample_clock 1 1 41 co2 co2 of Inl _ \<Rightarrow> False
   | Inr co3 \<Rightarrow> owned_keys 1 (co_db co3) [(7, 30, 4), (7, 30, 9)] \<and>
       rate_schedules (co_db co2) = rate_schedules finalized_roster @ [raise_row] \<and>
       map sch_id (rate_schedules finalized_roster) = [40]))"
  by code_simp

lemma sample_requests:
  obtains co1 co2 co3 where
    "create_pending sample_zone sample_clock 1 1 sample_raise sample_compensation sample_compensation = Inr co1"
    "replace_values sample_zone sample_clock 1 1 41 [(50, Some 13)] co1 co1 = Inr co2"
    "approve sample_zone sample_clock 1 1 41 co2 co2 = Inr co3"
    "owned_keys 1 (co_db co3) [(7, 30, 4), (7, 30, 9)]" "schedules_ok co2"
    "compensation_run sample_zone sample_compensation co3"
    "\<And>row. row \<in> set (rate_schedules (co_db co2)) \<Longrightarrow> sch_id row = 41 \<Longrightarrow> row = raise_row"
    "raise_row \<in> set (rate_schedules (co_db co2))"
proof -
  from sample_requests_evaluated obtain co1 co2 co3 where
    requests: "create_pending sample_zone sample_clock 1 1 sample_raise sample_compensation sample_compensation = Inr co1"
      "replace_values sample_zone sample_clock 1 1 41 [(50, Some 13)] co1 co1 = Inr co2"
      "approve sample_zone sample_clock 1 1 41 co2 co2 = Inr co3"
    and owned: "owned_keys 1 (co_db co3) [(7, 30, 4), (7, 30, 9)]"
    and rows: "rate_schedules (co_db co2) = rate_schedules finalized_roster @ [raise_row]"
      "map sch_id (rate_schedules finalized_roster) = [40]"
    by (auto split: sum.splits)
  have only: "row = raise_row" if "row \<in> set (rate_schedules (co_db co2))" "sch_id row = 41" for row
  proof (rule ccontr)
    assume "row \<noteq> raise_row"
    with that(1) rows(1) have "sch_id row \<in> set (map sch_id (rate_schedules finalized_roster))" by auto
    with that(2) rows(2) show False by simp
  qed
  have "rate_amount 13" by code_simp
  then have step: "schedule_step sample_zone co1 co2" by (intro schedule_step.fill [OF requests(2)]) simp
  have run: "compensation_run sample_zone sample_compensation co2"
    using compensation_run.request [OF compensation_run.request [OF compensation_run.stop schedule_step.create [OF requests(1)]] step] .
  show thesis
    by (rule that [OF requests owned compensation_run_ok [OF run sample_schedules_ok]
          compensation_run.request [OF run schedule_step.approve [OF requests(3)]] only])
      (simp_all add: rows(1))
qed

section \<open>Every rate is resolvable and complete\<close>

text \<open>C7: in every state reachable by requests on schedules and whatever else the system does, the
  rate resolver never meets two schedules in force: it answers every key of the Company, and what it
  answers has a valid amount for each component of the definition.\<close>

theorem rates_always_resolvable:
  assumes "compensation_run env co co'" "schedules_ok co" "owned_keys c (co_db co') keys"
  shows "resolve_many c (co_db co') keys = Inr (\<lambda>k. if k \<in> set keys then Some (resolve_key c (co_db co') k) else None) \<and>
    (\<forall>k\<in>set keys. \<forall>r. resolve_key c (co_db co') k = Some r \<longrightarrow>
       res_components r \<noteq> [] \<and> (\<forall>v\<in>set (res_components r). \<exists>a. rc_amount v = Some a \<and> rate_amount a))"
proof -
  have ok: "schedules_ok co'" using compensation_run_ok [OF assms(1,2)] .
  have "res_components r \<noteq> [] \<and> (\<forall>v\<in>set (res_components r). \<exists>a. rc_amount v = Some a \<and> rate_amount a)"
    if "resolve_key c (co_db co') k = Some r" for k r
    using resolved_complete [OF ok, of c "fst k" "fst (snd k)" "snd (snd k)" r] that by simp
  then show ?thesis using resolve_many_ok [OF assms(3) schedules_ok_resolves [OF ok]] by blast
qed

theorem rates_always_resolvable_witness:
  "\<exists>co m. compensation_run sample_zone sample_compensation co \<and>
     resolve_many 1 (co_db co) [(7, 30, 4), (7, 30, 9)] = Inr m \<and> m (7, 30, 9) \<noteq> None"
proof (rule sample_requests)
  fix co1 co2 co3
  assume run: "compensation_run sample_zone sample_compensation co3"
    and owned: "owned_keys 1 (co_db co3) [(7, 30, 4), (7, 30, 9)]"
  from rates_always_resolvable [OF run sample_schedules_ok owned] run show ?thesis by (intro exI [of _ co3]) auto
qed

section \<open>Finalized payroll keeps its prices\<close>

text \<open>C6: no request changes what a day of finalized payroll is paid with.  For a day of a Locked or
  Archived period that has the Driver on its roster, the schedule in force, its start and all its
  amounts stay what they were, whatever is created, edited, filled in, approved, voided or discarded
  afterwards, in any order with the other steps of the system.\<close>

theorem finalized_price_fixed:
  assumes "compensation_run env co co'" "schedules_ok co"
    and "p \<in> set (periods (co_db co))" "pp_status p \<in> {''Locked'', ''Archived''}"
    and "rostered (pp_company_id p) driver (co_db co) p" "pp_start p \<le> d" "d \<le> pp_end p"
  shows "price_on (pp_company_id p) (co_db co') driver rid d = price_on (pp_company_id p) (co_db co) driver rid d"
  using compensation_run_frozen [OF assms(1,2)] assms(3-7) unfolding finalized_day_def by blast

theorem finalized_price_fixed_witness:
  "\<exists>co. compensation_run sample_zone sample_compensation co \<and>
     price_on 1 (co_db co) 7 30 4 = price_on 1 (co_db sample_compensation) 7 30 4 \<and>
     rate_timeline 1 (rate_schedules (co_db co)) 7 30 9 = Some 41"
proof (rule sample_requests)
  fix co1 co2 co3
  assume run: "compensation_run sample_zone sample_compensation co3" and ok: "schedules_ok co2"
    and approve: "approve sample_zone sample_clock 1 1 41 co2 co2 = Inr co3"
    and fill: "replace_values sample_zone sample_clock 1 1 41 [(50, Some 13)] co1 co1 = Inr co2"
    and create: "create_pending sample_zone sample_clock 1 1 sample_raise sample_compensation sample_compensation = Inr co1"
  have facts: "sample_period\<lparr>pp_status := ''Locked''\<rparr> \<in> set (periods (co_db sample_compensation))"
    "rostered 1 7 (co_db sample_compensation) (sample_period\<lparr>pp_status := ''Locked''\<rparr>)"
    by code_simp+
  have "rate_timeline 1 (rate_schedules (co_db co3)) 7 30 9 = Some 41"
  proof -
    have "case create_pending sample_zone sample_clock 1 1 sample_raise sample_compensation sample_compensation of Inl _ \<Rightarrow> False
      | Inr co1 \<Rightarrow> (case replace_values sample_zone sample_clock 1 1 41 [(50, Some 13)] co1 co1 of Inl _ \<Rightarrow> False
      | Inr co2 \<Rightarrow> (case approve sample_zone sample_clock 1 1 41 co2 co2 of Inl _ \<Rightarrow> False
      | Inr co3 \<Rightarrow> rate_timeline 1 (rate_schedules (co_db co3)) 7 30 9 = Some 41))" by code_simp
    then show ?thesis by (simp add: create fill approve)
  qed
  with finalized_price_fixed [OF run sample_schedules_ok facts(1), of 7 4 30] facts(2) run show ?thesis
    by (intro exI [of _ co3]) (simp add: sample_period_def)
qed

section \<open>Approval\<close>

text \<open>C13: an approval takes over exactly its window.  The approved schedule governs each date of its
  window, which nothing but the schedule it succeeds governed before; that one keeps the dates before
  the new start and loses the rest; every other date, Driver and definition is left as it was.\<close>

theorem approval_takes_over:
  assumes "approve env ck c user i seen co = Inr co'" "schedules_ok co"
  shows "\<exists>row prior. row \<in> set (rate_schedules (co_db co)) \<and> sch_id row = i \<and> sch_company_id row = c \<and>
    (\<forall>p. prior = Some p \<longrightarrow> (\<exists>s\<in>set (rate_schedules (co_db co)). sch_id s = p \<and> same_rate s row \<and>
       sch_status s = ''Approved'' \<and> sch_effective_from s < sch_effective_from row)) \<and>
    (\<forall>c' driver rid d.
       let old = rate_timeline c' (rate_schedules (co_db co)) driver rid d;
           new = rate_timeline c' (rate_schedules (co_db co')) driver rid d in
       if \<not> governs c' driver rid row then new = old
       else if in_window (sch_effective_from row) (sch_effective_to row) d then new = Some i \<and> old \<in> {None, prior}
       else if prior \<noteq> None \<and> sch_effective_from row \<le> d \<and> old = prior then new = None else new = old)"
  using assms
proof (rule approve_step)
  fix row prior
  assume row: "load_schedule_row c i co = Inr row"
    and prior: "approved_prior row co = prior" "\<And>p. prior = Some p \<Longrightarrow> sch_effective_from p < sch_effective_from row"
    and effect: "\<And>c' driver rid d. \<not> governs c' driver rid row \<Longrightarrow>
        rate_timeline c' (rate_schedules (co_db co')) driver rid d = rate_timeline c' (rate_schedules (co_db co)) driver rid d"
      "\<And>c' driver rid d. governs c' driver rid row \<Longrightarrow> rate_timeline c' (rate_schedules (co_db co')) driver rid d =
        take_over (sch_effective_from row) (sch_effective_to row) i (map_option sch_id prior)
          (rate_timeline c' (rate_schedules (co_db co)) driver rid) d"
      "\<And>c' driver rid d. governs c' driver rid row \<Longrightarrow> in_window (sch_effective_from row) (sch_effective_to row) d \<Longrightarrow>
        rate_timeline c' (rate_schedules (co_db co)) driver rid d \<in> {None, map_option sch_id prior}"
  have "\<forall>p. map_option sch_id prior = Some p \<longrightarrow> (\<exists>s\<in>set (rate_schedules (co_db co)). sch_id s = p \<and> same_rate s row \<and>
      sch_status s = ''Approved'' \<and> sch_effective_from s < sch_effective_from row)"
    using prior approved_priorD [of row co] by (cases prior) auto
  moreover have "let old = rate_timeline c' (rate_schedules (co_db co)) driver rid d;
         new = rate_timeline c' (rate_schedules (co_db co')) driver rid d in
     if \<not> governs c' driver rid row then new = old
     else if in_window (sch_effective_from row) (sch_effective_to row) d then new = Some i \<and> old \<in> {None, map_option sch_id prior}
     else if map_option sch_id prior \<noteq> None \<and> sch_effective_from row \<le> d \<and> old = map_option sch_id prior then new = None
     else new = old" for c' driver rid d
    using effect(1) [of c' driver rid d] effect(2) [of c' driver rid d] effect(3) [of c' driver rid d]
    by (auto simp: Let_def take_over_def)
  ultimately show ?thesis
    using load_schedule_rowD [OF row] by (intro exI [of _ row] exI [of _ "map_option sch_id prior"]) blast
qed

theorem approval_takes_over_witness:
  "\<exists>co co'. approve sample_zone sample_clock 1 1 41 co co = Inr co' \<and>
     rate_timeline 1 (rate_schedules (co_db co')) 7 30 9 = Some 41 \<and>
     rate_timeline 1 (rate_schedules (co_db co')) 7 30 4 = rate_timeline 1 (rate_schedules (co_db co)) 7 30 4"
proof (rule sample_requests)
  fix co1 co2 co3
  assume approve: "approve sample_zone sample_clock 1 1 41 co2 co2 = Inr co3" and ok: "schedules_ok co2"
    and only: "\<And>row. row \<in> set (rate_schedules (co_db co2)) \<Longrightarrow> sch_id row = 41 \<Longrightarrow> row = raise_row"
  from approval_takes_over [OF approve ok] only obtain prior where effect: "\<forall>c' driver rid d.
       let old = rate_timeline c' (rate_schedules (co_db co2)) driver rid d;
           new = rate_timeline c' (rate_schedules (co_db co3)) driver rid d in
       if \<not> governs c' driver rid raise_row then new = old
       else if in_window (sch_effective_from raise_row) (sch_effective_to raise_row) d then new = Some 41 \<and> old \<in> {None, prior}
       else if prior \<noteq> None \<and> sch_effective_from raise_row \<le> d \<and> old = prior then new = None else new = old"
    by blast
  from effect [rule_format, of 1 7 30 9] effect [rule_format, of 1 7 30 4] approve show ?thesis
    by (intro exI [of _ co2] exI [of _ co3]) (simp add: Let_def raise_row_def governs_def in_window_def)
qed

section \<open>The abstract timeline\<close>

text \<open>C15: the tables refine the timeline of a rate.  For every Driver and definition each request is a
  step of the abstract timeline: it leaves it alone, lets a new schedule succeed at most one other, or
  withdraws one schedule; so a sequence of requests is a path of the abstract timeline.\<close>

theorem schedule_requests_refine_timeline:
  assumes "(schedule_step env)\<^sup>*\<^sup>* co co'" "schedules_ok co"
  shows "timeline_step\<^sup>*\<^sup>* (rate_timeline c (rate_schedules (co_db co)) driver rid)
    (rate_timeline c (rate_schedules (co_db co')) driver rid) \<and> schedules_ok co'"
  using assms
proof (induction rule: rtranclp_induct)
  case (step co1 co2)
  then have ok: "schedules_ok co1" by simp
  from step schedule_step_ok(1,3) [OF step(2) ok] show ?case by (auto intro: rtranclp.rtrancl_into_rtrancl)
qed simp

theorem schedule_requests_refine_timeline_witness:
  "\<exists>co co'. schedule_step sample_zone co co' \<and>
     timeline_step\<^sup>*\<^sup>* (rate_timeline 1 (rate_schedules (co_db co)) 7 30) (rate_timeline 1 (rate_schedules (co_db co')) 7 30)"
proof (rule sample_requests)
  fix co1 co2 co3
  assume "approve sample_zone sample_clock 1 1 41 co2 co2 = Inr co3" and ok: "schedules_ok co2"
  then have step: "schedule_step sample_zone co2 co3" by (intro schedule_step.approve)
  from schedule_requests_refine_timeline [OF r_into_rtranclp [of "schedule_step sample_zone", OF step] ok] step
  show ?thesis by blast
qed

section \<open>Who may change what is in force\<close>

text \<open>C14: a request that changes what is in force was made by someone who may edit rates company-wide or
  in the Branch of the Driver's home tenure on the start date, while that tenure had not ended, and no
  day of finalized payroll of the Driver lies in the window; and an approver neither created nor last
  edited the schedule unless the Company allows self-approval.  What the first unlocked read saw does
  not matter.\<close>

theorem rate_change_authorized:
  assumes "approve env ck c user i seen co = Inr co' \<or> void env ck c user i reason seen co = Inr co'"
  shows "\<exists>row a. row \<in> set (rate_schedules (co_db co)) \<and> sch_id row = i \<and> sch_company_id row = c \<and>
    \<not> is_driver_self_subject c user (co_access co) \<and>
    driver_assignment_for_business_date env c (sch_driver_id row) (sch_effective_from row) (co_db co) = Some a \<and>
    \<not> ended_at (ck_decision ck) (asg_effective_to_at a) \<and>
    (may_edit c user None co \<or> may_edit c user (Some (asg_branch_id a)) co) \<and>
    (\<forall>d. in_window (sch_effective_from row) (sch_effective_to row) d \<longrightarrow>
       \<not> finalized_day (co_db co) c (sch_driver_id row) d) \<and>
    (sch_status row = ''Pending'' \<longrightarrow> user \<noteq> sm_created_by (co_schedules co i) \<and>
       sm_updated_by (co_schedules co i) \<noteq> Some user \<or> company_allows_self_approval c (co_access co))"
  using assms
proof
  assume "approve env ck c user i seen co = Inr co'"
  then show ?thesis
  proof (rule approveE)
    fix row prior
    assume row: "load_schedule_row c i co = Inr row" and ind: "independent_approver c user i co"
      and may: "authorized_from env c user (sch_driver_id row) (sch_effective_from row) (ck_decision ck) co"
      and fin: "require_no_finalized_payroll c (sch_driver_id row) (Some (sch_effective_from row)) (approval_footprint row prior)
        WorkDate (co_db co) = Inr ()"
    have "\<not> finalized_day (co_db co) c (sch_driver_id row) d"
      if "in_window (sch_effective_from row) (sch_effective_to row) d" for d
      using guarded_not_finalized [OF fin, of d] that
      by (auto simp: in_window_iff approval_footprint_def later_end_after split: option.splits)
    with may ind load_schedule_rowD [OF row] show ?thesis
      unfolding authorized_from_def independent_approver_def by blast
  qed
next
  assume "void env ck c user i reason seen co = Inr co'"
  then show ?thesis
  proof (rule voidE)
    fix row
    assume row: "load_schedule_row c i co = Inr row" and auth: "is_authoritative row"
      and may: "authorized_from env c user (sch_driver_id row) (sch_effective_from row) (ck_decision ck) co"
      and fin: "require_no_finalized_payroll c (sch_driver_id row) (Some (sch_effective_from row)) (sch_effective_to row)
        WorkDate (co_db co) = Inr ()"
    have "\<not> finalized_day (co_db co) c (sch_driver_id row) d"
      if "in_window (sch_effective_from row) (sch_effective_to row) d" for d
      using guarded_not_finalized [OF fin, of d] that by (simp add: in_window_iff)
    moreover have "sch_status row \<noteq> ''Pending''" using auth by (auto simp: is_authoritative_def)
    ultimately show ?thesis
      using may load_schedule_rowD [OF row] unfolding authorized_from_def by blast
  qed
qed

theorem rate_change_authorized_witness:
  "\<exists>co co' row a. approve sample_zone sample_clock 1 1 41 co co = Inr co' \<and> row \<in> set (rate_schedules (co_db co)) \<and>
     sch_id row = 41 \<and> driver_assignment_for_business_date sample_zone 1 (sch_driver_id row) (sch_effective_from row) (co_db co) = Some a"
proof (rule sample_requests)
  fix co1 co2 co3
  assume approve: "approve sample_zone sample_clock 1 1 41 co2 co2 = Inr co3"
  from rate_change_authorized [OF disjI1 [OF approve]] approve show ?thesis by blast
qed

section \<open>What the pay-rate screen shows\<close>

lemma covered_sees:
  assumes "scope_covers scope d" "in_window f t d" "state \<noteq> ''Pending''"
  shows "scope_sees scope state f t"
proof (cases "rs_full scope")
  case False
  with assms(1) obtain a b where "(a, b) \<in> set (rs_windows scope)" "a \<le> d" "d \<le> b" by (auto simp: scope_covers_def)
  with assms(2,3) show ?thesis
    by (auto simp: scope_sees_def in_window_def split: option.splits intro!: bexI [of _ "(a, b)"])
qed (simp add: scope_sees_def)

text \<open>C16: whoever may read the reference date sees as the current rate exactly what the calculation
  resolves for that date: the same schedule with the same amounts, or none.\<close>

theorem pay_rates_show_resolved_rate:
  assumes "schedules_ok co" "scope_covers scope reference" "find_rate_definition c (co_db co) rid \<noteq> None"
  shows "map_option (\<lambda>(s, vs). (sch_id s, vs)) (py_current (pay_rate_state_of scope c driver rid reference co)) =
    map_option (\<lambda>r. (res_schedule_id r, res_components r)) (resolve_key c (co_db co) (driver, rid, reference))"
proof -
  let ?S = "rate_schedules (co_db co)" and ?P = "\<lambda>s. is_authoritative s \<and> in_window (sch_effective_from s) (sch_effective_to s) reference"
  let ?briefs = "sort_key (\<lambda>s. (sch_effective_from s, sch_id s))
    (filter (\<lambda>s. sch_status s \<noteq> ''Voided'') (visible_schedules scope c driver rid co))"
  have shown: "s \<in> set ?briefs \<and> ?P s \<longleftrightarrow> s \<in> set ?S \<and> authoritative c (driver, rid, reference) s" for s
    using covered_sees [OF assms(2), of "sch_effective_from s" "sch_effective_to s" "sch_status s"]
    by (auto simp: visible_schedules_def authoritative_iff governs_def is_authoritative_def)
  have "find_first ?P ?briefs = find_first (authoritative c (driver, rid, reference)) ?S"
  proof (rule option_eqI)
    fix s
    show "find_first ?P ?briefs = Some s \<longleftrightarrow> find_first (authoritative c (driver, rid, reference)) ?S = Some s"
    proof
      assume "find_first ?P ?briefs = Some s"
      from find_first_SomeD [OF this] have "s \<in> set ?S \<and> authoritative c (driver, rid, reference) s"
        unfolding shown [symmetric] by blast
      then show "find_first (authoritative c (driver, rid, reference)) ?S = Some s"
        by (simp add: find_authoritative [OF schedules_okD(1) [OF assms(1)]])
    next
      assume "find_first (authoritative c (driver, rid, reference)) ?S = Some s"
      then have s: "s \<in> set ?S \<and> authoritative c (driver, rid, reference) s"
        by (simp add: find_authoritative [OF schedules_okD(1) [OF assms(1)]])
      with shown [of s] have "s \<in> set ?briefs" "?P s" by blast+
      then obtain t where t: "find_first ?P ?briefs = Some t"
        by (cases "find_first ?P ?briefs") (auto simp: find_first_None_iff)
      from find_first_SomeD [OF t] have "t \<in> set ?S \<and> authoritative c (driver, rid, reference) t"
        unfolding shown [symmetric] by blast
      with s authoritative_unique [OF schedules_okD(1) [OF assms(1)], of t s c driver rid reference] t
      show "find_first ?P ?briefs = Some s" by blast
    qed
  qed
  moreover from assms(3) obtain x where "find_rate_definition c (co_db co) rid = Some x" by blast
  moreover have "sch_rate_definition_id s = rid" if "find_first (authoritative c (driver, rid, reference)) ?S = Some s" for s
    using find_first_SomeD [OF that] by (simp add: authoritative_iff governs_def)
  ultimately show ?thesis
    by (auto simp: pay_rate_state_of_def Let_def resolve_key_def the_schedule_def resolved_of_def
        components_of_schedule_def load_values_def split: option.splits)
qed

theorem pay_rates_show_resolved_rate_witness:
  "map_option (\<lambda>(s, vs). (sch_id s, vs)) (py_current (pay_rate_state_of \<lparr>rs_full = False, rs_windows = [(1, 7)]\<rparr> 1 7 30 4
     sample_compensation)) = Some (40, load_values 40 30 finalized_roster)"
proof -
  have facts: "scope_covers \<lparr>rs_full = False, rs_windows = [(1, 7)]\<rparr> 4"
    "find_rate_definition 1 (co_db sample_compensation) 30 \<noteq> None"
    "map_option (\<lambda>r. (res_schedule_id r, res_components r)) (resolve_key 1 (co_db sample_compensation) (7, 30, 4)) =
      Some (40, load_values 40 30 finalized_roster)"
    by code_simp+
  from pay_rates_show_resolved_rate [OF sample_schedules_ok facts(1,2), of 7] facts(3) show ?thesis by simp
qed

section \<open>When an approval goes through\<close>

text \<open>C17: a complete Pending schedule can be approved.  If every component has a value, what is in force
  ends or can be closed before its start, the Driver is at home somewhere on that day and finalized
  payroll ends earlier, then an independent company-wide editor's approval succeeds, whatever else is
  in the tables, and the schedule governs its first day.\<close>

theorem complete_schedule_approvable:
  assumes "schedules_ok co" "load_schedule_row c i co = Inr row" "sch_status row = ''Pending''"
    and "may_edit c user None co" "independent_approver c user i co"
    and "driver_assignment_for_business_date env c (sch_driver_id row) (sch_effective_from row) (co_db co) = Some a"
    and "\<forall>instant\<in>{ck_first ck, ck_decision ck, ck_statement ck}. \<not> ended_at instant (asg_effective_to_at a)"
    and "lock_monetary_write c co = Inr cur"
    and "authorable_rate_definition c (sch_rate_definition_id row) co = Inr x"
    and "assert_rate_structure_complete (sch_rate_definition_id row) (co_db co) = Inr ()"
    and "load_values i (sch_rate_definition_id row) (co_db co) \<noteq> []"
    and "\<forall>v\<in>set (load_values i (sch_rate_definition_id row) (co_db co)). rc_amount v \<noteq> None"
    and "follows_in_force row (rate_schedules (co_db co))"
    and "\<forall>p\<in>set (periods (co_db co)). pp_company_id p = c \<longrightarrow> pp_status p \<in> {''Locked'', ''Archived''} \<longrightarrow>
      rostered c (sch_driver_id row) (co_db co) p \<longrightarrow> pp_end p < sch_effective_from row"
  shows "\<exists>co'. approve env ck c user i co co = Inr co' \<and>
    rate_timeline c (rate_schedules (co_db co')) (sch_driver_id row) (sch_rate_definition_id row) (sch_effective_from row) = Some i"
proof -
  from approve_granted [OF assms] obtain co' where co': "approve env ck c user i co co = Inr co'" ..
  then have "rate_timeline c (rate_schedules (co_db co')) (sch_driver_id row) (sch_rate_definition_id row) (sch_effective_from row) = Some i"
    using assms(1)
  proof (rule approve_step)
    fix row' prior
    assume row': "load_schedule_row c i co = Inr row'"
      and taken: "\<And>c' driver rid d. governs c' driver rid row' \<Longrightarrow> rate_timeline c' (rate_schedules (co_db co')) driver rid d =
        take_over (sch_effective_from row') (sch_effective_to row') i (map_option sch_id prior)
          (rate_timeline c' (rate_schedules (co_db co)) driver rid) d"
    have "row' = row" using row' assms(2) by simp
    moreover have "in_window (sch_effective_from row) (sch_effective_to row) (sch_effective_from row)"
      using rows_okD(2) [OF schedules_okD(1) [OF assms(1)] load_schedule_rowD(1) [OF assms(2)]]
      by (simp add: row_ok_def in_window_iff)
    ultimately show ?thesis
      using taken [of c "sch_driver_id row" "sch_rate_definition_id row" "sch_effective_from row"] load_schedule_rowD(3) [OF assms(2)]
      by (simp add: governs_def take_over_def)
  qed
  with co' show ?thesis by blast
qed

lemma sample_pending_evaluated:
  "case create_pending sample_zone sample_clock 1 1 sample_raise sample_compensation sample_compensation of Inl _ \<Rightarrow> False
   | Inr co1 \<Rightarrow> (case replace_values sample_zone sample_clock 1 1 41 [(50, Some 13)] co1 co1 of Inl _ \<Rightarrow> False
   | Inr co \<Rightarrow> load_schedule_row 1 41 co = Inr raise_row \<and> may_edit 1 1 None co \<and> independent_approver 1 1 41 co \<and>
       map_option asg_effective_to_at (driver_assignment_for_business_date sample_zone 1 7 8 (co_db co)) = Some None \<and>
       map_r cur_code (lock_monetary_write 1 co) = Inr ''EUR'' \<and> map_r rd_shape (authorable_rate_definition 1 30 co) = Inr ''Scalar'' \<and>
       assert_rate_structure_complete 30 (co_db co) = Inr () \<and> map rc_amount (load_values 41 30 (co_db co)) = [Some 13] \<and>
       follows_in_force raise_row (rate_schedules (co_db co)) \<and> list_all (\<lambda>p. pp_end p < 8) (periods (co_db co)))"
  by code_simp

theorem complete_schedule_approvable_witness:
  "\<exists>co co'. approve sample_zone sample_clock 1 1 41 co co = Inr co' \<and>
     rate_timeline 1 (rate_schedules (co_db co')) 7 30 8 = Some 41"
proof (rule sample_requests)
  fix co1 co co3
  assume requests: "create_pending sample_zone sample_clock 1 1 sample_raise sample_compensation sample_compensation = Inr co1"
    "replace_values sample_zone sample_clock 1 1 41 [(50, Some 13)] co1 co1 = Inr co" and ok: "schedules_ok co"
  from sample_pending_evaluated requests have row: "load_schedule_row 1 41 co = Inr raise_row"
    and may: "may_edit 1 1 None co" "independent_approver 1 1 41 co"
    and home: "map_option asg_effective_to_at (driver_assignment_for_business_date sample_zone 1 7 8 (co_db co)) = Some None"
    and currency: "map_r cur_code (lock_monetary_write 1 co) = Inr ''EUR''"
    and authorable: "map_r rd_shape (authorable_rate_definition 1 30 co) = Inr ''Scalar''"
    and complete: "assert_rate_structure_complete 30 (co_db co) = Inr ()"
    and filled: "map rc_amount (load_values 41 30 (co_db co)) = [Some 13]"
    and after: "follows_in_force raise_row (rate_schedules (co_db co))" "list_all (\<lambda>p. pp_end p < 8) (periods (co_db co))"
    by simp_all
  have keys [simp]: "sch_driver_id raise_row = 7" "sch_rate_definition_id raise_row = 30" "sch_effective_from raise_row = 8"
    "sch_status raise_row = ''Pending''" by (simp_all add: raise_row_def)
  from home obtain a where a: "driver_assignment_for_business_date sample_zone 1 7 8 (co_db co) = Some a" "asg_effective_to_at a = None"
    by auto
  from currency obtain cur where cur: "lock_monetary_write 1 co = Inr cur" by (auto simp: map_r_Inr_iff)
  from authorable obtain x where x: "authorable_rate_definition 1 30 co = Inr x" by (auto simp: map_r_Inr_iff)
  have "load_values 41 30 (co_db co) \<noteq> []" "\<forall>v\<in>set (load_values 41 30 (co_db co)). rc_amount v \<noteq> None"
    using filled by (auto simp: map_eq_Cons_conv)
  with complete_schedule_approvable [of co 1 41 raise_row 1 sample_zone a sample_clock cur x] ok row may a cur x complete after
  show ?thesis by - (rule exI [of _ co], auto simp: ended_at_def list_all_iff)
qed

end
