(* ===== verification/Pay_Rules.thy ===== *)
theory Pay_Rules
  imports Rate_Schedules
begin

text \<open>
  The Minimum and Maximum rules of a Driver (\<open>payroll/driver_pay_rules.py\<close>): create, end, edit the
  notes, void, and the reads with the calendar hint.  The exclusion constraint, the open-ended index
  and the trigger of \<open>migrations/sql/0088\<close> are part of the writers.  As in \<open>Rate_Schedules\<close> a handler
  takes the state its first, unlocked read saw and the state it finds under its locks.
\<close>

section \<open>Requests and rows\<close>

record pay_rule_create =
  nr_driver_id :: int
  nr_rule_type :: string
  nr_amount :: decimal
  nr_effective_from :: date
  nr_effective_to :: "date option"
  nr_notes :: "string option"

text \<open>The validators of \<open>DriverPayRuleCreate\<close>, with that of a typed amount: at most ten decimals.\<close>

definition valid_rule_types :: "string list" where
  "valid_rule_types = [''MinimumPay'', ''MaximumPay'']"

definition typed_monetary_amount_valid :: "decimal \<Rightarrow> bool" where
  "typed_monetary_amount_valid v \<longleftrightarrow> 0 < v \<and> v < numeric_18_4_max_exclusive \<and> has_scale 10 v"

definition pay_rule_create_valid :: "pay_rule_create \<Rightarrow> bool" where
  "pay_rule_create_valid data \<longleftrightarrow>
     nr_rule_type data \<in> set valid_rule_types \<and> typed_monetary_amount_valid (nr_amount data) \<and>
     (case nr_effective_to data of None \<Rightarrow> True | Some t \<Rightarrow> nr_effective_from data \<le> t)"

definition rule_not_found :: py_error where
  "rule_not_found = HttpError 404 ''Driver pay rule not found.''"

definition load_rule_row :: "int \<Rightarrow> int \<Rightarrow> compensation_state \<Rightarrow> pay_rule_row result" where
  "load_rule_row rule_id company_id co =
     (case find_first (\<lambda>r. pr_id r = rule_id \<and> pr_company_id r = company_id) (pay_rules (co_db co)) of
        None \<Rightarrow> Inl rule_not_found | Some r \<Rightarrow> Inr r)"

definition rule_seen :: "read_scope \<Rightarrow> pay_rule_row \<Rightarrow> bool" where
  "rule_seen scope r = scope_sees scope (pr_status r) (pr_effective_from r) (pr_effective_to r)"

definition load_rule_for_action ::
  "zone_env \<Rightarrow> int \<Rightarrow> int \<Rightarrow> int \<Rightarrow> int \<Rightarrow> compensation_state \<Rightarrow> pay_rule_row result" where
  "load_rule_for_action env instant rule_id company_id user_id co =
     bind_r (require_non_driver_subject company_id user_id (co_access co)) (\<lambda>_.
     bind_r (load_rule_row rule_id company_id co) (\<lambda>row.
     case driver_compensation_read_scope env company_id user_id (pr_driver_id row) instant co of
       Inl e \<Rightarrow> Inl (if is_forbidden e then rule_not_found else e)
     | Inr scope \<Rightarrow>
         if \<not> rule_seen scope row then Inl rule_not_found
         else bind_r (require_compensation_edit_standing env company_id user_id (pr_driver_id row) co) (\<lambda>_.
           Inr row)))"

definition require_status :: "pay_rule_row \<Rightarrow> string list \<Rightarrow> unit result" where
  "require_status r allowed = guard_r (pr_status r \<in> set allowed) (HttpError 422 ''RULE_STATUS'')"

definition overlap_error :: py_error where "overlap_error = HttpError 422 ''PAY_RULE_OVERLAP''"

text \<open>The rows the exclusion constraint compares: \<open>Active\<close> and \<open>Ended\<close>.\<close>

definition rule_live :: "pay_rule_row \<Rightarrow> bool" where
  "rule_live r \<longleftrightarrow> pr_status r \<in> {''Active'', ''Ended''}"

definition same_rule_key :: "pay_rule_row \<Rightarrow> pay_rule_row \<Rightarrow> bool" where
  "same_rule_key r s \<longleftrightarrow> pr_company_id r = pr_company_id s \<and> pr_driver_id r = pr_driver_id s \<and>
     pr_rule_type r = pr_rule_type s"

definition rules_overlap :: "pay_rule_row \<Rightarrow> pay_rule_row \<Rightarrow> bool" where
  "rules_overlap r s \<longleftrightarrow> same_rule_key r s \<and>
     windows_overlap (pr_effective_from r) (pr_effective_to r) (pr_effective_from s) (pr_effective_to s)"

definition open_ended :: "pay_rule_row \<Rightarrow> bool" where
  "open_ended r \<longleftrightarrow> pr_status r = ''Active'' \<and> pr_effective_to r = None"

text \<open>The constraints a written row has to pass among the other rows.\<close>

definition rule_fits :: "pay_rule_row \<Rightarrow> pay_rule_row list \<Rightarrow> bool" where
  "rule_fits r rows \<longleftrightarrow>
     \<not> (\<exists>s\<in>set rows. pr_id s \<noteq> pr_id r \<and> rule_live r \<and> rule_live s \<and> rules_overlap r s) \<and>
     \<not> (\<exists>s\<in>set rows. pr_id s \<noteq> pr_id r \<and> open_ended r \<and> open_ended s \<and>
         pr_driver_id s = pr_driver_id r \<and> pr_rule_type s = pr_rule_type r)"

definition write_audit ::
  "int \<Rightarrow> int option \<Rightarrow> int \<Rightarrow> int \<Rightarrow> string \<Rightarrow> compensation_state \<Rightarrow> compensation_state" where
  "write_audit company_id branch_id user_id rule_id action co =
     co\<lparr>co_audit := co_audit co @ [\<lparr>ad_company_id = company_id, ad_branch_id = branch_id, ad_actor = user_id,
        ad_action = action, ad_entity = ''DriverPayRules'', ad_entity_id = rule_id\<rparr>]\<rparr>"

definition with_rules :: "pay_rule_row list \<Rightarrow> compensation_state \<Rightarrow> compensation_state" where
  "with_rules rows = update_db (\<lambda>db. db\<lparr>pay_rules := rows\<rparr>)"

definition update_rule_columns ::
  "int \<Rightarrow> (rule_columns \<Rightarrow> rule_columns) \<Rightarrow> compensation_state \<Rightarrow> compensation_state" where
  "update_rule_columns rule_id f co = co\<lparr>co_rules := (co_rules co)(rule_id := f (co_rules co rule_id))\<rparr>"

definition rule_updated_by :: "int \<Rightarrow> rule_columns \<Rightarrow> rule_columns" where
  "rule_updated_by user_id columns = columns\<lparr>ru_updated_by := Some user_id\<rparr>"

section \<open>Create\<close>

definition overlap_precheck :: "int \<Rightarrow> pay_rule_create \<Rightarrow> compensation_state \<Rightarrow> bool" where
  "overlap_precheck company_id data co \<longleftrightarrow>
     (\<exists>r\<in>set (pay_rules (co_db co)). pr_company_id r = company_id \<and> pr_driver_id r = nr_driver_id data \<and>
        pr_rule_type r = nr_rule_type data \<and> rule_live r \<and>
        not_after (nr_effective_to data) (pr_effective_from r) \<and>
        not_after (pr_effective_to r) (nr_effective_from data))"

text \<open>A \<open>PolicyError\<close> of the resolver becomes the 422 of the handler; nothing else is caught.\<close>

definition home_calendar :: "int \<Rightarrow> int \<Rightarrow> date \<Rightarrow> compensation_state \<Rightarrow> effective_version result" where
  "home_calendar company_id branch_id d co =
     (case resolve_effective_setup_version company_id branch_id d (cr_setup (co_creation co)) of
        Inl (PolicyError _) \<Rightarrow> Inl (HttpError 422 ''PAY_RULE_CALENDAR_UNAVAILABLE'')
      | r \<Rightarrow> r)"

text \<open>A fresh \<open>SERIAL\<close> value, as no rule is ever deleted; gaps left by failed requests are not modelled.\<close>

definition next_rule_id :: "pay_rule_row list \<Rightarrow> int" where
  "next_rule_id rows = foldr max (map pr_id rows) 0 + 1"

definition new_rule ::
  "int \<Rightarrow> pay_rule_create \<Rightarrow> decimal \<Rightarrow> int \<Rightarrow> effective_version \<Rightarrow> compensation_state \<Rightarrow> pay_rule_row" where
  "new_rule company_id data amount branch_id setup co =
     \<lparr>pr_id = next_rule_id (pay_rules (co_db co)), pr_company_id = company_id, pr_driver_id = nr_driver_id data,
      pr_rule_type = nr_rule_type data, pr_amount = amount, pr_status = ''Active'',
      pr_effective_from = nr_effective_from data, pr_effective_to = nr_effective_to data,
      pr_calendar_frequency = frequency (ev_schedule setup),
      pr_calendar_anchor = anchor_start_date (ev_schedule setup),
      pr_calendar_interval = custom_interval_days (ev_schedule setup),
      pr_calendar_branch_id = branch_id, pr_calendar_version_id = ev_version_id setup\<rparr>"

definition insert_rule ::
  "zone_env \<Rightarrow> int \<Rightarrow> int \<Rightarrow> pay_rule_create \<Rightarrow> pay_rule_row \<Rightarrow> compensation_state \<Rightarrow> compensation_state result" where
  "insert_rule env instant user_id data row co =
     bind_r (guard_r (rule_fits row (pay_rules (co_db co))) overlap_error) (\<lambda>_.
     bind_r (context_writable env (pr_company_id row) (pr_driver_id row) (pr_effective_from row) instant (co_db co)) (\<lambda>_.
     Inr (update_rule_columns (pr_id row)
        (\<lambda>_. \<lparr>ru_created_by = user_id, ru_updated_by = None, ru_notes = nr_notes data\<rparr>)
        (with_rules (pay_rules (co_db co) @ [row]) co))))"

definition context_branch :: "context_assignment option \<Rightarrow> int option" where
  "context_branch = map_option cx_branch_id"

definition create_driver_pay_rule ::
  "zone_env \<Rightarrow> request_clock \<Rightarrow> int \<Rightarrow> int \<Rightarrow> pay_rule_create \<Rightarrow> compensation_state \<Rightarrow> compensation_state
   \<Rightarrow> compensation_state result" where
  "create_driver_pay_rule env ck company_id user_id data seen co =
     (let driver = nr_driver_id data; start = nr_effective_from data in
      bind_r (require_compensation_authority env company_id user_id driver (WriteFrom start) (ck_first ck) seen) (\<lambda>_.
      bind_r (lock_monetary_write company_id co) (\<lambda>currency.
      bind_r (normalize_typed_amount (Finite (nr_amount data)) currency) (\<lambda>amount.
      bind_r (require_compensation_authority env company_id user_id driver (WriteFrom start) (ck_decision ck) co) (\<lambda>context.
      bind_r (guard_r (\<not> overlap_precheck company_id data co) overlap_error) (\<lambda>_.
      case context_branch context of
        None \<Rightarrow> Inl (TypeError ''NoneType'')
      | Some branch \<Rightarrow>
          bind_r (home_calendar company_id branch start co) (\<lambda>setup.
          bind_r (require_no_finalized_payroll company_id driver (Some start) (nr_effective_to data) PeriodStart (co_db co)) (\<lambda>_.
          let row = new_rule company_id data amount branch setup co in
          map_r (write_audit company_id (Some branch) user_id (pr_id row) ''DRIVER_PAY_RULE_CREATED'')
            (insert_rule env (ck_statement ck) user_id data row co)))))))))"

section \<open>End\<close>

text \<open>The dates whose governing rule changes.\<close>

definition changed_window :: "date \<Rightarrow> pay_rule_row \<Rightarrow> date \<times> date option" where
  "changed_window effective_to row =
     (case pr_effective_to row of
        None \<Rightarrow> (effective_to + 1, None)
      | Some old \<Rightarrow> (min effective_to old + 1, Some (max effective_to old)))"

definition require_endable :: "date \<Rightarrow> pay_rule_row \<Rightarrow> unit result" where
  "require_endable effective_to row =
     bind_r (require_status row [''Active'']) (\<lambda>_.
     guard_r (pr_effective_from row \<le> effective_to) (HttpError 422 ''RULE_END_BEFORE_START''))"

definition end_row :: "int \<Rightarrow> date \<Rightarrow> pay_rule_row list \<Rightarrow> pay_rule_row list" where
  "end_row rule_id effective_to =
     map (\<lambda>r. if pr_id r = rule_id then r\<lparr>pr_status := ''Ended'', pr_effective_to := Some effective_to\<rparr> else r)"

definition end_driver_pay_rule ::
  "zone_env \<Rightarrow> request_clock \<Rightarrow> int \<Rightarrow> int \<Rightarrow> int \<Rightarrow> date \<Rightarrow> compensation_state \<Rightarrow> compensation_state
   \<Rightarrow> compensation_state result" where
  "end_driver_pay_rule env ck rule_id company_id user_id effective_to seen co =
     bind_r (load_rule_for_action env (ck_scope ck) rule_id company_id user_id seen) (\<lambda>pre.
     bind_r (require_endable effective_to pre) (\<lambda>_.
     bind_r (require_compensation_authority env company_id user_id (pr_driver_id pre)
       (WriteFrom (fst (changed_window effective_to pre))) (ck_first ck) seen) (\<lambda>_.
     bind_r (lock_monetary_write company_id co) (\<lambda>_.
     bind_r (load_rule_row rule_id company_id co) (\<lambda>row.
     bind_r (require_endable effective_to row) (\<lambda>_.
     let driver = pr_driver_id pre; (first_changed, last_changed) = changed_window effective_to row in
     bind_r (require_compensation_authority env company_id user_id driver (WriteFrom first_changed)
       (ck_decision ck) co) (\<lambda>context.
     bind_r (require_no_finalized_payroll company_id driver (Some first_changed) last_changed PeriodStart (co_db co)) (\<lambda>_.
     bind_r (guard_r (rule_fits (row\<lparr>pr_status := ''Ended'', pr_effective_to := Some effective_to\<rparr>)
       (pay_rules (co_db co))) overlap_error) (\<lambda>_.
     bind_r (case tail_start (pr_effective_to row) (Some effective_to) of
         None \<Rightarrow> Inr ()
       | Some d \<Rightarrow> context_writable env (pr_company_id row) (pr_driver_id row) d (ck_statement ck) (co_db co)) (\<lambda>_.
     Inr (write_audit company_id (context_branch context) user_id rule_id ''DRIVER_PAY_RULE_ENDED''
       (update_rule_columns rule_id (rule_updated_by user_id)
         (with_rules (end_row rule_id effective_to (pay_rules (co_db co))) co)))))))))))))"

section \<open>Notes\<close>

definition require_not_voided :: "pay_rule_row \<Rightarrow> unit result" where
  "require_not_voided row = guard_r (pr_status row \<noteq> ''Voided'') (HttpError 422 ''RULE_VOIDED'')"

definition update_driver_pay_rule_notes ::
  "zone_env \<Rightarrow> request_clock \<Rightarrow> int \<Rightarrow> int \<Rightarrow> int \<Rightarrow> string option \<Rightarrow> compensation_state \<Rightarrow> compensation_state
   \<Rightarrow> compensation_state result" where
  "update_driver_pay_rule_notes env ck rule_id company_id user_id text seen co =
     bind_r (load_rule_for_action env (ck_scope ck) rule_id company_id user_id seen) (\<lambda>pre.
     bind_r (require_not_voided pre) (\<lambda>_.
     bind_r (require_compensation_authority env company_id user_id (pr_driver_id pre) Current (ck_first ck) seen) (\<lambda>_.
     bind_r (load_rule_row rule_id company_id co) (\<lambda>row.
     bind_r (require_not_voided row) (\<lambda>_.
     bind_r (require_compensation_authority env company_id user_id (pr_driver_id pre) Current (ck_decision ck) co) (\<lambda>_.
     Inr (write_audit company_id None user_id rule_id ''DRIVER_PAY_RULE_NOTES_UPDATED''
       (update_rule_columns rule_id (\<lambda>c. rule_updated_by user_id (c\<lparr>ru_notes := text\<rparr>)) co))))))))"

section \<open>Void\<close>

definition void_rule_row :: "int \<Rightarrow> pay_rule_row list \<Rightarrow> pay_rule_row list" where
  "void_rule_row rule_id = map (\<lambda>r. if pr_id r = rule_id then r\<lparr>pr_status := ''Voided''\<rparr> else r)"

definition void_driver_pay_rule ::
  "zone_env \<Rightarrow> request_clock \<Rightarrow> int \<Rightarrow> int \<Rightarrow> int \<Rightarrow> compensation_state \<Rightarrow> compensation_state
   \<Rightarrow> compensation_state result" where
  "void_driver_pay_rule env ck rule_id company_id user_id seen co =
     bind_r (load_rule_for_action env (ck_scope ck) rule_id company_id user_id seen) (\<lambda>pre.
     bind_r (require_not_voided pre) (\<lambda>_.
     bind_r (require_compensation_authority env company_id user_id (pr_driver_id pre)
       (WriteFrom (pr_effective_from pre)) (ck_first ck) seen) (\<lambda>_.
     bind_r (lock_monetary_write company_id co) (\<lambda>_.
     bind_r (load_rule_row rule_id company_id co) (\<lambda>row.
     bind_r (require_not_voided row) (\<lambda>_.
     bind_r (require_compensation_authority env company_id user_id (pr_driver_id pre)
       (WriteFrom (pr_effective_from row)) (ck_decision ck) co) (\<lambda>context.
     bind_r (require_no_finalized_payroll company_id (pr_driver_id pre) (Some (pr_effective_from row))
       (pr_effective_to row) PeriodStart (co_db co)) (\<lambda>_.
     bind_r (context_writable env (pr_company_id row) (pr_driver_id row) (pr_effective_from row)
       (ck_statement ck) (co_db co)) (\<lambda>_.
     Inr (write_audit company_id (context_branch context) user_id rule_id ''DRIVER_PAY_RULE_VOIDED''
       (update_rule_columns rule_id (rule_updated_by user_id)
         (with_rules (void_rule_row rule_id (pay_rules (co_db co))) co))))))))))))"

section \<open>Reads\<close>

text \<open>
  The hint beside an \<open>Active\<close> or \<open>Ended\<close> rule: the first day of a tenure, current or pending, inside
  its window whose Branch runs on another calendar.
\<close>

definition rule_schedule :: "pay_rule_row \<Rightarrow> schedule" where
  "rule_schedule row = \<lparr>frequency = pr_calendar_frequency row, anchor_start_date = pr_calendar_anchor row,
     custom_interval_days = pr_calendar_interval row, normal_days_off_mask = 0\<rparr>"

definition tenure_conflicts :: "int \<Rightarrow> int \<Rightarrow> pay_rule_row \<Rightarrow> compensation_state \<Rightarrow> tenure \<Rightarrow> bool result" where
  "tenure_conflicts company_id instant row co t =
     (if \<not> is_authority t instant \<or> tn_first_day t < pr_effective_from row \<or>
         \<not> not_after (pr_effective_to row) (tn_first_day t)
      then Inr False
      else case resolve_effective_setup_version company_id (tn_branch_id t) (tn_first_day t) (cr_setup (co_creation co)) of
        Inl (PolicyError _) \<Rightarrow> Inr False
      | Inl e \<Rightarrow> Inl e
      | Inr setup \<Rightarrow> (case previous_period_start (ev_schedule setup) (tn_first_day t + 1) of
          None \<Rightarrow> Inr False
        | Some start \<Rightarrow> Inr (\<not> period_matches_schedule (rule_schedule row) start (period_end (ev_schedule setup) start))))"

fun first_conflict :: "('a \<Rightarrow> bool result) \<Rightarrow> 'a list \<Rightarrow> 'a option result" where
  "first_conflict P [] = Inr None"
| "first_conflict P (t # ts) = bind_r (P t) (\<lambda>b. if b then Inr (Some t) else first_conflict P ts)"

definition reconciliation_date ::
  "zone_env \<Rightarrow> int \<Rightarrow> int \<Rightarrow> compensation_state \<Rightarrow> pay_rule_row \<Rightarrow> date option result" where
  "reconciliation_date env instant company_id co row =
     (if \<not> rule_live row then Inr None
      else map_r (map_option tn_first_day)
        (first_conflict (tenure_conflicts company_id instant row co)
          (load_driver_tenures env company_id (pr_driver_id row) (co_db co))))"

definition rule_summary ::
  "zone_env \<Rightarrow> int \<Rightarrow> int \<Rightarrow> compensation_state \<Rightarrow> pay_rule_row
   \<Rightarrow> (pay_rule_row \<times> rule_columns \<times> date option) result" where
  "rule_summary env instant company_id co row =
     map_r (\<lambda>d. (row, co_rules co (pr_id row), d)) (reconciliation_date env instant company_id co row)"

definition wanted :: "string option \<Rightarrow> string \<Rightarrow> bool" where
  "wanted w s \<longleftrightarrow> (case w of None \<Rightarrow> True | Some x \<Rightarrow> s = x)"

definition get_driver_pay_rules ::
  "zone_env \<Rightarrow> request_clock \<Rightarrow> int \<Rightarrow> int \<Rightarrow> int \<Rightarrow> string option \<Rightarrow> string option \<Rightarrow> compensation_state
   \<Rightarrow> (pay_rule_row \<times> rule_columns \<times> date option) list result" where
  "get_driver_pay_rules env ck company_id user_id driver_id rule_type status co =
     bind_r (driver_compensation_read_scope env company_id user_id driver_id (ck_scope ck) co) (\<lambda>scope.
     mapM (rule_summary env (ck_decision ck) company_id co)
       (sort_key (\<lambda>r. (pr_rule_type r, - pr_effective_from r))
         (filter (\<lambda>r. pr_company_id r = company_id \<and> pr_driver_id r = driver_id \<and>
             wanted rule_type (pr_rule_type r) \<and> wanted status (pr_status r) \<and> rule_seen scope r)
           (pay_rules (co_db co)))))"

definition get_driver_pay_rule_by_id ::
  "zone_env \<Rightarrow> request_clock \<Rightarrow> int \<Rightarrow> int \<Rightarrow> int \<Rightarrow> compensation_state
   \<Rightarrow> (pay_rule_row \<times> rule_columns \<times> date option) result" where
  "get_driver_pay_rule_by_id env ck rule_id company_id user_id co =
     bind_r (load_rule_row rule_id company_id co) (\<lambda>row.
     bind_r (driver_compensation_read_scope env company_id user_id (pr_driver_id row) (ck_scope ck) co) (\<lambda>scope.
     if \<not> rule_seen scope row then Inl rule_not_found
     else rule_summary env (ck_decision ck) company_id co row))"

end
