(* ===== verification/Rule_Facts.thy ===== *)
theory Rule_Facts
  imports Pay_Rules Schedule_Runs
begin

text \<open>
  What the writers of \<open>Pay_Rules\<close> do to the table of rules: its invariant, what a successful request
  has checked and written, the rule in force on a date, and runs in which requests on rules, requests
  on schedules and all other steps of the system alternate.
\<close>

section \<open>The invariant of the table\<close>

definition rule_row_ok :: "pay_rule_row \<Rightarrow> bool" where
  "rule_row_ok r \<longleftrightarrow> pr_rule_type r \<in> set valid_rule_types \<and>
     pr_status r \<in> {''Active'', ''Ended'', ''Voided''} \<and>
     not_after (pr_effective_to r) (pr_effective_from r) \<and> (pr_status r = ''Ended'' \<longrightarrow> pr_effective_to r \<noteq> None) \<and>
     0 < pr_amount r \<and> pr_amount r < numeric_18_4_max_exclusive"

definition rules_ok :: "pay_rule_row list \<Rightarrow> bool" where
  "rules_ok R \<longleftrightarrow> distinct (map pr_id R) \<and> (\<forall>r\<in>set R. rule_row_ok r) \<and>
     (\<forall>r\<in>set R. \<forall>s\<in>set R. rule_live r \<longrightarrow> rule_live s \<longrightarrow> rules_overlap r s \<longrightarrow> r = s)"

lemma rules_okD:
  assumes "rules_ok R"
  shows "distinct (map pr_id R)" "\<And>r. r \<in> set R \<Longrightarrow> rule_row_ok r"
    "\<And>r s. r \<in> set R \<Longrightarrow> s \<in> set R \<Longrightarrow> rule_live r \<Longrightarrow> rule_live s \<Longrightarrow> rules_overlap r s \<Longrightarrow> r = s"
  using assms by (simp_all add: rules_ok_def)

lemma rules_overlap_sym: "rules_overlap r s \<longleftrightarrow> rules_overlap s r"
  by (auto simp: rules_overlap_def same_rule_key_def windows_overlap_def)

text \<open>The rule of a Company, Driver and type in force on a date.\<close>

definition rule_in_force :: "int \<times> int \<times> string \<Rightarrow> date \<Rightarrow> pay_rule_row \<Rightarrow> bool" where
  "rule_in_force = (\<lambda>(c, driver, ty) d r. pr_company_id r = c \<and> pr_driver_id r = driver \<and> pr_rule_type r = ty \<and>
     rule_live r \<and> in_window (pr_effective_from r) (pr_effective_to r) d)"

text \<open>The rules are an effective-dated table with the exclusion constraint.\<close>

interpretation pay_rules: dated_rows pr_id rule_in_force rules_ok
proof
  fix R r s k d
  assume "rules_ok R" "r \<in> set R" "s \<in> set R" "rule_in_force k d r" "rule_in_force k d s"
  moreover from this have "rules_overlap r s"
    by (auto simp: rule_in_force_def rules_overlap_def same_rule_key_def intro: windows_overlapI split: prod.splits)
  ultimately show "r = s" using rules_okD(3) by (auto simp: rule_in_force_def split: prod.splits)
qed (rule rules_okD(1))

lemma next_rule_id_fresh: "r \<in> set R \<Longrightarrow> pr_id r < next_rule_id R"
  by (induction R) (auto simp: next_rule_id_def)

lemma insert_rules_ok:
  assumes "rules_ok R" "rule_row_ok row" "pr_id row = next_rule_id R" "rule_fits row R"
  shows "rules_ok (R @ [row])"
proof -
  have fresh: "pr_id r \<noteq> pr_id row" if "r \<in> set R" for r using next_rule_id_fresh [OF that] assms(3) by simp
  then have "pr_id row \<notin> pr_id ` set R" by (metis imageE)
  then have "distinct (map pr_id (R @ [row]))" using rules_okD(1) [OF assms(1)] by simp
  moreover have "r = s" if "r \<in> set (R @ [row])" "s \<in> set (R @ [row])" "rule_live r" "rule_live s" "rules_overlap r s" for r s
    using that rules_okD(3) [OF assms(1)] assms(4) fresh rules_overlap_sym by (auto simp: rule_fits_def)
  ultimately show ?thesis using rules_okD(2) [OF assms(1)] assms(2) by (auto simp: rules_ok_def)
qed

text \<open>A statement that rewrites one row into one that fits among the others.\<close>

definition rewrite_rule :: "int \<Rightarrow> (pay_rule_row \<Rightarrow> pay_rule_row) \<Rightarrow> pay_rule_row list \<Rightarrow> pay_rule_row list" where
  "rewrite_rule i g = map (\<lambda>r. if pr_id r = i then g r else r)"

lemma rewrite_rules_ok:
  assumes "rules_ok R" "row \<in> set R" "rule_row_ok (g row)" "rule_fits (g row) R" "pr_id (g row) = pr_id row"
  shows "rules_ok (rewrite_rule (pr_id row) g R)"
proof -
  let ?f = "\<lambda>r. if pr_id r = pr_id row then g r else r"
  have f: "?f r = (if r = row then g row else r)" if "r \<in> set R" for r
    using pay_rules.same_row [OF assms(1) that assms(2)] by simp
  have ids: "map pr_id (map ?f R) = map pr_id R" using f assms(5) by auto
  have out: "r = s" if "r \<in> set R" "s \<in> set R" "rule_live (?f r)" "rule_live (?f s)" "rules_overlap (?f r) (?f s)" for r s
  proof (rule ccontr)
    assume ne: "r \<noteq> s"
    have other: "\<not> (rule_live (g row) \<and> rule_live t \<and> rules_overlap (g row) t)" if "t \<in> set R" "t \<noteq> row" for t
      using that assms(4,5) pay_rules.same_row [OF assms(1) that(1) assms(2)] by (auto simp: rule_fits_def)
    from ne that other [of r] other [of s] rules_okD(3) [OF assms(1) that(1,2)] show False
      unfolding f [OF that(1)] f [OF that(2)] by (auto simp: rules_overlap_sym split: if_splits)
  qed
  have "rules_ok (map ?f R)"
    unfolding rules_ok_def ids
  proof (intro conjI ballI impI rules_okD(1) [OF assms(1)])
    fix x assume "x \<in> set (map ?f R)"
    then obtain r where r: "r \<in> set R" "x = ?f r" by auto
    show "rule_row_ok x" unfolding r(2) f [OF r(1)] using assms(3) rules_okD(2) [OF assms(1) r(1)] by simp
  next
    fix x y assume "x \<in> set (map ?f R)" "y \<in> set (map ?f R)" and live: "rule_live x" "rule_live y" "rules_overlap x y"
    then obtain r s where rs: "r \<in> set R" "s \<in> set R" "x = ?f r" "y = ?f s" by auto
    from out [OF rs(1,2)] live show "x = y" unfolding rs(3,4) by simp
  qed
  then show ?thesis by (simp add: rewrite_rule_def)
qed

lemma find_rule_insert:
  assumes "rules_ok R" "rules_ok (R @ [row])"
  shows "find_first (rule_in_force k d) (R @ [row]) =
    (if rule_in_force k d row then Some row else find_first (rule_in_force k d) R)"
  by (rule pay_rules.find_insert [OF assms])

lemma find_rule_rewrite:
  assumes "rules_ok R" "rules_ok (rewrite_rule (pr_id row) g R)" "row \<in> set R" "pr_id (g row) = pr_id row"
  shows "find_first (rule_in_force k d) (rewrite_rule (pr_id row) g R) =
    (if rule_in_force k d (g row) then Some (g row)
     else if find_first (rule_in_force k d) R = Some row then None else find_first (rule_in_force k d) R)"
proof -
  have "rewrite_rule (pr_id row) g R = map (\<lambda>r. if r = row then g row else r) R"
    unfolding rewrite_rule_def by (rule map_cong [OF refl]) (simp add: pay_rules.same_row [OF assms(1) _ assms(3)])
  with pay_rules.find_rewrite [OF assms(1) _ assms(3), of "\<lambda>r. if r = row then g row else r" k d] assms(2,4)
  show ?thesis by simp
qed

lemma find_rule_iff:
  "rules_ok R \<Longrightarrow> find_first (rule_in_force k d) R = Some r \<longleftrightarrow> r \<in> set R \<and> rule_in_force k d r"
  by (rule pay_rules.find_in_force)

section \<open>What the calculation loads\<close>

text \<open>The loader of the packet, with its choice of the latest start, has only one rule to choose from.\<close>

lemma load_effective_rules_in_force:
  assumes "rules_ok (pay_rules db)"
  shows "load_effective_rules c ids d db (driver, ty) = (if driver \<in> set ids
    then map_option minmax_rule_from_row (find_first (rule_in_force (c, driver, ty) d) (pay_rules db)) else None)"
proof -
  let ?R = "pay_rules db" and ?P = "rule_in_effect c ids d"
  let ?T = "sort_key (\<lambda>r. - pr_effective_from r) (filter ?P ?R)"
  have valid: "pr_rule_type r \<in> set valid_rule_types" if "r \<in> set ?R" for r
    using rules_okD(2) [OF assms that] by (simp add: rule_row_ok_def)
  have pred: "pr_driver_id r = driver \<and> pr_rule_type r = ty \<longleftrightarrow> rule_in_force (c, driver, ty) d r" if "r \<in> set ?T" for r
    using that by (auto simp: rule_in_effect_def rule_in_force_def rule_live_def)
  then have same: "find_first (\<lambda>r. pr_driver_id r = driver \<and> pr_rule_type r = ty) ?T = find_first (rule_in_force (c, driver, ty) d) ?T"
    by (rule find_first_cong)
  show ?thesis
  proof (cases "driver \<in> set ids")
    case True
    have "find_first (rule_in_force (c, driver, ty) d) ?T = find_first (rule_in_force (c, driver, ty) d) ?R"
    proof (rule pay_rules.find_in_any_order [OF assms])
      fix r assume "r \<in> set ?R" "rule_in_force (c, driver, ty) d r"
      with True valid show "r \<in> set ?T"
        by (auto simp: rule_in_effect_def rule_in_force_def rule_live_def valid_rule_types_def)
    qed auto
    with same True show ?thesis by (simp add: load_effective_rules_def)
  next
    case False
    then have "find_first (\<lambda>r. pr_driver_id r = driver \<and> pr_rule_type r = ty) ?T = None"
      by (auto simp: find_first_None_iff rule_in_effect_def)
    with False show ?thesis by (simp add: load_effective_rules_def)
  qed
qed

end
