(* ===== verification/Rule_Runs.thy ===== *)
theory Rule_Runs
  imports Rule_Facts
begin

text \<open>
  Successful requests on pay rules, each with what it checked and wrote, and runs in which they
  alternate with everything else the system does.
\<close>

section \<open>What a successful request has checked and written\<close>

definition rules_written :: "pay_rule_row list \<Rightarrow> compensation_state \<Rightarrow> compensation_state \<Rightarrow> bool" where
  "rules_written R co co' \<longleftrightarrow> co_creation co' = with_db (\<lambda>db. db\<lparr>pay_rules := R\<rparr>) (co_creation co) \<and>
     co_next_schedule co' = co_next_schedule co"

lemma rules_writtenD:
  assumes "rules_written R co co'"
  shows "pay_rules (co_db co') = R" "periods (co_db co') = periods (co_db co)"
    "eligibility (co_db co') = eligibility (co_db co)" "assignments (co_db co') = assignments (co_db co)"
    "rate_schedules (co_db co') = rate_schedules (co_db co)" "cr_setup (co_creation co') = cr_setup (co_creation co)"
  using assms by (simp_all add: rules_written_def with_db_def)

lemma rules_written_simps:
  "rules_written R co (write_audit c b u i a co') = rules_written R co co'"
  "rules_written R co (update_rule_columns i f co') = rules_written R co co'"
  "rules_written R co (with_rules R co)"
  by (simp_all add: rules_written_def write_audit_def update_rule_columns_def with_rules_def update_db_def)

lemma rules_written_same: "rules_written (pay_rules (co_db co)) co co"
  by (simp add: rules_written_def with_db_def)

lemma load_rule_rowD:
  assumes "load_rule_row i c co = Inr row"
  shows "row \<in> set (pay_rules (co_db co))" "pr_id row = i" "pr_company_id row = c"
  using assms find_first_SomeD by (fastforce simp: load_rule_row_def split: option.splits)+

lemma create_ruleE:
  assumes "create_driver_pay_rule env ck c user data seen co = Inr co'"
  obtains row branch calendar currency where
    "row = new_rule c data (pr_amount row) branch calendar co" "rule_fits row (pay_rules (co_db co))"
    "lock_monetary_write c co = Inr currency"
    "normalize_typed_amount (Finite (nr_amount data)) currency = Inr (pr_amount row)"
    "home_calendar c branch (nr_effective_from data) co = Inr calendar"
    "require_no_finalized_payroll c (nr_driver_id data) (Some (nr_effective_from data)) (nr_effective_to data) PeriodStart
      (co_db co) = Inr ()"
    "rules_written (pay_rules (co_db co) @ [row]) co co'"
proof -
  from assms obtain currency amount branch calendar where
    *: "lock_monetary_write c co = Inr currency" "normalize_typed_amount (Finite (nr_amount data)) currency = Inr amount"
      "home_calendar c branch (nr_effective_from data) co = Inr calendar"
      "require_no_finalized_payroll c (nr_driver_id data) (Some (nr_effective_from data)) (nr_effective_to data) PeriodStart
        (co_db co) = Inr ()"
    and w: "\<exists>b u i a. map_r (write_audit c b u i a)
      (insert_rule env (ck_statement ck) user data (new_rule c data amount branch calendar co) co) = Inr co'"
    by (clarsimp simp: create_driver_pay_rule_def Let_def bind_r_Inr_iff split: option.splits) blast
  have row: "new_rule c data amount branch calendar co = new_rule c data (pr_amount (new_rule c data amount branch calendar co)) branch calendar co"
    by (simp add: new_rule_def)
  from w show thesis
    by (intro that [OF row _ *(1) _ *(3,4)])
      (auto simp: *(2) insert_rule_def bind_r_Inr_iff map_r_Inr_iff guard_r_def rules_written_simps new_rule_def split: if_splits)
qed

text \<open>A rule keeps its terms: everything but its status and its end.\<close>

definition rule_terms :: "pay_rule_row \<Rightarrow> pay_rule_row" where
  "rule_terms r = r\<lparr>pr_status := [], pr_effective_to := None\<rparr>"

definition same_rule :: "pay_rule_row \<Rightarrow> pay_rule_row \<Rightarrow> bool" where
  "same_rule r s \<longleftrightarrow> rule_terms r = rule_terms s"

lemma same_rule_refl [simp]: "same_rule r r"
  by (simp add: same_rule_def)

lemma same_ruleD:
  assumes "same_rule r s"
  shows "pr_id r = pr_id s" "pr_company_id r = pr_company_id s" "pr_driver_id r = pr_driver_id s"
    "pr_rule_type r = pr_rule_type s" "pr_effective_from r = pr_effective_from s" "pr_amount r = pr_amount s"
  using assms unfolding same_rule_def rule_terms_def by (metis pay_rule_row.select_convs pay_rule_row.update_convs pay_rule_row.surjective)+

lemma same_rule_trans: "same_rule r s \<Longrightarrow> same_rule s t \<Longrightarrow> same_rule r t"
  by (simp add: same_rule_def)

definition rules_kept :: "compensation_state \<Rightarrow> compensation_state \<Rightarrow> bool" where
  "rules_kept co co' \<longleftrightarrow> (\<forall>r\<in>set (pay_rules (co_db co)). \<exists>r'\<in>set (pay_rules (co_db co')). same_rule r r')"

lemma rules_kept_refl: "rules_kept co co"
  unfolding rules_kept_def using same_rule_refl by blast

lemma rules_kept_trans: "rules_kept co co1 \<Longrightarrow> rules_kept co1 co2 \<Longrightarrow> rules_kept co co2"
  unfolding rules_kept_def using same_rule_trans by blast

lemma rules_kept_driver:
  assumes "rules_kept seen co" "rules_ok (pay_rules (co_db co))"
    and "load_rule_row i c seen = Inr pre" "load_rule_row i c co = Inr row"
  shows "pr_driver_id pre = pr_driver_id row"
proof -
  note pre = load_rule_rowD [OF assms(3)] and row = load_rule_rowD [OF assms(4)]
  from assms(1) pre(1) obtain r where r: "r \<in> set (pay_rules (co_db co))" "same_rule pre r" unfolding rules_kept_def by blast
  with pay_rules.same_row [OF assms(2) r(1) row(1)] same_ruleD(1) [OF r(2)] pre(2) row(2) have "r = row" by simp
  with same_ruleD(3) [OF r(2)] show ?thesis by simp
qed

lemma load_rule_for_actionD:
  assumes "load_rule_for_action env instant i c user co = Inr row"
  shows "load_rule_row i c co = Inr row"
proof -
  from assms obtain x where x: "load_rule_row i c co = Inr x"
    and rest: "(case driver_compensation_read_scope env c user (pr_driver_id x) instant co of
       Inl e \<Rightarrow> Inl (if is_forbidden e then rule_not_found else e)
     | Inr scope \<Rightarrow> if \<not> rule_seen scope x then Inl rule_not_found
         else bind_r (require_compensation_edit_standing env c user (pr_driver_id x) co) (\<lambda>_. Inr x)) = Inr row"
    unfolding load_rule_for_action_def by (elim bind_r_InrE)
  from rest have "x = row"
    by (cases "driver_compensation_read_scope env c user (pr_driver_id x) instant co")
      (simp_all add: bind_r_Inr_iff split: if_split_asm)
  with x show ?thesis by simp
qed

lemma end_ruleE:
  assumes "end_driver_pay_rule env ck i c user e seen co = Inr co'" "rules_kept seen co" "rules_ok (pay_rules (co_db co))"
  obtains row where "row \<in> set (pay_rules (co_db co))" "pr_id row = i" "pr_company_id row = c"
    "pr_status row = ''Active''" "pr_effective_from row \<le> e"
    "rule_fits (row\<lparr>pr_status := ''Ended'', pr_effective_to := Some e\<rparr>) (pay_rules (co_db co))"
    "require_no_finalized_payroll c (pr_driver_id row) (Some (fst (changed_window e row))) (snd (changed_window e row))
      PeriodStart (co_db co) = Inr ()"
    "rules_written (rewrite_rule i (\<lambda>r. r\<lparr>pr_status := ''Ended'', pr_effective_to := Some e\<rparr>) (pay_rules (co_db co))) co co'"
proof -
  from assms(1) obtain pre row where pre: "load_rule_row i c seen = Inr pre" and row: "load_rule_row i c co = Inr row"
    and *: "pr_status row = ''Active''" "pr_effective_from row \<le> e"
      "rule_fits (row\<lparr>pr_status := ''Ended'', pr_effective_to := Some e\<rparr>) (pay_rules (co_db co))"
      "require_no_finalized_payroll c (pr_driver_id pre) (Some (fst (changed_window e row))) (snd (changed_window e row))
        PeriodStart (co_db co) = Inr ()"
    and w: "\<exists>b. co' = write_audit c b user i ''DRIVER_PAY_RULE_ENDED''
       (update_rule_columns i (rule_updated_by user) (with_rules (end_row i e (pay_rules (co_db co))) co))"
    by (clarsimp simp: end_driver_pay_rule_def Let_def bind_r_Inr_iff require_endable_def require_status_def split_beta
        dest!: load_rule_for_actionD) blast
  from w have "rules_written (rewrite_rule i (\<lambda>r. r\<lparr>pr_status := ''Ended'', pr_effective_to := Some e\<rparr>) (pay_rules (co_db co))) co co'"
    by (auto simp: rules_written_simps end_row_def rewrite_rule_def)
  with * load_rule_rowD [OF row] rules_kept_driver [OF assms(2,3) pre row] show thesis by (intro that [of row]) simp_all
qed

lemma notes_ruleE:
  assumes "update_driver_pay_rule_notes env ck i c user txt seen co = Inr co'"
  shows "rules_written (pay_rules (co_db co)) co co'"
  using assms
  by (auto simp: update_driver_pay_rule_notes_def bind_r_Inr_iff rules_written_simps intro: rules_written_same)

lemma void_ruleE:
  assumes "void_driver_pay_rule env ck i c user seen co = Inr co'" "rules_kept seen co" "rules_ok (pay_rules (co_db co))"
  obtains row where "row \<in> set (pay_rules (co_db co))" "pr_id row = i" "pr_company_id row = c" "pr_status row \<noteq> ''Voided''"
    "require_no_finalized_payroll c (pr_driver_id row) (Some (pr_effective_from row)) (pr_effective_to row)
      PeriodStart (co_db co) = Inr ()"
    "rules_written (rewrite_rule i (\<lambda>r. r\<lparr>pr_status := ''Voided''\<rparr>) (pay_rules (co_db co))) co co'"
proof -
  from assms(1) obtain pre row where pre: "load_rule_row i c seen = Inr pre" and row: "load_rule_row i c co = Inr row"
    and *: "pr_status row \<noteq> ''Voided''"
      "require_no_finalized_payroll c (pr_driver_id pre) (Some (pr_effective_from row)) (pr_effective_to row)
        PeriodStart (co_db co) = Inr ()"
    and w: "\<exists>b. co' = write_audit c b user i ''DRIVER_PAY_RULE_VOIDED''
       (update_rule_columns i (rule_updated_by user) (with_rules (void_rule_row i (pay_rules (co_db co))) co))"
    by (clarsimp simp: void_driver_pay_rule_def bind_r_Inr_iff require_not_voided_def dest!: load_rule_for_actionD) blast
  from w have "rules_written (rewrite_rule i (\<lambda>r. r\<lparr>pr_status := ''Voided''\<rparr>) (pay_rules (co_db co))) co co'"
    by (auto simp: rules_written_simps void_rule_row_def rewrite_rule_def)
  with * load_rule_rowD [OF row] rules_kept_driver [OF assms(2,3) pre row] show thesis by (intro that [of row]) simp_all
qed

section \<open>The rule in force\<close>

definition rule_on :: "int \<times> int \<times> string \<Rightarrow> date \<Rightarrow> compensation_state \<Rightarrow> pay_rule_row option" where
  "rule_on k d co = find_first (rule_in_force k d) (pay_rules (co_db co))"

text \<open>The rule the calculation of a Driver loads for a date.\<close>

definition effective_rule :: "int \<Rightarrow> int \<Rightarrow> string \<Rightarrow> date \<Rightarrow> compensation_state \<Rightarrow> minmax_rule option" where
  "effective_rule c driver ty d co = load_effective_rules c [driver] d (co_db co) (driver, ty)"

lemma effective_rule_on:
  "rules_ok (pay_rules (co_db co)) \<Longrightarrow> effective_rule c driver ty d co = map_option minmax_rule_from_row (rule_on (c, driver, ty) d co)"
  by (simp add: effective_rule_def rule_on_def load_effective_rules_in_force)

lemma rule_on_Some:
  "rules_ok (pay_rules (co_db co)) \<Longrightarrow> rule_on k d co = Some r \<longleftrightarrow> r \<in> set (pay_rules (co_db co)) \<and> rule_in_force k d r"
  unfolding rule_on_def by (rule find_rule_iff)

lemma create_rule_step:
  assumes "create_driver_pay_rule env ck c user data seen co = Inr co'" "pay_rule_create_valid data" "rules_ok (pay_rules (co_db co))"
  obtains row branch calendar currency where
    "row = new_rule c data (pr_amount row) branch calendar co"
    "lock_monetary_write c co = Inr currency"
    "normalize_typed_amount (Finite (nr_amount data)) currency = Inr (pr_amount row)"
    "home_calendar c branch (nr_effective_from data) co = Inr calendar"
    "require_no_finalized_payroll c (nr_driver_id data) (Some (nr_effective_from data)) (nr_effective_to data) PeriodStart
      (co_db co) = Inr ()"
    "rules_written (pay_rules (co_db co) @ [row]) co co'" "rules_ok (pay_rules (co_db co'))"
    "\<And>k d. rule_on k d co' = (if rule_in_force k d row then Some row else rule_on k d co)"
    "\<And>k d. rule_in_force k d row \<Longrightarrow> rule_on k d co = None"
  using assms(1)
proof (rule create_ruleE)
  fix row branch calendar currency
  assume row: "row = new_rule c data (pr_amount row) branch calendar co" and fits: "rule_fits row (pay_rules (co_db co))"
    and rest: "lock_monetary_write c co = Inr currency"
      "normalize_typed_amount (Finite (nr_amount data)) currency = Inr (pr_amount row)"
      "home_calendar c branch (nr_effective_from data) co = Inr calendar"
      "require_no_finalized_payroll c (nr_driver_id data) (Some (nr_effective_from data)) (nr_effective_to data) PeriodStart
        (co_db co) = Inr ()"
    and co': "rules_written (pay_rules (co_db co) @ [row]) co co'"
  have cols: "pr_id row = next_rule_id (pay_rules (co_db co))" "pr_rule_type row = nr_rule_type data" "pr_status row = ''Active''"
    "pr_effective_from row = nr_effective_from data" "pr_effective_to row = nr_effective_to data"
    by (subst row, simp add: new_rule_def)+
  have "0 < pr_amount row" "pr_amount row < numeric_18_4_max_exclusive"
    using rest(2) by (auto simp: normalize_typed_amount_def bind_r_Inr_iff not_le split: if_splits)
  then have "rule_row_ok row"
    using assms(2) by (auto simp: rule_row_ok_def cols pay_rule_create_valid_def not_after_def)
  from insert_rules_ok [OF assms(3) this cols(1) fits] have ok: "rules_ok (pay_rules (co_db co) @ [row])" .
  have alone: "rule_on k d co = None" if "rule_in_force k d row" for k d
  proof (cases "rule_on k d co")
    case (Some r)
    then have r: "r \<in> set (pay_rules (co_db co))" "rule_in_force k d r" by (simp_all add: rule_on_Some [OF assms(3)])
    with pay_rules.exclusion [OF ok, of r row k d] that have "r = row" by simp
    with next_rule_id_fresh [OF r(1)] cols(1) show ?thesis by simp
  qed
  show thesis
    by (rule that [OF row rest co' _ _ alone])
      (simp_all add: rules_writtenD(1) [OF co'] ok rule_on_def find_rule_insert [OF assms(3) ok])
qed

lemma rewrite_rule_step:
  assumes "rules_ok (pay_rules (co_db co))" "row \<in> set (pay_rules (co_db co))"
    and "rule_row_ok (g row)" "rule_fits (g row) (pay_rules (co_db co))" "same_rule row (g row)"
    and "rules_written (rewrite_rule (pr_id row) g (pay_rules (co_db co))) co co'"
  shows "rules_ok (pay_rules (co_db co'))" "rules_kept co co'"
    "rule_on k d co' = (if rule_in_force k d (g row) then Some (g row)
       else if rule_on k d co = Some row then None else rule_on k d co)"
proof -
  note id = same_ruleD(1) [OF assms(5)]
  note ok = rewrite_rules_ok [where g = g, OF assms(1-4) id [symmetric]]
  show "rules_ok (pay_rules (co_db co'))" by (simp add: rules_writtenD(1) [OF assms(6)] ok)
  show "rule_on k d co' = (if rule_in_force k d (g row) then Some (g row)
       else if rule_on k d co = Some row then None else rule_on k d co)"
    by (simp add: rule_on_def rules_writtenD(1) [OF assms(6)] find_rule_rewrite [OF assms(1) ok assms(2) id [symmetric]])
  have "same_rule r (if pr_id r = pr_id row then g r else r)" if "r \<in> set (pay_rules (co_db co))" for r
    using pay_rules.same_row [OF assms(1) that assms(2)] assms(5) by auto
  then show "rules_kept co co'"
    unfolding rules_kept_def rules_writtenD(1) [OF assms(6)] rewrite_rule_def set_map by blast
qed

definition ended_on :: "date \<Rightarrow> pay_rule_row \<Rightarrow> pay_rule_row" where
  "ended_on e r = r\<lparr>pr_status := ''Ended'', pr_effective_to := Some e\<rparr>"

lemma end_rule_step:
  assumes "end_driver_pay_rule env ck i c user e seen co = Inr co'" "rules_kept seen co" "rules_ok (pay_rules (co_db co))"
  obtains row where "row \<in> set (pay_rules (co_db co))" "pr_id row = i" "pr_company_id row = c"
    "pr_status row = ''Active''" "pr_effective_from row \<le> e"
    "require_no_finalized_payroll c (pr_driver_id row) (Some (fst (changed_window e row))) (snd (changed_window e row))
      PeriodStart (co_db co) = Inr ()"
    "rules_written (rewrite_rule i (ended_on e) (pay_rules (co_db co))) co co'"
    "rules_ok (pay_rules (co_db co'))" "rules_kept co co'"
    "\<And>k d. rule_on k d co' = (if rule_in_force k d (ended_on e row) then Some (ended_on e row)
       else if rule_on k d co = Some row then None else rule_on k d co)"
  using assms
proof (rule end_ruleE)
  fix row
  assume row: "row \<in> set (pay_rules (co_db co))" "pr_id row = i" and more: "pr_company_id row = c"
    "pr_status row = ''Active''" "pr_effective_from row \<le> e"
    and fits: "rule_fits (row\<lparr>pr_status := ''Ended'', pr_effective_to := Some e\<rparr>) (pay_rules (co_db co))"
    and fin: "require_no_finalized_payroll c (pr_driver_id row) (Some (fst (changed_window e row))) (snd (changed_window e row))
      PeriodStart (co_db co) = Inr ()"
    and co': "rules_written (rewrite_rule i (\<lambda>r. r\<lparr>pr_status := ''Ended'', pr_effective_to := Some e\<rparr>) (pay_rules (co_db co))) co co'"
  have g: "(\<lambda>r. r\<lparr>pr_status := ''Ended'', pr_effective_to := Some e\<rparr>) = ended_on e" by (simp add: ended_on_def fun_eq_iff)
  have ok: "rule_row_ok (ended_on e row)"
    using rules_okD(2) [OF assms(3) row(1)] more(3) by (simp add: rule_row_ok_def ended_on_def not_after_def)
  note step = rewrite_rule_step [OF assms(3) row(1) ok fits [folded ended_on_def] _ co' [unfolded g, folded row(2)]]
  show thesis
    by (rule that [OF row more fin co' [unfolded g] step]) (simp_all add: same_rule_def rule_terms_def ended_on_def)
qed

definition voided :: "pay_rule_row \<Rightarrow> pay_rule_row" where
  "voided r = r\<lparr>pr_status := ''Voided''\<rparr>"

lemma void_rule_step:
  assumes "void_driver_pay_rule env ck i c user seen co = Inr co'" "rules_kept seen co" "rules_ok (pay_rules (co_db co))"
  obtains row where "row \<in> set (pay_rules (co_db co))" "pr_id row = i" "pr_company_id row = c" "pr_status row \<noteq> ''Voided''"
    "require_no_finalized_payroll c (pr_driver_id row) (Some (pr_effective_from row)) (pr_effective_to row)
      PeriodStart (co_db co) = Inr ()"
    "rules_written (rewrite_rule i voided (pay_rules (co_db co))) co co'"
    "rules_ok (pay_rules (co_db co'))" "rules_kept co co'"
    "\<And>k d. rule_on k d co' = (if rule_on k d co = Some row then None else rule_on k d co)"
  using assms
proof (rule void_ruleE)
  fix row
  assume row: "row \<in> set (pay_rules (co_db co))" "pr_id row = i" and more: "pr_company_id row = c" "pr_status row \<noteq> ''Voided''"
    and fin: "require_no_finalized_payroll c (pr_driver_id row) (Some (pr_effective_from row)) (pr_effective_to row)
      PeriodStart (co_db co) = Inr ()"
    and co': "rules_written (rewrite_rule i (\<lambda>r. r\<lparr>pr_status := ''Voided''\<rparr>) (pay_rules (co_db co))) co co'"
  have g: "(\<lambda>r. r\<lparr>pr_status := ''Voided''\<rparr>) = voided" by (simp add: voided_def fun_eq_iff)
  have dead: "\<not> rule_live (voided row)" "\<not> open_ended (voided row)" by (simp_all add: voided_def rule_live_def open_ended_def)
  have ok: "rule_row_ok (voided row)"
    using rules_okD(2) [OF assms(3) row(1)] by (simp add: rule_row_ok_def voided_def)
  have fits: "rule_fits (voided row) (pay_rules (co_db co))" using dead by (simp add: rule_fits_def)
  have same: "same_rule row (voided row)" by (simp add: same_rule_def rule_terms_def voided_def)
  note step = rewrite_rule_step [OF assms(3) row(1) ok fits same co' [unfolded g, folded row(2)]]
  have out: "\<not> rule_in_force k d (voided row)" for k d using dead(1) by (auto simp: rule_in_force_def split: prod.splits)
  show thesis
    by (rule that [OF row more fin co' [unfolded g] step(1,2)]) (simp add: step(3) out)
qed

section \<open>Steps and runs\<close>

text \<open>
  A successful request.  The unlocked read may have seen any state whose rules are still there, which
  every earlier state of a run is (\<open>rule_run_ok\<close>).
\<close>

inductive rule_step :: "zone_env \<Rightarrow> compensation_state \<Rightarrow> compensation_state \<Rightarrow> bool" for env where
  create: "create_driver_pay_rule env ck c user data seen co = Inr co' \<Longrightarrow> pay_rule_create_valid data \<Longrightarrow> rule_step env co co'"
| finish: "end_driver_pay_rule env ck i c user e seen co = Inr co' \<Longrightarrow> rules_kept seen co \<Longrightarrow> rule_step env co co'"
| annotate: "update_driver_pay_rule_notes env ck i c user txt seen co = Inr co' \<Longrightarrow> rule_step env co co'"
| withdraw: "void_driver_pay_rule env ck i c user seen co = Inr co' \<Longrightarrow> rules_kept seen co \<Longrightarrow> rule_step env co co'"

text \<open>What the rest of the system does to what a rule request reads: as \<open>elsewhere\<close>, for the rules.\<close>

definition rules_elsewhere :: "compensation_state \<Rightarrow> compensation_state \<Rightarrow> bool" where
  "rules_elsewhere co co' \<longleftrightarrow> pay_rules (co_db co') = pay_rules (co_db co) \<and> rosters_kept (co_db co) (co_db co') \<and>
     follows_lifecycle (periods (co_db co)) (periods (co_db co'))"

inductive rule_run :: "zone_env \<Rightarrow> compensation_state \<Rightarrow> compensation_state \<Rightarrow> bool" for env where
  stop: "rule_run env co co"
| request: "rule_run env co co1 \<Longrightarrow> rule_step env co1 co2 \<Longrightarrow> rule_run env co co2"
| other: "rule_run env co co1 \<Longrightarrow> rules_elsewhere co1 co2 \<Longrightarrow> rule_run env co co2"

text \<open>Requests on schedules, and the steps of the workflow and of creation, are such other steps.\<close>

lemma schedule_step_rules_elsewhere:
  assumes "schedule_step env co co'"
  shows "rules_elsewhere co co'"
proof -
  from assms obtain S V n where w: "rewritten S V n co co'" by (rule schedule_step_tables)
  then have "pay_rules (co_db co') = pay_rules (co_db co)" "periods (co_db co') = periods (co_db co)"
    "eligibility (co_db co') = eligibility (co_db co)" "assignments (co_db co') = assignments (co_db co)"
    by (simp_all add: rewritten_def)
  then show ?thesis by (simp add: rules_elsewhere_def rosters_kept_def rostered_def follows_refl)
qed

lemma creation_step_rules_elsewhere:
  assumes "creation_step cenv (co_creation co) (co_creation co')" "calendar_ok cenv (co_creation co)"
    and "pay_rules (co_db co') = pay_rules (co_db co)" "rosters_kept (co_db co) (co_db co')"
  shows "rules_elsewhere co co'"
  using assms creation_step_follows [OF assms(1,2)] by (simp add: rules_elsewhere_def)

lemma rule_step_written:
  assumes "rule_step env co co'" "rules_ok (pay_rules (co_db co))"
  obtains R where "rules_written R co co'"
  using assms by cases (blast elim: create_ruleE end_ruleE void_ruleE dest: notes_ruleE)+

text \<open>And a request on rules is an other step for the schedules.\<close>

lemma rule_step_elsewhere:
  assumes "rule_step env co co'" "rules_ok (pay_rules (co_db co))" "owners_ok (co_db co)"
  shows "elsewhere co co'"
proof -
  from assms(1,2) obtain R where "rules_written R co co'" by (rule rule_step_written)
  then have "co_db co' = (co_db co)\<lparr>pay_rules := R\<rparr>" "co_next_schedule co' = co_next_schedule co"
    by (simp_all add: rules_written_def with_db_def)
  with assms(3) show ?thesis
    by (simp add: elsewhere_def rates_untouched_def rosters_kept_def rostered_def follows_refl find_rate_definition_def owners_ok_def)
qed

lemma rule_step_ok:
  assumes "rule_step env co co'" "rules_ok (pay_rules (co_db co))"
  shows "rules_ok (pay_rules (co_db co'))" "rules_kept co co'"
proof -
  have "rules_ok (pay_rules (co_db co')) \<and> rules_kept co co'"
    using assms(1)
  proof cases
    case (create ck c user data seen)
    from create assms(2) show ?thesis
    proof (rule create_rule_step)
      fix row
      assume "rules_written (pay_rules (co_db co) @ [row]) co co'" "rules_ok (pay_rules (co_db co'))"
      moreover from this have "set (pay_rules (co_db co)) \<subseteq> set (pay_rules (co_db co'))" by (auto simp: rules_writtenD(1))
      ultimately show ?thesis unfolding rules_kept_def using same_rule_refl by blast
    qed
  next
    case finish
    from finish assms(2) show ?thesis by (rule end_rule_step) simp
  next
    case annotate
    from rules_writtenD(1) [OF notes_ruleE [OF annotate]] assms(2) show ?thesis
      unfolding rules_kept_def by (metis same_rule_refl)
  next
    case withdraw
    from withdraw assms(2) show ?thesis by (rule void_rule_step) simp
  qed
  then show "rules_ok (pay_rules (co_db co'))" "rules_kept co co'" by simp_all
qed

lemma rule_run_ok:
  "rule_run env co co' \<Longrightarrow> rules_ok (pay_rules (co_db co)) \<Longrightarrow> rules_ok (pay_rules (co_db co')) \<and> rules_kept co co'"
proof (induction rule: rule_run.induct)
  case (request co co1 co2)
  with rule_step_ok [OF request(2)] show ?case by (blast intro: rules_kept_trans)
next
  case (other co co1 co2)
  then have "pay_rules (co_db co2) = pay_rules (co_db co1)" by (simp add: rules_elsewhere_def)
  with other show ?case by (simp add: rules_kept_def)
qed (simp add: rules_kept_refl)

section \<open>Finalized periods\<close>

text \<open>The first day of a Locked or Archived period with the Driver on its roster.\<close>

definition finalized_start :: "payroll_db \<Rightarrow> int \<Rightarrow> int \<Rightarrow> date \<Rightarrow> bool" where
  "finalized_start db c driver d \<longleftrightarrow> (\<exists>p\<in>set (periods db). pp_company_id p = c \<and>
     settled (pp_status p) \<and> rostered c driver db p \<and> pp_start p = d)"

lemma guarded_start:
  assumes "require_no_finalized_payroll c driver (Some f) hi PeriodStart db = Inr u" "finalized_start db c driver d"
  shows "\<not> (f \<le> d \<and> not_after hi d)"
proof
  assume d: "f \<le> d \<and> not_after hi d"
  from assms(2) obtain p where p: "p \<in> set (periods db)" "pp_company_id p = c" "settled (pp_status p)"
    "rostered c driver db p" "pp_start p = d" by (auto simp: finalized_start_def)
  with d have "p \<in> set (finalized_payroll_touched c driver (Some f) hi PeriodStart db)"
    by (auto simp: finalized_payroll_touched_def driver_payroll_periods_for_footprint_def not_before_def settled_def)
  moreover have "\<not> (\<exists>h. hi = Some h \<and> h < f)" using d by (auto simp: not_after_def)
  ultimately show False using assms(1) by (auto simp: require_no_finalized_payroll_def split: option.splits if_splits)
qed

lemma rule_terms_ended [simp]: "rule_terms (ended_on e r) = rule_terms r"
  by (simp add: rule_terms_def ended_on_def)

lemma rule_step_frozen:
  assumes "rule_step env co co'" "rules_ok (pay_rules (co_db co))" "finalized_start (co_db co) c driver d"
  shows "map_option rule_terms (rule_on (c, driver, ty) d co') = map_option rule_terms (rule_on (c, driver, ty) d co)"
  using assms(1)
proof cases
  case (create ck c' user data seen)
  from create assms(2) show ?thesis
  proof (rule create_rule_step)
    fix row branch calendar currency
    assume row: "row = new_rule c' data (pr_amount row) branch calendar co"
      and fin: "require_no_finalized_payroll c' (nr_driver_id data) (Some (nr_effective_from data)) (nr_effective_to data)
        PeriodStart (co_db co) = Inr ()"
      and new: "\<And>k d. rule_on k d co' = (if rule_in_force k d row then Some row else rule_on k d co)"
    have "\<not> rule_in_force (c, driver, ty) d row"
    proof
      assume "rule_in_force (c, driver, ty) d row"
      then have "c' = c" "nr_driver_id data = driver" "nr_effective_from data \<le> d" "not_after (nr_effective_to data) d"
        by (subst (asm) row, simp add: rule_in_force_def new_rule_def in_window_iff)+
      with guarded_start [OF fin, of d] assms(3) show False by simp
    qed
    with new show ?thesis by simp
  qed
next
  case (finish ck i c' user e seen)
  from finish assms(2) show ?thesis
  proof (rule end_rule_step)
    fix row
    assume row: "row \<in> set (pay_rules (co_db co))" "pr_company_id row = c'" "pr_status row = ''Active''"
      and fin: "require_no_finalized_payroll c' (pr_driver_id row) (Some (fst (changed_window e row))) (snd (changed_window e row))
        PeriodStart (co_db co) = Inr ()"
      and new: "\<And>k d. rule_on k d co' = (if rule_in_force k d (ended_on e row) then Some (ended_on e row)
        else if rule_on k d co = Some row then None else rule_on k d co)"
    have same: "rule_in_force (c, driver, ty) d (ended_on e row) \<longleftrightarrow> rule_in_force (c, driver, ty) d row"
    proof (cases "c' = c \<and> pr_driver_id row = driver")
      case True
      with guarded_start [OF fin, of d] assms(3) row(2,3) show ?thesis
        by (auto simp: rule_in_force_def rule_live_def ended_on_def in_window_iff not_after_def changed_window_def
            split: option.splits)
    qed (use row(2) in \<open>auto simp: rule_in_force_def ended_on_def\<close>)
    have "rule_on (c, driver, ty) d co = Some row \<longleftrightarrow> rule_in_force (c, driver, ty) d row"
      using row(1) by (simp add: rule_on_Some [OF assms(2)])
    with new [of "(c, driver, ty)" d] same show ?thesis by auto
  qed
next
  case annotate
  then show ?thesis by (simp add: rule_on_def rules_writtenD(1) [OF notes_ruleE])
next
  case (withdraw ck i c' user seen)
  from withdraw assms(2) show ?thesis
  proof (rule void_rule_step)
    fix row
    assume row: "pr_company_id row = c'"
      and fin: "require_no_finalized_payroll c' (pr_driver_id row) (Some (pr_effective_from row)) (pr_effective_to row)
        PeriodStart (co_db co) = Inr ()"
      and new: "\<And>k d. rule_on k d co' = (if rule_on k d co = Some row then None else rule_on k d co)"
    have "rule_on (c, driver, ty) d co \<noteq> Some row"
    proof
      assume "rule_on (c, driver, ty) d co = Some row"
      then have "rule_in_force (c, driver, ty) d row" by (simp add: rule_on_Some [OF assms(2)])
      with guarded_start [OF fin, of d] assms(3) row show False by (auto simp: rule_in_force_def in_window_iff)
    qed
    with new show ?thesis by simp
  qed
qed

lemma rules_elsewhere_finalized:
  assumes "rules_elsewhere co co'" "finalized_start (co_db co) c driver d"
  shows "finalized_start (co_db co') c driver d"
proof -
  from assms(2) obtain p where p: "p \<in> set (periods (co_db co))" "pp_company_id p = c" "settled (pp_status p)"
    "rostered c driver (co_db co) p" "pp_start p = d" by (auto simp: finalized_start_def)
  from assms(1) p(1) obtain s where s: "lifecycle_edge\<^sup>*\<^sup>* (pp_status p) s"
    "p\<lparr>pp_status := s\<rparr> \<in> set (periods (co_db co'))" by (auto simp: rules_elsewhere_def follows_lifecycle_def)
  moreover have "settled s" by (rule settled_stays [OF s(1) p(3)])
  moreover have "rostered c driver (co_db co') (p\<lparr>pp_status := s\<rparr>)"
    using assms(1) p(1,3,4) by (simp add: rules_elsewhere_def rosters_kept_def rostered_def)
  ultimately show ?thesis using p unfolding finalized_start_def by (intro bexI [of _ "p\<lparr>pp_status := s\<rparr>"]) auto
qed

lemma rule_step_finalized:
  assumes "rule_step env co co'" "rules_ok (pay_rules (co_db co))" "finalized_start (co_db co) c driver d"
  shows "finalized_start (co_db co') c driver d"
proof -
  from assms(1,2) obtain R where "rules_written R co co'" by (rule rule_step_written)
  from rules_writtenD [OF this] assms(3) show ?thesis by (simp add: finalized_start_def rostered_def)
qed

lemma rule_run_frozen:
  assumes "rule_run env co co'" "rules_ok (pay_rules (co_db co))" "finalized_start (co_db co) c driver d"
  shows "finalized_start (co_db co') c driver d \<and>
    map_option rule_terms (rule_on (c, driver, ty) d co') = map_option rule_terms (rule_on (c, driver, ty) d co)"
  using assms
proof (induction rule: rule_run.induct)
  case (request co co1 co2)
  then have ok: "rules_ok (pay_rules (co_db co1))" using rule_run_ok by blast
  from request have frozen: "finalized_start (co_db co1) c driver d" by blast
  from rule_step_frozen [OF request(2) ok frozen] rule_step_finalized [OF request(2) ok frozen] request show ?case by simp
next
  case (other co co1 co2)
  then have "rule_on (c, driver, ty) d co2 = rule_on (c, driver, ty) d co1" by (simp add: rules_elsewhere_def rule_on_def)
  with rules_elsewhere_finalized [OF other(2)] other show ?case by simp
qed simp

end
