(* ===== verification/Rule_Properties.thy ===== *)
theory Rule_Properties
  imports Rule_Runs Schedule_Properties
begin

text \<open>
  The properties of Minimum and Maximum rules: finalized payroll keeps the rules it was paid with, and
  each request changes exactly the dates it says.
\<close>

section \<open>A sample\<close>

text \<open>The Minimum of the sample Driver ends with the finalized week; a new one starts on the eighth day.\<close>

definition new_minimum :: pay_rule_create where
  "new_minimum = \<lparr>nr_driver_id = 7, nr_rule_type = ''MinimumPay'', nr_amount = 160, nr_effective_from = 8,
     nr_effective_to = None, nr_notes = None\<rparr>"

lemma sample_rules_evaluated:
  "rules_ok (pay_rules (co_db sample_compensation)) \<and> pay_rule_create_valid new_minimum \<and>
   (case end_driver_pay_rule sample_zone sample_clock 90 1 1 7 sample_compensation sample_compensation of Inl _ \<Rightarrow> False
    | Inr co1 \<Rightarrow> (case create_driver_pay_rule sample_zone sample_clock 1 1 new_minimum co1 co1 of Inl _ \<Rightarrow> False
    | Inr co2 \<Rightarrow> map_option mr_amount (effective_rule 1 7 ''MinimumPay'' 8 co2) = Some 160))"
  by code_simp

lemma sample_rules:
  obtains co1 co2 where
    "end_driver_pay_rule sample_zone sample_clock 90 1 1 7 sample_compensation sample_compensation = Inr co1"
    "create_driver_pay_rule sample_zone sample_clock 1 1 new_minimum co1 co1 = Inr co2"
    "map_option mr_amount (effective_rule 1 7 ''MinimumPay'' 8 co2) = Some 160"
    "rule_run sample_zone sample_compensation co1" "rule_run sample_zone sample_compensation co2"
    "rules_ok (pay_rules (co_db sample_compensation))" "pay_rule_create_valid new_minimum"
proof -
  from sample_rules_evaluated obtain co1 co2 where
    requests: "end_driver_pay_rule sample_zone sample_clock 90 1 1 7 sample_compensation sample_compensation = Inr co1"
      "create_driver_pay_rule sample_zone sample_clock 1 1 new_minimum co1 co1 = Inr co2"
    and facts: "map_option mr_amount (effective_rule 1 7 ''MinimumPay'' 8 co2) = Some 160"
      "rules_ok (pay_rules (co_db sample_compensation))" "pay_rule_create_valid new_minimum"
    by (auto split: sum.splits)
  have run: "rule_run sample_zone sample_compensation co1"
    by (rule rule_run.request [OF rule_run.stop rule_step.finish [OF requests(1) rules_kept_refl]])
  show thesis
    by (rule that [OF requests facts(1) run rule_run.request [OF run rule_step.create [OF requests(2) facts(3)]] facts(2,3)])
qed

section \<open>Finalized payroll keeps its rules\<close>

text \<open>What a loaded rule contributes to an amount: all but its status and its end.\<close>

definition clamp_terms :: "minmax_rule \<Rightarrow> minmax_rule" where
  "clamp_terms r = r\<lparr>mr_status := [], mr_effective_to := None\<rparr>"

lemma clamp_terms_row: "clamp_terms (minmax_rule_from_row r) = minmax_rule_from_row (rule_terms r)"
  by (simp add: clamp_terms_def minmax_rule_from_row_def rule_terms_def)

text \<open>C18: no request changes the Minimum and Maximum a finalized period was paid with.  For a Locked or
  Archived period that has the Driver on its roster, the rule of either type that the calculation loads
  at the period's start, its amount, start and recorded calendar stay what they were, whatever rules are
  created, ended, edited or voided afterwards, in any order with the other steps of the system.\<close>

theorem finalized_rule_fixed:
  assumes "rule_run env co co'" "rules_ok (pay_rules (co_db co))"
    and "p \<in> set (periods (co_db co))" "pp_status p \<in> {''Locked'', ''Archived''}"
    and "rostered (pp_company_id p) driver (co_db co) p"
  shows "map_option clamp_terms (load_effective_rules (pp_company_id p) ids (pp_start p) (co_db co') (driver, ty)) =
    map_option clamp_terms (load_effective_rules (pp_company_id p) ids (pp_start p) (co_db co) (driver, ty))"
proof -
  have "finalized_start (co_db co) (pp_company_id p) driver (pp_start p)"
    using assms(3-5) by (auto simp: finalized_start_def settled_def)
  with rule_run_frozen [OF assms(1,2)] have
    "map_option rule_terms (rule_on (pp_company_id p, driver, ty) (pp_start p) co') =
     map_option rule_terms (rule_on (pp_company_id p, driver, ty) (pp_start p) co)" by blast
  then have "map_option (minmax_rule_from_row \<circ> rule_terms) (rule_on (pp_company_id p, driver, ty) (pp_start p) co') =
     map_option (minmax_rule_from_row \<circ> rule_terms) (rule_on (pp_company_id p, driver, ty) (pp_start p) co)"
    unfolding option.map_comp [symmetric] by simp
  with rule_run_ok [OF assms(1,2)] assms(2) show ?thesis
    by (simp add: load_effective_rules_in_force rule_on_def option.map_comp comp_def clamp_terms_row)
qed

theorem finalized_rule_fixed_witness:
  "\<exists>co r. rule_run sample_zone sample_compensation co \<and>
     map_option clamp_terms (load_effective_rules 1 [7] 1 (co_db co) (7, ''MinimumPay'')) = Some r \<and> mr_amount r = 150 \<and>
     map_option mr_amount (effective_rule 1 7 ''MinimumPay'' 8 co) = Some 160"
proof (rule sample_rules)
  fix co1 co2
  assume run: "rule_run sample_zone sample_compensation co2" and ok: "rules_ok (pay_rules (co_db sample_compensation))"
    and new: "map_option mr_amount (effective_rule 1 7 ''MinimumPay'' 8 co2) = Some 160"
  have facts: "sample_period\<lparr>pp_status := ''Locked''\<rparr> \<in> set (periods (co_db sample_compensation))"
    "rostered 1 7 (co_db sample_compensation) (sample_period\<lparr>pp_status := ''Locked''\<rparr>)"
    "map_option mr_amount (map_option clamp_terms (load_effective_rules 1 [7] 1 (co_db sample_compensation) (7, ''MinimumPay''))) = Some 150"
    by code_simp+
  from finalized_rule_fixed [OF run ok facts(1), of 7 "[7]" "''MinimumPay''"] facts(2,3) run new show ?thesis
    by (intro exI [of _ co2]) (auto simp: sample_period_def)
qed

section \<open>What a request changes\<close>

lemma effective_is_row:
  assumes "rules_ok (pay_rules (co_db co))" "row \<in> set (pay_rules (co_db co))"
  shows "map_option mr_id (effective_rule c driver ty d co) = Some (pr_id row) \<longleftrightarrow> rule_on (c, driver, ty) d co = Some row"
  using rule_on_Some [OF assms(1), of "(c, driver, ty)" d] pay_rules.same_row [OF assms(1) _ assms(2)]
  by (auto simp: effective_rule_on [OF assms(1)] minmax_rule_from_row_def)

lemma created_rule_effect:
  assumes "create_driver_pay_rule env ck c user data seen co = Inr co'" "pay_rule_create_valid data"
    and ok: "rules_ok (pay_rules (co_db co))"
  shows "\<exists>r currency calendar. lock_monetary_write c co = Inr currency \<and>
     normalize_typed_amount (Finite (nr_amount data)) currency = Inr (mr_amount r) \<and>
     resolve_effective_setup_version c (mr_calendar_branch_id r) (nr_effective_from data) (cr_setup (co_creation co)) = Inr calendar \<and>
     mr_calendar_frequency r = frequency (ev_schedule calendar) \<and>
     mr_calendar_anchor r = anchor_start_date (ev_schedule calendar) \<and>
     mr_calendar_interval r = custom_interval_days (ev_schedule calendar) \<and>
     (\<forall>c' driver ty d. if c' = c \<and> driver = nr_driver_id data \<and> ty = nr_rule_type data \<and>
          in_window (nr_effective_from data) (nr_effective_to data) d
        then effective_rule c' driver ty d co = None \<and> effective_rule c' driver ty d co' = Some r
        else effective_rule c' driver ty d co' = effective_rule c' driver ty d co)"
  using assms
proof (rule create_rule_step)
  fix row branch calendar currency
  assume row: "row = new_rule c data (pr_amount row) branch calendar co"
    and facts: "lock_monetary_write c co = Inr currency"
      "normalize_typed_amount (Finite (nr_amount data)) currency = Inr (pr_amount row)"
      "home_calendar c branch (nr_effective_from data) co = Inr calendar"
    and ok': "rules_ok (pay_rules (co_db co'))"
    and new: "\<And>k d. rule_on k d co' = (if rule_in_force k d row then Some row else rule_on k d co)"
      "\<And>k d. rule_in_force k d row \<Longrightarrow> rule_on k d co = None"
  have cols: "pr_calendar_branch_id row = branch" "pr_calendar_frequency row = frequency (ev_schedule calendar)"
    "pr_calendar_anchor row = anchor_start_date (ev_schedule calendar)"
    "pr_calendar_interval row = custom_interval_days (ev_schedule calendar)"
    by (subst row, simp add: new_rule_def)+
  have key: "rule_in_force (c', driver, ty) d row \<longleftrightarrow> c' = c \<and> driver = nr_driver_id data \<and> ty = nr_rule_type data \<and>
      in_window (nr_effective_from data) (nr_effective_to data) d" for c' driver ty d
    by (subst row) (auto simp: rule_in_force_def new_rule_def rule_live_def)
  have resolved: "resolve_effective_setup_version c branch (nr_effective_from data) (cr_setup (co_creation co)) = Inr calendar"
    using facts(3) by (auto simp: home_calendar_def split: sum.splits py_error.splits)
  show ?thesis
    by (intro exI [of _ "minmax_rule_from_row row"] exI [of _ currency] exI [of _ calendar] conjI allI)
      (use facts resolved cols key new in \<open>auto simp: minmax_rule_from_row_def effective_rule_on [OF ok] effective_rule_on [OF ok']\<close>)
qed

lemma ended_rule_effect:
  assumes "end_driver_pay_rule env ck i c user e seen co = Inr co'" "rules_kept seen co" and ok: "rules_ok (pay_rules (co_db co))"
  shows "\<exists>row\<in>set (pay_rules (co_db co)). pr_id row = i \<and> pr_company_id row = c \<and> pr_status row = ''Active'' \<and>
     pr_effective_from row \<le> e \<and>
     (\<forall>c' driver ty d. effective_rule c' driver ty d co' =
        (if c' = c \<and> driver = pr_driver_id row \<and> ty = pr_rule_type row \<and> pr_effective_from row \<le> d \<and> d \<le> e
         then Some (minmax_rule_from_row (row\<lparr>pr_status := ''Ended'', pr_effective_to := Some e\<rparr>))
         else if map_option mr_id (effective_rule c' driver ty d co) = Some i then None
         else effective_rule c' driver ty d co))"
  using assms
proof (rule end_rule_step)
  fix row
  assume row: "row \<in> set (pay_rules (co_db co))" "pr_id row = i" "pr_company_id row = c" "pr_status row = ''Active''"
      "pr_effective_from row \<le> e"
    and ok': "rules_ok (pay_rules (co_db co'))"
    and new: "\<And>k d. rule_on k d co' = (if rule_in_force k d (ended_on e row) then Some (ended_on e row)
       else if rule_on k d co = Some row then None else rule_on k d co)"
  have key: "rule_in_force (c', driver, ty) d (ended_on e row) \<longleftrightarrow> c' = c \<and> driver = pr_driver_id row \<and>
      ty = pr_rule_type row \<and> pr_effective_from row \<le> d \<and> d \<le> e" for c' driver ty d
    using row(3) by (auto simp: rule_in_force_def rule_live_def ended_on_def in_window_iff not_after_def)
  have "effective_rule c' driver ty d co' =
        (if c' = c \<and> driver = pr_driver_id row \<and> ty = pr_rule_type row \<and> pr_effective_from row \<le> d \<and> d \<le> e
         then Some (minmax_rule_from_row (row\<lparr>pr_status := ''Ended'', pr_effective_to := Some e\<rparr>))
         else if map_option mr_id (effective_rule c' driver ty d co) = Some i then None
         else effective_rule c' driver ty d co)" for c' driver ty d
    using effective_is_row [OF ok row(1), of c' driver ty d] row(2) new [of "(c', driver, ty)" d] key [of c' driver ty d]
    by (simp add: effective_rule_on [OF ok] effective_rule_on [OF ok'] ended_on_def)
  with row show ?thesis by blast
qed

lemma voided_rule_effect:
  assumes "void_driver_pay_rule env ck i c user seen co = Inr co'" "rules_kept seen co" and ok: "rules_ok (pay_rules (co_db co))"
  shows "effective_rule c' driver ty d co' =
    (if map_option mr_id (effective_rule c' driver ty d co) = Some i then None else effective_rule c' driver ty d co)"
  using assms
proof (rule void_rule_step)
  fix row
  assume row: "row \<in> set (pay_rules (co_db co))" "pr_id row = i"
    and ok': "rules_ok (pay_rules (co_db co'))"
    and new: "\<And>k d. rule_on k d co' = (if rule_on k d co = Some row then None else rule_on k d co)"
  show ?thesis
    using effective_is_row [OF ok row(1), of c' driver ty d] row(2) new [of "(c', driver, ty)" d]
    by (simp add: effective_rule_on [OF ok] effective_rule_on [OF ok'])
qed

text \<open>C19: on every reachable table each request on a rule changes exactly the dates it says, for the
  calculation that loads the rule of a Driver, type and date.  A new rule governs each date of its window,
  which no rule of its key governed before, with the amount rounded once to the Company currency and the
  calendar of the Payroll Setup in force at its start; an ended rule governs from its start to the new
  end and no later date; a voided rule governs no date; every other date, Driver and type is left alone.\<close>

theorem pay_rule_requests_exact:
  assumes "rule_run env co0 co" "rules_ok (pay_rules (co_db co0))"
  shows "(create_driver_pay_rule env ck c user data seen co = Inr co' \<longrightarrow> pay_rule_create_valid data \<longrightarrow>
      (\<exists>r currency calendar. lock_monetary_write c co = Inr currency \<and>
         normalize_typed_amount (Finite (nr_amount data)) currency = Inr (mr_amount r) \<and>
         resolve_effective_setup_version c (mr_calendar_branch_id r) (nr_effective_from data) (cr_setup (co_creation co)) = Inr calendar \<and>
         mr_calendar_frequency r = frequency (ev_schedule calendar) \<and>
         mr_calendar_anchor r = anchor_start_date (ev_schedule calendar) \<and>
         mr_calendar_interval r = custom_interval_days (ev_schedule calendar) \<and>
         (\<forall>c' driver ty d. if c' = c \<and> driver = nr_driver_id data \<and> ty = nr_rule_type data \<and>
              in_window (nr_effective_from data) (nr_effective_to data) d
            then effective_rule c' driver ty d co = None \<and> effective_rule c' driver ty d co' = Some r
            else effective_rule c' driver ty d co' = effective_rule c' driver ty d co))) \<and>
    (end_driver_pay_rule env ck i c user e seen co = Inr co' \<longrightarrow> rules_kept seen co \<longrightarrow>
      (\<exists>row\<in>set (pay_rules (co_db co)). pr_id row = i \<and> pr_company_id row = c \<and> pr_status row = ''Active'' \<and>
         pr_effective_from row \<le> e \<and>
         (\<forall>c' driver ty d. effective_rule c' driver ty d co' =
            (if c' = c \<and> driver = pr_driver_id row \<and> ty = pr_rule_type row \<and> pr_effective_from row \<le> d \<and> d \<le> e
             then Some (minmax_rule_from_row (row\<lparr>pr_status := ''Ended'', pr_effective_to := Some e\<rparr>))
             else if map_option mr_id (effective_rule c' driver ty d co) = Some i then None
             else effective_rule c' driver ty d co)))) \<and>
    (void_driver_pay_rule env ck i c user seen co = Inr co' \<longrightarrow> rules_kept seen co \<longrightarrow>
      (\<forall>c' driver ty d. effective_rule c' driver ty d co' =
         (if map_option mr_id (effective_rule c' driver ty d co) = Some i then None else effective_rule c' driver ty d co)))"
proof -
  have ok: "rules_ok (pay_rules (co_db co))" using rule_run_ok [OF assms] by simp
  show ?thesis
    by (intro conjI impI allI; (elim created_rule_effect ended_rule_effect)?; (rule voided_rule_effect)?) (rule ok | assumption)+
qed

theorem pay_rule_requests_exact_witness:
  "\<exists>co co' r. create_driver_pay_rule sample_zone sample_clock 1 1 new_minimum co co = Inr co' \<and>
     effective_rule 1 7 ''MinimumPay'' 9 co = None \<and> effective_rule 1 7 ''MinimumPay'' 9 co' = Some r \<and>
     effective_rule 1 7 ''MaximumPay'' 9 co' = effective_rule 1 7 ''MaximumPay'' 9 co"
proof (rule sample_rules)
  fix co1 co2
  assume create: "create_driver_pay_rule sample_zone sample_clock 1 1 new_minimum co1 co1 = Inr co2"
    and run: "rule_run sample_zone sample_compensation co1" and ok: "rules_ok (pay_rules (co_db sample_compensation))"
    and valid: "pay_rule_create_valid new_minimum"
  from pay_rule_requests_exact [OF run ok, THEN conjunct1, rule_format, OF create valid] obtain r where
    effect: "\<forall>c' driver ty d. if c' = 1 \<and> driver = nr_driver_id new_minimum \<and> ty = nr_rule_type new_minimum \<and>
              in_window (nr_effective_from new_minimum) (nr_effective_to new_minimum) d
            then effective_rule c' driver ty d co1 = None \<and> effective_rule c' driver ty d co2 = Some r
            else effective_rule c' driver ty d co2 = effective_rule c' driver ty d co1" by blast
  from effect [rule_format, of 1 7 "''MinimumPay''" 9] effect [rule_format, of 1 7 "''MaximumPay''" 9] create show ?thesis
    by (intro exI [of _ co1] exI [of _ co2] exI [of _ r]) (simp add: new_minimum_def in_window_def)
qed

end
