(* ===== verification/Spec2Isabelle.thy ===== *)
theory Spec2Isabelle
  imports Packet_Properties Kernel_Properties Calendar_Properties Resolution_Properties
    Workflow_Properties Snapshot_Properties Creation_Properties Schedule_Properties
    Rule_Properties
begin

text \<open>
  A verification development of the payroll core of the Flussra backend (\<open>src/backend/app\<close>), a
  FastAPI service over PostgreSQL.

  \<^bold>\<open>The program.\<close>  Source rows of a payroll period (quantities per driver and day, Status
  selections, Bonus events) are priced live from effective-dated rate schedules into a
  calculation packet.  Submitting a period freezes that packet into an immutable, hashed
  snapshot and opens a review item; the decision approves or returns the period; finalization
  verifies the approved snapshot again, writes its FinalLines to the ledger and locks the period.

  \<^bold>\<open>Money.\<close>  \<open>Decimals\<close> models \<open>decimal.Decimal\<close>: a finite decimal is its rational value, and the
  operations of the ambient context round to 28 digits (60 in the proration).  \<open>Payable_Rounding\<close>
  is \<open>payroll/calculation/payable_rounding.py\<close>, \<open>payroll/typed_amount.py\<close> and \<open>company_currency.py\<close>;
  \<open>Ordinal_Tiers\<close>, \<open>Minmax_Proration\<close> and \<open>Definition_Calculation\<close> are the kernels under
  \<open>payroll/calculation\<close> and \<open>payroll/definition_calculation.py\<close>.  \<open>Kernel_Properties\<close> relates them
  to their reference meanings: nearest grid value, one rate per unit, exact shares.

  \<^bold>\<open>Calendar.\<close>  \<open>Calendar\<close> is the part of \<open>datetime\<close> and \<open>calendar\<close> the code uses, over proleptic
  ordinals; \<open>Chronology\<close> and \<open>Timeline\<close> are \<open>payroll_setup/chronology.py\<close>.  The searches for
  neighbouring period starts are recursive functions with termination proofs, so
  \<open>Calendar_Properties\<close> states that they return as well as what they return.

  \<^bold>\<open>From tables to a packet.\<close>  A table is a list of records, in storage order where the code
  orders nothing.  \<open>Rate_Resolver\<close> is \<open>compensation/resolver.py\<close>; \<open>Live_Lines\<close> the loads and live
  calculations of \<open>payroll/live_source_calculation.py\<close>, \<open>status_calculation.py\<close> and \<open>bonus.py\<close>;
  \<open>Eligibility\<close> the frozen roster of \<open>payroll/eligibility.py\<close>; \<open>Minmax_Evaluation\<close> and
  \<open>Period_Calculation\<close> are \<open>payroll/period_calculation.py\<close>.  \<open>Packet_Facts\<close> holds the lemmas on the
  accumulators; \<open>Resolution_Properties\<close> and \<open>Packet_Properties\<close> the theorems: totals are exact sums
  of amounts rounded once, no line or day is lost or counted twice, blockers are complete.

  \<^bold>\<open>Evidence.\<close>  \<open>Canonical_Json\<close>, \<open>Snapshot_Content\<close> and \<open>Snapshot_Hash\<close> are
  \<open>payroll/snapshot_hash.py\<close> and the content half of \<open>calculation_snapshot.py\<close>;
  \<open>Snapshot_Store\<close> the rows the writer inserts and the loader of \<open>snapshot_verification.py\<close>;
  \<open>Snapshot_Verification\<close> its reconciliations; \<open>Snapshot_Capture\<close> the writer with its guards.
  \<open>Hash_Facts\<close> shows that the hashed document determines the content, \<open>Store_Facts\<close> that a loaded
  content is the inserted one, \<open>Capture_Facts\<close> that a captured content pays what the packet pays.
  \<open>Snapshot_Archive\<close> states the contract the workflow relies on as a locale (a capture adds one
  snapshot and leaves the others alone, a verified snapshot stays verified) and interprets it on
  the writer and the verification; \<open>Snapshot_Properties\<close> has the resulting theorems.

  \<^bold>\<open>Workflow.\<close>  \<open>Access\<close> is the authorization of \<open>access/\<close> with the SQL permission function;
  \<open>Final_Lines\<close> is \<open>payroll/final_line_projection.py\<close>; \<open>Workflow\<close> is the state of all tables and
  the reads and claims the handlers share; \<open>Period_Lifecycle\<close>, \<open>Review_Decision\<close> and \<open>Finalization\<close>
  are the handlers of \<open>payroll/period_lifecycle.py\<close>, \<open>review/service.py\<close> and
  \<open>payroll/finalization.py\<close>, guard by guard in the order of the code.  \<open>Workflow_Facts\<close> gives the
  effect of each handler on the four tables the workflow owns and the invariant \<open>workflow_ok\<close> of
  these tables; \<open>Workflow_Runs\<close> has the step relation, its reachable states and the refinement of
  the abstract lifecycle; \<open>Workflow_Progress\<close> shows that in a good state no guard refuses an
  authorized approval or finalization; \<open>Workflow_Properties\<close> has the theorems and
  \<open>Workflow_Samples\<close> the small Company their witnesses run on.

  \<^bold>\<open>Creation of periods.\<close>  \<open>Setup_Resolver\<close> is \<open>payroll_setup/resolver.py\<close>, the Payroll Setup version
  that governs a date; \<open>Period_Creation\<close> is \<open>payroll/period_creation.py\<close>: the preview of signed
  candidates and the confirmation that inserts the period with its days, its definition layout and
  its roster.  \<open>Creation_Facts\<close> gives its effect on the tables and shows that it is a step of the
  workflow; \<open>Creation_Runs\<close> interleaves creations with all other requests; \<open>Creation_Progress\<close> shows
  that a previewed candidate can be confirmed; \<open>Creation_Properties\<close> has the theorems: Branch
  calendars continue day by day and never overlap, and a candidate is consumed once.

  \<^bold>\<open>Rates.\<close>  \<open>Compensation_Context\<close> is \<open>compensation/driver_context.py\<close> and \<open>payroll/guards.py\<close>: who may
  change and read the compensation of a Driver, and the guard of finalized payroll.
  \<open>Rate_Schedules\<close> is \<open>compensation/schedules.py\<close>: the requests that create, edit, fill in, approve,
  void and discard a rate schedule, with the triggers and constraints behind them, and its reads.
  The abstract view is \<open>rate_timeline\<close>, the schedule in force on each date (\<open>Schedule_Facts\<close>);
  \<open>Schedule_Effects\<close> inverts each request and states the invariant \<open>schedules_ok\<close>; \<open>Schedule_Runs\<close>
  shows that a request keeps it and is a step of the timeline, and interleaves requests with all
  other steps of the system (\<open>compensation_run\<close>), which leave the rate tables alone;
  \<open>Schedule_Progress\<close> shows when an approval is granted; \<open>Schedule_Properties\<close> has the theorems.

  \<^bold>\<open>Pay rules.\<close>  \<open>Pay_Rules\<close> is \<open>payroll/driver_pay_rules.py\<close>: the requests that create, end, annotate and
  void a Minimum or Maximum rule, and the reads with the calendar hint.  \<open>Rule_Facts\<close> states the
  invariant \<open>rules_ok\<close> and shows that the loader of the packet never has two rules to choose from;
  \<open>Rule_Runs\<close> gives what each request checked and wrote and interleaves requests with all other
  steps (\<open>rule_run\<close>); \<open>Rule_Properties\<close> has the theorems.  Schedules and rules share the contract of an
  effective-dated table with an exclusion constraint, the locale \<open>dated_rows\<close> (\<open>Dated_Rows\<close>).

  \<^bold>\<open>Errors.\<close>  Every operation that can raise returns \<open>py_error + 'a\<close> (\<open>Prelude\<close>): \<open>ValueError\<close>,
  \<open>HttpError\<close> with its status code and a shortened detail, or \<open>IntegrityError\<close> with its code.  An
  error leaves the state alone, as the rollback of the request does.

  \<^bold>\<open>Parameters.\<close>  \<open>digest\<close> stands for SHA-256 of a canonical JSON text and is arbitrary except
  where a theorem asks for an injective one; \<open>boundary\<close> is the instant at which a local day starts
  in a time zone.  \<open>creation_env\<close> adds the keyed signature, the base64 JSON text of a candidate
  payload with its reading, and the collation of the database.  \<open>zone_env\<close> is that boundary with the
  local day of an instant, and \<open>request_clock\<close> holds the instants at which a request on rates reads
  the clock.  They stand for library code and are arguments of the definitions.

  \<^bold>\<open>Bounds.\<close>  The text of a decimal searches its number of places up to 100, far above the four to
  twelve places of the columns; the suffix search of a
  period code terminates because the codes in use are finitely many; \<open>bounded_driver\<close> and \<open>bounded_content\<close> are the NUMERIC bounds of
  the columns with at most a million drivers and a thousand components, under which sums are
  exact in 28 digits.  There is no other fuel.

  \<^bold>\<open>Concurrency.\<close>  A handler is one transaction, serialized per Branch by the advisory lock of
  \<open>payroll/workflow_lock.py\<close>; a run is a sequence of handlers.  The partial unique indexes on
  the slot statuses are part of the status update, so a lost race is an error branch.  The requests
  on rates and pay rules read once before they hold their locks: they take the state that read saw as a
  second argument, unrelated except that a rule keeps its Driver, as it does along a run.

  \<^bold>\<open>Not modelled.\<close>  Routers and response schemas; reports and dashboards, which only read; the
  day grid and the CRUD of definitions, settings and users, which write the tables the model
  reads and appear in a run as an arbitrary edit of them; imports and transfers; audit-log rows;
  authentication; the frontend and the schema migrations, apart from the indexes and the
  permission function.
\<close>

end
